(* ===== verification/Prelude.thy ===== *)
theory Prelude
  imports Main "HOL-Library.Word" "HOL-Library.AList"
begin

text \<open>
  The vocabulary every component shares: JavaScript's insertion-ordered \<open>Map\<close> and \<open>Set\<close>,
  the string operations the sources call, decimal and hexadecimal printing and reading, and the
  generic locale of an operation that preserves an invariant.

  A JavaScript string is a list of characters below 256. The operations are the language's own on
  that range: \<open>js_lower\<close> folds ASCII and Latin-1 capitals, \<open>js_trim\<close> drops the white space of
  that range. Time (\<open>Date.now()\<close>) is an argument of type \<^typ>\<open>int\<close> wherever the code reads
  the clock.
\<close>

section \<open>Automation\<close>

named_theorems jsmap_simps \<open>lookups after updates of an insertion-ordered map\<close>
named_theorems preserved \<open>operations that keep their component's invariant\<close>

section \<open>JavaScript Map and Set\<close>

type_synonym ('k, 'v) jsmap = "('k \<times> 'v) list"

text \<open>
  \<open>Map.prototype.set\<close> overwrites the entry in place when the key is present and appends
  otherwise; \<open>delete\<close> removes the entry; iteration follows insertion order. These are the
  library's \<open>AList.update\<close> and \<open>AList.delete\<close>.
\<close>

abbreviation jm_set :: "'k \<Rightarrow> 'v \<Rightarrow> ('k, 'v) jsmap \<Rightarrow> ('k, 'v) jsmap" where
  "jm_set \<equiv> AList.update"

abbreviation jm_delete :: "'k \<Rightarrow> ('k, 'v) jsmap \<Rightarrow> ('k, 'v) jsmap" where
  "jm_delete \<equiv> AList.delete"

abbreviation jm_get :: "('k, 'v) jsmap \<Rightarrow> 'k \<Rightarrow> 'v option" where
  "jm_get \<equiv> map_of"

definition jm_has :: "('k, 'v) jsmap \<Rightarrow> 'k \<Rightarrow> bool" where
  "jm_has m k = (map_of m k \<noteq> None)"

abbreviation jm_keys :: "('k, 'v) jsmap \<Rightarrow> 'k list" where
  "jm_keys m \<equiv> map fst m"

abbreviation jm_values :: "('k, 'v) jsmap \<Rightarrow> 'v list" where
  "jm_values m \<equiv> map snd m"

definition jm_ok :: "('k, 'v) jsmap \<Rightarrow> bool" where
  "jm_ok m = distinct (map fst m)"

lemma jm_has_iff: "jm_has m k \<longleftrightarrow> k \<in> set (map fst m)"
  by (force simp: jm_has_def map_of_eq_None_iff)

lemma jm_has_dom: "jm_has m k \<longleftrightarrow> k \<in> dom (map_of m)"
  by (auto simp: jm_has_def)

lemma jm_has_Nil [simp]: "\<not> jm_has [] k"
  by (simp add: jm_has_def)

lemma jm_get_set [jsmap_simps]: "jm_get (jm_set k v m) k' = (if k' = k then Some v else jm_get m k')"
  by (simp add: update_conv')

lemma jm_get_delete [jsmap_simps]: "jm_get (jm_delete k m) k' = (if k' = k then None else jm_get m k')"
  by (simp add: delete_conv')

lemma jm_has_set [jsmap_simps]: "jm_has (jm_set k v m) k' \<longleftrightarrow> k' = k \<or> jm_has m k'"
  by (simp add: jm_has_def update_conv')

lemma jm_has_delete [jsmap_simps]: "jm_has (jm_delete k m) k' \<longleftrightarrow> k' \<noteq> k \<and> jm_has m k'"
  by (simp add: jm_has_def delete_conv')

lemma jm_ok_Nil [simp, intro]: "jm_ok []"
  by (simp add: jm_ok_def)

lemma jm_ok_set [simp, intro]: "jm_ok m \<Longrightarrow> jm_ok (jm_set k v m)"
  by (simp add: jm_ok_def distinct_update)

lemma jm_ok_delete [simp, intro]: "jm_ok m \<Longrightarrow> jm_ok (jm_delete k m)"
  by (simp add: jm_ok_def distinct_delete)

lemma jm_ok_filter [simp, intro]: "jm_ok m \<Longrightarrow> jm_ok (filter P m)"
  by (simp add: jm_ok_def distinct_map_filter)

lemma jm_ok_drop [simp, intro]: "jm_ok m \<Longrightarrow> jm_ok (drop n m)"
  by (simp add: jm_ok_def drop_map[symmetric])

lemma jm_ok_dropWhile [simp, intro]: "jm_ok m \<Longrightarrow> jm_ok (dropWhile P m)"
  unfolding jm_ok_def
  by (metis append_take_drop_id distinct_append drop_map dropWhile_eq_drop)

lemma jm_set_keys: "set (jm_keys (jm_set k v m)) = insert k (set (jm_keys m))"
  using dom_update [of k v m] by (simp add: dom_map_of_conv_image_fst)

lemma jm_set_fresh: "\<not> jm_has m k \<Longrightarrow> jm_set k v m = m @ [(k, v)]"
  by (induction m) (auto simp: jm_has_iff)

lemma length_jm_set:
  "length (jm_set k v m) = (if jm_has m k then length m else Suc (length m))"
  by (induction m) (auto simp: jm_has_iff)

lemma length_jm_delete_le: "length (jm_delete k m) \<le> length m"
  by (simp add: AList.delete_eq)

lemma jm_delete_less: "jm_has m k \<Longrightarrow> length (jm_delete k m) < length m"
proof -
  assume "jm_has m k"
  then obtain v where "(k, v) \<in> set m" by (auto simp: jm_has_iff)
  then show ?thesis
    by (auto simp: AList.delete_eq intro: length_filter_less)
qed

lemma jm_set_mem: "p \<in> set (jm_set k v m) \<Longrightarrow> p = (k, v) \<or> p \<in> set m"
  by (induction m) (auto split: if_splits)

lemma jm_delete_mem: "p \<in> set (jm_delete k m) \<longleftrightarrow> p \<in> set m \<and> fst p \<noteq> k"
  by (auto simp: AList.delete_eq)

lemma jm_get_mem: "jm_get m k = Some v \<Longrightarrow> (k, v) \<in> set m"
  by (rule map_of_SomeD)

lemma jm_values_set: "set (jm_values (jm_set k v m)) \<subseteq> insert v (set (jm_values m))"
  by (auto dest!: jm_set_mem)

definition js_add :: "'a \<Rightarrow> 'a list \<Rightarrow> 'a list" where
  "js_add x s = (if x \<in> set s then s else s @ [x])"

lemma set_js_add [simp]: "set (js_add x s) = insert x (set s)"
  by (auto simp: js_add_def)

lemma distinct_js_add [simp, intro]: "distinct s \<Longrightarrow> distinct (js_add x s)"
  by (simp add: js_add_def)

lemma length_js_add: "length (js_add x s) = (if x \<in> set s then length s else Suc (length s))"
  by (simp add: js_add_def)

definition js_uniq :: "'a list \<Rightarrow> 'a list" where
  "js_uniq xs = fold js_add xs []"

lemma set_fold_js_add: "set (fold js_add xs s) = set s \<union> set xs"
  by (induction xs arbitrary: s) auto

lemma distinct_fold_js_add: "distinct s \<Longrightarrow> distinct (fold js_add xs s)"
  by (induction xs arbitrary: s) auto

lemma set_js_uniq [simp]: "set (js_uniq xs) = set xs"
  by (simp add: js_uniq_def set_fold_js_add)

lemma distinct_js_uniq [simp, intro]: "distinct (js_uniq xs)"
  by (simp add: js_uniq_def distinct_fold_js_add)

text \<open>The value's truthiness: an absent field, the empty string and the number 0 are falsy.\<close>

definition truthy :: "string option \<Rightarrow> bool" where
  "truthy s = (s \<noteq> None \<and> s \<noteq> Some [])"

definition or_else :: "string option \<Rightarrow> string option \<Rightarrow> string option" where
  "or_else a b = (if truthy a then a else b)"

lemma truthyE: "truthy s \<Longrightarrow> (\<And>x. s = Some x \<Longrightarrow> x \<noteq> [] \<Longrightarrow> P) \<Longrightarrow> P"
  by (cases s) (auto simp: truthy_def)

lemma truthy_Some [simp]: "truthy (Some x) \<longleftrightarrow> x \<noteq> []"
  by (simp add: truthy_def)

lemma truthy_None [simp]: "\<not> truthy None"
  by (simp add: truthy_def)

section \<open>Strings\<close>

definition starts_with :: "string \<Rightarrow> string \<Rightarrow> bool" where
  "starts_with p s = (take (length p) s = p)"

definition ends_with :: "string \<Rightarrow> string \<Rightarrow> bool" where
  "ends_with p s = (length p \<le> length s \<and> drop (length s - length p) s = p)"

fun str_includes :: "string \<Rightarrow> string \<Rightarrow> bool" where
  "str_includes p [] = (p = [])"
| "str_includes p (c # s) = (starts_with p (c # s) \<or> str_includes p s)"

abbreviation has_char :: "char \<Rightarrow> string \<Rightarrow> bool" where
  "has_char c s \<equiv> c \<in> set s"

fun split_on :: "char \<Rightarrow> string \<Rightarrow> string list" where
  "split_on c [] = [[]]"
| "split_on c (x # xs) =
     (if x = c then [] # split_on c xs
      else (x # hd (split_on c xs)) # tl (split_on c xs))"

fun join_with :: "string \<Rightarrow> string list \<Rightarrow> string" where
  "join_with sep [] = []"
| "join_with sep [w] = w"
| "join_with sep (w # ws) = w @ sep @ join_with sep ws"

fun index_of :: "char \<Rightarrow> string \<Rightarrow> nat option" where
  "index_of c [] = None"
| "index_of c (x # xs) = (if x = c then Some 0 else map_option Suc (index_of c xs))"

text \<open>\<open>s.split(c)[0]\<close>: everything before the first separator.\<close>

abbreviation before :: "char \<Rightarrow> string \<Rightarrow> string" where
  "before c s \<equiv> takeWhile (\<lambda>x. x \<noteq> c) s"

text \<open>\<open>s.split(c)[1]\<close>, absent when there is no separator.\<close>

definition second_part :: "char \<Rightarrow> string \<Rightarrow> string option" where
  "second_part c s =
     (case dropWhile (\<lambda>x. x \<noteq> c) s of [] \<Rightarrow> None | _ # r \<Rightarrow> Some (before c r))"

text \<open>\<open>s.replace(p, '')\<close> with a string pattern: the first occurrence only.\<close>

fun remove_first :: "string \<Rightarrow> string \<Rightarrow> string" where
  "remove_first p [] = []"
| "remove_first p (c # s) =
     (if starts_with p (c # s) then drop (length p) (c # s) else c # remove_first p s)"

text \<open>\<open>s.replace(/^p/, '')\<close>.\<close>

definition strip_prefix :: "string \<Rightarrow> string \<Rightarrow> string" where
  "strip_prefix p s = (if starts_with p s then drop (length p) s else s)"

abbreviation strip_v4mapped :: "string \<Rightarrow> string" where
  "strip_v4mapped s \<equiv> strip_prefix ''::ffff:'' s"

definition js_lower_char :: "char \<Rightarrow> char" where
  "js_lower_char c =
     (let n = of_char c :: nat
      in if (65 \<le> n \<and> n \<le> 90) \<or> (192 \<le> n \<and> n \<le> 222 \<and> n \<noteq> 215) then char_of (n + 32) else c)"

definition js_lower :: "string \<Rightarrow> string" where
  "js_lower s = map js_lower_char s"

definition js_space :: "char \<Rightarrow> bool" where
  "js_space c = (let n = of_char c :: nat in (9 \<le> n \<and> n \<le> 13) \<or> n = 32 \<or> n = 160)"

definition js_trim :: "string \<Rightarrow> string" where
  "js_trim s = rev (dropWhile js_space (rev (dropWhile js_space s)))"

lemma split_on_nonempty [simp]: "split_on c s \<noteq> []"
  by (induction s) auto

lemma hd_split_on: "hd (split_on c s) = before c s"
  by (induction s) auto

lemma split_on_no_sep: "w \<in> set (split_on c s) \<Longrightarrow> c \<notin> set w"
proof (induction s arbitrary: w)
  case Nil
  then show ?case by simp
next
  case (Cons x xs)
  have hd_tl: "split_on c xs = hd (split_on c xs) # tl (split_on c xs)" by simp
  show ?case
  proof (cases "x = c")
    case True
    with Cons show ?thesis by auto
  next
    case False
    then consider "w = x # hd (split_on c xs)" | "w \<in> set (tl (split_on c xs))"
      using Cons.prems by auto
    then show ?thesis
    proof cases
      case 1
      then show ?thesis using False Cons.IH [of "hd (split_on c xs)"] by simp
    next
      case 2
      then show ?thesis using Cons.IH by (metis hd_tl list.set_intros(2))
    qed
  qed
qed

lemma split_on_append:
  "c \<notin> set w \<Longrightarrow> split_on c (w @ c # s) = w # split_on c s"
  by (induction w) auto

lemma split_on_single: "c \<notin> set w \<Longrightarrow> split_on c w = [w]"
  by (induction w) auto

lemma split_join:
  "ws \<noteq> [] \<Longrightarrow> (\<And>w. w \<in> set ws \<Longrightarrow> c \<notin> set w) \<Longrightarrow> split_on c (join_with [c] ws) = ws"
proof (induction "[c]" ws rule: join_with.induct)
  case (3 w v vs)
  then show ?case by (simp add: split_on_append)
qed (simp_all add: split_on_single)

lemma join_split: "join_with [c] (split_on c s) = s"
proof (induction s)
  case Nil
  then show ?case by simp
next
  case (Cons x xs)
  obtain w ws where s: "split_on c xs = w # ws"
    by (cases "split_on c xs") auto
  with Cons show ?case by (cases ws) auto
qed

lemma before_append: "c \<notin> set w \<Longrightarrow> before c (w @ c # s) = w"
  by (simp add: takeWhile_append)

lemma before_no_sep: "c \<notin> set (before c s)"
  by (induction s) auto

lemma second_part_append: "c \<notin> set w \<Longrightarrow> second_part c (w @ c # s) = Some (before c s)"
  by (simp add: second_part_def dropWhile_append)

lemma second_part_None: "second_part c s = None \<longleftrightarrow> c \<notin> set s"
  by (induction s) (auto simp: second_part_def)

lemma starts_with_append [simp]: "starts_with p (p @ s)"
  by (simp add: starts_with_def)

lemma starts_with_iff: "starts_with p s \<longleftrightarrow> (\<exists>r. s = p @ r)"
  unfolding starts_with_def by (metis append_eq_conv_conj append_take_drop_id)

lemma ends_with_append [simp]: "ends_with p (s @ p)"
  by (simp add: ends_with_def)

lemma ends_with_iff: "ends_with p s \<longleftrightarrow> (\<exists>r. s = r @ p)"
proof
  assume "ends_with p s"
  then show "\<exists>r. s = r @ p"
    unfolding ends_with_def by (metis append_take_drop_id)
qed (auto simp: ends_with_def)

lemma str_includes_iff: "str_includes p s \<longleftrightarrow> (\<exists>a b. s = a @ p @ b)"
proof (induction s)
  case Nil
  then show ?case by auto
next
  case (Cons c s)
  show ?case
  proof
    assume "str_includes p (c # s)"
    then show "\<exists>a b. c # s = a @ p @ b"
      using Cons by (auto simp: starts_with_iff intro: exI [of _ "[]"]) (metis append_Cons)
  next
    assume "\<exists>a b. c # s = a @ p @ b"
    then obtain a b where ab: "c # s = a @ p @ b" by blast
    show "str_includes p (c # s)"
    proof (cases a)
      case Nil
      with ab have "starts_with p (c # s)" by (simp add: starts_with_iff)
      then show ?thesis by simp
    next
      case (Cons x xs)
      with ab Cons.IH show ?thesis by auto
    qed
  qed
qed

lemma str_includes_char: "str_includes [c] s \<longleftrightarrow> c \<in> set s"
  by (auto simp: str_includes_iff in_set_conv_decomp)

lemma index_of_None: "index_of c s = None \<longleftrightarrow> c \<notin> set s"
  by (induction s) auto

lemma index_of_Some: "index_of c s = Some i \<Longrightarrow> i < length s \<and> s ! i = c \<and> c \<notin> set (take i s)"
  by (induction s arbitrary: i) (auto split: if_splits)

lemma index_of_append: "c \<notin> set w \<Longrightarrow> index_of c (w @ c # s) = Some (length w)"
  by (induction w) auto

lemma js_lower_idem: "js_lower (js_lower s) = js_lower s"
proof -
  have "js_lower_char (js_lower_char c) = js_lower_char c" for c
  proof -
    have *: "(of_char (char_of (of_char c + 32 :: nat)) :: nat) = of_char c + 32"
      if "(of_char c :: nat) \<le> 222"
      using that by (simp add: take_bit_nat_def flip: of_nat_eq_iff)
    show ?thesis by (auto simp: js_lower_char_def Let_def *)
  qed
  then show ?thesis by (simp add: js_lower_def)
qed

lemma length_js_lower [simp]: "length (js_lower s) = length s"
  by (simp add: js_lower_def)

section \<open>Numbers as text\<close>

definition digit_char :: "nat \<Rightarrow> char" where
  "digit_char d = (if d < 10 then char_of (48 + d) else char_of (87 + d))"

definition digit_value :: "char \<Rightarrow> nat option" where
  "digit_value c =
     (let n = of_char c :: nat
      in if 48 \<le> n \<and> n \<le> 57 then Some (n - 48)
         else if 97 \<le> n \<and> n \<le> 122 then Some (n - 87)
         else if 65 \<le> n \<and> n \<le> 90 then Some (n - 55)
         else None)"

text \<open>\<open>Number.prototype.toString(radix)\<close> on a non-negative integer.\<close>

function show_radix :: "nat \<Rightarrow> nat \<Rightarrow> string" where
  "show_radix r n =
     (if r < 2 \<or> n < r then [digit_char n] else show_radix r (n div r) @ [digit_char (n mod r)])"
  by pat_completeness auto
termination
  by (relation "measure snd") auto

declare show_radix.simps [simp del]

abbreviation show_nat :: "nat \<Rightarrow> string" where
  "show_nat \<equiv> show_radix 10"

definition show_int :: "int \<Rightarrow> string" where
  "show_int i = (if i < 0 then CHR ''-'' # show_nat (nat (- i)) else show_nat (nat i))"

definition is_digit :: "nat \<Rightarrow> char \<Rightarrow> bool" where
  "is_digit r c = (case digit_value c of None \<Rightarrow> False | Some d \<Rightarrow> d < r)"

definition digits_value :: "nat \<Rightarrow> string \<Rightarrow> nat" where
  "digits_value r s = foldl (\<lambda>a c. a * r + the (digit_value c)) 0 s"

text \<open>
  \<open>parseInt(s, r)\<close> for \<open>r\<close> 10 or 16: white space, an optional sign, the \<open>0x\<close> prefix in radix
  16, then the longest run of digits; \<open>None\<close> is \<open>NaN\<close>. Values are exact integers.
\<close>

definition parse_int :: "nat \<Rightarrow> string \<Rightarrow> int option" where
  "parse_int r s =
     (let t = dropWhile js_space s;
          neg = starts_with ''-'' t;
          t1 = (if neg \<or> starts_with ''+'' t then tl t else t);
          t2 = (if r = 16 \<and> (starts_with ''0x'' t1 \<or> starts_with ''0X'' t1) then drop 2 t1 else t1);
          ds = takeWhile (is_digit r) t2
      in if ds = [] then None
         else Some (if neg then - int (digits_value r ds) else int (digits_value r ds)))"

text \<open>\<open>/^\d+$/.test(s)\<close>.\<close>

definition all_digits :: "string \<Rightarrow> bool" where
  "all_digits s = (s \<noteq> [] \<and> list_all (is_digit 10) s)"

lemma digit_value_char: "d < 36 \<Longrightarrow> digit_value (digit_char d) = Some d"
proof -
  assume "d < 36"
  then have "(of_char (char_of (48 + d)) :: nat) = 48 + d" "(of_char (char_of (87 + d)) :: nat) = 87 + d"
    by (simp_all add: take_bit_nat_def)
  with \<open>d < 36\<close> show ?thesis by (simp add: digit_char_def digit_value_def Let_def)
qed

lemma is_digit_char: "d < r \<Longrightarrow> r \<le> 36 \<Longrightarrow> is_digit r (digit_char d)"
  by (simp add: is_digit_def digit_value_char)

lemma show_radix_digits:
  "2 \<le> r \<Longrightarrow> r \<le> 36 \<Longrightarrow> list_all (is_digit r) (show_radix r n)"
proof (induction r n rule: show_radix.induct)
  case (1 r n)
  show ?case
    by (subst show_radix.simps) (use 1 in \<open>auto simp: is_digit_char\<close>)
qed

lemma show_radix_nonempty [simp]: "show_radix r n \<noteq> []"
  by (subst show_radix.simps) simp

lemma digits_value_append:
  "digits_value r (s @ [c]) = digits_value r s * r + the (digit_value c)"
  by (simp add: digits_value_def)

lemma digits_value_show: "2 \<le> r \<Longrightarrow> r \<le> 36 \<Longrightarrow> digits_value r (show_radix r n) = n"
proof (induction r n rule: show_radix.induct)
  case (1 r n)
  show ?case
  proof (cases "n < r")
    case True
    with 1 show ?thesis
      by (subst show_radix.simps) (simp add: digits_value_def digit_value_char)
  next
    case False
    with 1 have "digits_value r (show_radix r (n div r)) = n div r" by simp
    moreover have "digit_value (digit_char (n mod r)) = Some (n mod r)"
      by (rule digit_value_char) (use 1 in \<open>metis less_le_trans mod_less_divisor zero_less_numeral\<close>)
    ultimately show ?thesis
      using False 1 by (subst show_radix.simps) (simp add: digits_value_append)
  qed
qed

lemma not_space_digit: "is_digit r c \<Longrightarrow> \<not> js_space c"
  by (auto simp: is_digit_def digit_value_def js_space_def Let_def split: if_splits option.splits)

lemma not_sign_digit: "is_digit r c \<Longrightarrow> c \<noteq> CHR ''-'' \<and> c \<noteq> CHR ''+''"
  by (auto simp: is_digit_def digit_value_def Let_def split: if_splits option.splits)

lemma not_colon_digit: "is_digit r c \<Longrightarrow> c \<noteq> CHR '':'' \<and> c \<noteq> CHR ''.'' \<and> c \<noteq> CHR '' ''"
  by (auto simp: is_digit_def digit_value_def Let_def split: if_splits option.splits)

lemma parse_int_show:
  assumes "c \<in> set rest \<Longrightarrow> rest \<noteq> []" "rest = [] \<or> \<not> is_digit 10 (hd rest)"
  shows "parse_int 10 (show_nat n @ rest) = Some (int n)"
proof -
  have ds: "list_all (is_digit 10) (show_nat n)" by (rule show_radix_digits) simp_all
  obtain d ds' where sn: "show_nat n = d # ds'" by (cases "show_nat n") auto
  with ds have d: "is_digit 10 d" by simp
  have tw: "takeWhile (is_digit 10) (show_nat n @ rest) = show_nat n"
    using assms(2) ds by (cases rest) (auto simp: takeWhile_append list_all_iff)
  show ?thesis
    using d tw not_space_digit [OF d] not_sign_digit [OF d]
    by (simp add: parse_int_def Let_def starts_with_def sn [symmetric])
       (simp add: sn starts_with_def digits_value_show [of 10 n, simplified sn])
qed

lemma parse_int_show_nat [simp]: "parse_int 10 (show_nat n) = Some (int n)"
  using parse_int_show [of undefined "[]" n] by simp

section \<open>Operations that keep an invariant\<close>

text \<open>
  The contract most components share: every operation keeps the component's invariant. From it
  every finite sequence of operations does.
\<close>

locale keeps_invariant =
  fixes step :: "'e \<Rightarrow> 's \<Rightarrow> 's"
    and inv :: "'s \<Rightarrow> bool"
  assumes step_inv: "inv s \<Longrightarrow> inv (step e s)"
begin

lemma run_inv: "inv s \<Longrightarrow> inv (fold step es s)"
  by (induction es arbitrary: s) (auto intro: step_inv)

lemma run_prefix_inv: "inv s \<Longrightarrow> inv (fold step (take n es) s)"
  by (rule run_inv)

end

end
