(* ===== verification/Base32.thy ===== *)
theory Base32
  imports Prelude
begin

unbundle bit_operations_syntax

text \<open>
  \<open>src/utils/base32.js\<close>: the RFC 4648 encoder and decoder, with JavaScript's 32-bit accumulator
  \<open>value\<close> kept at its width (\<open><<\<close> drops the high bits, \<open>>>>\<close> is a logical shift), and
  \<open>CryptoHelper.deriveNodeId\<close> over an abstract SHA-256. The reference is the list of bits of the
  input: \<open>encode\<close> writes them in groups of five, \<open>decode\<close> reads them back in groups of eight.
\<close>

type_synonym byte = "8 word"

section \<open>The code\<close>

definition ALPHABET :: string where
  "ALPHABET = ''abcdefghijklmnopqrstuvwxyz234567''"

definition alphabet_at :: "32 word \<Rightarrow> char" where
  "alphabet_at w = ALPHABET ! unat w"

text \<open>The inner loop \<open>while (bits >= 5)\<close>.\<close>

fun enc_drain :: "32 word \<Rightarrow> nat \<Rightarrow> string \<Rightarrow> nat \<times> string" where
  "enc_drain value bits output =
     (if bits \<ge> 5
      then enc_drain value (bits - 5)
             (output @ [alphabet_at (drop_bit (bits - 5) value AND 31)])
      else (bits, output))"

declare enc_drain.simps [simp del]

text \<open>The outer loop over the buffer; the state is \<open>(value, bits, output)\<close>.\<close>

fun enc_loop :: "byte list \<Rightarrow> 32 word \<Rightarrow> nat \<Rightarrow> string \<Rightarrow> 32 word \<times> nat \<times> string" where
  "enc_loop [] value bits output = (value, bits, output)"
| "enc_loop (b # buf) value bits output =
     (let value' = push_bit 8 value OR ucast b;
          (bits', output') = enc_drain value' (bits + 8) output
      in enc_loop buf value' bits' output')"

text \<open>The padding loop \<open>while (output.length % 8 !== 0)\<close>.\<close>

function pad8 :: "string \<Rightarrow> string" where
  "pad8 output = (if length output mod 8 \<noteq> 0 then pad8 (output @ ''='') else output)"
  by pat_completeness auto
termination
proof (relation "measure (\<lambda>s. (8 - length s mod 8) mod 8)")
  fix s :: string
  assume "length s mod 8 \<noteq> 0"
  then have "0 < length s mod 8" "length s mod 8 < 8" by auto
  then have "(8 - Suc (length s) mod 8) mod 8 < (8 - length s mod 8) mod 8"
    by (auto simp: mod_Suc)
  then show "(s @ ''='', s) \<in> measure (\<lambda>s. (8 - length s mod 8) mod 8)"
    by simp
qed simp

declare pad8.simps [simp del]

definition encode :: "byte list \<Rightarrow> bool \<Rightarrow> string" where
  "encode buf padding =
     (if buf = [] then []
      else let (value, bits, output) = enc_loop buf 0 0 [];
               output' = (if bits > 0
                          then output @ [alphabet_at (push_bit (5 - bits) value AND 31)]
                          else output)
           in if padding then pad8 output' else output')"

text \<open>\<open>str.replace(/=+$/, '')\<close>.\<close>

definition strip_pad :: "string \<Rightarrow> string" where
  "strip_pad s = rev (dropWhile (\<lambda>c. c = CHR ''='') (rev s))"

fun dec_loop :: "string \<Rightarrow> 32 word \<Rightarrow> nat \<Rightarrow> byte list \<Rightarrow> byte list" where
  "dec_loop [] value bits result = result"
| "dec_loop (c # str) value bits result =
     (case index_of c ALPHABET of
        None \<Rightarrow> dec_loop str value bits result
      | Some idx \<Rightarrow>
          (let value' = push_bit 5 value OR of_nat idx; bits' = bits + 5
           in if bits' \<ge> 8
              then dec_loop str value' (bits' - 8)
                     (result @ [ucast (drop_bit (bits' - 8) value' AND 255)])
              else dec_loop str value' bits' result))"

definition decode :: "string \<Rightarrow> byte list" where
  "decode str = (if str = [] then [] else dec_loop (strip_pad (js_lower str)) 0 0 [])"

text \<open>
  \<open>CryptoHelper.deriveNodeId\<close>: the hash function is the argument \<open>sha256\<close>, \<open>rawPub\<close> the raw
  32-byte key.
\<close>

definition deriveNodeId :: "(byte list \<Rightarrow> byte list) \<Rightarrow> byte list \<Rightarrow> string" where
  "deriveNodeId sha256 rawPub = take 16 (encode (sha256 rawPub) False)"

definition isValidNodeId :: "string \<Rightarrow> bool" where
  "isValidNodeId s \<longleftrightarrow> length s = 16 \<and>
     list_all (\<lambda>c. let n = of_char c :: nat in (97 \<le> n \<and> n \<le> 122) \<or> (50 \<le> n \<and> n \<le> 55)) s"

section \<open>The reference: bits, most significant first\<close>

definition low_bits :: "nat \<Rightarrow> 'a::len word \<Rightarrow> bool list" where
  "low_bits n w = map (\<lambda>i. bit w (n - 1 - i)) [0..<n]"

definition bits_of_bytes :: "byte list \<Rightarrow> bool list" where
  "bits_of_bytes bs = concat (map (low_bits 8) bs)"

definition char_bits :: "char \<Rightarrow> bool list" where
  "char_bits c =
     (case index_of c ALPHABET of None \<Rightarrow> [] | Some i \<Rightarrow> low_bits 5 (of_nat i :: 32 word))"

definition bits_of_text :: "string \<Rightarrow> bool list" where
  "bits_of_text s = concat (map char_bits s)"

lemma length_low_bits [simp]: "length (low_bits n w) = n"
  by (simp add: low_bits_def)

lemma low_bits_0 [simp]: "low_bits 0 w = []"
  by (simp add: low_bits_def)

lemma nth_low_bits: "i < n \<Longrightarrow> low_bits n w ! i = bit w (n - 1 - i)"
  by (simp add: low_bits_def)

lemma length_bits_of_bytes [simp]: "length (bits_of_bytes bs) = 8 * length bs"
  by (induction bs) (simp_all add: bits_of_bytes_def)

lemma bits_of_bytes_append: "bits_of_bytes (a @ b) = bits_of_bytes a @ bits_of_bytes b"
  by (simp add: bits_of_bytes_def)

lemma bits_of_text_append: "bits_of_text (a @ b) = bits_of_text a @ bits_of_text b"
  by (simp add: bits_of_text_def)

lemma low_bits_take_top:
  assumes "k \<le> n" "n \<le> 32"
  shows "low_bits k (drop_bit (n - k) (w :: 32 word)) = take k (low_bits n w)"
proof (rule nth_equalityI)
  fix i assume "i < length (low_bits k (drop_bit (n - k) w))"
  then have "i < k" "n - k + (k - 1 - i) = n - 1 - i" using assms by auto
  then show "low_bits k (drop_bit (n - k) w) ! i = take k (low_bits n w) ! i"
    using assms by (simp add: nth_low_bits bit_drop_bit_eq)
qed (use assms in simp)

lemma low_bits_drop_top:
  assumes "k \<le> n"
  shows "low_bits (n - k) w = drop k (low_bits n w)"
  using assms by (intro nth_equalityI) (auto simp: nth_low_bits)

lemma low_bits_mask:
  assumes "n \<le> k"
  shows "low_bits n (w AND mask k) = low_bits n w"
proof (rule nth_equalityI)
  fix i assume "i < length (low_bits n (w AND mask k))"
  then have "i < n" by simp
  then show "low_bits n (w AND mask k) ! i = low_bits n w ! i"
    using assms by (auto simp: nth_low_bits bit_and_iff bit_mask_iff dest: bit_imp_le_length)
qed simp

lemma low_bits_push_or:
  assumes "n + k \<le> 32" "\<And>i. k \<le> i \<Longrightarrow> \<not> bit x i"
  shows "low_bits (n + k) (push_bit k (w :: 32 word) OR x) = low_bits n w @ low_bits k x"
proof (rule nth_equalityI)
  fix i assume "i < length (low_bits (n + k) (push_bit k w OR x))"
  then have i: "i < n + k" by simp
  show "low_bits (n + k) (push_bit k w OR x) ! i = (low_bits n w @ low_bits k x) ! i"
  proof (cases "i < n")
    case True
    then have e: "n + k - 1 - i - k = n - 1 - i" "k \<le> n + k - 1 - i" "n + k - 1 - i < 32"
      using assms(1) by auto
    with True assms(2) [of "n + k - 1 - i"] show ?thesis
      by (simp add: nth_append nth_low_bits bit_or_iff bit_push_bit_iff)
  next
    case False
    then have e: "n + k - 1 - i = k - 1 - (i - n)" "n + k - 1 - i < k" using i by auto
    with False i show ?thesis
      by (simp add: nth_append nth_low_bits bit_or_iff bit_push_bit_iff)
  qed
qed simp


lemma five_mask: "(31 :: 32 word) = mask 5" and eight_mask: "(255 :: 32 word) = mask 8"
  by (simp_all add: mask_eq_exp_minus_1)

lemma byte_high_clear: "8 \<le> i \<Longrightarrow> \<not> bit (ucast (b :: byte) :: 32 word) i"
  by (auto simp: bit_ucast_iff dest: bit_imp_le_length)

lemma low_bits_ucast: "n \<le> 8 \<Longrightarrow> low_bits n (ucast (b :: byte) :: 32 word) = low_bits n b"
  by (intro nth_equalityI) (auto simp: nth_low_bits bit_ucast_iff)

lemma low_bits_ucast_down: "n \<le> 8 \<Longrightarrow> low_bits n (ucast (w :: 32 word) :: byte) = low_bits n w"
  by (intro nth_equalityI) (auto simp: nth_low_bits bit_ucast_iff)

lemma low_bits_inject_byte: "low_bits 8 (a :: byte) = low_bits 8 b \<Longrightarrow> a = b"
proof (rule bit_word_eqI)
  fix i assume eq: "low_bits 8 a = low_bits 8 b" and "i < LENGTH(8)"
  then have i: "7 - i < 8" "8 - 1 - (7 - i) = i" by auto
  have "low_bits 8 a ! (7 - i) = low_bits 8 b ! (7 - i)" by (simp add: eq)
  then show "bit a i \<longleftrightarrow> bit b i" using i by (simp add: nth_low_bits)
qed

lemma bits_of_bytes_inject: "bits_of_bytes a = bits_of_bytes b \<Longrightarrow> a = b"
proof (induction a arbitrary: b)
  case Nil
  then have "length (bits_of_bytes b) = 0" by (simp add: bits_of_bytes_def)
  then show ?case by simp
next
  case (Cons x a)
  have "length (bits_of_bytes (x # a)) = length (bits_of_bytes b)"
    using Cons.prems by simp
  then obtain y b' where b: "b = y # b'" by (cases b) auto
  with Cons.prems have "low_bits 8 x = low_bits 8 y" "bits_of_bytes a = bits_of_bytes b'"
    by (simp_all add: bits_of_bytes_def)
  then show ?case using Cons.IH b by (simp add: low_bits_inject_byte)
qed


lemma index_of_nth: "distinct xs \<Longrightarrow> i < length xs \<Longrightarrow> index_of (xs ! i) xs = Some i"
proof (induction xs arbitrary: i)
  case (Cons x xs)
  then show ?case by (cases i) auto
qed simp

lemma ALPHABET_distinct: "distinct ALPHABET" and ALPHABET_length: "length ALPHABET = 32"
  by (simp_all add: ALPHABET_def)

lemma unat_and31: "unat (v AND 31 :: 32 word) < 32"
proof -
  have "v AND 31 < 2 ^ 5"
    unfolding five_mask by (rule and_mask_less') simp
  then show ?thesis by (simp add: word_less_nat_alt)
qed

lemma alphabet_at_index: "index_of (alphabet_at (v AND 31)) ALPHABET = Some (unat (v AND 31))"
  unfolding alphabet_at_def
  by (rule index_of_nth) (simp_all add: ALPHABET_distinct ALPHABET_length unat_and31)

lemma alphabet_at_in: "alphabet_at (v AND 31) \<in> set ALPHABET"
  using alphabet_at_index [of v] by (metis index_of_None option.distinct(1))

lemma char_bits_alphabet: "char_bits (alphabet_at (v AND 31)) = low_bits 5 v"
  unfolding char_bits_def alphabet_at_index by (simp add: five_mask low_bits_mask)

lemma bits_of_text_snoc: "bits_of_text (out @ [alphabet_at (v AND 31)]) = bits_of_text out @ low_bits 5 v"
  by (simp add: bits_of_text_def char_bits_alphabet)

section \<open>The encoder writes the bits in groups of five\<close>

lemma enc_drain_bits:
  assumes "enc_drain v n out = (n', out')" "n \<le> 32"
  shows "n' < 5 \<and> bits_of_text out' @ low_bits n' v = bits_of_text out @ low_bits n v"
  using assms
proof (induction v n out rule: enc_drain.induct)
  case (1 v n out)
  show ?case
  proof (cases "n \<ge> 5")
    case True
    then have split: "low_bits 5 (drop_bit (n - 5) v) @ low_bits (n - 5) v = low_bits n v"
      using low_bits_take_top [of 5 n v] low_bits_drop_top [of "n - 5" n v] "1.prems"(2)
        low_bits_drop_top [of 5 n v] by simp
    from True "1.prems" have "enc_drain v (n - 5) (out @ [alphabet_at (drop_bit (n - 5) v AND 31)]) = (n', out')"
      by (subst (asm) enc_drain.simps) simp
    from "1.IH" [OF True this] "1.prems"(2) split show ?thesis
      by (simp add: bits_of_text_snoc)
  next
    case False
    with "1.prems" show ?thesis by (subst (asm) enc_drain.simps) auto
  qed
qed

lemma enc_drain_chars:
  "enc_drain v n out = (n', out') \<Longrightarrow> set out \<subseteq> set ALPHABET \<Longrightarrow> set out' \<subseteq> set ALPHABET"
proof (induction v n out rule: enc_drain.induct)
  case (1 v n out)
  then show ?case
    by (subst (asm) (2) enc_drain.simps) (auto simp: alphabet_at_in split: if_splits)
qed

lemma enc_loop_bits:
  assumes "enc_loop buf v n out = (v', n', out')" "n < 5"
  shows "n' < 5 \<and> bits_of_text out' @ low_bits n' v' = bits_of_text out @ low_bits n v @ bits_of_bytes buf"
  using assms
proof (induction buf arbitrary: v n out)
  case Nil
  then show ?case by (simp add: bits_of_bytes_def)
next
  case (Cons b buf)
  let ?v = "push_bit 8 v OR ucast b :: 32 word"
  obtain n1 out1 where d: "enc_drain ?v (n + 8) out = (n1, out1)" by fastforce
  with Cons.prems have loop: "enc_loop buf ?v n1 out1 = (v', n', out')" by simp
  have n1: "n1 < 5" and out1: "bits_of_text out1 @ low_bits n1 ?v = bits_of_text out @ low_bits (n + 8) ?v"
    using enc_drain_bits [OF d] Cons.prems(2) by auto
  have "low_bits (n + 8) ?v = low_bits n v @ low_bits 8 b"
    using low_bits_push_or [of n 8 "ucast b" v] Cons.prems(2) byte_high_clear low_bits_ucast [of 8 b]
    by simp
  then show ?case
    using Cons.IH [OF loop n1] out1 by (simp add: bits_of_bytes_def)
qed

lemma enc_loop_chars:
  "enc_loop buf v n out = (v', n', out') \<Longrightarrow> set out \<subseteq> set ALPHABET \<Longrightarrow> set out' \<subseteq> set ALPHABET"
proof (induction buf arbitrary: v n out)
  case (Cons b buf)
  obtain n1 out1 where d: "enc_drain (push_bit 8 v OR ucast b) (n + 8) out = (n1, out1)" by fastforce
  show ?case
    by (rule Cons.IH [OF _ enc_drain_chars [OF d Cons.prems(2)]]) (use d Cons.prems in simp)
qed simp

lemma encode_bits:
  "\<exists>k < 5. bits_of_text (encode bs False) = bits_of_bytes bs @ replicate k False"
proof (cases "bs = []")
  case True
  then show ?thesis by (auto simp: encode_def bits_of_text_def bits_of_bytes_def)
next
  case False
  obtain v n out where l: "enc_loop bs 0 0 [] = (v, n, out)" using prod_cases3 by blast
  then have n: "n < 5" and bits: "bits_of_text out @ low_bits n v = bits_of_bytes bs"
    using enc_loop_bits [OF l] by (auto simp: bits_of_text_def)
  have zeros: "low_bits k (0 :: 32 word) = replicate k False" for k
    by (intro nth_equalityI) (auto simp: nth_low_bits)
  show ?thesis
  proof (cases "n = 0")
    case True
    with False l bits show ?thesis by (auto simp: encode_def)
  next
    case pos: False
    have "low_bits 5 (push_bit (5 - n) v) = low_bits n v @ replicate (5 - n) False"
      using low_bits_push_or [of n "5 - n" 0 v] n by (simp add: zeros)
    with False l bits pos have
      "bits_of_text (encode bs False) = bits_of_bytes bs @ replicate (5 - n) False"
      by (simp add: encode_def bits_of_text_snoc flip: append_assoc)
    with pos show ?thesis by (intro exI [of _ "5 - n"]) simp
  qed
qed

lemma encode_chars: "set (encode bs False) \<subseteq> set ALPHABET"
proof -
  obtain v n out where l: "enc_loop bs 0 0 [] = (v, n, out)" using prod_cases3 by blast
  then have "set out \<subseteq> set ALPHABET" by (rule enc_loop_chars) simp
  with l show ?thesis by (auto simp: encode_def alphabet_at_in)
qed

lemma length_bits_of_text: "set s \<subseteq> set ALPHABET \<Longrightarrow> length (bits_of_text s) = 5 * length s"
proof (induction s)
  case (Cons c s)
  then obtain i where "index_of c ALPHABET = Some i"
    by (metis index_of_None insert_subset list.simps(15) not_Some_eq)
  with Cons show ?case by (simp add: bits_of_text_def char_bits_def)
qed (simp add: bits_of_text_def)

lemma length_encode: "length (encode bs False) = (8 * length bs + 4) div 5"
proof -
  obtain k where "k < 5" "bits_of_text (encode bs False) = bits_of_bytes bs @ replicate k False"
    using encode_bits by blast
  then have "5 * length (encode bs False) = 8 * length bs + k"
    using length_bits_of_text [OF encode_chars, of bs] by (metis length_append length_bits_of_bytes length_replicate)
  moreover have "L = (8 * n + 4) div 5" if "5 * L = 8 * n + k" for L n :: nat
    using that \<open>k < 5\<close> by linarith
  ultimately show ?thesis by blast
qed

section \<open>The decoder reads them in groups of eight\<close>

lemma low_bits_of_idx:
  assumes "index_of c ALPHABET = Some i"
  shows "low_bits 5 (of_nat i :: 32 word) = char_bits c" and "i < 32"
  using index_of_Some [OF assms] by (simp_all add: char_bits_def assms ALPHABET_length)

lemma idx_high_clear:
  assumes "i < 32" "5 \<le> j"
  shows "\<not> bit (of_nat i :: 32 word) j"
proof -
  have "(2 :: nat) ^ 5 \<le> 2 ^ j" using assms(2) by (rule power_increasing) simp
  with assms(1) have "i < 2 ^ j" by simp
  then have "\<not> bit i j" by (simp only: bit_iff_odd div_less) simp
  then show ?thesis by (simp only: bit_of_nat_iff) simp
qed

lemma dec_loop_bits:
  assumes "n < 8"
  shows "\<exists>r. bits_of_bytes (dec_loop str v n res) @ r
               = bits_of_bytes res @ low_bits n v @ bits_of_text str \<and> length r < 8"
  using assms
proof (induction str arbitrary: v n res)
  case Nil
  then show ?case by (auto simp: bits_of_text_def)
next
  case (Cons c str)
  show ?case
  proof (cases "index_of c ALPHABET")
    case None
    with Cons show ?thesis by (simp add: bits_of_text_def char_bits_def)
  next
    case (Some i)
    let ?v = "push_bit 5 v OR of_nat i :: 32 word"
    have v: "low_bits (n + 5) ?v = low_bits n v @ char_bits c"
      using low_bits_push_or [of n 5 "of_nat i" v] Cons.prems low_bits_of_idx [OF Some] idx_high_clear
      by simp
    show ?thesis
    proof (cases "n + 5 \<ge> 8")
      case True
      let ?b = "ucast (drop_bit (n + 5 - 8) ?v AND 255) :: byte"
      have "low_bits 8 ?b = take 8 (low_bits (n + 5) ?v)"
        using True Cons.prems low_bits_take_top [of 8 "n + 5" ?v]
        by (simp add: low_bits_ucast_down eight_mask low_bits_mask)
      moreover have "low_bits (n + 5 - 8) ?v = drop 8 (low_bits (n + 5) ?v)"
        using True low_bits_drop_top [of 8 "n + 5" ?v] by simp
      ultimately have "low_bits 8 ?b @ low_bits (n + 5 - 8) ?v = low_bits (n + 5) ?v" by simp
      then have "bits_of_bytes (res @ [?b]) @ low_bits (n + 5 - 8) ?v @ bits_of_text str
          = bits_of_bytes res @ low_bits n v @ bits_of_text (c # str)"
        by (simp add: bits_of_bytes_def bits_of_text_def v)
      then show ?thesis
        using Cons.IH [of "n + 5 - 8" ?v "res @ [?b]"] True Cons.prems Some by (simp add: Let_def)
    next
      case False
      have "bits_of_bytes res @ low_bits (n + 5) ?v @ bits_of_text str
          = bits_of_bytes res @ low_bits n v @ bits_of_text (c # str)"
        by (simp add: bits_of_text_def v)
      then show ?thesis
        using Cons.IH [of "n + 5" ?v res] False Some by (simp add: Let_def)
    qed
  qed
qed

section \<open>Round trip\<close>

lemma lower_alphabet: "set s \<subseteq> set ALPHABET \<Longrightarrow> js_lower s = s"
proof -
  have *: "\<forall>c \<in> set ALPHABET. js_lower_char c = c"
    by (simp add: ALPHABET_def js_lower_char_def)
  then show "set s \<subseteq> set ALPHABET \<Longrightarrow> js_lower s = s"
    unfolding js_lower_def by (intro map_idI) blast
qed

lemma strip_pad_alphabet: "set s \<subseteq> set ALPHABET \<Longrightarrow> strip_pad s = s"
proof -
  assume "set s \<subseteq> set ALPHABET"
  moreover have "CHR ''='' \<notin> set ALPHABET" by (simp add: ALPHABET_def)
  ultimately have "\<forall>c \<in> set (rev s). c \<noteq> CHR ''=''" by auto
  then have "dropWhile (\<lambda>c. c = CHR ''='') (rev s) = rev s"
    by (cases "rev s") auto
  then show "strip_pad s = s" by (simp add: strip_pad_def)
qed

lemma decode_encode: "decode (encode bs False) = bs"
proof (cases "bs = []")
  case True
  then show ?thesis by (simp add: encode_def decode_def)
next
  case False
  obtain k where k: "k < 5" "bits_of_text (encode bs False) = bits_of_bytes bs @ replicate k False"
    using encode_bits by blast
  obtain r where r: "bits_of_bytes (dec_loop (encode bs False) 0 0 []) @ r = bits_of_text (encode bs False)"
    "length r < 8"
    using dec_loop_bits [of 0 "encode bs False" 0 "[]"] by (auto simp: bits_of_bytes_def)
  let ?d = "dec_loop (encode bs False) 0 0 []"
  have eq: "bits_of_bytes ?d @ r = bits_of_bytes bs @ replicate k False"
    using r k by simp
  then have "8 * length ?d + length r = 8 * length bs + k"
    by (metis length_append length_bits_of_bytes length_replicate)
  moreover have "a = b" if "8 * a + l = 8 * b + k" "l < 8" for a b l :: nat
    using that k(1) by linarith
  ultimately have "length ?d = length bs" using r(2) by blast
  then have "bits_of_bytes ?d = bits_of_bytes bs" using eq by (simp add: append_eq_append_conv)
  then have "?d = bs" by (rule bits_of_bytes_inject)
  moreover have "encode bs False \<noteq> []"
    using False length_encode [of bs] by (cases bs) auto
  ultimately show ?thesis
    by (simp add: decode_def lower_alphabet [OF encode_chars] strip_pad_alphabet [OF encode_chars])
qed


lemma pad8_eq: "\<exists>k. pad8 s = s @ replicate k CHR ''=''"
proof (induction s rule: pad8.induct)
  case (1 s)
  show ?case
  proof (cases "length s mod 8 = 0")
    case True
    then show ?thesis by (subst pad8.simps) (auto intro: exI [of _ 0])
  next
    case False
    then obtain k where "pad8 (s @ ''='') = (s @ ''='') @ replicate k CHR ''=''" using 1 by blast
    with False show ?thesis by (subst pad8.simps) (auto intro!: exI [of _ "Suc k"])
  qed
qed

lemma encode_padding: "\<exists>k. encode bs padding = encode bs False @ replicate k CHR ''=''"
proof (cases "padding \<and> bs \<noteq> []")
  case True
  then have "encode bs padding = pad8 (encode bs False)"
    by (simp add: encode_def Let_def split: prod.split)
  then show ?thesis using pad8_eq by simp
next
  case False
  then show ?thesis by (intro exI [of _ 0]) (auto simp: encode_def)
qed

lemma strip_pad_replicate: "strip_pad (s @ replicate k CHR ''='') = strip_pad s"
proof -
  have "dropWhile (\<lambda>c. c = CHR ''='') (replicate k CHR ''='' @ t) = dropWhile (\<lambda>c. c = CHR ''='') t" for t
    by (induction k) simp_all
  then show ?thesis by (simp add: strip_pad_def)
qed

section \<open>Properties\<close>

text \<open>
  C23. Decoding inverts encoding, with and without padding, for every byte string, although the
  32-bit accumulator wraps.
\<close>

theorem base32_roundtrip: "decode (encode bs padding) = bs"
proof -
  obtain k where k: "encode bs padding = encode bs False @ replicate k CHR ''=''"
    using encode_padding by blast
  have low: "js_lower (encode bs False @ replicate k CHR ''='') = encode bs False @ replicate k CHR ''=''"
    using lower_alphabet [OF encode_chars, of bs] by (simp add: js_lower_def js_lower_char_def)
  show ?thesis
  proof (cases "bs = []")
    case True
    then show ?thesis by (simp add: encode_def decode_def)
  next
    case False
    then have "encode bs False \<noteq> []" using length_encode [of bs] by (cases bs) auto
    then show ?thesis
      using decode_encode [of bs]
      by (simp add: k decode_def low strip_pad_replicate lower_alphabet [OF encode_chars])
  qed
qed

lemma bits_of_text_take:
  "set s \<subseteq> set ALPHABET \<Longrightarrow> bits_of_text (take n s) = take (5 * n) (bits_of_text s)"
proof -
  assume s: "set s \<subseteq> set ALPHABET"
  show ?thesis
  proof (cases "n \<le> length s")
    case True
    have "bits_of_text s = bits_of_text (take n s) @ bits_of_text (drop n s)"
      by (simp flip: bits_of_text_append)
    moreover have "length (bits_of_text (take n s)) = 5 * n"
      using s True set_take_subset [of n s] by (subst length_bits_of_text) auto
    ultimately show ?thesis by simp
  next
    case False
    then show ?thesis using length_bits_of_text [OF s] by simp
  qed
qed

lemma char_bits_inj:
  assumes "c \<in> set ALPHABET" "d \<in> set ALPHABET" "char_bits c = char_bits d"
  shows "c = d"
proof -
  obtain i j where i: "index_of c ALPHABET = Some i" and j: "index_of d ALPHABET = Some j"
    using assms(1,2) by (metis index_of_None not_Some_eq)
  have lt: "i < 32" "j < 32" using low_bits_of_idx(2) i j by blast+
  have eq: "low_bits 5 (of_nat i :: 32 word) = low_bits 5 (of_nat j :: 32 word)"
    using assms(3) i j by (simp add: char_bits_def)
  have "(of_nat i :: 32 word) = of_nat j"
  proof (rule bit_word_eqI)
    fix k assume "k < LENGTH(32)"
    show "bit (of_nat i :: 32 word) k = bit (of_nat j :: 32 word) k"
    proof (cases "k < 5")
      case True
      then have "low_bits 5 (of_nat i :: 32 word) ! (4 - k) = low_bits 5 (of_nat j :: 32 word) ! (4 - k)"
        by (simp only: eq)
      with True show ?thesis by (simp add: nth_low_bits)
    next
      case False
      then show ?thesis using idx_high_clear [OF lt(1), of k] idx_high_clear [OF lt(2), of k] by simp
    qed
  qed
  then have "unat (of_nat i :: 32 word) = unat (of_nat j :: 32 word)" by simp
  then have "i = j" using lt by (simp add: unat_of_nat take_bit_nat_eq_self_iff)
  with index_of_Some [OF i] index_of_Some [OF j] show ?thesis by simp
qed

lemma bits_of_text_inject:
  "set s \<subseteq> set ALPHABET \<Longrightarrow> set t \<subseteq> set ALPHABET \<Longrightarrow> bits_of_text s = bits_of_text t \<Longrightarrow> s = t"
proof (induction s arbitrary: t)
  case Nil
  have "length (bits_of_text t) = length (bits_of_text [])" by (simp only: Nil.prems(3))
  also have "\<dots> = 0" by (simp add: bits_of_text_def)
  finally show ?case using length_bits_of_text [OF Nil.prems(2)] by simp
next
  case (Cons c s)
  have "5 * length (c # s) = 5 * length t"
    using length_bits_of_text [OF Cons.prems(1)] length_bits_of_text [OF Cons.prems(2)] Cons.prems(3) by simp
  then obtain d t' where t: "t = d # t'" by (cases t) auto
  have len: "length (char_bits c) = length (char_bits d)"
    using length_bits_of_text [of "[c]"] length_bits_of_text [of "[d]"] Cons.prems(1,2) t
    by (simp add: bits_of_text_def)
  have "char_bits c @ bits_of_text s = char_bits d @ bits_of_text t'"
    using Cons.prems(3) t by (simp add: bits_of_text_def)
  with len have eqs: "char_bits c = char_bits d" "bits_of_text s = bits_of_text t'"
    using append_eq_append_conv [of "char_bits c" "char_bits d"] by blast+
  have sub: "set s \<subseteq> set ALPHABET" "set t' \<subseteq> set ALPHABET" "c \<in> set ALPHABET" "d \<in> set ALPHABET"
    using Cons.prems(1,2) t by simp_all
  show ?case
    using Cons.IH [OF sub(1,2) eqs(2)] char_bits_inj [OF sub(3,4) eqs(1)] t by blast
qed

lemma bits_of_bytes_take: "take (8 * n) (bits_of_bytes bs) = bits_of_bytes (take n bs)"
proof -
  have "bits_of_bytes bs = bits_of_bytes (take n bs) @ bits_of_bytes (drop n bs)"
    by (simp flip: bits_of_bytes_append)
  then show ?thesis by (cases "n \<le> length bs") auto
qed

lemma node_id_chars: "set (deriveNodeId sha k) \<subseteq> set ALPHABET"
  using encode_chars [of "sha k"] set_take_subset [of 16 "encode (sha k) False"]
  by (auto simp: deriveNodeId_def)

lemma node_id_bits:
  assumes "10 \<le> length (sha k)"
  shows "bits_of_text (deriveNodeId sha k) = bits_of_bytes (take 10 (sha k))"
proof -
  obtain j where "bits_of_text (encode (sha k) False) = bits_of_bytes (sha k) @ replicate j False"
    using encode_bits by blast
  then have "bits_of_text (deriveNodeId sha k) = take 80 (bits_of_bytes (sha k))"
    using assms by (simp add: deriveNodeId_def bits_of_text_take [OF encode_chars])
  also have "\<dots> = bits_of_bytes (take 10 (sha k))" using bits_of_bytes_take [of 10] by simp
  finally show ?thesis .
qed

lemma node_id_valid:
  assumes "10 \<le> length (sha k)"
  shows "isValidNodeId (deriveNodeId sha k)"
proof -
  have "length (deriveNodeId sha k) = 16"
    using assms by (simp add: deriveNodeId_def length_encode)
  moreover have "\<forall>c \<in> set ALPHABET. let n = of_char c :: nat in (97 \<le> n \<and> n \<le> 122) \<or> (50 \<le> n \<and> n \<le> 55)"
    by (simp add: ALPHABET_def Let_def)
  ultimately show ?thesis
    using node_id_chars [of sha k] by (auto simp: isValidNodeId_def list_all_iff)
qed

text \<open>
  A NodeID is the first 80 bits of the key's digest: it always has the form
  \<open>^[a-z2-7]{16}$\<close> that \<open>isValidNodeId\<close> tests, and two keys share a NodeID exactly when the first
  ten bytes of their digests agree.
\<close>

theorem node_id_identifies_digest:
  assumes "\<And>k. length (sha k) = 32"
  shows "isValidNodeId (deriveNodeId sha a) \<and>
    (deriveNodeId sha a = deriveNodeId sha b \<longleftrightarrow> take 10 (sha a) = take 10 (sha b))"
proof -
  have len: "10 \<le> length (sha k)" for k using assms [of k] by simp
  have "deriveNodeId sha a = deriveNodeId sha b
      \<longleftrightarrow> bits_of_text (deriveNodeId sha a) = bits_of_text (deriveNodeId sha b)"
    using bits_of_text_inject node_id_chars by metis
  also have "\<dots> \<longleftrightarrow> take 10 (sha a) = take 10 (sha b)"
    using bits_of_bytes_inject by (auto simp: node_id_bits [of sha, OF len])
  finally show ?thesis using node_id_valid [of sha, OF len] by blast
qed

theorem node_id_identifies_digest_witness:
  "isValidNodeId (deriveNodeId (\<lambda>k. take 32 (k @ replicate 32 0)) [7, 1]) \<and>
    (deriveNodeId (\<lambda>k. take 32 (k @ replicate 32 0)) [7, 1] = deriveNodeId (\<lambda>k. take 32 (k @ replicate 32 0)) [7, 2] \<longleftrightarrow>
     take 10 (take 32 ([7, 1] @ replicate 32 0 :: byte list)) = take 10 (take 32 ([7, 2] @ replicate 32 0)))"
  by (rule node_id_identifies_digest [where sha = "\<lambda>k. take 32 (k @ replicate 32 0)"]) simp

end
