(* ===== verification/ProxyProtocol.thy ===== *)
theory ProxyProtocol
  imports Base32
begin

text \<open>
  \<open>src/utils/proxyProtocol.js\<close>: the PROXY v1/v2 header parser and the socket wrapper
  \<open>handle\<close> that feeds it chunk by chunk. A buffer is a list of bytes, a result is one of the four
  statuses of \<open>parseBuffer\<close>; the wrapper's listeners are a step function over socket events whose
  effects (\<open>unshift\<close>, \<open>destroy\<close>, the callback) are listed in order.
\<close>

section \<open>The header parser\<close>

datatype proxy_result =
    OK string int "byte list"
  | NEED_MORE
  | REJECT string
  | PASSTHROUGH "byte list"

definition V2_MAGIC :: "byte list" where
  "V2_MAGIC = [13, 10, 13, 10, 0, 13, 10, 81, 85, 73, 84, 10]"

definition V1_PREFIX :: "byte list" where
  "V1_PREFIX = [80, 82, 79, 88, 89, 32]"

text \<open>\<open>buf.readUInt16BE(i)\<close>.\<close>

definition u16be :: "byte list \<Rightarrow> nat \<Rightarrow> nat" where
  "u16be buf i = unat (buf ! i) * 256 + unat (buf ! (i + 1))"

text \<open>\<open>buf.toString('ascii')\<close> clears the top bit of every byte.\<close>

definition ascii :: "byte list \<Rightarrow> string" where
  "ascii bs = map (\<lambda>b. char_of (unat b mod 128)) bs"

text \<open>\<open>buf.indexOf('\r\n')\<close>.\<close>

fun crlf_index :: "byte list \<Rightarrow> nat option" where
  "crlf_index (a # b # bs) =
     (if a = 13 \<and> b = 10 then Some 0 else map_option Suc (crlf_index (b # bs)))"
| "crlf_index _ = None"

text \<open>
  The scan for the longest run of zero words: the state is
  \<open>(maxRunStart, maxRunLength, currentRunStart, currentRunLength)\<close>, \<open>None\<close> the code's \<open>-1\<close>.
\<close>

definition run_step ::
  "nat list \<Rightarrow> nat \<Rightarrow> nat \<times> nat \<times> nat option \<times> nat \<Rightarrow> nat \<times> nat \<times> nat option \<times> nat" where
  "run_step ws i st =
     (case st of (maxStart, maxLen, curStart, curLen) \<Rightarrow>
        if ws ! i = 0
        then let (cs, cl) = (case curStart of None \<Rightarrow> (i, 1) | Some s \<Rightarrow> (s, curLen + 1))
             in if cl > maxLen then (cs, cl, Some cs, cl) else (maxStart, maxLen, Some cs, cl)
        else (maxStart, maxLen, None, 0))"

definition longest_run :: "nat list \<Rightarrow> nat \<times> nat" where
  "longest_run ws =
     (let (ms, ml, _, _) = fold (run_step ws) [0..<8] (0, 0, None, 0) in (ms, ml))"

abbreviation hex_words :: "nat list \<Rightarrow> string" where
  "hex_words ws \<equiv> join_with '':'' (map (show_radix 16) ws)"

text \<open>Eight words as text, the longest run of at least two zero words written \<open>::\<close>.\<close>

definition compress_words :: "nat list \<Rightarrow> string" where
  "compress_words ws =
     (let (start, len) = longest_run ws
      in if len \<ge> 2
         then hex_words (take start ws) @ ''::'' @ hex_words (drop (start + len) ws)
         else hex_words ws)"

definition formatIPv6 :: "byte list \<Rightarrow> nat \<Rightarrow> string" where
  "formatIPv6 buf offset = compress_words (map (\<lambda>i. u16be buf (offset + 2 * i)) [0..<8])"

definition dotted :: "byte \<Rightarrow> byte \<Rightarrow> byte \<Rightarrow> byte \<Rightarrow> string" where
  "dotted a b c d =
     show_nat (unat a) @ ''.'' @ show_nat (unat b) @ ''.'' @ show_nat (unat c) @ ''.'' @ show_nat (unat d)"

definition parse_v1 :: "byte list \<Rightarrow> string \<Rightarrow> proxy_result" where
  "parse_v1 buf cleanRemote =
     (case crlf_index buf of
        None \<Rightarrow>
          (if length buf > 107 then REJECT ''v1_header_exceeds_max_length'' else NEED_MORE)
      | Some i \<Rightarrow>
          (let tokens = split_on CHR '' '' (ascii (take i buf));
               remainder = drop (i + 2) buf;
               tok = (\<lambda>n. if n < length tokens then Some (tokens ! n) else None)
           in if tok 1 = Some ''UNKNOWN'' then OK cleanRemote 0 remainder
              else if (tok 1 = Some ''TCP4'' \<or> tok 1 = Some ''TCP6'') \<and> length tokens \<ge> 6
              then (case (tokens ! 2, parse_int 10 (tokens ! 4)) of
                      ([], _) \<Rightarrow> REJECT ''v1_invalid_address_or_port''
                    | (_, None) \<Rightarrow> REJECT ''v1_invalid_address_or_port''
                    | (srcIp, Some srcPort) \<Rightarrow> OK srcIp srcPort remainder)
              else REJECT ''v1_unsupported_protocol_token''))"

definition parse_v2 :: "byte list \<Rightarrow> string \<Rightarrow> proxy_result" where
  "parse_v2 buf cleanRemote =
     (if length buf < 16 then NEED_MORE
      else
        let verCmd = buf ! 12;
            ver = drop_bit 4 verCmd AND 15;
            cmd = verCmd AND 15
        in if ver \<noteq> 2 then REJECT ''v2_unsupported_version''
           else
             let fam = drop_bit 4 (buf ! 13) AND 15;
                 len = u16be buf 14;
                 total = 16 + len
             in if length buf < total then NEED_MORE
                else
                  let remainder = drop total buf
                  in if cmd = 0 then OK cleanRemote 0 remainder
                     else if cmd = 1
                     then (if fam = 1
                           then (if len < 12 then REJECT ''v2_ipv4_address_block_short''
                                 else OK (dotted (buf ! 16) (buf ! 17) (buf ! 18) (buf ! 19))
                                        (int (u16be buf 24)) remainder)
                           else if fam = 2
                           then (if len < 36 then REJECT ''v2_ipv6_address_block_short''
                                 else OK (formatIPv6 buf 16) (int (u16be buf 48)) remainder)
                           else OK cleanRemote 0 remainder)
                     else REJECT ''v2_invalid_command'')"

definition parseBuffer :: "byte list \<Rightarrow> string \<Rightarrow> string list \<Rightarrow> proxy_result" where
  "parseBuffer buf remoteIp trustedIps =
     (let cleanRemote = strip_v4mapped remoteIp;
          isTrusted = cleanRemote \<in> set trustedIps;
          isV1 = length buf \<ge> 6 \<and> take 6 buf = V1_PREFIX;
          isV2 = length buf \<ge> 12 \<and> take 12 buf = V2_MAGIC
      in if length buf < 6 \<and> take (length buf) V1_PREFIX = buf then NEED_MORE
         else if length buf < 12 \<and> take (length buf) V2_MAGIC = buf then NEED_MORE
         else if (isV1 \<or> isV2) \<and> \<not> isTrusted then REJECT ''untrusted_proxy_header_spoof''
         else if isV1 then parse_v1 buf cleanRemote
         else if isV2 then parse_v2 buf cleanRemote
         else PASSTHROUGH buf)"

section \<open>The socket wrapper\<close>

datatype proxy_event = Data "byte list" | SockError string | SockClose | Timeout

datatype proxy_effect = Unshift "byte list" | DestroySocket | Callback "string option"

record proxy_state =
  buffer :: "byte list"
  finished :: bool
  realRemote :: "(string option \<times> int option) option"

definition proxy_init :: proxy_state where
  "proxy_init = \<lparr>buffer = [], finished = False, realRemote = None\<rparr>"

text \<open>\<open>rawTrusted.map((ip) => String(ip).trim().replace(/^::ffff:/, ''))\<close>.\<close>

definition clean_trusted :: "string list \<Rightarrow> string list" where
  "clean_trusted ips = map (\<lambda>ip. strip_v4mapped (js_trim ip)) ips"

text \<open>
  The listeners of \<open>handle\<close>; \<open>cleanup\<close> removes them, so a finished wrapper does nothing.
  \<open>remote\<close> and \<open>rport\<close> are \<open>socket.remoteAddress\<close> and \<open>socket.remotePort\<close>.
\<close>

definition on_data ::
  "string option \<Rightarrow> int option \<Rightarrow> string list \<Rightarrow> byte list \<Rightarrow> proxy_state \<Rightarrow> proxy_state \<times> proxy_effect list" where
  "on_data remote rport trustedIps chunk s =
     (let buf = buffer s @ chunk; s = s\<lparr>buffer := buf\<rparr>
      in case parseBuffer buf (case remote of None \<Rightarrow> [] | Some r \<Rightarrow> r) trustedIps of
           NEED_MORE \<Rightarrow>
             (if length buf > 4096
              then (s\<lparr>finished := True\<rparr>, [DestroySocket, Callback (Some ''PROXY protocol header size overflow'')])
              else (s, []))
         | REJECT reason \<Rightarrow>
             (s\<lparr>finished := True\<rparr>, [DestroySocket, Callback (Some (''PROXY protocol rejected: '' @ reason))])
         | OK addr port remainder \<Rightarrow>
             (s\<lparr>finished := True, realRemote := Some (Some addr, Some port)\<rparr>,
              (if remainder \<noteq> [] then [Unshift remainder] else []) @ [Callback None])
         | PASSTHROUGH _ \<Rightarrow>
             (s\<lparr>finished := True, realRemote := Some (remote, rport)\<rparr>,
              (if buf \<noteq> [] then [Unshift buf] else []) @ [Callback None]))"

fun proxy_step ::
  "string option \<Rightarrow> int option \<Rightarrow> string list \<Rightarrow> proxy_event \<Rightarrow> proxy_state \<Rightarrow> proxy_state \<times> proxy_effect list" where
  "proxy_step remote rport trusted e s =
     (if finished s then (s, [])
      else case e of
             Data chunk \<Rightarrow> on_data remote rport trusted chunk s
           | SockError err \<Rightarrow> (s\<lparr>finished := True\<rparr>, [Callback (Some err)])
           | SockClose \<Rightarrow> (s\<lparr>finished := True\<rparr>, [])
           | Timeout \<Rightarrow> (s\<lparr>finished := True\<rparr>,
                          [DestroySocket, Callback (Some ''PROXY protocol handshake timeout'')]))"

fun proxy_run ::
  "string option \<Rightarrow> int option \<Rightarrow> string list \<Rightarrow> proxy_event list \<Rightarrow> proxy_state \<Rightarrow> proxy_state \<times> proxy_effect list" where
  "proxy_run remote rport trusted [] s = (s, [])"
| "proxy_run remote rport trusted (e # es) s =
     (let (s1, out1) = proxy_step remote rport trusted e s;
          (s2, out2) = proxy_run remote rport trusted es s1
      in (s2, out1 @ out2))"


section \<open>Headers and their prefixes\<close>

lemma crlf_index_bound: "crlf_index w = Some i \<Longrightarrow> i + 2 \<le> length w"
  by (induction w arbitrary: i rule: crlf_index.induct) (auto split: if_splits)

lemma crlf_index_take:
  "crlf_index w = Some i \<Longrightarrow> crlf_index (take n w) = (if i + 2 \<le> n then Some i else None)"
proof (induction w arbitrary: i n rule: crlf_index.induct)
  case (1 a b bs)
  show ?case
  proof (cases n)
    case (Suc m)
    then show ?thesis
    proof (cases m)
      case (Suc k)
      have IH: "crlf_index (b # bs) = Some z \<Longrightarrow> \<not> (a = 13 \<and> b = 10) \<Longrightarrow>
          crlf_index (b # take k bs) = (if z + 2 \<le> m then Some z else None)" for z
        using "1.IH" [of z m] Suc by simp
      show ?thesis using "1.prems" IH Suc \<open>n = Suc m\<close> by (auto split: if_splits)
    qed (use "1.prems" in \<open>auto split: if_splits\<close>)
  qed simp
qed simp_all

lemma parse_v1_OK:
  assumes "parse_v1 w c = OK a p r"
  obtains i where "crlf_index w = Some i" "r = drop (i + 2) w"
    "\<And>u. crlf_index u = Some i \<Longrightarrow> take i u = take i w \<Longrightarrow> parse_v1 u c = OK a p (drop (i + 2) u)"
proof -
  from assms obtain i where i: "crlf_index w = Some i"
    by (auto simp: parse_v1_def split: option.splits if_splits)
  have "r = drop (i + 2) w"
    using assms i by (auto simp: parse_v1_def Let_def split: option.splits if_splits list.splits prod.splits)
  moreover have "parse_v1 u c = OK a p (drop (i + 2) u)"
    if "crlf_index u = Some i" "take i u = take i w" for u
    using assms i that
    by (auto simp: parse_v1_def Let_def split: option.splits if_splits list.splits prod.splits)
  ultimately show ?thesis using i that by blast
qed

lemma parse_v2_OK:
  assumes "parse_v2 w c = OK a p r"
  shows "16 + u16be w 14 \<le> length w" "r = drop (16 + u16be w 14) w"
    "16 \<le> n \<Longrightarrow> parse_v2 (take n w) c
       = (if 16 + u16be w 14 \<le> n then OK a p (drop (16 + u16be w 14) (take n w)) else NEED_MORE)"
proof -
  have nth: "u16be (take n w) i = u16be w i" if "i + 1 < n" for n i
    using that by (simp add: u16be_def)
  have form: "formatIPv6 (take n w) 16 = formatIPv6 w 16" if "32 \<le> n" for n
    unfolding formatIPv6_def using that by (intro arg_cong [of _ _ compress_words] map_cong) (auto simp: nth)
  show bound: "16 + u16be w 14 \<le> length w" and "r = drop (16 + u16be w 14) w"
    using assms by (auto simp: parse_v2_def Let_def split: if_splits)
  show "parse_v2 (take n w) c
       = (if 16 + u16be w 14 \<le> n then OK a p (drop (16 + u16be w 14) (take n w)) else NEED_MORE)"
    if "16 \<le> n"
    using assms that bound
    by (auto simp: parse_v2_def Let_def nth form min_def split: if_splits)
qed

lemma V2_take: "length V2_MAGIC = 12" and V1_take: "length V1_PREFIX = 6"
  by (simp_all add: V2_MAGIC_def V1_PREFIX_def)

lemma V1_not_V2_prefix: "take 6 u = V1_PREFIX \<Longrightarrow> \<not> (take (length u) V2_MAGIC = u)"
  by (cases u) (auto simp: V1_PREFIX_def V2_MAGIC_def)

lemma V2_not_V1: "take 12 u = V2_MAGIC \<Longrightarrow> take 6 u \<noteq> V1_PREFIX"
  by (cases u) (auto simp: V1_PREFIX_def V2_MAGIC_def)

text \<open>An accepted buffer starts with a whole header, from a proxy of the trusted list.\<close>

lemma parseBuffer_OK:
  assumes "parseBuffer w ip tr = OK a p r"
  shows "strip_v4mapped ip \<in> set tr"
    and "(take 6 w = V1_PREFIX \<and> 6 \<le> length w \<and> parse_v1 w (strip_v4mapped ip) = OK a p r) \<or>
         (take 12 w = V2_MAGIC \<and> 12 \<le> length w \<and> parse_v2 w (strip_v4mapped ip) = OK a p r)"
  using assms by (auto simp: parseBuffer_def Let_def split: if_splits)

lemma parseBuffer_v1:
  assumes "take 6 u = V1_PREFIX" "6 \<le> length u" "strip_v4mapped ip \<in> set tr"
  shows "parseBuffer u ip tr = parse_v1 u (strip_v4mapped ip)"
  using assms V1_not_V2_prefix [of u] by (auto simp: parseBuffer_def Let_def)

lemma parseBuffer_v2:
  assumes "take 12 u = V2_MAGIC" "12 \<le> length u" "strip_v4mapped ip \<in> set tr"
  shows "parseBuffer u ip tr = parse_v2 u (strip_v4mapped ip)"
  using assms V2_not_V1 [of u] by (auto simp: parseBuffer_def Let_def)

definition header_length :: "byte list \<Rightarrow> byte list \<Rightarrow> nat" where
  "header_length w r = length w - length r"

lemma header_length_drop: "r = drop k w \<Longrightarrow> k \<le> length w \<Longrightarrow> header_length w r = k"
  by (simp add: header_length_def)

lemma parseBuffer_OK_suffix:
  assumes "parseBuffer w ip tr = OK a p r"
  shows "r = drop (header_length w r) w" "6 \<le> header_length w r" "header_length w r \<le> length w"
proof -
  from parseBuffer_OK(2) [OF assms] show "r = drop (header_length w r) w"
  proof
    assume v1: "take 6 w = V1_PREFIX \<and> 6 \<le> length w \<and> parse_v1 w (strip_v4mapped ip) = OK a p r"
    then obtain i where "crlf_index w = Some i" "r = drop (i + 2) w" by (auto elim: parse_v1_OK)
    then show ?thesis using header_length_drop crlf_index_bound by metis
  next
    assume v2: "take 12 w = V2_MAGIC \<and> 12 \<le> length w \<and> parse_v2 w (strip_v4mapped ip) = OK a p r"
    then show ?thesis using header_length_drop parse_v2_OK(1,2) by metis
  qed
  from parseBuffer_OK(2) [OF assms] show "6 \<le> header_length w r"
  proof
    assume v1: "take 6 w = V1_PREFIX \<and> 6 \<le> length w \<and> parse_v1 w (strip_v4mapped ip) = OK a p r"
    then obtain i where i: "crlf_index w = Some i" "r = drop (i + 2) w" by (auto elim: parse_v1_OK)
    have "crlf_index (take 6 w) = (if i + 2 \<le> 6 then Some i else None)"
      by (rule crlf_index_take) (fact i)
    moreover have "crlf_index (take 6 w) = None" using v1 by (simp add: V1_PREFIX_def)
    ultimately show ?thesis
      using i crlf_index_bound [OF i(1)] by (auto simp: header_length_def split: if_splits)
  next
    assume v2: "take 12 w = V2_MAGIC \<and> 12 \<le> length w \<and> parse_v2 w (strip_v4mapped ip) = OK a p r"
    then have "header_length w r = 16 + u16be w 14" using header_length_drop parse_v2_OK(1,2) by metis
    then show ?thesis by simp
  qed
qed (simp add: header_length_def)

lemma parseBuffer_take:
  assumes "parseBuffer w ip tr = OK a p r" "n \<le> length w"
    and "n \<le> 107 \<or> header_length w r \<le> n"
  shows "parseBuffer (take n w) ip tr =
    (if header_length w r \<le> n then OK a p (drop (header_length w r) (take n w)) else NEED_MORE)"
  using parseBuffer_OK(2) [OF assms(1)]
proof
  assume v1: "take 6 w = V1_PREFIX \<and> 6 \<le> length w \<and> parse_v1 w (strip_v4mapped ip) = OK a p r"
  then obtain i where i: "crlf_index w = Some i" "r = drop (i + 2) w"
    and cp: "\<And>u. crlf_index u = Some i \<Longrightarrow> take i u = take i w
               \<Longrightarrow> parse_v1 u (strip_v4mapped ip) = OK a p (drop (i + 2) u)"
    by (auto elim: parse_v1_OK)
  have h: "header_length w r = i + 2"
    using i crlf_index_bound [OF i(1)] by (simp add: header_length_def)
  show ?thesis
  proof (cases "n < 6")
    case True
    then have "take n V1_PREFIX = take n w" using v1 by (metis less_or_eq_imp_le min.absorb1 take_take)
    then show ?thesis
      using True assms(2) parseBuffer_OK_suffix(2) [OF assms(1)] by (simp add: parseBuffer_def Let_def)
  next
    case False
    then have "take 6 (take n w) = V1_PREFIX" "6 \<le> length (take n w)" using v1 assms(2) by simp_all
    then have "parseBuffer (take n w) ip tr = parse_v1 (take n w) (strip_v4mapped ip)"
      using parseBuffer_OK(1) [OF assms(1)] by (rule parseBuffer_v1)
    moreover have "crlf_index (take n w) = (if i + 2 \<le> n then Some i else None)"
      using i(1) by (rule crlf_index_take)
    ultimately show ?thesis
      using cp [of "take n w"] assms(2,3) h by (auto simp: parse_v1_def min_def)
  qed
next
  assume v2: "take 12 w = V2_MAGIC \<and> 12 \<le> length w \<and> parse_v2 w (strip_v4mapped ip) = OK a p r"
  then have h: "header_length w r = 16 + u16be w 14"
    using header_length_drop parse_v2_OK(1,2) by metis
  show ?thesis
  proof (cases "n < 12")
    case True
    then have "take n V2_MAGIC = take n w" using v2 by (metis less_or_eq_imp_le min.absorb1 take_take)
    then show ?thesis
      using True assms(2) h by (simp add: parseBuffer_def Let_def)
  next
    case False
    then have "take 12 (take n w) = V2_MAGIC" "12 \<le> length (take n w)" using v2 assms(2) by simp_all
    then have "parseBuffer (take n w) ip tr = parse_v2 (take n w) (strip_v4mapped ip)"
      using parseBuffer_OK(1) [OF assms(1)] by (rule parseBuffer_v2)
    then show ?thesis
      using parse_v2_OK(3) [of w _ a p r n] v2 h assms(2) by (cases "n < 16") (auto simp: parse_v2_def)
  qed
qed

section \<open>The wrapper\<close>

lemma proxy_run_finished: "finished s \<Longrightarrow> proxy_run remote rport tr es s = (s, [])"
  by (induction es) simp_all

lemma proxy_step_callback:
  assumes "proxy_step remote rport tr e s = (s', out)"
  shows "length (filter (\<lambda>x. \<exists>r. x = Callback r) out) \<le> 1"
    and "\<not> finished s' \<Longrightarrow> filter (\<lambda>x. \<exists>r. x = Callback r) out = []"
  using assms
  by (auto simp: on_data_def Let_def split: proxy_event.splits proxy_result.splits if_splits)

lemma proxy_run_one_callback:
  "length (filter (\<lambda>x. \<exists>r. x = Callback r) (snd (proxy_run remote rport tr es s))) \<le> 1"
proof (induction es arbitrary: s)
  case (Cons e es)
  obtain s1 out1 where st: "proxy_step remote rport tr e s = (s1, out1)" by fastforce
  obtain s2 out2 where run: "proxy_run remote rport tr es s1 = (s2, out2)" by fastforce
  show ?case
  proof (cases "finished s1")
    case True
    then show ?thesis
      using proxy_step_callback(1) [OF st] st by (simp add: proxy_run_finished del: proxy_step.simps)
  next
    case False
    then show ?thesis
      using proxy_step_callback(2) [OF st] Cons.IH [of s1] st run by (simp del: proxy_step.simps)
  qed
qed simp

text \<open>
  A trusted header fed in any split: the chunks up to the one that completes the header are
  swallowed, the address is set, and what is unshifted plus the chunks not read is the payload.
\<close>

lemma proxy_run_chunks:
  assumes ok: "parseBuffer (buffer s @ concat chunks) (case remote of None \<Rightarrow> [] | Some r \<Rightarrow> r) tr = OK a p r"
    and h: "header_length (buffer s @ concat chunks) r \<le> 107"
    and open_s: "\<not> finished s" "length (buffer s) < header_length (buffer s @ concat chunks) r"
  shows "\<exists>k rest. proxy_run remote rport tr (map Data chunks) s =
           (\<lparr>buffer = buffer s @ concat (take k chunks), finished = True, realRemote = Some (Some a, Some p)\<rparr>,
            (if rest \<noteq> [] then [Unshift rest] else []) @ [Callback None]) \<and>
         rest @ concat (drop k chunks) = r"
  using assms
proof (induction chunks arbitrary: s)
  case Nil
  then show ?case using parseBuffer_OK_suffix(3) [OF Nil.prems(1)] by simp
next
  case (Cons c chunks)
  let ?w = "buffer s @ concat (c # chunks)" and ?ip = "case remote of None \<Rightarrow> [] | Some r \<Rightarrow> r"
  let ?n = "length (buffer s @ c)" and ?h = "header_length ?w r"
  have tk: "take ?n ?w = buffer s @ c" by simp
  have pt: "?n \<le> 107 \<or> ?h \<le> ?n \<Longrightarrow> parseBuffer (buffer s @ c) ?ip tr =
      (if ?h \<le> ?n then OK a p (drop ?h (buffer s @ c)) else NEED_MORE)"
    using parseBuffer_take [OF Cons.prems(1), of ?n] unfolding tk by simp
  show ?case
  proof (cases "?h \<le> ?n")
    case True
    with pt have parsed: "parseBuffer (buffer s @ c) ?ip tr = OK a p (drop ?h (buffer s @ c))" by simp
    have "drop ?h (buffer s @ c) @ concat chunks = drop ?h ?w" using True by simp
    also have "\<dots> = r" using parseBuffer_OK_suffix(1) [OF Cons.prems(1)] by simp
    finally have "drop ?h (buffer s @ c) @ concat chunks = r" .
    then show ?thesis
      using parsed Cons.prems(3)
      by (intro exI [of _ 1] exI [of _ "drop ?h (buffer s @ c)"])
         (simp add: on_data_def proxy_run_finished Let_def)
  next
    case False
    with pt Cons.prems(2) have parsed: "parseBuffer (buffer s @ c) ?ip tr = NEED_MORE" by simp
    let ?s = "s\<lparr>buffer := buffer s @ c\<rparr>"
    have st: "proxy_step remote rport tr (Data c) s = (?s, [])"
      using parsed Cons.prems(2,3) False by (simp add: on_data_def Let_def)
    obtain k rest where k: "proxy_run remote rport tr (map Data chunks) ?s =
           (\<lparr>buffer = buffer ?s @ concat (take k chunks), finished = True, realRemote = Some (Some a, Some p)\<rparr>,
            (if rest \<noteq> [] then [Unshift rest] else []) @ [Callback None]) \<and>
         rest @ concat (drop k chunks) = r"
      using Cons.IH [of ?s] Cons.prems False by auto
    then show ?thesis
      using st by (intro exI [of _ "Suc k"] exI [of _ rest]) (simp del: proxy_step.simps)
  qed
qed


section \<open>A v2 header written by a proxy\<close>

definition be16 :: "nat \<Rightarrow> byte list" where
  "be16 n = [of_nat (n div 256), of_nat (n mod 256)]"

text \<open>A PROXY v2 header for a TCP/IPv4 client, with any TLV block \<open>tlv\<close> after the addresses.\<close>

definition v2_ipv4_header ::
  "byte list \<Rightarrow> byte list \<Rightarrow> nat \<Rightarrow> nat \<Rightarrow> byte list \<Rightarrow> byte list" where
  "v2_ipv4_header src dst sport dport tlv =
     V2_MAGIC @ [0x21, 0x11] @ be16 (12 + length tlv) @ src @ dst @ be16 sport @ be16 dport @ tlv"

lemma unat_be16:
  assumes "n < 65536"
  shows "unat (of_nat (n div 256) :: byte) * 256 + unat (of_nat (n mod 256) :: byte) = n"
proof -
  have "n div 256 < 256" using assms by linarith
  then have "unat (of_nat (n div 256) :: byte) = n div 256" "unat (of_nat (n mod 256) :: byte) = n mod 256"
    by (simp_all add: unat_of_nat take_bit_nat_eq_self_iff)
  then show ?thesis by simp
qed

text \<open>
  C32. Spoofing immunity: \<open>parseBuffer\<close> accepts an address only from a peer whose cleaned IP is in
  the trusted list, and then the remainder it hands back is the buffer without a non-empty header.
\<close>

theorem proxy_accepts_trusted_only:
  assumes "parseBuffer buf remoteIp trustedIps = OK addr port remainder"
  shows "strip_v4mapped remoteIp \<in> set trustedIps \<and>
    (\<exists>header. buf = header @ remainder \<and> 6 \<le> length header)"
proof -
  let ?n = "header_length buf remainder"
  have "buf = take ?n buf @ remainder" "6 \<le> length (take ?n buf)"
    using parseBuffer_OK_suffix [OF assms] by (metis append_take_drop_id, simp)
  with parseBuffer_OK(1) [OF assms] show ?thesis by blast
qed

theorem proxy_accepts_trusted_only_witness:
  "strip_v4mapped ''::ffff:10.0.0.9'' \<in> set [''10.0.0.9''] \<and>
   (\<exists>header. [80, 82, 79, 88, 89, 32, 85, 78, 75, 78, 79, 87, 78, 13, 10, 7 :: byte] = header @ [7] \<and>
     6 \<le> length header)"
  by (rule proxy_accepts_trusted_only [where addr = "''10.0.0.9''" and port = 0]) code_simp

text \<open>
  No byte is lost and the split of the stream does not matter: when the concatenation of the
  chunks starts with a trusted header of at most 107 bytes, the wrapper ends with the header's
  address, one callback without error, and what it unshifts followed by the chunks it did not read is
  the payload.
\<close>

theorem proxy_handle_chunks:
  assumes "parseBuffer (concat chunks) remoteIp trusted = OK addr port payload"
    and "length (concat chunks) - length payload \<le> 107"
  shows "\<exists>k rest s'. proxy_run (Some remoteIp) rport trusted (map Data chunks) proxy_init =
      (s', (if rest \<noteq> [] then [Unshift rest] else []) @ [Callback None]) \<and>
    realRemote s' = Some (Some addr, Some port) \<and> finished s' \<and>
    rest @ concat (drop k chunks) = payload"
proof -
  have init: "buffer proxy_init @ concat chunks = concat chunks" "\<not> finished proxy_init"
    by (simp_all add: proxy_init_def)
  have "length (buffer proxy_init) < header_length (buffer proxy_init @ concat chunks) payload"
    using parseBuffer_OK_suffix(2) [OF assms(1)] by (simp add: proxy_init_def)
  then obtain k rest where "proxy_run (Some remoteIp) rport trusted (map Data chunks) proxy_init =
           (\<lparr>buffer = buffer proxy_init @ concat (take k chunks), finished = True,
             realRemote = Some (Some addr, Some port)\<rparr>,
            (if rest \<noteq> [] then [Unshift rest] else []) @ [Callback None]) \<and>
         rest @ concat (drop k chunks) = payload"
    using proxy_run_chunks [of proxy_init chunks "Some remoteIp" trusted addr port payload rport]
      assms init by (auto simp: header_length_def)
  then show ?thesis by force
qed

theorem proxy_handle_chunks_witness:
  "\<exists>k rest s'. proxy_run (Some ''10.0.0.9'') (Some 5) [''10.0.0.9'']
      (map Data [[80, 82, 79], [88, 89, 32, 85, 78, 75, 78, 79, 87, 78, 13, 10, 7], [8]]) proxy_init =
      (s', (if rest \<noteq> [] then [Unshift rest] else []) @ [Callback None]) \<and>
    realRemote s' = Some (Some ''10.0.0.9'', Some 0) \<and> finished s' \<and>
    rest @ concat (drop k [[80, 82, 79], [88, 89, 32, 85, 78, 75, 78, 79, 87, 78, 13, 10, 7], [8]]) = [7, 8]"
  by (rule proxy_handle_chunks) code_simp+

text \<open>
  A v2 header written for a TCP/IPv4 client and followed by any payload parses to that client's
  dotted address and port, with exactly the payload as remainder.
\<close>

theorem proxy_v2_ipv4_parses:
  assumes "strip_v4mapped remoteIp \<in> set trustedIps"
    and "length src = 4" "length dst = 4" "sport < 65536" "length tlv < 65524"
  shows "parseBuffer (v2_ipv4_header src dst sport dport tlv @ payload) remoteIp trustedIps =
    OK (dotted (src ! 0) (src ! 1) (src ! 2) (src ! 3)) (int sport) payload"
proof -
  let ?w = "v2_ipv4_header src dst sport dport tlv @ payload"
  obtain a b c d where src: "src = [a, b, c, d]"
    using assms(2) by (auto simp: length_Suc_conv numeral_eq_Suc)
  obtain e f g h where dst: "dst = [e, f, g, h]"
    using assms(3) by (auto simp: length_Suc_conv numeral_eq_Suc)
  have w: "?w = V2_MAGIC @ 0x21 # 0x11 # of_nat ((12 + length tlv) div 256) # of_nat ((12 + length tlv) mod 256)
      # a # b # c # d # e # f # g # h # of_nat (sport div 256) # of_nat (sport mod 256) # be16 dport @ tlv @ payload"
    by (simp add: v2_ipv4_header_def be16_def src dst)
  have len: "u16be ?w 14 = 12 + length tlv"
    unfolding w u16be_def using unat_be16 [of "12 + length tlv"] assms(5) by (simp add: V2_MAGIC_def)
  have port: "u16be ?w 24 = sport"
    unfolding w u16be_def using unat_be16 [OF assms(4)] by (simp add: V2_MAGIC_def)
  have bytes: "?w ! 12 = 0x21" "?w ! 13 = 0x11" "?w ! 16 = a" "?w ! 17 = b" "?w ! 18 = c" "?w ! 19 = d"
    unfolding w by (simp_all add: V2_MAGIC_def)
  have "length (v2_ipv4_header src dst sport dport tlv) = 16 + (12 + length tlv)"
    by (simp add: v2_ipv4_header_def be16_def src dst V2_MAGIC_def)
  then have "length ?w = 16 + (12 + length tlv) + length payload" "drop (16 + (12 + length tlv)) ?w = payload"
    by simp_all
  then have "parse_v2 ?w (strip_v4mapped remoteIp) = OK (dotted a b c d) (int sport) payload"
    by (simp add: parse_v2_def Let_def len port bytes del: append.simps)
  moreover have "take 12 ?w = V2_MAGIC" "12 \<le> length ?w"
    by (simp_all add: v2_ipv4_header_def V2_MAGIC_def)
  ultimately show ?thesis
    using parseBuffer_v2 [of ?w remoteIp trustedIps] assms(1) src by simp
qed

theorem proxy_v2_ipv4_parses_witness:
  "parseBuffer (v2_ipv4_header [203, 0, 113, 9] [10, 0, 0, 1] 51000 8001 [] @ [123]) ''127.0.0.1'' [''127.0.0.1'']
     = OK (dotted 203 0 113 9) 51000 [123]"
  using proxy_v2_ipv4_parses [of "''127.0.0.1''" "[''127.0.0.1'']" "[203, 0, 113, 9]" "[10, 0, 0, 1]" 51000
      "[]" 8001 "[123]"]
  by (simp add: strip_prefix_def starts_with_def)

end
