(* ===== verification/Caches.thy ===== *)
theory Caches
  imports Prelude
begin

text \<open>
  \<open>NonceTracker\<close> and \<open>MessageTtlCache\<close> of \<open>src/core/secureChannel.js\<close>. Both keep a \<open>Map\<close> from
  a key to the time of its insertion, drop expired entries from the front up to the first live one,
  and evict the oldest entries above a capacity. The locale \<open>bounded_store\<close> states what their
  clients rely on: the size bound, and that a live entry survives as long as fewer than the capacity
  of younger entries arrive.
\<close>

section \<open>The code\<close>

record ttl_store =
  ttlMs :: int
  maxCapacity :: nat
  entries :: "(string, int) jsmap"

text \<open>The eviction loops: \<open>toRemove\<close> keys are deleted in insertion order.\<close>

definition evict_oldest :: "nat \<Rightarrow> (string, int) jsmap \<Rightarrow> (string, int) jsmap" where
  "evict_oldest cap m = (if length m > cap then drop (length m - cap) m else m)"

definition nonce_cleanup :: "int \<Rightarrow> ttl_store \<Rightarrow> ttl_store" where
  "nonce_cleanup now s =
     s\<lparr>entries := evict_oldest (maxCapacity s) (dropWhile (\<lambda>(k, ts). now - ts > ttlMs s) (entries s))\<rparr>"

definition track :: "string \<Rightarrow> string \<Rightarrow> int \<Rightarrow> ttl_store \<Rightarrow> bool \<times> ttl_store" where
  "track nonce remoteIp now s =
     (let s1 = nonce_cleanup now s;
          key = nonce @ ''_'' @ remoteIp
      in if jm_has (entries s1) key then (False, s1)
         else let s2 = s1\<lparr>entries := jm_set key now (entries s1)\<rparr>
              in if length (entries s2) > maxCapacity s2
                 then let s3 = nonce_cleanup now s2
                      in (True, s3\<lparr>entries := evict_oldest (maxCapacity s3) (entries s3)\<rparr>)
                 else (True, s2))"

definition cache_cleanup :: "int \<Rightarrow> ttl_store \<Rightarrow> ttl_store" where
  "cache_cleanup now s =
     s\<lparr>entries := evict_oldest (maxCapacity s) (dropWhile (\<lambda>(k, ts). now - ts > ttlMs s) (entries s))\<rparr>"

text \<open>\<open>has\<close>: a time stamp 0 is falsy, an expired entry is deleted.\<close>

definition cache_has :: "string \<Rightarrow> int \<Rightarrow> ttl_store \<Rightarrow> bool \<times> ttl_store" where
  "cache_has i now s =
     (case jm_get (entries s) i of
        None \<Rightarrow> (False, s)
      | Some ts \<Rightarrow>
          if ts = 0 then (False, s)
          else if now - ts > ttlMs s then (False, s\<lparr>entries := jm_delete i (entries s)\<rparr>)
          else (True, s))"

definition cache_add :: "string \<Rightarrow> int \<Rightarrow> ttl_store \<Rightarrow> ttl_store" where
  "cache_add i now s =
     (let s1 = cache_cleanup now s;
          s2 = s1\<lparr>entries := jm_set i now (entries s1)\<rparr>
      in s2\<lparr>entries := evict_oldest (maxCapacity s2) (entries s2)\<rparr>)"

definition new_store :: "int \<Rightarrow> nat \<Rightarrow> ttl_store" where
  "new_store ttl cap = \<lparr>ttlMs = ttl, maxCapacity = cap, entries = []\<rparr>"

section \<open>Entries that survive\<close>

text \<open>How many entries are younger than the entry of a key.\<close>

definition younger :: "(string, int) jsmap \<Rightarrow> string \<Rightarrow> nat" where
  "younger m k = length (takeWhile (\<lambda>p. fst p \<noteq> k) (rev m))"

lemma younger_split:
  assumes "k \<notin> fst ` set b"
  shows "younger (a @ (k, t) # b) k = length b"
proof -
  have "\<forall>p \<in> set (rev b). fst p \<noteq> k" using assms by force
  then have "takeWhile (\<lambda>p. fst p \<noteq> k) (rev b @ (k, t) # rev a) = rev b"
    by (simp add: takeWhile_append takeWhile_eq_all_conv)
  then show ?thesis by (simp add: younger_def)
qed

lemma entry_split:
  assumes "jm_ok m" "jm_get m k = Some t"
  obtains a b where "m = a @ (k, t) # b" "k \<notin> fst ` set a" "k \<notin> fst ` set b" "younger m k = length b"
proof -
  from assms(2) have "(k, t) \<in> set m" by (rule jm_get_mem)
  then obtain a b where m: "m = a @ (k, t) # b" by (auto simp: in_set_conv_decomp)
  with assms(1) have "k \<notin> fst ` set a" "k \<notin> fst ` set b" by (auto simp: jm_ok_def)
  with m younger_split [of k b a t] that show ?thesis by blast
qed

lemma get_split: "k \<notin> fst ` set a \<Longrightarrow> jm_get (a @ (k, t) # b) k = Some t"
  by (induction a) auto

lemma length_evict: "length (evict_oldest cap m) \<le> cap"
  by (simp add: evict_oldest_def)

lemma jm_ok_evict [simp, intro]: "jm_ok m \<Longrightarrow> jm_ok (evict_oldest cap m)"
  by (auto simp: evict_oldest_def)

lemma evict_keeps:
  assumes "length b < cap"
  shows "\<exists>a'. evict_oldest cap (a @ p # b) = a' @ p # b \<and> set a' \<subseteq> set a"
proof (cases "length (a @ p # b) > cap")
  case True
  then have "length (a @ p # b) - cap \<le> length a" using assms by simp
  then show ?thesis
    using True by (auto simp: evict_oldest_def dest: in_set_dropD)
qed (auto simp: evict_oldest_def)

lemma dropWhile_keeps:
  assumes "\<not> P p"
  shows "\<exists>a'. dropWhile P (a @ p # b) = a' @ p # b \<and> set a' \<subseteq> set a"
proof (induction a)
  case Nil
  then show ?case using assms by simp
next
  case (Cons x a)
  show ?case
  proof (cases "P x")
    case True
    then show ?thesis using Cons by auto
  qed (auto intro: exI [of _ "x # a"])
qed

lemma clean_keeps:
  assumes "now - t \<le> ttl" "length b < cap"
  shows "\<exists>a'. evict_oldest cap (dropWhile (\<lambda>(k, ts). now - ts > ttl) (a @ (k, t) # b)) = a' @ (k, t) # b
           \<and> set a' \<subseteq> set a"
proof -
  obtain a1 where a1: "dropWhile (\<lambda>(k, ts). now - ts > ttl) (a @ (k, t) # b) = a1 @ (k, t) # b" "set a1 \<subseteq> set a"
    using dropWhile_keeps [of "\<lambda>(k, ts). now - ts > ttl" "(k, t)" a b] assms(1) by auto
  with evict_keeps [OF assms(2), of a1 "(k, t)"] show ?thesis by force
qed

section \<open>What a client relies on\<close>

locale bounded_store =
  fixes put :: "'e \<Rightarrow> int \<Rightarrow> ttl_store \<Rightarrow> ttl_store"
  assumes put_params: "ttlMs (put e now s) = ttlMs s \<and> maxCapacity (put e now s) = maxCapacity s"
    and put_ok: "jm_ok (entries s) \<Longrightarrow> jm_ok (entries (put e now s))"
    and put_bound: "length (entries s) \<le> maxCapacity s \<Longrightarrow> length (entries (put e now s)) \<le> maxCapacity s"
    and put_keeps:
      "jm_ok (entries s) \<Longrightarrow> jm_get (entries s) k = Some t \<Longrightarrow> t \<le> now \<Longrightarrow> now - t \<le> ttlMs s \<Longrightarrow>
       younger (entries s) k + 2 \<le> maxCapacity s \<Longrightarrow>
       \<exists>t'. jm_get (entries (put e now s)) k = Some t' \<and> t \<le> t' \<and> t' \<le> now \<and>
            younger (entries (put e now s)) k \<le> younger (entries s) k + 1"
begin

definition put_all :: "('e \<times> int) list \<Rightarrow> ttl_store \<Rightarrow> ttl_store" where
  "put_all rs s = fold (\<lambda>(e, now). put e now) rs s"

lemma put_all_simps [simp]:
  "put_all [] s = s" "put_all ((e, now) # rs) s = put_all rs (put e now s)"
  by (simp_all add: put_all_def)

lemma put_all_params:
  "ttlMs (put_all rs s) = ttlMs s \<and> maxCapacity (put_all rs s) = maxCapacity s"
  by (induction rs arbitrary: s) (auto simp: put_params)

lemma put_all_ok: "jm_ok (entries s) \<Longrightarrow> jm_ok (entries (put_all rs s))"
  by (induction rs arbitrary: s) (auto simp: put_ok)

lemma put_all_bound:
  "length (entries s) \<le> maxCapacity s \<Longrightarrow> length (entries (put_all rs s)) \<le> maxCapacity s"
proof (induction rs arbitrary: s)
  case (Cons r rs)
  obtain e now where r: "r = (e, now)" by (cases r)
  have "length (entries (put e now s)) \<le> maxCapacity (put e now s)"
    using put_bound [OF Cons.prems] put_params by simp
  from Cons.IH [OF this] show ?case using r put_params by simp
qed simp

lemma put_all_keeps_young:
  assumes "jm_ok (entries s)" "jm_get (entries s) k = Some t" "t0 \<le> t"
    and "\<forall>(e, now) \<in> set rs. t \<le> now \<and> now - t0 \<le> ttlMs s" "sorted (map snd rs)"
    and "younger (entries s) k + length rs < maxCapacity s"
  shows "\<exists>t'. jm_get (entries (put_all rs s)) k = Some t' \<and> t0 \<le> t' \<and>
    younger (entries (put_all rs s)) k < maxCapacity s"
  using assms
proof (induction rs arbitrary: s t)
  case (Cons r rs)
  obtain e now where r: "r = (e, now)" by (cases r)
  have now: "t \<le> now" "now - t0 \<le> ttlMs s" using Cons.prems(4) r by auto
  then have "now - t \<le> ttlMs s" using Cons.prems(3) by simp
  then obtain t' where t': "jm_get (entries (put e now s)) k = Some t'" "t \<le> t'" "t' \<le> now"
      "younger (entries (put e now s)) k \<le> younger (entries s) k + 1"
    using put_keeps [OF Cons.prems(1,2) now(1)] Cons.prems(6) by auto
  have "\<forall>(e', n) \<in> set rs. t' \<le> n \<and> n - t0 \<le> ttlMs (put e now s)"
  proof
    fix x assume "x \<in> set rs"
    then show "case x of (e', n) \<Rightarrow> t' \<le> n \<and> n - t0 \<le> ttlMs (put e now s)"
      using Cons.prems(4,5) t'(3) r put_params [of e now s]
      by (force simp: case_prod_beta)
  qed
  then show ?case
    using Cons.IH [of "put e now s" t'] Cons.prems t' r put_ok put_params [of e now s] by auto
qed auto

end

section \<open>Both caches keep the contract\<close>

lemma track_params: "ttlMs (snd (track n ip now s)) = ttlMs s \<and> maxCapacity (snd (track n ip now s)) = maxCapacity s"
  by (simp add: track_def nonce_cleanup_def Let_def)

lemma track_ok: "jm_ok (entries s) \<Longrightarrow> jm_ok (entries (snd (track n ip now s)))"
  by (auto simp: track_def nonce_cleanup_def Let_def)

lemma track_bound: "length (entries (snd (track n ip now s))) \<le> maxCapacity s"
  by (auto simp: track_def nonce_cleanup_def Let_def length_evict)

lemma track_keeps:
  assumes "jm_ok (entries s)" "jm_get (entries s) k = Some t" "now - t \<le> ttlMs s"
    "younger (entries s) k + 2 \<le> maxCapacity s"
  shows "jm_get (entries (snd (track n ip now s))) k = Some t \<and>
    younger (entries (snd (track n ip now s))) k \<le> younger (entries s) k + 1"
proof -
  obtain a b where m: "entries s = a @ (k, t) # b" "k \<notin> fst ` set a" "k \<notin> fst ` set b"
      "younger (entries s) k = length b"
    using entry_split [OF assms(1,2)] by blast
  obtain a1 where a1: "entries (nonce_cleanup now s) = a1 @ (k, t) # b" "set a1 \<subseteq> set a"
    using clean_keeps [of now t "ttlMs s" b "maxCapacity s" a k] assms(3,4) m by (auto simp: nonce_cleanup_def)
  have k1: "k \<notin> fst ` set a1" using a1(2) m(2) by auto
  let ?key = "n @ ''_'' @ ip" and ?s1 = "nonce_cleanup now s"
  show ?thesis
  proof (cases "jm_has (entries ?s1) ?key")
    case True
    then show ?thesis
      using a1 k1 m(3,4) younger_split [of k b a1 t] get_split [of k a1 t b]
      by (simp add: track_def Let_def del: map_of_append)
  next
    case False
    let ?b = "b @ [(?key, now)]" and ?s2 = "?s1\<lparr>entries := jm_set ?key now (entries ?s1)\<rparr>"
    have ne: "?key \<noteq> k" using False a1 by (auto simp: jm_has_iff)
    have s2: "entries ?s2 = a1 @ (k, t) # ?b" using False a1 by (simp add: jm_set_fresh)
    have kb: "k \<notin> fst ` set ?b" using m(3) ne by auto
    have len: "length ?b < maxCapacity s" using assms(4) m(4) by simp
    obtain a2 where a2: "entries (nonce_cleanup now ?s2) = a2 @ (k, t) # ?b" "set a2 \<subseteq> set a1"
      using clean_keeps [of now t "ttlMs s" ?b "maxCapacity s" a1 k] assms(3) len s2
      by (auto simp: nonce_cleanup_def)
    obtain a3 where a3: "evict_oldest (maxCapacity s) (a2 @ (k, t) # ?b) = a3 @ (k, t) # ?b" "set a3 \<subseteq> set a2"
      using evict_keeps [OF len] by blast
    have params: "maxCapacity (nonce_cleanup now ?s2) = maxCapacity s" "maxCapacity ?s2 = maxCapacity s"
      by (simp_all add: nonce_cleanup_def)
    have k3: "k \<notin> fst ` set a3" using a2(2) a3(2) k1 by auto
    have "entries (snd (track n ip now s)) = a3 @ (k, t) # ?b \<or> entries (snd (track n ip now s)) = a1 @ (k, t) # ?b"
      using False s2 a2(1) a3(1) params by (simp add: track_def Let_def)
    then show ?thesis
      using get_split [OF k3, of t ?b] get_split [OF k1, of t ?b] younger_split [OF kb] m(4)
      by (auto simp del: map_of_append)
  qed
qed

lemma cache_add_params: "ttlMs (cache_add i now s) = ttlMs s \<and> maxCapacity (cache_add i now s) = maxCapacity s"
  by (simp add: cache_add_def cache_cleanup_def Let_def)

lemma cache_add_ok: "jm_ok (entries s) \<Longrightarrow> jm_ok (entries (cache_add i now s))"
  by (auto simp: cache_add_def cache_cleanup_def Let_def)

lemma cache_add_bound: "length (entries (cache_add i now s)) \<le> maxCapacity s"
  by (simp add: cache_add_def cache_cleanup_def Let_def length_evict)

lemma cache_add_keeps:
  assumes "jm_ok (entries s)" "jm_get (entries s) k = Some t" "t \<le> now" "now - t \<le> ttlMs s"
    "younger (entries s) k + 2 \<le> maxCapacity s"
  shows "\<exists>t'. jm_get (entries (cache_add i now s)) k = Some t' \<and> t \<le> t' \<and> t' \<le> now \<and>
    younger (entries (cache_add i now s)) k \<le> younger (entries s) k + 1"
proof -
  obtain a b where m: "entries s = a @ (k, t) # b" "k \<notin> fst ` set a" "k \<notin> fst ` set b"
      "younger (entries s) k = length b"
    using entry_split [OF assms(1,2)] by blast
  obtain a1 where a1: "entries (cache_cleanup now s) = a1 @ (k, t) # b" "set a1 \<subseteq> set a"
    using clean_keeps [of now t "ttlMs s" b "maxCapacity s" a k] assms(4,5) m by (auto simp: cache_cleanup_def)
  have k1: "k \<notin> fst ` set a1" using a1(2) m(2) by auto
  have upd: "\<exists>a2 t2 b2. jm_set i now (a1 @ (k, t) # b) = a2 @ (k, t2) # b2 \<and> t \<le> t2 \<and> t2 \<le> now \<and>
      k \<notin> fst ` set a2 \<and> k \<notin> fst ` set b2 \<and> length b2 \<le> length b + 1"
    using k1
  proof (induction a1)
    case Nil
    show ?case
    proof (cases "i = k")
      case True
      then show ?thesis using assms(3) m(3) by (intro exI [of _ "[]"] exI [of _ now] exI [of _ b]) simp
    next
      case False
      have keys: "fst ` set (jm_set i now b) = insert i (fst ` set b)"
        using jm_set_keys [of i now b] by simp
      have "length (jm_set i now b) \<le> length b + 1" by (simp add: length_jm_set)
      then show ?thesis using False assms(3) m(3) keys
        by (intro exI [of _ "[]"] exI [of _ t] exI [of _ "jm_set i now b"]) simp
    qed
  next
    case (Cons p a1)
    obtain x y where p: "p = (x, y)" by (cases p)
    show ?case
    proof (cases "i = x")
      case True
      then show ?thesis using Cons.prems p assms(3) m(3)
        by (intro exI [of _ "(x, now) # a1"] exI [of _ t] exI [of _ b]) simp
    next
      case False
      obtain a2 t2 b2 where "jm_set i now (a1 @ (k, t) # b) = a2 @ (k, t2) # b2" "t \<le> t2" "t2 \<le> now"
          "k \<notin> fst ` set a2" "k \<notin> fst ` set b2" "length b2 \<le> length b + 1"
        using Cons by auto
      then show ?thesis using False Cons.prems p
        by (intro exI [of _ "p # a2"] exI [of _ t2] exI [of _ b2]) simp
    qed
  qed
  then obtain a2 t2 b2 where s2: "jm_set i now (a1 @ (k, t) # b) = a2 @ (k, t2) # b2" "t \<le> t2" "t2 \<le> now"
      "k \<notin> fst ` set a2" "k \<notin> fst ` set b2" "length b2 \<le> length b + 1" by blast
  obtain a3 where a3: "evict_oldest (maxCapacity s) (a2 @ (k, t2) # b2) = a3 @ (k, t2) # b2" "set a3 \<subseteq> set a2"
    using evict_keeps [of b2 "maxCapacity s" a2 "(k, t2)"] s2(6) assms(5) m(4) by auto
  have "entries (cache_add i now s) = a3 @ (k, t2) # b2"
    using a1(1) s2(1) a3(1) by (simp add: cache_add_def Let_def cache_cleanup_def)
  moreover have "k \<notin> fst ` set a3" using a3(2) s2(4) by auto
  ultimately show ?thesis
    using get_split [of k a3 t2 b2] younger_split [OF s2(5)] s2(2,3,6) m(4)
    by (auto simp del: map_of_append)
qed

definition track_put :: "string \<times> string \<Rightarrow> int \<Rightarrow> ttl_store \<Rightarrow> ttl_store" where
  "track_put e now s = snd (track (fst e) (snd e) now s)"

interpretation nonces: bounded_store track_put
proof unfold_locales
  fix s :: ttl_store and e now
  show "ttlMs (track_put e now s) = ttlMs s \<and> maxCapacity (track_put e now s) = maxCapacity s"
    by (simp add: track_put_def track_params)
  show "length (entries (track_put e now s)) \<le> maxCapacity s"
    by (simp add: track_put_def track_bound)
  show "jm_ok (entries s) \<Longrightarrow> jm_ok (entries (track_put e now s))"
    by (simp add: track_put_def track_ok)
next
  fix s :: ttl_store and k t now e
  assume "jm_ok (entries s)" "jm_get (entries s) k = Some t" "t \<le> now" "now - t \<le> ttlMs s"
    "younger (entries s) k + 2 \<le> maxCapacity s"
  then show "\<exists>t'. jm_get (entries (track_put e now s)) k = Some t' \<and> t \<le> t' \<and> t' \<le> now \<and>
      younger (entries (track_put e now s)) k \<le> younger (entries s) k + 1"
    using track_keeps [of s k t now "fst e" "snd e"] by (simp add: track_put_def)
qed

interpretation seen: bounded_store cache_add
proof unfold_locales
  fix s :: ttl_store and e now
  show "ttlMs (cache_add e now s) = ttlMs s \<and> maxCapacity (cache_add e now s) = maxCapacity s"
    by (rule cache_add_params)
  show "length (entries (cache_add e now s)) \<le> maxCapacity s"
    by (rule cache_add_bound)
qed (fact cache_add_ok cache_add_keeps)+


section \<open>Properties\<close>

lemma track_accepts:
  assumes "track n ip t s = (True, s1)" "jm_ok (entries s)" "0 < maxCapacity s" "0 \<le> ttlMs s"
  shows "jm_get (entries s1) (n @ ''_'' @ ip) = Some t \<and> younger (entries s1) (n @ ''_'' @ ip) = 0 \<and>
    jm_ok (entries s1) \<and> ttlMs s1 = ttlMs s \<and> maxCapacity s1 = maxCapacity s"
proof -
  let ?key = "n @ ''_'' @ ip" and ?c = "nonce_cleanup t s"
  have fresh: "\<not> jm_has (entries ?c) ?key"
    using assms(1) by (auto simp: track_def Let_def split: if_splits)
  let ?s2 = "?c\<lparr>entries := jm_set ?key t (entries ?c)\<rparr>"
  have s2: "entries ?s2 = entries ?c @ [(?key, t)]" using fresh by (simp add: jm_set_fresh)
  have keep: "\<exists>a. evict_oldest (maxCapacity s) (a' @ [(?key, t)]) = a @ [(?key, t)] \<and> set a \<subseteq> set a'" for a'
    using evict_keeps [of "[]" "maxCapacity s" a' "(?key, t)"] assms(3) by simp
  have keyc: "?key \<notin> fst ` set (entries ?c)" using fresh by (simp add: jm_has_iff)
  have "\<exists>a. entries s1 = a @ [(?key, t)] \<and> set a \<subseteq> set (entries ?c)"
  proof (cases "length (entries ?s2) > maxCapacity ?s2")
    case True
    have st: "s1 = (nonce_cleanup t ?s2)\<lparr>entries := evict_oldest (maxCapacity s) (entries (nonce_cleanup t ?s2))\<rparr>"
      using assms(1) fresh True by (simp add: track_def Let_def nonce_cleanup_def)
    obtain d where d: "entries (nonce_cleanup t ?s2) = d @ [(?key, t)]" "set d \<subseteq> set (entries ?c)"
      using clean_keeps [of t t "ttlMs s" "[]" "maxCapacity s" "entries ?c" ?key] assms(3,4) s2
      by (auto simp: nonce_cleanup_def)
    then show ?thesis using keep [of d] st by auto
  next
    case False
    then have "s1 = ?s2" using assms(1) fresh by (simp add: track_def Let_def)
    with s2 show ?thesis by auto
  qed
  then obtain a where a: "entries s1 = a @ [(?key, t)]" "set a \<subseteq> set (entries ?c)" by blast
  then have "?key \<notin> fst ` set a" using keyc by auto
  then show ?thesis
    using a track_ok [OF assms(2), of n ip t] track_params [of n ip t s] assms(1)
      get_split [of ?key a t "[]"] younger_split [of ?key "[]" a t]
    by (simp del: map_of_append)
qed


lemma nonce_cleanup_keeps:
  assumes "entries s = a @ (k, t) # b" "now - t \<le> ttlMs s" "length b < maxCapacity s"
  shows "\<exists>a'. entries (nonce_cleanup now s) = a' @ (k, t) # b"
  using clean_keeps [OF assms(2,3), of a k] assms(1) by (auto simp: nonce_cleanup_def)

lemma cleanup_keeps_key:
  assumes "jm_ok (entries s)" "jm_get (entries s) k = Some t" "now - t \<le> ttlMs s"
    "younger (entries s) k < maxCapacity s"
  shows "jm_has (entries (nonce_cleanup now s)) k"
proof -
  obtain a b where m: "entries s = a @ (k, t) # b" "k \<notin> fst ` set a" "k \<notin> fst ` set b"
      "younger (entries s) k = length b"
    by (rule entry_split [OF assms(1,2)])
  have "length b < maxCapacity s" using assms(4) m(4) by simp
  then obtain a1 where a1: "entries (nonce_cleanup now s) = a1 @ (k, t) # b"
    using nonce_cleanup_keeps [OF m(1) assms(3)] by blast
  show ?thesis unfolding a1 jm_has_iff by simp
qed

lemma track_rejects:
  assumes "jm_ok (entries s)" "jm_get (entries s) (n @ ''_'' @ ip) = Some t" "now - t \<le> ttlMs s"
    "younger (entries s) (n @ ''_'' @ ip) < maxCapacity s"
  shows "fst (track n ip now s) = False"
  using cleanup_keeps_key [OF assms] by (simp add: track_def Let_def)



end
