(* ===== verification/Settings.thy ===== *)
theory Settings
  imports Prelude "HOL-Library.Monad_Syntax"
begin

text \<open>
  \<open>src/config/index.js\<close>: the settings record \<open>CONFIG\<close>, read once from the environment, and the
  two locale strings the address code depends on. The numeric settings are integers: an environment
  in which one of them is not a number (the code would carry \<open>NaN\<close> along) has no model, and
  \<open>load_config\<close> gives \<open>None\<close> for it.
\<close>

record config =
  serverName :: string
  clientPort :: int
  sshPort :: int
  federationPort :: int
  publicFederationPort :: int
  publicSshPort :: int
  publicClientPort :: int
  defaultFedPort :: int
  healthPort :: int
  allowOuterHeartbeat :: bool
  meshRole :: string
  bootstrapPeers :: "string list"
  maxRendezvousTunnels :: int
  rendezvousKeepaliveInterval :: int
  presenceTtl :: int
  circuitTtl :: int
  outboxTtl :: int
  outboxMaxRetries :: int
  uniformCellSize :: int
  secureBufferLimit :: int
  trustProxy :: bool
  useProxyProtocol :: bool
  proxyProtocolTrustedIps :: "string list"
  allowEdgeRouting :: bool
  allowEdgeGossip :: bool
  maxEdgeRendezvousRelays :: int
  strictPq :: bool
  environment :: string
  locale_name :: string
  logLevel :: string

type_synonym env = "string \<Rightarrow> string option"

text \<open>\<open>process.env.A || process.env.B || 'default'\<close>: an empty variable counts as absent.\<close>

fun env_or :: "env \<Rightarrow> string list \<Rightarrow> string \<Rightarrow> string" where
  "env_or env [] d = d"
| "env_or env (v # vs) d = (case env v of Some (c # s) \<Rightarrow> c # s | _ \<Rightarrow> env_or env vs d)"

definition env_int :: "env \<Rightarrow> string list \<Rightarrow> string \<Rightarrow> int option" where
  "env_int env vs d = parse_int 10 (env_or env vs d)"

abbreviation env_is :: "env \<Rightarrow> string \<Rightarrow> string \<Rightarrow> bool" where
  "env_is env v x \<equiv> env v = Some x"

definition comma_list :: "string \<Rightarrow> string list" where
  "comma_list s = filter (\<lambda>x. x \<noteq> []) (map js_trim (split_on CHR '','' s))"

definition load_config :: "env \<Rightarrow> config option" where
  "load_config env = do {
     client \<leftarrow> env_int env [''CLIENT_PORT''] ''2222'';
     ssh \<leftarrow> env_int env [''SSH_PORT''] ''2224'';
     fed \<leftarrow> env_int env [''FED_PORT''] ''8001'';
     pubFed \<leftarrow> env_int env [''PUBLIC_FED_PORT'', ''FED_PUBLIC_PORT'', ''FED_PORT''] ''8001'';
     pubSsh \<leftarrow> env_int env [''PUBLIC_SSH_PORT'', ''SSH_PUBLIC_PORT'', ''SSH_PORT''] ''2224'';
     pubClient \<leftarrow> env_int env [''PUBLIC_CLIENT_PORT'', ''CLIENT_PUBLIC_PORT'', ''CLIENT_PORT''] ''2222'';
     health \<leftarrow> env_int env [''HEALTH_PORT''] ''8050'';
     tunnels \<leftarrow> env_int env [''MAX_RENDEZVOUS_TUNNELS''] ''64'';
     keepalive \<leftarrow> env_int env [''RENDEZVOUS_KEEPALIVE_MS''] ''30000'';
     presence \<leftarrow> env_int env [''PRESENCE_TTL_MS''] ''60000'';
     circuit \<leftarrow> env_int env [''CIRCUIT_TTL_MS''] ''600000'';
     outbox \<leftarrow> env_int env [''OUTBOX_TTL_MS''] ''86400000'';
     retries \<leftarrow> env_int env [''OUTBOX_MAX_RETRIES''] ''20'';
     cell \<leftarrow> env_int env [''UNIFORM_CELL_SIZE''] ''2048'';
     limit \<leftarrow> env_int env [''SECURE_BUFFER_LIMIT''] ''65536'';
     relays \<leftarrow> env_int env [''MAX_EDGE_RELAYS''] ''4'';
     Some \<lparr>serverName = env_or env [''SERVER_NAME''] ''localhost'',
       clientPort = client, sshPort = ssh, federationPort = fed,
       publicFederationPort = pubFed, publicSshPort = pubSsh, publicClientPort = pubClient,
       defaultFedPort = 8001, healthPort = health,
       allowOuterHeartbeat = (env_is env ''ALLOW_OUTER_HEARTBEAT'' ''true'' \<or>
         env_is env ''ALLOW_OUTER_HEARTBEAK'' ''true''),
       meshRole = env_or env [''MESH_ROLE''] ''EDGE'',
       bootstrapPeers = comma_list (env_or env [''BOOTSTRAP_PEERS''] []),
       maxRendezvousTunnels = tunnels, rendezvousKeepaliveInterval = keepalive,
       presenceTtl = presence, circuitTtl = circuit, outboxTtl = outbox,
       outboxMaxRetries = retries, uniformCellSize = cell, secureBufferLimit = limit,
       trustProxy = (env_is env ''TRUST_PROXY'' ''true'' \<or> env_is env ''DOCKER'' ''true'' \<or>
         env_is env ''CONTAINER'' ''true''),
       useProxyProtocol = env_is env ''USE_PROXY_PROTOCOL'' ''true'',
       proxyProtocolTrustedIps = comma_list (env_or env [''PROXY_TRUSTED_IPS''] ''127.0.0.1,::1''),
       allowEdgeRouting = env_is env ''ALLOW_EDGE_ROUTING'' ''true'',
       allowEdgeGossip = (\<not> env_is env ''ALLOW_EDGE_GOSSIP'' ''false''),
       maxEdgeRendezvousRelays = relays,
       strictPq = env_is env ''STRICT_PQ'' ''true'',
       environment = env_or env [''NODE_ENV''] ''production'',
       locale_name = env_or env [''LOCALE''] ''en'',
       logLevel = env_or env [''LOG_LEVEL''] ''DEBUG''\<rparr>
   }"

text \<open>
  \<open>I18n.t('DEFAULT_CHANNEL_NAME')\<close> and \<open>I18n.t('SYSTEM_CONSOLE_NAME')\<close> for the current locale: an
  unknown locale reads the English dictionary.
\<close>

definition default_channel_name :: "string \<Rightarrow> string" where
  "default_channel_name loc = (if loc = ''tr'' then ''#genel'' else ''#general'')"

definition system_console_name :: "string \<Rightarrow> string" where
  "system_console_name loc = (if loc = ''tr'' then ''*sistem'' else ''*system'')"

text \<open>A node started with an empty environment has settings.\<close>

lemma parse_int_literals:
  "parse_int 10 ''2222'' = Some 2222" "parse_int 10 ''2224'' = Some 2224"
  "parse_int 10 ''8001'' = Some 8001" "parse_int 10 ''8050'' = Some 8050"
  "parse_int 10 ''64'' = Some 64" "parse_int 10 ''30000'' = Some 30000"
  "parse_int 10 ''60000'' = Some 60000" "parse_int 10 ''600000'' = Some 600000"
  "parse_int 10 ''86400000'' = Some 86400000" "parse_int 10 ''20'' = Some 20"
  "parse_int 10 ''2048'' = Some 2048" "parse_int 10 ''65536'' = Some 65536"
  "parse_int 10 ''4'' = Some 4"
  by (simp_all add: parse_int_def js_space_def starts_with_def is_digit_def digit_value_def digits_value_def Let_def)

lemma load_config_default: "load_config (\<lambda>_. None) \<noteq> None"
  by (simp add: load_config_def env_int_def parse_int_literals)

definition default_config :: config where
  "default_config = the (load_config (\<lambda>_. None))"

lemma default_config_fields [simp]:
  "serverName default_config = ''localhost''" "federationPort default_config = 8001"
  "publicFederationPort default_config = 8001" "maxRendezvousTunnels default_config = 64"
  "presenceTtl default_config = 60000" "circuitTtl default_config = 600000"
  "outboxTtl default_config = 86400000" "outboxMaxRetries default_config = 20"
  "uniformCellSize default_config = 2048" "secureBufferLimit default_config = 65536"
  "meshRole default_config = ''EDGE''" "trustProxy default_config = False"
  "allowEdgeRouting default_config = False" "allowEdgeGossip default_config = True"
  "maxEdgeRendezvousRelays default_config = 4" "strictPq default_config = False"
  "defaultFedPort default_config = 8001" "locale_name default_config = ''en''"
  "environment default_config = ''production''" "rendezvousKeepaliveInterval default_config = 30000"
  by (simp_all add: default_config_def load_config_def env_int_def parse_int_literals)

end
