(* ===== verification/Address.thy ===== *)
theory Address
  imports Settings ProxyProtocol
begin

text \<open>
  \<open>src/utils/addressHelper.js\<close>: user and channel addresses, targets (mesh ids, hosts with ports,
  IPv6 with and without brackets), canonical IPv6 text, and the comparison of targets. The static
  field \<open>localNodeId\<close> and \<open>CONFIG\<close> are arguments.
\<close>

section \<open>Names\<close>

definition user_char :: "char \<Rightarrow> bool" where
  "user_char c = (let n = of_char c :: nat in
     (48 \<le> n \<and> n \<le> 57) \<or> (65 \<le> n \<and> n \<le> 90) \<or> (97 \<le> n \<and> n \<le> 122) \<or> n = 95 \<or> n = 45)"

definition isValidUsername :: "string \<Rightarrow> bool" where
  "isValidUsername u = (u \<noteq> [] \<and> list_all user_char u)"

definition setLocalNodeId :: "string \<Rightarrow> string option" where
  "setLocalNodeId nodeId = Some (js_trim (js_lower nodeId))"

definition isGlobalChannel :: "string \<Rightarrow> bool" where
  "isGlobalChannel target =
     (let clean = before CHR '':'' (js_lower (js_trim target))
      in target \<noteq> [] \<and> clean \<in> {''#genel'', ''#general'', ''genel'', ''general''})"

definition isSystemConsole :: "string \<Rightarrow> bool" where
  "isSystemConsole target =
     (let clean = js_lower (js_trim target)
      in target \<noteq> [] \<and> clean \<in> {''*sistem'', ''*system'', ''sistem'', ''system''})"

section \<open>Canonical IPv6\<close>

text \<open>\<open>s.slice(s.lastIndexOf(c) + 1)\<close> and, for a string that has the character, the part before it.\<close>

definition after_last :: "char \<Rightarrow> string \<Rightarrow> string" where
  "after_last c s = rev (takeWhile (\<lambda>x. x \<noteq> c) (rev s))"

definition before_last :: "char \<Rightarrow> string \<Rightarrow> string" where
  "before_last c s = rev (tl (dropWhile (\<lambda>x. x \<noteq> c) (rev s)))"

text \<open>\<open>s.slice(0, s.lastIndexOf(c))\<close>: without the character the index is \<open>-1\<close>, which drops the
  last character.\<close>

definition slice_to_last :: "char \<Rightarrow> string \<Rightarrow> string" where
  "slice_to_last c s = (if c \<in> set s then before_last c s else butlast s)"

text \<open>\<open>s.split('::')\<close>.\<close>

fun split_dcolon :: "string \<Rightarrow> string list" where
  "split_dcolon [] = [[]]"
| "split_dcolon [c] = [[c]]"
| "split_dcolon (c # d # s) =
     (if c = CHR '':'' \<and> d = CHR '':'' then [] # split_dcolon s
      else (c # hd (split_dcolon (d # s))) # tl (split_dcolon (d # s)))"

definition hex_int :: "int \<Rightarrow> string" where
  "hex_int w = (if w < 0 then CHR ''-'' # show_radix 16 (nat (- w)) else show_radix 16 (nat w))"

definition hex_ints :: "int list \<Rightarrow> string" where
  "hex_ints ws = join_with '':'' (map hex_int ws)"

text \<open>The eight words as text; the scan for the longest run of zeros is that of \<open>formatIPv6\<close>.\<close>

definition compress_ints :: "int list \<Rightarrow> string" where
  "compress_ints ws =
     (let (start, len) = longest_run (map (\<lambda>w. nat \<bar>w\<bar>) ws)
      in if len \<ge> 2
         then hex_ints (take start ws) @ ''::'' @ hex_ints (drop (start + len) ws)
         else hex_ints ws)"

text \<open>The dotted tail: four decimal octets are two words.\<close>

definition v4_words :: "string \<Rightarrow> int list option" where
  "v4_words tail =
     (let octets = map (parse_int 10) (split_on CHR ''.'' tail)
      in case octets of
           [Some a, Some b, Some c, Some d] \<Rightarrow>
             (if \<forall>x \<in> {a, b, c, d}. 0 \<le> x \<and> x \<le> 255 then Some [a * 256 + b, c * 256 + d] else None)
         | _ \<Rightarrow> None)"

definition colon_parts :: "string \<Rightarrow> string list" where
  "colon_parts s = (if s = [] then [] else split_on CHR '':'' s)"

definition strip_brackets :: "string \<Rightarrow> string" where
  "strip_brackets s =
     (let t = (if starts_with ''['' s then tl s else s)
      in if ends_with '']'' t then butlast t else t)"

text \<open>The words of the text, \<open>None\<close> where the code gives the address back unchanged.\<close>

definition ipv6_words :: "string \<Rightarrow> int list option" where
  "ipv6_words ip = (
     let str = before CHR ''%'' (strip_brackets (js_trim ip));
         tail = after_last CHR '':'' str;
         v4 = (if CHR ''.'' \<in> set tail then v4_words tail else Some [])
     in case v4 of
          None \<Rightarrow> None
        | Some v4Words \<Rightarrow>
            let str1 = (if CHR ''.'' \<in> set tail then slice_to_last CHR '':'' str else str);
                halves = split_dcolon str1;
                parts = (if length halves > 2 then None
                         else if length halves = 2
                         then Some (colon_parts (halves ! 0), colon_parts (halves ! 1))
                         else Some (split_on CHR '':'' str1, []))
            in case parts of
                 None \<Rightarrow> None
               | Some (headParts, tailParts) \<Rightarrow>
                   let headWords = map (parse_int 16) headParts;
                       tailWords = map (parse_int 16) tailParts @ map Some v4Words;
                       total = length headWords + length tailWords
                   in if None \<in> set headWords \<or> None \<in> set tailWords \<or> total > 8 then None
                      else Some (map the headWords @ replicate (8 - total) 0 @ map the tailWords))"

definition canonicalizeIPv6 :: "string \<Rightarrow> string" where
  "canonicalizeIPv6 ip =
     (if ip = [] then ip
      else case ipv6_words ip of None \<Rightarrow> ip | Some words \<Rightarrow> compress_ints words)"

section \<open>Targets\<close>

datatype target =
    MeshTarget (t_node: string)
  | HostTarget (t_host: string) (t_port: int) (isIpv6: bool) (t_warning: bool)

definition meshAddress :: "string \<Rightarrow> string" where
  "meshAddress nodeId = nodeId @ ''.mesh''"

definition colon_count :: "string \<Rightarrow> nat" where
  "colon_count s = length (filter (\<lambda>c. c = CHR '':'') s)"

definition parseTarget :: "config \<Rightarrow> string \<Rightarrow> target option" where
  "parseTarget cfg target =
     (if target = [] then None
      else if ends_with ''.mesh'' target \<or> isValidNodeId target
      then Some (MeshTarget (js_lower (remove_first ''.mesh'' target)))
      else if starts_with ''['' target \<and> CHR '']'' \<in> set target
      then let host = tl (before CHR '']'' target);
               rest = tl (dropWhile (\<lambda>c. c \<noteq> CHR '']'') target);
               port = (if starts_with '':'' rest \<and> all_digits (tl rest)
                       then the (parse_int 10 (tl rest)) else federationPort cfg)
           in Some (HostTarget host port True False)
      else
        let n = colon_count target;
            possiblePort = after_last CHR '':'' target;
            possibleHost = before_last CHR '':'' target;
            (host, port) =
              (if n = 1 \<and> all_digits possiblePort
               then (if possibleHost = [] then serverName cfg else possibleHost, the (parse_int 10 possiblePort))
               else if n > 1 \<and> CHR ''.'' \<in> set possibleHost \<and> all_digits possiblePort
               then (possibleHost, the (parse_int 10 possiblePort))
               else (target, federationPort cfg))
        in Some (HostTarget host port (n > 1 \<or> CHR '':'' \<in> set host)
                   (n > 1 \<and> \<not> starts_with ''['' target \<and> all_digits possiblePort \<and>
                    CHR ''.'' \<notin> set possibleHost)))"

section \<open>Addresses\<close>

datatype addr_type = CHANNEL | USER

record parsed_address =
  pa_type :: addr_type
  pa_raw :: string
  pa_name :: string
  pa_nodeId :: "string option"
  pa_host :: "string option"
  pa_port :: "int option"
  pa_isGlobalChannel :: bool
  pa_isLocal :: bool
  pa_bracketWarning :: bool

definition mesh_result :: "addr_type \<Rightarrow> string \<Rightarrow> string \<Rightarrow> string \<Rightarrow> bool \<Rightarrow> parsed_address" where
  "mesh_result ty sigil name nodeId isLocal =
     \<lparr>pa_type = ty, pa_raw = sigil @ name @ '':'' @ nodeId @ ''.mesh'', pa_name = name,
      pa_nodeId = Some nodeId, pa_host = None, pa_port = None, pa_isGlobalChannel = False,
      pa_isLocal = isLocal, pa_bracketWarning = False\<rparr>"

definition host_result ::
  "addr_type \<Rightarrow> string \<Rightarrow> string \<Rightarrow> string \<Rightarrow> string \<Rightarrow> int \<Rightarrow> bool \<Rightarrow> bool \<Rightarrow> parsed_address" where
  "host_result ty sigil name display host port isLocal warning =
     \<lparr>pa_type = ty, pa_raw = sigil @ name @ '':'' @ display @ '':'' @ show_int port, pa_name = name,
      pa_nodeId = None, pa_host = Some host, pa_port = Some port, pa_isGlobalChannel = False,
      pa_isLocal = isLocal, pa_bracketWarning = warning\<rparr>"

text \<open>The branches a target selects are the same for channels and users.\<close>

definition targeted :: "config \<Rightarrow> string option \<Rightarrow> addr_type \<Rightarrow> string \<Rightarrow> string \<Rightarrow> string \<Rightarrow> parsed_address option" where
  "targeted cfg local ty sigil name target =
     (case parseTarget cfg target of
        None \<Rightarrow> None
      | Some (MeshTarget nodeId) \<Rightarrow>
          Some (mesh_result ty sigil name nodeId (truthy local \<and> Some nodeId = local))
      | Some (HostTarget host port v6 warning) \<Rightarrow>
          Some (host_result ty sigil name (if v6 then ''['' @ host @ '']'' else host) host port
                  (host = serverName cfg \<and> port = federationPort cfg) warning))"

definition untargeted :: "config \<Rightarrow> string option \<Rightarrow> addr_type \<Rightarrow> string \<Rightarrow> string \<Rightarrow> parsed_address" where
  "untargeted cfg local ty sigil name =
     (case local of
        Some (c # n) \<Rightarrow> mesh_result ty sigil name (c # n) True
      | _ \<Rightarrow> host_result ty sigil name (serverName cfg) (serverName cfg) (federationPort cfg) True False)"

definition parse :: "config \<Rightarrow> string option \<Rightarrow> string \<Rightarrow> parsed_address option" where
  "parse cfg local rawAddress =
     (if rawAddress = [] then None
      else
        let trimmed = js_trim rawAddress;
            clean = (if starts_with ''@'' trimmed \<or> starts_with ''#'' trimmed then trimmed else ''@'' @ trimmed);
            ty = (if starts_with ''#'' clean then CHANNEL else USER);
            sigil = (if ty = CHANNEL then ''#'' else ''@'');
            body = tl clean;
            name = before CHR '':'' body;
            target = tl (dropWhile (\<lambda>c. c \<noteq> CHR '':'') body)
        in if name = [] then None
           else if ty = CHANNEL \<and> isGlobalChannel name \<and> target = []
           then Some \<lparr>pa_type = CHANNEL, pa_raw = ''#'' @ name, pa_name = name, pa_nodeId = None,
                  pa_host = None, pa_port = None, pa_isGlobalChannel = True, pa_isLocal = True,
                  pa_bracketWarning = False\<rparr>
           else if target \<noteq> [] then targeted cfg local ty sigil name target
           else Some (untargeted cfg local ty sigil name))"

definition formatUser :: "string option \<Rightarrow> string \<Rightarrow> string option \<Rightarrow> string" where
  "formatUser local username nodeId =
     ''@'' @ username @ '':'' @ the (or_else nodeId (or_else local (Some ''local''))) @ ''.mesh''"

definition formatChannel :: "config \<Rightarrow> string option \<Rightarrow> string \<Rightarrow> string option \<Rightarrow> string" where
  "formatChannel cfg local channelName nodeId =
     (let clean = remove_first ''#'' channelName;
          targetNodeId = or_else nodeId local
      in if isGlobalChannel clean then default_channel_name (locale_name cfg)
         else if truthy targetNodeId then ''#'' @ clean @ '':'' @ the targetNodeId @ ''.mesh''
         else ''#'' @ clean @ '':'' @ serverName cfg @ '':'' @ show_int (federationPort cfg))"

definition local_host :: "string option \<Rightarrow> string \<Rightarrow> bool" where
  "local_host local host =
     (host = ''local.mesh'' \<or> (truthy local \<and> host = js_lower (the local) @ ''.mesh'') \<or>
      starts_with ''127.0.0.1'' host \<or> starts_with ''localhost'' host)"

definition isSameTarget :: "string option \<Rightarrow> string \<Rightarrow> string \<Rightarrow> bool" where
  "isSameTarget local targetA targetB =
     (if targetA = [] \<or> targetB = [] then False
      else if targetA = targetB then True
      else if isGlobalChannel targetA \<and> isGlobalChannel targetB then True
      else if isSystemConsole targetA \<and> isSystemConsole targetB then True
      else
        let aClean = js_lower (js_trim targetA);
            bClean = js_lower (js_trim targetB);
            isChanA = starts_with ''#'' aClean;
            isChanB = starts_with ''#'' bClean;
            isUserA = starts_with ''@'' aClean;
            isUserB = starts_with ''@'' bClean;
            nickA = strip_prefix ''@'' (before CHR '':'' aClean);
            nickB = strip_prefix ''@'' (before CHR '':'' bClean);
            hostA = second_part CHR '':'' aClean;
            hostB = second_part CHR '':'' bClean
        in if aClean = bClean then True
           else if isChanA \<noteq> isChanB \<or> isUserA \<noteq> isUserB then False
           else if isChanA then aClean = bClean
           else if nickA \<noteq> nickB then False
           else if \<not> truthy hostA \<or> \<not> truthy hostB then True
           else if hostA = hostB then True
           else local_host local (the hostA) \<noteq> local_host local (the hostB))"

section \<open>Canonical text\<close>

definition hex_char :: "char \<Rightarrow> bool" where
  "hex_char c = is_digit 16 c"

lemma hex_char_other: "hex_char c \<Longrightarrow>
    c \<noteq> CHR '':'' \<and> c \<noteq> CHR ''.'' \<and> c \<noteq> CHR ''%'' \<and> c \<noteq> CHR ''['' \<and> c \<noteq> CHR '']'' \<and> c \<noteq> CHR ''-'' \<and>
    c \<noteq> CHR ''+'' \<and> c \<noteq> CHR ''x'' \<and> c \<noteq> CHR ''X'' \<and> \<not> js_space c"
  by (auto simp: hex_char_def is_digit_def digit_value_def js_space_def Let_def split: if_splits option.splits)

lemma show_hex_chars: "c \<in> set (show_radix 16 n) \<Longrightarrow> hex_char c"
  using show_radix_digits [of 16 n] by (auto simp: list_all_iff hex_char_def)

lemma parse_hex [simp]: "parse_int 16 (show_radix 16 n) = Some (int n)"
proof -
  obtain d ds where s: "show_radix 16 n = d # ds" by (cases "show_radix 16 n") auto
  have d: "hex_char d" using show_hex_chars [of d n] s by simp
  have all: "takeWhile (is_digit 16) (show_radix 16 n) = show_radix 16 n"
    using show_hex_chars [of _ n] by (auto simp: takeWhile_eq_all_conv hex_char_def)
  have x: "\<not> starts_with ''0x'' (show_radix 16 n)" "\<not> starts_with ''0X'' (show_radix 16 n)"
    using show_hex_chars [of _ n] hex_char_other [of "CHR ''x''"] hex_char_other [of "CHR ''X''"]
    by (fastforce simp: starts_with_iff)+
  have "dropWhile js_space (show_radix 16 n) = show_radix 16 n" "\<not> starts_with ''-'' (show_radix 16 n)"
      "\<not> starts_with ''+'' (show_radix 16 n)"
    using hex_char_other [OF d] s by (simp_all add: starts_with_def)
  then show ?thesis
    using all x by (simp add: parse_int_def Let_def digits_value_show del: takeWhile_eq_all_conv)
qed

lemma join_set: "c \<in> set (join_with sep ws) \<Longrightarrow> c \<in> set sep \<or> (\<exists>w \<in> set ws. c \<in> set w)"
  by (induction sep ws rule: join_with.induct) auto

lemma hex_words_chars: "c \<in> set (hex_words ws) \<Longrightarrow> hex_char c \<or> c = CHR '':''"
  using join_set [of c "'':''" "map (show_radix 16) ws"] show_hex_chars by auto

lemma split_hex: "ws \<noteq> [] \<Longrightarrow> split_on CHR '':'' (hex_words ws) = map (show_radix 16) ws"
  by (rule split_join) (use hex_char_other show_hex_chars in auto)

lemma hex_words_empty: "hex_words ws = [] \<longleftrightarrow> ws = []"
proof (cases ws)
  case (Cons w vs)
  then show ?thesis by (cases vs) auto
qed simp

lemma colon_parts_hex: "colon_parts (hex_words ws) = map (show_radix 16) ws"
  by (cases "ws = []") (simp_all add: colon_parts_def hex_words_empty split_hex del: map_map)

text \<open>Text made of hexadecimal words and colons passes the cleaning untouched.\<close>

definition hex_text :: "string \<Rightarrow> bool" where
  "hex_text s = (\<forall>c \<in> set s. hex_char c \<or> c = CHR '':'')"

lemma trim_id: "(\<And>c. c \<in> set s \<Longrightarrow> \<not> js_space c) \<Longrightarrow> js_trim s = s"
proof -
  assume a: "\<And>c. c \<in> set s \<Longrightarrow> \<not> js_space c"
  have d: "dropWhile js_space t = t" if "\<And>c. c \<in> set t \<Longrightarrow> \<not> js_space c" for t
    using that by (cases t) auto
  show ?thesis using d [of s] d [of "rev s"] a by (simp add: js_trim_def)
qed

lemma hex_text_clean: "hex_text s \<Longrightarrow> before CHR ''%'' (strip_brackets (js_trim s)) = s \<and> CHR ''.'' \<notin> set s"
proof -
  assume h: "hex_text s"
  have colon: "\<not> js_space CHR '':''" by (simp add: js_space_def)
  have no: "c \<in> set s \<Longrightarrow> c \<noteq> CHR ''.'' \<and> c \<noteq> CHR ''%'' \<and> c \<noteq> CHR ''['' \<and> c \<noteq> CHR '']'' \<and> \<not> js_space c" for c
    using h hex_char_other [of c] colon by (auto simp: hex_text_def)
  have "js_trim s = s" by (rule trim_id) (use no in blast)
  moreover have "strip_brackets s = s"
    using no [of "CHR ''[''"] no [of "CHR '']''"]
    by (auto simp: strip_brackets_def starts_with_iff ends_with_iff Let_def)
  moreover have "before CHR ''%'' s = s" using no by (auto simp: takeWhile_eq_all_conv)
  ultimately show ?thesis using no by auto
qed

lemma after_last_subset: "set (after_last c s) \<subseteq> set s"
  by (auto simp: after_last_def dest: set_takeWhileD)

lemma split_dcolon_ne [simp]: "split_dcolon s \<noteq> []"
  by (induction s rule: split_dcolon.induct) auto

lemma split_dcolon_word:
  assumes "CHR '':'' \<notin> set w" "w \<noteq> []"
  shows "split_dcolon (w @ s) = (w @ hd (split_dcolon s)) # tl (split_dcolon s)"
  using assms
proof (induction w)
  case (Cons c w)
  show ?case
  proof (cases "w = []")
    case True
    then show ?thesis using Cons.prems by (cases s) auto
  next
    case False
    then obtain d v where "w = d # v" by (cases w) auto
    with Cons show ?thesis by auto
  qed
qed simp

lemma split_dcolon_one_colon:
  "s \<noteq> [] \<Longrightarrow> hd s \<noteq> CHR '':'' \<Longrightarrow>
    split_dcolon (CHR '':'' # s) = (CHR '':'' # hd (split_dcolon s)) # tl (split_dcolon s)"
  by (cases s) auto

lemma show_hex_no_colon: "CHR '':'' \<notin> set (show_radix 16 n)"
  using show_hex_chars hex_char_other by blast

lemma hex_words_hd: "ws \<noteq> [] \<Longrightarrow> hd (hex_words ws @ s) \<noteq> CHR '':'' \<and> hex_words ws @ s \<noteq> []"
proof -
  assume "ws \<noteq> []"
  then obtain w vs where ws: "ws = w # vs" by (cases ws) auto
  obtain d ds where d: "show_radix 16 w = d # ds" by (cases "show_radix 16 w") auto
  then have "d \<noteq> CHR '':''" using show_hex_no_colon [of w] by auto
  with ws d show ?thesis by (cases vs) auto
qed

lemma split_dcolon_hex:
  "split_dcolon (hex_words ws @ s) =
     (if ws = [] then split_dcolon s
      else (hex_words ws @ hd (split_dcolon s)) # tl (split_dcolon s))"
proof (induction ws)
  case (Cons w ws)
  show ?case
  proof (cases "ws = []")
    case True
    then show ?thesis using split_dcolon_word [OF show_hex_no_colon, of w s] by simp
  next
    case False
    then obtain v vs where ws: "ws = v # vs" by (cases ws) auto
    have "split_dcolon (CHR '':'' # hex_words ws @ s) =
        (CHR '':'' # hex_words ws @ hd (split_dcolon s)) # tl (split_dcolon s)"
      using split_dcolon_one_colon [of "hex_words ws @ s"] hex_words_hd [OF False] Cons False by simp
    then show ?thesis
      using split_dcolon_word [OF show_hex_no_colon, of w "CHR '':'' # hex_words ws @ s"] ws by simp
  qed
qed simp

lemma split_dcolon_hex_end: "split_dcolon (hex_words ws) = [hex_words ws]"
  using split_dcolon_hex [of ws "[]"] by (cases "ws = []") auto

lemma split_dcolon_halves: "split_dcolon (hex_words l @ ''::'' @ hex_words r) = [hex_words l, hex_words r]"
  using split_dcolon_hex [of l "''::'' @ hex_words r"] by (simp add: split_dcolon_hex_end)

lemma hex_text_words: "hex_text (hex_words ws)"
  using hex_words_chars by (auto simp: hex_text_def)

lemma hex_text_halves: "hex_text (hex_words l @ ''::'' @ hex_words r)"
  using hex_words_chars by (auto simp: hex_text_def)

lemma ipv6_words_hex:
  assumes "hex_text s"
  shows "ipv6_words s =
     (let halves = split_dcolon s;
          parts = (if length halves > 2 then None
                   else if length halves = 2 then Some (colon_parts (halves ! 0), colon_parts (halves ! 1))
                   else Some (split_on CHR '':'' s, []))
      in case parts of
           None \<Rightarrow> None
         | Some (h, t) \<Rightarrow>
             let hw = map (parse_int 16) h; tw = map (parse_int 16) t; total = length hw + length tw
             in if None \<in> set hw \<or> None \<in> set tw \<or> total > 8 then None
                else Some (map the hw @ replicate (8 - total) 0 @ map the tw))"
proof -
  have "CHR ''.'' \<notin> set (after_last CHR '':'' s)"
    using hex_text_clean [OF assms] after_last_subset by blast
  then show ?thesis
    using hex_text_clean [OF assms] by (simp add: ipv6_words_def Let_def)
qed

lemma map_parse_hex: "map (parse_int 16) (map (show_radix 16) ws) = map Some (map int ws)"
  by simp

lemma ipv6_words_halves:
  assumes "length l + length r \<le> 8"
  shows "ipv6_words (hex_words l @ ''::'' @ hex_words r) =
    Some (map int (l @ replicate (8 - length l - length r) 0 @ r))"
  unfolding ipv6_words_hex [OF hex_text_halves] split_dcolon_halves
  using assms by (auto simp: colon_parts_hex Let_def comp_def)

lemma ipv6_words_full:
  assumes "length ws = 8"
  shows "ipv6_words (hex_words ws) = Some (map int ws)"
proof -
  have "ws \<noteq> []" using assms by auto
  then show ?thesis
    unfolding ipv6_words_hex [OF hex_text_words] split_dcolon_hex_end
    using assms by (auto simp: split_hex Let_def comp_def)
qed

lemma hex_int_nat [simp]: "hex_int (int n) = show_radix 16 n"
  by (simp add: hex_int_def)

lemma hex_ints_nat [simp]: "hex_ints (map int ws) = hex_words ws"
  by (simp add: hex_ints_def comp_def)

lemma compress_ints_nat: "compress_ints (map int ws) = compress_words ws"
  unfolding compress_ints_def compress_words_def
  by (simp add: comp_def take_map drop_map Let_def split: prod.split)

text \<open>The scan finds a run of zeros inside the eight words.\<close>

definition run_ok :: "nat list \<Rightarrow> nat \<Rightarrow> nat \<times> nat \<times> nat option \<times> nat \<Rightarrow> bool" where
  "run_ok ws i st = (case st of (ms, ml, cs, cl) \<Rightarrow>
     ms + ml \<le> i \<and> (\<forall>j. ms \<le> j \<and> j < ms + ml \<longrightarrow> ws ! j = 0) \<and>
     (case cs of None \<Rightarrow> cl = 0 | Some s \<Rightarrow> s + cl = i \<and> (\<forall>j. s \<le> j \<and> j < i \<longrightarrow> ws ! j = 0)))"

lemma run_step_ok: "run_ok ws i st \<Longrightarrow> run_ok ws (Suc i) (run_step ws i st)"
  by (cases st) (auto simp: run_ok_def run_step_def less_Suc_eq split: option.splits)

lemma longest_run_zeros:
  "case longest_run ws of (s, n) \<Rightarrow> s + n \<le> 8 \<and> (\<forall>j. s \<le> j \<and> j < s + n \<longrightarrow> ws ! j = 0)"
proof -
  have "run_ok ws n (fold (run_step ws) [0..<n] (0, 0, None, 0))" for n
    by (induction n) (auto simp: run_ok_def [of ws 0] intro: run_step_ok)
  from this [of 8] show ?thesis
    by (auto simp: longest_run_def run_ok_def split: prod.splits)
qed

lemma split_at_zeros:
  assumes "s + n \<le> length ws" "\<forall>j. s \<le> j \<and> j < s + n \<longrightarrow> ws ! j = (0 :: nat)"
  shows "ws = take s ws @ replicate n 0 @ drop (s + n) ws"
proof -
  have "take n (drop s ws) = replicate n 0"
    using assms by (intro nth_equalityI) auto
  then show ?thesis
    by (metis append_take_drop_id drop_drop add.commute)
qed

lemma compress_words_cases:
  assumes "length ws = 8"
  obtains "compress_words ws = hex_words ws"
  | l n r where "compress_words ws = hex_words l @ ''::'' @ hex_words r" "ws = l @ replicate n 0 @ r"
proof -
  obtain s n where run: "longest_run ws = (s, n)" by (cases "longest_run ws")
  show ?thesis
  proof (cases "2 \<le> n")
    case True
    then show ?thesis
      using that(2) [of "take s ws" "drop (s + n) ws" n] run longest_run_zeros [of ws]
        split_at_zeros [of s n ws] assms
      by (simp add: compress_words_def)
  qed (use that(1) run in \<open>simp add: compress_words_def\<close>)
qed



section \<open>Addresses\<close>

text \<open>
  \<open>isSameTarget\<close> is reflexive on real targets, symmetric, and never relates a user to a channel
  unless both name the global channel or the system console.
\<close>

theorem same_target_symmetric:
  "isSameTarget local a b = isSameTarget local b a \<and>
   (a \<noteq> [] \<longrightarrow> isSameTarget local a a) \<and>
   (isSameTarget local a b \<longrightarrow> \<not> isGlobalChannel a \<longrightarrow> \<not> isSystemConsole a \<longrightarrow>
      starts_with ''#'' (js_lower (js_trim a)) = starts_with ''#'' (js_lower (js_trim b)))"
  by (auto simp: isSameTarget_def Let_def split: if_splits)

theorem same_target_symmetric_witness:
  "isSameTarget (Some ''abcdefgh23456722'') ''@ali:local.mesh'' ''@Ali'' =
   isSameTarget (Some ''abcdefgh23456722'') ''@Ali'' ''@ali:local.mesh'' \<and>
   isSameTarget None ''@ali'' ''@ali''"
  using same_target_symmetric [of "Some ''abcdefgh23456722''" "''@ali:local.mesh''" "''@Ali''"]
    same_target_symmetric [of None "''@ali''" "''@ali''"] by simp

lemma user_char_facts: "user_char c \<Longrightarrow> c \<noteq> CHR '':'' \<and> c \<noteq> CHR ''#'' \<and> c \<noteq> CHR ''@'' \<and> \<not> js_space c"
  by (auto simp: user_char_def js_space_def Let_def)

lemma node_id_text:
  assumes "isValidNodeId n"
  shows "n \<noteq> []" "js_lower n = n" "CHR ''.'' \<notin> set n" "c \<in> set n \<Longrightarrow> \<not> js_space c"
proof -
  have c: "c \<in> set n \<Longrightarrow> (97 \<le> (of_char c :: nat) \<and> (of_char c :: nat) \<le> 122) \<or>
      (50 \<le> (of_char c :: nat) \<and> (of_char c :: nat) \<le> 55)" for c
    using assms by (auto simp: isValidNodeId_def list_all_iff Let_def)
  show "n \<noteq> []" using assms by (auto simp: isValidNodeId_def)
  show "js_lower n = n"
    unfolding js_lower_def by (rule map_idI) (use c in \<open>force simp: js_lower_char_def Let_def\<close>)
  show "CHR ''.'' \<notin> set n" using c [of "CHR ''.''"] by auto
  show "c \<in> set n \<Longrightarrow> \<not> js_space c" using c [of c] by (auto simp: js_space_def Let_def)
qed

lemma remove_first_suffix:
  assumes "CHR ''.'' \<notin> set n"
  shows "remove_first ''.mesh'' (n @ ''.mesh'') = n"
  using assms by (induction n) (auto simp: starts_with_def)

lemma parseTarget_mesh:
  assumes "isValidNodeId n"
  shows "parseTarget cfg (n @ ''.mesh'') = Some (MeshTarget n)"
  using node_id_text(1-3) [OF assms] remove_first_suffix [of n] by (simp add: parseTarget_def)

lemma trim_mesh:
  assumes "\<And>c. c \<in> set u \<Longrightarrow> \<not> js_space c" "isValidNodeId n" "\<not> js_space k"
  shows "js_trim (k # u @ '':'' @ n @ ''.mesh'') = k # u @ '':'' @ n @ ''.mesh''"
  by (rule trim_id) (use assms node_id_text(4) [OF assms(2)] in \<open>auto simp: js_space_def\<close>)

text \<open>
  Parsing what \<open>formatUser\<close> prints gives the user and the node back, and local exactly for this
  node's id; the printed text is the parser's own raw form.
\<close>

theorem parse_format_user:
  assumes "isValidUsername u" "isValidNodeId n" "isValidNodeId me"
  shows "parse cfg (Some me) (formatUser (Some me) u (Some n)) =
      Some (mesh_result USER ''@'' u n (n = me)) \<and>
    pa_raw (mesh_result USER ''@'' u n (n = me)) = formatUser (Some me) u (Some n) \<and>
    parse cfg (Some me) (formatUser (Some me) u None) = Some (mesh_result USER ''@'' u me True)"
proof (intro conjI)
  have u: "u \<noteq> []" "CHR '':'' \<notin> set u" "\<And>c. c \<in> set u \<Longrightarrow> \<not> js_space c"
    using assms(1) user_char_facts by (auto simp: isValidUsername_def list_all_iff)
  have fmt: "formatUser (Some me) u (Some x) = CHR ''@'' # u @ '':'' @ x @ ''.mesh''"
    if "isValidNodeId x" for x
    using node_id_text(1) [OF that] by (simp add: formatUser_def or_else_def)
  have main: "parse cfg (Some me) (CHR ''@'' # u @ '':'' @ x @ ''.mesh'') =
      Some (mesh_result USER ''@'' u x (x = me))" if x: "isValidNodeId x" for x
  proof -
    have b: "before CHR '':'' (u @ '':'' @ x @ ''.mesh'') = u"
        "dropWhile (\<lambda>c. c \<noteq> CHR '':'') (u @ '':'' @ x @ ''.mesh'') = '':'' @ x @ ''.mesh''"
      using u(2) before_append [of "CHR '':''" u "x @ ''.mesh''"] by (auto simp: dropWhile_append)
    have tr: "js_trim (CHR ''@'' # u @ '':'' @ x @ ''.mesh'') = CHR ''@'' # u @ '':'' @ x @ ''.mesh''"
      by (rule trim_mesh) (use u(3) x in \<open>auto simp: js_space_def\<close>)
    have tg: "targeted cfg (Some me) USER ''@'' u (x @ ''.mesh'') = Some (mesh_result USER ''@'' u x (x = me))"
      using parseTarget_mesh [OF x] node_id_text(1) [OF assms(3)] by (simp add: targeted_def)
    show ?thesis
      unfolding parse_def tr using b u(1) tg by (simp add: Let_def starts_with_def)
  qed
  show "parse cfg (Some me) (formatUser (Some me) u (Some n)) = Some (mesh_result USER ''@'' u n (n = me))"
    using main [OF assms(2)] fmt [OF assms(2)] by simp
  show "pa_raw (mesh_result USER ''@'' u n (n = me)) = formatUser (Some me) u (Some n)"
    using fmt [OF assms(2)] by (simp add: mesh_result_def)
  show "parse cfg (Some me) (formatUser (Some me) u None) = Some (mesh_result USER ''@'' u me True)"
    using main [OF assms(3)] fmt [OF assms(3)] node_id_text(1) [OF assms(3)]
    by (simp add: formatUser_def or_else_def)
qed

theorem parse_format_user_witness:
  "\<forall>cfg. parse cfg (Some ''abcdefgh23456722'') ''@ali:qqqqqqqqqqqqqqqq.mesh'' =
     Some (mesh_result USER ''@'' ''ali'' ''qqqqqqqqqqqqqqqq'' False)"
proof -
  have "isValidUsername ''ali''" by code_simp
  moreover have "isValidNodeId ''qqqqqqqqqqqqqqqq''" by code_simp
  moreover have "isValidNodeId ''abcdefgh23456722''" by code_simp
  ultimately show ?thesis
    using parse_format_user [of "''ali''" "''qqqqqqqqqqqqqqqq''" "''abcdefgh23456722''"]
    by (simp add: formatUser_def or_else_def)
qed

text \<open>An IPv4-compatible address is not rewritten: the cut before the dotted tail leaves a lone colon.\<close>

lemma v4_compatible_unchanged: "canonicalizeIPv6 ''::192.168.1.1'' = ''::192.168.1.1''"
proof -
  have str: "before CHR ''%'' (strip_brackets (js_trim ''::192.168.1.1'')) = ''::192.168.1.1''"
    by code_simp
  have tail: "after_last CHR '':'' ''::192.168.1.1'' = ''192.168.1.1''"
      "slice_to_last CHR '':'' ''::192.168.1.1'' = '':''"
    by code_simp+
  have empty: "parse_int 16 [] = None" by (simp add: parse_int_def starts_with_def)
  have "ipv6_words ''::192.168.1.1'' = None"
    unfolding ipv6_words_def str Let_def tail
    by (simp add: empty split: option.splits)
  then show ?thesis by (simp add: canonicalizeIPv6_def)
qed

end
