(* ===== verification/Json.thy ===== *)
theory Json
  imports Prelude
begin

text \<open>
  \<open>JSON.stringify\<close> and \<open>JSON.parse\<close>, which every wire frame, signature and stored envelope goes
  through. Numbers are integers: a number with a fraction or an exponent, and a \<open>\u\<close> escape above
  255, are outside the model and read as a failed parse. Objects are association lists in insertion
  order; a repeated key keeps its place and takes the last value.
\<close>

section \<open>Values and printing\<close>

datatype json =
    JNull
  | JBool bool
  | JNum int
  | JStr string
  | JArr "json list"
  | JObj "(string \<times> json) list"

definition hex4 :: "nat \<Rightarrow> string" where
  "hex4 n = replicate (4 - length (show_radix 16 n)) CHR ''0'' @ show_radix 16 n"

definition esc_char :: "char \<Rightarrow> string" where
  "esc_char c = (let n = of_char c :: nat in
     if n = 34 then [CHR 0x5C, CHR 0x22]
     else if n = 92 then [CHR 0x5C, CHR 0x5C]
     else if n = 8 then [CHR 0x5C, CHR ''b'']
     else if n = 12 then [CHR 0x5C, CHR ''f'']
     else if n = 10 then [CHR 0x5C, CHR ''n'']
     else if n = 13 then [CHR 0x5C, CHR ''r'']
     else if n = 9 then [CHR 0x5C, CHR ''t'']
     else if n < 32 then CHR 0x5C # CHR ''u'' # hex4 n
     else [c])"

definition quote :: "string \<Rightarrow> string" where
  "quote s = CHR 0x22 # concat (map esc_char s) @ [CHR 0x22]"

text \<open>Elements and members are printed with the bracket that closes them.\<close>

fun stringify :: "json \<Rightarrow> string" and str_elems :: "json list \<Rightarrow> string"
  and str_members :: "(string \<times> json) list \<Rightarrow> string" where
  "stringify JNull = ''null''"
| "stringify (JBool b) = (if b then ''true'' else ''false'')"
| "stringify (JNum i) = show_int i"
| "stringify (JStr s) = quote s"
| "stringify (JArr xs) = (if xs = [] then ''[]'' else CHR ''['' # str_elems xs)"
| "stringify (JObj ms) = (if ms = [] then ''{}'' else CHR ''{'' # str_members ms)"
| "str_elems [] = []"
| "str_elems (x # xs) = stringify x @ (if xs = [] then '']'' else CHR '','' # str_elems xs)"
| "str_members [] = []"
| "str_members (kv # ms) =
     quote (fst kv) @ CHR '':'' # stringify (snd kv) @ (if ms = [] then ''}'' else CHR '','' # str_members ms)"

section \<open>Parsing\<close>

definition json_space :: "char \<Rightarrow> bool" where
  "json_space c = (let n = of_char c :: nat in n = 32 \<or> n = 9 \<or> n = 10 \<or> n = 13)"

abbreviation skip_ws :: "string \<Rightarrow> string" where
  "skip_ws s \<equiv> dropWhile json_space s"

definition unescape :: "char \<Rightarrow> char option" where
  "unescape c = (let n = of_char c :: nat in
     if n = 34 \<or> n = 92 \<or> n = 47 then Some c
     else if n = 98 then Some (CHR 0x08)
     else if n = 102 then Some (CHR 0x0C)
     else if n = 110 then Some (CHR 0x0A)
     else if n = 114 then Some (CHR 0x0D)
     else if n = 116 then Some (CHR 0x09)
     else None)"

definition hex4_char :: "string \<Rightarrow> char option" where
  "hex4_char h =
     (if list_all (is_digit 16) h \<and> digits_value 16 h < 256 then Some (char_of (digits_value 16 h)) else None)"

text \<open>The rest of a string literal after its opening quote.\<close>

fun parse_str :: "string \<Rightarrow> (string \<times> string) option" where
  "parse_str [] = None"
| "parse_str (c # s) =
     (if c = CHR 0x22 then Some ([], s)
      else if c = CHR 0x5C
      then (case s of
              [] \<Rightarrow> None
            | e # s1 \<Rightarrow>
                if e = CHR ''u''
                then (case s1 of
                        a # b # d # f # s2 \<Rightarrow>
                          (case hex4_char [a, b, d, f] of
                             None \<Rightarrow> None
                           | Some x \<Rightarrow> map_option (\<lambda>(t, r). (x # t, r)) (parse_str s2))
                      | _ \<Rightarrow> None)
                else (case unescape e of
                        None \<Rightarrow> None
                      | Some x \<Rightarrow> map_option (\<lambda>(t, r). (x # t, r)) (parse_str s1)))
      else if (of_char c :: nat) < 32 then None
      else map_option (\<lambda>(t, r). (c # t, r)) (parse_str s))"

text \<open>\<open>-?(0|[1-9][0-9]*)\<close>, not followed by a fraction or an exponent.\<close>

definition parse_num :: "string \<Rightarrow> (json \<times> string) option" where
  "parse_num s =
     (let neg = starts_with ''-'' s;
          t = (if neg then tl s else s);
          ds = takeWhile (is_digit 10) t;
          r = dropWhile (is_digit 10) t
      in if ds = [] \<or> (length ds > 1 \<and> hd ds = CHR ''0'') \<or>
            (r \<noteq> [] \<and> hd r \<in> {CHR ''.'', CHR ''e'', CHR ''E''}) then None
         else Some (JNum (if neg then - int (digits_value 10 ds) else int (digits_value 10 ds)), r))"

fun parse_val :: "nat \<Rightarrow> string \<Rightarrow> (json \<times> string) option"
  and parse_elems :: "nat \<Rightarrow> string \<Rightarrow> (json list \<times> string) option"
  and parse_members :: "nat \<Rightarrow> string \<Rightarrow> ((string \<times> json) list \<times> string) option" where
  "parse_val 0 s = None"
| "parse_val (Suc n) s =
     (case skip_ws s of
        [] \<Rightarrow> None
      | c # r \<Rightarrow>
          if c = CHR 0x22 then map_option (\<lambda>(t, r'). (JStr t, r')) (parse_str r)
          else if c = CHR ''[''
          then (case skip_ws r of
                  [] \<Rightarrow> None
                | d # r' \<Rightarrow> if d = CHR '']'' then Some (JArr [], r')
                            else map_option (\<lambda>(xs, r'). (JArr xs, r')) (parse_elems n r))
          else if c = CHR ''{''
          then (case skip_ws r of
                  [] \<Rightarrow> None
                | d # r' \<Rightarrow> if d = CHR ''}'' then Some (JObj [], r')
                            else map_option (\<lambda>(ms, r'). (JObj (fold (\<lambda>(k, v). jm_set k v) ms []), r'))
                                   (parse_members n r))
          else if starts_with ''null'' (c # r) then Some (JNull, drop 3 r)
          else if starts_with ''true'' (c # r) then Some (JBool True, drop 3 r)
          else if starts_with ''false'' (c # r) then Some (JBool False, drop 4 r)
          else parse_num (c # r))"
| "parse_elems 0 s = None"
| "parse_elems (Suc n) s =
     (case parse_val n s of
        None \<Rightarrow> None
      | Some (v, r) \<Rightarrow>
          (case skip_ws r of
             [] \<Rightarrow> None
           | d # r' \<Rightarrow> if d = CHR '','' then map_option (\<lambda>(vs, r''). (v # vs, r'')) (parse_elems n r')
                       else if d = CHR '']'' then Some ([v], r') else None))"
| "parse_members 0 s = None"
| "parse_members (Suc n) s =
     (case skip_ws s of
        [] \<Rightarrow> None
      | q # r0 \<Rightarrow>
          if q \<noteq> CHR 0x22 then None
          else (case parse_str r0 of
                  None \<Rightarrow> None
                | Some (k, r1) \<Rightarrow>
                    (case skip_ws r1 of
                       [] \<Rightarrow> None
                     | d # r2 \<Rightarrow>
                         if d \<noteq> CHR '':'' then None
                         else (case parse_val n r2 of
                                 None \<Rightarrow> None
                               | Some (v, r) \<Rightarrow>
                                   (case skip_ws r of
                                      [] \<Rightarrow> None
                                    | e # r' \<Rightarrow>
                                        if e = CHR '','' then map_option (\<lambda>(ms, r''). ((k, v) # ms, r'')) (parse_members n r')
                                        else if e = CHR ''}'' then Some ([(k, v)], r') else None)))))"

definition json_parse :: "string \<Rightarrow> json option" where
  "json_parse s =
     (case parse_val (Suc (length s)) s of
        None \<Rightarrow> None
      | Some (j, r) \<Rightarrow> if skip_ws r = [] then Some j else None)"

section \<open>Reading fields\<close>

fun field :: "json \<Rightarrow> string \<Rightarrow> json option" where
  "field (JObj ms) k = map_of ms k"
| "field _ k = None"

definition str_field :: "json \<Rightarrow> string \<Rightarrow> string option" where
  "str_field j k = (case field j k of Some (JStr s) \<Rightarrow> Some s | _ \<Rightarrow> None)"

text \<open>A value \<open>JSON.stringify\<close> can print: objects with distinct keys.\<close>

fun json_ok :: "json \<Rightarrow> bool" where
  "json_ok (JArr xs) = list_all json_ok xs"
| "json_ok (JObj ms) = (distinct (map fst ms) \<and> list_all (\<lambda>kv. json_ok (snd kv)) ms)"
| "json_ok _ = True"

section \<open>Round trip\<close>

lemma esc_char_cases:
  "(esc_char c = [c] \<and> c \<noteq> CHR 0x22 \<and> c \<noteq> CHR 0x5C \<and> 32 \<le> (of_char c :: nat)) \<or>
   (\<exists>e. esc_char c = [CHR 0x5C, e] \<and> e \<noteq> CHR ''u'' \<and> unescape e = Some c) \<or>
   (esc_char c = CHR 0x5C # CHR ''u'' # hex4 (of_char c) \<and> (of_char c :: nat) < 32)"
proof -
  have inj: "(of_char c :: nat) = of_char d \<longleftrightarrow> c = d" for d :: char by simp
  have v: "c = CHR 0x22 \<longleftrightarrow> (of_char c :: nat) = 34" "c = CHR 0x5C \<longleftrightarrow> (of_char c :: nat) = 92"
      "c = CHR 0x08 \<longleftrightarrow> (of_char c :: nat) = 8" "c = CHR 0x0C \<longleftrightarrow> (of_char c :: nat) = 12"
      "c = CHR 0x0A \<longleftrightarrow> (of_char c :: nat) = 10" "c = CHR 0x0D \<longleftrightarrow> (of_char c :: nat) = 13"
      "c = CHR 0x09 \<longleftrightarrow> (of_char c :: nat) = 9"
    by (auto simp flip: inj)
  have w: "CHR 0x22 = c \<longleftrightarrow> (of_char c :: nat) = 34" "CHR 0x5C = c \<longleftrightarrow> (of_char c :: nat) = 92"
      "CHR 0x08 = c \<longleftrightarrow> (of_char c :: nat) = 8" "CHR 0x0C = c \<longleftrightarrow> (of_char c :: nat) = 12"
      "CHR 0x0A = c \<longleftrightarrow> (of_char c :: nat) = 10" "CHR 0x0D = c \<longleftrightarrow> (of_char c :: nat) = 13"
      "CHR 0x09 = c \<longleftrightarrow> (of_char c :: nat) = 9"
    by (subst eq_commute, rule v)+
  show ?thesis
    by (simp add: esc_char_def Let_def unescape_def v w)
qed

lemma hex4_32: "n < 32 \<Longrightarrow> \<exists>a b d f. hex4 n = [a, b, d, f] \<and> hex4_char [a, b, d, f] = Some (char_of n)"
proof -
  have "\<forall>n \<in> set [0..<32]. length (hex4 n) = 4 \<and> hex4_char (hex4 n) = Some (char_of n)"
    by code_simp
  moreover assume "n < 32"
  ultimately have "length (hex4 n) = 4" "hex4_char (hex4 n) = Some (char_of n)" by auto
  then show ?thesis by (auto simp: numeral_eq_Suc length_Suc_conv)
qed

lemma parse_str_quote: "parse_str (concat (map esc_char s) @ CHR 0x22 # r) = Some (s, r)"
proof (induction s)
  case (Cons c s)
  consider "esc_char c = [c]" "c \<noteq> CHR 0x22" "c \<noteq> CHR 0x5C" "32 \<le> (of_char c :: nat)"
    | e where "esc_char c = [CHR 0x5C, e]" "e \<noteq> CHR ''u''" "unescape e = Some c"
    | "esc_char c = CHR 0x5C # CHR ''u'' # hex4 (of_char c)" "(of_char c :: nat) < 32"
    using esc_char_cases [of c] by blast
  then show ?case
  proof cases
    case 3
    then obtain a b d f where "hex4 (of_char c) = [a, b, d, f]" "hex4_char [a, b, d, f] = Some c"
      using hex4_32 [of "of_char c"] by auto
    with 3 Cons show ?thesis by simp
  qed (use Cons in simp_all)
qed simp

lemma show_digits: "list_all (is_digit 10) (show_nat n)"
  by (rule show_radix_digits) simp_all

lemma show_nat_long: "n < 10 \<or> 1 < length (show_nat n)"
proof (cases "n < 10")
  case False
  then have "show_nat n = show_nat (n div 10) @ [digit_char (n mod 10)]"
    by (subst show_radix.simps) simp
  then show ?thesis by simp
qed simp

lemma show_nat_no_leading_zero: "length (show_nat n) > 1 \<Longrightarrow> hd (show_nat n) \<noteq> CHR ''0''"
proof (induction n rule: less_induct)
  case (less n)
  show ?case
  proof (cases "n < 10")
    case True
    then have "show_nat n = [digit_char n]" by (subst show_radix.simps) simp
    with less.prems show ?thesis by simp
  next
    case False
    have s: "show_nat n = show_nat (n div 10) @ [digit_char (n mod 10)]"
      by (subst show_radix.simps) (simp add: False)
    show ?thesis
    proof (cases "length (show_nat (n div 10)) > 1")
      case True
      then show ?thesis using less.IH [of "n div 10"] False s by (auto simp: hd_append)
    next
      case len: False
      then have "n div 10 < 10"
        using show_nat_long [of "n div 10"] by linarith
      then have "show_nat (n div 10) = [digit_char (n div 10)]" "0 < n div 10"
        using False by (subst show_radix.simps, simp, simp)
      moreover have "digit_char d \<noteq> CHR ''0''" if "0 < d" "d < 10" for d
      proof
        assume "digit_char d = CHR ''0''"
        then have "digit_value (digit_char d) = digit_value (CHR ''0'')" by simp
        with that show False by (simp add: digit_value_char) (simp add: digit_value_def)
      qed
      ultimately show ?thesis using s \<open>n div 10 < 10\<close> by simp
    qed
  qed
qed

definition no_digit_next :: "string \<Rightarrow> bool" where
  "no_digit_next r = (r = [] \<or> (\<not> is_digit 10 (hd r) \<and> hd r \<notin> {CHR ''.'', CHR ''e'', CHR ''E''}))"

lemma parse_num_show:
  assumes "no_digit_next r"
  shows "parse_num (show_int i @ r) = Some (JNum i, r)"
proof -
  have tw: "takeWhile (is_digit 10) (show_nat n @ r) = show_nat n"
      "dropWhile (is_digit 10) (show_nat n @ r) = r" for n
    using show_digits [of n] assms
    by (cases r; auto simp: no_digit_next_def takeWhile_append dropWhile_append list_all_iff)+
  have dig: "x \<in> set (show_nat n) \<Longrightarrow> is_digit 10 x" for x n
    using show_digits [of n] by (simp add: list_all_iff)
  have nz: "\<not> (length (show_nat n) > 1 \<and> hd (show_nat n) = CHR ''0'')" for n
    using show_nat_no_leading_zero by blast
  have sg: "\<not> starts_with ''-'' (show_nat n @ r)" for n
  proof -
    obtain d ds where s: "show_nat n = d # ds" by (cases "show_nat n") auto
    then have "is_digit 10 d" using show_digits [of n] by simp
    with s show ?thesis using not_sign_digit by (simp add: starts_with_def)
  qed
  have r: "r = [] \<or> hd r \<noteq> CHR ''.'' \<and> hd r \<noteq> CHR ''e'' \<and> hd r \<noteq> CHR ''E''"
    using assms by (auto simp: no_digit_next_def)
  show ?thesis
  proof (cases "i < 0")
    case True
    then show ?thesis
      using nz [of "nat (- i)"] r tw
      by (auto simp: parse_num_def show_int_def starts_with_def Let_def digits_value_show dest: dig)
  next
    case False
    then show ?thesis
      using nz [of "nat i"] r tw sg
      by (auto simp: parse_num_def show_int_def Let_def digits_value_show dest: dig)
  qed
qed

lemma quote_shape: "\<exists>u. quote s = CHR 0x22 # u"
  by (simp add: quote_def)

lemma parse_quote: "parse_str (tl (quote s) @ r) = Some (s, r)"
  using parse_str_quote [of s r] by (simp add: quote_def)

lemma quote_append: "quote s @ r = CHR 0x22 # (tl (quote s) @ r)"
  by (simp add: quote_def)

lemma skip_char [simp]: "\<not> json_space c \<Longrightarrow> skip_ws (c # s) = c # s"
  by simp

lemma json_marks [simp]:
  "\<not> json_space CHR ''[''" "\<not> json_space CHR '']''" "\<not> json_space CHR ''{''" "\<not> json_space CHR ''}''"
  "\<not> json_space CHR '',''" "\<not> json_space CHR '':''" "\<not> json_space CHR 0x22" "\<not> json_space CHR ''n''"
  "\<not> json_space CHR ''t''" "\<not> json_space CHR ''f''" "\<not> json_space CHR ''-''"
  by (simp_all add: json_space_def)

lemma digit_not_space: "is_digit 10 c \<Longrightarrow> \<not> json_space c \<and> c \<notin> {CHR ''['', CHR ''{'', CHR 0x22, CHR ''n'', CHR ''t'', CHR ''f'', CHR '']'', CHR ''}''}"
  by (auto simp: is_digit_def digit_value_def json_space_def Let_def split: if_splits option.splits)

lemma show_int_hd: "\<exists>c t. show_int i = c # t \<and> (is_digit 10 c \<or> c = CHR ''-'')"
proof -
  obtain d ds where s: "show_nat (nat i) = d # ds" by (cases "show_nat (nat i)") auto
  then have "is_digit 10 d" using show_digits [of "nat i"] by simp
  with s show ?thesis by (auto simp: show_int_def)
qed

text \<open>No printed value starts with a space or a closing bracket.\<close>

lemma stringify_hd: "\<exists>c t. stringify j = c # t \<and> \<not> json_space c \<and> c \<noteq> CHR '']'' \<and> c \<noteq> CHR ''}''"
proof (cases j)
  case (JNum i)
  then show ?thesis using show_int_hd [of i] digit_not_space by auto
qed (auto simp: quote_def)

lemma no_digit_after [simp]:
  "no_digit_next (CHR '','' # r)" "no_digit_next (CHR '']'' # r)" "no_digit_next (CHR ''}'' # r)" "no_digit_next []"
  by (auto simp: no_digit_next_def is_digit_def digit_value_def)

definition build_obj :: "(string \<times> json) list \<Rightarrow> (string \<times> json) list" where
  "build_obj ms = fold (\<lambda>(k, v). jm_set k v) ms []"

lemma build_obj_gen:
  "distinct (map fst (acc @ ms)) \<Longrightarrow> fold (\<lambda>(k, v). jm_set k v) ms acc = acc @ ms"
proof (induction ms arbitrary: acc)
  case (Cons m ms)
  obtain k v where m: "m = (k, v)" by (cases m)
  have "\<not> jm_has acc k" using Cons.prems m by (auto simp: jm_has_iff)
  then show ?case using Cons.IH [of "acc @ [m]"] Cons.prems m by (simp add: jm_set_fresh)
qed simp

lemma build_obj_id: "distinct (map fst ms) \<Longrightarrow> fold (\<lambda>(k, v). jm_set k v) ms [] = ms"
  using build_obj_gen [of "[]" ms] by simp

lemma parse_stringify:
  "(json_ok j \<longrightarrow> (\<forall>n r. length (stringify j) \<le> n \<longrightarrow> no_digit_next r \<longrightarrow>
      parse_val n (stringify j @ r) = Some (j, r)))"
  "(list_all json_ok xs \<longrightarrow> xs \<noteq> [] \<longrightarrow> (\<forall>n r. length (str_elems xs) \<le> n \<longrightarrow>
      parse_elems n (str_elems xs @ r) = Some (xs, r)))"
  "(list_all (\<lambda>kv. json_ok (snd kv)) ms \<longrightarrow> ms \<noteq> [] \<longrightarrow> (\<forall>n r. length (str_members ms) \<le> n \<longrightarrow>
      parse_members n (str_members ms @ r) = Some (ms, r)))"
proof (induction j and xs and ms rule: stringify_str_elems_str_members.induct)
  case 1
  then show ?case by (auto simp: starts_with_def elim!: Suc_le_D [elim_format])
next
  case (2 b)
  then show ?case by (cases b) (auto simp: starts_with_def elim!: Suc_le_D [elim_format])
next
  case (3 i)
  show ?case
  proof (intro impI allI)
    fix n r assume n: "length (stringify (JNum i)) \<le> n" and r: "no_digit_next r"
    obtain c t where ct: "show_int i = c # t" "is_digit 10 c \<or> c = CHR ''-''" using show_int_hd by blast
    then obtain m where m: "n = Suc m" using n by (cases n) auto
    have "\<not> json_space c" "c \<notin> {CHR ''['', CHR ''{'', CHR 0x22, CHR ''n'', CHR ''t'', CHR ''f''}"
      using ct(2) digit_not_space by auto
    then show "parse_val n (stringify (JNum i) @ r) = Some (JNum i, r)"
      using parse_num_show [OF r, of i] ct m by (simp add: starts_with_def)
  qed
next
  case (4 s)
  show ?case
  proof (intro impI allI)
    fix n r assume "length (stringify (JStr s)) \<le> n"
    then obtain m where "n = Suc m" by (cases n) (auto simp: quote_def)
    then show "parse_val n (stringify (JStr s) @ r) = Some (JStr s, r)"
      using parse_quote [of s r] by (simp add: quote_append del: append_assoc)
  qed
next
  case (5 xs)
  show ?case
  proof (intro impI allI)
    fix n r assume ok: "json_ok (JArr xs)" and n: "length (stringify (JArr xs)) \<le> n"
    then obtain m where m: "n = Suc m" by (cases n) (auto split: if_splits)
    show "parse_val n (stringify (JArr xs) @ r) = Some (JArr xs, r)"
    proof (cases "xs = []")
      case False
      then obtain x ys where xs: "xs = x # ys" by (cases xs) auto
      obtain c t where ct: "stringify x = c # t" "\<not> json_space c" "c \<noteq> CHR '']''"
        using stringify_hd [of x] by blast
      have "parse_elems m (str_elems xs @ r) = Some (xs, r)"
        using 5 [OF False] ok n m False by simp
      then show ?thesis using ct xs m by simp
    qed (simp add: m)
  qed
next
  case (6 ms)
  show ?case
  proof (intro impI allI)
    fix n r assume ok: "json_ok (JObj ms)" and n: "length (stringify (JObj ms)) \<le> n"
    then obtain m where m: "n = Suc m" by (cases n) (auto split: if_splits)
    show "parse_val n (stringify (JObj ms) @ r) = Some (JObj ms, r)"
    proof (cases "ms = []")
      case False
      then obtain kv ms' where ms: "ms = kv # ms'" by (cases ms) auto
      have p: "parse_members m (str_members ms @ r) = Some (ms, r)"
        using 6 [OF False] ok n m False by simp
      have "\<exists>t. str_members ms @ r = CHR 0x22 # t" using ms by (simp add: quote_def)
      then obtain t where "str_members ms @ r = CHR 0x22 # t" by blast
      then show ?thesis using p m False ok build_obj_id [of ms] by simp
    qed (simp add: m)
  qed
next
  case 7
  then show ?case by simp
next
  case (8 x xs)
  show ?case
  proof (intro impI allI)
    fix n r assume ok: "list_all json_ok (x # xs)" and n: "length (str_elems (x # xs)) \<le> n"
    then obtain m where m: "n = Suc m" using stringify_hd [of x] by (cases n) auto
    show "parse_elems n (str_elems (x # xs) @ r) = Some (x # xs, r)"
    proof (cases "xs = []")
      case True
      have "parse_val m (stringify x @ CHR '']'' # r) = Some (x, CHR '']'' # r)"
        using 8(1) ok n m True by simp
      then show ?thesis using True m by simp
    next
      case False
      have "parse_val m (stringify x @ CHR '','' # str_elems xs @ r) = Some (x, CHR '','' # str_elems xs @ r)"
        using 8(1) ok n m False by simp
      moreover have "parse_elems m (str_elems xs @ r) = Some (xs, r)"
        using 8(2) ok n m False by simp
      ultimately show ?thesis using False m by simp
    qed
  qed
next
  case 9
  then show ?case by simp
next
  case (10 kv ms)
  show ?case
  proof (intro impI allI)
    fix n r assume ok: "list_all (\<lambda>kv. json_ok (snd kv)) (kv # ms)" and n: "length (str_members (kv # ms)) \<le> n"
    then obtain m where m: "n = Suc m" by (cases n) (auto simp: quote_def)
    obtain k v where kv: "kv = (k, v)" by (cases kv)
    let ?rest = "if ms = [] then CHR ''}'' # r else CHR '','' # str_members ms @ r"
    have lay: "str_members (kv # ms) @ r = CHR 0x22 # (tl (quote k) @ CHR '':'' # stringify v @ ?rest)"
      using kv by (simp add: quote_append)
    have v: "parse_val m (stringify v @ ?rest) = Some (v, ?rest)"
      using 10(1) ok n m kv by (auto simp: quote_def)
    have rest: "ms \<noteq> [] \<Longrightarrow> parse_members m (str_members ms @ r) = Some (ms, r)"
      using 10(2) ok n m kv by (auto simp: quote_def)
    show "parse_members n (str_members (kv # ms) @ r) = Some (kv # ms, r)"
      unfolding lay m using v rest kv by (auto simp: parse_quote)
  qed
qed

lemma json_parse_stringify: "json_ok j \<Longrightarrow> json_parse (stringify j) = Some j"
proof -
  assume "json_ok j"
  then have "parse_val (Suc (length (stringify j))) (stringify j @ []) = Some (j, [])"
    by (metis parse_stringify(1) le_SucI order_refl no_digit_after(4))
  then show ?thesis by (simp add: json_parse_def del: parse_val.simps)
qed

lemma stringify_inject: "json_ok a \<Longrightarrow> json_ok b \<Longrightarrow> stringify a = stringify b \<Longrightarrow> a = b"
  by (metis json_parse_stringify option.inject)

lemma no_newline_esc: "CHR 0x0A \<notin> set (esc_char c)"
proof -
  consider "esc_char c = [c]" "32 \<le> (of_char c :: nat)" | e where "esc_char c = [CHR 0x5C, e]" "unescape e = Some c"
    | "esc_char c = CHR 0x5C # CHR ''u'' # hex4 (of_char c)" "(of_char c :: nat) < 32"
    using esc_char_cases [of c] by blast
  then show ?thesis
  proof cases
    case 1
    then show ?thesis by auto
  next
    case 2
    then show ?thesis by (auto simp: unescape_def)
  next
    case 3
    have "CHR 0x0A \<notin> set (show_radix 16 n)" for n
      using show_radix_digits [of 16 n] by (auto simp: list_all_iff is_digit_def digit_value_def)
    with 3 show ?thesis by (auto simp: hex4_def)
  qed
qed

lemma no_newline_quote: "CHR 0x0A \<notin> set (quote s)"
  using no_newline_esc by (auto simp: quote_def)

lemma no_newline_show_int: "CHR 0x0A \<notin> set (show_int i)"
  using show_digits [of "nat i"] show_digits [of "nat (- i)"]
  by (auto simp: show_int_def list_all_iff is_digit_def digit_value_def)

text \<open>A printed value is one line.\<close>

lemma stringify_one_line:
  "CHR 0x0A \<notin> set (stringify j)" "CHR 0x0A \<notin> set (str_elems xs)" "CHR 0x0A \<notin> set (str_members ms)"
  by (induction j and xs and ms rule: stringify_str_elems_str_members.induct)
     (auto simp: no_newline_quote no_newline_show_int)

end
