(* ===== verification/Bytes.thy ===== *)
theory Bytes
  imports Base32
begin

text \<open>
  Node's \<open>Buffer\<close> conversions: UTF-8, Base64 and hexadecimal text. A byte sequence that decodes to a
  character above 255, or that is not UTF-8, reads as the substitute \<open>CHR 0xBF\<close>, the one place
  where the model has no room for the language's own replacement character. The Base64 decoder
  skips characters outside both alphabets, as Node's does.
\<close>

section \<open>UTF-8\<close>

definition utf8_char :: "char \<Rightarrow> byte list" where
  "utf8_char c = (let n = of_char c :: nat in
     if n < 128 then [of_nat n] else [of_nat (192 + n div 64), of_nat (128 + n mod 64)])"

definition utf8 :: "string \<Rightarrow> byte list" where
  "utf8 s = concat (map utf8_char s)"

definition utf8_subst :: char where
  "utf8_subst = CHR 0xBF"

fun from_utf8 :: "byte list \<Rightarrow> string" where
  "from_utf8 [] = []"
| "from_utf8 (b # bs) =
     (if unat b < 128 then char_of (unat b) # from_utf8 bs
      else if (b = 194 \<or> b = 195) \<and> bs \<noteq> [] \<and> 128 \<le> unat (hd bs) \<and> unat (hd bs) < 192
      then char_of ((unat b - 192) * 64 + (unat (hd bs) - 128)) # from_utf8 (tl bs)
      else utf8_subst # from_utf8 bs)"

abbreviation byteLength :: "string \<Rightarrow> nat" where
  "byteLength s \<equiv> length (utf8 s)"

lemma utf8_Nil [simp]: "utf8 [] = []"
  by (simp add: utf8_def)

lemma utf8_append: "utf8 (s @ t) = utf8 s @ utf8 t"
  by (simp add: utf8_def)

lemma utf8_char_dec: "from_utf8 (utf8_char c @ r) = c # from_utf8 r"
proof -
  have n: "(of_char c :: nat) < 256" by simp
  show ?thesis
  proof (cases "(of_char c :: nat) < 128")
    case True
    then show ?thesis by (simp add: utf8_char_def unat_of_nat)
  next
    case False
    let ?n = "of_char c :: nat"
    have d: "?n div 64 = 2 \<or> ?n div 64 = 3" using False n by linarith
    have l: "128 + ?n mod 64 < 256" by (rule order.strict_trans [of _ "128 + 64"]) simp_all
    have u: "unat (of_nat (192 + ?n div 64) :: byte) = 192 + ?n div 64"
      using d by (auto simp: unat_of_nat)
    have v: "unat (of_nat (128 + ?n mod 64) :: byte) = 128 + ?n mod 64"
      using l by (simp only: unat_of_nat) simp
    have w: "(of_nat (192 + ?n div 64) :: byte) = 194 \<or> (of_nat (192 + ?n div 64) :: byte) = 195"
      using d by auto
    have m: "(192 + ?n div 64 - 192) * 64 + (128 + ?n mod 64 - 128) = ?n" by simp
    show ?thesis
      using False w
      by (simp add: utf8_char_def Let_def u v m del: of_nat_add of_nat_div of_nat_mod)
  qed
qed

lemma from_utf8_utf8 [simp]: "from_utf8 (utf8 s) = s"
  by (induction s) (simp_all add: utf8_def utf8_char_dec)

lemma utf8_inject: "utf8 s = utf8 t \<longleftrightarrow> s = t"
  by (metis from_utf8_utf8)

section \<open>Base64\<close>

definition B64 :: string where
  "B64 = ''ABCDEFGHIJKLMNOPQRSTUVWXYZabcdefghijklmnopqrstuvwxyz0123456789+/''"

definition b64_char :: "nat \<Rightarrow> char" where
  "b64_char d = B64 ! d"

fun b64_encode :: "byte list \<Rightarrow> string" where
  "b64_encode [] = []"
| "b64_encode [a] = [b64_char (unat a div 4), b64_char (unat a mod 4 * 16), CHR ''='', CHR ''='']"
| "b64_encode [a, b] =
     [b64_char (unat a div 4), b64_char (unat a mod 4 * 16 + unat b div 16), b64_char (unat b mod 16 * 4), CHR ''='']"
| "b64_encode (a # b # c # bs) =
     b64_char (unat a div 4) # b64_char (unat a mod 4 * 16 + unat b div 16) #
     b64_char (unat b mod 16 * 4 + unat c div 64) # b64_char (unat c mod 64) # b64_encode bs"

definition b64_digit :: "char \<Rightarrow> nat option" where
  "b64_digit c =
     (if c = CHR ''-'' then Some 62 else if c = CHR ''_'' then Some 63 else index_of c B64)"

fun b64_bytes :: "nat list \<Rightarrow> byte list" where
  "b64_bytes (p # q # r # s # ds) =
     of_nat (p * 4 + q div 16) # of_nat (q mod 16 * 16 + r div 4) # of_nat (r mod 4 * 64 + s) # b64_bytes ds"
| "b64_bytes [p, q, r] = [of_nat (p * 4 + q div 16), of_nat (q mod 16 * 16 + r div 4)]"
| "b64_bytes [p, q] = [of_nat (p * 4 + q div 16)]"
| "b64_bytes _ = []"

definition b64_decode :: "string \<Rightarrow> byte list" where
  "b64_decode s = b64_bytes (List.map_filter b64_digit s)"

lemma b64_digit_char: "d < 64 \<Longrightarrow> b64_digit (b64_char d) = Some d"
proof -
  have "\<forall>d \<in> set [0..<64]. b64_digit (b64_char d) = Some d" by code_simp
  then show "d < 64 \<Longrightarrow> b64_digit (b64_char d) = Some d" by simp
qed

lemma b64_digit_pad [simp]: "b64_digit CHR ''='' = None"
  by code_simp

lemma unat_byte: "unat (b :: byte) < 256"
  using unsigned_less [of b] by simp

lemma b64_parts [simp]:
  "unat (a :: byte) div 4 < 64" "unat a mod 4 * 16 < 64" "unat a mod 4 * 16 + unat (b :: byte) div 16 < 64"
  "unat b mod 16 * 4 < 64" "unat b mod 16 * 4 + unat (c :: byte) div 64 < 64" "unat c mod 64 < 64"
proof -
  show "unat a div 4 < 64" using unat_byte [of a] by simp
  have "unat b div 16 < 16" "unat c div 64 < 4" using unat_byte [of b] unat_byte [of c] by simp_all
  moreover have "unat a mod 4 < 4" "unat b mod 16 < 16" by simp_all
  ultimately show "unat a mod 4 * 16 < 64" "unat a mod 4 * 16 + unat b div 16 < 64"
      "unat b mod 16 * 4 < 64" "unat b mod 16 * 4 + unat c div 64 < 64" by linarith+
qed simp

lemma b64_join:
  "(p :: nat) div 4 * 4 + (p mod 4 * 16 + q) div 16 = p" if "q < 16"
proof -
  have "(p mod 4 * 16 + q) div 16 = p mod 4" using that by simp
  then show ?thesis by simp
qed

lemma b64_join2: "(q' * 16 + (q :: nat) div 16) mod 16 * 16 + (q mod 16 * 4 + r) div 4 = q" if "r < 4" "q < 256"
proof -
  have "(q mod 16 * 4 + r) div 4 = q mod 16" "(q' * 16 + q div 16) mod 16 = q div 16" using that by simp_all
  then show ?thesis by simp
qed

lemma b64_join3: "(q' * 4 + (q :: nat) div 64) mod 4 * 64 + q mod 64 = q" if "q < 256"
proof -
  have "(q' * 4 + q div 64) mod 4 = q div 64" using that by simp
  then show ?thesis by simp
qed

lemma of_nat_unat_byte: "of_nat (unat (b :: byte)) = b"
  by simp

lemma b64_decode_encode: "b64_decode (b64_encode bs) = bs"
proof (induction bs rule: b64_encode.induct)
  case 1
  then show ?case by (simp add: b64_decode_def)
next
  case (2 a)
  have "unat a div 4 * 4 + (unat a mod 4 * 16) div 16 = unat a"
    using b64_join [of 0 "unat a"] by simp
  then show ?case by (simp add: b64_decode_def List.map_filter_simps b64_digit_char del: of_nat_add of_nat_mult)
next
  case (3 a b)
  have lt: "unat b div 16 < 16" using unat_byte [of b] by simp
  show ?case
    using b64_join [OF lt, of "unat a"] b64_join2 [of 0 "unat b" "unat a mod 4"] unat_byte [of b]
    by (simp add: b64_decode_def List.map_filter_simps b64_digit_char del: of_nat_add of_nat_mult)
next
  case (4 a b c bs)
  have lt: "unat b div 16 < 16" "unat c div 64 < 4" using unat_byte [of b] unat_byte [of c] by simp_all
  show ?case
    using 4 b64_join [OF lt(1), of "unat a"] b64_join2 [OF lt(2) unat_byte [of b], of "unat a mod 4"]
      b64_join3 [OF unat_byte [of c], of "unat b mod 16"]
    by (simp add: b64_decode_def List.map_filter_simps b64_digit_char del: of_nat_add of_nat_mult)
qed

lemma length_b64: "length (b64_encode bs) = 4 * ((length bs + 2) div 3)"
proof (induction bs rule: b64_encode.induct)
  case (4 a b c bs)
  have "length (a # b # c # bs) + 2 = (length bs + 2) + 3" by simp
  then have "(length (a # b # c # bs) + 2) div 3 = Suc ((length bs + 2) div 3)"
    by (metis Suc_eq_plus1 div_add_self2 zero_neq_numeral)
  with 4 show ?case by simp
qed simp_all

lemma b64_char_range: "d < 64 \<Longrightarrow> 43 \<le> (of_char (b64_char d) :: nat) \<and> (of_char (b64_char d) :: nat) \<le> 122 \<and>
    b64_char d \<noteq> CHR ''-'' \<and> b64_char d \<noteq> CHR '':''"
proof -
  have "\<forall>d \<in> set [0..<64]. 43 \<le> (of_char (b64_char d) :: nat) \<and> (of_char (b64_char d) :: nat) \<le> 122 \<and>
      b64_char d \<noteq> CHR ''-'' \<and> b64_char d \<noteq> CHR '':''" by code_simp
  then show "d < 64 \<Longrightarrow> ?thesis" by simp
qed

definition b64_text :: "char \<Rightarrow> bool" where
  "b64_text c = (43 \<le> (of_char c :: nat) \<and> (of_char c :: nat) \<le> 122 \<and> c \<noteq> CHR ''-'' \<and> c \<noteq> CHR '':'')"

lemma b64_text_char: "d < 64 \<Longrightarrow> b64_text (b64_char d)"
  using b64_char_range [of d] by (simp add: b64_text_def)

lemma b64_encode_chars: "c \<in> set (b64_encode bs) \<Longrightarrow> b64_text c"
proof (induction bs rule: b64_encode.induct)
  case (4 a b c' bs)
  then consider "c = b64_char (unat a div 4)" | "c = b64_char (unat a mod 4 * 16 + unat b div 16)"
    | "c = b64_char (unat b mod 16 * 4 + unat c' div 64)" | "c = b64_char (unat c' mod 64)"
    | "c \<in> set (b64_encode bs)" by auto
  then show ?case by cases (use 4 b64_text_char in simp_all)
qed (auto intro: b64_text_char, simp_all add: b64_text_def)

section \<open>Hexadecimal\<close>

definition hex_byte :: "byte \<Rightarrow> string" where
  "hex_byte b = [digit_char (unat b div 16), digit_char (unat b mod 16)]"

definition to_hex :: "byte list \<Rightarrow> string" where
  "to_hex bs = concat (map hex_byte bs)"

text \<open>\<open>Buffer.from(s, 'hex')\<close> stops at the first pair that is not two digits.\<close>

fun from_hex :: "string \<Rightarrow> byte list" where
  "from_hex (a # b # s) =
     (if is_digit 16 a \<and> is_digit 16 b
      then of_nat (the (digit_value a) * 16 + the (digit_value b)) # from_hex s else [])"
| "from_hex _ = []"

lemma from_to_hex: "from_hex (to_hex bs) = bs"
proof (induction bs)
  case (Cons b bs)
  have lt: "unat b div 16 < 16" using unat_byte [of b] by simp
  have "of_nat (unat b div 16 * 16 + unat b mod 16) = b" by (simp del: of_nat_add of_nat_mult)
  then show ?case
    using Cons lt by (simp add: to_hex_def hex_byte_def is_digit_char digit_value_char del: of_nat_add of_nat_mult)
qed (simp add: to_hex_def)

lemma length_to_hex: "length (to_hex bs) = 2 * length bs"
  by (induction bs) (simp_all add: to_hex_def hex_byte_def)

lemma to_hex_chars: "c \<in> set (to_hex bs) \<Longrightarrow> is_digit 16 c"
proof -
  assume "c \<in> set (to_hex bs)"
  then obtain b where "c = digit_char (unat (b :: byte) div 16) \<or> c = digit_char (unat b mod 16)"
    by (auto simp: to_hex_def hex_byte_def)
  moreover have "unat b div 16 < 16" using unat_byte [of b] by simp
  ultimately show ?thesis by (auto intro: is_digit_char)
qed

end
