(* ===== verification/Crypto.thy ===== *)
theory Crypto
  imports Bytes Json Settings
begin

text \<open>
  \<open>src/utils/cryptoHelper.js\<close> over Node's \<open>crypto\<close> module, which is the record \<open>node_crypto\<close>
  of functions. Each function that can throw gives an option; the random values an operation draws
  (the initialisation vector, the ephemeral key) are arguments. What the code relies on is stated by
  the predicates \<open>gcm_ok\<close>, \<open>kem_ok\<close> and \<open>sign_ok\<close>: decryption inverts encryption, decapsulation
  recovers the shared key, verification accepts what was signed.
\<close>

section \<open>Node's crypto module\<close>

record node_crypto =
  sha256 :: "byte list \<Rightarrow> byte list"
  rawPublicKey :: "string \<Rightarrow> byte list option"
  keyType :: "string \<Rightarrow> string option"
  ed_sign :: "byte list \<Rightarrow> string \<Rightarrow> byte list"
  ed_verify :: "byte list \<Rightarrow> string \<Rightarrow> byte list \<Rightarrow> bool option"
  kem_encapsulate :: "string \<Rightarrow> byte list \<Rightarrow> (byte list \<times> byte list) option"
  kem_decapsulate :: "string \<Rightarrow> byte list \<Rightarrow> byte list option"
  x25519_public :: "byte list \<Rightarrow> byte list"
  x25519_shared :: "byte list \<Rightarrow> string \<Rightarrow> byte list option"
  x25519_shared_der :: "string \<Rightarrow> byte list \<Rightarrow> byte list option"
  hkdf :: "byte list \<Rightarrow> byte list \<Rightarrow> byte list \<Rightarrow> byte list"
  gcm_encrypt :: "byte list \<Rightarrow> byte list \<Rightarrow> byte list \<Rightarrow> byte list \<times> byte list"
  gcm_decrypt :: "byte list \<Rightarrow> byte list \<Rightarrow> byte list \<Rightarrow> byte list \<Rightarrow> byte list option"
  scrypt :: "byte list \<Rightarrow> byte list \<Rightarrow> nat \<Rightarrow> byte list option"
  isEd25519Spki :: "byte list \<Rightarrow> bool"
  hasMlKem :: bool

definition gcm_ok :: "node_crypto \<Rightarrow> byte list \<Rightarrow> bool" where
  "gcm_ok C key = (\<forall>iv pt. gcm_decrypt C key iv (snd (gcm_encrypt C key iv pt)) (fst (gcm_encrypt C key iv pt)) = Some pt)"

text \<open>A record that decrypts is one the holder of the key made (authenticity of the tag).\<close>

definition gcm_auth :: "node_crypto \<Rightarrow> byte list \<Rightarrow> bool" where
  "gcm_auth C key = (\<forall>iv tag ct pt. gcm_decrypt C key iv tag ct = Some pt \<longrightarrow> gcm_encrypt C key iv pt = (ct, tag))"

definition kem_ok :: "node_crypto \<Rightarrow> string \<Rightarrow> string \<Rightarrow> bool" where
  "kem_ok C pub priv =
     ((\<forall>seed k ct. kem_encapsulate C pub seed = Some (k, ct) \<longrightarrow> kem_decapsulate C priv ct = Some k) \<and>
      (\<forall>seed k. x25519_shared C seed pub = Some k \<longrightarrow> x25519_shared_der C priv (x25519_public C seed) = Some k) \<and>
      keyType C pub = keyType C priv)"

definition sign_ok :: "node_crypto \<Rightarrow> string \<Rightarrow> string \<Rightarrow> bool" where
  "sign_ok C pub priv = (\<forall>m. ed_verify C m pub (ed_sign C m priv) = Some True)"

section \<open>Identity and signatures\<close>

definition node_id_of :: "node_crypto \<Rightarrow> string \<Rightarrow> string option" where
  "node_id_of C pem = map_option (deriveNodeId (sha256 C)) (rawPublicKey C pem)"

definition sign :: "node_crypto \<Rightarrow> string \<Rightarrow> string \<Rightarrow> string" where
  "sign C content privateKeyPem = b64_encode (ed_sign C (utf8 content) privateKeyPem)"

text \<open>An exception of \<open>crypto.verify\<close>, and a missing signature or key, are a failed check.\<close>

definition verify :: "node_crypto \<Rightarrow> string \<Rightarrow> string option \<Rightarrow> string option \<Rightarrow> bool" where
  "verify C content signatureBase64 publicKeyPem =
     (case (signatureBase64, publicKeyPem) of
        (Some sig, Some pub) \<Rightarrow> ed_verify C (utf8 content) pub (b64_decode sig) = Some True
      | _ \<Rightarrow> False)"

section \<open>Symmetric encryption\<close>

record envelope =
  ciphertext :: string
  iv :: string
  authTag :: string

datatype key_arg = KeyBuffer "byte list" | KeyString string

definition normalizeKey :: "key_arg \<Rightarrow> byte list" where
  "normalizeKey k =
     (case k of
        KeyBuffer b \<Rightarrow> b
      | KeyString s \<Rightarrow> if length s = 64 then from_hex s else b64_decode s)"

definition encrypt :: "node_crypto \<Rightarrow> byte list \<Rightarrow> string \<Rightarrow> key_arg \<Rightarrow> envelope" where
  "encrypt C random plaintext keyBuffer =
     (let key = normalizeKey keyBuffer;
          (encrypted, tag) = gcm_encrypt C key random (utf8 plaintext)
      in \<lparr>ciphertext = b64_encode encrypted, iv = b64_encode random, authTag = b64_encode tag\<rparr>)"

definition decrypt :: "node_crypto \<Rightarrow> envelope \<Rightarrow> key_arg \<Rightarrow> string option" where
  "decrypt C e keyBuffer =
     map_option from_utf8
       (gcm_decrypt C (normalizeKey keyBuffer) (b64_decode (iv e)) (b64_decode (authTag e)) (b64_decode (ciphertext e)))"

definition deriveKey :: "node_crypto \<Rightarrow> byte list \<Rightarrow> string \<Rightarrow> string \<Rightarrow> byte list" where
  "deriveKey C sharedSecret salt info = hkdf C sharedSecret (utf8 salt) (utf8 info)"

section \<open>Key encapsulation\<close>

definition KEM_ALGO :: string where
  "KEM_ALGO = ''ml-kem-768''"

definition kem_key :: "node_crypto \<Rightarrow> string \<Rightarrow> bool option" where
  "kem_key C pem =
     (case keyType C pem of
        None \<Rightarrow> None
      | Some ty \<Rightarrow> if ty = ''x25519'' then Some True else if ty = KEM_ALGO then Some False else None)"

text \<open>\<open>None\<close> is an exception: the key does not parse, has another type, or the primitive throws.\<close>

definition encapsulateKey ::
  "node_crypto \<Rightarrow> byte list \<Rightarrow> string \<Rightarrow> (byte list \<times> string) option" where
  "encapsulateKey C seed pub =
     (case kem_key C pub of
        None \<Rightarrow> None
      | Some isX25519 \<Rightarrow>
          if \<not> isX25519 \<and> hasMlKem C
          then map_option (\<lambda>(k, ct). (k, b64_encode ct)) (kem_encapsulate C pub seed)
          else map_option (\<lambda>k. (k, b64_encode (x25519_public C seed))) (x25519_shared C seed pub))"

definition decapsulateKey :: "node_crypto \<Rightarrow> string \<Rightarrow> string \<Rightarrow> byte list option" where
  "decapsulateKey C priv encapsulated =
     (case kem_key C priv of
        None \<Rightarrow> None
      | Some isX25519 \<Rightarrow>
          if \<not> isX25519 \<and> hasMlKem C then kem_decapsulate C priv (b64_decode encapsulated)
          else x25519_shared_der C priv (b64_decode encapsulated))"

section \<open>Vault and passwords\<close>

definition SENTINEL_TEXT :: string where
  "SENTINEL_TEXT = ''METRICE_VAULT_SENTINEL_V1''"

datatype 'r result = Throw string | Ok 'r

definition deriveVaultSeed ::
  "node_crypto \<Rightarrow> string \<Rightarrow> byte list \<Rightarrow> string \<Rightarrow> byte list result" where
  "deriveVaultSeed C passphrase clientRawPub nodeAddress =
     (if length clientRawPub < 32 then Throw ''CRYPTO_INVALID_CLIENT_ED25519''
      else case scrypt C (utf8 passphrase) (take 32 clientRawPub) 32 of
             None \<Rightarrow> Throw ''scrypt''
           | Some scryptKey \<Rightarrow>
               let combinedSalt = to_hex (sha256 C (clientRawPub @ utf8 nodeAddress))
               in Ok (hkdf C scryptKey (utf8 (''metrice-vault-salt:'' @ combinedSalt)) (utf8 ''metrice-vault-seed-v2'')))"

definition createVaultAuthToken :: "node_crypto \<Rightarrow> byte list \<Rightarrow> byte list \<Rightarrow> envelope" where
  "createVaultAuthToken C random seed = encrypt C random SENTINEL_TEXT (KeyBuffer seed)"

definition verifyVaultAuthToken :: "node_crypto \<Rightarrow> envelope \<Rightarrow> byte list \<Rightarrow> bool" where
  "verifyVaultAuthToken C token seed = (decrypt C token (KeyBuffer seed) = Some SENTINEL_TEXT)"

text \<open>The 16 random bytes of the salt are used as text, in hexadecimal.\<close>

definition hashPassword :: "node_crypto \<Rightarrow> byte list \<Rightarrow> string \<Rightarrow> string result" where
  "hashPassword C random password =
     (let salt = to_hex random
      in case scrypt C (utf8 password) (utf8 salt) 64 of
           None \<Rightarrow> Throw ''scrypt''
         | Some derivedKey \<Rightarrow> Ok (salt @ '':'' @ to_hex derivedKey))"

text \<open>The stored vault token as JSON text.\<close>

definition envelope_of_json :: "json \<Rightarrow> envelope option" where
  "envelope_of_json j =
     (case (str_field j ''ciphertext'', str_field j ''iv'', str_field j ''authTag'') of
        (Some c, Some i, Some t) \<Rightarrow> Some \<lparr>ciphertext = c, iv = i, authTag = t\<rparr>
      | _ \<Rightarrow> None)"

definition json_of_envelope :: "envelope \<Rightarrow> json" where
  "json_of_envelope e =
     JObj [(''ciphertext'', JStr (ciphertext e)), (''iv'', JStr (iv e)), (''authTag'', JStr (authTag e))]"

text \<open>
  \<open>timingSafeEqual\<close> throws on buffers of different length; inside the callback of \<open>scrypt\<close> nothing
  catches it, so the branch is a \<open>Throw\<close> and not \<open>false\<close>. The client key is the raw buffer, or its
  Base64 text.
\<close>

definition verifyPassword ::
  "node_crypto \<Rightarrow> string \<Rightarrow> string \<Rightarrow> key_arg option \<Rightarrow> string \<Rightarrow> bool result" where
  "verifyPassword C password storedHash clientRawPub nodeAddress =
     (if storedHash = [] then Ok False
      else if CHR '':'' \<in> set storedHash \<and> \<not> starts_with ''{'' storedHash
      then let salt = before CHR '':'' storedHash;
               key = the (second_part CHR '':'' storedHash)
           in if salt = [] \<or> key = [] then Ok False
              else (case scrypt C (utf8 password) (utf8 salt) 64 of
                      None \<Rightarrow> Ok False
                    | Some derivedKey \<Rightarrow>
                        if length (from_hex key) \<noteq> length derivedKey
                        then Throw ''ERR_CRYPTO_TIMING_SAFE_EQUAL_LENGTH''
                        else Ok (from_hex key = derivedKey))
      else if starts_with ''{'' storedHash
      then (case clientRawPub of
              None \<Rightarrow> Ok False
            | Some k \<Rightarrow>
                let pubBuf = (case k of KeyBuffer b \<Rightarrow> b | KeyString s \<Rightarrow> b64_decode s)
                in if length pubBuf < 32 then Ok False
                   else (case deriveVaultSeed C password pubBuf nodeAddress of
                           Throw _ \<Rightarrow> Ok False
                         | Ok seed \<Rightarrow>
                             (case Option.bind (json_parse storedHash) envelope_of_json of
                                None \<Rightarrow> Ok False
                              | Some token \<Rightarrow> Ok (verifyVaultAuthToken C token seed))))
      else Ok False)"

section \<open>OpenSSH public keys\<close>

record ssh_key =
  rawKey :: "byte list"
  key_base64 :: string
  fingerprint :: string

text \<open>\<open>normalized.split(/\s+/)\<close> after the line breaks became spaces and the ends were trimmed.\<close>

fun split_spaces :: "string \<Rightarrow> string list" where
  "split_spaces [] = [[]]"
| "split_spaces (c # s) =
     (if js_space c then (if s \<noteq> [] \<and> js_space (hd s) then split_spaces s else [] # split_spaces s)
      else (c # hd (split_spaces s)) # tl (split_spaces s))"

definition u32be :: "byte list \<Rightarrow> nat \<Rightarrow> nat option" where
  "u32be buf i =
     (if i + 4 \<le> length buf
      then Some (unat (buf ! i) * 16777216 + unat (buf ! (i + 1)) * 65536 + unat (buf ! (i + 2)) * 256 + unat (buf ! (i + 3)))
      else None)"

fun bytes_include :: "byte list \<Rightarrow> byte list \<Rightarrow> bool" where
  "bytes_include p [] = (p = [])"
| "bytes_include p (b # bs) = (take (length p) (b # bs) = p \<or> bytes_include p bs)"

definition SSH_ED25519 :: string where
  "SSH_ED25519 = ''ssh-ed25519''"

definition spki_header :: "byte list" where
  "spki_header = from_hex ''302a300506032b6570032100''"

text \<open>The key inside the blob: \<open>Throw\<close> where \<open>readUInt32BE\<close> leaves the buffer.\<close>

definition wire_key :: "byte list \<Rightarrow> byte list option result" where
  "wire_key rawBuffer =
     (if bytes_include (utf8 SSH_ED25519) rawBuffer
      then (case u32be rawBuffer 0 of
              None \<Rightarrow> Throw ''CRYPTO_WIRE_FORMAT_ERROR''
            | Some typeLen \<Rightarrow>
                (case u32be rawBuffer (4 + typeLen) of
                   None \<Rightarrow> Throw ''CRYPTO_WIRE_FORMAT_ERROR''
                 | Some keyLen \<Rightarrow> Ok (Some (take keyLen (drop (8 + typeLen) rawBuffer)))))
      else if length rawBuffer = 32 then Ok (Some rawBuffer)
      else Ok None)"

definition parseAndValidateOpenSshKey :: "node_crypto \<Rightarrow> string \<Rightarrow> ssh_key result" where
  "parseAndValidateOpenSshKey C keyString =
     (if keyString = [] then Throw ''CRYPTO_INVALID_KEY_FORMAT''
      else
        let parts = split_spaces (js_trim keyString);
            p0 = hd parts;
            p1 = (if length parts > 1 then parts ! 1 else []);
            base64Blob = (if p0 = SSH_ED25519 \<and> p1 \<noteq> [] then Some p1
                          else if length p0 > 40 \<and> \<not> starts_with ''ssh-'' p0 then Some p0 else None)
        in case base64Blob of
             None \<Rightarrow> Throw ''CRYPTO_ONLY_ED25519_SUPPORTED''
           | Some blob \<Rightarrow>
               let rawBuffer = b64_decode blob
               in if length rawBuffer < 32 then Throw ''CRYPTO_KEY_TOO_SHORT''
                  else case wire_key rawBuffer of
                         Throw e \<Rightarrow> Throw e
                       | Ok None \<Rightarrow> Throw ''CRYPTO_ED25519_LENGTH_ERROR''
                       | Ok (Some rawEdPub) \<Rightarrow>
                           if length rawEdPub \<noteq> 32 then Throw ''CRYPTO_ED25519_LENGTH_ERROR''
                           else if \<not> isEd25519Spki C (spki_header @ rawEdPub) then Throw ''CRYPTO_VERIFICATION_FAILED''
                           else Ok \<lparr>rawKey = rawEdPub, key_base64 = b64_encode rawEdPub,
                                  fingerprint = strip_pad (b64_encode (sha256 C rawEdPub))\<rparr>)"

section \<open>An instance for concrete runs\<close>

text \<open>
  A transparent stand-in for Node's module, on which the hypotheses above hold: a key is both halves
  of its pair, a signature is the key followed by the message, the tag binds key, vector and text.
\<close>

definition pad32 :: "byte list \<Rightarrow> byte list" where
  "pad32 bs = take 32 (bs @ replicate 32 0)"

definition clear_crypto :: node_crypto where
  "clear_crypto = \<lparr>sha256 = pad32, rawPublicKey = \<lambda>p. Some (pad32 (utf8 p)), keyType = \<lambda>p. Some KEM_ALGO,
     ed_sign = \<lambda>m k. utf8 k @ m, ed_verify = \<lambda>m k s. Some (s = utf8 k @ m),
     kem_encapsulate = \<lambda>p seed. Some (pad32 seed, seed), kem_decapsulate = \<lambda>k ct. Some (pad32 ct),
     x25519_public = \<lambda>seed. seed, x25519_shared = \<lambda>seed p. Some (pad32 seed),
     x25519_shared_der = \<lambda>k der. Some (pad32 der),
     hkdf = \<lambda>secret salt info. pad32 (secret @ salt @ info),
     gcm_encrypt = \<lambda>key v pt. (pt, key @ v @ pt),
     gcm_decrypt = \<lambda>key v tag ct. if tag = key @ v @ ct then Some ct else None,
     scrypt = \<lambda>p salt n. Some (take n (p @ salt @ replicate n 0)),
     isEd25519Spki = \<lambda>der. length der = 44, hasMlKem = True\<rparr>"

lemma clear_gcm: "gcm_ok clear_crypto key"
  by (simp add: gcm_ok_def clear_crypto_def)

lemma clear_auth: "gcm_auth clear_crypto key"
  by (simp add: gcm_auth_def clear_crypto_def)

lemma clear_kem: "kem_ok clear_crypto p p"
  by (simp add: kem_ok_def clear_crypto_def)

lemma clear_sign: "sign_ok clear_crypto p p"
  by (simp add: sign_ok_def clear_crypto_def)

section \<open>Correctness\<close>

lemma verify_sign: "sign_ok C pub priv \<Longrightarrow> verify C m (Some (sign C m priv)) (Some pub)"
  by (simp add: verify_def sign_def sign_ok_def b64_decode_encode)

lemma verify_needs: "verify C m s p \<Longrightarrow> \<exists>sig pub. s = Some sig \<and> p = Some pub"
  by (auto simp: verify_def split: option.splits)

lemma decrypt_encrypt: "gcm_ok C (normalizeKey k) \<Longrightarrow> decrypt C (encrypt C r pt k) k = Some pt"
  by (simp add: gcm_ok_def decrypt_def encrypt_def Let_def b64_decode_encode split: prod.split)
     (metis fst_conv snd_conv from_utf8_utf8)

lemma decapsulate_encapsulate:
  "kem_ok C pub priv \<Longrightarrow> encapsulateKey C seed pub = Some (k, e) \<Longrightarrow> decapsulateKey C priv e = Some k"
  by (auto simp: kem_ok_def encapsulateKey_def decapsulateKey_def kem_key_def b64_decode_encode
      split: option.splits if_splits)

text \<open>
  A vault token opens with the seed that made it, and a token that opens for a seed was made
  with that seed from the sentinel text.
\<close>

theorem vault_token_opens:
  assumes "gcm_ok C seed" "gcm_auth C seed"
  shows "verifyVaultAuthToken C (createVaultAuthToken C random seed) seed \<and>
    (verifyVaultAuthToken C token seed \<longrightarrow>
       (\<exists>pt. from_utf8 pt = SENTINEL_TEXT \<and>
         gcm_encrypt C seed (b64_decode (iv token)) pt = (b64_decode (ciphertext token), b64_decode (authTag token))))"
  using decrypt_encrypt [of C "KeyBuffer seed"] assms
  by (auto simp: verifyVaultAuthToken_def createVaultAuthToken_def normalizeKey_def decrypt_def gcm_auth_def)

theorem vault_token_opens_witness:
  "verifyVaultAuthToken clear_crypto (createVaultAuthToken clear_crypto [1, 2] [7, 8]) [7, 8]"
  using vault_token_opens [OF clear_gcm clear_auth] by blast

lemma to_hex_no_mark: "CHR '':'' \<notin> set (to_hex bs)" "CHR ''{'' \<notin> set (to_hex bs)"
  by (auto dest!: to_hex_chars simp: is_digit_def digit_value_def)

text \<open>
  Password round trip: a stored hash accepts exactly the passwords whose key, derived with the
  stored salt, is the stored key; in particular the password it was made from, and checking it never
  throws.
\<close>

theorem password_roundtrip:
  assumes "hashPassword C random password = Ok stored" "random \<noteq> []"
    and "\<And>p s k. scrypt C p s 64 = Some k \<Longrightarrow> length k = 64"
  shows "verifyPassword C attempt stored key addr =
    Ok (scrypt C (utf8 attempt) (utf8 (to_hex random)) 64 = scrypt C (utf8 password) (utf8 (to_hex random)) 64)"
proof -
  obtain d where d: "scrypt C (utf8 password) (utf8 (to_hex random)) 64 = Some d"
      "stored = to_hex random @ '':'' @ to_hex d" "length d = 64"
    using assms(1,3) by (auto simp: hashPassword_def Let_def split: option.splits)
  have s: "before CHR '':'' stored = to_hex random" "second_part CHR '':'' stored = Some (to_hex d)"
    using to_hex_no_mark(1) before_append [of "CHR '':''" "to_hex random" "to_hex d"]
      second_part_append [of "CHR '':''" "to_hex random" "to_hex d"] d(2)
    by (auto simp: takeWhile_eq_all_conv)
  have ne: "to_hex random \<noteq> []" "to_hex d \<noteq> []"
    using length_to_hex [of random] length_to_hex [of d] assms(2) d(3) by auto
  have nb: "\<not> starts_with ''{'' stored"
    using ne(1) to_hex_no_mark(2) [of random] d(2) by (cases "to_hex random") (auto simp: starts_with_def)
  have "stored \<noteq> []" "CHR '':'' \<in> set stored" using d(2) by auto
  then show ?thesis
    using s ne nb d(1,3) assms(3) by (auto simp: verifyPassword_def Let_def from_to_hex split: option.splits)
qed

theorem password_roundtrip_witness:
  "\<exists>stored. hashPassword clear_crypto [1, 2] ''pw'' = Ok stored \<and>
     verifyPassword clear_crypto ''pw'' stored None ''n'' = Ok True"
proof -
  obtain stored where s: "hashPassword clear_crypto [1, 2] ''pw'' = Ok stored"
    by (simp add: hashPassword_def clear_crypto_def Let_def)
  have "scrypt clear_crypto p t 64 = Some k \<Longrightarrow> length k = 64" for p t k
    by (auto simp: clear_crypto_def)
  from password_roundtrip [OF s _ this, where attempt = "''pw''" and key = None and addr = "''n''"] s
  show ?thesis by auto
qed

text \<open>The \<open>authorized_keys\<close> line of a raw key, with a comment.\<close>

definition ssh_wire :: "byte list \<Rightarrow> byte list" where
  "ssh_wire raw = [0, 0, 0, 11] @ utf8 SSH_ED25519 @ [0, 0, 0, 32] @ raw"

definition ssh_line :: "byte list \<Rightarrow> string \<Rightarrow> string" where
  "ssh_line raw comment = SSH_ED25519 @ '' '' @ b64_encode (ssh_wire raw) @ '' '' @ comment"

lemma bytes_include_app: "bytes_include p (a @ p @ b)"
proof (induction a)
  case Nil
  have "take (length p) (p @ b) = p" by simp
  then show ?case by (cases "p @ b") auto
next
  case (Cons x a)
  then show ?case by simp
qed

lemma b64_text_not_space: "b64_text c \<Longrightarrow> \<not> js_space c"
  by (auto simp: b64_text_def js_space_def Let_def)

lemma split_spaces_ne [simp]: "split_spaces s \<noteq> []"
  by (induction s) auto

lemma split_spaces_word:
  assumes "\<And>c. c \<in> set w \<Longrightarrow> \<not> js_space c"
  shows "split_spaces (w @ s) = (w @ hd (split_spaces s)) # tl (split_spaces s)"
  using assms by (induction w) auto

lemma split_spaces_gap:
  "s \<noteq> [] \<Longrightarrow> \<not> js_space (hd s) \<Longrightarrow> split_spaces (CHR '' '' # s) = [] # split_spaces s"
  by (simp add: js_space_def)

lemma ssh_type_chars: "c \<in> set SSH_ED25519 \<Longrightarrow> \<not> js_space c"
  by (auto simp: SSH_ED25519_def js_space_def)

lemma wire_key_wire: "length raw = 32 \<Longrightarrow> wire_key (ssh_wire raw) = Ok (Some raw)"
proof -
  assume l: "length raw = 32"
  have ty: "utf8 SSH_ED25519 = [115, 115, 104, 45, 101, 100, 50, 53, 53, 49, 57]" by code_simp
  have inc: "bytes_include (utf8 SSH_ED25519) (ssh_wire raw)"
    unfolding ssh_wire_def by (rule bytes_include_app)
  show ?thesis
    using inc l by (simp add: wire_key_def) (simp add: ssh_wire_def ty u32be_def)
qed

text \<open>
  A well-formed \<open>ssh-ed25519\<close> line of any 32-byte key is accepted and yields that key; what is
  accepted is always a 32-byte key, and nothing throws outside the error results.
\<close>

theorem openssh_key_roundtrip:
  assumes "length raw = 32" "isEd25519Spki C (spki_header @ raw)"
    and "comment \<noteq> []" "\<And>c. c \<in> set comment \<Longrightarrow> \<not> js_space c"
  shows "parseAndValidateOpenSshKey C (ssh_line raw comment) =
      Ok \<lparr>rawKey = raw, key_base64 = b64_encode raw, fingerprint = strip_pad (b64_encode (sha256 C raw))\<rparr>"
proof -
  let ?b = "b64_encode (ssh_wire raw)"
  have blen: "length (ssh_wire raw) = 51"
    using assms(1) by (simp add: ssh_wire_def SSH_ED25519_def utf8_def utf8_char_def Let_def)
  have bne: "?b \<noteq> []" using length_b64 [of "ssh_wire raw"] blen by auto
  have bch: "c \<in> set ?b \<Longrightarrow> \<not> js_space c" for c using b64_encode_chars b64_text_not_space by blast
  have "js_trim (ssh_line raw comment) = ssh_line raw comment"
  proof -
    have hd: "dropWhile js_space (SSH_ED25519 @ t) = SSH_ED25519 @ t" for t
      by (simp add: SSH_ED25519_def js_space_def)
    obtain c cs where c: "rev comment = c # cs" using assms(3) by (cases "rev comment") auto
    then have "\<not> js_space c" using assms(4) [of c] by (metis in_set_conv_decomp rev.simps(2) rev_rev_ident)
    then have "dropWhile js_space (rev comment @ t) = rev comment @ t" for t using c by simp
    then show ?thesis by (simp add: js_trim_def ssh_line_def hd)
  qed
  moreover have "split_spaces (ssh_line raw comment) = [SSH_ED25519, ?b, comment]"
  proof -
    have c1: "split_spaces comment = [comment]" using split_spaces_word [of comment "[]", OF assms(4)] by simp
    have hc: "\<not> js_space (hd comment)" using assms(3,4) by simp
    have c2: "split_spaces (?b @ '' '' @ comment) = [?b, comment]"
      using split_spaces_word [of ?b "'' '' @ comment", OF bch] split_spaces_gap [OF assms(3) hc] c1 by simp
    have hb: "\<not> js_space (hd (?b @ '' '' @ comment))" using bne bch by simp
    have "split_spaces ('' '' @ ?b @ '' '' @ comment) = [] # [?b, comment]"
      using split_spaces_gap [OF _ hb] bne c2 by simp
    then show ?thesis
      using split_spaces_word [of SSH_ED25519 "'' '' @ ?b @ '' '' @ comment", OF ssh_type_chars] by (simp add: ssh_line_def)
  qed
  moreover have "ssh_line raw comment \<noteq> []" by (simp add: ssh_line_def)
  ultimately show ?thesis
    using wire_key_wire [OF assms(1)] blen bne assms(1,2)
    by (simp add: parseAndValidateOpenSshKey_def Let_def b64_decode_encode)
qed

theorem openssh_key_roundtrip_witness:
  "parseAndValidateOpenSshKey clear_crypto (ssh_line (replicate 32 9) ''me@host'') =
     Ok \<lparr>rawKey = replicate 32 9, key_base64 = b64_encode (replicate 32 9),
       fingerprint = strip_pad (b64_encode (sha256 clear_crypto (replicate 32 9)))\<rparr>"
proof (rule openssh_key_roundtrip)
  have "length spki_header = 12" by code_simp
  then show "isEd25519Spki clear_crypto (spki_header @ replicate 32 9)" by (simp add: clear_crypto_def)
qed (auto simp: js_space_def)

end
