(* ===== verification/Channel.thy ===== *)
theory Channel
  imports Crypto Address Caches
begin

text \<open>
  \<open>SecureChannel\<close> of \<open>src/core/secureChannel.js\<close>: the handshake over signed frames, the encrypted
  frames, the line buffer and the queue of payloads that wait for the session key. A channel is a
  record, each method a function from the environment and the channel to the channel and the list
  of its effects in order (bytes written, the socket destroyed, events emitted, keys saved).

  Frames are JSON objects as they came off the wire. A signature, a key or a cell field that is not a
  string is refused, as the declared packet types have it; every other field keeps its raw value, and
  the text that is signed is built from the raw values, absent fields left out.
\<close>

section \<open>JavaScript on JSON values\<close>

fun json_truthy :: "json \<Rightarrow> bool" where
  "json_truthy JNull = False"
| "json_truthy (JBool b) = b"
| "json_truthy (JNum i) = (i \<noteq> 0)"
| "json_truthy (JStr s) = (s \<noteq> [])"
| "json_truthy _ = True"

definition truthy_field :: "json \<Rightarrow> string \<Rightarrow> bool" where
  "truthy_field j k = (case field j k of None \<Rightarrow> False | Some v \<Rightarrow> json_truthy v)"

text \<open>\<open>`${v}`\<close>.\<close>

fun to_text :: "json \<Rightarrow> string" where
  "to_text JNull = ''null''"
| "to_text (JBool b) = (if b then ''true'' else ''false'')"
| "to_text (JNum i) = show_int i"
| "to_text (JStr s) = s"
| "to_text (JArr xs) = join_with '','' (map (\<lambda>x. if x = JNull then [] else to_text x) xs)"
| "to_text (JObj ms) = ''[object Object]''"

definition field_text :: "json \<Rightarrow> string \<Rightarrow> string" where
  "field_text j k = (case field j k of None \<Rightarrow> ''undefined'' | Some v \<Rightarrow> to_text v)"

text \<open>
  \<open>JSON.stringify\<close> of an object literal: a member whose value is \<open>undefined\<close> is left out.
\<close>

definition obj :: "(string \<times> json option) list \<Rightarrow> json" where
  "obj ms = JObj (List.map_filter (\<lambda>(k, v). map_option (Pair k) v) ms)"

section \<open>Environment and state\<close>

record node_identity =
  identityPub :: string
  identityPriv :: string
  kemPub :: string
  kemPriv :: string
  roleName :: string
  relayAnnounce :: string
  nodeAddr :: "string option"

record sock =
  remoteAddress :: "string option"
  realRemoteAddress :: "string option"
  remotePort :: "int option"
  realRemotePort :: "int option"

record chan_env =
  ce_crypto :: node_crypto
  ce_cfg :: config
  ce_me :: node_identity
  ce_sock :: sock
  ce_dns :: "string \<Rightarrow> string list option"
  ce_rnd :: "nat \<Rightarrow> byte list"

record channel =
  isInitiator :: bool
  isReady :: bool
  sessionKey :: "byte list option"
  peerNodeAddress :: "json option"
  peerIdentityKey :: "json option"
  peerKemKey :: "json option"
  observedAddress :: "json option"
  pendingQueue :: "json list"
  rx_buffer :: string
  rx_pending :: "byte list"
  myNonce :: "string option"
  lastPong :: int
  destroyed :: bool
  draws :: nat

datatype chan_event =
    EvPong
  | EvReady
  | EvPayload json
  | EvDialbackConfirm json
  | EvOnionCell json
  | EvObservedAddress json "json option"
  | EvError string
  | EvClose

datatype chan_effect =
    WriteText string
  | WriteBytes "byte list"
  | Destroy
  | EmitEv chan_event
  | SaveTrustedNodeKey "json option" "json option" "json option"

text \<open>How a method ends: it returns, it throws, or its loop never ends.\<close>

datatype run = Return channel "chan_effect list" | Raise channel "chan_effect list" | Diverge

definition canonicalAddress :: "node_identity \<Rightarrow> json" where
  "canonicalAddress me =
     (if roleName me = ''RELAY'' \<or> roleName me = ''CAP_RELAY'' then JStr (relayAnnounce me)
      else case nodeAddr me of Some (c # s) \<Rightarrow> JStr (c # s) | _ \<Rightarrow> JNull)"

definition frame_text :: "json \<Rightarrow> string" where
  "frame_text j = stringify j @ [CHR 0x0A]"

section \<open>Sending\<close>

definition encrypted_frame :: "envelope \<Rightarrow> json" where
  "encrypted_frame e =
     JObj [(''type'', JStr ''ENCRYPTED_FRAME''), (''iv'', JStr (iv e)), (''ciphertext'', JStr (ciphertext e)),
           (''authTag'', JStr (authTag e))]"

definition writePayload :: "chan_env \<Rightarrow> channel \<Rightarrow> json \<Rightarrow> channel \<times> chan_effect list" where
  "writePayload env ch payload =
     (case (isReady ch, sessionKey ch) of
        (True, Some key) \<Rightarrow>
          (let e = encrypt (ce_crypto env) (ce_rnd env (draws ch)) (stringify payload) (KeyBuffer key)
           in (ch\<lparr>draws := Suc (draws ch)\<rparr>, [WriteText (frame_text (encrypted_frame e))]))
      | _ \<Rightarrow> (ch\<lparr>pendingQueue := pendingQueue ch @ [payload]\<rparr>, []))"

text \<open>
  The flush shifts the queue until it is empty. Without a session key each payload would be queued
  again, for ever: \<open>Diverge\<close>.
\<close>

fun flush :: "chan_env \<Rightarrow> channel \<Rightarrow> json list \<Rightarrow> channel \<times> chan_effect list" where
  "flush env ch [] = (ch\<lparr>pendingQueue := []\<rparr>, [])"
| "flush env ch (p # ps) =
     (let (ch1, w) = writePayload env (ch\<lparr>pendingQueue := ps\<rparr>) p;
          (ch2, ws) = flush env ch1 ps
      in (ch2, w @ ws))"

definition markReady :: "chan_env \<Rightarrow> channel \<Rightarrow> chan_effect list \<Rightarrow> run" where
  "markReady env ch effs =
     (let ch1 = ch\<lparr>isReady := True\<rparr>
      in if sessionKey ch1 = None \<and> pendingQueue ch1 \<noteq> [] then Diverge
         else let (ch2, ws) = flush env ch1 (pendingQueue ch1)
              in Return ch2 (effs @ [EmitEv EvReady] @ ws))"

definition init_signed :: "json option \<Rightarrow> json option \<Rightarrow> json option \<Rightarrow> json option \<Rightarrow> (string \<times> json option) list" where
  "init_signed address pub kem nonce =
     [(''type'', Some (JStr ''HANDSHAKE_INIT'')), (''nodeAddress'', address), (''identityPublicKey'', pub),
      (''kemPublicKey'', kem), (''nonce'', nonce)]"

definition init_frame :: "chan_env \<Rightarrow> string \<Rightarrow> json" where
  "init_frame env nonce =
     (let me = ce_me env;
          ms = init_signed (Some (canonicalAddress me)) (Some (JStr (identityPub me))) (Some (JStr (kemPub me)))
                 (Some (JStr nonce));
          sig = sign (ce_crypto env) (stringify (obj ms)) (identityPriv me)
      in obj (ms @ [(''sig'', Some (JStr sig))]))"

definition sendHandshakeInit :: "chan_env \<Rightarrow> string \<Rightarrow> channel \<Rightarrow> channel \<times> chan_effect list" where
  "sendHandshakeInit env nonce ch = (ch\<lparr>myNonce := Some nonce\<rparr>, [WriteText (frame_text (init_frame env nonce))])"

definition new_channel :: "bool \<Rightarrow> int \<Rightarrow> channel" where
  "new_channel initiator now =
     \<lparr>isInitiator = initiator, isReady = False, sessionKey = None, peerNodeAddress = None,
      peerIdentityKey = None, peerKemKey = None, observedAddress = None, pendingQueue = [],
      rx_buffer = [], rx_pending = [], myNonce = None, lastPong = now, destroyed = False, draws = 0\<rparr>"

definition open_channel :: "chan_env \<Rightarrow> bool \<Rightarrow> string \<Rightarrow> int \<Rightarrow> channel \<times> chan_effect list" where
  "open_channel env initiator nonce now =
     (if initiator then sendHandshakeInit env nonce (new_channel True now) else (new_channel False now, []))"

section \<open>The declared address\<close>

definition is_ipv4 :: "string \<Rightarrow> bool" where
  "is_ipv4 s =
     (let ps = split_on CHR ''.'' s
      in length ps = 4 \<and>
         list_all (\<lambda>p. all_digits p \<and> digits_value 10 p \<le> 255 \<and> (length p > 1 \<longrightarrow> hd p \<noteq> CHR ''0'')) ps)"

definition hextet :: "string \<Rightarrow> bool" where
  "hextet p = (1 \<le> length p \<and> length p \<le> 4 \<and> list_all (is_digit 16) p)"

definition hextets :: "string list \<Rightarrow> nat option" where
  "hextets ps =
     (if ps \<noteq> [] \<and> CHR ''.'' \<in> set (last ps)
      then (if is_ipv4 (last ps) \<and> list_all hextet (butlast ps) then Some (length ps + 1) else None)
      else if list_all hextet ps then Some (length ps) else None)"

text \<open>\<open>net.isIPv6\<close>.\<close>

definition is_ipv6 :: "string \<Rightarrow> bool" where
  "is_ipv6 s =
     (let b = before CHR ''%'' s
      in (s = b \<or> length s > length b + 1) \<and>
         (case split_dcolon b of
            [w] \<Rightarrow> hextets (split_on CHR '':'' w) = Some 8
          | [l, r] \<Rightarrow> list_all hextet (colon_parts l) \<and>
              (case hextets (colon_parts r) of None \<Rightarrow> False | Some n \<Rightarrow> length (colon_parts l) + n \<le> 7)
          | _ \<Rightarrow> False))"

definition private_range :: "string \<Rightarrow> bool" where
  "private_range a =
     (let s = js_lower a;
          second = takeWhile (is_digit 10) (drop 4 s)
      in starts_with ''127.'' s \<or> starts_with ''10.'' s \<or>
         (starts_with ''172.'' s \<and> length second = 2 \<and> starts_with ''.'' (drop 6 s) \<and>
          16 \<le> digits_value 10 second \<and> digits_value 10 second \<le> 31) \<or>
         starts_with ''192.168.'' s \<or> starts_with ''169.254.'' s \<or> starts_with ''::1'' s \<or>
         starts_with ''fe80:'' s \<or> starts_with ''fc00:'' s \<or> starts_with ''fd00:'' s)"

definition is_loopback :: "string \<Rightarrow> bool" where
  "is_loopback ip = (ip \<in> {''127.0.0.1'', ''::1'', ''localhost''})"

definition rawRemote :: "sock \<Rightarrow> string" where
  "rawRemote s = the (or_else (realRemoteAddress s) (or_else (remoteAddress s) (Some [])))"

definition canonical_ip :: "string \<Rightarrow> string" where
  "canonical_ip a = (if is_ipv6 a then canonicalizeIPv6 a else a)"

definition strip_mesh :: "string \<Rightarrow> string" where
  "strip_mesh s = (if ends_with ''.mesh'' s then take (length s - 5) s else s)"

text \<open>
  The declared address and the key are raw values: a value that is neither a string nor falsy makes
  the string method throw.
\<close>

definition validatePeerIp :: "chan_env \<Rightarrow> json option \<Rightarrow> json option \<Rightarrow> bool result" where
  "validatePeerIp env declared pub =
     (case declared of
        None \<Rightarrow> Ok False
      | Some d \<Rightarrow>
          if \<not> json_truthy d then Ok False
          else case d of
            JStr address \<Rightarrow>
              (case parseTarget (ce_cfg env) address of
                 None \<Rightarrow> Ok False
               | Some parsed \<Rightarrow>
                   let host0 = (case parsed of MeshTarget n \<Rightarrow> n | HostTarget h _ _ _ \<Rightarrow> h)
                   in if host0 = [] then Ok False
                      else
                        let cleanRemote = canonical_ip (strip_v4mapped (rawRemote (ce_sock env)));
                            declaredHost = canonical_ip host0;
                            cleanDeclared = js_lower (strip_mesh declaredHost);
                            meshy = ends_with ''.mesh'' declaredHost \<or> isValidNodeId declaredHost;
                            network = (is_loopback declaredHost \<or> declaredHost = serverName (ce_cfg env) \<or>
                              declaredHost = cleanRemote \<or>
                              (case ce_dns env declaredHost of
                                 None \<Rightarrow> False
                               | Some found \<Rightarrow>
                                   list_ex (\<lambda>a. \<not> private_range a \<and> canonical_ip a = cleanRemote) found))
                        in (case pub of
                              Some v \<Rightarrow>
                                if \<not> json_truthy v then Ok (meshy \<or> network)
                                else (case v of
                                        JStr pem \<Rightarrow>
                                          (case node_id_of (ce_crypto env) pem of
                                             None \<Rightarrow> Throw ''createPublicKey''
                                           | Some i \<Rightarrow>
                                               if cleanDeclared = js_lower i then Ok True
                                               else if meshy then Ok False else Ok network)
                                      | _ \<Rightarrow> Throw ''pubObj.export'')
                            | None \<Rightarrow> Ok (meshy \<or> network)))
          | _ \<Rightarrow> Throw ''target.endsWith'')"

section \<open>Frames\<close>

definition salt_of :: "json option \<Rightarrow> string option" where
  "salt_of nonce =
     (case nonce of None \<Rightarrow> Some ''mesh-default-salt'' | Some (JStr s) \<Rightarrow> Some s | Some _ \<Rightarrow> None)"

definition transport_key :: "node_crypto \<Rightarrow> byte list \<Rightarrow> string \<Rightarrow> byte list" where
  "transport_key C secret salt = deriveKey C secret salt ''p2p-mesh-transport-v1''"

definition destroy :: "channel \<Rightarrow> run" where
  "destroy ch = Return (ch\<lparr>destroyed := True\<rparr>) [Destroy]"

definition set_peer :: "json \<Rightarrow> channel \<Rightarrow> channel" where
  "set_peer frame ch =
     ch\<lparr>peerNodeAddress := field frame ''nodeAddress'', peerIdentityKey := field frame ''identityPublicKey'',
        peerKemKey := field frame ''kemPublicKey''\<rparr>"

definition save_peer :: "json \<Rightarrow> chan_effect" where
  "save_peer frame =
     SaveTrustedNodeKey (field frame ''nodeAddress'') (field frame ''identityPublicKey'') (field frame ''kemPublicKey'')"

definition observed_of :: "sock \<Rightarrow> string" where
  "observed_of s =
     (let port = (case realRemotePort s of Some p \<Rightarrow> if p = 0 then remotePort s else Some p | None \<Rightarrow> remotePort s)
      in remove_first ''::ffff:'' (rawRemote s) @ '':'' @
         (case port of None \<Rightarrow> ''undefined'' | Some p \<Rightarrow> show_int p))"

definition reply_signed ::
  "json option \<Rightarrow> json option \<Rightarrow> json option \<Rightarrow> json option \<Rightarrow> json option \<Rightarrow> json option \<Rightarrow> (string \<times> json option) list" where
  "reply_signed address pub kem encapsulated nonce observed =
     [(''type'', Some (JStr ''HANDSHAKE_REPLY'')), (''nodeAddress'', address), (''identityPublicKey'', pub),
      (''kemPublicKey'', kem), (''encapsulatedKey'', encapsulated), (''nonce'', nonce),
      (''observedAddress'', observed)]"

definition init_verified :: "node_crypto \<Rightarrow> json \<Rightarrow> bool" where
  "init_verified C frame =
     verify C (stringify (obj (init_signed (field frame ''nodeAddress'') (field frame ''identityPublicKey'')
         (field frame ''kemPublicKey'') (field frame ''nonce''))))
       (str_field frame ''sig'') (str_field frame ''identityPublicKey'')"

definition reply_frame :: "chan_env \<Rightarrow> json option \<Rightarrow> string \<Rightarrow> json" where
  "reply_frame env nonce encapsulated =
     (let me = ce_me env;
          ms = reply_signed (Some (canonicalAddress me)) (Some (JStr (identityPub me))) (Some (JStr (kemPub me)))
                 (Some (JStr encapsulated)) nonce (Some (JStr (observed_of (ce_sock env))));
          sig = sign (ce_crypto env) (stringify (obj ms)) (identityPriv me)
      in obj (ms @ [(''sig'', Some (JStr sig))]))"

definition handle_init :: "chan_env \<Rightarrow> int \<Rightarrow> json \<Rightarrow> ttl_store \<Rightarrow> channel \<Rightarrow> run \<times> ttl_store" where
  "handle_init env now frame tracker ch =
     (if isInitiator ch then (destroy ch, tracker)
      else
        let C = ce_crypto env;
            (fresh, tracker1) = track (field_text frame ''nonce'')
                                  (the (or_else (remoteAddress (ce_sock env)) (Some []))) now tracker
        in (if \<not> fresh then destroy ch
            else case validatePeerIp env (field frame ''nodeAddress'') (field frame ''identityPublicKey'') of
              Throw _ \<Rightarrow> Raise ch []
            | Ok False \<Rightarrow> destroy ch
            | Ok True \<Rightarrow>
                if \<not> init_verified C frame then destroy ch
                else
                  let ch1 = set_peer frame ch
                  in case Option.bind (str_field frame ''kemPublicKey'') (encapsulateKey C (ce_rnd env (draws ch1))) of
                       None \<Rightarrow> Raise ch1 [save_peer frame]
                     | Some (sharedSecret, encapsulated) \<Rightarrow>
                         let ch2 = ch1\<lparr>draws := Suc (draws ch1)\<rparr>
                         in case salt_of (field frame ''nonce'') of
                              None \<Rightarrow> Raise ch2 [save_peer frame]
                            | Some salt \<Rightarrow>
                                let ch3 = ch2\<lparr>sessionKey := Some (transport_key C sharedSecret salt)\<rparr>
                                in markReady env ch3
                                     [save_peer frame, WriteText (frame_text (reply_frame env (field frame ''nonce'') encapsulated))],
            tracker1))"

definition reply_verified :: "node_crypto \<Rightarrow> json \<Rightarrow> bool" where
  "reply_verified C frame =
     (let signed = (\<lambda>observed. stringify (obj (reply_signed (field frame ''nodeAddress'')
            (field frame ''identityPublicKey'') (field frame ''kemPublicKey'') (field frame ''encapsulatedKey'')
            (field frame ''nonce'') observed)));
          check = (\<lambda>observed. verify C (signed observed) (str_field frame ''sig'') (str_field frame ''identityPublicKey''))
      in if truthy_field frame ''observedAddress''
         then check (field frame ''observedAddress'') \<or> check None
         else check None)"

definition handle_reply :: "chan_env \<Rightarrow> json \<Rightarrow> channel \<Rightarrow> run" where
  "handle_reply env frame ch =
     (if \<not> isInitiator ch then destroy ch
      else if \<not> truthy (myNonce ch) \<or> field frame ''nonce'' \<noteq> map_option JStr (myNonce ch) then destroy ch
      else if \<not> reply_verified (ce_crypto env) frame then destroy ch
      else
        let C = ce_crypto env;
            observed = (if truthy_field frame ''observedAddress'' then field frame ''observedAddress'' else None);
            ch1 = (set_peer frame ch)\<lparr>observedAddress := observed\<rparr>
        in case Option.bind (str_field frame ''encapsulatedKey'') (decapsulateKey C (kemPriv (ce_me env))) of
             None \<Rightarrow> Raise ch1 [save_peer frame]
           | Some secret \<Rightarrow>
               let ch2 = ch1\<lparr>sessionKey := Some (transport_key C secret (the (myNonce ch)))\<rparr>
               in markReady env ch2
                    (save_peer frame #
                     (case observed of None \<Rightarrow> [] | Some o' \<Rightarrow> [EmitEv (EvObservedAddress o' (peerNodeAddress ch2))])))"

definition handle_encrypted :: "chan_env \<Rightarrow> json \<Rightarrow> channel \<Rightarrow> run" where
  "handle_encrypted env frame ch =
     (case (isReady ch, sessionKey ch) of
        (True, Some key) \<Rightarrow>
          (case Option.bind (envelope_of_json frame) (\<lambda>e. decrypt (ce_crypto env) e (KeyBuffer key)) of
             None \<Rightarrow> Return ch []
           | Some raw \<Rightarrow>
               (case json_parse raw of
                  None \<Rightarrow> Return ch []
                | Some payload \<Rightarrow> Return ch [EmitEv (EvPayload payload)]))
      | _ \<Rightarrow> Return ch [])"

definition handleFrame :: "chan_env \<Rightarrow> int \<Rightarrow> json \<Rightarrow> ttl_store \<Rightarrow> channel \<Rightarrow> run \<times> ttl_store" where
  "handleFrame env now frame tracker ch =
     (let ty = str_field frame ''type''
      in if ty = Some ''HANDSHAKE_INIT'' then handle_init env now frame tracker ch
         else if ty = Some ''HANDSHAKE_REPLY'' then (handle_reply env frame ch, tracker)
         else if ty = Some ''ENCRYPTED_FRAME'' then (handle_encrypted env frame ch, tracker)
         else (Return ch [], tracker))"

section \<open>The socket's data\<close>

text \<open>
  One line: \<open>None\<close> in the last component when the loop returns early. An exception of the parser or
  of the handler is logged and the loop goes on, also after the socket was destroyed.
\<close>

definition process_line ::
  "chan_env \<Rightarrow> int \<Rightarrow> string \<Rightarrow> ttl_store \<Rightarrow> channel \<Rightarrow> (channel \<times> chan_effect list \<times> ttl_store \<times> bool) option" where
  "process_line env now raw tracker ch =
     (let line = js_trim raw
      in if line = [] then Some (ch, [], tracker, True)
         else if \<not> starts_with ''{'' line then Some (ch\<lparr>destroyed := True\<rparr>, [Destroy], tracker, False)
         else case json_parse line of
                None \<Rightarrow> Some (ch, [], tracker, True)
              | Some frame \<Rightarrow>
                  if str_field frame ''type'' = Some ''DIALBACK_CONFIRM''
                  then Some (ch, [EmitEv (EvDialbackConfirm frame)], tracker, True)
                  else if str_field frame ''type'' = Some ''ONION_CELL''
                  then Some (ch, [EmitEv (EvOnionCell frame)], tracker, True)
                  else (case handleFrame env now frame tracker ch of
                          (Return ch1 effs, tracker1) \<Rightarrow> Some (ch1, effs, tracker1, True)
                        | (Raise ch1 effs, tracker1) \<Rightarrow> Some (ch1, effs, tracker1, True)
                        | (Diverge, _) \<Rightarrow> None))"

text \<open>\<open>while (true)\<close> over the complete lines; the last part of the buffer has no line end yet.\<close>

fun process_lines ::
  "chan_env \<Rightarrow> int \<Rightarrow> string list \<Rightarrow> ttl_store \<Rightarrow> channel \<Rightarrow> (channel \<times> chan_effect list \<times> ttl_store) option" where
  "process_lines env now [] tracker ch = Some (ch, [], tracker)"
| "process_lines env now [rest] tracker ch = Some (ch\<lparr>rx_buffer := rest\<rparr>, [], tracker)"
| "process_lines env now (l # ls) tracker ch =
     (case process_line env now l tracker (ch\<lparr>rx_buffer := join_with [CHR 0x0A] ls\<rparr>) of
        None \<Rightarrow> None
      | Some (ch1, effs, tracker1, go) \<Rightarrow>
          if go
          then (case process_lines env now ls tracker1 ch1 of
                  None \<Rightarrow> None
                | Some (ch2, effs2, tracker2) \<Rightarrow> Some (ch2, effs @ effs2, tracker2))
          else Some (ch1, effs, tracker1))"

text \<open>The decoder holds back the first byte of a two-byte character at the end of a chunk.\<close>

definition decoder_write :: "byte list \<Rightarrow> byte list \<Rightarrow> string \<times> byte list" where
  "decoder_write held chunk =
     (let bs = held @ chunk
      in if bs \<noteq> [] \<and> (last bs = 194 \<or> last bs = 195) then (from_utf8 (butlast bs), [last bs])
         else (from_utf8 bs, []))"

definition max_buffer :: "config \<Rightarrow> int" where
  "max_buffer cfg = (if secureBufferLimit cfg = 0 then 65536 else secureBufferLimit cfg)"

definition on_chunk ::
  "chan_env \<Rightarrow> int \<Rightarrow> byte list \<Rightarrow> ttl_store \<Rightarrow> channel \<Rightarrow> (channel \<times> chan_effect list \<times> ttl_store) option" where
  "on_chunk env now chunk tracker ch =
     (if chunk = [9] then Some (ch, [WriteBytes [10]], tracker)
      else if chunk = [10] then Some (ch\<lparr>lastPong := now\<rparr>, [EmitEv EvPong], tracker)
      else
        let (t, held) = decoder_write (rx_pending ch) chunk;
            ch1 = ch\<lparr>rx_buffer := rx_buffer ch @ t, rx_pending := held\<rparr>
        in if int (byteLength (rx_buffer ch1)) > max_buffer (ce_cfg env)
           then Some (ch1\<lparr>destroyed := True\<rparr>, [Destroy], tracker)
           else process_lines env now (split_on CHR 0x0A (rx_buffer ch1)) tracker ch1)"

datatype sock_event = SockData "byte list" | SockErr string | SockEnd | HandshakeTimeout | SendPayload json

text \<open>
  Everything that can happen to a channel: data, an error, the end, the 30 second timer of the
  constructor, and a call of \<open>writePayload\<close>. A destroyed socket delivers no more data.
\<close>

definition chan_step ::
  "chan_env \<Rightarrow> int \<Rightarrow> sock_event \<Rightarrow> ttl_store \<Rightarrow> channel \<Rightarrow> (channel \<times> chan_effect list \<times> ttl_store) option" where
  "chan_step env now e tracker ch =
     (case e of
        SockData chunk \<Rightarrow> if destroyed ch then Some (ch, [], tracker) else on_chunk env now chunk tracker ch
      | SockErr err \<Rightarrow> Some (ch, [EmitEv (EvError err)], tracker)
      | SockEnd \<Rightarrow> Some (ch, [EmitEv EvClose], tracker)
      | HandshakeTimeout \<Rightarrow> if isReady ch then Some (ch, [], tracker)
                            else Some (ch\<lparr>destroyed := True\<rparr>, [Destroy], tracker)
      | SendPayload p \<Rightarrow> (case writePayload env ch p of (ch1, effs) \<Rightarrow> Some (ch1, effs, tracker)))"

section \<open>Delivery\<close>

definition payload_frame :: "chan_env \<Rightarrow> byte list \<Rightarrow> nat \<Rightarrow> json \<Rightarrow> json" where
  "payload_frame env key i p =
     encrypted_frame (encrypt (ce_crypto env) (ce_rnd env i) (stringify p) (KeyBuffer key))"

lemma flush_ready:
  assumes "isReady ch" "sessionKey ch = Some key"
  shows "flush env ch ps = (ch\<lparr>pendingQueue := [], draws := draws ch + length ps\<rparr>,
    map2 (\<lambda>i p. WriteText (frame_text (payload_frame env key i p))) [draws ch..<draws ch + length ps] ps)"
  using assms
proof (induction ps arbitrary: ch)
  case (Cons p ps)
  have up: "[draws ch..<draws ch + length (p # ps)] = draws ch # [Suc (draws ch)..<Suc (draws ch) + length ps]"
    by (subst upt_conv_Cons) simp_all
  show ?case
    unfolding up using Cons by (simp add: writePayload_def payload_frame_def Let_def)
qed simp

text \<open>The text of a list of effects that write frames.\<close>

fun sent_frames :: "chan_effect list \<Rightarrow> string list" where
  "sent_frames [] = []"
| "sent_frames (WriteText t # es) = t # sent_frames es"
| "sent_frames (_ # es) = sent_frames es"

definition sent_text :: "chan_effect list \<Rightarrow> string" where
  "sent_text es = concat (sent_frames es)"

lemma sent_text_simps [simp]:
  "sent_text [] = []" "sent_text (WriteText t # es) = t @ sent_text es"
  "sent_text (Destroy # es) = sent_text es" "sent_text (EmitEv v # es) = sent_text es"
  "sent_text (SaveTrustedNodeKey a b c # es) = sent_text es" "sent_text (WriteBytes w # es) = sent_text es"
  by (simp_all add: sent_text_def)

lemma sent_text_append: "sent_text (a @ b) = sent_text a @ sent_text b"
proof (induction a)
  case (Cons e a)
  then show ?case by (cases e) simp_all
qed simp

definition is_frame :: "json \<Rightarrow> bool" where
  "is_frame j = (json_ok j \<and> (\<exists>m ms. j = JObj (m # ms)))"

lemma frame_line:
  assumes "is_frame j"
  shows "js_trim (stringify j) = stringify j" "starts_with ''{'' (stringify j)"
    "CHR 0x0A \<notin> set (stringify j)" "json_parse (stringify j) = Some j"
proof -
  obtain m ms where j: "j = JObj (m # ms)" using assms by (auto simp: is_frame_def)
  have last: "str_members (m # ms) \<noteq> [] \<and> last (str_members (m # ms)) = CHR ''}''" for m ms
    by (induction ms arbitrary: m) (auto simp: quote_def)
  then have "last (stringify j) = CHR ''}''" using j by (simp del: str_members.simps)
  then obtain t where t: "stringify j = t @ [CHR ''}'']"
    by (metis append_butlast_last_id j list.discI stringify.simps(6))
  have h: "\<exists>u. stringify j = CHR ''{'' # u" using j by simp
  have sp: "\<not> js_space CHR ''}''" "\<not> js_space CHR ''{''" by (simp_all add: js_space_def)
  have "dropWhile js_space (stringify j) = stringify j" using h sp by auto
  moreover have "dropWhile js_space (rev (stringify j)) = rev (stringify j)" using t sp by simp
  ultimately show "js_trim (stringify j) = stringify j" by (simp add: js_trim_def)
  show "starts_with ''{'' (stringify j)" using h by (auto simp: starts_with_def)
  show "CHR 0x0A \<notin> set (stringify j)" by (rule stringify_one_line)
  show "json_parse (stringify j) = Some j" using assms by (simp add: json_parse_stringify is_frame_def)
qed

lemma process_line_frame:
  assumes "is_frame j" "str_field j ''type'' = Some ty" "ty \<noteq> ''DIALBACK_CONFIRM''" "ty \<noteq> ''ONION_CELL''"
  shows "process_line env now (stringify j) tr ch =
    (case handleFrame env now j tr ch of
       (Return ch1 effs, tr1) \<Rightarrow> Some (ch1, effs, tr1, True)
     | (Raise ch1 effs, tr1) \<Rightarrow> Some (ch1, effs, tr1, True)
     | (Diverge, _) \<Rightarrow> None)"
proof -
  have "stringify j \<noteq> []" using frame_line(2) [OF assms(1)] by (auto simp: starts_with_def)
  then show ?thesis using frame_line [OF assms(1)] assms(2-4) by (simp add: process_line_def Let_def)
qed

lemma encrypted_frame_ok: "is_frame (encrypted_frame e)" "str_field (encrypted_frame e) ''type'' = Some ''ENCRYPTED_FRAME''"
    "envelope_of_json (encrypted_frame e) = Some e"
  by (simp_all add: is_frame_def encrypted_frame_def str_field_def envelope_of_json_def)

lemma receive_payload:
  assumes "isReady b" "sessionKey b = Some key" "gcm_ok (ce_crypto env) key" "ce_crypto env' = ce_crypto env" "json_ok p"
  shows "process_line env now (stringify (payload_frame env' key i p)) tr b = Some (b, [EmitEv (EvPayload p)], tr, True)"
proof -
  let ?e = "encrypt (ce_crypto env) (ce_rnd env' i) (stringify p) (KeyBuffer key)"
  have "decrypt (ce_crypto env) ?e (KeyBuffer key) = Some (stringify p)"
    by (rule decrypt_encrypt) (simp add: assms(3) normalizeKey_def)
  then have "handle_encrypted env (encrypted_frame ?e) b = Return b [EmitEv (EvPayload p)]"
    using assms by (simp add: handle_encrypted_def encrypted_frame_ok json_parse_stringify)
  then show ?thesis
    using process_line_frame [OF encrypted_frame_ok(1,2), of env now ?e tr b] assms(4)
    by (simp add: payload_frame_def handleFrame_def encrypted_frame_ok)
qed

lemma payload_frame_line: "is_frame (payload_frame env key i p)"
  by (simp add: payload_frame_def encrypted_frame_ok)

lemma process_payloads:
  assumes "isReady b" "sessionKey b = Some key" "gcm_ok (ce_crypto env) key" "ce_crypto env' = ce_crypto env"
    "\<forall>p \<in> set ps. json_ok p" "length is = length ps"
  shows "\<exists>ch. process_lines env now (map2 (\<lambda>i p. stringify (payload_frame env' key i p)) is ps @ [[]]) tr b =
      Some (b\<lparr>rx_buffer := []\<rparr>, map (\<lambda>p. EmitEv (EvPayload p)) ps, tr)"
  using assms
proof (induction ps arbitrary: "is" b)
  case (Cons p ps)
  obtain i js where i: "is = i # js" using Cons.prems(6) by (cases "is") auto
  let ?rest = "map2 (\<lambda>i p. stringify (payload_frame env' key i p)) js ps @ [[]]"
  let ?b = "b\<lparr>rx_buffer := join_with [CHR 0x0A] ?rest\<rparr>"
  have p: "process_line env now (stringify (payload_frame env' key i p)) tr ?b = Some (?b, [EmitEv (EvPayload p)], tr, True)"
    by (rule receive_payload) (use Cons.prems in simp_all)
  have "process_lines env now ?rest tr ?b = Some (?b\<lparr>rx_buffer := []\<rparr>, map (\<lambda>p. EmitEv (EvPayload p)) ps, tr)"
    using Cons.IH [of ?b js] Cons.prems i by simp
  moreover obtain r rs where "?rest = r # rs" by (cases ?rest) auto
  ultimately show ?case using p i by simp
qed simp

lemma split_frames:
  assumes "\<forall>j \<in> set js. is_frame j"
  shows "split_on CHR 0x0A (concat (map frame_text js)) = map stringify js @ [[]]"
  using assms
proof (induction js)
  case (Cons j js)
  have "concat (map frame_text (j # js)) = stringify j @ CHR 0x0A # concat (map frame_text js)"
    by (simp add: frame_text_def [of j])
  then show ?case
    using split_on_append [OF frame_line(3), of j "concat (map frame_text js)"] Cons by simp
qed simp

lemma utf8_last_newline: "s \<noteq> [] \<Longrightarrow> last s = CHR 0x0A \<Longrightarrow> utf8 s \<noteq> [] \<and> last (utf8 s) = 10"
proof -
  assume "s \<noteq> []" "last s = CHR 0x0A"
  then obtain t where "s = t @ [CHR 0x0A]" by (metis append_butlast_last_id)
  then show ?thesis by (simp add: utf8_def utf8_char_def)
qed

lemma concat_frames_last: "js \<noteq> [] \<Longrightarrow> concat (map frame_text js) \<noteq> [] \<and> last (concat (map frame_text js)) = CHR 0x0A"
proof (induction js)
  case (Cons j js)
  then show ?case by (cases "js = []") (auto simp: frame_text_def)
qed simp

text \<open>Whole frames in one chunk, on an empty buffer, within the limit.\<close>

lemma on_chunk_frames:
  assumes "js \<noteq> []" "\<forall>j \<in> set js. is_frame j" "rx_buffer b = []" "rx_pending b = []"
    "int (byteLength (concat (map frame_text js))) \<le> max_buffer (ce_cfg env)"
  shows "on_chunk env now (utf8 (concat (map frame_text js))) tr b =
    process_lines env now (map stringify js @ [[]]) tr (b\<lparr>rx_buffer := concat (map frame_text js)\<rparr>)"
proof -
  let ?s = "concat (map frame_text js)"
  obtain j js' where js: "js = j # js'" using assms(1) by (cases js) auto
  have long: "length ?s \<ge> 3"
  proof -
    obtain m ms where "j = JObj (m # ms)" using assms(2) js by (auto simp: is_frame_def)
    then show ?thesis using js by (simp add: frame_text_def quote_def)
  qed
  have "length s \<le> length (utf8 s)" for s
    by (induction s) (auto simp: utf8_def utf8_char_def Let_def)
  from this [of ?s] long have "length (utf8 ?s) \<ge> 3" by linarith
  then have ne: "utf8 ?s \<noteq> [9]" "utf8 ?s \<noteq> [10]" by auto
  have l10: "last (utf8 ?s) = 10" using concat_frames_last [OF assms(1)] utf8_last_newline by blast
  have dw: "decoder_write [] (utf8 ?s) = (?s, [])"
    using l10 by (simp add: decoder_write_def Let_def)
  have eq: "b\<lparr>rx_buffer := t, rx_pending := []\<rparr> = b\<lparr>rx_buffer := t\<rparr>" for t
    using assms(4) by (cases b) simp
  show ?thesis
    using ne assms(3-5) split_frames [OF assms(2)] dw by (simp add: on_chunk_def Let_def eq)
qed

lemma sent_frames_map2:
  "length is = length ps \<Longrightarrow>
   sent_text (map2 (\<lambda>i p. WriteText (frame_text (payload_frame env key i p))) is ps) =
   concat (map frame_text (map2 (\<lambda>i p. payload_frame env key i p) is ps))"
  by (induction "is" ps rule: list_induct2) simp_all


section \<open>Agreement on the session key\<close>

lemma obj_simps [simp]:
  "obj [] = JObj []" "obj ((k, None) # ms) = obj ms"
  "obj ((k, Some v) # ms) = (case obj ms of JObj l \<Rightarrow> JObj ((k, v) # l) | j \<Rightarrow> j)"
  by (simp_all add: obj_def List.map_filter_simps)

lemma canonical_ok [simp]: "json_ok (canonicalAddress me)"
  by (simp add: canonicalAddress_def split: option.splits list.splits)

lemma init_frame_fields:
  "is_frame (init_frame env nonce)" "str_field (init_frame env nonce) ''type'' = Some ''HANDSHAKE_INIT''"
  "field (init_frame env nonce) ''nodeAddress'' = Some (canonicalAddress (ce_me env))"
  "field (init_frame env nonce) ''identityPublicKey'' = Some (JStr (identityPub (ce_me env)))"
  "field (init_frame env nonce) ''kemPublicKey'' = Some (JStr (kemPub (ce_me env)))"
  "field (init_frame env nonce) ''nonce'' = Some (JStr nonce)"
  by (simp_all add: init_frame_def init_signed_def Let_def is_frame_def str_field_def)

lemma init_frame_verified:
  assumes "sign_ok C (identityPub (ce_me env)) (identityPriv (ce_me env))" "ce_crypto env = C"
  shows "init_verified C (init_frame env nonce)"
proof -
  let ?m = "stringify (obj (init_signed (Some (canonicalAddress (ce_me env))) (Some (JStr (identityPub (ce_me env))))
      (Some (JStr (kemPub (ce_me env)))) (Some (JStr nonce))))"
  have "field (init_frame env nonce) ''sig'' = Some (JStr (sign C ?m (identityPriv (ce_me env))))"
    using assms(2) by (simp add: init_frame_def init_signed_def Let_def)
  then show ?thesis
    using verify_sign [OF assms(1), of ?m]
    by (simp add: init_verified_def init_frame_fields str_field_def)
qed

lemma reply_frame_fields:
  assumes "nonce = Some (JStr n)"
  shows "is_frame (reply_frame env nonce e)" "str_field (reply_frame env nonce e) ''type'' = Some ''HANDSHAKE_REPLY''"
    "field (reply_frame env nonce e) ''nodeAddress'' = Some (canonicalAddress (ce_me env))"
    "field (reply_frame env nonce e) ''identityPublicKey'' = Some (JStr (identityPub (ce_me env)))"
    "field (reply_frame env nonce e) ''kemPublicKey'' = Some (JStr (kemPub (ce_me env)))"
    "field (reply_frame env nonce e) ''encapsulatedKey'' = Some (JStr e)"
    "field (reply_frame env nonce e) ''nonce'' = Some (JStr n)"
    "field (reply_frame env nonce e) ''observedAddress'' = Some (JStr (observed_of (ce_sock env)))"
  using assms by (simp_all add: reply_frame_def reply_signed_def Let_def is_frame_def str_field_def)

lemma observed_nonempty: "observed_of s \<noteq> []"
  by (simp add: observed_of_def Let_def)

lemma reply_frame_verified:
  assumes "sign_ok C (identityPub (ce_me env)) (identityPriv (ce_me env))" "ce_crypto env = C" "nonce = Some (JStr n)"
  shows "reply_verified C (reply_frame env nonce e)"
proof -
  let ?m = "stringify (obj (reply_signed (Some (canonicalAddress (ce_me env))) (Some (JStr (identityPub (ce_me env))))
      (Some (JStr (kemPub (ce_me env)))) (Some (JStr e)) nonce (Some (JStr (observed_of (ce_sock env))))))"
  have "field (reply_frame env nonce e) ''sig'' = Some (JStr (sign C ?m (identityPriv (ce_me env))))"
    using assms(2,3) by (simp add: reply_frame_def reply_signed_def Let_def)
  then show ?thesis
    using verify_sign [OF assms(1), of ?m] assms(3)
    by (simp add: reply_verified_def reply_frame_fields [OF refl] str_field_def truthy_field_def observed_nonempty Let_def)
qed

lemma markReady_empty:
  "pendingQueue ch = [] \<Longrightarrow> markReady env ch effs = Return (ch\<lparr>isReady := True\<rparr>) (effs @ [EmitEv EvReady])"
proof -
  assume "pendingQueue ch = []"
  moreover from this have "ch\<lparr>isReady := True, pendingQueue := []\<rparr> = ch\<lparr>isReady := True\<rparr>" by (cases ch) simp
  ultimately show ?thesis by (simp add: markReady_def)
qed

lemma on_chunk_frame:
  assumes "is_frame j" "rx_buffer b = []" "rx_pending b = []" "int (byteLength (frame_text j)) \<le> max_buffer (ce_cfg env)"
    "process_line env now (stringify j) tr b = Some (b1, effs, tr1, True)" "rx_buffer b1 = []"
  shows "on_chunk env now (utf8 (frame_text j)) tr b = Some (b1, effs, tr1)"
proof -
  have b: "b\<lparr>rx_buffer := frame_text j, rx_buffer := []\<rparr> = b" using assms(2) by (cases b) simp
  have b1: "b1\<lparr>rx_buffer := []\<rparr> = b1" using assms(6) by (cases b1) simp
  show ?thesis
    using on_chunk_frames [of "[j]" b env now tr] assms b b1 by simp
qed

text \<open>
  C5. Handshake agreement: the INIT frame of a fresh initiator, received by a fresh responder, and
  the responder's REPLY, received back, leave both channels ready with the same session key, each
  holding the other's identity key.
\<close>

theorem handshake_agrees:
  assumes "ce_crypto envI = C" "ce_crypto envR = C"
    and "sign_ok C (identityPub (ce_me envI)) (identityPriv (ce_me envI))"
    and "sign_ok C (identityPub (ce_me envR)) (identityPriv (ce_me envR))"
    and "kem_ok C (kemPub (ce_me envI)) (kemPriv (ce_me envI))"
    and "encapsulateKey C (ce_rnd envR 0) (kemPub (ce_me envI)) = Some (secret, ct)"
    and "nonce \<noteq> []" "track nonce (the (or_else (remoteAddress (ce_sock envR)) (Some []))) now tr = (True, tr1)"
    and "validatePeerIp envR (Some (canonicalAddress (ce_me envI))) (Some (JStr (identityPub (ce_me envI)))) = Ok True"
    and "int (byteLength (frame_text (init_frame envI nonce))) \<le> max_buffer (ce_cfg envR)"
    and "int (byteLength (frame_text (reply_frame envR (Some (JStr nonce)) ct))) \<le> max_buffer (ce_cfg envI)"
    and "open_channel envI True nonce t0 = (i0, effsI)" "open_channel envR False unused t1 = (r0, effsR)"
  shows "\<exists>r1 i1 effs1 effs2 K.
    on_chunk envR now (utf8 (sent_text effsI)) tr r0 = Some (r1, effs1, tr1) \<and>
    on_chunk envI now' (utf8 (sent_text effs1)) trI i0 = Some (i1, effs2, trI) \<and>
    isReady r1 \<and> isReady i1 \<and> sessionKey r1 = Some K \<and> sessionKey i1 = Some K \<and>
    peerIdentityKey r1 = Some (JStr (identityPub (ce_me envI))) \<and>
    peerIdentityKey i1 = Some (JStr (identityPub (ce_me envR)))"
proof -
  let ?init = "init_frame envI nonce" and ?reply = "reply_frame envR (Some (JStr nonce)) ct"
  let ?K = "transport_key C secret nonce"
  have i0: "i0 = (new_channel True t0)\<lparr>myNonce := Some nonce\<rparr>" "effsI = [WriteText (frame_text ?init)]"
    using assms(12) by (simp_all add: open_channel_def sendHandshakeInit_def)
  have r0: "r0 = new_channel False t1" using assms(13) by (simp add: open_channel_def)
  let ?r1 = "(set_peer ?init r0)\<lparr>draws := 1, sessionKey := Some ?K, isReady := True\<rparr>"
  let ?effs1 = "[save_peer ?init, WriteText (frame_text ?reply), EmitEv EvReady]"
  have "handle_init envR now ?init tr r0 = (Return ?r1 ?effs1, tr1)"
    using assms(2,6,8,9) init_frame_verified [OF assms(3,1)]
    by (simp add: handle_init_def r0 init_frame_fields field_text_def str_field_def set_peer_def salt_of_def
        new_channel_def markReady_empty)
  then have "process_line envR now (stringify ?init) tr r0 = Some (?r1, ?effs1, tr1, True)"
    using process_line_frame [OF init_frame_fields(1,2), of envR now envI nonce tr r0]
    by (simp add: handleFrame_def init_frame_fields)
  then have R: "on_chunk envR now (utf8 (sent_text effsI)) tr r0 = Some (?r1, ?effs1, tr1)"
    using on_chunk_frame [OF init_frame_fields(1), of r0 envI nonce envR now tr ?r1 ?effs1 tr1] assms(10) i0(2)
    by (simp add: r0 new_channel_def set_peer_def)
  have dec: "decapsulateKey C (kemPriv (ce_me envI)) ct = Some secret"
    by (rule decapsulate_encapsulate [OF assms(5,6)])
  let ?i1 = "(set_peer ?reply i0)\<lparr>observedAddress := Some (JStr (observed_of (ce_sock envR))), sessionKey := Some ?K, isReady := True\<rparr>"
  let ?effs2 = "[save_peer ?reply, EmitEv (EvObservedAddress (JStr (observed_of (ce_sock envR))) (Some (canonicalAddress (ce_me envR)))), EmitEv EvReady]"
  note rf = reply_frame_fields [OF refl, of envR nonce ct]
  have "handle_reply envI ?reply i0 = Return ?i1 ?effs2"
    using assms(1,7) dec reply_frame_verified [OF assms(4,2) refl, of nonce ct]
    by (simp add: handle_reply_def i0 rf str_field_def set_peer_def new_channel_def markReady_empty truthy_field_def
        observed_nonempty)
  then have "process_line envI now' (stringify ?reply) trI i0 = Some (?i1, ?effs2, trI, True)"
    using process_line_frame [OF rf(1,2), of envI now' trI i0]
    by (simp add: handleFrame_def rf)
  then have I: "on_chunk envI now' (utf8 (sent_text ?effs1)) trI i0 = Some (?i1, ?effs2, trI)"
    using on_chunk_frame [OF rf(1), of i0 envI now' trI ?i1 ?effs2 trI] assms(11) i0
    by (simp add: new_channel_def set_peer_def save_peer_def)
  show ?thesis
    by (intro exI conjI, rule R, rule I) (simp_all add: set_peer_def init_frame_fields rf)
qed

section \<open>Invariants\<close>

definition ready_inv :: "channel \<Rightarrow> bool" where
  "ready_inv ch = (isReady ch \<longrightarrow> sessionKey ch \<noteq> None \<and> pendingQueue ch = [])"

text \<open>What a handler may do to a channel that satisfies the invariant.\<close>

definition good_run :: "channel \<Rightarrow> run \<Rightarrow> bool" where
  "good_run ch r =
     (case r of
        Diverge \<Rightarrow> False
      | Return ch' _ \<Rightarrow> ready_inv ch' \<and> rx_buffer ch' = rx_buffer ch \<and> (destroyed ch \<longrightarrow> destroyed ch')
      | Raise ch' _ \<Rightarrow> ready_inv ch' \<and> rx_buffer ch' = rx_buffer ch \<and> (destroyed ch \<longrightarrow> destroyed ch'))"

lemma good_destroy [simp]: "ready_inv ch \<Longrightarrow> good_run ch (destroy ch)"
  by (simp add: good_run_def destroy_def ready_inv_def)

lemma good_unchanged [simp]: "ready_inv ch \<Longrightarrow> good_run ch (Return ch effs)" "ready_inv ch \<Longrightarrow> good_run ch (Raise ch effs)"
  by (simp_all add: good_run_def)

lemma good_markReady:
  assumes "sessionKey ch1 = Some k" "rx_buffer ch1 = rx_buffer ch" "destroyed ch1 = destroyed ch"
  shows "good_run ch (markReady env ch1 effs)"
  using assms flush_ready [of "ch1\<lparr>isReady := True\<rparr>" k env "pendingQueue ch1"]
  by (simp add: markReady_def good_run_def ready_inv_def)

lemma set_peer_same [simp]:
  "isReady (set_peer fr ch) = isReady ch" "sessionKey (set_peer fr ch) = sessionKey ch"
  "pendingQueue (set_peer fr ch) = pendingQueue ch" "rx_buffer (set_peer fr ch) = rx_buffer ch"
  "destroyed (set_peer fr ch) = destroyed ch" "draws (set_peer fr ch) = draws ch"
  by (simp_all add: set_peer_def)

lemma good_raise: "ready_inv ch \<Longrightarrow> isReady ch' = isReady ch \<Longrightarrow> sessionKey ch' = sessionKey ch \<Longrightarrow>
    pendingQueue ch' = pendingQueue ch \<Longrightarrow> rx_buffer ch' = rx_buffer ch \<Longrightarrow> destroyed ch' = destroyed ch \<Longrightarrow>
    good_run ch (Raise ch' effs)"
  by (simp add: good_run_def ready_inv_def)

lemma good_init: "ready_inv ch \<Longrightarrow> good_run ch (fst (handle_init env now frame tr ch))"
  by (auto simp: handle_init_def Let_def split: prod.splits result.splits option.splits bool.splits
      intro!: good_raise good_markReady)

lemma good_reply: "ready_inv ch \<Longrightarrow> good_run ch (handle_reply env frame ch)"
  by (auto simp: handle_reply_def Let_def split: option.splits intro!: good_raise good_markReady)

lemma good_encrypted: "ready_inv ch \<Longrightarrow> good_run ch (handle_encrypted env frame ch)"
  by (auto simp: handle_encrypted_def split: option.splits bool.splits)

lemma good_handleFrame: "ready_inv ch \<Longrightarrow> good_run ch (fst (handleFrame env now frame tr ch))"
  by (simp add: handleFrame_def Let_def good_init good_reply good_encrypted)

lemma process_line_good:
  assumes "ready_inv ch"
  shows "\<exists>ch1 effs tr1 go. process_line env now l tr ch = Some (ch1, effs, tr1, go) \<and> ready_inv ch1 \<and>
    rx_buffer ch1 = rx_buffer ch \<and> (destroyed ch \<or> \<not> go \<longrightarrow> destroyed ch1)"
proof (cases "json_parse (js_trim l)")
  case None
  then show ?thesis using assms by (cases "js_trim l = []") (auto simp: process_line_def Let_def ready_inv_def)
next
  case (Some fr)
  obtain r tr1 where h: "handleFrame env now fr tr ch = (r, tr1)" by fastforce
  then have g: "good_run ch r" using good_handleFrame [OF assms, of env now fr tr] by simp
  have d: "ready_inv (ch\<lparr>destroyed := True\<rparr>)" using assms by (simp add: ready_inv_def)
  consider "js_trim l = []" | "js_trim l \<noteq> []" "\<not> starts_with ''{'' (js_trim l)"
    | "js_trim l \<noteq> []" "starts_with ''{'' (js_trim l)" "str_field fr ''type'' \<in> {Some ''DIALBACK_CONFIRM'', Some ''ONION_CELL''}"
    | "js_trim l \<noteq> []" "starts_with ''{'' (js_trim l)" "str_field fr ''type'' \<notin> {Some ''DIALBACK_CONFIRM'', Some ''ONION_CELL''}"
    by blast
  then show ?thesis
  proof cases
    case 4
    then show ?thesis
      using g h Some by (cases r) (auto simp: process_line_def Let_def good_run_def)
  next
    case 3
    then show ?thesis using Some assms by (cases "str_field fr ''type'' = Some ''DIALBACK_CONFIRM''") (auto simp: process_line_def Let_def)
  qed (use Some assms d in \<open>auto simp: process_line_def Let_def\<close>)
qed

lemma process_lines_good:
  assumes "ready_inv ch" "ls \<noteq> []" "rx_buffer ch = join_with [CHR 0x0A] ls"
  shows "\<exists>ch1 effs tr1. process_lines env now ls tr ch = Some (ch1, effs, tr1) \<and> ready_inv ch1 \<and>
    (destroyed ch \<longrightarrow> destroyed ch1) \<and>
    (destroyed ch1 \<or> (\<exists>pre. rx_buffer ch = pre @ rx_buffer ch1))"
  using assms
proof (induction ls arbitrary: ch tr)
  case (Cons l ls)
  show ?case
  proof (cases "ls = []")
    case True
    then show ?thesis using Cons.prems by (auto simp: ready_inv_def)
  next
    case False
    let ?ch = "ch\<lparr>rx_buffer := join_with [CHR 0x0A] ls\<rparr>"
    have "ready_inv ?ch" using Cons.prems(1) by (simp add: ready_inv_def)
    from process_line_good [OF this, of env now l tr] obtain ch1 effs tr1 go where
      p: "process_line env now l tr ?ch = Some (ch1, effs, tr1, go)" "ready_inv ch1"
        "rx_buffer ch1 = join_with [CHR 0x0A] ls" "destroyed ch \<or> \<not> go \<longrightarrow> destroyed ch1"
      by auto
    obtain l2 ls2 where ls: "ls = l2 # ls2" using False by (cases ls) auto
    have whole: "rx_buffer ch = (l @ [CHR 0x0A]) @ rx_buffer ch1" using Cons.prems(3) p(3) ls by simp
    show ?thesis
    proof (cases go)
      case True
      from Cons.IH [OF p(2) False p(3), of tr1] obtain ch2 effs2 tr2 where
        q: "process_lines env now ls tr1 ch1 = Some (ch2, effs2, tr2)" "ready_inv ch2"
          "destroyed ch1 \<longrightarrow> destroyed ch2" "destroyed ch2 \<or> (\<exists>pre. rx_buffer ch1 = pre @ rx_buffer ch2)" by blast
      have "destroyed ch2 \<or> (\<exists>pre. rx_buffer ch = pre @ rx_buffer ch2)"
        using q(4) whole by (metis append.assoc)
      then show ?thesis using p(1,4) q(1-3) ls True by auto
    qed (use p whole ls in auto)
  qed
qed simp

definition chan_inv :: "chan_env \<Rightarrow> channel \<Rightarrow> bool" where
  "chan_inv env ch =
     (ready_inv ch \<and> (destroyed ch \<or> int (byteLength (rx_buffer ch)) \<le> max_buffer (ce_cfg env)))"

lemma writePayload_ready_inv: "ready_inv ch \<Longrightarrow> chan_inv env ch \<Longrightarrow> chan_inv env (fst (writePayload env ch p))"
  by (auto simp: writePayload_def ready_inv_def chan_inv_def Let_def split: option.splits bool.splits)

lemma on_chunk_good:
  assumes "chan_inv env ch"
  shows "\<exists>ch1 effs tr1. on_chunk env now chunk tr ch = Some (ch1, effs, tr1) \<and> chan_inv env ch1"
proof -
  obtain t held where d: "decoder_write (rx_pending ch) chunk = (t, held)" by (cases "decoder_write (rx_pending ch) chunk")
  let ?ch = "ch\<lparr>rx_buffer := rx_buffer ch @ t, rx_pending := held\<rparr>"
  have r: "ready_inv ?ch" using assms by (simp add: chan_inv_def ready_inv_def)
  have j: "rx_buffer ?ch = join_with [CHR 0x0A] (split_on CHR 0x0A (rx_buffer ?ch))" by (simp add: join_split)
  from process_lines_good [OF r split_on_nonempty j, of env now tr] obtain ch1 effs tr1 where
    p: "process_lines env now (split_on CHR 0x0A (rx_buffer ?ch)) tr ?ch = Some (ch1, effs, tr1)" "ready_inv ch1"
      "destroyed ch1 \<or> (\<exists>pre. rx_buffer ?ch = pre @ rx_buffer ch1)" by blast
  show ?thesis
  proof (cases "int (byteLength (rx_buffer ?ch)) > max_buffer (ce_cfg env)")
    case True
    then show ?thesis
      using assms d by (auto simp: on_chunk_def chan_inv_def ready_inv_def)
  next
    case False
    have "destroyed ch1 \<or> int (byteLength (rx_buffer ch1)) \<le> max_buffer (ce_cfg env)"
    proof (cases "destroyed ch1")
      case open_: False
      then obtain pre where "rx_buffer ?ch = pre @ rx_buffer ch1" using p(3) by blast
      then have "byteLength (rx_buffer ?ch) = byteLength pre + byteLength (rx_buffer ch1)"
        by (simp only: utf8_append length_append)
      then show ?thesis using False by linarith
    qed simp
    then show ?thesis
      using assms d p(1,2) False by (auto simp: on_chunk_def chan_inv_def ready_inv_def)
  qed
qed

lemma chan_step_good:
  assumes "chan_inv env ch"
  shows "\<exists>ch1 effs tr1. chan_step env now e tr ch = Some (ch1, effs, tr1) \<and> chan_inv env ch1"
proof (cases e)
  case (SockData chunk)
  then show ?thesis using assms on_chunk_good [OF assms, of now chunk tr] by (auto simp: chan_step_def)
next
  case (SendPayload p)
  then show ?thesis
    using assms writePayload_ready_inv [of ch env p] by (auto simp: chan_step_def chan_inv_def split: prod.splits)
qed (use assms in \<open>auto simp: chan_step_def chan_inv_def ready_inv_def\<close>)

text \<open>A run of events; a step that did not return would leave the state as it was.\<close>

definition chan_next :: "chan_env \<Rightarrow> int \<times> sock_event \<Rightarrow> ttl_store \<times> channel \<Rightarrow> ttl_store \<times> channel" where
  "chan_next env e st =
     (case chan_step env (fst e) (snd e) (fst st) (snd st) of
        None \<Rightarrow> st
      | Some (ch, _, tr) \<Rightarrow> (tr, ch))"

interpretation chan: keeps_invariant "chan_next env" "\<lambda>st :: ttl_store \<times> channel. chan_inv env (snd st)" for env
proof
  fix st :: "ttl_store \<times> channel" and e assume "chan_inv env (snd st)"
  then show "chan_inv env (snd (chan_next env e st))"
    using chan_step_good [of env "snd st" "fst e" "snd e" "fst st"] by (auto simp: chan_next_def)
qed

text \<open>
  C12. Safety of a channel over every sequence of events: each step returns (the flush of the queue
  never loops), a ready channel has a session key and an empty queue, and a socket still open holds
  no more buffered bytes than the limit.
\<close>

theorem channel_safe:
  assumes "0 \<le> secureBufferLimit (ce_cfg env)" "open_channel env initiator nonce t0 = (ch0, effs0)"
    and "fold (chan_next env) es (tr0, ch0) = (tr, ch)"
  shows "chan_step env now e tr ch \<noteq> None \<and>
    (isReady ch \<longrightarrow> sessionKey ch \<noteq> None \<and> pendingQueue ch = []) \<and>
    (\<not> destroyed ch \<longrightarrow> int (byteLength (rx_buffer ch)) \<le> max_buffer (ce_cfg env))"
proof -
  have "chan_inv env (snd (tr0, ch0))"
    using assms(1,2)
    by (auto simp: open_channel_def sendHandshakeInit_def new_channel_def chan_inv_def ready_inv_def max_buffer_def
        split: if_splits)
  then have inv: "chan_inv env ch"
    using chan.run_inv [of env "(tr0, ch0)" es] assms(3) by simp
  from chan_step_good [OF this, of now e tr] inv show ?thesis
    by (auto simp: chan_inv_def ready_inv_def)
qed

lemma markReady_peer:
  "(case markReady env c es of Return c' _ \<Rightarrow> peerIdentityKey c' = peerIdentityKey c | Raise _ _ \<Rightarrow> False | Diverge \<Rightarrow> True)"
proof (cases "sessionKey c")
  case (Some k)
  then show ?thesis
    using flush_ready [of "c\<lparr>isReady := True\<rparr>" k env "pendingQueue c"] by (simp add: markReady_def)
next
  case None
  then show ?thesis by (cases "pendingQueue c") (simp_all add: markReady_def)
qed

definition run_state :: "run \<Rightarrow> channel option" where
  "run_state r = (case r of Return c _ \<Rightarrow> Some c | Raise c _ \<Rightarrow> Some c | Diverge \<Rightarrow> None)"

lemma run_state_simps [simp]:
  "run_state (Return c es) = Some c" "run_state (Raise c es) = Some c" "run_state (destroy c) = Some (c\<lparr>destroyed := True\<rparr>)"
  by (simp_all add: run_state_def destroy_def)

lemma run_state_markReady: "run_state (markReady env c es) = Some c' \<Longrightarrow> peerIdentityKey c' = peerIdentityKey c"
  using markReady_peer [where env = env and c = c and es = es] by (simp add: run_state_def split: run.splits)

definition session_changed :: "channel \<Rightarrow> channel \<Rightarrow> bool" where
  "session_changed ch ch' =
     (sessionKey ch' \<noteq> sessionKey ch \<or> isReady ch' \<noteq> isReady ch \<or> peerIdentityKey ch' \<noteq> peerIdentityKey ch)"

lemma session_same [simp]: "\<not> session_changed ch ch" "\<not> session_changed ch (ch\<lparr>destroyed := d\<rparr>)"
  by (simp_all add: session_changed_def)

lemma set_peer_identity [simp]: "peerIdentityKey (set_peer fr ch) = field fr ''identityPublicKey''"
  by (simp add: set_peer_def)

lemma handle_init_changes:
  assumes "run_state (fst (handle_init env now frame tr ch)) = Some ch'" "session_changed ch ch'"
  shows "\<not> isInitiator ch \<and>
    fst (track (field_text frame ''nonce'') (the (or_else (remoteAddress (ce_sock env)) (Some []))) now tr) \<and>
    validatePeerIp env (field frame ''nodeAddress'') (field frame ''identityPublicKey'') = Ok True \<and>
    init_verified (ce_crypto env) frame \<and> peerIdentityKey ch' = field frame ''identityPublicKey''"
proof (cases "isInitiator ch")
  case True
  then show ?thesis using assms by (auto simp: handle_init_def)
next
  case init: False
  obtain fresh tr1 where t: "track (field_text frame ''nonce'') (the (or_else (remoteAddress (ce_sock env)) (Some []))) now tr = (fresh, tr1)"
    by fastforce
  show ?thesis
  proof (cases fresh)
    case False
    then show ?thesis using assms init t by (auto simp: handle_init_def)
  next
    case fr: True
    show ?thesis
    proof (cases "validatePeerIp env (field frame ''nodeAddress'') (field frame ''identityPublicKey'') = Ok True \<and>
        init_verified (ce_crypto env) frame")
      case True
      have "peerIdentityKey ch' = field frame ''identityPublicKey''"
        using assms(1) init t fr True
        by (auto simp: handle_init_def Let_def split: option.splits prod.splits dest: run_state_markReady)
      then show ?thesis using init t fr True by simp
    next
      case False
      then show ?thesis
        using assms init t fr
        by (auto simp: handle_init_def Let_def split: result.splits bool.splits)
    qed
  qed
qed

lemma handle_reply_changes:
  assumes "run_state (handle_reply env frame ch) = Some ch'" "session_changed ch ch'"
  shows "isInitiator ch \<and> myNonce ch \<noteq> None \<and> field frame ''nonce'' = map_option JStr (myNonce ch) \<and>
    reply_verified (ce_crypto env) frame \<and> peerIdentityKey ch' = field frame ''identityPublicKey''"
proof (cases "isInitiator ch \<and> truthy (myNonce ch) \<and> field frame ''nonce'' = map_option JStr (myNonce ch) \<and>
    reply_verified (ce_crypto env) frame")
  case True
  have "peerIdentityKey ch' = field frame ''identityPublicKey''"
    using assms(1) True
    by (auto simp: handle_reply_def Let_def split: option.splits dest: run_state_markReady)
  then show ?thesis using True by (auto simp: truthy_def)
next
  case False
  then show ?thesis using assms by (auto simp: handle_reply_def split: if_splits)
qed

lemma handle_encrypted_same: "run_state (handle_encrypted env frame ch) = Some ch' \<Longrightarrow> ch' = ch"
  by (auto simp: handle_encrypted_def split: option.splits bool.splits)

text \<open>
  C2. No session without a verified handshake: when a frame changes the session key or makes the
  channel ready, it is an INIT received by a responder, with a nonce the tracker accepted, an address
  \<open>validatePeerIp\<close> accepted and a signature that verifies under the key the frame carries; or a REPLY
  received by an initiator, with the nonce of its own INIT and such a signature. The identity key the
  channel then holds is the verified one.
\<close>

theorem session_needs_verified_handshake:
  assumes "run_state (fst (handleFrame env now frame tr ch)) = Some ch'" "session_changed ch ch'"
  shows "(\<not> isInitiator ch \<and> str_field frame ''type'' = Some ''HANDSHAKE_INIT'' \<and>
       fst (track (field_text frame ''nonce'') (the (or_else (remoteAddress (ce_sock env)) (Some []))) now tr) \<and>
       validatePeerIp env (field frame ''nodeAddress'') (field frame ''identityPublicKey'') = Ok True \<and>
       init_verified (ce_crypto env) frame \<and> peerIdentityKey ch' = field frame ''identityPublicKey'') \<or>
    (isInitiator ch \<and> str_field frame ''type'' = Some ''HANDSHAKE_REPLY'' \<and>
       myNonce ch \<noteq> None \<and> field frame ''nonce'' = map_option JStr (myNonce ch) \<and>
       reply_verified (ce_crypto env) frame \<and> peerIdentityKey ch' = field frame ''identityPublicKey'')"
proof -
  consider "str_field frame ''type'' = Some ''HANDSHAKE_INIT''" "run_state (fst (handle_init env now frame tr ch)) = Some ch'"
    | "str_field frame ''type'' = Some ''HANDSHAKE_REPLY''" "run_state (handle_reply env frame ch) = Some ch'"
    | "run_state (handle_encrypted env frame ch) = Some ch' \<or> ch' = ch"
    using assms(1) by (auto simp: handleFrame_def Let_def split: if_splits)
  then show ?thesis
  proof cases
    case 1
    then show ?thesis using handle_init_changes [OF 1(2) assms(2)] by blast
  next
    case 2
    then show ?thesis using handle_reply_changes [OF 2(2) assms(2)] by blast
  next
    case 3
    then show ?thesis using handle_encrypted_same assms(2) by fastforce
  qed
qed

section \<open>Identity of the declared address\<close>

lemma valid_node_not_ipv6:
  assumes "isValidNodeId n"
  shows "\<not> is_ipv6 n" "\<not> ends_with ''.mesh'' n"
proof -
  have nc: "c \<in> set n \<Longrightarrow> c \<noteq> CHR '':'' \<and> c \<noteq> CHR ''%'' \<and> c \<noteq> CHR ''.''" for c
    using assms by (auto simp: isValidNodeId_def list_all_iff Let_def)
  have w: "CHR '':'' \<notin> set n" using nc by blast
  have "before CHR ''%'' n = n" using nc by (auto simp: takeWhile_eq_all_conv)
  moreover have "split_dcolon n = [n]"
    using split_dcolon_word [OF w node_id_text(1) [OF assms], of "[]"] by simp
  moreover have "hextets [n] \<noteq> Some 8" by (simp add: hextets_def)
  ultimately show "\<not> is_ipv6 n" using split_on_single [OF w] by (simp add: is_ipv6_def Let_def del: takeWhile_eq_all_conv)
  show "\<not> ends_with ''.mesh'' n" using nc by (force simp: ends_with_iff)
qed

lemma node_id_lower: "node_id_of C pem = Some i \<Longrightarrow> js_lower i = i"
proof -
  assume "node_id_of C pem = Some i"
  then obtain raw where i: "i = take 16 (encode (sha256 C raw) False)"
    by (auto simp: node_id_of_def deriveNodeId_def)
  have "set (encode (sha256 C raw) False) \<subseteq> set ALPHABET" by (rule encode_chars)
  then have "set i \<subseteq> set ALPHABET" unfolding i by (meson in_set_takeD subset_iff)
  then show ?thesis by (rule lower_alphabet)
qed

text \<open>
  C14. A mesh address belongs to its key: for a declared \<open><NodeID>.mesh\<close> the check accepts exactly the
  identity keys whose derived NodeID is the declared one, whatever the network and the DNS answer.
\<close>

theorem mesh_address_bound_to_key:
  assumes "isValidNodeId n" "node_id_of (ce_crypto env) pem = Some i" "pem \<noteq> []"
  shows "validatePeerIp env (Some (JStr (n @ ''.mesh''))) (Some (JStr pem)) = Ok (n = i)"
proof -
  have n: "canonical_ip n = n" "strip_mesh n = n" "js_lower n = n"
    using valid_node_not_ipv6 [OF assms(1)] node_id_text(2) [OF assms(1)] by (simp_all add: canonical_ip_def strip_mesh_def)
  show ?thesis
    using parseTarget_mesh [OF assms(1)] node_id_text(1) [OF assms(1)] node_id_lower [OF assms(2)] n assms
    by (simp add: validatePeerIp_def Let_def)
qed

section \<open>Concrete runs\<close>

definition sample_identity :: "string \<Rightarrow> node_identity" where
  "sample_identity k = \<lparr>identityPub = k, identityPriv = k, kemPub = k, kemPriv = k, roleName = ''EDGE'',
     relayAnnounce = [], nodeAddr = Some ''localhost''\<rparr>"

definition sample_env :: "int \<Rightarrow> string \<Rightarrow> chan_env" where
  "sample_env limit k = \<lparr>ce_crypto = clear_crypto, ce_cfg = default_config\<lparr>secureBufferLimit := limit\<rparr>,
     ce_me = sample_identity k,
     ce_sock = \<lparr>remoteAddress = Some ''9.9.9.9'', realRemoteAddress = None, remotePort = Some 4000, realRemotePort = None\<rparr>,
     ce_dns = (\<lambda>_. None), ce_rnd = (\<lambda>i. [of_nat i])\<rparr>"

lemma sample_fields [simp]:
  "ce_crypto (sample_env l k) = clear_crypto" "ce_me (sample_env l k) = sample_identity k"
  "identityPub (sample_identity k) = k" "identityPriv (sample_identity k) = k"
  "kemPub (sample_identity k) = k" "kemPriv (sample_identity k) = k"
  "ce_rnd (sample_env l k) i = [of_nat i]" "max_buffer (ce_cfg (sample_env l k)) = (if l = 0 then 65536 else l)"
  "canonicalAddress (sample_identity k) = JStr ''localhost''"
  "serverName (ce_cfg (sample_env l k)) = ''localhost''" "federationPort (ce_cfg (sample_env l k)) = 8001"
  by (simp_all add: sample_env_def sample_identity_def max_buffer_def canonicalAddress_def)

lemma sample_texts [simp]:
  "l \<noteq> 0 \<Longrightarrow> init_frame (sample_env l k) n = init_frame (sample_env 0 k) n"
  "l \<noteq> 0 \<Longrightarrow> reply_frame (sample_env l k) v e = reply_frame (sample_env 0 k) v e"
  by (simp_all add: init_frame_def reply_frame_def sample_env_def)

lemma upper_bound: "\<exists>l :: int. a \<le> l \<and> b \<le> l \<and> 0 < l"
  by (rule exI [of _ "\<bar>a\<bar> + \<bar>b\<bar> + 1"]) arith

lemma sample_address: "validatePeerIp (sample_env l k) (Some (JStr ''localhost'')) (Some (JStr ''i'')) = Ok True"
proof -
  have t: "parseTarget (ce_cfg (sample_env l k)) ''localhost'' = Some (HostTarget ''localhost'' 8001 False False)"
    by (simp add: parseTarget_def ends_with_def isValidNodeId_def starts_with_def colon_count_def Let_def)
  have c: "canonical_ip ''localhost'' = ''localhost''"
    by (simp add: canonical_ip_def is_ipv6_def Let_def hextets_def)
  show ?thesis
    by (simp add: validatePeerIp_def t c Let_def ends_with_def isValidNodeId_def is_loopback_def node_id_of_def
        clear_crypto_def)
qed

theorem mesh_address_bound_to_key_witness:
  "validatePeerIp (sample_env 0 ''i'') (Some (JStr (''abcdefgh23456722'' @ ''.mesh''))) (Some (JStr ''p'')) =
    Ok (''abcdefgh23456722'' = deriveNodeId (sha256 clear_crypto) (pad32 (utf8 ''p'')))"
proof -
  have v: "isValidNodeId ''abcdefgh23456722''" by code_simp
  have i: "node_id_of (ce_crypto (sample_env 0 ''i'')) ''p'' = Some (deriveNodeId (sha256 clear_crypto) (pad32 (utf8 ''p'')))"
    by (simp add: node_id_of_def) (simp add: clear_crypto_def)
  show ?thesis by (rule mesh_address_bound_to_key [OF v i]) simp
qed

theorem handshake_agrees_witness:
  "\<exists>limit i0 r0 r1 i1 effsI effsR effs1 effs2 K.
    open_channel (sample_env limit ''i'') True ''n'' 0 = (i0, effsI) \<and>
    open_channel (sample_env limit ''r'') False [] 0 = (r0, effsR) \<and>
    on_chunk (sample_env limit ''r'') 5 (utf8 (sent_text effsI)) (new_store 60000 100) r0 =
      Some (r1, effs1, snd (track ''n'' ''9.9.9.9'' 5 (new_store 60000 100))) \<and>
    on_chunk (sample_env limit ''i'') 6 (utf8 (sent_text effs1)) (new_store 60000 100) i0 =
      Some (i1, effs2, new_store 60000 100) \<and>
    sessionKey r1 = Some K \<and> sessionKey i1 = Some K"
proof -
  let ?I = "frame_text (init_frame (sample_env 0 ''i'') ''n'')"
  let ?R = "frame_text (reply_frame (sample_env 0 ''r'') (Some (JStr ''n'')) (b64_encode [0]))"
  obtain limit where limit: "int (byteLength ?I) \<le> limit" "int (byteLength ?R) \<le> limit" "0 < limit"
    using upper_bound by blast
  have enc: "encapsulateKey clear_crypto [0] ''i'' = Some (pad32 [0], b64_encode [0])"
    by (simp add: encapsulateKey_def kem_key_def KEM_ALGO_def clear_crypto_def)
  have tr: "track ''n'' (the (or_else (remoteAddress (ce_sock (sample_env limit ''r''))) (Some []))) 5 (new_store 60000 100) =
      (True, snd (track ''n'' ''9.9.9.9'' 5 (new_store 60000 100)))"
    by (simp add: sample_env_def or_else_def track_def nonce_cleanup_def evict_oldest_def new_store_def Let_def)
  have enc': "encapsulateKey clear_crypto (ce_rnd (sample_env limit ''r'') 0) (kemPub (ce_me (sample_env limit ''i''))) =
      Some (pad32 [0], b64_encode [0])"
    using enc by simp
  obtain i0 effsI where oi: "open_channel (sample_env limit ''i'') True ''n'' 0 = (i0, effsI)" by fastforce
  obtain r0 effsR where or: "open_channel (sample_env limit ''r'') False [] 0 = (r0, effsR)" by fastforce
  have "\<exists>r1 i1 effs1 effs2 K.
    on_chunk (sample_env limit ''r'') 5 (utf8 (sent_text effsI)) (new_store 60000 100) r0 =
      Some (r1, effs1, snd (track ''n'' ''9.9.9.9'' 5 (new_store 60000 100))) \<and>
    on_chunk (sample_env limit ''i'') 6 (utf8 (sent_text effs1)) (new_store 60000 100) i0 =
      Some (i1, effs2, new_store 60000 100) \<and>
    isReady r1 \<and> isReady i1 \<and> sessionKey r1 = Some K \<and> sessionKey i1 = Some K \<and>
    peerIdentityKey r1 = Some (JStr (identityPub (ce_me (sample_env limit ''i'')))) \<and>
    peerIdentityKey i1 = Some (JStr (identityPub (ce_me (sample_env limit ''r''))))"
    by (rule handshake_agrees [where C = clear_crypto and secret = "pad32 [0]" and ct = "b64_encode [0]",
          OF _ _ _ _ _ enc' _ tr _ _ _ oi or])
       (use limit in \<open>simp_all add: clear_sign clear_kem enc sample_address\<close>)
  with oi or show ?thesis by blast
qed


theorem channel_safe_witness:
  "chan_step (sample_env 100 ''r'') 7 (SendPayload JNull) (new_store 60000 100)
     (snd (fold (chan_next (sample_env 100 ''r'')) [(1, HandshakeTimeout), (2, SendPayload JNull)]
        (new_store 60000 100, new_channel False 0))) \<noteq> None"
proof -
  let ?env = "sample_env 100 ''r''"
  obtain tr ch where f: "fold (chan_next ?env) [(1, HandshakeTimeout), (2, SendPayload JNull)]
      (new_store 60000 100, new_channel False 0) = (tr, ch)" by fastforce
  have "chan_step ?env 7 (SendPayload JNull) (new_store 60000 100) ch \<noteq> None"
  proof (rule channel_safe [THEN conjunct1])
    show "0 \<le> secureBufferLimit (ce_cfg ?env)" by (simp add: sample_env_def)
    show "open_channel ?env False [] 0 = (new_channel False 0, [])" by (simp add: open_channel_def)
    show "fold (chan_next ?env) [(1, HandshakeTimeout), (2, SendPayload JNull)] (new_store 60000 100, new_channel False 0) =
        (new_store 60000 100, ch)"
      using f by (simp add: chan_next_def chan_step_def writePayload_def new_channel_def)
  qed
  with f show ?thesis by simp
qed

theorem session_needs_verified_handshake_witness:
  "init_verified clear_crypto (init_frame (sample_env 0 ''i'') ''n'')"
proof -
  let ?env = "sample_env 0 ''r''" and ?fr = "init_frame (sample_env 0 ''i'') ''n''"
  let ?K = "transport_key clear_crypto (pad32 [0]) ''n''"
  let ?ch = "(set_peer ?fr (new_channel False 0))\<lparr>draws := 1, sessionKey := Some ?K, isReady := True\<rparr>"
  have enc: "encapsulateKey clear_crypto [0] ''i'' = Some (pad32 [0], b64_encode [0])"
    by (simp add: encapsulateKey_def kem_key_def KEM_ALGO_def clear_crypto_def)
  obtain t1 where tr: "track ''n'' (the (or_else (remoteAddress (ce_sock ?env)) (Some []))) 5 (new_store 60000 100) = (True, t1)"
    by (simp add: sample_env_def or_else_def track_def nonce_cleanup_def evict_oldest_def new_store_def Let_def)
  have ver: "init_verified clear_crypto ?fr" by (rule init_frame_verified) (simp_all add: clear_sign)
  have "run_state (fst (handleFrame ?env 5 ?fr (new_store 60000 100) (new_channel False 0))) = Some ?ch"
    using tr ver enc
    by (simp add: handleFrame_def Let_def init_frame_fields)
      (simp add: handle_init_def init_frame_fields field_text_def str_field_def sample_address
        salt_of_def new_channel_def markReady_empty set_peer_def)
  moreover have "session_changed (new_channel False 0) ?ch" by (simp add: session_changed_def new_channel_def)
  ultimately show ?thesis
    using session_needs_verified_handshake [of ?env 5 ?fr "new_store 60000 100" "new_channel False 0" ?ch]
    by (simp add: init_frame_fields)
qed

end
