(* ===== verification/PeerManager.thy ===== *)
theory PeerManager
  imports Channel "HOL-Library.Multiset"
begin

text \<open>
  \<open>src/core/peerManager.js\<close>: the pool of known peers with their scores, the filters that keep this
  node, loopback hosts and known edge hosts out of it, the eviction at 250 entries, the gossip rule,
  the LAN beacon and the random sample. The pool is an insertion-ordered map; the addresses of the
  machine's interfaces and the random numbers are arguments. Writing the cache file is I/O and left
  out, reading it is \<open>loadPeers\<close> on the parsed entries.
\<close>

section \<open>State\<close>

record peer_meta =
  score :: int
  lastSeen :: int
  failures :: int
  fromGossip :: bool

record peer_state =
  peers :: "(string, peer_meta) jsmap"
  publicIp :: "string option"
  edgeIps :: "string list"
  selfNodeAddress :: string

record peer_env =
  pe_cfg :: config
  pe_interfaces :: "string list"

definition pub_port :: "config \<Rightarrow> int" where
  "pub_port cfg = (if publicFederationPort cfg = 0 then federationPort cfg else publicFederationPort cfg)"

definition new_peers :: "peer_env \<Rightarrow> peer_state" where
  "new_peers env =
     \<lparr>peers = [], publicIp = None, edgeIps = [],
      selfNodeAddress = serverName (pe_cfg env) @ '':'' @ show_int (pub_port (pe_cfg env))\<rparr>"

text \<open>\<open>const [host, portStr] = addr.split(':')\<close> and \<open>parseInt(portStr, 10)\<close>.\<close>

definition addr_host :: "string \<Rightarrow> string" where
  "addr_host addr = before CHR '':'' addr"

definition addr_port :: "string \<Rightarrow> int option" where
  "addr_port addr = Option.bind (second_part CHR '':'' addr) (parse_int 10)"

section \<open>Filters\<close>

definition isSelfAddress :: "peer_env \<Rightarrow> peer_state \<Rightarrow> string \<Rightarrow> int option \<Rightarrow> bool" where
  "isSelfAddress env st host port =
     (if port \<noteq> Some (federationPort (pe_cfg env)) \<and> port \<noteq> Some (pub_port (pe_cfg env)) then False
      else host = serverName (pe_cfg env) \<or>
        host \<in> {''localhost'', ''127.0.0.1'', ''::1'', ''::ffff:127.0.0.1'', ''0.0.0.0''} \<or>
        (truthy (publicIp st) \<and> (Some host = publicIp st \<or> host = ''::ffff:'' @ the (publicIp st))) \<or>
        list_ex (\<lambda>a. remove_first ''::ffff:'' a = host \<or> a = host) (pe_interfaces env))"

definition blocked_host :: "string \<Rightarrow> bool" where
  "blocked_host h = (h \<in> {''localhost'', ''127.0.0.1'', ''::1'', ''0.0.0.0'', ''255.255.255.255''})"

definition evictHost :: "string \<Rightarrow> peer_state \<Rightarrow> peer_state" where
  "evictHost host st =
     (if host = [] then st
      else st\<lparr>peers := filter (\<lambda>(addr, _). \<not> (CHR '':'' \<in> set addr \<and>
             strip_v4mapped (addr_host addr) = strip_v4mapped host)) (peers st)\<rparr>)"

definition registerEdgeIp :: "string \<Rightarrow> peer_state \<Rightarrow> peer_state" where
  "registerEdgeIp ip st =
     (if ip = [] then st
      else let cleanIp = strip_v4mapped ip
           in evictHost cleanIp (st\<lparr>edgeIps := js_add cleanIp (edgeIps st)\<rparr>))"

definition setPublicIp :: "peer_env \<Rightarrow> string \<Rightarrow> peer_state \<Rightarrow> peer_state" where
  "setPublicIp env ip st =
     (if ip = [] then st
      else let st1 = st\<lparr>publicIp := Some ip, selfNodeAddress := ip @ '':'' @ show_int (pub_port (pe_cfg env))\<rparr>
           in st1\<lparr>peers := filter (\<lambda>(addr, _). CHR '':'' \<in> set addr \<and>
                    \<not> isSelfAddress env st1 (addr_host addr) (addr_port addr)) (peers st1)\<rparr>)"

definition load_entry :: "peer_env \<Rightarrow> string \<times> peer_meta \<Rightarrow> peer_state \<Rightarrow> peer_state" where
  "load_entry env entry st =
     (case entry of (addr, meta) \<Rightarrow>
        if CHR '':'' \<notin> set addr then st
        else
          let host = addr_host addr; cleanHost = strip_v4mapped host
          in if \<not> isSelfAddress env st host (addr_port addr) \<and> \<not> blocked_host cleanHost \<and>
                cleanHost \<notin> set (edgeIps st) \<and> host \<notin> set (edgeIps st) \<and>
                \<not> (failures meta \<ge> 3 \<or> score meta \<le> 0)
             then st\<lparr>peers := jm_set addr meta (peers st)\<rparr> else st)"

definition loadPeers :: "peer_env \<Rightarrow> (string \<times> peer_meta) list \<Rightarrow> peer_state \<Rightarrow> peer_state" where
  "loadPeers env raw st = fold (load_entry env) raw st"

section \<open>Adding and scoring\<close>

definition peer_capacity :: nat where
  "peer_capacity = 250"

text \<open>The first key with the lowest score.\<close>

fun lowest :: "(string, peer_meta) jsmap \<Rightarrow> (string \<times> int) option" where
  "lowest [] = None"
| "lowest ((k, v) # m) =
     (case lowest m of
        None \<Rightarrow> Some (k, score v)
      | Some (k', s') \<Rightarrow> if s' < score v then Some (k', s') else Some (k, score v))"

definition make_room :: "string \<Rightarrow> (string, peer_meta) jsmap \<Rightarrow> (string, peer_meta) jsmap" where
  "make_room addr m =
     (if length m \<ge> peer_capacity \<and> \<not> jm_has m addr
      then (case lowest m of Some (k, _) \<Rightarrow> if k \<noteq> [] then jm_delete k m else m | None \<Rightarrow> m)
      else m)"

definition admissible :: "peer_env \<Rightarrow> peer_state \<Rightarrow> string \<Rightarrow> bool" where
  "admissible env st addr =
     (let host = addr_host addr; cleanHost = strip_v4mapped host
      in CHR '':'' \<in> set addr \<and> host \<noteq> [] \<and>
         (case addr_port addr of None \<Rightarrow> False | Some p \<Rightarrow> 0 < p \<and> p \<le> 65535) \<and>
         \<not> blocked_host cleanHost \<and> \<not> isSelfAddress env st host (addr_port addr) \<and>
         cleanHost \<notin> set (edgeIps st) \<and> host \<notin> set (edgeIps st))"

definition rescore :: "bool \<Rightarrow> bool \<Rightarrow> int \<Rightarrow> peer_meta \<Rightarrow> peer_meta" where
  "rescore success gossip now current =
     (if success
      then (if gossip then current\<lparr>score := 60, failures := 0, fromGossip := True, lastSeen := now\<rparr>
            else current\<lparr>score := 100, failures := 0, fromGossip := False, lastSeen := now\<rparr>)
      else current\<lparr>score := score current - 5, failures := failures current + 1\<rparr>)"

definition addOrUpdate :: "peer_env \<Rightarrow> int \<Rightarrow> string \<Rightarrow> bool \<Rightarrow> bool \<Rightarrow> peer_state \<Rightarrow> peer_state" where
  "addOrUpdate env now addr success gossip st =
     (if \<not> admissible env st addr then st
      else
        let isBootstrap = addr \<in> set (bootstrapPeers (pe_cfg env));
            m = make_room addr (peers st);
            current = (case jm_get m addr of Some c \<Rightarrow> c
                       | None \<Rightarrow> \<lparr>score = (if gossip then 60 else 100), lastSeen = now, failures = 0,
                                  fromGossip = gossip\<rparr>)
        in if success \<and> gossip \<and> jm_has m addr
           then st\<lparr>peers := jm_set addr (current\<lparr>lastSeen := now\<rparr>) m\<rparr>
           else
             let c = rescore success gossip now current
             in if \<not> isBootstrap \<and> (score c \<le> 0 \<or> failures c \<ge> 10 \<or> (fromGossip c \<and> failures c \<ge> 1))
                then st\<lparr>peers := jm_delete addr m\<rparr>
                else st\<lparr>peers := jm_set addr c m\<rparr>)"

section \<open>Sampling and beacons\<close>

text \<open>The Fisher-Yates loop; \<open>rnd i\<close> is the random index drawn at position \<open>i\<close>, at most \<open>i\<close>.\<close>

fun shuffle :: "(nat \<Rightarrow> nat) \<Rightarrow> nat \<Rightarrow> 'a list \<Rightarrow> 'a list" where
  "shuffle rnd 0 xs = xs"
| "shuffle rnd (Suc i) xs =
     (let j = rnd (Suc i)
      in shuffle rnd i (xs[Suc i := xs ! j, j := xs ! Suc i]))"

definition getRandomSample :: "(nat \<Rightarrow> nat) \<Rightarrow> nat \<Rightarrow> peer_state \<Rightarrow> string list" where
  "getRandomSample rnd k st =
     (let list = map fst (filter (\<lambda>(_, meta). failures meta = 0 \<and> score meta \<ge> 80) (peers st))
      in take k (shuffle rnd (length list - 1) list))"

definition getAllPeers :: "peer_state \<Rightarrow> string list" where
  "getAllPeers st = jm_keys (peers st)"

definition beacon :: "peer_env \<Rightarrow> int \<Rightarrow> peer_state \<Rightarrow> json" where
  "beacon env now st =
     JObj [(''type'', JStr ''P2P_BEACON''), (''nodeAddress'', JStr (selfNodeAddress st)),
           (''port'', JNum (pub_port (pe_cfg env))), (''timestamp'', JNum now)]"

text \<open>
  The UDP listener: at most 512 bytes, an opening brace, this node's own beacon ignored. The port is
  the raw JSON value; only a number can be this node's port.
\<close>

definition on_beacon :: "peer_env \<Rightarrow> int \<Rightarrow> byte list \<Rightarrow> string \<Rightarrow> peer_state \<Rightarrow> peer_state" where
  "on_beacon env now msg source st =
     (if length msg > 512 \<or> length msg < 2 \<or> hd msg \<noteq> 0x7B then st
      else case json_parse (from_utf8 msg) of
             None \<Rightarrow> st
           | Some payload \<Rightarrow>
               if field payload ''nodeAddress'' = Some (JStr (selfNodeAddress st)) \<or>
                  field payload ''nodeAddress'' =
                    Some (JStr (serverName (pe_cfg env) @ '':'' @ show_int (federationPort (pe_cfg env))))
               then st
               else if str_field payload ''type'' = Some ''P2P_BEACON'' \<and> truthy_field payload ''port''
               then let cleanIp = remove_first ''::ffff:'' source;
                        port = (case field payload ''port'' of Some (JNum p) \<Rightarrow> Some p | _ \<Rightarrow> None)
                    in if isSelfAddress env st cleanIp port then st
                       else addOrUpdate env now (cleanIp @ '':'' @ field_text payload ''port'') True False st
               else st)"

section \<open>The pool's invariant\<close>

text \<open>
  An address may be in the pool: it has a port part, its host is neither a loopback name nor this
  node, nor (unless it is empty, which only a stored file can bring) a known edge host.
\<close>

definition key_ok :: "peer_env \<Rightarrow> peer_state \<Rightarrow> string \<Rightarrow> bool" where
  "key_ok env st a =
     (CHR '':'' \<in> set a \<and> \<not> blocked_host (addr_host a) \<and>
      \<not> isSelfAddress env st (addr_host a) (addr_port a) \<and>
      (addr_host a = [] \<or> addr_host a \<notin> set (edgeIps st)))"

definition pool_ok :: "peer_env \<Rightarrow> peer_state \<Rightarrow> bool" where
  "pool_ok env st =
     (jm_ok (peers st) \<and> length (peers st) \<le> peer_capacity \<and> (\<forall>a \<in> set (jm_keys (peers st)). key_ok env st a))"

lemma host_no_colon: "CHR '':'' \<notin> set (addr_host a)"
  by (simp add: addr_host_def before_no_sep)

lemma host_clean [simp]: "strip_v4mapped (addr_host a) = addr_host a"
proof -
  have "\<not> starts_with ''::ffff:'' (addr_host a)"
    using host_no_colon [of a] by (auto simp: starts_with_iff)
  then show ?thesis by (simp add: strip_prefix_def)
qed

lemma isSelf_peers [simp]: "isSelfAddress env (st\<lparr>peers := m\<rparr>) = isSelfAddress env st"
  by (intro ext) (simp add: isSelfAddress_def)

lemma isSelf_edge [simp]: "isSelfAddress env (st\<lparr>edgeIps := m\<rparr>) = isSelfAddress env st"
  by (intro ext) (simp add: isSelfAddress_def)

lemma lowest_mem: "lowest m = Some (k, s) \<Longrightarrow> k \<in> fst ` set m"
  by (induction m arbitrary: k s) (auto split: option.splits if_splits)

lemma lowest_exists: "m \<noteq> [] \<Longrightarrow> lowest m \<noteq> None"
  by (cases m) (auto split: option.splits)

lemma lowest_least: "lowest m = Some (k, s) \<Longrightarrow> (a, v) \<in> set m \<Longrightarrow> s \<le> score v"
proof (induction m arbitrary: k s)
  case (Cons p m)
  obtain k1 v1 where p: "p = (k1, v1)" by (cases p)
  show ?case
  proof (cases "lowest m")
    case None
    then have "m = []" using lowest_exists by blast
    then show ?thesis using Cons.prems p by auto
  next
    case (Some q)
    obtain k2 s2 where q: "q = (k2, s2)" by (cases q)
    show ?thesis using Cons.IH [of k2 s2] Cons.prems Some p q by (auto split: if_splits)
  qed
qed simp

lemma make_room_sub: "set (make_room a m) \<subseteq> set m"
  by (auto simp: make_room_def jm_delete_mem split: option.splits)

lemma make_room_ok: "jm_ok m \<Longrightarrow> jm_ok (make_room a m)"
  by (auto simp: make_room_def split: option.splits)

lemma make_room_length:
  assumes "jm_ok m" "length m \<le> peer_capacity" "\<forall>k \<in> fst ` set m. k \<noteq> []"
  shows "length (jm_set a c (make_room a m)) \<le> peer_capacity"
proof (cases "length m \<ge> peer_capacity \<and> \<not> jm_has m a")
  case True
  then have "m \<noteq> []" by (auto simp: peer_capacity_def)
  then obtain k s where k: "lowest m = Some (k, s)" using lowest_exists by fastforce
  then have kin: "k \<in> fst ` set m" by (rule lowest_mem)
  then have "jm_has m k" by (simp add: jm_has_iff)
  then have "length (jm_delete k m) < length m" by (rule jm_delete_less)
  moreover have "make_room a m = jm_delete k m"
    using True k kin assms(3) by (auto simp: make_room_def)
  ultimately show ?thesis using assms(2) by (simp add: length_jm_set)
next
  case False
  then have "make_room a m = m" by (auto simp: make_room_def)
  then show ?thesis using False assms(2) by (auto simp: length_jm_set)
qed

lemma keys_of_set: "a \<in> set (jm_keys (jm_set k v m)) \<Longrightarrow> a = k \<or> a \<in> set (jm_keys m)"
  by (metis insert_iff jm_set_keys)

lemma addOrUpdate_frame:
  "publicIp (addOrUpdate env now a s g st) = publicIp st \<and> edgeIps (addOrUpdate env now a s g st) = edgeIps st \<and>
   selfNodeAddress (addOrUpdate env now a s g st) = selfNodeAddress st"
  by (simp add: addOrUpdate_def Let_def)

lemma addOrUpdate_peers:
  "addOrUpdate env now a s g st = st \<or>
   (admissible env st a \<and>
    (\<exists>c. addOrUpdate env now a s g st = st\<lparr>peers := jm_set a c (make_room a (peers st))\<rparr>)) \<or>
   (admissible env st a \<and> addOrUpdate env now a s g st = st\<lparr>peers := jm_delete a (make_room a (peers st))\<rparr>)"
  unfolding addOrUpdate_def Let_def by (auto split: if_splits)

lemma key_ok_peers [simp]: "key_ok env (st\<lparr>peers := m\<rparr>) = key_ok env st"
  by (intro ext) (simp add: key_ok_def)

lemma admissible_key: "admissible env st a \<Longrightarrow> key_ok env st a"
  by (simp add: admissible_def key_ok_def Let_def)

lemma pool_ok_change:
  assumes "pool_ok env st" "jm_ok m" "length m \<le> peer_capacity"
    "\<And>k. k \<in> set (jm_keys m) \<Longrightarrow> k \<in> set (jm_keys (peers st)) \<or> key_ok env st k"
  shows "pool_ok env (st\<lparr>peers := m\<rparr>)"
proof -
  have "\<forall>k \<in> set (jm_keys m). key_ok env st k"
    using assms(1,4) unfolding pool_ok_def by blast
  then show ?thesis using assms(2,3) by (simp add: pool_ok_def)
qed

lemma pool_ok_add:
  assumes "pool_ok env st"
  shows "pool_ok env (addOrUpdate env now a s g st)"
proof -
  let ?m = "make_room a (peers st)"
  have sub: "k \<in> set (jm_keys ?m) \<Longrightarrow> k \<in> set (jm_keys (peers st))" for k
    using make_room_sub by fastforce
  have ne: "\<forall>k \<in> fst ` set (peers st). k \<noteq> []"
    using assms by (force simp: pool_ok_def key_ok_def)
  have okm: "jm_ok ?m" using assms make_room_ok by (simp add: pool_ok_def)
  from addOrUpdate_peers [of env now a s g st] show ?thesis
  proof (elim disjE conjE exE)
    assume "addOrUpdate env now a s g st = st"
    then show ?thesis using assms by simp
  next
    fix c assume adm: "admissible env st a"
      and eq: "addOrUpdate env now a s g st = st\<lparr>peers := jm_set a c ?m\<rparr>"
    have "length (jm_set a c ?m) \<le> peer_capacity"
      by (rule make_room_length) (use assms ne in \<open>auto simp: pool_ok_def\<close>)
    moreover have "k \<in> set (jm_keys (jm_set a c ?m)) \<Longrightarrow> k \<in> set (jm_keys (peers st)) \<or> key_ok env st k" for k
      using keys_of_set [of k a c ?m] sub [of k] admissible_key [OF adm] by blast
    ultimately show ?thesis
      unfolding eq by (rule pool_ok_change [OF assms jm_ok_set [OF okm]])
  next
    assume eq: "addOrUpdate env now a s g st = st\<lparr>peers := jm_delete a ?m\<rparr>"
    have "length ?m \<le> length (peers st)"
      by (auto simp: make_room_def length_jm_delete_le split: option.splits)
    then have len: "length (jm_delete a ?m) \<le> peer_capacity"
      using assms length_jm_delete_le [of a ?m] by (simp add: pool_ok_def)
    have "k \<in> set (jm_keys (jm_delete a ?m)) \<Longrightarrow> k \<in> set (jm_keys (peers st))" for k
    proof -
      assume "k \<in> set (jm_keys (jm_delete a ?m))"
      then have "k \<in> set (jm_keys ?m)" by (force simp: jm_delete_mem)
      then show "k \<in> set (jm_keys (peers st))" by (rule sub)
    qed
    then show ?thesis
      unfolding eq by (rule pool_ok_change [OF assms jm_ok_delete [OF okm] len, OF disjI1])
  qed
qed

lemma pool_ok_filter:
  assumes "jm_ok (peers st)" "length (peers st) \<le> peer_capacity"
    "\<And>a v. (a, v) \<in> set (peers st) \<Longrightarrow> P (a, v) \<Longrightarrow> key_ok env st' a"
  shows "pool_ok env (st'\<lparr>peers := filter P (peers st)\<rparr>)"
proof -
  have "length (filter P (peers st)) \<le> peer_capacity" using assms(2) length_filter_le le_trans by blast
  then show ?thesis using assms by (auto simp: pool_ok_def)
qed

lemma pool_ok_edge:
  assumes "pool_ok env st"
  shows "pool_ok env (registerEdgeIp ip st)"
proof (cases "ip = []")
  case True
  then show ?thesis using assms by (simp add: registerEdgeIp_def)
next
  case False
  let ?c = "strip_v4mapped ip"
  let ?st = "st\<lparr>edgeIps := js_add ?c (edgeIps st)\<rparr>"
  have keys: "\<And>a v. (a, v) \<in> set (peers st) \<Longrightarrow> key_ok env st a" using assms by (force simp: pool_ok_def)
  show ?thesis
  proof (cases "?c = []")
    case True
    have "key_ok env ?st a" if "key_ok env st a" for a using that True by (auto simp: key_ok_def)
    then show ?thesis
      using assms False True by (auto simp: registerEdgeIp_def evictHost_def pool_ok_def)
  next
    case c: False
    have hc: "addr_host a = ?c \<Longrightarrow> strip_v4mapped ?c = ?c" for a by (metis host_clean)
    have "pool_ok env (?st\<lparr>peers := filter (\<lambda>(addr, _). \<not> (CHR '':'' \<in> set addr \<and>
             strip_v4mapped (addr_host addr) = strip_v4mapped ?c)) (peers st)\<rparr>)"
      by (rule pool_ok_filter) (use assms keys hc in \<open>auto simp: pool_ok_def key_ok_def\<close>)
    then show ?thesis using False c by (simp add: registerEdgeIp_def evictHost_def Let_def)
  qed
qed

lemma pool_ok_public:
  assumes "pool_ok env st"
  shows "pool_ok env (setPublicIp env ip st)"
proof (cases "ip = []")
  case False
  let ?st1 = "st\<lparr>publicIp := Some ip, selfNodeAddress := ip @ '':'' @ show_int (pub_port (pe_cfg env))\<rparr>"
  have keys: "\<And>a v. (a, v) \<in> set (peers st) \<Longrightarrow> key_ok env st a" using assms by (force simp: pool_ok_def)
  have "pool_ok env (?st1\<lparr>peers := filter (\<lambda>(addr, _). CHR '':'' \<in> set addr \<and>
      \<not> isSelfAddress env ?st1 (addr_host addr) (addr_port addr)) (peers st)\<rparr>)"
    by (rule pool_ok_filter) (use assms keys in \<open>auto simp: pool_ok_def key_ok_def\<close>)
  then show ?thesis using False by (simp add: setPublicIp_def Let_def)
qed (use assms in \<open>simp add: setPublicIp_def\<close>)

lemma pool_ok_beacon: "pool_ok env st \<Longrightarrow> pool_ok env (on_beacon env now msg src st)"
  by (auto simp: on_beacon_def Let_def pool_ok_add split: option.splits)

datatype peer_event =
    PeerSeen int string bool bool
  | EdgeIp string
  | EvictHost string
  | PublicIp string
  | Beacon int "byte list" string

definition peer_step :: "peer_env \<Rightarrow> peer_event \<Rightarrow> peer_state \<Rightarrow> peer_state" where
  "peer_step env e st =
     (case e of
        PeerSeen now a s g \<Rightarrow> addOrUpdate env now a s g st
      | EdgeIp ip \<Rightarrow> registerEdgeIp ip st
      | EvictHost h \<Rightarrow> evictHost h st
      | PublicIp ip \<Rightarrow> setPublicIp env ip st
      | Beacon now msg src \<Rightarrow> on_beacon env now msg src st)"

lemma pool_ok_evict: "pool_ok env st \<Longrightarrow> pool_ok env (evictHost h st)"
proof (cases "h = []")
  case False
  assume ok: "pool_ok env st"
  have "pool_ok env (st\<lparr>peers := filter (\<lambda>(addr, _). \<not> (CHR '':'' \<in> set addr \<and>
      strip_v4mapped (addr_host addr) = strip_v4mapped h)) (peers st)\<rparr>)"
    by (rule pool_ok_filter) (use ok in \<open>force simp: pool_ok_def\<close>)+
  then show ?thesis using False by (simp add: evictHost_def)
qed (simp add: evictHost_def)

interpretation pool: keeps_invariant "peer_step env" "pool_ok env" for env
  by unfold_locales
    (auto simp: peer_step_def pool_ok_add pool_ok_edge pool_ok_evict pool_ok_public pool_ok_beacon split: peer_event.splits)


text \<open>
  Gossip cannot help a known peer: hearing about it from a third party changes neither its
  score, nor its failures, nor any other peer; a peer known only by gossip is dropped at its first
  failure.
\<close>

theorem gossip_cannot_improve:
  assumes "jm_get (peers st) a = Some c"
  shows "(\<exists>c'. jm_get (peers (addOrUpdate env now a True True st)) a = Some c' \<and>
      score c' = score c \<and> failures c' = failures c \<and> fromGossip c' = fromGossip c) \<and>
    (k \<noteq> a \<longrightarrow> jm_get (peers (addOrUpdate env now a True True st)) k = jm_get (peers st) k) \<and>
    (admissible env st a \<longrightarrow> fromGossip c \<longrightarrow> failures c \<ge> 0 \<longrightarrow> a \<notin> set (bootstrapPeers (pe_cfg env)) \<longrightarrow>
      jm_get (peers (addOrUpdate env now a False g st)) a = None)"
proof -
  have h: "jm_has (peers st) a" using assms by (simp add: jm_has_def)
  then have m: "make_room a (peers st) = peers st" by (simp add: make_room_def)
  show ?thesis
    using assms h m by (auto simp: addOrUpdate_def rescore_def Let_def jsmap_simps)
qed

lemma shuffle_mset: "i < length xs \<or> i = 0 \<Longrightarrow> (\<forall>n. rnd n \<le> n) \<Longrightarrow> mset (shuffle rnd i xs) = mset xs"
proof (induction rnd i xs rule: shuffle.induct)
  case (2 rnd i xs)
  let ?j = "rnd (Suc i)"
  have j: "?j \<le> Suc i" using 2(3) by blast
  have len: "Suc i < length xs" using 2(2) by simp
  have "mset (xs[Suc i := xs ! ?j, ?j := xs ! Suc i]) = mset xs"
    using len j mset_swap [of ?j xs "Suc i"] by simp
  then show ?case using 2 len by (simp add: Let_def)
qed simp

text \<open>
  The random sample is a selection without repetition of at most \<open>k\<close> peers that have no failure
  and a score of at least 80, for every way the random indices fall within their range.
\<close>

theorem sample_selects_healthy_peers:
  assumes "\<forall>n. rnd n \<le> n" "jm_ok (peers st)"
  shows "length (getRandomSample rnd k st) \<le> k \<and> distinct (getRandomSample rnd k st) \<and>
    (\<forall>a \<in> set (getRandomSample rnd k st).
       \<exists>m. jm_get (peers st) a = Some m \<and> failures m = 0 \<and> score m \<ge> 80)"
proof -
  let ?l = "map fst (filter (\<lambda>(_, meta). failures meta = 0 \<and> score meta \<ge> 80) (peers st))"
  let ?s = "shuffle rnd (length ?l - 1) ?l"
  have m: "mset ?s = mset ?l" by (rule shuffle_mset) (use assms(1) in auto)
  have "distinct ?l" using assms(2) unfolding jm_ok_def by (rule distinct_map_filter)
  then have d: "distinct ?s" using mset_eq_imp_distinct_iff [OF m] by blast
  have healthy: "\<exists>m. jm_get (peers st) a = Some m \<and> failures m = 0 \<and> score m \<ge> 80" if "a \<in> set ?l" for a
  proof -
    from that obtain m where "(a, m) \<in> set (peers st)" "failures m = 0" "score m \<ge> 80" by auto
    then show ?thesis using assms(2) map_of_is_SomeI [of "peers st" a m] by (auto simp: jm_ok_def)
  qed
  have sub: "set (take k ?s) \<subseteq> set ?l"
    using set_take_subset [of k ?s] mset_eq_setD [OF m] by blast
  have "getRandomSample rnd k st = take k ?s" by (simp add: getRandomSample_def Let_def)
  moreover have "length (take k ?s) \<le> k" "distinct (take k ?s)" using d by simp_all
  moreover have "\<forall>a \<in> set (take k ?s). \<exists>m. jm_get (peers st) a = Some m \<and> failures m = 0 \<and> score m \<ge> 80"
    using sub healthy by blast
  ultimately show ?thesis by presburger
qed


theorem gossip_cannot_improve_witness:
  "\<exists>c. jm_get (peers (addOrUpdate \<lparr>pe_cfg = default_config, pe_interfaces = []\<rparr> 9 ''h:1'' True True
      \<lparr>peers = [(''h:1'', \<lparr>score = 5, lastSeen = 1, failures = 4, fromGossip = False\<rparr>)], publicIp = None,
       edgeIps = [], selfNodeAddress = []\<rparr>)) ''h:1'' = Some c \<and> score c = 5 \<and> failures c = 4"
  using gossip_cannot_improve [of "\<lparr>peers = [(''h:1'', \<lparr>score = 5, lastSeen = 1, failures = 4, fromGossip = False\<rparr>)],
      publicIp = None, edgeIps = [], selfNodeAddress = []\<rparr>" "''h:1''"]
  by fastforce

theorem sample_selects_healthy_peers_witness:
  "length (getRandomSample (\<lambda>n. 0) 1
     \<lparr>peers = [(''h:1'', \<lparr>score = 100, lastSeen = 1, failures = 0, fromGossip = False\<rparr>),
               (''h:2'', \<lparr>score = 100, lastSeen = 1, failures = 0, fromGossip = False\<rparr>)],
      publicIp = None, edgeIps = [], selfNodeAddress = []\<rparr>) \<le> 1"
  using sample_selects_healthy_peers [of "\<lambda>n. 0"
      "\<lparr>peers = [(''h:1'', \<lparr>score = 100, lastSeen = 1, failures = 0, fromGossip = False\<rparr>),
               (''h:2'', \<lparr>score = 100, lastSeen = 1, failures = 0, fromGossip = False\<rparr>)],
      publicIp = None, edgeIps = [], selfNodeAddress = []\<rparr>" 1]
  by (simp add: jm_ok_def)

end
