(* ===== verification/Database.thy ===== *)
theory Database
  imports Channel Complex_Main
begin

text \<open>
  \<open>src/storage/database.js\<close>: the tables as lists of rows in row-id order and each statement as the
  function it computes. \<open>INSERT OR REPLACE\<close> removes the old row and appends, \<open>INSERT OR IGNORE\<close>
  keeps the old one, \<open>ON CONFLICT DO UPDATE\<close> changes it in place. Where a query leaves the order of
  its rows open (\<open>LIMIT\<close> without \<open>ORDER BY\<close>) the model takes them in row-id order. JSON columns hold
  the decoded list. SQLite's \<open>LIKE\<close> has its wildcards and ignores the case of ASCII letters.
\<close>

section \<open>SQL text functions\<close>

definition ascii_lower :: "char \<Rightarrow> char" where
  "ascii_lower c = (let n = of_char c :: nat in if 65 \<le> n \<and> n \<le> 90 then char_of (n + 32) else c)"

definition sql_lower :: "string \<Rightarrow> string" where
  "sql_lower s = map ascii_lower s"

fun like :: "string \<Rightarrow> string \<Rightarrow> bool" where
  "like [] s = (s = [])"
| "like (p # ps) [] = (p = CHR ''%'' \<and> like ps [])"
| "like (p # ps) (c # s) =
     (if p = CHR ''%'' then like ps (c # s) \<or> like (p # ps) s
      else (p = CHR ''_'' \<or> ascii_lower p = ascii_lower c) \<and> like ps s)"

abbreviation contains_like :: "string \<Rightarrow> string \<Rightarrow> bool" where
  "contains_like u s \<equiv> like (CHR ''%'' # u @ ''%'') s"

section \<open>Rows\<close>

record message =
  m_id :: string
  m_from :: string
  m_to :: string
  m_content :: string
  m_isAction :: bool
  m_isSnippet :: bool
  m_isE2EE :: bool
  m_deleted_by :: string
  m_timestamp :: string

record outbox_row =
  o_id :: string
  o_from :: string
  o_to :: string
  o_content :: string
  o_isAction :: bool
  o_isSnippet :: bool
  o_isE2EE :: bool
  o_retries :: int
  o_next_retry :: rat
  o_timestamp :: string
  o_created_at :: int

record profile =
  p_contacts :: "string list"
  p_history :: "string list"
  p_passwordHash :: string
  p_publicKey :: string
  p_kemPublicKey :: string
  p_allowTelnet :: bool
  p_publicKeys :: "string list"

record route =
  r_role :: string
  r_rendezvousNodes :: "string list"
  r_kemPublicKey :: string
  r_identityPublicKey :: string
  r_lastSeen :: int

record circuit_row =
  c_circuitId :: string
  c_prevHop :: "string option"
  c_nextHop :: "string option"
  c_symmetricKey :: key_arg
  c_createdAt :: int

record circuit_stored =
  cs_circuitId :: string
  cs_prevHop :: "string option"
  cs_nextHop :: "string option"
  cs_symmetricKey :: string
  cs_createdAt :: int

record db =
  messages :: "message list"
  outbox :: "outbox_row list"
  profiles :: "(string, profile) jsmap"
  trusted_keys :: "(string, string \<times> string) jsmap"
  routing_table :: "(string, route) jsmap"
  memoryCircuits :: "(string, circuit_row) jsmap"
  active_circuits :: "(string, circuit_stored) jsmap"
  circuitMasterKey :: string
  lastOutboxClean :: "int option"

definition empty_db :: "string \<Rightarrow> db" where
  "empty_db master =
     \<lparr>messages = [], outbox = [], profiles = [], trusted_keys = [], routing_table = [],
      memoryCircuits = [], active_circuits = [], circuitMasterKey = master, lastOutboxClean = None\<rparr>"

section \<open>Keys and profiles\<close>

definition saveTrustedNodeKey :: "string \<Rightarrow> string \<Rightarrow> string \<Rightarrow> db \<Rightarrow> db" where
  "saveTrustedNodeKey nodeAddress identityPublicKey kemPublicKey d =
     d\<lparr>trusted_keys := jm_set nodeAddress (identityPublicKey, kemPublicKey) (trusted_keys d)\<rparr>"

definition getTrustedNodeKey :: "string \<Rightarrow> db \<Rightarrow> (string \<times> string) option" where
  "getTrustedNodeKey nodeAddress d = jm_get (trusted_keys d) nodeAddress"

text \<open>A profile row as an \<open>INSERT\<close> with the schema's defaults makes it.\<close>

definition blank_profile :: profile where
  "blank_profile = \<lparr>p_contacts = [], p_history = [], p_passwordHash = [], p_publicKey = [],
     p_kemPublicKey = [], p_allowTelnet = False, p_publicKeys = []\<rparr>"

definition upsert_profile :: "string \<Rightarrow> (profile \<Rightarrow> profile) \<Rightarrow> db \<Rightarrow> db" where
  "upsert_profile user f d =
     d\<lparr>profiles := jm_set user (f (case jm_get (profiles d) user of None \<Rightarrow> blank_profile | Some p \<Rightarrow> p)) (profiles d)\<rparr>"

definition update_profile :: "string \<Rightarrow> (profile \<Rightarrow> profile) \<Rightarrow> db \<Rightarrow> db" where
  "update_profile user f d =
     (case jm_get (profiles d) user of
        None \<Rightarrow> d
      | Some p \<Rightarrow> d\<lparr>profiles := jm_set user (f p) (profiles d)\<rparr>)"

definition saveRemoteUserKemKey :: "string \<Rightarrow> string \<Rightarrow> db \<Rightarrow> db" where
  "saveRemoteUserKemKey user kem d =
     (if user = [] \<or> kem = [] then d else upsert_profile user (\<lambda>p. p\<lparr>p_kemPublicKey := kem\<rparr>) d)"

definition updateUserPassword :: "string \<Rightarrow> string \<Rightarrow> db \<Rightarrow> db" where
  "updateUserPassword user hash d = upsert_profile user (\<lambda>p. p\<lparr>p_passwordHash := hash\<rparr>) d"

definition updateUserKemKey :: "string \<Rightarrow> string \<Rightarrow> db \<Rightarrow> db" where
  "updateUserKemKey user kem d = update_profile user (\<lambda>p. p\<lparr>p_kemPublicKey := kem\<rparr>) d"

definition setUserTelnetAccess :: "string \<Rightarrow> bool \<Rightarrow> db \<Rightarrow> db" where
  "setUserTelnetAccess user allow d = update_profile user (\<lambda>p. p\<lparr>p_allowTelnet := allow\<rparr>) d"

text \<open>\<open>normalizedContacts.splice(1, 0, c)\<close>.\<close>

definition splice1 :: "string \<Rightarrow> string list \<Rightarrow> string list" where
  "splice1 c xs = take 1 xs @ c # drop 1 xs"

definition normalize_contacts :: "string \<Rightarrow> string list \<Rightarrow> string list" where
  "normalize_contacts loc contacts =
     (let defaultChannel = default_channel_name loc;
          systemConsole = system_console_name loc;
          norm = (\<lambda>c. if isSystemConsole c then systemConsole
                      else if isGlobalChannel c then defaultChannel else c);
          n1 = js_uniq (map norm contacts);
          n2 = (if systemConsole \<in> set n1 then n1 else systemConsole # n1)
      in if defaultChannel \<in> set n2 then n2 else splice1 defaultChannel n2)"

definition last_n :: "nat \<Rightarrow> 'a list \<Rightarrow> 'a list" where
  "last_n n xs = drop (length xs - n) xs"

definition updateUserProfile :: "string \<Rightarrow> string \<Rightarrow> string list \<Rightarrow> string list \<Rightarrow> db \<Rightarrow> db" where
  "updateUserProfile loc user contacts history d =
     upsert_profile user
       (\<lambda>p. p\<lparr>p_contacts := normalize_contacts loc contacts, p_history := last_n 50 history\<rparr>) d"

definition getUserProfile :: "string \<Rightarrow> string \<Rightarrow> db \<Rightarrow> profile \<times> db" where
  "getUserProfile loc user d =
     (case jm_get (profiles d) user of
        None \<Rightarrow>
          (let p = blank_profile\<lparr>p_contacts := [system_console_name loc, default_channel_name loc]\<rparr>
           in (p, updateUserProfile loc user (p_contacts p) (p_history p) d))
      | Some row \<Rightarrow>
          (row\<lparr>p_contacts := normalize_contacts loc (p_contacts row),
               p_publicKeys := (if p_publicKeys row = [] \<and> p_publicKey row \<noteq> [] then [p_publicKey row]
                                else p_publicKeys row)\<rparr>, d))"

definition set_keys :: "string list \<Rightarrow> profile \<Rightarrow> profile" where
  "set_keys keys p = p\<lparr>p_publicKeys := keys, p_publicKey := (case keys of [] \<Rightarrow> [] | k # _ \<Rightarrow> k)\<rparr>"

definition addUserPublicKey :: "string \<Rightarrow> string \<Rightarrow> string \<Rightarrow> db \<Rightarrow> db" where
  "addUserPublicKey loc user key d =
     (let (p, d1) = getUserProfile loc user d
      in update_profile user (set_keys (js_uniq (p_publicKeys p @ [key]))) d1)"

definition removeUserPublicKey :: "string \<Rightarrow> string \<Rightarrow> string \<Rightarrow> db \<Rightarrow> bool \<times> db" where
  "removeUserPublicKey loc user key d =
     (let (p, d1) = getUserProfile loc user d;
          updated = filter (\<lambda>k. k \<noteq> key) (p_publicKeys p)
      in (length updated < length (p_publicKeys p), update_profile user (set_keys updated) d1))"

text \<open>The contact synchronisation at start-up (\<open>schema.js\<close>).\<close>

definition sync_contacts :: "string \<Rightarrow> db \<Rightarrow> db" where
  "sync_contacts loc d =
     d\<lparr>profiles := map (\<lambda>(u, p). (u, p\<lparr>p_contacts := normalize_contacts loc (p_contacts p)\<rparr>)) (profiles d)\<rparr>"

section \<open>Messages\<close>

definition saveMessage :: "message \<Rightarrow> db \<Rightarrow> message option \<times> db" where
  "saveMessage m d =
     (if m_id m \<in> m_id ` set (messages d) then (None, d)
      else let m' = m\<lparr>m_deleted_by := []\<rparr> in (Some m', d\<lparr>messages := messages d @ [m']\<rparr>))"

definition global_receiver :: "string \<Rightarrow> bool" where
  "global_receiver r = (r \<in> {''#genel'', ''#general'', ''genel'', ''general''})"

abbreviation user_prefix :: "string \<Rightarrow> string" where
  "user_prefix u \<equiv> before CHR '':'' u"

text \<open>\<open>x = ?full OR x = ?prefix OR x LIKE ?prefix || ':%'\<close>.\<close>

definition names :: "string \<Rightarrow> string \<Rightarrow> bool" where
  "names target x = (x = target \<or> x = user_prefix target \<or> like (user_prefix target @ '':%'') x)"

definition mark_deleted :: "string \<Rightarrow> message \<Rightarrow> message" where
  "mark_deleted user m =
     (let del = m_deleted_by m
      in if del = [] then m\<lparr>m_deleted_by := user\<rparr>
         else if \<not> contains_like user del \<and> \<not> contains_like (user_prefix user) del
         then m\<lparr>m_deleted_by := del @ '','' @ user\<rparr> else m)"

definition clear_matches :: "string \<Rightarrow> string \<Rightarrow> message \<Rightarrow> bool" where
  "clear_matches user target m =
     (if isGlobalChannel target then global_receiver (m_to m)
      else if starts_with ''#'' target then names target (m_to m)
      else (names user (m_from m) \<and> names target (m_to m)) \<or> (names target (m_from m) \<and> names user (m_to m)))"

definition clearConversationForUser :: "string \<Rightarrow> string \<Rightarrow> db \<Rightarrow> db" where
  "clearConversationForUser user target d =
     d\<lparr>messages := map (\<lambda>m. if clear_matches user target m then mark_deleted user m else m) (messages d)\<rparr>"

text \<open>The private conversation compares lower-cased text, the channels do not.\<close>

definition names_lower :: "string \<Rightarrow> string \<Rightarrow> bool" where
  "names_lower target x =
     (sql_lower x = sql_lower target \<or> sql_lower x = sql_lower (user_prefix target) \<or>
      like (sql_lower (user_prefix target) @ '':%'') (sql_lower x))"

definition visible :: "string \<Rightarrow> string \<Rightarrow> bool" where
  "visible user del = (\<not> contains_like user del \<and> \<not> contains_like (user_prefix user) del)"

definition conversation_matches :: "string \<Rightarrow> string \<Rightarrow> message \<Rightarrow> bool" where
  "conversation_matches a b m =
     (if isGlobalChannel b then global_receiver (m_to m) \<and> visible a (m_deleted_by m)
      else if starts_with ''#'' b then names b (m_to m) \<and> visible a (m_deleted_by m)
      else ((names_lower a (m_from m) \<and> names_lower b (m_to m)) \<or>
            (names_lower b (m_from m) \<and> names_lower a (m_to m))) \<and>
           \<not> contains_like (sql_lower a) (sql_lower (m_deleted_by m)) \<and>
           \<not> contains_like (sql_lower (user_prefix a)) (sql_lower (m_deleted_by m)))"

definition getConversation :: "string \<Rightarrow> string \<Rightarrow> nat \<Rightarrow> db \<Rightarrow> message list" where
  "getConversation a b limit d =
     (if b = [] then [] else last_n limit (filter (conversation_matches a b) (messages d)))"

section \<open>Outbox\<close>

definition or_default :: "int \<Rightarrow> int \<Rightarrow> int" where
  "or_default v d = (if v = 0 then d else v)"

definition outbox_ttl :: "config \<Rightarrow> int" where
  "outbox_ttl cfg = or_default (outboxTtl cfg) 86400000"

definition outbox_max :: "config \<Rightarrow> int" where
  "outbox_max cfg = or_default (outboxMaxRetries cfg) 20"

text \<open>
  The clock functions of the language the code applies to a stored time stamp: \<open>iso\<close> prints a time,
  \<open>date_ms\<close> reads one.
\<close>

record clock =
  iso :: "int \<Rightarrow> string"
  date_ms :: "string \<Rightarrow> int option"

fun str_less :: "string \<Rightarrow> string \<Rightarrow> bool" where
  "str_less [] t = (t \<noteq> [])"
| "str_less (a # s) [] = False"
| "str_less (a # s) (b # t) = ((of_char a :: nat) < of_char b \<or> (a = b \<and> str_less s t))"

definition outbox_expired_row :: "clock \<Rightarrow> int \<Rightarrow> outbox_row \<Rightarrow> bool" where
  "outbox_expired_row K cutoff r =
     ((o_created_at r > 0 \<and> o_created_at r < cutoff) \<or>
      (o_created_at r \<le> 0 \<and> str_less (o_timestamp r) (iso K cutoff)))"

definition cleanExpiredOutbox :: "clock \<Rightarrow> int \<Rightarrow> int \<Rightarrow> int \<Rightarrow> db \<Rightarrow> nat \<times> db" where
  "cleanExpiredOutbox K now ttl maxRetries d =
     (let kept = filter (\<lambda>r. \<not> o_retries r \<ge> maxRetries \<and> \<not> outbox_expired_row K (now - ttl) r) (outbox d)
      in (length (outbox d) - length kept, d\<lparr>outbox := kept\<rparr>))"

definition removeOutbox :: "string \<Rightarrow> db \<Rightarrow> db" where
  "removeOutbox i d = d\<lparr>outbox := filter (\<lambda>r. o_id r \<noteq> i) (outbox d)\<rparr>"

text \<open>\<open>createdAt\<close> defaults to the clock; a value that is not a positive number is replaced by it.\<close>

definition queueOutbox :: "int \<Rightarrow> message \<Rightarrow> int option \<Rightarrow> db \<Rightarrow> db" where
  "queueOutbox now m createdAt d =
     (let created = (case createdAt of Some c \<Rightarrow> if c > 0 then c else now | None \<Rightarrow> now);
          row = \<lparr>o_id = m_id m, o_from = m_from m, o_to = m_to m, o_content = m_content m,
                 o_isAction = m_isAction m, o_isSnippet = m_isSnippet m, o_isE2EE = m_isE2EE m,
                 o_retries = 0, o_next_retry = of_int (now + 5000), o_timestamp = m_timestamp m,
                 o_created_at = created\<rparr>
      in (removeOutbox (m_id m) d)\<lparr>outbox := outbox (removeOutbox (m_id m) d) @ [row]\<rparr>)"

definition created_of :: "clock \<Rightarrow> int \<Rightarrow> outbox_row \<Rightarrow> int" where
  "created_of K now r =
     (if o_created_at r > 0 then o_created_at r
      else case date_ms K (o_timestamp r) of None \<Rightarrow> now | Some t \<Rightarrow> or_default t now)"

definition getPendingOutbox :: "clock \<Rightarrow> config \<Rightarrow> int \<Rightarrow> bool \<Rightarrow> db \<Rightarrow> outbox_row list \<times> db" where
  "getPendingOutbox K cfg now forceAll d =
     (let due = (case lastOutboxClean d of None \<Rightarrow> True | Some t \<Rightarrow> t = 0 \<or> now - t \<ge> 5000);
          d1 = (if due then snd (cleanExpiredOutbox K now (outbox_ttl cfg) (outbox_max cfg) (d\<lparr>lastOutboxClean := Some now\<rparr>))
                else d);
          rows = take 50 (if forceAll then outbox d1 else filter (\<lambda>r. o_next_retry r \<le> of_int now) (outbox d1))
      in (map (\<lambda>r. r\<lparr>o_created_at := created_of K now r\<rparr>) rows, d1))"

text \<open>\<open>Math.min(120000, 5000 * Math.pow(1.5, Math.min(n, 10)))\<close>.\<close>

definition backoff :: "int \<Rightarrow> rat" where
  "backoff n = min 120000 (5000 * (3 / 2) ^ nat (min n 10))"

datatype retry_result = Expired int | Retry int rat

definition updateOutboxRetry :: "clock \<Rightarrow> int \<Rightarrow> string \<Rightarrow> int \<Rightarrow> int \<Rightarrow> db \<Rightarrow> retry_result option \<times> db" where
  "updateOutboxRetry K now i maxRetries ttl d =
     (case find (\<lambda>r. o_id r = i) (outbox d) of
        None \<Rightarrow> (None, d)
      | Some row \<Rightarrow>
          (let nextRetries = o_retries row + 1;
               isExpired = now - created_of K now row > ttl
           in if nextRetries \<ge> maxRetries \<or> isExpired then (Some (Expired nextRetries), removeOutbox i d)
              else let next = of_int now + backoff nextRetries
                   in (Some (Retry nextRetries next),
                       d\<lparr>outbox := map (\<lambda>r. if o_id r = i then r\<lparr>o_retries := nextRetries, o_next_retry := next\<rparr> else r)
                                    (outbox d)\<rparr>)))"

definition resetOutboxForTarget :: "string \<Rightarrow> db \<Rightarrow> db" where
  "resetOutboxForTarget target d =
     (if target = [] then d
      else d\<lparr>outbox := map (\<lambda>r. if contains_like target (o_to r) then r\<lparr>o_next_retry := 0, o_retries := 0\<rparr> else r)
                        (outbox d)\<rparr>)"

section \<open>Routes\<close>

definition upsertRoute ::
  "string \<Rightarrow> string \<Rightarrow> string list \<Rightarrow> string option \<Rightarrow> string option \<Rightarrow> int \<Rightarrow> db \<Rightarrow> db" where
  "upsertRoute nodeId role nodes kem ident seen d =
     (if nodeId = [] then d
      else
        let cleanKem = (case kem of None \<Rightarrow> [] | Some k \<Rightarrow> k);
            cleanId = (case ident of None \<Rightarrow> [] | Some k \<Rightarrow> k);
            row = (case jm_get (routing_table d) nodeId of
                     None \<Rightarrow> \<lparr>r_role = role, r_rendezvousNodes = nodes, r_kemPublicKey = cleanKem,
                              r_identityPublicKey = cleanId, r_lastSeen = seen\<rparr>
                   | Some old \<Rightarrow> \<lparr>r_role = role, r_rendezvousNodes = nodes,
                                  r_kemPublicKey = (if cleanKem \<noteq> [] then cleanKem else r_kemPublicKey old),
                                  r_identityPublicKey = (if cleanId \<noteq> [] then cleanId else r_identityPublicKey old),
                                  r_lastSeen = seen\<rparr>)
        in d\<lparr>routing_table := jm_set nodeId row (routing_table d)\<rparr>)"

definition getRoute :: "string \<Rightarrow> db \<Rightarrow> route option" where
  "getRoute nodeId d = jm_get (routing_table d) nodeId"

definition getAllRoutes :: "db \<Rightarrow> (string \<times> route) list" where
  "getAllRoutes d = sort_key (\<lambda>(_, r). - r_lastSeen r) (routing_table d)"

definition is_relay_role :: "string \<Rightarrow> bool" where
  "is_relay_role role = (role = ''RELAY'' \<or> role = ''CAP_RELAY'')"

definition deleteExpiredRoutes :: "int \<Rightarrow> int \<Rightarrow> int \<Rightarrow> db \<Rightarrow> db" where
  "deleteExpiredRoutes now ttl relayTtl d =
     d\<lparr>routing_table := filter (\<lambda>(_, r). \<not> (if is_relay_role (r_role r) then r_lastSeen r < now - relayTtl
                                           else r_lastSeen r < now - ttl)) (routing_table d)\<rparr>"

section \<open>Circuits\<close>

definition circuit_key :: "string \<Rightarrow> string option \<Rightarrow> string" where
  "circuit_key circuitId prevHop =
     (if truthy prevHop then circuitId @ ''_'' @ the prevHop else circuitId)"

text \<open>
  The stored copy of the key is encrypted under the per-process master key. The key's raw bytes are
  the plaintext, and decryption reads them as UTF-8 text.
\<close>

definition encrypt_circuit_key :: "node_crypto \<Rightarrow> byte list \<Rightarrow> byte list \<Rightarrow> string \<Rightarrow> string" where
  "encrypt_circuit_key C random key master =
     (let (c, tag) = gcm_encrypt C (normalizeKey (KeyString master)) random key
      in stringify (json_of_envelope \<lparr>ciphertext = b64_encode c, iv = b64_encode random, authTag = b64_encode tag\<rparr>))"

definition decryptCircuitKey :: "node_crypto \<Rightarrow> string \<Rightarrow> string \<Rightarrow> string option" where
  "decryptCircuitKey C stored master =
     (if stored = [] then None
      else if starts_with ''{'' stored
      then (case Option.bind (Option.bind (json_parse stored) envelope_of_json) (\<lambda>e. decrypt C e (KeyString master)) of
              Some (c # s) \<Rightarrow> Some (c # s)
            | _ \<Rightarrow> Some stored)
      else Some stored)"

definition saveCircuit ::
  "node_crypto \<Rightarrow> byte list \<Rightarrow> string \<Rightarrow> string option \<Rightarrow> string option \<Rightarrow> byte list \<Rightarrow> int \<Rightarrow> db \<Rightarrow> db" where
  "saveCircuit C random circuitId prevHop nextHop symmetricKey createdAt d =
     (let k = circuit_key circuitId prevHop
      in d\<lparr>memoryCircuits := jm_set k \<lparr>c_circuitId = circuitId, c_prevHop = prevHop, c_nextHop = nextHop,
             c_symmetricKey = KeyBuffer symmetricKey, c_createdAt = createdAt\<rparr> (memoryCircuits d),
           active_circuits := jm_delete k (active_circuits d) @
             [(k, \<lparr>cs_circuitId = circuitId, cs_prevHop = prevHop, cs_nextHop = nextHop,
                   cs_symmetricKey = encrypt_circuit_key C random symmetricKey (circuitMasterKey d),
                   cs_createdAt = createdAt\<rparr>)]\<rparr>)"

definition load_circuit :: "node_crypto \<Rightarrow> db \<Rightarrow> circuit_stored \<Rightarrow> circuit_row option" where
  "load_circuit C d row =
     map_option (\<lambda>k. \<lparr>c_circuitId = cs_circuitId row, c_prevHop = cs_prevHop row, c_nextHop = cs_nextHop row,
         c_symmetricKey = KeyString k, c_createdAt = cs_createdAt row\<rparr>)
       (decryptCircuitKey C (cs_symmetricKey row) (circuitMasterKey d))"

definition newest :: "circuit_stored list \<Rightarrow> circuit_stored option" where
  "newest rows = (case sort_key (\<lambda>r. - cs_createdAt r) rows of [] \<Rightarrow> None | r # _ \<Rightarrow> Some r)"

text \<open>
  The exact key first, in memory and then in the table; failing both, any circuit with the same
  identifier, whichever hop it came from. A row whose key is missing gives no circuit (the caller
  tests the key).
\<close>

definition getCircuit :: "node_crypto \<Rightarrow> string \<Rightarrow> string option \<Rightarrow> db \<Rightarrow> circuit_row option" where
  "getCircuit C circuitId prevHop d =
     (let exact = (if truthy prevHop
                   then (case jm_get (memoryCircuits d) (circuit_key circuitId prevHop) of
                           Some c \<Rightarrow> Some (Some c)
                         | None \<Rightarrow> map_option (load_circuit C d)
                                     (jm_get (active_circuits d) (circuit_key circuitId prevHop)))
                   else None)
      in case exact of
           Some r \<Rightarrow> r
         | None \<Rightarrow>
             (case find (\<lambda>c. c_circuitId c = circuitId) (jm_values (memoryCircuits d)) of
                Some c \<Rightarrow> Some c
              | None \<Rightarrow> Option.bind (newest (filter (\<lambda>r. cs_circuitId r = circuitId) (jm_values (active_circuits d))))
                          (load_circuit C d)))"

definition deleteCircuit :: "string \<Rightarrow> string option \<Rightarrow> db \<Rightarrow> db" where
  "deleteCircuit circuitId prevHop d =
     (if truthy prevHop
      then d\<lparr>memoryCircuits := jm_delete (circuit_key circuitId prevHop) (memoryCircuits d),
             active_circuits := jm_delete (circuit_key circuitId prevHop) (active_circuits d)\<rparr>
      else d\<lparr>memoryCircuits := filter (\<lambda>(_, c). c_circuitId c \<noteq> circuitId) (memoryCircuits d),
             active_circuits := filter (\<lambda>(_, c). cs_circuitId c \<noteq> circuitId) (active_circuits d)\<rparr>)"

definition deleteExpiredCircuits :: "int \<Rightarrow> int \<Rightarrow> db \<Rightarrow> db" where
  "deleteExpiredCircuits now maxAge d =
     d\<lparr>memoryCircuits := filter (\<lambda>(_, c). \<not> c_createdAt c < now - maxAge) (memoryCircuits d),
       active_circuits := filter (\<lambda>(_, c). \<not> cs_createdAt c < now - maxAge) (active_circuits d)\<rparr>"

section \<open>The lock file\<close>

datatype lock_error = SQLITE_BUSY_INSTANCE

text \<open>
  \<open>acquireLock\<close>: \<open>file\<close> is the content of the lock file, \<open>running\<close> what \<open>process.kill(pid, 0)\<close> says
  of a process (signalled or \<open>EPERM\<close>), \<open>raced\<close> that another process created the file between the
  removal of the stale lock and the second attempt. The outcome is the new content.
\<close>

definition lock_payload :: "int \<Rightarrow> int \<Rightarrow> string \<Rightarrow> string" where
  "lock_payload pid now path =
     stringify (JObj [(''pid'', JNum pid), (''createdAt'', JNum now), (''filepath'', JStr path)])"

definition lock_pid :: "string \<Rightarrow> int option" where
  "lock_pid content =
     (case json_parse content of
        None \<Rightarrow> None
      | Some j \<Rightarrow> (case field j ''pid'' of Some (JNum p) \<Rightarrow> if p > 0 then Some p else None | _ \<Rightarrow> None))"

definition acquireLock ::
  "(int \<Rightarrow> bool) \<Rightarrow> bool \<Rightarrow> int \<Rightarrow> int \<Rightarrow> string \<Rightarrow> string option \<Rightarrow> lock_error + string" where
  "acquireLock running raced pid now path file =
     (case file of
        None \<Rightarrow> Inr (lock_payload pid now path)
      | Some content \<Rightarrow>
          (case lock_pid content of
             Some p \<Rightarrow> if running p then Inl SQLITE_BUSY_INSTANCE
                       else if raced then Inl SQLITE_BUSY_INSTANCE else Inr (lock_payload pid now path)
           | None \<Rightarrow> if raced then Inl SQLITE_BUSY_INSTANCE else Inr (lock_payload pid now path)))"

definition releaseLock :: "bool \<Rightarrow> int \<Rightarrow> string option \<Rightarrow> string option" where
  "releaseLock hasLock pid file =
     (if \<not> hasLock then file
      else case file of
        None \<Rightarrow> None
      | Some content \<Rightarrow>
          (case json_parse content of
             None \<Rightarrow> None
           | Some j \<Rightarrow> if j = JNull \<or> field j ''pid'' = Some (JNum pid) then None else file))"

section \<open>Outbox: bounded retries\<close>

lemma find_map_same:
  "(\<And>r. P (f r) = P r) \<Longrightarrow> find P (map f xs) = map_option f (find P xs)"
  by (induction xs) auto

lemma find_filter_other: "(\<And>r. P r \<Longrightarrow> \<not> Q r) \<Longrightarrow> find P (filter Q xs) = None"
  by (induction xs) auto

definition outbox_get :: "string \<Rightarrow> db \<Rightarrow> outbox_row option" where
  "outbox_get i d = find (\<lambda>r. o_id r = i) (outbox d)"

lemma outbox_get_remove: "outbox_get i (removeOutbox i d) = None"
  by (simp add: outbox_get_def removeOutbox_def find_filter_other)

lemma outbox_get_None: "outbox_get i d = None \<longleftrightarrow> i \<notin> o_id ` set (outbox d)"
  by (auto simp: outbox_get_def find_None_iff)

lemma retry_None: "outbox_get i d = None \<Longrightarrow> updateOutboxRetry K now i mx ttl d = (None, d)"
  by (simp add: updateOutboxRetry_def outbox_get_def)

lemma retry_Some:
  assumes "outbox_get i d = Some row"
  shows "outbox_get i (snd (updateOutboxRetry K now i mx ttl d)) = None \<or>
    (o_retries row + 1 < mx \<and>
     (\<exists>row'. outbox_get i (snd (updateOutboxRetry K now i mx ttl d)) = Some row' \<and> o_retries row' = o_retries row + 1))"
proof (cases "o_retries row + 1 \<ge> mx \<or> now - created_of K now row > ttl")
  case True
  then show ?thesis
    using assms outbox_get_remove [of i d] by (simp add: updateOutboxRetry_def outbox_get_def Let_def)
next
  case False
  let ?f = "\<lambda>r. if o_id r = i then r\<lparr>o_retries := o_retries row + 1, o_next_retry := of_int now + backoff (o_retries row + 1)\<rparr> else r"
  have "find (\<lambda>r. o_id r = i) (map ?f (outbox d)) = map_option ?f (find (\<lambda>r. o_id r = i) (outbox d))"
    by (rule find_map_same) simp
  moreover have "o_id row = i" using assms by (auto simp: outbox_get_def find_Some_iff)
  ultimately show ?thesis
    using False assms by (simp add: updateOutboxRetry_def outbox_get_def Let_def)
qed

definition retry_all :: "clock \<Rightarrow> string \<Rightarrow> int \<Rightarrow> int \<Rightarrow> int list \<Rightarrow> db \<Rightarrow> db" where
  "retry_all K i mx ttl nows d = fold (\<lambda>now d. snd (updateOutboxRetry K now i mx ttl d)) nows d"

lemma retry_all_simps [simp]:
  "retry_all K i mx ttl [] d = d"
  "retry_all K i mx ttl (n # ns) d = retry_all K i mx ttl ns (snd (updateOutboxRetry K n i mx ttl d))"
  by (simp_all add: retry_all_def)

lemma retry_all_gone: "outbox_get i d = None \<Longrightarrow> outbox_get i (retry_all K i mx ttl nows d) = None"
  by (induction nows arbitrary: d) (simp_all add: retry_None)

text \<open>
  Failing deliveries end: whatever the times, after as many failed attempts as the retry limit
  leaves for a queued message, the message is out of the outbox.
\<close>

theorem outbox_retries_end:
  assumes "outbox_get i d = Some row" "int (length nows) \<ge> mx - o_retries row" "nows \<noteq> []"
  shows "i \<notin> o_id ` set (outbox (retry_all K i mx ttl nows d))"
proof -
  have "outbox_get i (retry_all K i mx ttl nows d) = None"
    using assms
  proof (induction nows arbitrary: d row)
    case (Cons now nows)
    let ?d = "snd (updateOutboxRetry K now i mx ttl d)"
    from retry_Some [OF Cons.prems(1), of K now mx ttl] show ?case
    proof (elim disjE conjE exE)
      assume "outbox_get i ?d = None"
      then show ?thesis by (simp add: retry_all_gone)
    next
      fix row' assume lt: "o_retries row + 1 < mx" and r: "outbox_get i ?d = Some row'" "o_retries row' = o_retries row + 1"
      have "int (length nows) \<ge> mx - o_retries row'" "nows \<noteq> []"
        using Cons.prems(2) lt r(2) by auto
      then show ?thesis using Cons.IH [OF r(1)] by simp
    qed
  qed simp
  then show ?thesis by (simp add: outbox_get_None)
qed

theorem outbox_retries_end_witness:
  "''m1'' \<notin> o_id ` set (outbox (retry_all \<lparr>iso = \<lambda>_. [], date_ms = \<lambda>_. None\<rparr> ''m1'' 2 86400000 [10, 20]
      (queueOutbox 5 \<lparr>m_id = ''m1'', m_from = ''@a'', m_to = ''@b'', m_content = [], m_isAction = False,
         m_isSnippet = False, m_isE2EE = False, m_deleted_by = [], m_timestamp = []\<rparr> None (empty_db []))))"
  by (rule outbox_retries_end) (auto simp: outbox_get_def queueOutbox_def removeOutbox_def empty_db_def Let_def)

lemma backoff_bounds: "1 \<le> n \<Longrightarrow> 7500 \<le> backoff n \<and> backoff n \<le> 120000"
proof -
  assume "1 \<le> n"
  then have "1 \<le> nat (min n 10)" by simp
  then have "(3 / 2 :: rat) ^ 1 \<le> (3 / 2) ^ nat (min n 10)" by (intro power_increasing) auto
  then show ?thesis by (simp add: backoff_def)
qed

text \<open>
  A retry keeps the message due: an attempt that does not expire the message counts one retry
  below the limit, schedules the next attempt between 7.5 and 120 seconds later, and leaves every
  other message of the outbox as it was.
\<close>

theorem outbox_retry_schedules:
  assumes "updateOutboxRetry K now i mx ttl d = (Some (Retry n next), d')" "outbox_get i d = Some row" "0 \<le> o_retries row"
  shows "n = o_retries row + 1 \<and> n < mx \<and> of_int now + 7500 \<le> next \<and> next \<le> of_int now + 120000 \<and>
    length (outbox d') = length (outbox d) \<and>
    filter (\<lambda>r. o_id r \<noteq> i) (outbox d') = filter (\<lambda>r. o_id r \<noteq> i) (outbox d)"
proof -
  have n: "n = o_retries row + 1" "next = of_int now + backoff n" "n < mx"
      "outbox d' = map (\<lambda>r. if o_id r = i then r\<lparr>o_retries := n, o_next_retry := next\<rparr> else r) (outbox d)"
    using assms(1,2) by (auto simp: updateOutboxRetry_def outbox_get_def Let_def split: if_splits)
  have "filter (\<lambda>r. o_id r \<noteq> i) (map (\<lambda>r. if o_id r = i then r\<lparr>o_retries := n, o_next_retry := next\<rparr> else r) rows) =
      filter (\<lambda>r. o_id r \<noteq> i) rows" for rows by (induction rows) auto
  then show ?thesis
    using n backoff_bounds [of n] assms(3) by simp
qed

theorem outbox_retry_schedules_witness:
  "\<exists>n next d'. updateOutboxRetry \<lparr>iso = \<lambda>_. [], date_ms = \<lambda>_. None\<rparr> 10 ''m1'' 20 86400000
      (queueOutbox 5 \<lparr>m_id = ''m1'', m_from = ''@a'', m_to = ''@b'', m_content = [], m_isAction = False,
         m_isSnippet = False, m_isE2EE = False, m_deleted_by = [], m_timestamp = []\<rparr> None (empty_db [])) =
      (Some (Retry n next), d') \<and> next \<le> 10 + 120000"
proof -
  let ?d = "queueOutbox 5 \<lparr>m_id = ''m1'', m_from = ''@a'', m_to = ''@b'', m_content = [], m_isAction = False,
         m_isSnippet = False, m_isE2EE = False, m_deleted_by = [], m_timestamp = []\<rparr> None (empty_db [])"
  let ?K = "\<lparr>iso = \<lambda>_. [], date_ms = \<lambda>_. None\<rparr>"
  obtain row where row: "outbox_get ''m1'' ?d = Some row" "o_retries row = 0"
    by (simp add: outbox_get_def queueOutbox_def removeOutbox_def empty_db_def Let_def)
  obtain n nx d' where u: "updateOutboxRetry ?K 10 ''m1'' 20 86400000 ?d = (Some (Retry n nx), d')"
    by (simp add: updateOutboxRetry_def queueOutbox_def removeOutbox_def empty_db_def created_of_def Let_def)
  show ?thesis
    using outbox_retry_schedules [OF u row(1)] row(2) u by fastforce
qed

section \<open>Clearing a conversation\<close>

lemma like_prefix_any: "like ps s \<Longrightarrow> like (CHR ''%'' # ps) (x @ s)"
  by (induction x) (cases s; auto)+

lemma like_percent: "like ''%'' y"
  by (induction y) auto

lemma like_skip: "like ps s \<Longrightarrow> like (CHR ''%'' # ps) s"
  using like_prefix_any [of ps s "[]"] by simp

lemma like_self: "like (u @ ''%'') (u @ y)"
  by (induction u) (auto simp: like_percent like_skip)

lemma contains_like_infix: "contains_like u (x @ u @ y)"
  by (rule like_prefix_any) (rule like_self)

lemma mark_deleted_hides: "\<not> visible user (m_deleted_by (mark_deleted user m))"
  using contains_like_infix [of user "[]" "[]"] contains_like_infix [of user "m_deleted_by m @ '',''" "[]"]
  by (auto simp: visible_def mark_deleted_def Let_def)

lemma mark_deleted_other [simp]: "m_to (mark_deleted u m) = m_to m" "m_from (mark_deleted u m) = m_from m"
  by (simp_all add: mark_deleted_def Let_def)

text \<open>
  Clearing a channel clears it: after a user clears a channel (the global one included), the
  user's view of it is empty until a new message arrives, and clearing removes no message from the
  store.
\<close>

theorem cleared_channel_is_empty:
  assumes "isGlobalChannel target \<or> starts_with ''#'' target"
  shows "getConversation user target limit (clearConversationForUser user target d) = [] \<and>
    map m_id (messages (clearConversationForUser user target d)) = map m_id (messages d)"
proof -
  have "\<not> conversation_matches user target (if clear_matches user target m then mark_deleted user m else m)" for m
    using assms mark_deleted_hides [of user m] by (auto simp: conversation_matches_def clear_matches_def)
  then have "filter (conversation_matches user target)
      (map (\<lambda>m. if clear_matches user target m then mark_deleted user m else m) ms) = []" for ms
    by (induction ms) (auto split: if_splits)
  moreover have "map m_id (map (\<lambda>m. if clear_matches user target m then mark_deleted user m else m) ms) = map m_id ms" for ms
    by (induction ms) (auto simp: mark_deleted_def Let_def)
  ultimately show ?thesis
    by (simp add: getConversation_def clearConversationForUser_def last_n_def)
qed

theorem cleared_channel_is_empty_witness:
  "getConversation ''@ali:x'' ''#dev:x'' 100 (clearConversationForUser ''@ali:x'' ''#dev:x''
     (snd (saveMessage \<lparr>m_id = ''1'', m_from = ''@b'', m_to = ''#dev:x'', m_content = [], m_isAction = False,
        m_isSnippet = False, m_isE2EE = False, m_deleted_by = [], m_timestamp = []\<rparr> (empty_db [])))) = []"
  using cleared_channel_is_empty [of "''#dev:x''"] by (simp add: starts_with_def)

text \<open>
  The mark is found by substring, so it also hides the conversation from a user whose name begins
  the name of the one who cleared it.
\<close>

lemma clearing_hides_from_prefix_user:
  "getConversation ''@al'' ''#dev'' 100 (clearConversationForUser ''@ali'' ''#dev''
     ((empty_db [])\<lparr>messages := [\<lparr>m_id = ''1'', m_from = ''@b'', m_to = ''#dev'', m_content = [], m_isAction = False,
        m_isSnippet = False, m_isE2EE = False, m_deleted_by = [], m_timestamp = []\<rparr>]\<rparr>)) = [] \<and>
   getConversation ''@al'' ''#dev'' 100
     ((empty_db [])\<lparr>messages := [\<lparr>m_id = ''1'', m_from = ''@b'', m_to = ''#dev'', m_content = [], m_isAction = False,
        m_isSnippet = False, m_isE2EE = False, m_deleted_by = [], m_timestamp = []\<rparr>]\<rparr>) \<noteq> []"
proof -
  have g: "\<not> isGlobalChannel ''#dev''" by code_simp
  have h: "contains_like ''@al'' ''@ali''" by code_simp
  show ?thesis
    using g h by (simp add: getConversation_def clearConversationForUser_def conversation_matches_def
        clear_matches_def names_def mark_deleted_def visible_def last_n_def starts_with_def empty_db_def)
qed

section \<open>Routes, contacts, circuits, lock\<close>

text \<open>
  A route never loses a key: announcing a node again without keys keeps the stored ones, a key that
  is known stays known, and the announcement of one node touches no other route.
\<close>

theorem routes_keep_keys:
  assumes "nodeId \<noteq> []" "getRoute nodeId d = Some old"
  shows "(\<exists>r. getRoute nodeId (upsertRoute nodeId role nodes kem ident seen d) = Some r \<and>
       r_role r = role \<and> r_lastSeen r = seen \<and> r_rendezvousNodes r = nodes \<and>
       (kem = None \<or> kem = Some [] \<longrightarrow> r_kemPublicKey r = r_kemPublicKey old) \<and>
       (ident = None \<or> ident = Some [] \<longrightarrow> r_identityPublicKey r = r_identityPublicKey old) \<and>
       (r_kemPublicKey old \<noteq> [] \<longrightarrow> r_kemPublicKey r \<noteq> []) \<and>
       (r_identityPublicKey old \<noteq> [] \<longrightarrow> r_identityPublicKey r \<noteq> [])) \<and>
    (other \<noteq> nodeId \<longrightarrow> getRoute other (upsertRoute nodeId role nodes kem ident seen d) = getRoute other d)"
  using assms by (auto simp: upsertRoute_def getRoute_def jsmap_simps Let_def split: option.splits)

theorem routes_keep_keys_witness:
  "\<exists>r. getRoute ''n'' (upsertRoute ''n'' ''EDGE'' [] None None 9
      (upsertRoute ''n'' ''RELAY'' [''h:1''] (Some ''kem'') (Some ''id'') 5 (empty_db []))) = Some r \<and>
     r_kemPublicKey r = ''kem'' \<and> r_role r = ''EDGE''"
proof -
  have g: "getRoute ''n'' (upsertRoute ''n'' ''RELAY'' [''h:1''] (Some ''kem'') (Some ''id'') 5 (empty_db [])) =
      Some \<lparr>r_role = ''RELAY'', r_rendezvousNodes = [''h:1''], r_kemPublicKey = ''kem'', r_identityPublicKey = ''id'', r_lastSeen = 5\<rparr>"
    by (simp add: getRoute_def upsertRoute_def empty_db_def Let_def)
  show ?thesis using routes_keep_keys [OF _ g, of "''EDGE''" "[]" None None 9] by fastforce
qed

lemma system_not_global: "isSystemConsole (system_console_name loc)" "\<not> isSystemConsole (default_channel_name loc)"
    "isGlobalChannel (default_channel_name loc)"
proof -
  have "isSystemConsole ''*sistem''" "isSystemConsole ''*system''" "\<not> isSystemConsole ''#genel''"
      "\<not> isSystemConsole ''#general''" "isGlobalChannel ''#genel''" "isGlobalChannel ''#general''"
    by code_simp+
  then show "isSystemConsole (system_console_name loc)" "\<not> isSystemConsole (default_channel_name loc)"
      "isGlobalChannel (default_channel_name loc)"
    by (simp_all add: system_console_name_def default_channel_name_def)
qed

lemma js_uniq_distinct_id: "distinct xs \<Longrightarrow> js_uniq xs = xs"
proof -
  have "distinct (acc @ xs) \<Longrightarrow> fold js_add xs acc = acc @ xs" for acc
    by (induction xs arbitrary: acc) (auto simp: js_add_def)
  from this [of "[]"] show "distinct xs \<Longrightarrow> js_uniq xs = xs" by (simp add: js_uniq_def)
qed

definition contact_norm :: "string \<Rightarrow> string \<Rightarrow> string" where
  "contact_norm loc c = (if isSystemConsole c then system_console_name loc
     else if isGlobalChannel c then default_channel_name loc else c)"

lemma contact_norm_idem: "contact_norm loc (contact_norm loc c) = contact_norm loc c"
  by (simp add: contact_norm_def system_not_global)

lemma normalize_eq:
  "normalize_contacts loc cs =
    (let n1 = js_uniq (map (contact_norm loc) cs);
         n2 = (if system_console_name loc \<in> set n1 then n1 else system_console_name loc # n1)
     in if default_channel_name loc \<in> set n2 then n2 else splice1 (default_channel_name loc) n2)"
  unfolding normalize_contacts_def contact_norm_def [abs_def] Let_def by (rule refl)

lemma distinct_splice1: "distinct xs \<Longrightarrow> c \<notin> set xs \<Longrightarrow> distinct (splice1 c xs)"
  by (cases xs) (auto simp: splice1_def)

lemma set_splice1: "set (splice1 c xs) = insert c (set xs)"
  by (cases xs) (auto simp: splice1_def)

lemma normalize_facts:
  "distinct (normalize_contacts loc cs)"
  "system_console_name loc \<in> set (normalize_contacts loc cs)"
  "default_channel_name loc \<in> set (normalize_contacts loc cs)"
  "x \<in> set (normalize_contacts loc cs) \<Longrightarrow> contact_norm loc x = x"
proof -
  let ?n1 = "js_uniq (map (contact_norm loc) cs)"
  let ?n2 = "if system_console_name loc \<in> set ?n1 then ?n1 else system_console_name loc # ?n1"
  note eq = normalize_eq [of loc cs, unfolded Let_def]
  have n1: "x \<in> set ?n1 \<Longrightarrow> contact_norm loc x = x" for x by (auto simp: contact_norm_idem)
  have n2: "contact_norm loc (system_console_name loc) = system_console_name loc"
      "contact_norm loc (default_channel_name loc) = default_channel_name loc"
    by (simp_all add: contact_norm_def system_not_global)
  show "distinct (normalize_contacts loc cs)"
    unfolding eq by (auto intro!: distinct_splice1)
  show "system_console_name loc \<in> set (normalize_contacts loc cs)"
    unfolding eq by (auto simp: set_splice1)
  show "default_channel_name loc \<in> set (normalize_contacts loc cs)"
    unfolding eq by (auto simp: set_splice1)
  show "x \<in> set (normalize_contacts loc cs) \<Longrightarrow> contact_norm loc x = x"
    unfolding eq using n1 n2 by (auto simp: set_splice1 simp del: set_js_uniq split: if_splits)
qed

text \<open>
  A user's contact list is in normal form: no contact twice, the system console and the global
  channel present under the current locale's names, and normalising again changes nothing, so
  reading and writing a profile back is stable.
\<close>

theorem contacts_normal_form:
  "distinct (normalize_contacts loc cs) \<and>
   system_console_name loc \<in> set (normalize_contacts loc cs) \<and>
   default_channel_name loc \<in> set (normalize_contacts loc cs) \<and>
   normalize_contacts loc (normalize_contacts loc cs) = normalize_contacts loc cs"
proof -
  let ?n = "normalize_contacts loc cs"
  have "map (contact_norm loc) ?n = ?n" by (rule map_idI) (rule normalize_facts(4))
  then have "js_uniq (map (contact_norm loc) ?n) = ?n"
    using js_uniq_distinct_id [OF normalize_facts(1)] by simp
  then have "normalize_contacts loc ?n = ?n"
    using normalize_facts(2,3) [of loc cs]
    by (simp add: normalize_eq [of loc ?n])
  then show ?thesis using normalize_facts(1-3) [of loc cs] by simp
qed

text \<open>
  One instance per database file: while the process named in the lock file runs, acquiring the
  lock fails; a stale or unreadable lock is taken over unless another process took it first; and the
  file a process wrote is recognised as its own when it releases it.
\<close>

theorem database_lock_exclusive:
  assumes "0 < pid"
  shows "acquireLock running raced pid now path None = Inr (lock_payload pid now path) \<and>
    (running pid \<longrightarrow> acquireLock running raced2 pid2 now2 path2 (Some (lock_payload pid now path)) = Inl SQLITE_BUSY_INSTANCE) \<and>
    (\<not> running pid \<longrightarrow> acquireLock running False pid2 now2 path2 (Some (lock_payload pid now path)) =
       Inr (lock_payload pid2 now2 path2)) \<and>
    releaseLock True pid (Some (lock_payload pid now path)) = None \<and>
    (pid2 \<noteq> pid \<longrightarrow> releaseLock True pid2 (Some (lock_payload pid now path)) = Some (lock_payload pid now path))"
proof -
  let ?j = "JObj [(''pid'', JNum pid), (''createdAt'', JNum now), (''filepath'', JStr path)]"
  have p: "json_parse (lock_payload pid now path) = Some ?j"
    unfolding lock_payload_def by (rule json_parse_stringify) simp
  then have "lock_pid (lock_payload pid now path) = Some pid" using assms by (simp add: lock_pid_def)
  then show ?thesis using p by (simp add: acquireLock_def releaseLock_def)
qed

theorem database_lock_exclusive_witness:
  "acquireLock (\<lambda>p. p = 7) False 8 2 ''/d'' (Some (lock_payload 7 1 ''/d'')) = Inl SQLITE_BUSY_INSTANCE"
  using database_lock_exclusive [of 7 "\<lambda>p. p = 7"] by simp

lemma circuit_saved:
  assumes "truthy prevHop"
  shows "getCircuit C cid prevHop (saveCircuit C rnd cid prevHop nh key t0 d) =
    Some \<lparr>c_circuitId = cid, c_prevHop = prevHop, c_nextHop = nh, c_symmetricKey = KeyBuffer key, c_createdAt = t0\<rparr>"
  using assms by (simp add: getCircuit_def saveCircuit_def Let_def jsmap_simps)

end
