(* ===== verification/JsonSize.thy ===== *)
theory JsonSize
  imports Json Bytes
begin

text \<open>
  How many bytes \<open>JSON.stringify\<close> prints: the size of an object is the sum over its members, text
  without quotes, backslashes, control or non-ASCII characters prints as itself. Base64 text is of
  that kind.
\<close>

definition plain_char :: "char \<Rightarrow> bool" where
  "plain_char c = (let n = of_char c :: nat in 32 \<le> n \<and> n < 127 \<and> n \<noteq> 34 \<and> n \<noteq> 92)"

abbreviation plain :: "string \<Rightarrow> bool" where
  "plain s \<equiv> list_all plain_char s"

lemma plain_bytes: "plain s \<Longrightarrow> byteLength s = length s"
  by (induction s) (auto simp: utf8_def utf8_char_def plain_char_def Let_def)

lemma plain_esc: "plain_char c \<Longrightarrow> esc_char c = [c]"
  by (auto simp: esc_char_def plain_char_def Let_def)

lemma plain_concat: "plain s \<Longrightarrow> concat (map esc_char s) = s"
  by (induction s) (simp_all add: plain_esc)

lemma plain_quote: "plain s \<Longrightarrow> byteLength (quote s) = length s + 2"
  by (simp add: quote_def plain_concat plain_bytes utf8_append utf8_def utf8_char_def)
     (simp add: plain_bytes flip: utf8_def)

lemma bytes_ascii: "(of_char c :: nat) < 128 \<Longrightarrow> byteLength (c # s) = Suc (byteLength s)"
  by (simp add: utf8_def utf8_char_def Let_def)

lemma bytes_members:
  "ms \<noteq> [] \<Longrightarrow> byteLength (str_members ms) =
     (\<Sum>(k, v) \<leftarrow> ms. byteLength (quote k) + byteLength (stringify v) + 2)"
proof (induction ms)
  case (Cons m ms)
  then show ?case
    by (cases "ms = []") (auto simp: utf8_append bytes_ascii split_beta)
qed simp

lemma bytes_object:
  "ms \<noteq> [] \<Longrightarrow> byteLength (stringify (JObj ms)) =
     1 + (\<Sum>(k, v) \<leftarrow> ms. byteLength (quote k) + byteLength (stringify v) + 2)"
  by (cases ms) (simp_all add: bytes_ascii bytes_members del: str_members.simps)

lemma b64_plain: "plain (b64_encode bs)"
proof -
  have "plain B64" "length B64 = 64" by (simp_all add: B64_def plain_char_def)
  then have "d < 64 \<Longrightarrow> plain_char (b64_char d)" for d by (simp add: b64_char_def list_all_length)
  then show ?thesis
    by (induction bs rule: b64_encode.induct) (simp_all add: plain_char_def)
qed

end
