(* ===== verification/FedState.thy ===== *)
theory FedState
  imports PeerManager Database JsonSize
begin

text \<open>
  The state the managers of \<open>src/core/federation.js\<close> share (\<open>FederationEngine\<close>'s fields), the effects
  their operations have on the world, and the operations of the engine itself that every manager
  calls: roles, the addresses a relay announces, the self test. An operation is an \<open>act\<close>: a function
  from the state to the new state and the list of its effects in order.

  A secure channel is known here by a number; what the managers read of it is its \<open>link\<close>. Values that
  arrive in packets are read at their declared type: a string field that holds another JSON value
  reads as absent.
\<close>

section \<open>State\<close>

record socket_view =
  sv_remote :: "string option"
  sv_realRemote :: "string option"
  sv_remotePort :: "int option"
  sv_local :: "string option"
  sv_localPort :: "int option"
  sv_writable :: bool
  sv_destroyed :: bool

record link =
  l_ready :: bool
  l_socket :: "socket_view option"
  l_peerAddress :: "string option"
  l_peerKey :: "string option"
  l_peerKem :: "string option"
  l_lastPong :: int
  l_lastSync :: int
  l_closeHook :: bool

record presence =
  ps_role :: string
  ps_rendezvous :: "string list"
  ps_kem :: "string option"
  ps_ident :: "string option"
  ps_channels :: "string list"
  ps_lastSeen :: int

record remote_user =
  ru_lastSeen :: int
  ru_channels :: "string list"
  ru_isSsh :: bool
  ru_kem :: string

record tunnel =
  tn_chan :: nat
  tn_boundAt :: int
  tn_address :: string
  tn_kem :: "string option"
  tn_ident :: string

record dial =
  dl_chan :: "nat option"
  dl_nonce :: json
  dl_released :: bool

record nat_state =
  nt_votes :: "(string, string list) jsmap"
  nt_running :: bool
  nt_pending :: "(string, string) jsmap"
  nt_rateLimit :: "(string, int) jsmap"
  nt_active :: int
  nt_dials :: "dial list"

record hop =
  h_nodeId :: string
  h_address :: string
  h_kem :: string

record circuit =
  ci_id :: string
  ci_hops :: "hop list"
  ci_keys :: "byte list list"
  ci_target :: "string option"
  ci_createdAt :: int

record seen_sets =
  sn_presence :: "string list"
  sn_routes :: "string list"
  sn_offline :: "string list"

record fed =
  f_db :: db
  f_peers :: peer_state
  f_role :: string
  f_publicIp :: "string option"
  f_nodeAddress :: string
  f_maintaining :: bool
  f_closed :: bool
  f_phys :: "(string, string) jsmap"
  f_tunnels :: "(string, tunnel) jsmap"
  f_relays :: "(string, nat) jsmap"
  f_bound :: "string list"
  f_presence :: "(string, presence) jsmap"
  f_users :: "(string, remote_user) jsmap"
  f_subs :: "(string, string list) jsmap"
  f_pool :: "(string, nat) jsmap"
  f_nonces :: ttl_store
  f_seen :: ttl_store
  f_nat :: nat_state
  f_circuits :: "(string, circuit) jsmap"
  f_sets :: seen_sets
  f_link :: "nat \<Rightarrow> link"

text \<open>What \<open>getLocalStateFn\<close> returns: the users of this node's own sessions and their channels.\<close>

record membership =
  mb_user :: string
  mb_channels :: "string list"
  mb_isSsh :: bool
  mb_kem :: string

record local_state =
  ls_users :: "string list"
  ls_channels :: "string list"
  ls_memberships :: "membership list"

record fed_env =
  fe_crypto :: node_crypto
  fe_cfg :: config
  fe_nodeId :: string
  fe_identityPub :: string
  fe_identityPriv :: string
  fe_kemPub :: string
  fe_kemPriv :: string
  fe_interfaces :: "string list"
  fe_test :: bool
  fe_meshRole :: string
  fe_clock :: clock
  fe_state :: "local_state option"

definition fe_penv :: "fed_env \<Rightarrow> peer_env" where
  "fe_penv E = \<lparr>pe_cfg = fe_cfg E, pe_interfaces = fe_interfaces E\<rparr>"

definition fe_meshAddress :: "fed_env \<Rightarrow> string" where
  "fe_meshAddress E = meshAddress (fe_nodeId E)"

text \<open>\<open>AddressHelper.parse\<close> once \<open>setLocalNodeId\<close> has run with this node's id.\<close>

definition parse_addr :: "fed_env \<Rightarrow> string \<Rightarrow> parsed_address option" where
  "parse_addr E s = parse (fe_cfg E) (setLocalNodeId (fe_nodeId E)) s"

text \<open>\<open>x || null\<close> and \<open>x || ''\<close> in an object literal.\<close>

definition or_null :: "string option \<Rightarrow> json" where
  "or_null v = (if truthy v then JStr (the v) else JNull)"

definition or_empty :: "string option \<Rightarrow> string" where
  "or_empty v = (if truthy v then the v else [])"

definition strings :: "string list \<Rightarrow> json" where
  "strings xs = JArr (map JStr xs)"

section \<open>Effects\<close>

datatype fed_event = NatConsensus string | RoleChange string | PresenceChange | TypingEvent json | MessageEvent message

text \<open>
  \<open>SendPacket\<close> and \<open>ConnectWrite\<close> are the calls whose result is not awaited: the first opens a channel
  and writes, the second writes on the opened channel if it is ready and none of the listed ones; the
  flag says whether a failure lowers the peer's score. \<open>Request\<close> opens a channel, writes and waits for
  the answer.
\<close>

datatype fed_effect =
    Write nat json
  | SendPacket string int json bool
  | ConnectWrite string int json "nat list" bool
  | Request string "int option" json
  | DeliverLocal json
  | WriteByte nat
  | DestroySocket nat
  | Emitted fed_event
  | Dial string int
  | OnionSend string json
  | Maintain
  | ProcessOutbox

type_synonym act = "fed \<Rightarrow> fed \<times> fed_effect list"

definition change :: "(fed \<Rightarrow> fed) \<Rightarrow> act" where
  "change g f = (g f, [])"

definition effects :: "fed_effect list \<Rightarrow> act" where
  "effects es f = (f, es)"

fun in_order :: "act list \<Rightarrow> act" where
  "in_order [] f = (f, [])"
| "in_order (a # as) f = (let (f1, e1) = a f; (f2, e2) = in_order as f1 in (f2, e1 @ e2))"

abbreviation act_if :: "bool \<Rightarrow> act \<Rightarrow> act" where
  "act_if b a \<equiv> if b then a else effects []"

named_theorems act_simps

lemma act_basic [act_simps]: "change g f = (g f, [])" "effects es f = (f, es)"
  by (simp_all add: change_def effects_def)

lemma in_order_append [act_simps]:
  "in_order (as @ bs) f = (let (f1, e1) = in_order as f; (f2, e2) = in_order bs f1 in (f2, e1 @ e2))"
  by (induction as arbitrary: f) (auto split: prod.splits)

lemma in_order_keeps:
  assumes "I f" "\<And>a f. a \<in> set as \<Longrightarrow> I f \<Longrightarrow> I (fst (a f))"
  shows "I (fst (in_order as f))"
  using assms
proof (induction as arbitrary: f)
  case (Cons a as)
  obtain f1 e1 where a: "a f = (f1, e1)" by fastforce
  obtain f2 e2 where r: "in_order as f1 = (f2, e2)" by fastforce
  have "I f1" using Cons.prems(2) [of a f] Cons.prems(1) a by simp
  then have "I (fst (in_order as f1))" by (rule Cons.IH) (rule Cons.prems(2), auto)
  then show ?case by (simp add: a r)
qed simp

lemma in_order_effects:
  assumes "e \<in> set (snd (in_order as f))" "\<And>a f. a \<in> set as \<Longrightarrow> \<forall>e \<in> set (snd (a f)). P e"
  shows "P e"
  using assms
proof (induction as arbitrary: f)
  case (Cons a as)
  obtain f1 e1 where a: "a f = (f1, e1)" by fastforce
  obtain f2 e2 where r: "in_order as f1 = (f2, e2)" by fastforce
  from Cons.prems(1) consider "e \<in> set e1" | "e \<in> set (snd (in_order as f1))"
    by (auto simp: a r)
  then show ?case
  proof cases
    case 1 then show ?thesis using Cons.prems(2) [of a f] a by auto
  next
    case 2 then show ?thesis using Cons.IH Cons.prems(2) by auto
  qed
qed simp

lemma in_order_same: "(\<And>a f. a \<in> set as \<Longrightarrow> fst (a f) = f) \<Longrightarrow> fst (in_order as f) = f"
  by (rule in_order_keeps) simp_all

section \<open>Reading channels\<close>

definition no_link :: link where
  "no_link = \<lparr>l_ready = False, l_socket = None, l_peerAddress = None, l_peerKey = None, l_peerKem = None,
     l_lastPong = 0, l_lastSync = 0, l_closeHook = False\<rparr>"

text \<open>A handler's channel: \<open>None\<close> is the stand-in channel of a locally delivered message.\<close>

definition link_of :: "fed \<Rightarrow> nat option \<Rightarrow> link" where
  "link_of f ch = (case ch of None \<Rightarrow> no_link | Some c \<Rightarrow> f_link f c)"

text \<open>\<open>channel.socket?.writable\<close>, and \<open>!channel.socket || channel.socket.writable !== false\<close>.\<close>

definition socket_writable :: "link \<Rightarrow> bool" where
  "socket_writable l = (case l_socket l of None \<Rightarrow> False | Some s \<Rightarrow> sv_writable s)"

definition not_unwritable :: "link \<Rightarrow> bool" where
  "not_unwritable l = (case l_socket l of None \<Rightarrow> True | Some s \<Rightarrow> sv_writable s)"

definition remote_ip :: "link \<Rightarrow> string" where
  "remote_ip l = (case l_socket l of None \<Rightarrow> [] | Some s \<Rightarrow> strip_v4mapped (the (or_else (sv_remote s) (Some []))))"

definition real_remote_ip :: "link \<Rightarrow> string" where
  "real_remote_ip l =
     (case l_socket l of None \<Rightarrow> []
      | Some s \<Rightarrow> strip_v4mapped (the (or_else (sv_realRemote s) (or_else (sv_remote s) (Some [])))))"

definition replies :: "nat option \<Rightarrow> json \<Rightarrow> fed_effect list" where
  "replies ch payload = (case ch of None \<Rightarrow> [] | Some c \<Rightarrow> [Write c payload])"

section \<open>Roles and addresses\<close>

definition is_relay_name :: "string \<Rightarrow> bool" where
  "is_relay_name r = (r = ''RELAY'' \<or> r = ''CAP_RELAY'')"

definition isRelay :: "fed \<Rightarrow> bool" where
  "isRelay f = is_relay_name (f_role f)"

definition loopback_or_local :: "config \<Rightarrow> bool" where
  "loopback_or_local cfg =
     (serverName cfg = [] \<or> serverName cfg = ''localhost'' \<or> starts_with ''127.'' (serverName cfg) \<or>
      serverName cfg = ''0.0.0.0'')"

definition getRelayAnnounceAddress :: "fed_env \<Rightarrow> fed \<Rightarrow> string" where
  "getRelayAnnounceAddress E f =
     (let cfg = fe_cfg E; port = show_int (pub_port cfg)
      in if loopback_or_local cfg \<and> truthy (f_publicIp f) then the (f_publicIp f) @ '':'' @ port
         else (if serverName cfg = [] then ''127.0.0.1'' else serverName cfg) @ '':'' @ port)"

definition isSelfPeerAddress :: "fed_env \<Rightarrow> fed \<Rightarrow> string \<Rightarrow> int option \<Rightarrow> bool" where
  "isSelfPeerAddress E f host port = isSelfAddress (fe_penv E) (f_peers f) host port"

text \<open>A known peer \<open>host:port\<close> as the broadcast loops read it; \<open>None\<close> is skipped.\<close>

definition peer_target :: "string \<Rightarrow> (string \<times> int) option" where
  "peer_target peer =
     (if CHR '':'' \<notin> set peer \<or> addr_host peer = [] then None
      else map_option (Pair (addr_host peer)) (addr_port peer))"

definition host_port :: "string \<Rightarrow> int \<Rightarrow> string" where
  "host_port h p = h @ '':'' @ show_int p"

definition isTransitEdge :: "fed_env \<Rightarrow> fed \<Rightarrow> bool" where
  "isTransitEdge E f =
     (f_role f = ''CAP_EDGE_TRANSIT'' \<or> (allowEdgeRouting (fe_cfg E) \<and> length (f_relays f) \<ge> 2))"

definition new_fed :: "fed_env \<Rightarrow> db \<Rightarrow> peer_state \<Rightarrow> fed" where
  "new_fed E d p =
     \<lparr>f_db = d, f_peers = p, f_role = fe_meshRole E, f_publicIp = None,
      f_nodeAddress = serverName (fe_cfg E) @ '':'' @ show_int (pub_port (fe_cfg E)), f_maintaining = False, f_closed = False,
      f_phys = [], f_tunnels = [], f_relays = [], f_bound = [], f_presence = [], f_users = [], f_subs = [],
      f_pool = [], f_nonces = new_store 60000 50000, f_seen = new_store 180000 5000,
      f_nat = \<lparr>nt_votes = [], nt_running = False, nt_pending = [], nt_rateLimit = [], nt_active = 0, nt_dials = []\<rparr>,
      f_circuits = [], f_sets = \<lparr>sn_presence = [], sn_routes = [], sn_offline = []\<rparr>, f_link = (\<lambda>_. no_link)\<rparr>"

end
