(* ===== verification/Onion.thy ===== *)
theory Onion
  imports FedState
begin

text \<open>
  \<open>src/core/onionRouter.js\<close>: circuits of one to three relays, the layered cells that travel over them
  and what each relay does with a cell. The randomness of every encryption is an argument. Where the
  code waits for an answer, the answer is an argument too: the payloads that arrive on the channel
  before the timeout, or \<open>None\<close> when no channel could be opened.
\<close>

section \<open>Cells\<close>

definition UNIFORM_CELL_SIZE :: "fed_env \<Rightarrow> int" where
  "UNIFORM_CELL_SIZE E = or_default (uniformCellSize (fe_cfg E)) 2048"

definition MAX_ONION_PAYLOAD :: int where
  "MAX_ONION_PAYLOAD = 768"

definition raw_cell :: "json \<Rightarrow> string \<Rightarrow> json" where
  "raw_cell cell pad =
     obj [(''type'', Some (JStr ''ONION_CELL'')), (''circuitId'', field cell ''circuitId''), (''iv'', field cell ''iv''),
       (''authTag'', field cell ''authTag''), (''ciphertext'', field cell ''ciphertext''), (''pad'', Some (JStr pad))]"

definition wire_bytes :: "json \<Rightarrow> int" where
  "wire_bytes j = int (byteLength (stringify j @ [CHR 0x0A]))"

definition getPaddedCellObject :: "fed_env \<Rightarrow> json \<Rightarrow> json" where
  "getPaddedCellObject E cell =
     (let diff = UNIFORM_CELL_SIZE E - wire_bytes (raw_cell cell [])
      in if diff > 0 then raw_cell cell (replicate (nat diff) CHR ''0'') else raw_cell cell [])"

definition formatPaddedCell :: "fed_env \<Rightarrow> json \<Rightarrow> string" where
  "formatPaddedCell E cell = stringify (getPaddedCellObject E cell) @ [CHR 0x0A]"

definition getHopIdentifier :: "link \<Rightarrow> string" where
  "getHopIdentifier l =
     (if truthy (l_peerAddress l) then the (l_peerAddress l)
      else
        let ip = remote_ip l;
            port = Option.bind (l_socket l) sv_remotePort
        in case port of
             Some p \<Rightarrow>
               if ip \<noteq> [] \<and> p \<noteq> 0
               then (if CHR '':'' \<in> set ip then ''['' @ ip @ '']'' else ip) @ '':'' @ show_int p
               else if ip = [] then ''unknown'' else ip
           | None \<Rightarrow> if ip = [] then ''unknown'' else ip)"

section \<open>Building a circuit\<close>

definition onion_key :: "node_crypto \<Rightarrow> byte list \<Rightarrow> string \<Rightarrow> byte list" where
  "onion_key C sharedSecret circuitId = deriveKey C sharedSecret circuitId ''p2p-mesh-onion-v2''"

text \<open>The key of each hop and its encapsulation; a hop without a key, or with one that fails, throws.\<close>

fun hop_keys :: "node_crypto \<Rightarrow> (nat \<Rightarrow> byte list) \<Rightarrow> string \<Rightarrow> nat \<Rightarrow> hop list \<Rightarrow> (byte list \<times> string) list result" where
  "hop_keys C seeds cid i [] = Ok []"
| "hop_keys C seeds cid i (h # hs) =
     (if h_kem h = [] then Throw ''ONION_HOP_NO_KEY''
      else case encapsulateKey C (seeds i) (h_kem h) of
             None \<Rightarrow> Throw ''encapsulateKey''
           | Some (secret, enc) \<Rightarrow>
               (case hop_keys C seeds cid (Suc i) hs of
                  Throw e \<Rightarrow> Throw e
                | Ok ks \<Rightarrow> Ok ((onion_key C secret cid, enc) # ks)))"

definition setup_frame :: "nat \<Rightarrow> string \<Rightarrow> string \<Rightarrow> json \<Rightarrow> json \<Rightarrow> json" where
  "setup_frame i cid enc nextHop extendPayload =
     JObj [(''type'', JStr (if i = 0 then ''CIRCUIT_CREATE'' else ''CIRCUIT_EXTEND'')), (''circuitId'', JStr cid),
       (''encapsulatedKey'', JStr enc), (''nextHop'', nextHop), (''extendPayload'', extendPayload)]"

text \<open>The setup packet of hop \<open>i\<close> onwards: each hop but the last carries the rest under its own key.\<close>

fun setup_packet :: "node_crypto \<Rightarrow> (nat \<Rightarrow> byte list) \<Rightarrow> string \<Rightarrow> nat \<Rightarrow> hop list \<Rightarrow> (byte list \<times> string) list \<Rightarrow> json" where
  "setup_packet C ivs cid i (h # h2 # hs) ((k, enc) # ks) =
     setup_frame i cid enc (JStr (h_address h2))
       (json_of_envelope (encrypt C (ivs i) (stringify (setup_packet C ivs cid (Suc i) (h2 # hs) ks)) (KeyBuffer k)))"
| "setup_packet C ivs cid i hs ((k, enc) # ks) = setup_frame i cid enc JNull JNull"
| "setup_packet C ivs cid i hs [] = JNull"

text \<open>The first payload the waiting listener takes; nothing in time is \<open>unacknowledged\<close>.\<close>

definition takes_answer :: "string \<Rightarrow> json \<Rightarrow> bool" where
  "takes_answer cid p =
     (field p ''circuitId'' = Some (JStr cid) \<or> str_field p ''status'' = Some ''circuit_ready'' \<or>
      str_field p ''status'' = Some ''error'')"

definition await_answer :: "string \<Rightarrow> string \<Rightarrow> json list \<Rightarrow> json" where
  "await_answer status cid answers =
     (case find (takes_answer cid) answers of
        Some p \<Rightarrow> p | None \<Rightarrow> JObj [(''status'', JStr status)])"

definition circuit_ready :: "json \<Rightarrow> bool" where
  "circuit_ready res = (str_field res ''status'' = Some ''circuit_ready'')"

definition buildCircuit ::
  "fed_env \<Rightarrow> (nat \<Rightarrow> byte list) \<Rightarrow> (nat \<Rightarrow> byte list) \<Rightarrow> string \<Rightarrow> int \<Rightarrow> hop list \<Rightarrow> string option \<Rightarrow>
   json list option \<Rightarrow> fed \<Rightarrow> circuit result \<times> fed \<times> fed_effect list" where
  "buildCircuit E seeds ivs cid now hops target answers f =
     (case hops of
        [] \<Rightarrow> (Throw ''ONION_CIRCUIT_MIN_HOPS'', f, [])
      | first # _ \<Rightarrow>
          (case hop_keys (fe_crypto E) seeds cid 0 hops of
             Throw e \<Rightarrow> (Throw e, f, [])
           | Ok ks \<Rightarrow>
               let req = Request (addr_host (h_address first)) (addr_port (h_address first))
                           (setup_packet (fe_crypto E) ivs cid 0 hops ks)
               in (case answers of
                     None \<Rightarrow> (Throw ''connect'', f, [req])
                   | Some ps \<Rightarrow>
                       if \<not> circuit_ready (await_answer ''unacknowledged'' cid ps)
                       then (Throw ''ONION_GUARD_UNACKNOWLEDGED'', f, [req])
                       else let c = \<lparr>ci_id = cid, ci_hops = hops, ci_keys = map fst ks,
                                     ci_target = or_else target None, ci_createdAt = now\<rparr>
                            in (Ok c, f\<lparr>f_circuits := jm_set cid c (f_circuits f)\<rparr>, [req]))))"

section \<open>The client's circuits\<close>

definition circuit_ttl :: "fed_env \<Rightarrow> int" where
  "circuit_ttl E = or_default (circuitTtl (fe_cfg E)) 600000"

fun scan_circuits :: "int \<Rightarrow> int \<Rightarrow> string \<Rightarrow> (string, circuit) jsmap \<Rightarrow> circuit option \<times> (string, circuit) jsmap" where
  "scan_circuits now ttl target [] = (None, [])"
| "scan_circuits now ttl target ((i, c) # m) =
     (if now - ci_createdAt c > ttl then scan_circuits now ttl target m
      else if ci_target c = Some target then (Some c, (i, c) # m)
      else let (r, m') = scan_circuits now ttl target m in (r, (i, c) # m'))"

definition getActiveCircuitForTarget :: "fed_env \<Rightarrow> int \<Rightarrow> string \<Rightarrow> fed \<Rightarrow> circuit option \<times> fed" where
  "getActiveCircuitForTarget E now target f =
     (if target = [] then (None, f)
      else let (r, m) = scan_circuits now (circuit_ttl E) target (f_circuits f) in (r, f\<lparr>f_circuits := m\<rparr>))"

definition removeClientCircuit :: "string \<Rightarrow> fed \<Rightarrow> fed" where
  "removeClientCircuit cid f = (if cid = [] then f else f\<lparr>f_circuits := jm_delete cid (f_circuits f)\<rparr>)"

definition removeCircuitsForHop :: "string \<Rightarrow> fed \<Rightarrow> fed" where
  "removeCircuitsForHop hopAddress f =
     (if hopAddress = [] then f
      else f\<lparr>f_circuits := filter (\<lambda>(_, c). \<not> list_ex (\<lambda>h. h_address h = hopAddress) (ci_hops c)) (f_circuits f)\<rparr>)"

definition cleanupExpiredCircuits :: "fed_env \<Rightarrow> int \<Rightarrow> fed \<Rightarrow> fed" where
  "cleanupExpiredCircuits E now f =
     f\<lparr>f_circuits := filter (\<lambda>(_, c). \<not> now - ci_createdAt c > circuit_ttl E) (f_circuits f),
       f_db := deleteExpiredCircuits now (circuit_ttl E) (f_db f)\<rparr>"

section \<open>Sending a cell\<close>

definition cell_of :: "string \<Rightarrow> envelope \<Rightarrow> json" where
  "cell_of cid e =
     JObj [(''circuitId'', JStr cid), (''iv'', JStr (iv e)), (''authTag'', JStr (authTag e)), (''ciphertext'', JStr (ciphertext e))]"

definition deliver_layer :: "string \<Rightarrow> json \<Rightarrow> json" where
  "deliver_layer target payload = JObj [(''deliverTo'', JStr target), (''payload'', payload)]"

definition forward_layer :: "string \<Rightarrow> json \<Rightarrow> json" where
  "forward_layer address cell = JObj [(''forwardTo'', JStr address), (''cell'', cell)]"

text \<open>The cell for hop \<open>i\<close>; the list holds the hops from \<open>i\<close> on with their keys.\<close>

fun onion_cell :: "node_crypto \<Rightarrow> (nat \<Rightarrow> byte list) \<Rightarrow> string \<Rightarrow> string \<Rightarrow> json \<Rightarrow> nat \<Rightarrow> (hop \<times> byte list) list \<Rightarrow> json" where
  "onion_cell C ivs cid target payload i ((h, k) # (h2, k2) # hs) =
     cell_of cid (encrypt C (ivs i)
       (stringify (forward_layer (h_address h2) (onion_cell C ivs cid target payload (Suc i) ((h2, k2) # hs)))) (KeyBuffer k))"
| "onion_cell C ivs cid target payload i [(h, k)] =
     cell_of cid (encrypt C (ivs i) (stringify (deliver_layer target payload)) (KeyBuffer k))"
| "onion_cell C ivs cid target payload i [] = JNull"

definition payload_text :: "json \<Rightarrow> string" where
  "payload_text payload = (case payload of JStr s \<Rightarrow> s | _ \<Rightarrow> stringify payload)"

definition sendOnionCell ::
  "fed_env \<Rightarrow> (nat \<Rightarrow> byte list) \<Rightarrow> circuit \<Rightarrow> string \<Rightarrow> json \<Rightarrow> nat option \<Rightarrow> json result \<times> fed_effect list" where
  "sendOnionCell E ivs c target payload chan =
     (if int (byteLength (payload_text payload)) > MAX_ONION_PAYLOAD then (Throw ''ONION_PAYLOAD_SIZE_EXCEEDED'', [])
      else case chan of
             None \<Rightarrow> (Throw ''connect'', [])
           | Some ch \<Rightarrow>
               (Ok (JObj [(''status'', JStr ''onion_sent''), (''circuitId'', JStr (ci_id c))]),
                [Write ch (getPaddedCellObject E
                   (onion_cell (fe_crypto E) ivs (ci_id c) target payload 0 (zip (ci_hops c) (ci_keys c))))]))"

section \<open>A relay's side: setup\<close>

definition reply_error :: "nat option \<Rightarrow> string \<Rightarrow> fed_effect list" where
  "reply_error ch reason = replies ch (JObj [(''status'', JStr ''error''), (''reason'', JStr reason)])"

definition reply_ready :: "nat option \<Rightarrow> string \<Rightarrow> fed_effect list" where
  "reply_ready ch cid = replies ch (JObj [(''status'', JStr ''circuit_ready''), (''circuitId'', JStr cid)])"

text \<open>The open tunnel or relay connection that already leads to an address.\<close>

definition matches_relay :: "fed \<Rightarrow> string \<Rightarrow> string \<Rightarrow> nat \<Rightarrow> bool" where
  "matches_relay f address relayAddr c =
     (relayAddr = address \<or> l_peerAddress (f_link f c) = Some address \<or>
      (CHR '':'' \<in> set address \<and> ends_with address relayAddr))"

definition bridge_for_setup :: "fed \<Rightarrow> string \<Rightarrow> nat option" where
  "bridge_for_setup f nextHop =
     (case jm_get (f_tunnels f) nextHop of
        Some t \<Rightarrow> Some (tn_chan t)
      | None \<Rightarrow> map_option snd (find (\<lambda>(a, c). matches_relay f nextHop a c) (f_relays f)))"

definition extend_result :: "string \<Rightarrow> json \<Rightarrow> nat option \<Rightarrow> fed_effect list" where
  "extend_result cid res ch =
     (if circuit_ready res then reply_ready ch cid
      else reply_error ch (the (or_else (str_field res ''reason'') (Some ''next_hop_extend_failed''))))"

text \<open>
  The answers that come back from the next hop; \<open>None\<close> is a failed connection, which only the plain
  connection can be.
\<close>

definition extend_circuit :: "string \<Rightarrow> string \<Rightarrow> json \<Rightarrow> json list option \<Rightarrow> nat option \<Rightarrow> fed \<Rightarrow> fed_effect list" where
  "extend_circuit cid nextHop inner answers ch f =
     (case bridge_for_setup f nextHop of
        Some c \<Rightarrow>
          Write c inner # extend_result cid
            (case find (takes_answer cid) (case answers of None \<Rightarrow> [] | Some ps \<Rightarrow> ps) of
               Some p \<Rightarrow> p
             | None \<Rightarrow> JObj [(''status'', JStr ''error''), (''reason'', JStr ''extend_tunnel_timeout'')]) ch
      | None \<Rightarrow>
          Request (addr_host nextHop) (addr_port nextHop) inner # extend_result cid
            (case answers of
               None \<Rightarrow> JObj [(''status'', JStr ''error''), (''reason'', JStr ''connect'')]
             | Some ps \<Rightarrow>
                 (case find (takes_answer cid) ps of
                    Some p \<Rightarrow> p
                  | None \<Rightarrow> JObj [(''status'', JStr ''error''), (''reason'', JStr ''extend_timeout'')])) ch)"

definition handleCircuitSetup ::
  "fed_env \<Rightarrow> int \<Rightarrow> byte list \<Rightarrow> json \<Rightarrow> nat option \<Rightarrow> json list option \<Rightarrow> act" where
  "handleCircuitSetup E now random payload ch answers f =
     (if \<not> truthy_field payload ''circuitId'' \<or> \<not> truthy_field payload ''encapsulatedKey''
      then (f, reply_error ch ''invalid_circuit_payload'')
      else case (str_field payload ''circuitId'', str_field payload ''encapsulatedKey'') of
        (Some cid, Some enc) \<Rightarrow>
          (case decapsulateKey (fe_crypto E) (fe_kemPriv E) enc of
             None \<Rightarrow> (f, reply_error ch ''decapsulateKey'')
           | Some secret \<Rightarrow>
               let key = onion_key (fe_crypto E) secret cid;
                   prevHop = getHopIdentifier (link_of f ch);
                   nextHop = or_else (str_field payload ''nextHop'') None;
                   f1 = f\<lparr>f_db := saveCircuit (fe_crypto E) random cid (Some prevHop) nextHop key now (f_db f)\<rparr>
               in if truthy nextHop \<and> truthy_field payload ''extendPayload''
                  then (case Option.bind (Option.bind (field payload ''extendPayload'') envelope_of_json)
                               (\<lambda>e. decrypt (fe_crypto E) e (KeyBuffer key)) of
                          Some (x # xs) \<Rightarrow>
                            if int (byteLength (x # xs)) > UNIFORM_CELL_SIZE E * 2
                            then (f1, reply_error ch ''extend_payload_too_large'')
                            else (case json_parse (x # xs) of
                                    None \<Rightarrow> (f1, reply_error ch ''invalid_extend_json'')
                                  | Some inner \<Rightarrow> (f1, extend_circuit cid (the nextHop) inner answers ch f1))
                        | _ \<Rightarrow> (f1, reply_error ch ''extend_decrypt_failed''))
                  else (f1, reply_ready ch cid))
      | _ \<Rightarrow> (f, reply_error ch ''TypeError''))"

section \<open>A relay's side: cells\<close>

definition bridge_for_cell :: "fed \<Rightarrow> string \<Rightarrow> nat option" where
  "bridge_for_cell f address =
     (let tunnel = (case jm_get (f_tunnels f) address of
                      Some t \<Rightarrow> if not_unwritable (f_link f (tn_chan t)) then Some (tn_chan t) else None
                    | None \<Rightarrow> None)
      in case tunnel of
           Some c \<Rightarrow> Some c
         | None \<Rightarrow> map_option snd (find (\<lambda>(a, c). not_unwritable (f_link f c) \<and> matches_relay f address a c) (f_relays f)))"

definition forward_cell :: "fed_env \<Rightarrow> fed \<Rightarrow> json \<Rightarrow> json \<Rightarrow> fed_effect list" where
  "forward_cell E f forwardTo cell =
     (if int (byteLength (stringify cell)) > UNIFORM_CELL_SIZE E * 2 then []
      else case forwardTo of
        JStr address \<Rightarrow>
          (case peer_target address of
             None \<Rightarrow> []
           | Some (host, port) \<Rightarrow>
               if port < 1 \<or> port > 65535 then []
               else let padded = getPaddedCellObject E cell
                    in case bridge_for_cell f address of
                         Some c \<Rightarrow> [Write c padded]
                       | None \<Rightarrow> [ConnectWrite host port padded [] False])
      | _ \<Rightarrow> [])"

definition deliver_cell :: "fed_env \<Rightarrow> fed \<Rightarrow> json \<Rightarrow> json \<Rightarrow> fed_effect list" where
  "deliver_cell E f deliverTo payload =
     (if int (byteLength (stringify payload)) > UNIFORM_CELL_SIZE E * 2 then []
      else if deliverTo = JStr (fe_nodeId E) then [DeliverLocal payload]
      else case deliverTo of
        JStr target \<Rightarrow>
          (case jm_get (f_tunnels f) target of
             Some t \<Rightarrow> if not_unwritable (f_link f (tn_chan t)) then [Write (tn_chan t) payload] else []
           | None \<Rightarrow> [])
      | _ \<Rightarrow> [])"

definition peel :: "fed_env \<Rightarrow> json \<Rightarrow> nat option \<Rightarrow> fed \<Rightarrow> json option" where
  "peel E cell ch f =
     (case (str_field cell ''circuitId'', str_field cell ''iv'', str_field cell ''authTag'', str_field cell ''ciphertext'') of
        (Some cid, Some i, Some tag, Some ct) \<Rightarrow>
          if cid = [] \<or> i = [] \<or> tag = [] \<or> ct = [] then None
          else (case getCircuit (fe_crypto E) cid (Some (getHopIdentifier (link_of f ch))) (f_db f) of
                  None \<Rightarrow> None
                | Some circuit \<Rightarrow>
                    (case decrypt (fe_crypto E) \<lparr>ciphertext = ct, iv = i, authTag = tag\<rparr> (c_symmetricKey circuit) of
                       Some (x # xs) \<Rightarrow> json_parse (x # xs)
                     | _ \<Rightarrow> None))
      | _ \<Rightarrow> None)"

definition handleOnionCell :: "fed_env \<Rightarrow> json \<Rightarrow> nat option \<Rightarrow> fed \<Rightarrow> fed_effect list" where
  "handleOnionCell E cell ch f =
     (case peel E cell ch f of
        None \<Rightarrow> []
      | Some parsed \<Rightarrow>
          if truthy_field parsed ''forwardTo'' \<and> truthy_field parsed ''cell''
          then forward_cell E f (the (field parsed ''forwardTo'')) (the (field parsed ''cell''))
          else if truthy_field parsed ''deliverTo'' \<and> truthy_field parsed ''payload''
          then deliver_cell E f (the (field parsed ''deliverTo'')) (the (field parsed ''payload''))
          else [])"

section \<open>Sizes\<close>

text \<open>What GCM documents of its output: as long as the text, with a tag of 16 bytes.\<close>

definition gcm_sized :: "node_crypto \<Rightarrow> byte list \<Rightarrow> bool" where
  "gcm_sized C key =
     (\<forall>v pt. length (fst (gcm_encrypt C key v pt)) = length pt \<and> length (snd (gcm_encrypt C key v pt)) = 16)"

lemma envelope_texts:
  assumes "gcm_sized C k"
  shows "length (ciphertext (encrypt C v pt (KeyBuffer k))) = 4 * ((byteLength pt + 2) div 3)"
    "length (authTag (encrypt C v pt (KeyBuffer k))) = 24"
    "length (iv (encrypt C v pt (KeyBuffer k))) = 4 * ((length v + 2) div 3)"
    "plain (ciphertext (encrypt C v pt (KeyBuffer k)))" "plain (authTag (encrypt C v pt (KeyBuffer k)))"
    "plain (iv (encrypt C v pt (KeyBuffer k)))"
  using assms by (simp_all add: encrypt_def gcm_sized_def normalizeKey_def length_b64 b64_plain split_beta)

lemma key_bytes:
  "byteLength (quote ''circuitId'') = 11" "byteLength (quote ''iv'') = 4" "byteLength (quote ''authTag'') = 9"
  "byteLength (quote ''ciphertext'') = 12" "byteLength (quote ''type'') = 6" "byteLength (quote ''pad'') = 5"
  "byteLength (quote ''deliverTo'') = 11" "byteLength (quote ''payload'') = 9" "byteLength (quote ''forwardTo'') = 11"
  "byteLength (quote ''cell'') = 6" "byteLength (quote ''encapsulatedKey'') = 17" "byteLength (quote ''nextHop'') = 9"
  "byteLength (quote ''extendPayload'') = 15" "byteLength (quote ''ONION_CELL'') = 12"
  "byteLength (quote ''CIRCUIT_CREATE'') = 16" "byteLength (quote ''CIRCUIT_EXTEND'') = 16"
  by (subst plain_quote; simp add: plain_char_def)+

lemma bytes_null: "byteLength (stringify JNull) = 4"
  by (simp add: bytes_ascii)

lemma cell_bytes:
  assumes "gcm_sized C k" "length v = 12" "plain cid"
  shows "byteLength (stringify (cell_of cid (encrypt C v pt (KeyBuffer k)))) =
    93 + length cid + 4 * ((byteLength pt + 2) div 3)"
  unfolding cell_of_def
  by (subst bytes_object) (simp_all add: key_bytes plain_quote envelope_texts [OF assms(1)] assms(2,3))

lemma deliver_bytes:
  "plain t \<Longrightarrow> byteLength (stringify (deliver_layer t p)) = 27 + length t + byteLength (stringify p)"
  unfolding deliver_layer_def by (subst bytes_object) (simp_all add: key_bytes plain_quote)

lemma forward_bytes:
  "plain a \<Longrightarrow> byteLength (stringify (forward_layer a c)) = 24 + length a + byteLength (stringify c)"
  unfolding forward_layer_def by (subst bytes_object) (simp_all add: key_bytes plain_quote)

lemma raw_cell_of:
  "raw_cell (cell_of cid e) pad = JObj [(''type'', JStr ''ONION_CELL''), (''circuitId'', JStr cid), (''iv'', JStr (iv e)),
     (''authTag'', JStr (authTag e)), (''ciphertext'', JStr (ciphertext e)), (''pad'', JStr pad)]"
  by (simp add: raw_cell_def obj_def cell_of_def List.map_filter_simps)

lemma raw_bytes:
  assumes "plain pad"
  shows "wire_bytes (raw_cell (cell_of cid e) pad) = 30 + int (byteLength (stringify (cell_of cid e))) + int (length pad)"
proof -
  have nl: "byteLength (s @ [CHR 0x0A]) = Suc (byteLength s)" for s by (simp add: utf8_append bytes_ascii)
  show ?thesis
    unfolding wire_bytes_def nl raw_cell_of unfolding cell_of_def
    by (subst bytes_object, simp, subst bytes_object, simp) (simp add: key_bytes plain_quote assms)
qed

lemma replicate_plain: "plain_char c \<Longrightarrow> plain (replicate n c)"
  by (simp add: list_all_iff)

lemma zeros_plain: "plain (replicate n CHR ''0'')"
  by (rule replicate_plain) (simp add: plain_char_def)

lemma padded_bytes:
  "wire_bytes (getPaddedCellObject E (cell_of cid e)) =
     max (UNIFORM_CELL_SIZE E) (30 + int (byteLength (stringify (cell_of cid e))))"
  by (simp add: getPaddedCellObject_def Let_def raw_bytes zeros_plain)

text \<open>How the hops of a circuit are written: short printable addresses and keys that encrypt.\<close>

definition hop_ok :: "node_crypto \<Rightarrow> nat \<Rightarrow> hop \<times> byte list \<Rightarrow> bool" where
  "hop_ok C n hk =
     (gcm_ok C (snd hk) \<and> gcm_sized C (snd hk) \<and> plain (h_address (fst hk)) \<and> length (h_address (fst hk)) \<le> n)"

lemma onion_cell_form:
  "hks \<noteq> [] \<Longrightarrow> \<exists>e. onion_cell C ivs cid t p i hks = cell_of cid e"
  by (cases hks rule: remdups_adj.cases) auto

lemma onion_bytes_1:
  assumes "hop_ok C n hk" "length (ivs i) = 12" "plain cid" "plain t"
  shows "byteLength (stringify (onion_cell C ivs cid t p i [hk])) =
    93 + length cid + 4 * ((27 + length t + byteLength (stringify p) + 2) div 3)"
  using assms by (cases hk) (simp add: cell_bytes deliver_bytes hop_ok_def)

lemma onion_bytes_Cons:
  assumes "hop_ok C n hk" "hop_ok C n hk2" "length (ivs i) = 12" "plain cid"
  shows "byteLength (stringify (onion_cell C ivs cid t p i (hk # hk2 # hks))) =
    93 + length cid + 4 * ((24 + length (h_address (fst hk2)) +
      byteLength (stringify (onion_cell C ivs cid t p (Suc i) (hk2 # hks))) + 2) div 3)"
  using assms by (cases hk; cases hk2) (simp add: cell_bytes forward_bytes hop_ok_def)

section \<open>Uniform cells\<close>

text \<open>
  Every cell on the wire has the uniform size: with addresses of at most 32 characters, a circuit
  of one or two hops pads every accepted payload to exactly the configured 2048 bytes at every hop,
  and a circuit of three hops does so for payloads of up to 512 bytes.
\<close>

theorem cells_are_uniform:
  assumes hops: "\<forall>hk \<in> set hks. hop_ok (fe_crypto E) 32 hk" "length hks \<le> 3" "n < length hks"
    and ivs: "\<forall>j. length (ivs j) = 12" and ids: "plain cid" "length cid = 24" "plain target" "length target = 16"
    and payload: "int (byteLength (stringify payload)) \<le> (if length hks = 3 then 512 else MAX_ONION_PAYLOAD)"
    and size: "UNIFORM_CELL_SIZE E = 2048"
  shows "wire_bytes (getPaddedCellObject E (onion_cell (fe_crypto E) ivs cid target payload n (drop n hks))) = 2048"
proof -
  let ?C = "fe_crypto E"
  have cells: "drop n hks \<noteq> []" using hops(3) by simp
  note one = onion_bytes_1 [of ?C 32 _ ivs _ cid target payload]
  note more = onion_bytes_Cons [of ?C 32 _ _ ivs _ cid target payload]
  note nums = ivs ids
  have "byteLength (stringify (onion_cell ?C ivs cid target payload n (drop n hks))) \<le> 2018"
  proof -
    consider a where "hks = [a]" | a b where "hks = [a, b]" | a b c where "hks = [a, b, c]"
      using hops(2,3) by (cases hks; cases "tl hks"; cases "tl (tl hks)") auto
    then show ?thesis
    proof cases
      case 1
      then have "hop_ok ?C 32 a" "n = 0" using hops by auto
      then show ?thesis using 1 one [of a 0] nums payload by (simp add: MAX_ONION_PAYLOAD_def)
    next
      case 2
      then have ok: "hop_ok ?C 32 a" "hop_ok ?C 32 b" and n: "n = 0 \<or> n = 1" using hops by auto
      have len: "length (h_address (fst b)) \<le> 32" using ok by (simp add: hop_ok_def)
      show ?thesis
        using n 2 one [OF ok(2), of 1] more [OF ok, of 0 "[]"] nums payload len
        by (auto simp: MAX_ONION_PAYLOAD_def)
    next
      case 3
      then have ok: "hop_ok ?C 32 a" "hop_ok ?C 32 b" "hop_ok ?C 32 c" and n: "n = 0 \<or> n = 1 \<or> n = 2" using hops by auto
      have len: "length (h_address (fst b)) \<le> 32" "length (h_address (fst c)) \<le> 32" using ok by (simp_all add: hop_ok_def)
      show ?thesis
        using n 3 one [OF ok(3), of 2] more [OF ok(2,3), of 1 "[]"] more [OF ok(1,2), of 0 "[c]"] nums payload len
        by (auto simp: numeral_2_eq_2)
    qed
  qed
  moreover obtain e where "onion_cell ?C ivs cid target payload n (drop n hks) = cell_of cid e"
    using onion_cell_form [OF cells] by blast
  ultimately show ?thesis using size by (simp add: padded_bytes)
qed

text \<open>A payload of the largest accepted size does not fit over three hops: the code only logs a warning.\<close>

lemma three_hops_exceed:
  assumes "hop_ok (fe_crypto E) n a" "hop_ok (fe_crypto E) n b" "hop_ok (fe_crypto E) n c" "\<forall>j. length (ivs j) = 12"
    "plain cid" "length cid = 24" "plain target" "int (byteLength (stringify payload)) = MAX_ONION_PAYLOAD"
  shows "wire_bytes (getPaddedCellObject E (onion_cell (fe_crypto E) ivs cid target payload 0 [a, b, c])) > 2048"
proof -
  have "byteLength (stringify (onion_cell (fe_crypto E) ivs cid target payload 0 [a, b, c])) > 2018"
    using onion_bytes_1 [OF assms(3), of ivs 2 cid target payload] onion_bytes_Cons [OF assms(2,3), of ivs 1 cid target payload "[]"]
      onion_bytes_Cons [OF assms(1,2), of ivs 0 cid target payload "[c]"] assms(4-)
    by (simp add: numeral_2_eq_2 MAX_ONION_PAYLOAD_def)
  moreover obtain e where "onion_cell (fe_crypto E) ivs cid target payload 0 [a, b, c] = cell_of cid e"
    using onion_cell_form [of "[a, b, c]"] by blast
  ultimately show ?thesis by (simp add: padded_bytes)
qed

section \<open>The way of a cell\<close>

text \<open>The relay has the circuit's key for the hop the cell comes from.\<close>

definition holds_key :: "fed_env \<Rightarrow> string \<Rightarrow> nat option \<Rightarrow> fed \<Rightarrow> byte list \<Rightarrow> bool" where
  "holds_key E cid ch f k =
     (case getCircuit (fe_crypto E) cid (Some (getHopIdentifier (link_of f ch))) (f_db f) of
        Some row \<Rightarrow> c_symmetricKey row = KeyBuffer k | None \<Rightarrow> False)"

lemma stringify_ne: "stringify j \<noteq> []"
  by (cases j) (auto simp: quote_def show_int_def)

lemma utf8_ne: "s \<noteq> [] \<Longrightarrow> utf8 s \<noteq> []"
  using utf8_inject [of s "[]"] by auto

lemma b64_ne: "bs \<noteq> [] \<Longrightarrow> b64_encode bs \<noteq> []"
  using length_b64 [of bs] by (cases bs) auto

lemma padded_fields:
  "k \<in> {''circuitId'', ''iv'', ''authTag'', ''ciphertext''} \<Longrightarrow>
   str_field (getPaddedCellObject E (cell_of cid e)) k = str_field (cell_of cid e) k"
  unfolding getPaddedCellObject_def Let_def raw_cell_of by (auto simp: str_field_def cell_of_def)

lemma peel_layer:
  assumes key: "holds_key E cid ch f k" "gcm_ok (fe_crypto E) k" "gcm_sized (fe_crypto E) k"
    and "cid \<noteq> []" "v \<noteq> []" "json_ok layer"
  shows "peel E (getPaddedCellObject P (cell_of cid (encrypt (fe_crypto E) v (stringify layer) (KeyBuffer k)))) ch f = Some layer"
proof -
  let ?e = "encrypt (fe_crypto E) v (stringify layer) (KeyBuffer k)"
  obtain row where row: "getCircuit (fe_crypto E) cid (Some (getHopIdentifier (link_of f ch))) (f_db f) = Some row"
      "c_symmetricKey row = KeyBuffer k"
    using key(1) by (auto simp: holds_key_def split: option.splits)
  obtain c s where st: "stringify layer = c # s" using stringify_ne by (cases "stringify layer") auto
  have ct: "length (fst (gcm_encrypt (fe_crypto E) k v (utf8 (stringify layer)))) = byteLength (stringify layer)"
    using key(3) by (simp add: gcm_sized_def)
  have "fst (gcm_encrypt (fe_crypto E) k v (utf8 (stringify layer))) \<noteq> []"
    using ct utf8_ne [OF stringify_ne, of layer] by auto
  then have ne: "ciphertext ?e \<noteq> []" "iv ?e \<noteq> []" "authTag ?e \<noteq> []"
    using envelope_texts(2) [OF key(3), of v "stringify layer"] b64_ne assms(5)
    by (auto simp: encrypt_def normalizeKey_def split_beta)
  have rec: "\<lparr>ciphertext = ciphertext ?e, iv = iv ?e, authTag = authTag ?e\<rparr> = ?e" by simp
  have "decrypt (fe_crypto E) \<lparr>ciphertext = ciphertext ?e, iv = iv ?e, authTag = authTag ?e\<rparr> (KeyBuffer k) = Some (c # s)"
    unfolding rec using decrypt_encrypt [of "fe_crypto E" "KeyBuffer k"] key(2) st by (simp add: normalizeKey_def)
  moreover have "json_parse (c # s) = Some layer" using json_parse_stringify [OF assms(6)] st by simp
  ultimately show ?thesis
    using row ne assms(4) unfolding peel_def by (simp add: padded_fields) (simp add: cell_of_def str_field_def)
qed

lemma onion_cell_ok: "json_ok (onion_cell C ivs cid target payload i hks)"
  by (cases "(C, ivs, cid, target, payload, i, hks)" rule: onion_cell.cases) (auto simp: cell_of_def)

lemma onion_cell_truthy: "hks \<noteq> [] \<Longrightarrow> json_truthy (onion_cell C ivs cid target payload i hks)"
  using onion_cell_form [of hks C ivs cid target payload i] by (auto simp: cell_of_def)

text \<open>A forwarded cell: over the open connection to the address, or a new one.\<close>

definition sent_to :: "fed \<Rightarrow> string \<Rightarrow> json \<Rightarrow> fed_effect list" where
  "sent_to f address cell =
     (case bridge_for_cell f address of
        Some c \<Rightarrow> [Write c cell]
      | None \<Rightarrow> [ConnectWrite (addr_host address) (the (addr_port address)) cell [] False])"

definition dialable :: "string \<Rightarrow> bool" where
  "dialable a = (case peer_target a of Some (h, p) \<Rightarrow> 1 \<le> p \<and> p \<le> 65535 | None \<Rightarrow> False)"

lemma forward_cell_sent:
  assumes "dialable a" "int (byteLength (stringify cell)) \<le> UNIFORM_CELL_SIZE E * 2"
  shows "forward_cell E f (JStr a) cell = sent_to f a (getPaddedCellObject E cell)"
  using assms by (auto simp: forward_cell_def sent_to_def dialable_def peer_target_def split: option.splits if_splits)

lemma second_layer:
  assumes "a \<le> 64" "c \<le> 32" "b \<le> 1300"
  shows "93 + c + 4 * ((24 + a + b + 2) div 3) \<le> (4096 :: nat)"
proof -
  have "(24 + a + b + 2) div 3 \<le> (24 + 64 + 1300 + 2) div (3 :: nat)"
    using assms by (intro div_le_mono) simp
  then show ?thesis using assms by simp
qed

text \<open>
  C18. The way of a cell: on a circuit of up to three hops whose relays hold the circuit's keys, relay
  \<open>n\<close> turns the cell for hop \<open>n\<close>, however it was padded, into exactly one effect: the padded cell for
  the next hop, sent to the next hop's address; and the last relay hands the payload, unchanged, to
  this node if it is the target, to the target's tunnel if there is a writable one, and drops it
  otherwise.
\<close>

theorem onion_trip:
  assumes hops: "\<forall>hk \<in> set hks. hop_ok (fe_crypto E) 64 hk \<and> dialable (h_address (fst hk))" "length hks \<le> 3"
    and n: "n < length hks" "holds_key E cid ch f (snd (hks ! n))"
    and ivs: "\<forall>j. length (ivs j) = 12"
    and ids: "plain cid" "cid \<noteq> []" "length cid \<le> 32" "plain target" "target \<noteq> []" "length target \<le> 64"
    and payload: "json_ok payload" "json_truthy payload" "int (byteLength (stringify payload)) \<le> MAX_ONION_PAYLOAD"
    and size: "2048 \<le> UNIFORM_CELL_SIZE E"
  shows "handleOnionCell E (getPaddedCellObject P (onion_cell (fe_crypto E) ivs cid target payload n (drop n hks))) ch f =
    (if Suc n < length hks
     then sent_to f (h_address (fst (hks ! Suc n)))
            (getPaddedCellObject E (onion_cell (fe_crypto E) ivs cid target payload (Suc n) (drop (Suc n) hks)))
     else if target = fe_nodeId E then [DeliverLocal payload]
     else case jm_get (f_tunnels f) target of
            Some t \<Rightarrow> if not_unwritable (f_link f (tn_chan t)) then [Write (tn_chan t) payload] else []
          | None \<Rightarrow> [])"
proof -
  let ?C = "fe_crypto E"
  let ?cell = "\<lambda>n. onion_cell ?C ivs cid target payload n (drop n hks)"
  obtain h k where hk: "hks ! n = (h, k)" by fastforce
  have d: "drop n hks = (h, k) # drop (Suc n) hks" using n(1) hk by (metis Cons_nth_drop_Suc)
  have ok: "hop_ok ?C 64 (h, k)" using hops(1) n(1) hk by (metis nth_mem)
  have v: "ivs n \<noteq> []" using ivs by (metis list.size(3) zero_neq_numeral)
  note peeled = peel_layer [of E cid ch f k "ivs n"]
  have keys: "holds_key E cid ch f k" "gcm_ok ?C k" "gcm_sized ?C k" using n(2) hk ok by (simp_all add: hop_ok_def)
  show ?thesis
  proof (cases "Suc n < length hks")
    case True
    obtain h2 k2 where hk2: "hks ! Suc n = (h2, k2)" by fastforce
    have d2: "drop (Suc n) hks = (h2, k2) # drop (Suc (Suc n)) hks" using True hk2 by (metis Cons_nth_drop_Suc)
    have ok2: "hop_ok ?C 64 (h2, k2)" "dialable (h_address h2)" using hops(1) True hk2 by (metis nth_mem fst_conv)+
    have "byteLength (stringify (?cell (Suc n))) \<le> 4096"
    proof (cases "drop (Suc (Suc n)) hks")
      case Nil
      then show ?thesis
        using d2 onion_bytes_1 [OF ok2(1), of ivs "Suc n" cid target payload] ivs ids payload(3)
        by (simp add: MAX_ONION_PAYLOAD_def)
    next
      case (Cons hk3 rest)
      then have "length hks - Suc (Suc n) = Suc (length rest)" by (metis length_Cons length_drop)
      then have "n = 0" "length rest = 0" using hops(2) n(1) by linarith+
      then have "n = 0" "rest = []" by simp_all
      moreover have ok3: "hop_ok ?C 64 hk3" using hops(1) Cons by (metis in_set_dropD list.set_intros(1))
      moreover have "byteLength (stringify (onion_cell ?C ivs cid target payload 2 [hk3])) \<le> 1300"
        using onion_bytes_1 [OF ok3, of ivs 2 cid target payload] ivs ids payload(3) by (simp add: MAX_ONION_PAYLOAD_def)
      ultimately show ?thesis
        using d2 Cons onion_bytes_Cons [OF ok2(1) ok3, of ivs 1 cid target payload "[]"] ivs ids(1,3) ok3
          second_layer [of "length (h_address (fst hk3))" "length cid"]
        by (simp add: hop_ok_def numeral_2_eq_2)
    qed
    moreover have "peel E (getPaddedCellObject P (?cell n)) ch f = Some (forward_layer (h_address h2) (?cell (Suc n)))"
      using peeled [OF keys ids(2) v, of "forward_layer (h_address h2) (?cell (Suc n))" P] d d2
      by (simp add: onion_cell_ok del: stringify.simps) (simp add: forward_layer_def onion_cell_ok)
    moreover have "json_truthy (?cell (Suc n))" "h_address h2 \<noteq> []"
      using onion_cell_truthy d2 ok2(2) by (auto simp: dialable_def peer_target_def)
    ultimately show ?thesis
      using True hk2 ok2(2) size
      by (simp add: handleOnionCell_def forward_layer_def truthy_field_def forward_cell_sent)
  next
    case False
    then have "drop (Suc n) hks = []" by simp
    then have "peel E (getPaddedCellObject P (?cell n)) ch f = Some (deliver_layer target payload)"
      using peeled [OF keys ids(2) v, of "deliver_layer target payload" P] d payload(1)
      by (simp add: deliver_layer_def del: stringify.simps)
    then show ?thesis
      using False ids(5) payload(2,3) size
      by (simp add: handleOnionCell_def deliver_layer_def truthy_field_def deliver_cell_def MAX_ONION_PAYLOAD_def split: option.splits)
  qed
qed


section \<open>Setting a circuit up\<close>

lemma hop_keys_nth:
  assumes "hop_keys C seeds cid i hops = Ok ks"
  shows "length ks = length hops \<and> (\<forall>n < length hops. \<exists>secret.
    encapsulateKey C (seeds (i + n)) (h_kem (hops ! n)) = Some (secret, snd (ks ! n)) \<and> fst (ks ! n) = onion_key C secret cid)"
  using assms
proof (induction hops arbitrary: i ks)
  case (Cons h hs)
  then obtain secret enc ks' where k: "encapsulateKey C (seeds i) (h_kem h) = Some (secret, enc)"
      "hop_keys C seeds cid (Suc i) hs = Ok ks'" "ks = (onion_key C secret cid, enc) # ks'"
    by (auto split: if_splits option.splits result.splits)
  show ?case
  proof (intro conjI allI impI)
    show "length ks = length (h # hs)" using Cons.IH [OF k(2)] k(3) by simp
    fix n assume n: "n < length (h # hs)"
    show "\<exists>secret. encapsulateKey C (seeds (i + n)) (h_kem ((h # hs) ! n)) = Some (secret, snd (ks ! n)) \<and>
        fst (ks ! n) = onion_key C secret cid"
    proof (cases n)
      case (Suc m)
      then show ?thesis using Cons.IH [OF k(2)] k(3) n by auto
    qed (use k in simp)
  qed
qed simp

lemma encapsulated_plain: "encapsulateKey C seed pub = Some (k, enc) \<Longrightarrow> plain enc"
  by (auto simp: encapsulateKey_def b64_plain split: option.splits if_splits)

lemma setup_bytes_last:
  assumes "plain cid" "plain enc"
  shows "byteLength (stringify (setup_frame i cid enc JNull JNull)) = 97 + length cid + length enc"
  unfolding setup_frame_def
  by (subst bytes_object; simp add: key_bytes plain_quote bytes_null assms del: stringify.simps(1))

lemma envelope_bytes:
  assumes "gcm_sized C k" "length v = 12"
  shows "byteLength (stringify (json_of_envelope (encrypt C v pt (KeyBuffer k)))) = 78 + 4 * ((byteLength pt + 2) div 3)"
  unfolding json_of_envelope_def
  by (subst bytes_object) (simp_all add: key_bytes plain_quote envelope_texts [OF assms(1)] assms(2))

lemma setup_bytes_more:
  assumes "plain cid" "plain enc" "plain a" "gcm_sized C k" "length v = 12"
  shows "byteLength (stringify (setup_frame i cid enc (JStr a) (json_of_envelope (encrypt C v pt (KeyBuffer k))))) =
    169 + length cid + length enc + length a + 4 * ((byteLength pt + 2) div 3)"
  unfolding setup_frame_def
  by (subst bytes_object; simp add: key_bytes plain_quote envelope_bytes [OF assms(4,5)] assms(1-3))

lemma hop_identifier_ne: "getHopIdentifier l \<noteq> []"
  by (auto simp: getHopIdentifier_def Let_def truthy_def split: option.splits)

definition setup_ok :: "node_crypto \<Rightarrow> hop \<times> byte list \<times> string \<Rightarrow> bool" where
  "setup_ok C hke =
     (case hke of (h, k, enc) \<Rightarrow>
        gcm_ok C k \<and> gcm_sized C k \<and> plain (h_address h) \<and> h_address h \<noteq> [] \<and> length (h_address h) \<le> 64 \<and>
        plain enc \<and> enc \<noteq> [] \<and> length enc \<le> 1452)"

lemma setup_packet_form:
  "\<exists>next ext. setup_packet C ivs cid n (h # hs) ((k, enc) # ks) = setup_frame n cid enc next ext"
  by (cases hs) auto

lemma setup_packet_ok: "json_ok (setup_packet C ivs cid n hs ks)"
  by (cases "(C, ivs, cid, n, hs, ks)" rule: setup_packet.cases) (auto simp: setup_frame_def json_of_envelope_def)

lemma setup_decrypts:
  assumes "gcm_ok C k"
  shows "Option.bind (envelope_of_json (json_of_envelope (encrypt C v (stringify j) (KeyBuffer k))))
    (\<lambda>e. decrypt C e (KeyBuffer k)) = Some (stringify j)"
proof -
  have "envelope_of_json (json_of_envelope e) = Some e" for e
    by (simp add: envelope_of_json_def json_of_envelope_def str_field_def)
  then show ?thesis using decrypt_encrypt [of C "KeyBuffer k" v "stringify j"] assms by (simp add: normalizeKey_def)
qed

lemma setup_stores_key:
  assumes "decapsulateKey (fe_crypto E) (fe_kemPriv E) enc = Some secret" "cid \<noteq> []" "enc \<noteq> []"
    and row: "f' = f\<lparr>f_db := saveCircuit (fe_crypto E) rnd cid (Some (getHopIdentifier (link_of f ch)))
        (or_else (str_field payload ''nextHop'') None) (onion_key (fe_crypto E) secret cid) now (f_db f)\<rparr>"
  shows "holds_key E cid ch f' (onion_key (fe_crypto E) secret cid)"
proof -
  have "link_of f' ch = link_of f ch" by (simp add: row link_of_def split: option.splits)
  then show ?thesis using circuit_saved [of "Some (getHopIdentifier (link_of f ch))"] hop_identifier_ne
    by (simp add: holds_key_def row)
qed

lemma setup_inner_bytes:
  assumes "length hs \<le> 2" "hs \<noteq> []" "length ks = length hs" "\<forall>hke \<in> set (zip hs ks). setup_ok C hke"
    "\<forall>j. length (ivs j) = 12" "plain cid" "length cid \<le> 32"
  shows "byteLength (stringify (setup_packet C ivs cid n hs ks)) \<le> 4096"
proof -
  consider h k enc where "hs = [h]" "ks = [(k, enc)]"
    | h k enc h2 k2 enc2 where "hs = [h, h2]" "ks = [(k, enc), (k2, enc2)]"
    using assms(1-3) by (cases hs; cases ks; cases "tl hs"; cases "tl ks") (auto simp: neq_Nil_conv)
  then show ?thesis
  proof cases
    case 1
    then show ?thesis using assms(4-) by (simp add: setup_ok_def setup_bytes_last del: stringify.simps)
  next
    case 2
    let ?inner = "setup_frame (Suc n) cid enc2 JNull JNull"
    have inner: "byteLength (stringify ?inner) \<le> 1581"
      using 2 assms(4-) by (simp add: setup_ok_def setup_bytes_last del: stringify.simps)
    then have "(byteLength (stringify ?inner) + 2) div 3 \<le> (1581 + 2) div 3" by (intro div_le_mono) simp
    then show ?thesis
      using 2 assms(4-) setup_bytes_more [of cid enc "h_address h2" C k "ivs n" n "stringify ?inner"]
      by (simp add: setup_ok_def)
  qed
qed

lemma setup_fields [simp]:
  "field (setup_frame n cid enc nx ext) ''circuitId'' = Some (JStr cid)"
  "field (setup_frame n cid enc nx ext) ''encapsulatedKey'' = Some (JStr enc)"
  "field (setup_frame n cid enc nx ext) ''nextHop'' = Some nx"
  "field (setup_frame n cid enc nx ext) ''extendPayload'' = Some ext"
  by (simp_all add: setup_frame_def)

lemma json_of_envelope_truthy [simp]: "json_truthy (json_of_envelope e)"
  by (simp add: json_of_envelope_def)

text \<open>
  C19. Setting up a circuit of up to three hops: the relay of hop \<open>n\<close>, holding the private half of the
  hop's key, turns its setup packet into the stored circuit key the client has for that hop, and
  passes exactly the next hop's packet on to the next hop's address, or answers that the circuit is
  ready when it is the last. The relay then holds the key its cells are encrypted with.
\<close>

theorem circuit_setup_hop:
  assumes keys: "hop_keys (fe_crypto E) seeds cid 0 hops = Ok ks" "length hops \<le> 3" "n < length hops"
    and kem: "kem_ok (fe_crypto E) (h_kem (hops ! n)) (fe_kemPriv E)"
    and hops: "\<forall>hke \<in> set (zip hops ks). setup_ok (fe_crypto E) hke"
    and ivs: "\<forall>j. length (ivs j) = 12" and ids: "plain cid" "cid \<noteq> []" "length cid \<le> 32"
    and size: "2048 \<le> UNIFORM_CELL_SIZE E"
  shows "\<exists>f'. handleCircuitSetup E now rnd (setup_packet (fe_crypto E) ivs cid n (drop n hops) (drop n ks)) ch answers f =
      (f', if Suc n < length hops
           then extend_circuit cid (h_address (hops ! Suc n))
                  (setup_packet (fe_crypto E) ivs cid (Suc n) (drop (Suc n) hops) (drop (Suc n) ks)) answers ch f'
           else reply_ready ch cid) \<and>
    holds_key E cid ch f' (fst (ks ! n))"
proof -
  let ?C = "fe_crypto E"
  let ?p = "\<lambda>n. setup_packet ?C ivs cid n (drop n hops) (drop n ks)"
  obtain k enc where ke: "ks ! n = (k, enc)" by fastforce
  have len: "length ks = length hops" using hop_keys_nth [OF keys(1)] by simp
  obtain secret where sec: "encapsulateKey ?C (seeds n) (h_kem (hops ! n)) = Some (secret, enc)" "k = onion_key ?C secret cid"
    using hop_keys_nth [OF keys(1)] keys(3) ke by auto
  then have dec: "decapsulateKey ?C (fe_kemPriv E) enc = Some secret" using decapsulate_encapsulate [OF kem] by blast
  have dh: "drop n hops = hops ! n # drop (Suc n) hops" and dk: "drop n ks = (k, enc) # drop (Suc n) ks"
    using keys(3) len ke by (metis Cons_nth_drop_Suc)+
  have so: "setup_ok ?C (hops ! m, ks ! m)" if "m < length hops" for m
    using hops that len by (metis length_zip min.idem nth_mem nth_zip)
  have ok: "setup_ok ?C (hops ! n, k, enc)" using so [OF keys(3)] ke by simp
  show ?thesis
  proof (cases "Suc n < length hops")
    case False
    then have "?p n = setup_frame n cid enc JNull JNull" using dh dk by simp
    then show ?thesis
      using False ok ids(2) ke sec(2) setup_stores_key [OF dec ids(2) _ refl, where f = f and rnd = rnd and ch = ch and payload = "?p n" and now = now]
      by (simp add: handleCircuitSetup_def truthy_field_def str_field_def dec setup_ok_def or_else_def)
  next
    case True
    have d2: "drop (Suc n) hops = hops ! Suc n # drop (Suc (Suc n)) hops" using True by (metis Cons_nth_drop_Suc)
    let ?a = "h_address (hops ! Suc n)"
    have addr: "?a \<noteq> []" using so [OF True] by (auto simp: setup_ok_def split: prod.splits)
    have zip: "set (zip (drop (Suc n) hops) (drop (Suc n) ks)) \<subseteq> set (zip hops ks)"
      by (metis drop_zip set_drop_subset)
    have inner: "byteLength (stringify (?p (Suc n))) \<le> 4096"
      by (rule setup_inner_bytes) (use True keys(2) len zip hops ivs ids in auto)
    obtain x xs where st: "stringify (?p (Suc n)) = x # xs" using stringify_ne by (cases "stringify (?p (Suc n))") auto
    have packet: "?p n = setup_frame n cid enc (JStr ?a)
        (json_of_envelope (encrypt ?C (ivs n) (stringify (?p (Suc n))) (KeyBuffer k)))"
      using dh dk d2 by simp
    have "Option.bind (envelope_of_json (json_of_envelope (encrypt ?C (ivs n) (stringify (?p (Suc n))) (KeyBuffer k))))
        (\<lambda>e. decrypt ?C e (KeyBuffer (onion_key ?C secret cid))) = Some (x # xs)"
      using setup_decrypts [of ?C k "ivs n" "?p (Suc n)"] ok st sec(2) by (simp add: setup_ok_def)
    moreover have "json_parse (x # xs) = Some (?p (Suc n))"
      using json_parse_stringify [OF setup_packet_ok] st by metis
    moreover have "int (byteLength (x # xs)) \<le> UNIFORM_CELL_SIZE E * 2" using inner st size by simp
    ultimately show ?thesis
      using True ok ids(2) ke sec(2) addr setup_stores_key [OF dec ids(2) _ refl, where f = f and rnd = rnd and ch = ch and payload = "?p n" and now = now]
      by (simp add: handleCircuitSetup_def truthy_field_def str_field_def dec setup_ok_def or_else_def packet Let_def)
  qed
qed

section \<open>Concrete circuits\<close>

text \<open>A cipher that leaves the text as it is and has a tag of 16 bytes, and a relay that uses it.\<close>

definition open_crypto :: node_crypto where
  "open_crypto = clear_crypto\<lparr>gcm_encrypt := \<lambda>key v pt. (pt, replicate 16 0), gcm_decrypt := \<lambda>key v tag ct. Some ct\<rparr>"

lemma open_gcm: "gcm_ok open_crypto key" "gcm_sized open_crypto key"
  by (simp_all add: gcm_ok_def gcm_sized_def open_crypto_def)

definition sample_fed_env :: "node_crypto \<Rightarrow> string \<Rightarrow> fed_env" where
  "sample_fed_env C nodeId =
     \<lparr>fe_crypto = C, fe_cfg = default_config, fe_nodeId = nodeId, fe_identityPub = ''i'', fe_identityPriv = ''i'',
      fe_kemPub = ''k'', fe_kemPriv = ''k'', fe_interfaces = [], fe_test = False, fe_meshRole = ''RELAY'',
      fe_clock = \<lparr>iso = \<lambda>_. [], date_ms = \<lambda>_. None\<rparr>, fe_state = None\<rparr>"

lemma sample_fed_env_fields [simp]:
  "fe_crypto (sample_fed_env C i) = C" "fe_cfg (sample_fed_env C i) = default_config"
  "fe_nodeId (sample_fed_env C i) = i" "fe_kemPriv (sample_fed_env C i) = ''k''"
  "fe_test (sample_fed_env C i) = False" "fe_state (sample_fed_env C i) = None"
  "fe_identityPub (sample_fed_env C i) = ''i''" "fe_identityPriv (sample_fed_env C i) = ''i''"
  "fe_kemPub (sample_fed_env C i) = ''k''"
  by (simp_all add: sample_fed_env_def)

lemma sample_cell_size [simp]: "UNIFORM_CELL_SIZE (sample_fed_env C i) = 2048"
  by (simp add: UNIFORM_CELL_SIZE_def or_default_def)

definition sample_fed :: "fed_env \<Rightarrow> fed" where
  "sample_fed E = new_fed E (empty_db []) (new_peers (fe_penv E))"

definition sample_hops :: "hop list" where
  "sample_hops = [\<lparr>h_nodeId = ''a'', h_address = ''1.2.3.4:80'', h_kem = ''k''\<rparr>,
     \<lparr>h_nodeId = ''b'', h_address = ''5.6.7.8:80'', h_kem = ''k''\<rparr>]"

definition sample_relay :: "fed_env \<Rightarrow> byte list \<Rightarrow> fed" where
  "sample_relay E k = (sample_fed E)\<lparr>f_db := saveCircuit (fe_crypto E) [7] ''c'' (Some ''unknown'') None k 0 (empty_db [])\<rparr>"

lemma sample_dialable: "dialable ''1.2.3.4:80''" "dialable ''5.6.7.8:80''"
  by code_simp+

lemma sample_holds: "holds_key E ''c'' None (sample_relay E k) k"
  by (simp add: holds_key_def sample_relay_def link_of_def getHopIdentifier_def no_link_def remote_ip_def circuit_saved)

theorem onion_trip_witness:
  "\<exists>P nx. handleOnionCell (sample_fed_env open_crypto ''n'')
      (getPaddedCellObject P (onion_cell open_crypto (\<lambda>_. replicate 12 1) ''c'' ''t'' (JObj [(''a'', JNum 1)]) 0
         (zip sample_hops [[1], [2]]))) None (sample_relay (sample_fed_env open_crypto ''n'') [1]) =
    sent_to (sample_relay (sample_fed_env open_crypto ''n'') [1]) ''5.6.7.8:80'' nx"
  using onion_trip [of "zip sample_hops [[1], [2]]" "sample_fed_env open_crypto ''n''" 0 "''c''" None
      "sample_relay (sample_fed_env open_crypto ''n'') [1]" "\<lambda>_. replicate 12 1" "''t''" "JObj [(''a'', JNum 1)]"]
  by (simp add: sample_hops_def hop_ok_def open_gcm sample_dialable sample_holds plain_char_def MAX_ONION_PAYLOAD_def
      utf8_append plain_quote bytes_ascii show_int_def show_radix.simps digit_char_def) blast

theorem cells_are_uniform_witness:
  "wire_bytes (getPaddedCellObject (sample_fed_env open_crypto ''n'')
     (onion_cell open_crypto (\<lambda>_. replicate 12 1) (replicate 24 CHR ''c'') (replicate 16 CHR ''t'') (JObj []) 0
       (zip sample_hops [[1], [2]]))) = 2048"
  using cells_are_uniform [of "zip sample_hops [[1], [2]]" "sample_fed_env open_crypto ''n''" 0 "\<lambda>_. replicate 12 1"
      "replicate 24 CHR ''c''" "replicate 16 CHR ''t''" "JObj []"]
  by (simp add: sample_hops_def hop_ok_def open_gcm plain_char_def replicate_plain MAX_ONION_PAYLOAD_def bytes_ascii)


theorem circuit_setup_hop_witness:
  "\<exists>ks f' inner. hop_keys open_crypto (\<lambda>i. [of_nat i]) ''c'' 0 sample_hops = Ok ks \<and>
    holds_key (sample_fed_env open_crypto ''n'') ''c'' None f' (fst (ks ! 0)) \<and>
    handleCircuitSetup (sample_fed_env open_crypto ''n'') 5 [7]
      (setup_packet open_crypto (\<lambda>_. replicate 12 1) ''c'' 0 sample_hops ks) None (Some [])
      (sample_fed (sample_fed_env open_crypto ''n'')) = (f', extend_circuit ''c'' ''5.6.7.8:80'' inner (Some []) None f')"
proof -
  let ?E = "sample_fed_env open_crypto ''n''"
  let ?ks = "map (\<lambda>i. (onion_key open_crypto (pad32 [of_nat i]) ''c'', b64_encode [of_nat i])) [0, 1 :: nat]"
  have e: "encapsulateKey open_crypto [b] ''k'' = Some (pad32 [b], b64_encode [b])" for b
    by (simp add: encapsulateKey_def kem_key_def KEM_ALGO_def open_crypto_def clear_crypto_def)
  have keys: "hop_keys (fe_crypto ?E) (\<lambda>i. [of_nat i]) ''c'' 0 sample_hops = Ok ?ks"
    by (simp add: sample_hops_def e)
  have kem: "kem_ok (fe_crypto ?E) (h_kem (sample_hops ! 0)) (fe_kemPriv ?E)"
    by (simp add: sample_hops_def kem_ok_def open_crypto_def clear_crypto_def)
  have ok: "\<forall>hke \<in> set (zip sample_hops ?ks). setup_ok (fe_crypto ?E) hke"
    by (simp add: sample_hops_def setup_ok_def open_gcm b64_plain del: b64_encode.simps) (simp add: plain_char_def)
  have "\<exists>f'. handleCircuitSetup ?E 5 [7] (setup_packet (fe_crypto ?E) (\<lambda>_. replicate 12 1) ''c'' 0 (drop 0 sample_hops) (drop 0 ?ks))
      None (Some []) (sample_fed ?E) =
      (f', if Suc 0 < length sample_hops
           then extend_circuit ''c'' (h_address (sample_hops ! Suc 0))
                  (setup_packet (fe_crypto ?E) (\<lambda>_. replicate 12 1) ''c'' (Suc 0) (drop (Suc 0) sample_hops) (drop (Suc 0) ?ks))
                  (Some []) None f'
           else reply_ready None ''c'') \<and>
    holds_key ?E ''c'' None f' (fst (?ks ! 0))"
    by (rule circuit_setup_hop [OF keys _ _ kem ok]) (simp_all add: sample_hops_def plain_char_def)
  then obtain f' where "handleCircuitSetup ?E 5 [7] (setup_packet open_crypto (\<lambda>_. replicate 12 1) ''c'' 0 sample_hops ?ks)
      None (Some []) (sample_fed ?E) =
      (f', extend_circuit ''c'' ''5.6.7.8:80''
                  (setup_packet (fe_crypto ?E) (\<lambda>_. replicate 12 1) ''c'' (Suc 0) (drop (Suc 0) sample_hops) (drop (Suc 0) ?ks))
                  (Some []) None f')" "holds_key ?E ''c'' None f' (fst (?ks ! 0))"
    by (auto simp: sample_hops_def)
  then show ?thesis using keys unfolding sample_fed_env_fields(1) by blast
qed

end
