(* ===== verification/Presence.thy ===== *)
theory Presence
  imports Onion
begin

text \<open>
  \<open>src/core/presenceManager.js\<close>, with \<open>setRole\<close> and \<open>checkTransitEdgeRole\<close> of the engine: who is
  online, what this node announces and to whom, gossip, channel subscriptions and the expiry of
  presence records, remote users and routes.
\<close>

section \<open>Local channels and online users\<close>

definition getLocalChannels :: "fed_env \<Rightarrow> string list" where
  "getLocalChannels E =
     (let dc = default_channel_name (locale_name (fe_cfg E))
      in case fe_state E of
           None \<Rightarrow> [dc]
         | Some st \<Rightarrow> fold (\<lambda>c. js_add (if isGlobalChannel c then dc else c))
                        (ls_channels st @ concat (map mb_channels (ls_memberships st))) [dc])"

definition presence_ttl :: "fed_env \<Rightarrow> int" where
  "presence_ttl E = or_default (presenceTtl (fe_cfg E)) 60000"

text \<open>A time stamp from the future is pulled back to now.\<close>

definition refresh :: "int \<Rightarrow> remote_user \<Rightarrow> remote_user" where
  "refresh now u = (if now - ru_lastSeen u < 0 then u\<lparr>ru_lastSeen := now\<rparr> else u)"

definition refresh_users :: "int \<Rightarrow> fed \<Rightarrow> fed" where
  "refresh_users now f = f\<lparr>f_users := map (\<lambda>(a, u). (a, refresh now u)) (f_users f)\<rparr>"

definition active_users :: "fed_env \<Rightarrow> int \<Rightarrow> fed \<Rightarrow> (string \<times> remote_user) list" where
  "active_users E now f = filter (\<lambda>(_, u). now - ru_lastSeen u < presence_ttl E) (f_users (refresh_users now f))"

definition nick_of :: "string \<Rightarrow> string" where
  "nick_of u = js_lower (remove_first ''@'' (before CHR '':'' u))"

definition prefer_mesh :: "string \<Rightarrow> (string, string) jsmap \<Rightarrow> (string, string) jsmap" where
  "prefer_mesh u byNick =
     (let nick = nick_of u
      in case jm_get byNick nick of
           None \<Rightarrow> jm_set nick u byNick
         | Some existing \<Rightarrow>
             if existing = [] then jm_set nick u byNick
             else let existingIsMesh = ends_with ''.mesh'' existing; newIsMesh = ends_with ''.mesh'' u
                  in if \<not> existingIsMesh \<and> newIsMesh then jm_set nick u byNick
                     else if existingIsMesh \<and> newIsMesh then jm_set nick u byNick
                     else byNick)"

definition local_users :: "fed_env \<Rightarrow> string list" where
  "local_users E = (case fe_state E of None \<Rightarrow> [] | Some st \<Rightarrow> ls_users st)"

definition getAllOnlineUsers :: "fed_env \<Rightarrow> int \<Rightarrow> fed \<Rightarrow> string list \<times> fed" where
  "getAllOnlineUsers E now f =
     (let activeRemote = map fst (active_users E now f);
          allUsers = local_users E @ activeRemote
      in (jm_values (fold prefer_mesh allUsers []), refresh_users now f))"

definition getChannelMembers :: "fed_env \<Rightarrow> int \<Rightarrow> string \<Rightarrow> fed \<Rightarrow> string list \<times> fed" where
  "getChannelMembers E now channelName f =
     (map fst (filter (\<lambda>(_, u). isGlobalChannel channelName \<or> channelName \<in> set (ru_channels u)) (active_users E now f)),
      refresh_users now f)"

text \<open>\<open>parsed && parsed.name ? parsed.name : address.split(':')[0].replace('@', '')\<close>.\<close>

definition user_nick :: "fed_env \<Rightarrow> string \<Rightarrow> string" where
  "user_nick E a =
     (case parse_addr E a of Some p \<Rightarrow> pa_name p | None \<Rightarrow> remove_first ''@'' (before CHR '':'' a))"

definition getRemoteUserSecurity :: "fed_env \<Rightarrow> string \<Rightarrow> fed \<Rightarrow> (bool \<times> string) option \<times> fed" where
  "getRemoteUserSecurity E userAddress f =
     (if userAddress = [] then (None, f)
      else
        let data = (case jm_get (f_users f) userAddress of
                      Some d \<Rightarrow> Some d
                    | None \<Rightarrow>
                        let nick = user_nick E userAddress
                        in if nick = [] then None
                           else map_option snd (find (\<lambda>(a, _). user_nick E a = nick) (f_users f)))
        in case data of
             Some d \<Rightarrow> (Some (ru_isSsh d, ru_kem d), f)
           | None \<Rightarrow>
               let (profile, d1) = getUserProfile (locale_name (fe_cfg E)) userAddress (f_db f)
               in (if p_kemPublicKey profile = [] then None else Some (True, p_kemPublicKey profile), f\<lparr>f_db := d1\<rparr>))"

section \<open>Sending to the mesh\<close>

text \<open>Every known peer but the ones the condition excludes, as host and port.\<close>

definition peer_targets :: "(string \<Rightarrow> string \<times> int \<Rightarrow> bool) \<Rightarrow> fed \<Rightarrow> (string \<times> int) list" where
  "peer_targets keep f =
     List.map_filter (\<lambda>peer. case peer_target peer of
         None \<Rightarrow> None | Some t \<Rightarrow> if keep peer t then Some t else None) (getAllPeers (f_peers f))"

definition writable_tunnels :: "(string \<Rightarrow> tunnel \<Rightarrow> bool) \<Rightarrow> fed \<Rightarrow> nat list" where
  "writable_tunnels keep f =
     map (\<lambda>(_, t). tn_chan t)
       (filter (\<lambda>(n, t). keep n t \<and> socket_writable (f_link f (tn_chan t))) (f_tunnels f))"

definition writable_relays :: "fed \<Rightarrow> nat list" where
  "writable_relays f = filter (\<lambda>c. socket_writable (f_link f c)) (jm_values (f_relays f))"

definition route_signed :: "fed_env \<Rightarrow> int \<Rightarrow> string \<Rightarrow> string \<Rightarrow> string option \<Rightarrow> json" where
  "route_signed E now nodeId address kem =
     JObj [(''nodeId'', JStr nodeId), (''relayNodeId'', JStr (fe_nodeId E)),
       (''rendezvousNodes'', strings [address]), (''kemPublicKey'', or_null kem),
       (''relayKemPublicKey'', JStr (fe_kemPub E)), (''relayAddress'', JStr address), (''timestamp'', JNum now)]"

definition route_update :: "fed_env \<Rightarrow> int \<Rightarrow> string \<Rightarrow> string \<Rightarrow> string option \<Rightarrow> string option \<Rightarrow> json" where
  "route_update E now nodeId address kem ident =
     JObj [(''type'', JStr ''ROUTE_UPDATE''), (''nodeId'', JStr nodeId), (''role'', JStr ''EDGE''),
       (''rendezvousNodes'', strings [address]), (''kemPublicKey'', or_null kem),
       (''identityPublicKey'', or_null ident), (''relayNodeId'', JStr (fe_nodeId E)),
       (''relayAddress'', JStr address), (''relayKemPublicKey'', JStr (fe_kemPub E)),
       (''relayIdentityPublicKey'', JStr (fe_identityPub E)), (''timestamp'', JNum now),
       (''sig'', JStr (sign (fe_crypto E) (stringify (route_signed E now nodeId address kem)) (fe_identityPriv E)))]"

definition broadcastRouteUpdate :: "fed_env \<Rightarrow> int \<Rightarrow> string \<Rightarrow> string \<Rightarrow> string option \<Rightarrow> string option \<Rightarrow> act" where
  "broadcastRouteUpdate E now nodeId address kem ident f =
     (let payload = route_update E now nodeId address kem ident
      in (f, map (\<lambda>(h, p). SendPacket h p payload True) (peer_targets (\<lambda>_ _. True) f) @
             map (\<lambda>c. Write c payload) (writable_relays f) @
             map (\<lambda>c. Write c payload) (writable_tunnels (\<lambda>n _. n \<noteq> nodeId) f)))"

section \<open>Announcing this node\<close>

text \<open>An address nobody else could use.\<close>

definition poisoned :: "string \<Rightarrow> bool" where
  "poisoned addr =
     (CHR '':'' \<notin> set addr \<or> ends_with ''.mesh'' (addr_host addr) \<or>
      addr_host addr \<in> {''localhost'', ''127.0.0.1'', ''0.0.0.0''})"

definition safe_addresses :: "fed_env \<Rightarrow> string list \<Rightarrow> string list" where
  "safe_addresses E addrs =
     (let safe = filter (\<lambda>a. \<not> poisoned a) addrs
      in if safe = [] \<and> addrs \<noteq> [] \<and> (fe_test E \<or> serverName (fe_cfg E) = ''localhost'')
         then filter (\<lambda>a. CHR '':'' \<in> set a \<and> \<not> ends_with ''.mesh'' (addr_host a)) addrs
         else safe)"

definition membership_json :: "string \<Rightarrow> string list \<Rightarrow> bool \<Rightarrow> string \<Rightarrow> json" where
  "membership_json user channels isSsh kem =
     JObj [(''user'', JStr user), (''channels'', strings channels), (''isSsh'', JBool isSsh), (''kemPublicKey'', JStr kem)]"

definition tunnel_user :: "fed \<Rightarrow> string \<Rightarrow> bool" where
  "tunnel_user f userAddr = list_ex (\<lambda>n. str_includes ('':'' @ n @ ''.mesh'') userAddr) (jm_keys (f_tunnels f))"

definition own_memberships :: "fed_env \<Rightarrow> membership list" where
  "own_memberships E = (case fe_state E of None \<Rightarrow> [] | Some st \<Rightarrow> ls_memberships st)"

text \<open>
  The users of the tunnelled nodes, tunnel by tunnel and each user once: their records are refreshed
  and they are announced with this relay's own.
\<close>

definition tunnel_pass :: "string \<Rightarrow> (string, remote_user) jsmap \<Rightarrow> (string \<times> json) list \<Rightarrow> (string \<times> json) list" where
  "tunnel_pass n users ms =
     fold (\<lambda>(a, u) ms.
        if str_includes ('':'' @ n @ ''.mesh'') a \<and> a \<notin> fst ` set ms
        then ms @ [(a, membership_json a (ru_channels u) (ru_isSsh u) (ru_kem u))] else ms) users ms"

definition announced_memberships :: "fed_env \<Rightarrow> fed \<Rightarrow> (string \<times> json) list" where
  "announced_memberships E f =
     (let own = map (\<lambda>m. (mb_user m, membership_json (mb_user m) (mb_channels m) (mb_isSsh m) (mb_kem m)))
                  (own_memberships E)
      in if isRelay f then fold (\<lambda>n. tunnel_pass n (f_users f)) (jm_keys (f_tunnels f)) own else own)"

definition touch_tunnel_users :: "int \<Rightarrow> fed \<Rightarrow> fed" where
  "touch_tunnel_users now f =
     (if isRelay f
      then f\<lparr>f_users := map (\<lambda>(a, u). (a, if tunnel_user f a then u\<lparr>ru_lastSeen := now\<rparr> else u)) (f_users f)\<rparr>
      else f)"

definition announced_addresses :: "fed_env \<Rightarrow> fed \<Rightarrow> string list" where
  "announced_addresses E f =
     (if isRelay f then [getRelayAnnounceAddress E f] else safe_addresses E (f_bound f))"

definition presence_signed :: "string \<Rightarrow> json option \<Rightarrow> json \<Rightarrow> string \<Rightarrow> json \<Rightarrow> json option \<Rightarrow> json" where
  "presence_signed nodeId role nodes kem channels timestamp =
     obj [(''nodeId'', Some (JStr nodeId)), (''role'', role), (''rendezvousNodes'', Some nodes),
       (''kemPublicKey'', Some (JStr kem)), (''channels'', Some channels), (''timestamp'', timestamp)]"

definition createPresenceAnnouncePayload :: "fed_env \<Rightarrow> int \<Rightarrow> fed \<Rightarrow> json \<times> fed" where
  "createPresenceAnnouncePayload E now f =
     (let nodes = strings (announced_addresses E f);
          channels = strings (getLocalChannels E);
          sig = sign (fe_crypto E)
                  (stringify (presence_signed (fe_nodeId E) (Some (JStr (f_role f))) nodes (fe_kemPub E) channels (Some (JNum now))))
                  (fe_identityPriv E)
      in (JObj [(''type'', JStr ''PRESENCE_ANNOUNCE''), (''nodeId'', JStr (fe_nodeId E)), (''role'', JStr (f_role f)),
            (''rendezvousNodes'', nodes), (''kemPublicKey'', JStr (fe_kemPub E)),
            (''identityPublicKey'', JStr (fe_identityPub E)), (''channels'', channels),
            (''memberships'', JArr (map snd (announced_memberships E f))), (''timestamp'', JNum now),
            (''sig'', JStr sig)],
          touch_tunnel_users now f))"

text \<open>The channels an announcement is written to, each once.\<close>

definition announce_channels :: "fed \<Rightarrow> nat list" where
  "announce_channels f =
     js_uniq (filter (\<lambda>c. l_ready (f_link f c) \<and> socket_writable (f_link f c))
       (jm_values (f_pool f) @ jm_values (f_relays f) @ map tn_chan (jm_values (f_tunnels f))))"

definition broadcastPresenceAnnounce :: "fed_env \<Rightarrow> int \<Rightarrow> act" where
  "broadcastPresenceAnnounce E now f =
     (let (payload, f1) = createPresenceAnnouncePayload E now f;
          nodes = announced_addresses E f;
          record = \<lparr>ps_role = f_role f1, ps_rendezvous = nodes, ps_kem = Some (fe_kemPub E),
                    ps_ident = Some (fe_identityPub E), ps_channels = getLocalChannels E, ps_lastSeen = now\<rparr>;
          f2 = f1\<lparr>f_presence := jm_set (fe_nodeId E) record (f_presence f1),
                  f_db := upsertRoute (fe_nodeId E) (f_role f1) nodes (Some (fe_kemPub E)) (Some (fe_identityPub E)) now (f_db f1)\<rparr>;
          written = announce_channels f2
      in (f2, map (\<lambda>c. Write c payload) written @
              (if isRelay f2
               then map (\<lambda>(h, p). ConnectWrite h p payload written True)
                      (peer_targets (\<lambda>_ (h, p). \<not> isSelfPeerAddress E f2 h (Some p) \<and> \<not> jm_has (f_pool f2) (host_port h p)) f2)
               else [])))"

definition broadcastPresence :: "fed_env \<Rightarrow> int \<Rightarrow> act" where
  "broadcastPresence E now f =
     (let (f1, e1) = broadcastPresenceAnnounce E now f
      in if isRelay f1
         then let (f2, e2) = in_order (map (\<lambda>(n, t). if tn_address t \<noteq> []
                    then broadcastRouteUpdate E now n (tn_address t) (tn_kem t) (Some (tn_ident t)) else effects []) (f_tunnels f1)) f1
              in (f2, e1 @ e2)
         else (f1, e1))"

section \<open>Roles\<close>

definition setRole :: "fed_env \<Rightarrow> int \<Rightarrow> string \<Rightarrow> act" where
  "setRole E now newRole f =
     (if f_role f = newRole then (f, [])
      else
        let f1 = f\<lparr>f_role := newRole\<rparr>;
            f2 = (if isRelay f1 \<and> truthy (f_publicIp f1) \<and> loopback_or_local (fe_cfg E)
                  then f1\<lparr>f_nodeAddress := the (f_publicIp f1) @ '':'' @ show_int (pub_port (fe_cfg E))\<rparr> else f1);
            (f3, es) = broadcastPresence E now f2
        in (f3, Emitted (RoleChange newRole) # es))"

definition checkTransitEdgeRole :: "fed_env \<Rightarrow> int \<Rightarrow> act" where
  "checkTransitEdgeRole E now f =
     (if isRelay f then (f, [])
      else if allowEdgeRouting (fe_cfg E) \<and> length (f_relays f) \<ge> 2
      then (if f_role f \<noteq> ''CAP_EDGE_TRANSIT'' then setRole E now ''CAP_EDGE_TRANSIT'' f else (f, []))
      else if f_role f = ''CAP_EDGE_TRANSIT'' then setRole E now ''EDGE'' f
      else (f, []))"

text \<open>What announcing and changing a role leave alone.\<close>

lemma announce_frame:
  "f_nat (fst (broadcastPresenceAnnounce E now f)) = f_nat f"
  "f_publicIp (fst (broadcastPresenceAnnounce E now f)) = f_publicIp f"
  "f_role (fst (broadcastPresenceAnnounce E now f)) = f_role f"
  "f_tunnels (fst (broadcastPresenceAnnounce E now f)) = f_tunnels f"
  "f_relays (fst (broadcastPresenceAnnounce E now f)) = f_relays f"
  "f_peers (fst (broadcastPresenceAnnounce E now f)) = f_peers f"
  "f_nonces (fst (broadcastPresenceAnnounce E now f)) = f_nonces f"
  "f_link (fst (broadcastPresenceAnnounce E now f)) = f_link f"
  "f_bound (fst (broadcastPresenceAnnounce E now f)) = f_bound f"
  by (simp_all add: broadcastPresenceAnnounce_def createPresenceAnnouncePayload_def touch_tunnel_users_def Let_def)

lemma broadcastPresence_state: "fst (broadcastPresence E now f) = fst (broadcastPresenceAnnounce E now f)"
proof -
  obtain f1 e1 where a: "broadcastPresenceAnnounce E now f = (f1, e1)" by fastforce
  have "fst (in_order (map (\<lambda>(n, t). if tn_address t \<noteq> []
      then broadcastRouteUpdate E now n (tn_address t) (tn_kem t) (Some (tn_ident t)) else effects []) (f_tunnels f1)) f1) = f1"
    by (rule in_order_same) (auto simp: broadcastRouteUpdate_def effects_def Let_def)
  then show ?thesis by (simp add: broadcastPresence_def a split_beta)
qed

lemmas broadcast_frame = announce_frame [folded broadcastPresence_state]

lemma setRole_frame:
  "f_nat (fst (setRole E now r f)) = f_nat f" "f_publicIp (fst (setRole E now r f)) = f_publicIp f"
  "f_role (fst (setRole E now r f)) = r" "f_tunnels (fst (setRole E now r f)) = f_tunnels f"
  "f_relays (fst (setRole E now r f)) = f_relays f" "f_peers (fst (setRole E now r f)) = f_peers f"
  "f_nonces (fst (setRole E now r f)) = f_nonces f" "f_link (fst (setRole E now r f)) = f_link f"
  "f_bound (fst (setRole E now r f)) = f_bound f"
  by (simp_all add: setRole_def Let_def broadcast_frame split_beta)

section \<open>Messages to the mesh\<close>

definition channel_message :: "message \<Rightarrow> int \<Rightarrow> int \<Rightarrow> json" where
  "channel_message m hop ttl =
     JObj [(''type'', JStr ''CHANNEL_MESSAGE''), (''id'', JStr (m_id m)), (''from'', JStr (m_from m)), (''to'', JStr (m_to m)),
       (''content'', JStr (m_content m)), (''isAction'', JBool (m_isAction m)), (''isSnippet'', JBool (m_isSnippet m)),
       (''isE2EE'', JBool (m_isE2EE m)), (''hop'', JNum hop), (''ttl'', JNum (if ttl = 0 then 5 else ttl)),
       (''timestamp'', JStr (m_timestamp m))]"

text \<open>\<open>`${socket.remoteAddress}:${socket.remotePort}`\<close>.\<close>

definition socket_peer :: "link \<Rightarrow> string option" where
  "socket_peer l =
     map_option (\<lambda>s. (case sv_remote s of None \<Rightarrow> ''undefined'' | Some a \<Rightarrow> a) @ '':'' @
       (case sv_remotePort s of None \<Rightarrow> ''undefined'' | Some p \<Rightarrow> show_int p)) (l_socket l)"

definition excepted :: "string option \<Rightarrow> link \<Rightarrow> bool" where
  "excepted exceptPeer l =
     (truthy exceptPeer \<and> (socket_peer l = exceptPeer \<or> l_peerAddress l = exceptPeer))"

definition broadcastChannelMessage :: "message \<Rightarrow> int \<Rightarrow> int \<Rightarrow> string option \<Rightarrow> act" where
  "broadcastChannelMessage m hop ttl exceptPeer f =
     (let payload = channel_message m hop ttl
      in (f, map (\<lambda>(h, p). SendPacket h p payload False) (peer_targets (\<lambda>peer _. Some peer \<noteq> exceptPeer) f) @
             map (\<lambda>c. Write c payload)
               (writable_tunnels (\<lambda>_ t. \<not> excepted exceptPeer (f_link f (tn_chan t))) f) @
             map (\<lambda>(_, c). Write c payload)
               (filter (\<lambda>(a, c). \<not> (truthy exceptPeer \<and> Some a = exceptPeer) \<and> \<not> excepted exceptPeer (f_link f c) \<and>
                    l_ready (f_link f c) \<and> not_unwritable (f_link f c)) (f_relays f))))"

text \<open>\<open>parsed?.name || address.split(':')[0].replace(/^@/, '')\<close>.\<close>

definition offline_nick :: "fed_env \<Rightarrow> string \<Rightarrow> string" where
  "offline_nick E a = (case parse_addr E a of Some p \<Rightarrow> pa_name p | None \<Rightarrow> strip_prefix ''@'' (before CHR '':'' a))"

definition broadcastUserOffline :: "fed_env \<Rightarrow> int \<Rightarrow> string \<Rightarrow> act" where
  "broadcastUserOffline E now userAddress f =
     (if userAddress = [] then (f, [])
      else
        let nick = js_lower (offline_nick E userAddress);
            f1 = f\<lparr>f_users := filter (\<lambda>(a, _). \<not> (nick \<noteq> [] \<and> js_lower (offline_nick E a) = nick))
                               (jm_delete userAddress (f_users f))\<rparr>;
            payload = JObj [(''type'', JStr ''USER_OFFLINE''), (''user'', JStr userAddress),
              (''nodeAddress'', JStr (f_nodeAddress f)), (''timestamp'', JNum now)]
        in (f1, Emitted PresenceChange #
              map (\<lambda>(h, p). ConnectWrite h p payload [] True) (peer_targets (\<lambda>_ _. True) f1) @
              map (\<lambda>c. Write c payload)
                (filter (\<lambda>c. l_ready (f_link f1 c) \<and> socket_writable (f_link f1 c)) (jm_values (f_pool f1))) @
              map (\<lambda>c. Write c payload) (writable_tunnels (\<lambda>_ _. True) f1) @
              map (\<lambda>c. Write c payload) (writable_relays f1)))"

section \<open>Gossip\<close>

text \<open>An address out of a gossip packet is offered to the pool.\<close>

definition learn_address :: "fed_env \<Rightarrow> int \<Rightarrow> string \<Rightarrow> fed \<Rightarrow> fed" where
  "learn_address E now a f =
     (if a = [] \<or> ends_with ''.mesh'' a then f
      else case peer_target a of
        None \<Rightarrow> f
      | Some (h, p) \<Rightarrow>
          if isSelfPeerAddress E f h (Some p) then f
          else f\<lparr>f_peers := addOrUpdate (fe_penv E) now a True True (f_peers f)\<rparr>)"

text \<open>The strings of an array field; another kind of element would make the handler throw.\<close>

definition string_list :: "json option \<Rightarrow> string list" where
  "string_list j =
     (case j of Some (JArr xs) \<Rightarrow> List.map_filter (\<lambda>x. case x of JStr s \<Rightarrow> Some s | _ \<Rightarrow> None) xs | _ \<Rightarrow> [])"

definition learn_gossip :: "fed_env \<Rightarrow> int \<Rightarrow> json \<Rightarrow> fed \<Rightarrow> fed" where
  "learn_gossip E now payload f =
     fold (learn_address E now) (string_list (field payload ''peers''))
       (case str_field payload ''selfNode'' of Some a \<Rightarrow> learn_address E now a f | None \<Rightarrow> f)"

definition gossip_self :: "fed_env \<Rightarrow> fed \<Rightarrow> json" where
  "gossip_self E f = (if isRelay f then JStr (getRelayAnnounceAddress E f) else JNull)"

definition gossip_request :: "fed_env \<Rightarrow> (nat \<Rightarrow> nat) \<Rightarrow> fed \<Rightarrow> json" where
  "gossip_request E rnd f =
     JObj [(''type'', JStr ''GOSSIP_DISCOVERY''), (''selfNode'', gossip_self E f),
       (''peers'', strings (getRandomSample rnd 5 (f_peers f)))]"

text \<open>
  One exchange with a sampled peer. The answer is \<open>None\<close> when the packet could not be sent.
\<close>

definition gossip_with :: "fed_env \<Rightarrow> int \<Rightarrow> (nat \<Rightarrow> nat) \<Rightarrow> (string \<Rightarrow> json option) \<Rightarrow> string \<Rightarrow> act" where
  "gossip_with E now rnd answer peer f =
     (case peer_target peer of
        None \<Rightarrow> (f, [])
      | Some (h, p) \<Rightarrow>
          if isSelfPeerAddress E f h (Some p) then (f, [])
          else
            let sent = [SendPacket h p (gossip_request E rnd f) False]
            in case answer peer of
                 None \<Rightarrow> (f\<lparr>f_peers := addOrUpdate (fe_penv E) now peer False False (f_peers f)\<rparr>, sent)
               | Some res \<Rightarrow>
                   if str_field res ''type'' = Some ''GOSSIP_RESPONSE''
                   then (learn_gossip E now res
                          (f\<lparr>f_peers := addOrUpdate (fe_penv E) now peer True False (f_peers f)\<rparr>), sent)
                   else (f, sent))"

definition performRandomGossip ::
  "fed_env \<Rightarrow> int \<Rightarrow> (nat \<Rightarrow> nat) \<Rightarrow> (string \<Rightarrow> nat \<Rightarrow> nat) \<Rightarrow> (string \<Rightarrow> json option) \<Rightarrow> act" where
  "performRandomGossip E now rnd rnds answer f =
     in_order (map (\<lambda>peer. gossip_with E now (rnds peer) answer peer) (getRandomSample rnd 3 (f_peers f))) f"

section \<open>Channel subscriptions\<close>

definition subscription :: "string \<Rightarrow> string \<Rightarrow> string \<Rightarrow> json" where
  "subscription ty channel node =
     JObj [(''type'', JStr ty), (''channel'', JStr channel), (''subscriberNode'', JStr node)]"

definition subscribeRemoteChannel :: "fed_env \<Rightarrow> int \<Rightarrow> string \<Rightarrow> int \<Rightarrow> string \<Rightarrow> bool \<Rightarrow> act" where
  "subscribeRemoteChannel E now host port channel sent f =
     (if sent then f\<lparr>f_peers := addOrUpdate (fe_penv E) now (host_port host port) True False (f_peers f)\<rparr> else f,
      [SendPacket host port (subscription ''CHANNEL_SUBSCRIBE'' channel (f_nodeAddress f)) False])"

definition unsubscribeRemoteChannel :: "string \<Rightarrow> int \<Rightarrow> string \<Rightarrow> act" where
  "unsubscribeRemoteChannel host port channel f =
     (f, [SendPacket host port (subscription ''CHANNEL_UNSUBSCRIBE'' channel (f_nodeAddress f)) False])"

definition tell_node :: "fed_env \<Rightarrow> string \<Rightarrow> string \<Rightarrow> string \<Rightarrow> act" where
  "tell_node E ty nodeId channel f =
     (if nodeId = [] \<or> channel = [] then (f, [])
      else
        let clean = js_lower (remove_first ''.mesh'' nodeId);
            payload = subscription ty channel (fe_meshAddress E)
        in (f, map (\<lambda>c. Write c payload) (filter (\<lambda>c. not_unwritable (f_link f c)) (jm_values (f_relays f))) @
               (case jm_get (f_tunnels f) clean of
                  Some t \<Rightarrow> if socket_writable (f_link f (tn_chan t)) then [Write (tn_chan t) payload] else []
                | None \<Rightarrow> []) @
               [OnionSend clean payload]))"

definition subscribeNodeChannel :: "fed_env \<Rightarrow> string \<Rightarrow> string \<Rightarrow> act" where
  "subscribeNodeChannel E = tell_node E ''CHANNEL_SUBSCRIBE''"

definition unsubscribeNodeChannel :: "fed_env \<Rightarrow> string \<Rightarrow> string \<Rightarrow> act" where
  "unsubscribeNodeChannel E = tell_node E ''CHANNEL_UNSUBSCRIBE''"

section \<open>Expiry\<close>

definition record_ttl :: "fed_env \<Rightarrow> presence \<Rightarrow> int" where
  "record_ttl E rec = (if is_relay_name (ps_role rec) then presence_ttl E * 5 else presence_ttl E)"

definition valid_route :: "fed_env \<Rightarrow> int \<Rightarrow> string \<Rightarrow> fed \<Rightarrow> bool" where
  "valid_route E now nodeId f =
     (case getRoute nodeId (f_db f) of
        None \<Rightarrow> False
      | Some r \<Rightarrow> is_relay_name (r_role r) \<or> now - r_lastSeen r \<le> presence_ttl E * 5)"

text \<open>
  One record of the presence table. (The second branch of the code tests a shorter time for nodes
  that are not relays; its first branch already covers it.)
\<close>

definition expire_record :: "fed_env \<Rightarrow> int \<Rightarrow> string \<times> presence \<Rightarrow> fed \<Rightarrow> fed" where
  "expire_record E now entry f =
     (case entry of (nodeId, rec) \<Rightarrow>
        let diff = now - ps_lastSeen rec
        in if diff < 0 then f\<lparr>f_presence := jm_set nodeId (rec\<lparr>ps_lastSeen := now\<rparr>) (f_presence f)\<rparr>
           else if diff > record_ttl E rec
           then f\<lparr>f_presence := jm_delete nodeId (f_presence f),
                  f_phys := (if \<not> is_relay_name (ps_role rec) \<and> \<not> valid_route E now nodeId f
                             then jm_delete nodeId (f_phys f) else f_phys f)\<rparr>
           else f)"

definition keep_user :: "fed_env \<Rightarrow> int \<Rightarrow> fed \<Rightarrow> string \<times> remote_user \<Rightarrow> (string \<times> remote_user) option" where
  "keep_user E now f entry =
     (case entry of (a, u) \<Rightarrow>
        if isRelay f \<and> tunnel_user f a then Some (a, u\<lparr>ru_lastSeen := now\<rparr>)
        else let diff = now - ru_lastSeen u
             in if diff < 0 then Some (a, u\<lparr>ru_lastSeen := now\<rparr>)
                else if diff \<ge> presence_ttl E then None else Some (a, u))"

definition cleanupExpiredPresence :: "fed_env \<Rightarrow> int \<Rightarrow> act" where
  "cleanupExpiredPresence E now f =
     (let f1 = fold (expire_record E now) (f_presence f) f;
          users = List.map_filter (keep_user E now f1) (f_users f1);
          f2 = f1\<lparr>f_users := users\<rparr>;
          f3 = f2\<lparr>f_db := deleteExpiredRoutes now (presence_ttl E) (presence_ttl E * 5) (f_db f2)\<rparr>;
          f4 = cleanupExpiredCircuits E now f3
      in (f4\<lparr>f_db := deleteExpiredCircuits now 600000 (f_db f4)\<rparr>,
          if length users < length (f_users f1) then [Emitted PresenceChange] else []))"

section \<open>One entry per nickname\<close>

definition nick_inv :: "string list \<Rightarrow> (string, string) jsmap \<Rightarrow> bool" where
  "nick_inv us m =
     (jm_ok m \<and> (\<forall>v \<in> set us. jm_has m (nick_of v)) \<and>
      (\<forall>n u. jm_get m n = Some u \<longrightarrow> nick_of u = n \<and> u \<in> set us \<and>
        (\<forall>v \<in> set us. nick_of v = n \<and> ends_with ''.mesh'' v \<longrightarrow> ends_with ''.mesh'' u)))"

lemma prefer_mesh_get:
  "jm_get (prefer_mesh u m) n =
     (if n = nick_of u
      then (case jm_get m n of None \<Rightarrow> Some u | Some v \<Rightarrow> if v = [] \<or> ends_with ''.mesh'' u then Some u else Some v)
      else jm_get m n)"
  by (auto simp: prefer_mesh_def Let_def jsmap_simps split: option.splits)

lemma prefer_mesh_ok: "jm_ok m \<Longrightarrow> jm_ok (prefer_mesh u m)"
  by (auto simp: prefer_mesh_def Let_def split: option.splits)

lemma no_mesh_Nil: "\<not> ends_with ''.mesh'' []"
  by (simp add: ends_with_def)

lemma prefer_mesh_inv:
  assumes "nick_inv us m"
  shows "nick_inv (us @ [u]) (prefer_mesh u m)"
proof -
  have ok: "jm_ok m" and has: "\<And>v. v \<in> set us \<Longrightarrow> jm_has m (nick_of v)"
    and ent: "\<And>n v. jm_get m n = Some v \<Longrightarrow> nick_of v = n \<and> v \<in> set us \<and>
        (\<forall>w \<in> set us. nick_of w = n \<and> ends_with ''.mesh'' w \<longrightarrow> ends_with ''.mesh'' v)"
    using assms by (auto simp: nick_inv_def)
  have all: "jm_has (prefer_mesh u m) (nick_of v)" if "v \<in> set (us @ [u])" for v
    using that has [of v] by (auto simp: jm_has_def prefer_mesh_get split: option.splits)
  have new: "nick_of v = n \<and> v \<in> set (us @ [u]) \<and>
      (\<forall>w \<in> set (us @ [u]). nick_of w = n \<and> ends_with ''.mesh'' w \<longrightarrow> ends_with ''.mesh'' v)"
    if get: "jm_get (prefer_mesh u m) n = Some v" for n v
  proof (cases "n = nick_of u")
    case False
    then show ?thesis using get ent [of n v] by (auto simp: prefer_mesh_get)
  next
    case True
    show ?thesis
    proof (cases "jm_get m n")
      case None
      then have "w \<in> set us \<Longrightarrow> nick_of w \<noteq> n" for w using has [of w] by (auto simp: jm_has_def)
      then show ?thesis using get None True by (auto simp: prefer_mesh_get)
    next
      case (Some x)
      then show ?thesis
        using get True ent [OF Some] no_mesh_Nil by (auto simp: prefer_mesh_get split: if_splits)
    qed
  qed
  show ?thesis unfolding nick_inv_def using prefer_mesh_ok [OF ok] all new by blast
qed

lemma prefer_mesh_fold: "nick_inv us m \<Longrightarrow> nick_inv (us @ vs) (fold prefer_mesh vs m)"
proof (induction vs arbitrary: us m)
  case (Cons v vs)
  then show ?case using Cons.IH [OF prefer_mesh_inv [OF Cons.prems], of v] by simp
qed simp

lemma nick_invD:
  assumes "nick_inv us m"
  shows "jm_ok m" "v \<in> set us \<Longrightarrow> \<exists>u. jm_get m (nick_of v) = Some u"
    "jm_get m n = Some u \<Longrightarrow> nick_of u = n \<and> u \<in> set us"
    "jm_get m n = Some u \<Longrightarrow> v \<in> set us \<Longrightarrow> nick_of v = n \<Longrightarrow> ends_with ''.mesh'' v \<Longrightarrow> ends_with ''.mesh'' u"
  using assms by (auto simp: nick_inv_def jm_has_def)

text \<open>
  The list of online users has each nickname once: every user it shows is a local user or a
  remote one seen within the presence time, every such user's nickname is shown, and when any address
  of a nickname is a mesh address the one shown is.
\<close>

theorem online_users_by_nick:
  assumes "getAllOnlineUsers E now f = (us, f')"
  shows "distinct (map nick_of us) \<and>
    set us \<subseteq> set (local_users E @ map fst (active_users E now f)) \<and>
    nick_of ` set us = nick_of ` set (local_users E @ map fst (active_users E now f)) \<and>
    (\<forall>u \<in> set us. \<forall>v \<in> set (local_users E @ map fst (active_users E now f)).
       nick_of v = nick_of u \<and> ends_with ''.mesh'' v \<longrightarrow> ends_with ''.mesh'' u)"
proof -
  obtain seen where seen: "local_users E @ map fst (active_users E now f) = seen" by blast
  obtain m where m: "fold prefer_mesh seen [] = m" by blast
  have us: "us = jm_values m" using assms unfolding getAllOnlineUsers_def Let_def seen m by simp
  have "nick_inv seen m" using prefer_mesh_fold [of "[]" "[]" seen] m by (simp add: nick_inv_def)
  note D = nick_invD [OF this]
  have get: "jm_get m n = Some u" if "(n, u) \<in> set m" for n u
    using that D(1) unfolding jm_ok_def by (rule map_of_is_SomeI [rotated])
  have "map nick_of us = jm_keys m"
    unfolding us map_map by (rule map_cong [OF refl]) (use get D(3) in fastforce)
  then have "distinct (map nick_of us)" using D(1) by (simp add: jm_ok_def)
  moreover have ex: "\<exists>n. jm_get m n = Some u" if "u \<in> set us" for u
    using that get unfolding us by force
  moreover have "nick_of v \<in> nick_of ` set us" if v: "v \<in> set seen" for v
  proof -
    obtain u where u: "jm_get m (nick_of v) = Some u" using D(2) [OF v] by blast
    then have "u \<in> set us" unfolding us by (force dest: jm_get_mem)
    then show ?thesis using D(3) [OF u] by (metis imageI)
  qed
  moreover have "set us \<subseteq> set seen" using ex D(3) by blast
  moreover have "ends_with ''.mesh'' u" if "u \<in> set us" "v \<in> set seen" "nick_of v = nick_of u" "ends_with ''.mesh'' v" for u v
    using ex [OF that(1)] D(3,4) that by metis
  ultimately show ?thesis unfolding seen by blast
qed

section \<open>What expiry keeps\<close>

definition aged_record :: "fed_env \<Rightarrow> int \<Rightarrow> presence \<Rightarrow> presence option" where
  "aged_record E now r =
     (if now < ps_lastSeen r then Some (r\<lparr>ps_lastSeen := now\<rparr>)
      else if now - ps_lastSeen r > record_ttl E r then None else Some r)"

lemma expire_record_get:
  assumes "jm_get (f_presence f) n = Some r"
  shows "jm_get (f_presence (expire_record E now (n, r) f)) k =
    (if k = n then aged_record E now r else jm_get (f_presence f) k)"
  using assms by (simp add: expire_record_def aged_record_def Let_def jsmap_simps)

lemma expire_record_users [simp]: "f_users (expire_record E now e f) = f_users f"
  by (simp add: expire_record_def Let_def split: prod.split)

lemma expire_record_frame [simp]:
  "f_role (expire_record E now e f) = f_role f" "f_tunnels (expire_record E now e f) = f_tunnels f"
  by (simp_all add: expire_record_def Let_def split: prod.split)

lemma expire_fold_get:
  assumes "distinct (map fst es)" "\<forall>(n, r) \<in> set es. jm_get (f_presence f) n = Some r"
  shows "jm_get (f_presence (fold (expire_record E now) es f)) k =
    (if k \<in> fst ` set es then Option.bind (jm_get (f_presence f) k) (aged_record E now) else jm_get (f_presence f) k)"
  using assms
proof (induction es arbitrary: f)
  case (Cons e es)
  obtain n r where e: "e = (n, r)" by fastforce
  then have r: "jm_get (f_presence f) n = Some r" using Cons.prems(2) by auto
  note step = expire_record_get [OF r, of E now]
  have "\<forall>(m, r') \<in> set es. jm_get (f_presence (expire_record E now e f)) m = Some r'"
    using Cons.prems e step by (force simp: image_iff)
  then show ?case
    using Cons.IH [of "expire_record E now e f"] Cons.prems(1) e step r by (auto simp: image_iff)
qed simp

lemma fold_expire_frame [simp]:
  "f_users (fold (expire_record E now) es f) = f_users f"
  "f_role (fold (expire_record E now) es f) = f_role f"
  "f_tunnels (fold (expire_record E now) es f) = f_tunnels f"
  by (induction es arbitrary: f) simp_all

text \<open>
  Expiry: after a cleanup a node's presence record is gone exactly when its time is over (five
  times longer for a relay), a record from the future counts from now, every other record is as it
  was; every remote user left was seen within the presence time or sits behind one of this relay's
  tunnels, and no other user was dropped.
\<close>

theorem cleanup_expires:
  assumes "jm_ok (f_presence f)" "cleanupExpiredPresence E now f = (f', es)" "0 < presence_ttl E"
  shows "jm_get (f_presence f') n = Option.bind (jm_get (f_presence f) n) (aged_record E now) \<and>
    (\<forall>(a, u) \<in> set (f_users f'). (isRelay f \<and> tunnel_user f a) \<or> now - ru_lastSeen u < presence_ttl E) \<and>
    (\<forall>(a, u) \<in> set (f_users f). (isRelay f \<and> tunnel_user f a) \<or> now - ru_lastSeen u < presence_ttl E \<longrightarrow>
       a \<in> fst ` set (f_users f'))"
proof -
  let ?f1 = "fold (expire_record E now) (f_presence f) f"
  have f': "f_presence f' = f_presence ?f1" "f_users f' = List.map_filter (keep_user E now ?f1) (f_users f)"
    using assms(2) by (auto simp: cleanupExpiredPresence_def Let_def cleanupExpiredCircuits_def)
  have rel: "isRelay ?f1 = isRelay f" "tunnel_user ?f1 = tunnel_user f"
    by (auto simp: isRelay_def tunnel_user_def fun_eq_iff)
  have "jm_get (f_presence ?f1) n = Option.bind (jm_get (f_presence f) n) (aged_record E now)"
    using expire_fold_get [of "f_presence f" f E now n] assms(1)
    by (auto simp: jm_ok_def map_of_eq_None_iff [THEN iffD2])
  moreover have "(isRelay f \<and> tunnel_user f a) \<or> now - ru_lastSeen u < presence_ttl E" if "(a, u) \<in> set (f_users f')" for a u
    using that assms(3) rel unfolding f'(2)
    by (auto simp: List.map_filter_def keep_user_def Let_def split: if_splits)
  moreover have "a \<in> fst ` set (f_users f')"
    if "(a, u) \<in> set (f_users f)" "(isRelay f \<and> tunnel_user f a) \<or> now - ru_lastSeen u < presence_ttl E" for a u
  proof -
    have "\<exists>u'. keep_user E now ?f1 (a, u) = Some (a, u')" using that(2) rel by (auto simp: keep_user_def Let_def)
    then show ?thesis unfolding f'(2) List.map_filter_def using that(1) by force
  qed
  ultimately show ?thesis using f'(1) by auto
qed

definition seen_at :: "int \<Rightarrow> remote_user" where
  "seen_at t = \<lparr>ru_lastSeen = t, ru_channels = [], ru_isSsh = False, ru_kem = []\<rparr>"

theorem online_users_by_nick_witness:
  "\<exists>us f'. getAllOnlineUsers (sample_fed_env clear_crypto ''n'') 5
      ((sample_fed (sample_fed_env clear_crypto ''n''))\<lparr>f_users := [(''@a:n1.mesh'', seen_at 1), (''@a:h'', seen_at 2)]\<rparr>) = (us, f') \<and>
    ''@a:h'' \<notin> set us \<and> nick_of ` set us = {''a''}"
proof -
  let ?E = "sample_fed_env clear_crypto ''n''"
  let ?f = "(sample_fed ?E)\<lparr>f_users := [(''@a:n1.mesh'', seen_at 1), (''@a:h'', seen_at 2)]\<rparr>"
  obtain us f' where us: "getAllOnlineUsers ?E 5 ?f = (us, f')" by fastforce
  have act: "local_users ?E @ map fst (active_users ?E 5 ?f) = [''@a:n1.mesh'', ''@a:h'']"
    by (simp add: local_users_def active_users_def refresh_users_def refresh_def seen_at_def presence_ttl_def or_default_def)
  have nick: "nick_of ''@a:n1.mesh'' = ''a''" "nick_of ''@a:h'' = ''a''"
    and mesh: "ends_with ''.mesh'' ''@a:n1.mesh''" "\<not> ends_with ''.mesh'' ''@a:h''"
    by (simp_all add: nick_of_def js_lower_def js_lower_char_def ends_with_def starts_with_def Let_def)
  note found = online_users_by_nick [OF us, unfolded act]
  have "nick_of ` set us = nick_of ` set [''@a:n1.mesh'', ''@a:h'']" using found by (elim conjE)
  then have "nick_of ` set us = {''a''}" by (simp add: nick)
  moreover have "''@a:h'' \<notin> set us"
  proof
    assume "''@a:h'' \<in> set us"
    moreover have "\<forall>u \<in> set us. \<forall>v \<in> set [''@a:n1.mesh'', ''@a:h''].
        nick_of v = nick_of u \<and> ends_with ''.mesh'' v \<longrightarrow> ends_with ''.mesh'' u"
      using found by (elim conjE)
    ultimately show False using nick mesh by auto
  qed
  ultimately show ?thesis using us by blast
qed

theorem cleanup_expires_witness:
  "\<exists>f' es. cleanupExpiredPresence (sample_fed_env clear_crypto ''n'') 100000
      ((sample_fed (sample_fed_env clear_crypto ''n''))\<lparr>f_presence := [(''a'', \<lparr>ps_role = ''EDGE'', ps_rendezvous = [], ps_kem = None,
          ps_ident = None, ps_channels = [], ps_lastSeen = 1\<rparr>)], f_users := [(''@a'', seen_at 99999), (''@b'', seen_at 7)]\<rparr>) = (f', es) \<and>
    jm_get (f_presence f') ''a'' = None \<and> ''@a'' \<in> fst ` set (f_users f')"
proof -
  let ?E = "sample_fed_env clear_crypto ''n''"
  let ?f = "(sample_fed ?E)\<lparr>f_presence := [(''a'', \<lparr>ps_role = ''EDGE'', ps_rendezvous = [], ps_kem = None,
          ps_ident = None, ps_channels = [], ps_lastSeen = 1\<rparr>)], f_users := [(''@a'', seen_at 99999), (''@b'', seen_at 7)]\<rparr>"
  obtain f' es where e: "cleanupExpiredPresence ?E 100000 ?f = (f', es)" by fastforce
  have ttl: "presence_ttl ?E = 60000" by (simp add: presence_ttl_def or_default_def)
  have ok: "jm_ok (f_presence ?f)" by (simp add: jm_ok_def)
  show ?thesis
    using cleanup_expires [OF ok e, of "''a''"] e ttl
    by (auto simp: aged_record_def record_ttl_def is_relay_name_def seen_at_def)
qed

end
