(* ===== verification/AutoNat.thy ===== *)
theory AutoNat
  imports Presence
begin

text \<open>
  \<open>src/core/autoNat.js\<close>: the consensus on this node's public address, the outgoing dialback test that
  makes it a relay, and the incoming dialback requests with their guards (only the socket's own
  address, no private address, five at a time, one per address in ten seconds). The time-outs and the
  outcomes of the dialled sockets are events of the service's step relation.
\<close>

section \<open>Consensus\<close>

abbreviation set_nat :: "(nat_state \<Rightarrow> nat_state) \<Rightarrow> fed \<Rightarrow> fed" where
  "set_nat g f \<equiv> f\<lparr>f_nat := g (f_nat f)\<rparr>"

definition votes_for :: "string \<Rightarrow> fed \<Rightarrow> string list" where
  "votes_for ip f = (case jm_get (nt_votes (f_nat f)) ip of None \<Rightarrow> [] | Some vs \<Rightarrow> vs)"

definition add_vote :: "string \<Rightarrow> string \<Rightarrow> fed \<Rightarrow> fed" where
  "add_vote ip peer f = set_nat (\<lambda>n. n\<lparr>nt_votes := jm_set ip (js_add peer (votes_for ip f)) (nt_votes n)\<rparr>) f"

text \<open>The test is over: this node is an edge.\<close>

definition dialback_over :: "fed_env \<Rightarrow> int \<Rightarrow> string \<Rightarrow> act" where
  "dialback_over E now role f = setRole E now role (set_nat (\<lambda>n. n\<lparr>nt_running := False\<rparr>) f)"

definition dialback_port :: "config \<Rightarrow> int" where
  "dialback_port cfg = pub_port cfg"

definition initiateDialback :: "fed_env \<Rightarrow> int \<Rightarrow> string \<Rightarrow> string \<Rightarrow> act" where
  "initiateDialback E now nonce targetIp f =
     (if nt_running (f_nat f) then (f, [])
      else
        let f1 = set_nat (\<lambda>n. n\<lparr>nt_running := True\<rparr>) f
        in case getAllPeers (f_peers f1) of
             [] \<Rightarrow> dialback_over E now ''EDGE'' f1
           | testPeer # _ \<Rightarrow>
               (case addr_port testPeer of
                  None \<Rightarrow> dialback_over E now ''EDGE'' f1
                | Some port \<Rightarrow>
                    if addr_host testPeer = [] then dialback_over E now ''EDGE'' f1
                    else (set_nat (\<lambda>n. n\<lparr>nt_pending := jm_set nonce targetIp (nt_pending n)\<rparr>) f1,
                          [SendPacket (addr_host testPeer) port
                             (JObj [(''type'', JStr ''DIALBACK_REQUEST''), (''targetIp'', JStr targetIp),
                                (''targetPort'', JNum (dialback_port (fe_cfg E))), (''nonce'', JStr nonce)]) False])))"

definition handleObservedAddress :: "fed_env \<Rightarrow> int \<Rightarrow> string \<Rightarrow> string \<Rightarrow> string \<Rightarrow> act" where
  "handleObservedAddress E now nonce observed peer f =
     (if observed = [] \<or> CHR '':'' \<notin> set observed then (f, [])
      else
        let ip = before CHR '':'' observed
        in if ip = [] then (f, [])
           else
             let f1 = add_vote ip peer f
             in if length (votes_for ip f1) \<ge> 2 \<and> f_publicIp f1 \<noteq> Some ip
                then
                  let f2 = f1\<lparr>f_publicIp := Some ip, f_peers := setPublicIp (fe_penv E) ip (f_peers f1)\<rparr>;
                      f3 = (if isRelay f2 \<and> loopback_or_local (fe_cfg E)
                            then f2\<lparr>f_nodeAddress := ip @ '':'' @ show_int (pub_port (fe_cfg E))\<rparr> else f2);
                      (f4, es) = (if meshRole (fe_cfg E) = ''EDGE'' then setRole E now ''EDGE'' f3
                                  else if \<not> nt_running (f_nat f3) then initiateDialback E now nonce ip f3
                                  else (f3, []))
                  in (f4, Emitted (NatConsensus ip) # es)
                else (f1, []))"

text \<open>The request could not be sent, or nothing came back within five seconds.\<close>

definition dialbackFailed :: "fed_env \<Rightarrow> int \<Rightarrow> string \<Rightarrow> act" where
  "dialbackFailed E now nonce f =
     dialback_over E now ''EDGE'' (set_nat (\<lambda>n. n\<lparr>nt_pending := jm_delete nonce (nt_pending n)\<rparr>) f)"

definition dialbackTimeout :: "fed_env \<Rightarrow> int \<Rightarrow> string \<Rightarrow> act" where
  "dialbackTimeout E now nonce f =
     (if jm_has (nt_pending (f_nat f)) nonce then dialbackFailed E now nonce f else (f, []))"

definition handleDialbackConfirm :: "fed_env \<Rightarrow> int \<Rightarrow> json \<Rightarrow> act" where
  "handleDialbackConfirm E now payload f =
     (case str_field payload ''nonce'' of
        None \<Rightarrow> (f, [])
      | Some nonce \<Rightarrow>
          if nonce = [] \<or> \<not> jm_has (nt_pending (f_nat f)) nonce then (f, [])
          else dialback_over E now ''RELAY'' (set_nat (\<lambda>n. n\<lparr>nt_pending := jm_delete nonce (nt_pending n)\<rparr>) f))"

section \<open>Serving dialback requests\<close>

definition maxConcurrentDialbacks :: int where
  "maxConcurrentDialbacks = 5"

definition testing :: "fed_env \<Rightarrow> bool" where
  "testing E = (fe_test E \<or> environment (fe_cfg E) = ''test'')"

definition loopback_ip :: "string \<Rightarrow> bool" where
  "loopback_ip ip = (ip \<in> {''127.0.0.1'', ''::1'', ''localhost''})"

text \<open>\<open>/^(10\.|172\.(1[6-9]|2[0-9]|3[0-1])\.|192\.168\.)/\<close>.\<close>

definition private_ip :: "string \<Rightarrow> bool" where
  "private_ip ip =
     (starts_with ''10.'' ip \<or> starts_with ''192.168.'' ip \<or>
      list_ex (\<lambda>n. starts_with (''172.'' @ show_nat n @ ''.'') ip) [16..<32])"

definition link_local_ip :: "string \<Rightarrow> bool" where
  "link_local_ip ip = (starts_with ''169.254.'' ip \<or> starts_with ''fe80:'' ip)"

definition blocked_ip :: "fed_env \<Rightarrow> string \<Rightarrow> bool" where
  "blocked_ip E ip = ((loopback_ip ip \<or> private_ip ip \<or> link_local_ip ip) \<and> \<not> testing E)"

text \<open>The limiter remembers an address; above 1000 entries it forgets the leading ones older than a minute.\<close>

definition remember_dialback :: "int \<Rightarrow> string \<Rightarrow> (string, int) jsmap \<Rightarrow> (string, int) jsmap" where
  "remember_dialback now ip m =
     (let m1 = jm_set ip now m
      in if length m1 > 1000 then dropWhile (\<lambda>(_, ts). now - ts > 60000) m1 else m1)"

definition last_dialback :: "string \<Rightarrow> fed \<Rightarrow> int" where
  "last_dialback ip f = (case jm_get (nt_rateLimit (f_nat f)) ip of None \<Rightarrow> 0 | Some t \<Rightarrow> t)"

definition handleDialbackRequest :: "fed_env \<Rightarrow> int \<Rightarrow> json \<Rightarrow> nat option \<Rightarrow> act" where
  "handleDialbackRequest E now payload ch f =
     (if \<not> truthy_field payload ''targetPort'' \<or> \<not> truthy_field payload ''nonce'' then (f, [])
      else
        let verifiedIp = remote_ip (link_of f ch)
        in if verifiedIp = [] then (f, [])
           else case parse_int 10 (field_text payload ''targetPort'') of
             None \<Rightarrow> (f, [])
           | Some numPort \<Rightarrow>
               if numPort < 1 \<or> numPort > 65535 then (f, [])
               else if blocked_ip E verifiedIp then (f, [])
               else if nt_active (f_nat f) \<ge> maxConcurrentDialbacks then (f, [])
               else if \<not> testing E \<and> now - last_dialback verifiedIp f < 10000 then (f, [])
               else
                 (set_nat (\<lambda>n. n\<lparr>nt_rateLimit := (if testing E then nt_rateLimit n else remember_dialback now verifiedIp (nt_rateLimit n)),
                     nt_active := nt_active n + 1,
                     nt_dials := nt_dials n @ [\<lparr>dl_chan = ch, dl_nonce = the (field payload ''nonce''), dl_released = False\<rparr>]\<rparr>) f,
                  [Dial verifiedIp numPort]))"

definition releaseSlot :: "nat \<Rightarrow> fed \<Rightarrow> fed" where
  "releaseSlot i f =
     (if i < length (nt_dials (f_nat f)) \<and> \<not> dl_released (nt_dials (f_nat f) ! i)
      then set_nat (\<lambda>n. n\<lparr>nt_dials := (nt_dials n)[i := (nt_dials n ! i)\<lparr>dl_released := True\<rparr>],
                         nt_active := max 0 (nt_active n - 1)\<rparr>) f
      else f)"

definition dial_connected :: "nat \<Rightarrow> act" where
  "dial_connected i f =
     (if i < length (nt_dials (f_nat f))
      then (releaseSlot i f,
            replies (dl_chan (nt_dials (f_nat f) ! i))
              (JObj [(''type'', JStr ''DIALBACK_CONFIRM''), (''nonce'', dl_nonce (nt_dials (f_nat f) ! i)), (''confirmed'', JBool True)]))
      else (f, []))"

section \<open>The service as a machine\<close>

text \<open>\<open>DialEnded\<close> is an error, a close or the three-second time-out of a dialled socket.\<close>

datatype nat_event =
    Observed string string string
  | Confirm json
  | DialbackFailed string
  | DialbackTimeout string
  | DialbackRequest json "nat option"
  | DialConnected nat
  | DialEnded nat

fun nat_step :: "fed_env \<Rightarrow> int \<Rightarrow> nat_event \<Rightarrow> act" where
  "nat_step E now (Observed nonce addr peer) f = handleObservedAddress E now nonce addr peer f"
| "nat_step E now (Confirm payload) f = handleDialbackConfirm E now payload f"
| "nat_step E now (DialbackFailed nonce) f = dialbackFailed E now nonce f"
| "nat_step E now (DialbackTimeout nonce) f = dialbackTimeout E now nonce f"
| "nat_step E now (DialbackRequest payload ch) f = handleDialbackRequest E now payload ch f"
| "nat_step E now (DialConnected i) f = dial_connected i f"
| "nat_step E now (DialEnded i) f = (releaseSlot i f, [])"

text \<open>The states a node can get to: any channels, any events, at any times.\<close>

inductive nat_reach :: "fed_env \<Rightarrow> fed \<Rightarrow> bool" for E where
  start: "nat_reach E (new_fed E d p)"
| links: "nat_reach E f \<Longrightarrow> nat_reach E (f\<lparr>f_link := l\<rparr>)"
| peers: "nat_reach E f \<Longrightarrow> nat_reach E (f\<lparr>f_peers := p\<rparr>)"
| event: "nat_reach E f \<Longrightarrow> nat_reach E (fst (nat_step E now ev f))"

definition open_dials :: "fed \<Rightarrow> nat" where
  "open_dials f = length (filter (\<lambda>d. \<not> dl_released d) (nt_dials (f_nat f)))"

definition nat_inv :: "fed \<Rightarrow> bool" where
  "nat_inv f =
     ((\<forall>ip. distinct (votes_for ip f)) \<and>
      (\<forall>ip. f_publicIp f = Some ip \<longrightarrow> 2 \<le> length (votes_for ip f)) \<and>
      nt_active (f_nat f) = int (open_dials f) \<and> nt_active (f_nat f) \<le> maxConcurrentDialbacks)"

section \<open>Invariant\<close>

lemma votes_frame:
  "votes_for ip (f\<lparr>f_publicIp := x\<rparr>) = votes_for ip f" "votes_for ip (f\<lparr>f_peers := y\<rparr>) = votes_for ip f"
  "votes_for ip (f\<lparr>f_nodeAddress := z\<rparr>) = votes_for ip f" "votes_for ip (f\<lparr>f_link := l\<rparr>) = votes_for ip f"
  by (simp_all add: votes_for_def)

lemma votes_add: "votes_for i (add_vote ip peer f) = (if i = ip then js_add peer (votes_for ip f) else votes_for i f)"
  by (simp add: votes_for_def add_vote_def jsmap_simps)

text \<open>The parts of the state the invariant reads, and steps that keep them.\<close>

definition nat_view :: "fed \<Rightarrow> (string, string list) jsmap \<times> string option \<times> int \<times> dial list" where
  "nat_view f = (nt_votes (f_nat f), f_publicIp f, nt_active (f_nat f), nt_dials (f_nat f))"

lemma nat_inv_view:
  assumes "nat_view f = nat_view g"
  shows "nat_inv f = nat_inv g"
proof -
  have "votes_for ip f = votes_for ip g" for ip using assms by (simp add: nat_view_def votes_for_def)
  moreover have "open_dials f = open_dials g" using assms by (simp add: nat_view_def open_dials_def)
  ultimately show ?thesis using assms by (simp add: nat_view_def nat_inv_def)
qed

lemma view_setRole [simp]: "nat_view (fst (setRole E now r f)) = nat_view f"
  by (simp add: nat_view_def setRole_frame)

lemma view_over [simp]: "nat_view (fst (dialback_over E now r f)) = nat_view f"
  by (simp add: dialback_over_def) (simp add: nat_view_def)

lemma view_updates [simp]:
  "nat_view (set_nat (\<lambda>n. n\<lparr>nt_running := x\<rparr>) f) = nat_view f"
  "nat_view (set_nat (\<lambda>n. n\<lparr>nt_pending := y\<rparr>) f) = nat_view f"
  "nat_view (f\<lparr>f_peers := p\<rparr>) = nat_view f" "nat_view (f\<lparr>f_nodeAddress := a\<rparr>) = nat_view f"
  "nat_view (f\<lparr>f_link := l\<rparr>) = nat_view f"
  by (simp_all add: nat_view_def)

lemma view_initiate [simp]: "nat_view (fst (initiateDialback E now nonce ip f)) = nat_view f"
  by (auto simp: initiateDialback_def Let_def split: list.splits option.splits) (auto simp: nat_view_def)

lemma inv_vote:
  assumes "nat_inv f"
  shows "nat_inv (add_vote ip peer f)"
proof -
  have "length (votes_for i f) \<le> length (votes_for i (add_vote ip peer f))" for i
    by (simp add: votes_add length_js_add)
  moreover have "f_publicIp (add_vote ip peer f) = f_publicIp f" "open_dials (add_vote ip peer f) = open_dials f"
      "nt_active (f_nat (add_vote ip peer f)) = nt_active (f_nat f)"
    by (simp_all add: add_vote_def open_dials_def)
  ultimately show ?thesis
    using assms by (auto simp: nat_inv_def votes_add length_js_add split: option.splits)
qed

text \<open>A report that reaches the threshold, and one that does not.\<close>

definition consensus_now :: "string \<Rightarrow> string \<Rightarrow> fed \<Rightarrow> bool" where
  "consensus_now addr peer f =
     (let ip = before CHR '':'' addr
      in addr \<noteq> [] \<and> CHR '':'' \<in> set addr \<and> ip \<noteq> [] \<and>
         2 \<le> length (js_add peer (votes_for ip f)) \<and> f_publicIp f \<noteq> Some ip)"

lemma observed_low:
  assumes "addr \<noteq> []" "CHR '':'' \<in> set addr" "before CHR '':'' addr \<noteq> []" "\<not> consensus_now addr peer f"
  shows "handleObservedAddress E now nonce addr peer f = (add_vote (before CHR '':'' addr) peer f, [])"
proof -
  have same: "f_publicIp (add_vote ip peer f) = f_publicIp f" for ip by (simp add: add_vote_def)
  have low: "\<not> (length (votes_for (before CHR '':'' addr) (add_vote (before CHR '':'' addr) peer f)) \<ge> 2 \<and>
     f_publicIp f \<noteq> Some (before CHR '':'' addr))"
    using assms by (simp add: consensus_now_def Let_def votes_add)
  show ?thesis
    unfolding handleObservedAddress_def Let_def same using low assms
    by (simp only: if_False) simp
qed

lemma observed_unchanged:
  assumes "\<not> consensus_now addr peer f"
  shows "handleObservedAddress E now nonce addr peer f = (f, []) \<or>
    handleObservedAddress E now nonce addr peer f = (add_vote (before CHR '':'' addr) peer f, [])"
proof (cases "addr = [] \<or> CHR '':'' \<notin> set addr \<or> before CHR '':'' addr = []")
  case True
  then show ?thesis by (elim disjE) (simp_all add: handleObservedAddress_def Let_def)
next
  case False
  then show ?thesis using observed_low [OF _ _ _ assms] by simp
qed

lemma observed_reached:
  assumes "consensus_now addr peer f"
  shows "nat_view (fst (handleObservedAddress E now nonce addr peer f)) =
    nat_view ((add_vote (before CHR '':'' addr) peer f)\<lparr>f_publicIp := Some (before CHR '':'' addr)\<rparr>)"
proof -
  obtain ip where ip: "before CHR '':'' addr = ip" by blast
  obtain f1 where f1: "add_vote ip peer f = f1" by blast
  have "f_publicIp f1 = f_publicIp f" using f1 by (auto simp: add_vote_def)
  moreover have "votes_for ip f1 = js_add peer (votes_for ip f)" using f1 votes_add [of ip ip peer f] by simp
  ultimately show ?thesis
    using assms by (simp add: consensus_now_def handleObservedAddress_def Let_def ip f1 split_beta)
qed

lemma inv_observed:
  assumes "nat_inv f"
  shows "nat_inv (fst (handleObservedAddress E now nonce addr peer f))"
proof (cases "consensus_now addr peer f")
  case True
  obtain ip where ip: "before CHR '':'' addr = ip" by blast
  have "2 \<le> length (votes_for ip (add_vote ip peer f))"
    using True ip by (simp add: consensus_now_def Let_def votes_add)
  then have "nat_inv ((add_vote ip peer f)\<lparr>f_publicIp := Some ip\<rparr>)"
    using inv_vote [OF assms, of ip peer] by (simp add: nat_inv_def votes_frame open_dials_def)
  then show ?thesis using observed_reached [OF True] nat_inv_view ip by blast
next
  case False
  then show ?thesis using observed_unchanged [OF False, of E now nonce] inv_vote [OF assms] assms by auto
qed

lemma filter_release:
  "i < length ds \<Longrightarrow> \<not> P (ds ! i) \<Longrightarrow> P x \<Longrightarrow>
   Suc (length (filter (\<lambda>d. \<not> P d) (ds[i := x]))) = length (filter (\<lambda>d. \<not> P d) ds)"
proof (induction ds arbitrary: i)
  case (Cons d ds)
  then show ?case by (cases i) auto
qed simp

text \<open>A change of the slots keeps the invariant when the count follows the dials.\<close>

lemma inv_slots:
  assumes "nat_inv f" "n = int (length (filter (\<lambda>d. \<not> dl_released d) ds))" "n \<le> maxConcurrentDialbacks"
    "nt_votes m = nt_votes (f_nat f)" "nt_active m = n" "nt_dials m = ds"
  shows "nat_inv (f\<lparr>f_nat := m\<rparr>)"
proof -
  have "votes_for ip (f\<lparr>f_nat := m\<rparr>) = votes_for ip f" for ip using assms(4) by (simp add: votes_for_def)
  moreover have "open_dials (f\<lparr>f_nat := m\<rparr>) = length (filter (\<lambda>d. \<not> dl_released d) ds)"
    using assms(6) by (simp add: open_dials_def)
  ultimately show ?thesis using assms by (simp add: nat_inv_def)
qed

lemma inv_release:
  assumes "nat_inv f"
  shows "nat_inv (releaseSlot i f)"
proof (cases "i < length (nt_dials (f_nat f)) \<and> \<not> dl_released (nt_dials (f_nat f) ! i)")
  case True
  obtain ds where ds: "(nt_dials (f_nat f))[i := (nt_dials (f_nat f) ! i)\<lparr>dl_released := True\<rparr>] = ds" by blast
  have "Suc (length (filter (\<lambda>d. \<not> dl_released d) ds)) = open_dials f"
    unfolding open_dials_def using True ds filter_release [of i "nt_dials (f_nat f)" dl_released] by auto
  moreover have "nt_active (f_nat f) = int (open_dials f)" "nt_active (f_nat f) \<le> maxConcurrentDialbacks"
    using assms by (simp_all add: nat_inv_def)
  ultimately have "max 0 (nt_active (f_nat f) - 1) = int (length (filter (\<lambda>d. \<not> dl_released d) ds))"
    "max 0 (nt_active (f_nat f) - 1) \<le> maxConcurrentDialbacks"
    by (simp_all add: maxConcurrentDialbacks_def)
  then show ?thesis using True ds by (simp add: releaseSlot_def) (rule inv_slots [OF assms], simp_all)
next
  case False
  then show ?thesis using assms by (auto simp: releaseSlot_def)
qed

text \<open>The guards of a served request: exactly these requests dial, and only the socket's own address.\<close>

definition dial_allowed :: "fed_env \<Rightarrow> int \<Rightarrow> fed \<Rightarrow> string \<Rightarrow> int \<Rightarrow> bool" where
  "dial_allowed E now f ip port =
     (ip \<noteq> [] \<and> 1 \<le> port \<and> port \<le> 65535 \<and> \<not> blocked_ip E ip \<and> nt_active (f_nat f) < maxConcurrentDialbacks \<and>
      (testing E \<or> 10000 \<le> now - last_dialback ip f))"

lemma request_cases:
  obtains (refused) "handleDialbackRequest E now payload ch f = (f, [])"
  | (served) ip port m where "ip = remote_ip (link_of f ch)" "dial_allowed E now f ip port"
      "handleDialbackRequest E now payload ch f = (f\<lparr>f_nat := m\<rparr>, [Dial ip port])"
      "nt_votes m = nt_votes (f_nat f)" "nt_active m = nt_active (f_nat f) + 1"
      "nt_dials m = nt_dials (f_nat f) @ [\<lparr>dl_chan = ch, dl_nonce = the (field payload ''nonce''), dl_released = False\<rparr>]"
      "nt_rateLimit m = (if testing E then nt_rateLimit (f_nat f) else remember_dialback now ip (nt_rateLimit (f_nat f)))"
proof (cases "handleDialbackRequest E now payload ch f = (f, [])")
  case True
  then show ?thesis by (rule refused)
next
  case False
  obtain ip where ip: "remote_ip (link_of f ch) = ip" by blast
  from False have g: "truthy_field payload ''targetPort''" "truthy_field payload ''nonce''" "ip \<noteq> []"
    by (auto simp: handleDialbackRequest_def Let_def ip split: if_splits)
  from False obtain port where port: "parse_int 10 (field_text payload ''targetPort'') = Some port"
    by (cases "parse_int 10 (field_text payload ''targetPort'')") (simp_all add: handleDialbackRequest_def Let_def ip g)
  have g2: "\<not> (port < 1 \<or> port > 65535)" "\<not> blocked_ip E ip" "\<not> nt_active (f_nat f) \<ge> maxConcurrentDialbacks"
    "\<not> (\<not> testing E \<and> now - last_dialback ip f < 10000)"
    using False g by (simp_all add: handleDialbackRequest_def Let_def ip port split: if_splits)
  then have ok: "dial_allowed E now f ip port" using g(3) by (auto simp: dial_allowed_def)
  show ?thesis
  proof (rule served)
    show "ip = remote_ip (link_of f ch)" using ip by simp
    show "dial_allowed E now f ip port" by (rule ok)
    show "handleDialbackRequest E now payload ch f =
        (set_nat (\<lambda>n. n\<lparr>nt_rateLimit := (if testing E then nt_rateLimit n else remember_dialback now ip (nt_rateLimit n)),
           nt_active := nt_active n + 1,
           nt_dials := nt_dials n @ [\<lparr>dl_chan = ch, dl_nonce = the (field payload ''nonce''), dl_released = False\<rparr>]\<rparr>) f,
         [Dial ip port])"
      using g g2 by (simp add: handleDialbackRequest_def Let_def ip port)
  qed simp_all
qed

lemma inv_request:
  assumes "nat_inv f"
  shows "nat_inv (fst (handleDialbackRequest E now payload ch f))"
proof (cases rule: request_cases [of E now payload ch f])
  case refused
  then show ?thesis using assms by simp
next
  case (served ip port m)
  have "nt_active (f_nat f) = int (open_dials f)" using assms by (simp add: nat_inv_def)
  then show ?thesis
    unfolding served(3) using served(2)
    by (simp, intro inv_slots [OF assms _ _ served(4) served(5) served(6)])
      (simp_all add: open_dials_def dial_allowed_def)
qed

lemma inv_step: "nat_inv f \<Longrightarrow> nat_inv (fst (nat_step E now ev f))"
proof (cases ev)
  case (Confirm payload)
  assume "nat_inv f"
  then show ?thesis
    using Confirm nat_inv_view [of "fst (handleDialbackConfirm E now payload f)" f]
    by (auto simp: handleDialbackConfirm_def split: option.splits)
next
  case (DialbackTimeout n)
  assume "nat_inv f"
  then show ?thesis
    using DialbackTimeout nat_inv_view [of "fst (dialbackTimeout E now n f)" f]
    by (auto simp: dialbackTimeout_def dialbackFailed_def)
next
  case (DialbackFailed n)
  assume "nat_inv f"
  then show ?thesis
    using DialbackFailed nat_inv_view [of "fst (dialbackFailed E now n f)" f] by (auto simp: dialbackFailed_def)
qed (auto simp: inv_observed inv_request inv_release dial_connected_def)

interpretation nat_service: keeps_invariant "\<lambda>(now, ev) f. fst (nat_step E now ev f)" nat_inv
  by unfold_locales (auto simp: inv_step)

lemma reach_inv: "nat_reach E f \<Longrightarrow> nat_inv f"
proof (induction rule: nat_reach.induct)
  case (start d p)
  show ?case by (simp add: nat_inv_def new_fed_def votes_for_def open_dials_def maxConcurrentDialbacks_def)
next
  case (links f l)
  then show ?case using nat_inv_view [of "f\<lparr>f_link := l\<rparr>" f] by simp
next
  case (peers f p)
  then show ?case using nat_inv_view [of "f\<lparr>f_peers := p\<rparr>" f] by simp
next
  case (event f now ev)
  then show ?case by (intro inv_step)
qed

text \<open>
  Consensus and capacity: in every state a node can reach, its public address is one that at least
  two different peers have reported, and the dialback slots in use are exactly the dialled sockets
  that have not ended, never more than five.
\<close>

theorem nat_consensus:
  assumes "nat_reach E f"
  shows "(\<forall>ip. f_publicIp f = Some ip \<longrightarrow> (\<exists>a b. a \<noteq> b \<and> {a, b} \<subseteq> set (votes_for ip f))) \<and>
    nt_active (f_nat f) = int (open_dials f) \<and> 0 \<le> nt_active (f_nat f) \<and> nt_active (f_nat f) \<le> 5"
proof -
  have inv: "nat_inv f" by (rule reach_inv) (rule assms)
  have "\<exists>a b. a \<noteq> b \<and> {a, b} \<subseteq> set (votes_for ip f)" if "f_publicIp f = Some ip" for ip
  proof -
    have "distinct (votes_for ip f)" "2 \<le> length (votes_for ip f)" using inv that by (auto simp: nat_inv_def)
    then obtain a b vs where "votes_for ip f = a # b # vs" "a \<noteq> b"
      by (cases "votes_for ip f"; cases "tl (votes_for ip f)") auto
    then show ?thesis by auto
  qed
  then show ?thesis using inv by (simp add: nat_inv_def maxConcurrentDialbacks_def)
qed

section \<open>Who may make this node a relay\<close>

lemma role_over: "f_role (fst (dialback_over E now r f)) = r" "f_nat (fst (dialback_over E now r f)) = (f_nat f)\<lparr>nt_running := False\<rparr>"
  by (simp_all add: dialback_over_def setRole_frame)

lemma role_initiate: "f_role (fst (initiateDialback E now nonce ip f)) \<in> {f_role f, ''EDGE''}"
  by (auto simp: initiateDialback_def Let_def role_over split: list.split option.split)

lemma role_observed: "f_role (fst (handleObservedAddress E now nonce addr peer f)) \<in> {f_role f, ''EDGE''}"
proof -
  have vote: "f_role (add_vote ip peer f) = f_role f" for ip by (simp add: add_vote_def)
  have "f_role (fst (initiateDialback E now nonce ip g)) \<in> {f_role f, ''EDGE''}" if "f_role g = f_role f" for ip g
    using role_initiate [of E now nonce ip g] that by simp
  then show ?thesis
    by (simp add: handleObservedAddress_def Let_def split_beta setRole_frame vote)
qed

lemma nat_request: "\<exists>m. fst (handleDialbackRequest E now payload ch f) = f\<lparr>f_nat := m\<rparr>"
proof (cases rule: request_cases [of E now payload ch f])
  case refused
  then have "fst (handleDialbackRequest E now payload ch f) = f\<lparr>f_nat := f_nat f\<rparr>" by simp
  then show ?thesis by blast
next
  case (served ip port m)
  then show ?thesis by auto
qed

text \<open>
  Promotion: the service makes this node a relay only on a confirmation that carries a nonce of a
  dialback test still pending; the test is over then and its nonce cannot be used again.
\<close>

theorem relay_needs_confirmation:
  assumes "nat_step E now ev f = (f', es)" "f_role f \<noteq> ''RELAY''" "f_role f' = ''RELAY''"
  shows "\<exists>payload nonce. ev = Confirm payload \<and> str_field payload ''nonce'' = Some nonce \<and>
    jm_has (nt_pending (f_nat f)) nonce \<and> \<not> jm_has (nt_pending (f_nat f')) nonce \<and> \<not> nt_running (f_nat f')"
proof -
  have f': "f' = fst (nat_step E now ev f)" using assms(1) by simp
  show ?thesis
  proof (cases ev)
    case (Observed nonce addr peer)
    then show ?thesis using role_observed [of E now nonce addr peer f] assms(2,3) f' by simp
  next
    case (Confirm payload)
    obtain nonce where nonce: "str_field payload ''nonce'' = Some nonce"
      using assms(2,3) f' Confirm by (cases "str_field payload ''nonce''") (simp_all add: handleDialbackConfirm_def)
    then have "nonce \<noteq> [] \<and> jm_has (nt_pending (f_nat f)) nonce"
      using assms(2,3) f' Confirm by (cases "nonce \<noteq> [] \<and> jm_has (nt_pending (f_nat f)) nonce") (auto simp: handleDialbackConfirm_def)
    then show ?thesis
      using nonce f' Confirm by (simp add: handleDialbackConfirm_def role_over jsmap_simps)
  next
    case (DialbackRequest payload ch)
    then show ?thesis using nat_request [of E now payload ch f] assms(2,3) f' by auto
  qed (use assms(2,3) f' in \<open>auto simp: dialbackFailed_def dialbackTimeout_def role_over dial_connected_def releaseSlot_def
        split: if_splits\<close>)
qed

section \<open>What a request can make this node do\<close>

text \<open>
  No forged targets: a dialback request makes this node dial only the address the request came from,
  on a valid port, outside tests never a loopback, private or link-local address, with a slot to spare and
  ten seconds after the last dial of that address.
\<close>

theorem dialback_dials_caller:
  assumes "handleDialbackRequest E now payload ch f = (f', es)" "Dial host port \<in> set es"
  shows "host = remote_ip (link_of f ch) \<and> host \<noteq> [] \<and> 1 \<le> port \<and> port \<le> 65535 \<and> nt_active (f_nat f) < 5 \<and>
    (testing E \<or> \<not> loopback_ip host \<and> \<not> private_ip host \<and> \<not> link_local_ip host \<and>
       10000 \<le> now - last_dialback host f)"
proof (cases rule: request_cases [of E now payload ch f])
  case refused
  then show ?thesis using assms by simp
next
  case (served ip p m)
  then have "host = ip" "port = p" using assms by auto
  then show ?thesis using served(1,2) by (auto simp: dial_allowed_def blocked_ip_def maxConcurrentDialbacks_def)
qed

abbreviation nat_run :: "fed_env \<Rightarrow> (int \<times> nat_event) list \<Rightarrow> fed \<Rightarrow> fed" where
  "nat_run E evs f \<equiv> fold (\<lambda>(now, ev) f. fst (nat_step E now ev f)) evs f"

lemma lookup_dropWhile:
  "jm_get m k = Some v \<Longrightarrow> \<not> P (k, v) \<Longrightarrow> jm_get (dropWhile P m) k = Some v"
  by (induction m) (auto split: if_splits)

lemma remembered:
  assumes "jm_get m ip = Some t" "now - t \<le> 60000"
  shows "\<exists>t'. (t' = t \<or> t' = now) \<and> jm_get (remember_dialback now i m) ip = Some t'"
proof -
  have "\<exists>t'. (t' = t \<or> t' = now) \<and> now - t' \<le> 60000 \<and> jm_get (jm_set i now m) ip = Some t'"
    using assms by (simp add: jsmap_simps)
  then obtain t' where t': "t' = t \<or> t' = now" "now - t' \<le> 60000" "jm_get (jm_set i now m) ip = Some t'" by blast
  then have "jm_get (dropWhile (\<lambda>(_, ts). now - ts > 60000) (jm_set i now m)) ip = Some t'"
    by (intro lookup_dropWhile) simp_all
  then show ?thesis using t' by (auto simp: remember_dialback_def Let_def)
qed

lemma remembers_self: "jm_get (remember_dialback now ip m) ip = Some now"
proof -
  have "jm_get (jm_set ip now m) ip = Some now" by (simp add: jsmap_simps)
  moreover from this have "jm_get (dropWhile (\<lambda>(_, ts). now - ts > 60000) (jm_set ip now m)) ip = Some now"
    by (rule lookup_dropWhile) simp
  ultimately show ?thesis by (simp add: remember_dialback_def Let_def)
qed

text \<open>Nothing but a served request touches the limiter.\<close>

definition limits :: "fed \<Rightarrow> (string, int) jsmap" where
  "limits f = nt_rateLimit (f_nat f)"

lemma limits_set [simp]:
  "limits (f\<lparr>f_publicIp := x\<rparr>) = limits f" "limits (f\<lparr>f_peers := y\<rparr>) = limits f" "limits (f\<lparr>f_nodeAddress := z\<rparr>) = limits f"
  "limits (set_nat (\<lambda>n. n\<lparr>nt_running := r\<rparr>) f) = limits f" "limits (set_nat (\<lambda>n. n\<lparr>nt_pending := q\<rparr>) f) = limits f"
  "limits (add_vote ip peer f) = limits f" "limits (fst (setRole E now role f)) = limits f"
  "limits (releaseSlot i f) = limits f"
  by (simp_all add: limits_def add_vote_def setRole_frame releaseSlot_def)

lemma limits_over [simp]: "limits (fst (dialback_over E now r f)) = limits f"
  by (simp add: limits_def role_over)

lemma limits_initiate [simp]: "limits (fst (initiateDialback E now nonce ip f)) = limits f"
  by (auto simp: initiateDialback_def Let_def split: list.split option.split) (simp add: limits_def)

lemma limits_observed [simp]: "limits (fst (handleObservedAddress E now nonce addr peer f)) = limits f"
  by (simp add: handleObservedAddress_def Let_def split_beta)

lemma limits_step:
  "limits (fst (nat_step E now ev f)) = limits f \<or> (\<exists>ip. limits (fst (nat_step E now ev f)) = remember_dialback now ip (limits f))"
proof (cases ev)
  case (DialbackRequest payload ch)
  show ?thesis
    unfolding DialbackRequest nat_step.simps
    by (cases rule: request_cases [of E now payload ch f]) (auto simp: limits_def)
next
  case (Confirm payload)
  then show ?thesis by (auto simp: handleDialbackConfirm_def split: option.split)
qed (auto simp: dialbackFailed_def dialbackTimeout_def dial_connected_def)

lemma limit_lasts:
  assumes "jm_get (limits f) ip = Some t" "t0 \<le> t" "\<forall>(now, ev) \<in> set evs. t0 \<le> now \<and> now < t0 + 10000"
  shows "\<exists>t'. t0 \<le> t' \<and> jm_get (limits (nat_run E evs f)) ip = Some t'"
  using assms
proof (induction evs arbitrary: f t)
  case (Cons x evs)
  obtain now ev where x: "x = (now, ev)" by fastforce
  obtain g where g: "fst (nat_step E now ev f) = g" by blast
  have "\<exists>t'. (t' = t \<or> t' = now) \<and> jm_get (limits g) ip = Some t'"
    using limits_step [of E now ev f] remembered [of "limits f" ip t now] Cons.prems x g by auto
  then obtain t' where "t0 \<le> t'" "jm_get (limits g) ip = Some t'" using Cons.prems x by auto
  then show ?case using Cons.IH [of g t'] Cons.prems(3) x g by simp
qed auto

text \<open>
  Rate limit: once a request has made this node dial an address, no other request from that address
  does so in the next ten seconds, whatever the service did in between and however full its limiter is.
\<close>

theorem dialback_rate_limited:
  assumes "\<not> testing E" "handleDialbackRequest E t0 payload ch f = (f1, es)" "Dial ip port \<in> set es"
    and "\<forall>(now, ev) \<in> set evs. t0 \<le> now \<and> now < t0 + 10000" "t < t0 + 10000"
    and "remote_ip (link_of (nat_run E evs f1) ch') = ip"
  shows "handleDialbackRequest E t payload' ch' (nat_run E evs f1) = (nat_run E evs f1, [])"
proof -
  have "jm_get (limits f1) ip = Some t0"
  proof (cases rule: request_cases [of E t0 payload ch f])
    case refused
    then show ?thesis using assms(2,3) by simp
  next
    case (served i p m)
    then show ?thesis using assms(1,2,3) by (auto simp: limits_def remembers_self)
  qed
  then obtain t' where t': "t0 \<le> t'" "jm_get (limits (nat_run E evs f1)) ip = Some t'"
    using limit_lasts [OF _ order_refl assms(4)] by blast
  show ?thesis
  proof (cases rule: request_cases [of E t payload' ch' "nat_run E evs f1"])
    case refused
    then show ?thesis .
  next
    case (served i p m)
    then show ?thesis
      using assms(1,5,6) t' by (simp add: dial_allowed_def last_dialback_def limits_def)
  qed
qed

section \<open>Slots come back\<close>

lemma released_same: "dl_released d \<Longrightarrow> d\<lparr>dl_released := True\<rparr> = d"
  by (cases d) simp

lemma release_dials:
  "nt_dials (f_nat (releaseSlot i f)) =
     (if i < length (nt_dials (f_nat f)) then (nt_dials (f_nat f))[i := (nt_dials (f_nat f) ! i)\<lparr>dl_released := True\<rparr>] else nt_dials (f_nat f))"
proof (cases "i < length (nt_dials (f_nat f)) \<and> dl_released (nt_dials (f_nat f) ! i)")
  case True
  then show ?thesis by (simp add: releaseSlot_def released_same)
qed (auto simp: releaseSlot_def)

lemma releases_kept:
  "length (nt_dials (f_nat (fold releaseSlot is f))) = length (nt_dials (f_nat f)) \<and>
   (\<forall>i < length (nt_dials (f_nat f)). i \<in> set is \<or> dl_released (nt_dials (f_nat f) ! i) \<longrightarrow>
      dl_released (nt_dials (f_nat (fold releaseSlot is f)) ! i))"
proof (induction "is" arbitrary: f)
  case (Cons i "is")
  show ?case
    using Cons.IH [of "releaseSlot i f"] by (auto simp: release_dials nth_list_update)
qed simp


section \<open>Concrete runs\<close>

text \<open>Two peers report an address; a peer asks for a dialback.\<close>

abbreviation sample_node :: fed_env where
  "sample_node \<equiv> sample_fed_env clear_crypto ''n''"

definition voted :: fed where
  "voted = nat_run sample_node [(0, Observed ''x'' ''8.8.4.4:70'' ''p:1''), (0, Observed ''x'' ''8.8.4.4:71'' ''q:1'')]
     (sample_fed sample_node)"

definition dialback_request :: json where
  "dialback_request = JObj [(''targetPort'', JStr ''80''), (''nonce'', JStr ''x'')]"

definition linked_from :: "string \<Rightarrow> fed \<Rightarrow> fed" where
  "linked_from ip f = f\<lparr>f_link := (\<lambda>_. no_link\<lparr>l_socket := Some \<lparr>sv_remote = Some ip, sv_realRemote = None, sv_remotePort = None,
     sv_local = None, sv_localPort = None, sv_writable = True, sv_destroyed = False\<rparr>\<rparr>)\<rparr>"

lemma sample_reach: "nat_reach E (sample_fed E)"
  unfolding sample_fed_def by (rule nat_reach.start)

lemma voted_reach: "nat_reach sample_node voted"
  unfolding voted_def by (simp del: nat_step.simps) (intro nat_reach.event sample_reach)

lemma voted_view:
  "nat_view voted = nat_view ((add_vote ''8.8.4.4'' ''q:1'' (add_vote ''8.8.4.4'' ''p:1'' (sample_fed sample_node)))
     \<lparr>f_publicIp := Some ''8.8.4.4''\<rparr>)"
proof -
  let ?g = "add_vote ''8.8.4.4'' ''p:1'' (sample_fed sample_node)"
  have "\<not> consensus_now ''8.8.4.4:70'' ''p:1'' (sample_fed sample_node)"
    by (simp add: consensus_now_def votes_for_def sample_fed_def new_fed_def js_add_def)
  from observed_low [OF _ _ _ this, of sample_node 0 "''x''"]
  have first: "handleObservedAddress sample_node 0 ''x'' ''8.8.4.4:70'' ''p:1'' (sample_fed sample_node) = (?g, [])"
    by simp
  have "consensus_now ''8.8.4.4:71'' ''q:1'' ?g"
    by (simp add: consensus_now_def votes_add votes_for_def sample_fed_def new_fed_def js_add_def add_vote_def)
  from observed_reached [OF this, of sample_node 0 "''x''"] show ?thesis
    by (simp add: voted_def first)
qed

lemma voted_ip: "f_publicIp voted = Some ''8.8.4.4''"
  using voted_view by (simp add: nat_view_def)

theorem nat_consensus_witness:
  "f_publicIp voted = Some ''8.8.4.4'' \<and> (\<exists>a b. a \<noteq> b \<and> {a, b} \<subseteq> set (votes_for ''8.8.4.4'' voted))"
  using nat_consensus [OF voted_reach] voted_ip by blast

definition asked :: fed where
  "asked = linked_from ''8.8.4.4'' (sample_fed sample_node)"

lemma asked_ip: "remote_ip (link_of asked ch) = (if ch = None then [] else ''8.8.4.4'')"
  by (cases ch) (simp_all add: asked_def linked_from_def link_of_def remote_ip_def no_link_def strip_prefix_def starts_with_def or_else_def)

lemma asked_served: "\<exists>f1. handleDialbackRequest sample_node 100000 dialback_request (Some 0) asked = (f1, [Dial ''8.8.4.4'' 80])"
proof -
  have "parse_int 10 (field_text dialback_request ''targetPort'') = Some 80" by code_simp
  moreover have "truthy_field dialback_request ''targetPort''" "truthy_field dialback_request ''nonce''" by code_simp+
  moreover have "\<not> blocked_ip sample_node ''8.8.4.4''"
  proof -
    have "\<not> loopback_ip ''8.8.4.4''" "\<not> private_ip ''8.8.4.4''" "\<not> link_local_ip ''8.8.4.4''" by code_simp+
    then show ?thesis by (simp add: blocked_ip_def)
  qed
  moreover have "nt_active (f_nat asked) = 0" "last_dialback ''8.8.4.4'' asked = 0"
    by (simp_all add: asked_def linked_from_def sample_fed_def new_fed_def last_dialback_def)
  ultimately show ?thesis by (simp add: handleDialbackRequest_def Let_def asked_ip maxConcurrentDialbacks_def)
qed

lemma sample_not_testing: "\<not> testing sample_node"
  by (simp add: testing_def)

theorem dialback_dials_caller_witness:
  "\<exists>f' es. handleDialbackRequest sample_node 100000 dialback_request (Some 0) asked = (f', es) \<and>
    Dial ''8.8.4.4'' 80 \<in> set es \<and> \<not> private_ip ''8.8.4.4''"
proof -
  obtain f1 where f1: "handleDialbackRequest sample_node 100000 dialback_request (Some 0) asked = (f1, [Dial ''8.8.4.4'' 80])"
    using asked_served by blast
  then show ?thesis using dialback_dials_caller [OF f1, of "''8.8.4.4''" 80] sample_not_testing by auto
qed

lemma asked_link: "handleDialbackRequest sample_node t p ch asked = (f1, es) \<Longrightarrow> f_link f1 = f_link asked"
  using nat_request [of sample_node t p ch asked] by auto

theorem dialback_rate_limited_witness:
  "\<exists>f1 es. handleDialbackRequest sample_node 100000 dialback_request (Some 0) asked = (f1, es) \<and>
    handleDialbackRequest sample_node 109999 dialback_request (Some 1)
      (nat_run sample_node [(105000, DialEnded 0)] f1) = (nat_run sample_node [(105000, DialEnded 0)] f1, [])"
proof -
  obtain f1 where f1: "handleDialbackRequest sample_node 100000 dialback_request (Some 0) asked = (f1, [Dial ''8.8.4.4'' 80])"
    using asked_served by blast
  have "f_link (nat_run sample_node [(105000, DialEnded 0)] f1) = f_link asked"
    using asked_link [OF f1] by (simp add: releaseSlot_def)
  then have "remote_ip (link_of (nat_run sample_node [(105000, DialEnded 0)] f1) (Some 1)) = ''8.8.4.4''"
    using asked_ip [of "Some 1"] by (simp add: link_of_def)
  then show ?thesis
    using dialback_rate_limited [OF sample_not_testing f1, of "''8.8.4.4''" 80 "[(105000, DialEnded 0)]" 109999 "Some 1"] f1
    by auto
qed


theorem relay_needs_confirmation_witness:
  "\<exists>f' es. nat_step sample_node 0 (Confirm (JObj [(''nonce'', JStr ''x'')]))
      (set_nat (\<lambda>n. n\<lparr>nt_pending := [(''x'', ''1.2.3.4'')]\<rparr>) ((sample_fed sample_node)\<lparr>f_role := ''EDGE''\<rparr>)) = (f', es) \<and>
    f_role f' = ''RELAY'' \<and> \<not> jm_has (nt_pending (f_nat f')) ''x''"
proof -
  let ?f = "set_nat (\<lambda>n. n\<lparr>nt_pending := [(''x'', ''1.2.3.4'')]\<rparr>) ((sample_fed sample_node)\<lparr>f_role := ''EDGE''\<rparr>)"
  let ?p = "JObj [(''nonce'', JStr ''x'')]"
  obtain f' es where r: "nat_step sample_node 0 (Confirm ?p) ?f = (f', es)" by fastforce
  have "str_field ?p ''nonce'' = Some ''x''" by code_simp
  then have "f_role (fst (nat_step sample_node 0 (Confirm ?p) ?f)) = ''RELAY''"
    by (simp add: handleDialbackConfirm_def role_over jm_has_def)
  then have "f_role f' = ''RELAY''" by (simp only: r fst_conv)
  then show ?thesis
    using relay_needs_confirmation [OF r] r \<open>str_field ?p ''nonce'' = Some ''x''\<close> by auto
qed

end
