(* ===== verification/Rendezvous.thy ===== *)
theory Rendezvous
  imports AutoNat
begin

text \<open>
  \<open>src/core/rendezvousManager.js\<close>: the reverse tunnels an edge keeps to its relays, the bind request that
  opens one and the relay's checks on it. What the edge awaits (the channel and the relay's answer) is an
  argument; the pass over the relays is modelled as one operation. Channel number 0 is kept for the
  stand-in channel of locally delivered packets, which has no socket.
\<close>

section \<open>Choosing relays\<close>

definition bind_target :: "fed_env \<Rightarrow> fed \<Rightarrow> string \<Rightarrow> (string \<times> int) option" where
  "bind_target E f addr =
     (case peer_target addr of
        None \<Rightarrow> None
      | Some (h, p) \<Rightarrow>
          if p \<le> 0 \<or> p > 65535 \<or> isSelfPeerAddress E f h (Some p) \<or> addr = f_nodeAddress f then None else Some (h, p))"

definition isCandidateValid :: "fed_env \<Rightarrow> fed \<Rightarrow> string \<Rightarrow> bool" where
  "isCandidateValid E f addr = (\<not> ends_with ''.mesh'' addr \<and> bind_target E f addr \<noteq> None)"

definition phys_of :: "fed \<Rightarrow> string \<Rightarrow> string list" where
  "phys_of f n = (case jm_get (f_phys f) n of None \<Rightarrow> [] | Some a \<Rightarrow> [a])"

text \<open>Configured peers, the relays of the route table, those of the presence table, the known peers.\<close>

definition relay_addresses :: "fed_env \<Rightarrow> fed \<Rightarrow> string list" where
  "relay_addresses E f =
     bootstrapPeers (fe_cfg E) @
     concat (map (\<lambda>(n, r). if is_relay_name (r_role r) \<and> n \<noteq> fe_nodeId E then r_rendezvousNodes r @ phys_of f n else [])
       (getAllRoutes (f_db f))) @
     concat (map (\<lambda>(n, p). if is_relay_name (ps_role p) \<and> n \<noteq> fe_nodeId E then ps_rendezvous p @ phys_of f n else [])
       (f_presence f)) @
     getAllPeers (f_peers f)"

definition bind_candidates :: "fed_env \<Rightarrow> fed \<Rightarrow> string list" where
  "bind_candidates E f = fold js_add (filter (isCandidateValid E f) (relay_addresses E f)) []"

definition max_relays :: "fed_env \<Rightarrow> int" where
  "max_relays E = or_default (maxEdgeRendezvousRelays (fe_cfg E)) 4"

section \<open>Binding\<close>

text \<open>The relay's answer, and the channel it came over; \<open>None\<close> when no channel could be opened.\<close>

type_synonym bind_answer = "(nat \<times> json) option"

definition bind_text :: "string \<Rightarrow> string \<Rightarrow> string \<Rightarrow> string \<Rightarrow> string" where
  "bind_text nodeId addr timestamp nonce = nodeId @ addr @ timestamp @ nonce"

definition bind_packet :: "fed_env \<Rightarrow> int \<Rightarrow> string \<Rightarrow> string \<Rightarrow> json" where
  "bind_packet E now nonce relayAddr =
     JObj [(''type'', JStr ''RENDEZVOUS_BIND''), (''nodeId'', JStr (fe_nodeId E)), (''relayAddress'', JStr relayAddr),
       (''identityPublicKey'', JStr (fe_identityPub E)), (''kemPublicKey'', JStr (fe_kemPub E)), (''timestamp'', JNum now),
       (''nonce'', JStr nonce),
       (''sig'', JStr (sign (fe_crypto E) (bind_text (fe_nodeId E) relayAddr (show_int now) nonce) (fe_identityPriv E)))]"

text \<open>What this node learns of a relay that knows its key.\<close>

definition learn_relay :: "fed_env \<Rightarrow> int \<Rightarrow> string \<Rightarrow> string \<Rightarrow> string option \<Rightarrow> string \<Rightarrow> fed \<Rightarrow> fed" where
  "learn_relay E now addr key kem n f =
     f\<lparr>f_presence := jm_set n \<lparr>ps_role = ''RELAY'', ps_rendezvous = [addr], ps_kem = kem, ps_ident = Some key,
           ps_channels = [], ps_lastSeen = now\<rparr> (f_presence f),
       f_phys := jm_set n addr (f_phys f),
       f_db := upsertRoute n ''RELAY'' [addr] kem (Some key) now (f_db f)\<rparr>"

definition hook_close :: "bool \<Rightarrow> nat \<Rightarrow> fed \<Rightarrow> fed" where
  "hook_close b c f = f\<lparr>f_link := (f_link f)(c := (f_link f c)\<lparr>l_closeHook := b\<rparr>)\<rparr>"

text \<open>A key no node id can be made of raises in the middle; what was done before stays.\<close>

definition bound_to :: "fed_env \<Rightarrow> int \<Rightarrow> string \<Rightarrow> nat \<Rightarrow> act" where
  "bound_to E now addr c f =
     (let f1 = f\<lparr>f_bound := js_add addr (f_bound f), f_relays := jm_set addr c (f_relays f)\<rparr>;
          (f2, e2) = checkTransitEdgeRole E now f1;
          (f3, e3) = broadcastPresenceAnnounce E now f2;
          done = (\<lambda>g. let g1 = hook_close True c g
                      in (g1\<lparr>f_db := resetOutboxForTarget addr (f_db g1)\<rparr>, e2 @ e3 @ [ProcessOutbox]))
      in case l_peerKey (f_link f3 c) of
           Some key \<Rightarrow>
             if key = [] then done f3
             else (case node_id_of (fe_crypto E) key of
                     None \<Rightarrow> (f3, e2 @ e3)
                   | Some n \<Rightarrow> done (learn_relay E now addr key (l_peerKem (f_link f3 c)) n f3))
         | None \<Rightarrow> done f3)"

definition bindToRendezvousRelay :: "fed_env \<Rightarrow> int \<Rightarrow> string \<Rightarrow> bind_answer \<Rightarrow> string \<Rightarrow> act" where
  "bindToRendezvousRelay E now nonce answer addr f =
     (case bind_target E f addr of
        None \<Rightarrow> (f, [])
      | Some (h, p) \<Rightarrow>
          let sent = [Request h (Some p) (bind_packet E now nonce addr)]
          in case answer of
               None \<Rightarrow> (f, sent)
             | Some (c, res) \<Rightarrow>
                 if str_field res ''status'' = Some ''bound''
                 then let (f1, es) = bound_to E now addr c f in (f1, sent @ es)
                 else (f, sent))"

fun bind_next :: "fed_env \<Rightarrow> int \<Rightarrow> (string \<Rightarrow> string) \<Rightarrow> (string \<Rightarrow> bind_answer) \<Rightarrow> string list \<Rightarrow> act" where
  "bind_next E now nonce answer [] f = (f, [])"
| "bind_next E now nonce answer (a # as) f =
     (if \<not> isCandidateValid E f a then bind_next E now nonce answer as f
      else if int (length (f_bound f)) \<ge> max_relays E then (f, [])
      else if a \<in> set (f_bound f) then bind_next E now nonce answer as f
      else let (f1, e1) = bindToRendezvousRelay E now (nonce a) (answer a) a f;
               (f2, e2) = bind_next E now nonce answer as f1
           in (f2, e1 @ e2))"

definition maintainRendezvousTunnels ::
  "fed_env \<Rightarrow> int \<Rightarrow> (string \<Rightarrow> string) \<Rightarrow> (string \<Rightarrow> bind_answer) \<Rightarrow> act" where
  "maintainRendezvousTunnels E now nonce answer f =
     (if isRelay f \<or> f_maintaining f then (f, [])
      else let f1 = f\<lparr>f_maintaining := True\<rparr>;
               (f2, es) = bind_next E now nonce answer (bind_candidates E f1) f1
           in (f2\<lparr>f_maintaining := False\<rparr>, es))"

definition drop_relay :: "fed_env \<Rightarrow> int \<Rightarrow> string \<Rightarrow> act" where
  "drop_relay E now addr f =
     checkTransitEdgeRole E now
       (f\<lparr>f_bound := removeAll addr (f_bound f), f_relays := jm_delete addr (f_relays f)\<rparr>)"

text \<open>The socket of a bound relay closed.\<close>

definition relay_closed :: "fed_env \<Rightarrow> int \<Rightarrow> string \<Rightarrow> nat \<Rightarrow> act" where
  "relay_closed E now addr c f =
     (let (f1, es) = drop_relay E now addr (hook_close False c f) in (f1, es @ [Maintain]))"

section \<open>Heartbeat\<close>

definition pool_key :: "string \<Rightarrow> string" where
  "pool_key addr = addr_host addr @ '':'' @ (case addr_port addr of None \<Rightarrow> ''NaN'' | Some p \<Rightarrow> show_int p)"

definition live_channel :: "fed \<Rightarrow> string \<Rightarrow> (nat \<times> socket_view) option" where
  "live_channel f addr =
     (case jm_get (f_pool f) (pool_key addr) of
        None \<Rightarrow> None
      | Some c \<Rightarrow>
          (case l_socket (f_link f c) of None \<Rightarrow> None | Some s \<Rightarrow> if sv_destroyed s then None else Some (c, s)))"

definition zombie :: "int \<Rightarrow> link \<Rightarrow> bool" where
  "zombie now l = (l_lastPong l \<noteq> 0 \<and> now - l_lastPong l > 60000)"

text \<open>One bound relay; the flag says whether the tunnels have to be maintained afterwards.\<close>

definition heartbeat_one :: "fed_env \<Rightarrow> int \<Rightarrow> string \<Rightarrow> fed \<times> bool \<times> fed_effect list \<Rightarrow> fed \<times> bool \<times> fed_effect list" where
  "heartbeat_one E now addr s =
     (let (f, need, es) = s
      in case live_channel f addr of
           Some (c, sk) \<Rightarrow>
             if zombie now (f_link f c)
             then let (f1, e1) = drop_relay E now addr (f\<lparr>f_pool := jm_delete (pool_key addr) (f_pool f)\<rparr>)
                  in (f1, True, es @ DestroySocket c # e1)
             else (f, need, if sv_writable sk then es @ [WriteByte c] else es)
         | None \<Rightarrow> let (f1, e1) = drop_relay E now addr f in (f1, True, es @ e1))"

definition sendRendezvousHeartbeat :: "fed_env \<Rightarrow> int \<Rightarrow> act" where
  "sendRendezvousHeartbeat E now f =
     (if isRelay f \<or> f_bound f = [] then (f, [])
      else let (f1, need, es) = fold (heartbeat_one E now) (f_bound f) (f, False, [])
           in (f1, if need then es @ [Maintain] else es))"

section \<open>Serving a bind\<close>

text \<open>
  A value compared as a number; \<open>None\<close> is \<open>NaN\<close>, every comparison with which is false. Strings that
  are not decimal integers read as \<open>NaN\<close> (numbers are integers in this model).
\<close>

definition number_text :: "string \<Rightarrow> int option" where
  "number_text s =
     (let t = js_trim s
      in if t = [] then Some 0
         else if all_digits t then Some (int (digits_value 10 t))
         else if hd t = CHR ''-'' \<and> all_digits (tl t) then Some (- int (digits_value 10 (tl t)))
         else if hd t = CHR ''+'' \<and> all_digits (tl t) then Some (int (digits_value 10 (tl t)))
         else None)"

fun js_number :: "json \<Rightarrow> int option" where
  "js_number JNull = Some 0"
| "js_number (JBool b) = Some (if b then 1 else 0)"
| "js_number (JNum n) = Some n"
| "js_number (JStr s) = number_text s"
| "js_number (JArr xs) = number_text (to_text (JArr xs))"
| "js_number (JObj ms) = None"

text \<open>\<open>Math.abs(Date.now() - timestamp) > max\<close>.\<close>

definition skewed :: "int \<Rightarrow> json option \<Rightarrow> int \<Rightarrow> bool" where
  "skewed now timestamp limit =
     (case Option.bind timestamp js_number of None \<Rightarrow> False | Some t \<Rightarrow> \<bar>now - t\<bar> > limit)"

definition local_addresses :: "link \<Rightarrow> string list" where
  "local_addresses l =
     (case l_socket l of
        None \<Rightarrow> []
      | Some s \<Rightarrow>
          let clean = strip_v4mapped (the (or_else (sv_local s) (Some [])));
              port = (case sv_localPort s of None \<Rightarrow> ''undefined'' | Some p \<Rightarrow> show_int p)
          in if clean = [] then []
             else (clean @ '':'' @ port) # (if CHR '':'' \<in> set clean then [''['' @ clean @ '']:'' @ port] else []))"

text \<open>The addresses of this node a bind may be signed for.\<close>

definition valid_relay_addresses :: "fed_env \<Rightarrow> fed \<Rightarrow> link \<Rightarrow> string list" where
  "valid_relay_addresses E f l =
     (let cfg = fe_cfg E;
          fedPort = show_int (federationPort cfg);
          pubPort = show_int (pub_port cfg);
          server = (if serverName cfg = [] then ''127.0.0.1'' else serverName cfg);
          public = (if truthy (f_publicIp f) then [the (f_publicIp f)] else []);
          loop = (if serverName cfg = ''localhost'' then [''127.0.0.1''] else [])
      in filter (\<lambda>a. a \<noteq> [])
           ([f_nodeAddress f, fe_meshAddress E, getRelayAnnounceAddress E f] @ local_addresses l @
            (if starts_with ''localhost:'' (f_nodeAddress f) then [''127.0.0.1:'' @ drop 10 (f_nodeAddress f)] else []) @
            concat (map (\<lambda>h. [h @ '':'' @ fedPort, h @ '':'' @ pubPort]) (public @ [server] @ loop))))"

definition bind_max_skew :: int where
  "bind_max_skew = 300000"

definition tunnel_limit :: "fed_env \<Rightarrow> int" where
  "tunnel_limit E = or_default (maxRendezvousTunnels (fe_cfg E)) 64"

definition max_per_ip :: nat where
  "max_per_ip = 3"

definition ip_tunnels :: "fed \<Rightarrow> string \<Rightarrow> nat" where
  "ip_tunnels f ip = length (filter (\<lambda>(_, t). remote_ip (f_link f (tn_chan t)) = ip) (f_tunnels f))"

definition rejected :: "string \<Rightarrow> json" where
  "rejected reason = JObj [(''status'', JStr ''rejected''), (''reason'', JStr reason)]"

definition chan_no :: "nat option \<Rightarrow> nat" where
  "chan_no ch = (case ch of None \<Rightarrow> 0 | Some c \<Rightarrow> c)"

text \<open>The key of the edge: the packet's, the channel's, the presence record's, the route's.\<close>

definition edge_kem :: "json \<Rightarrow> link \<Rightarrow> string \<Rightarrow> fed \<Rightarrow> string option" where
  "edge_kem payload l nodeId f =
     or_else (str_field payload ''kemPublicKey'') (or_else (l_peerKem l)
       (or_else (Option.bind (jm_get (f_presence f) nodeId) ps_kem) (map_option r_kemPublicKey (getRoute nodeId (f_db f)))))"

definition open_tunnel :: "fed_env \<Rightarrow> int \<Rightarrow> string \<Rightarrow> nat option \<Rightarrow> string \<Rightarrow> string option \<Rightarrow> string \<Rightarrow> fed \<Rightarrow> fed" where
  "open_tunnel E now nodeId ch addr kem ident f =
     f\<lparr>f_tunnels := jm_set nodeId \<lparr>tn_chan = chan_no ch, tn_boundAt = now, tn_address = addr, tn_kem = kem, tn_ident = ident\<rparr>
           (f_tunnels f),
       f_presence := jm_set nodeId \<lparr>ps_role = ''EDGE'', ps_rendezvous = [addr], ps_kem = kem, ps_ident = Some ident,
           ps_channels = [], ps_lastSeen = now\<rparr> (f_presence f),
       f_db := upsertRoute nodeId ''EDGE'' [addr] kem (Some ident) now (f_db f)\<rparr>"

definition tunnel_routes :: "fed_env \<Rightarrow> int \<Rightarrow> string \<Rightarrow> fed \<Rightarrow> json list" where
  "tunnel_routes E now nodeId f =
     map (\<lambda>(n, t). route_update E now n (tn_address t) (tn_kem t) (Some (tn_ident t)))
       (filter (\<lambda>(n, t). n \<noteq> nodeId \<and> tn_address t \<noteq> []) (f_tunnels f))"

definition bind_ack :: "string \<Rightarrow> json" where
  "bind_ack nodeId = JObj [(''type'', JStr ''RENDEZVOUS_ACK''), (''status'', JStr ''bound''), (''nodeId'', JStr nodeId)]"

definition accept_bind :: "fed_env \<Rightarrow> int \<Rightarrow> json \<Rightarrow> nat option \<Rightarrow> string \<Rightarrow> string \<Rightarrow> act" where
  "accept_bind E now payload ch nodeId ident f =
     (let addr = the (or_else (str_field payload ''relayAddress'') (Some (getRelayAnnounceAddress E f)));
          kem = edge_kem payload (link_of f ch) nodeId f;
          f1 = open_tunnel E now nodeId ch addr kem ident f;
          (f2, e2) = broadcastRouteUpdate E now nodeId addr kem (Some ident) f1;
          (f3, e3) = broadcastPresence E now f2
      in (f3, replies ch (bind_ack nodeId) @ concat (map (replies ch) (tunnel_routes E now nodeId f1)) @ e2 @ e3))"

text \<open>\<open>isTestMode\<close>, and the capacity a bind has to find.\<close>

definition ip_exempt :: "fed_env \<Rightarrow> string \<Rightarrow> bool" where
  "ip_exempt E remote = (fe_test E \<or> loopback_ip remote \<or> remote = [])"

definition tunnels_full :: "fed_env \<Rightarrow> fed \<Rightarrow> string \<Rightarrow> bool" where
  "tunnels_full E f nodeId = (int (length (f_tunnels f)) \<ge> tunnel_limit E \<and> \<not> jm_has (f_tunnels f) nodeId)"

definition ip_full :: "fed_env \<Rightarrow> fed \<Rightarrow> string \<Rightarrow> string \<Rightarrow> bool" where
  "ip_full E f remote nodeId =
     (\<not> ip_exempt E remote \<and> ip_tunnels f remote \<ge> max_per_ip \<and> \<not> jm_has (f_tunnels f) nodeId)"

definition bind_verified :: "fed_env \<Rightarrow> fed \<Rightarrow> link \<Rightarrow> json \<Rightarrow> string \<Rightarrow> string \<Rightarrow> bool" where
  "bind_verified E f l payload nodeId ident =
     list_ex (\<lambda>a. verify (fe_crypto E)
         (bind_text nodeId a (field_text payload ''timestamp'') (field_text payload ''nonce''))
         (str_field payload ''sig'') (Some ident))
       (valid_relay_addresses E f l)"

definition bind_fields :: "json \<Rightarrow> bool" where
  "bind_fields payload =
     list_all (truthy_field payload) [''nodeId'', ''identityPublicKey'', ''timestamp'', ''nonce'', ''sig'']"

definition bind_identity :: "fed_env \<Rightarrow> json \<Rightarrow> (string \<times> string) option" where
  "bind_identity E payload =
     Option.bind (str_field payload ''identityPublicKey'') (\<lambda>ident. map_option (Pair ident) (node_id_of (fe_crypto E) ident))"

text \<open>
  A key no node id can be made of raises, before anything is changed. A refusal for want of capacity
  leaves the nonce tracked.
\<close>

definition handleRendezvousBind :: "fed_env \<Rightarrow> int \<Rightarrow> json \<Rightarrow> nat option \<Rightarrow> act" where
  "handleRendezvousBind E now payload ch f =
     (let refuse = (\<lambda>reason g. (g, replies ch (rejected reason)))
      in if \<not> bind_fields payload then refuse ''missing_fields'' f
         else case bind_identity E payload of
           None \<Rightarrow> (f, [])
         | Some (ident, nodeId) \<Rightarrow>
             if str_field payload ''nodeId'' \<noteq> Some nodeId then refuse ''invalid_node_id'' f
             else if \<not> bind_verified E f (link_of f ch) payload nodeId ident then refuse ''invalid_signature'' f
             else if skewed now (field payload ''timestamp'') bind_max_skew then refuse ''expired_timestamp'' f
             else
               let remote = remote_ip (link_of f ch);
                   (fresh, nonces) = track (field_text payload ''nonce'') (if remote = [] then nodeId else remote) now (f_nonces f);
                   f1 = f\<lparr>f_nonces := nonces\<rparr>
               in if \<not> fresh then refuse ''replay_nonce'' f1
                  else if tunnels_full E f1 nodeId then refuse ''tunnel_capacity_reached'' f1
                  else if ip_full E f1 remote nodeId then refuse ''ip_capacity_reached'' f1
                  else accept_bind E now payload ch nodeId ident f1)"

text \<open>The socket of a tunnel closed.\<close>

definition tunnel_closed :: "fed_env \<Rightarrow> int \<Rightarrow> string \<Rightarrow> nat \<Rightarrow> act" where
  "tunnel_closed E now nodeId c f =
     (case jm_get (f_tunnels f) nodeId of
        None \<Rightarrow> (f, [])
      | Some t \<Rightarrow> if tn_chan t = c then broadcastPresence E now (f\<lparr>f_tunnels := jm_delete nodeId (f_tunnels f)\<rparr>) else (f, []))"

section \<open>What a bind may change\<close>

definition bind_refusals :: "string list" where
  "bind_refusals = [''missing_fields'', ''invalid_node_id'', ''invalid_signature'', ''expired_timestamp'', ''replay_nonce'',
     ''tunnel_capacity_reached'', ''ip_capacity_reached'']"

lemma bind_cases:
  obtains (raised) "handleRendezvousBind E now payload ch f = (f, [])" "bind_identity E payload = None"
  | (refused) ns reason where "reason \<in> set bind_refusals"
      "handleRendezvousBind E now payload ch f = (f\<lparr>f_nonces := ns\<rparr>, replies ch (rejected reason))"
  | (accepted) nodeId ident ns where "bind_identity E payload = Some (ident, nodeId)" "str_field payload ''nodeId'' = Some nodeId"
      "bind_verified E f (link_of f ch) payload nodeId ident"
      "\<not> skewed now (field payload ''timestamp'') bind_max_skew"
      "track (field_text payload ''nonce'') (if remote_ip (link_of f ch) = [] then nodeId else remote_ip (link_of f ch)) now (f_nonces f)
         = (True, ns)"
      "\<not> tunnels_full E f nodeId" "\<not> ip_full E f (remote_ip (link_of f ch)) nodeId"
      "handleRendezvousBind E now payload ch f = accept_bind E now payload ch nodeId ident (f\<lparr>f_nonces := ns\<rparr>)"
proof -
  note H = handleRendezvousBind_def [of E now payload ch f] Let_def bind_refusals_def
  have again: thesis if "\<exists>reason \<in> set bind_refusals. handleRendezvousBind E now payload ch f = (f\<lparr>f_nonces := ns\<rparr>, replies ch (rejected reason))" for ns
    using refused [of _ ns] that by blast
  have plain: thesis if "\<exists>reason \<in> set bind_refusals. handleRendezvousBind E now payload ch f = (f, replies ch (rejected reason))"
    using again [of "f_nonces f"] that by simp
  consider "\<not> bind_fields payload" | "bind_fields payload" "bind_identity E payload = None"
    | ident nodeId where "bind_fields payload" "bind_identity E payload = Some (ident, nodeId)" by fastforce
  then show thesis
  proof cases
    case 1 then show ?thesis by (intro plain) (simp add: H)
  next
    case 2 then show ?thesis by (intro raised) (simp_all add: H)
  next
    case (3 ident nodeId)
    obtain fresh ns where t: "track (field_text payload ''nonce'') (if remote_ip (link_of f ch) = [] then nodeId else remote_ip (link_of f ch))
        now (f_nonces f) = (fresh, ns)" by fastforce
    have cap: "tunnels_full E (f\<lparr>f_nonces := ns\<rparr>) nodeId = tunnels_full E f nodeId"
      "ip_full E (f\<lparr>f_nonces := ns\<rparr>) r nodeId = ip_full E f r nodeId" for r
      by (simp_all add: tunnels_full_def ip_full_def ip_tunnels_def)
    show ?thesis
    proof (cases "str_field payload ''nodeId'' = Some nodeId \<and> bind_verified E f (link_of f ch) payload nodeId ident \<and>
        \<not> skewed now (field payload ''timestamp'') bind_max_skew")
      case False
      with 3 show ?thesis by (intro plain) (auto simp: H)
    next
      case ok: True
      show ?thesis
      proof (cases "fresh \<and> \<not> tunnels_full E f nodeId \<and> \<not> ip_full E f (remote_ip (link_of f ch)) nodeId")
        case True
        with ok 3 t show ?thesis by (intro accepted [of ident nodeId ns]) (simp_all add: H cap)
      next
        case False
        with ok 3 show ?thesis by (intro again [of ns]) (auto simp: H t cap)
      qed
    qed
  qed
qed

text \<open>The tunnel a bind opens.\<close>

definition bound_tunnel :: "fed_env \<Rightarrow> int \<Rightarrow> json \<Rightarrow> nat option \<Rightarrow> string \<Rightarrow> string \<Rightarrow> fed \<Rightarrow> tunnel" where
  "bound_tunnel E now payload ch nodeId ident f =
     \<lparr>tn_chan = chan_no ch, tn_boundAt = now,
      tn_address = the (or_else (str_field payload ''relayAddress'') (Some (getRelayAnnounceAddress E f))),
      tn_kem = edge_kem payload (link_of f ch) nodeId f, tn_ident = ident\<rparr>"

lemma accept_state:
  "f_tunnels (fst (accept_bind E now payload ch nodeId ident f)) =
     jm_set nodeId (bound_tunnel E now payload ch nodeId ident f) (f_tunnels f)"
  "f_bound (fst (accept_bind E now payload ch nodeId ident f)) = f_bound f"
  "f_relays (fst (accept_bind E now payload ch nodeId ident f)) = f_relays f"
  "f_nonces (fst (accept_bind E now payload ch nodeId ident f)) = f_nonces f"
  by (simp_all add: accept_bind_def Let_def split_beta broadcast_frame broadcastRouteUpdate_def open_tunnel_def bound_tunnel_def)

lemma accept_reply: "\<exists>es. snd (accept_bind E now payload ch nodeId ident f) = replies ch (bind_ack nodeId) @ es"
  by (simp add: accept_bind_def Let_def split_beta)

lemma tunnel_nonces: "bound_tunnel E now payload ch nodeId ident (f\<lparr>f_nonces := ns\<rparr>) = bound_tunnel E now payload ch nodeId ident f"
  by (simp add: bound_tunnel_def edge_kem_def getRelayAnnounceAddress_def link_of_def Let_def split: option.split)

lemma identity_node: "bind_identity E payload = Some (ident, nodeId) \<longleftrightarrow>
    str_field payload ''identityPublicKey'' = Some ident \<and> node_id_of (fe_crypto E) ident = Some nodeId"
  by (auto simp: bind_identity_def split: bind_splits)


section \<open>The service as a machine\<close>

datatype rdv_event =
    BindRequest json "nat option"
  | TunnelClosed string nat
  | RelayClosed string nat
  | Maintained "string \<Rightarrow> string" "string \<Rightarrow> bind_answer"
  | Heartbeat

fun rdv_step :: "fed_env \<Rightarrow> int \<Rightarrow> rdv_event \<Rightarrow> act" where
  "rdv_step E now (BindRequest payload ch) f = handleRendezvousBind E now payload ch f"
| "rdv_step E now (TunnelClosed nodeId c) f = tunnel_closed E now nodeId c f"
| "rdv_step E now (RelayClosed addr c) f = relay_closed E now addr c f"
| "rdv_step E now (Maintained nonce answer) f = maintainRendezvousTunnels E now nonce answer f"
| "rdv_step E now Heartbeat f = sendRendezvousHeartbeat E now f"

definition rdv_view :: "fed \<Rightarrow> (string, tunnel) jsmap \<times> string list \<times> string list" where
  "rdv_view f = (f_tunnels f, f_bound f, jm_keys (f_relays f))"

text \<open>
  Every tunnel belongs to the node whose key asked for it, tunnels and relays are within their limits,
  and the relays this node counts as bound are those it has a channel to.
\<close>

fun rdv_ok :: "fed_env \<Rightarrow> (string, tunnel) jsmap \<times> string list \<times> string list \<Rightarrow> bool" where
  "rdv_ok E (tunnels, bound, relays) =
     (jm_ok tunnels \<and> (\<forall>(n, t) \<in> set tunnels. node_id_of (fe_crypto E) (tn_ident t) = Some n) \<and>
      int (length tunnels) \<le> max 0 (tunnel_limit E) \<and>
      distinct bound \<and> int (length bound) \<le> max 0 (max_relays E) \<and> set bound = set relays)"

definition rdv_inv :: "fed_env \<Rightarrow> fed \<Rightarrow> bool" where
  "rdv_inv E f = rdv_ok E (rdv_view f)"

text \<open>The rest of the engine may do as it likes with everything else.\<close>

inductive rdv_reach :: "fed_env \<Rightarrow> fed \<Rightarrow> bool" for E where
  start: "rdv_reach E (new_fed E d p)"
| others: "rdv_reach E f \<Longrightarrow> rdv_view g = rdv_view f \<Longrightarrow> rdv_reach E g"
| event: "rdv_reach E f \<Longrightarrow> rdv_reach E (fst (rdv_step E now ev f))"

lemma rdv_inv_view: "rdv_view g = rdv_view f \<Longrightarrow> rdv_inv E g = rdv_inv E f"
  by (simp add: rdv_inv_def)

lemma check_view [simp]: "rdv_view (fst (checkTransitEdgeRole E now f)) = rdv_view f"
  by (simp add: checkTransitEdgeRole_def rdv_view_def setRole_frame)

lemma announce_view [simp]: "rdv_view (fst (broadcastPresenceAnnounce E now f)) = rdv_view f"
  by (simp add: rdv_view_def announce_frame)

lemma broadcast_view [simp]: "rdv_view (fst (broadcastPresence E now f)) = rdv_view f"
  by (simp add: rdv_view_def broadcast_frame)

lemma rdv_view_updates [simp]:
  "rdv_view (hook_close b c f) = rdv_view f" "rdv_view (learn_relay E now addr key kem n f) = rdv_view f"
  "rdv_view (f\<lparr>f_db := d\<rparr>) = rdv_view f" "rdv_view (f\<lparr>f_pool := q\<rparr>) = rdv_view f"
  "rdv_view (f\<lparr>f_maintaining := m\<rparr>) = rdv_view f" "rdv_view (f\<lparr>f_nonces := ns\<rparr>) = rdv_view f"
  by (simp_all add: rdv_view_def hook_close_def learn_relay_def)

lemma bound_to_view:
  "rdv_view (fst (bound_to E now addr c f)) = (f_tunnels f, js_add addr (f_bound f), jm_keys (jm_set addr c (f_relays f)))"
proof -
  have "rdv_view (fst (bound_to E now addr c f)) = rdv_view (f\<lparr>f_bound := js_add addr (f_bound f), f_relays := jm_set addr c (f_relays f)\<rparr>)"
    by (simp add: bound_to_def Let_def split_beta split: option.split)
  then show ?thesis by (simp add: rdv_view_def)
qed

lemma bind_view:
  "rdv_view (fst (bindToRendezvousRelay E now nonce answer addr f)) = rdv_view f \<or>
   (\<exists>c. rdv_view (fst (bindToRendezvousRelay E now nonce answer addr f)) =
      (f_tunnels f, js_add addr (f_bound f), jm_keys (jm_set addr c (f_relays f))))"
  by (auto simp: bindToRendezvousRelay_def Let_def split_beta bound_to_view split: option.split)

lemma inv_bind:
  assumes "rdv_inv E f" "int (length (f_bound f)) < max_relays E"
  shows "rdv_inv E (fst (bindToRendezvousRelay E now nonce answer addr f))"
  using bind_view [of E now nonce answer addr f]
proof
  assume "rdv_view (fst (bindToRendezvousRelay E now nonce answer addr f)) = rdv_view f"
  then show ?thesis using assms(1) rdv_inv_view by blast
next
  assume "\<exists>c. rdv_view (fst (bindToRendezvousRelay E now nonce answer addr f)) =
      (f_tunnels f, js_add addr (f_bound f), jm_keys (jm_set addr c (f_relays f)))"
  then show ?thesis
    using assms by (auto simp: rdv_inv_def rdv_view_def [of f] length_js_add jm_set_keys simp del: set_map)
qed

lemma inv_bind_next: "rdv_inv E f \<Longrightarrow> rdv_inv E (fst (bind_next E now nonce answer as f))"
proof (induction "as" arbitrary: f)
  case (Cons a "as")
  then show ?case
    using inv_bind [OF Cons.prems, of now "nonce a" "answer a" a] by (auto simp: split_beta)
qed simp

lemma drop_view: "rdv_view (fst (drop_relay E now addr f)) = (f_tunnels f, removeAll addr (f_bound f), jm_keys (jm_delete addr (f_relays f)))"
  unfolding drop_relay_def by simp (simp add: rdv_view_def)

lemma inv_drop:
  assumes "rdv_inv E f"
  shows "rdv_inv E (fst (drop_relay E now addr f))"
proof -
  have "length (removeAll addr (f_bound f)) \<le> length (f_bound f)" by (rule length_removeAll_less_eq)
  then have "int (length (removeAll addr (f_bound f))) \<le> max 0 (max_relays E)"
    using assms by (simp only: rdv_inv_def rdv_view_def rdv_ok.simps) linarith
  then show ?thesis
    using assms by (auto simp: rdv_inv_def drop_view rdv_view_def [of f] distinct_removeAll jm_delete_mem image_iff)
qed

lemma inv_heartbeat_one: "rdv_inv E (fst s) \<Longrightarrow> rdv_inv E (fst (heartbeat_one E now addr s))"
proof -
  obtain f need es where s: "s = (f, need, es)" using prod_cases3 by blast
  assume "rdv_inv E (fst s)"
  then have inv: "rdv_inv E f" by (simp add: s)
  then have "rdv_inv E (f\<lparr>f_pool := q\<rparr>)" for q using rdv_inv_view [of "f\<lparr>f_pool := q\<rparr>" f] by simp
  then show ?thesis using inv by (simp add: heartbeat_one_def s inv_drop split_beta split: option.split)
qed

interpretation heartbeat: keeps_invariant "heartbeat_one E now" "\<lambda>s. rdv_inv E (fst s)"
  by unfold_locales (rule inv_heartbeat_one)

lemma inv_heartbeat: "rdv_inv E f \<Longrightarrow> rdv_inv E (fst (sendRendezvousHeartbeat E now f))"
  using heartbeat.run_inv [of E "(f, False, [])" now "f_bound f"]
  by (simp add: sendRendezvousHeartbeat_def split_beta)

lemma inv_maintain: "rdv_inv E f \<Longrightarrow> rdv_inv E (fst (maintainRendezvousTunnels E now nonce answer f))"
proof -
  assume "rdv_inv E f"
  then have "rdv_inv E (f\<lparr>f_maintaining := True\<rparr>)" using rdv_inv_view [of "f\<lparr>f_maintaining := True\<rparr>" f] by simp
  then have "rdv_inv E (fst (bind_next E now nonce answer as (f\<lparr>f_maintaining := True\<rparr>)))" for "as" by (rule inv_bind_next)
  moreover have "rdv_inv E g \<Longrightarrow> rdv_inv E (g\<lparr>f_maintaining := False\<rparr>)" for g
    using rdv_inv_view [of "g\<lparr>f_maintaining := False\<rparr>" g] by simp
  ultimately show ?thesis
    using \<open>rdv_inv E f\<close> by (simp add: maintainRendezvousTunnels_def Let_def split_beta)
qed

lemma inv_tunnels:
  assumes "rdv_inv E f" "f_bound g = f_bound f" "f_relays g = f_relays f" "rdv_ok E (f_tunnels g, f_bound f, jm_keys (f_relays f))"
  shows "rdv_inv E g"
  using assms by (simp add: rdv_inv_def rdv_view_def)

lemma inv_bind_request:
  assumes "rdv_inv E f"
  shows "rdv_inv E (fst (handleRendezvousBind E now payload ch f))"
proof (cases rule: bind_cases [of E now payload ch f])
  case raised
  then show ?thesis using assms by simp
next
  case (refused ns reason)
  then show ?thesis using assms rdv_inv_view [of "f\<lparr>f_nonces := ns\<rparr>" f] by simp
next
  case (accepted nodeId ident ns)
  let ?t = "bound_tunnel E now payload ch nodeId ident (f\<lparr>f_nonces := ns\<rparr>)"
  have ident: "node_id_of (fe_crypto E) (tn_ident ?t) = Some nodeId"
    using accepted(1) by (simp add: identity_node bound_tunnel_def)
  have room: "jm_has (f_tunnels f) nodeId \<or> int (length (f_tunnels f)) < tunnel_limit E"
    using accepted(6) by (auto simp: tunnels_full_def)
  have "rdv_ok E (jm_set nodeId ?t (f_tunnels f), f_bound f, jm_keys (f_relays f))"
    using assms ident room by (auto simp: rdv_inv_def rdv_view_def length_jm_set simp del: set_map dest!: jm_set_mem)
  then show ?thesis
    unfolding accepted(8) by (intro inv_tunnels [OF assms]) (simp_all add: accept_state)
qed

lemma inv_tunnel_closed:
  assumes "rdv_inv E f"
  shows "rdv_inv E (fst (tunnel_closed E now nodeId c f))"
proof -
  have "rdv_ok E (jm_delete nodeId (f_tunnels f), f_bound f, jm_keys (f_relays f))"
    using assms length_jm_delete_le [of nodeId "f_tunnels f"] by (auto simp: rdv_inv_def rdv_view_def jm_delete_mem)
  then have "rdv_inv E (f\<lparr>f_tunnels := jm_delete nodeId (f_tunnels f)\<rparr>)"
    by (simp add: rdv_inv_def rdv_view_def)
  then show ?thesis
    using assms rdv_inv_view [OF broadcast_view] by (simp add: tunnel_closed_def split: option.split)
qed

lemma inv_rdv_step: "rdv_inv E f \<Longrightarrow> rdv_inv E (fst (rdv_step E now ev f))"
proof (cases ev)
  case (RelayClosed addr c)
  assume "rdv_inv E f"
  then have "rdv_inv E (hook_close False c f)" using rdv_inv_view [of "hook_close False c f" f] by simp
  then show ?thesis using RelayClosed by (simp add: relay_closed_def split_beta inv_drop)
qed (simp_all add: inv_bind_request inv_tunnel_closed inv_maintain inv_heartbeat)

interpretation rdv_service: keeps_invariant "\<lambda>(now, ev) f. fst (rdv_step E now ev f)" "rdv_inv E"
  by unfold_locales (auto simp: inv_rdv_step)

text \<open>
  In every state a node can reach, by binds, closed tunnels and relays, maintenance and heartbeats
  in any order and whatever the rest of the engine does, each tunnel is held by a key that hashes to the
  tunnel's node id, there are at most as many tunnels and relays as configured, and this node counts
  exactly those relays as bound that it has a channel to.
\<close>

theorem tunnels_genuine_and_bounded:
  assumes "rdv_reach E f"
  shows "(\<forall>nodeId t. jm_get (f_tunnels f) nodeId = Some t \<longrightarrow> node_id_of (fe_crypto E) (tn_ident t) = Some nodeId) \<and>
    int (length (f_tunnels f)) \<le> max 0 (tunnel_limit E) \<and> int (length (f_bound f)) \<le> max 0 (max_relays E) \<and>
    set (f_bound f) = set (jm_keys (f_relays f))"
proof -
  have "rdv_inv E f"
    using assms
  proof (induction rule: rdv_reach.induct)
    case (start d p)
    show ?case by (simp add: rdv_inv_def rdv_view_def new_fed_def)
  next
    case (others f g)
    then show ?case using rdv_inv_view [of g f E] by simp
  next
    case (event f now ev)
    then show ?case by (intro inv_rdv_step)
  qed
  then show ?thesis by (auto simp: rdv_inv_def rdv_view_def dest: jm_get_mem)
qed

section \<open>From the edge to its relay\<close>

lemma packet_fields [simp]:
  "str_field (bind_packet E now nonce addr) ''nodeId'' = Some (fe_nodeId E)"
  "str_field (bind_packet E now nonce addr) ''identityPublicKey'' = Some (fe_identityPub E)"
  "str_field (bind_packet E now nonce addr) ''relayAddress'' = Some addr"
  "str_field (bind_packet E now nonce addr) ''sig'' =
     Some (sign (fe_crypto E) (bind_text (fe_nodeId E) addr (show_int now) nonce) (fe_identityPriv E))"
  "field (bind_packet E now nonce addr) ''timestamp'' = Some (JNum now)"
  "field_text (bind_packet E now nonce addr) ''timestamp'' = show_int now"
  "field_text (bind_packet E now nonce addr) ''nonce'' = nonce"
  by (simp_all add: bind_packet_def str_field_def field_text_def)

lemma ack_status [simp]: "str_field (bind_ack n) ''status'' = Some ''bound''"
  by (simp add: bind_ack_def str_field_def)

lemma packet_complete:
  assumes "fe_nodeId E \<noteq> []" "fe_identityPub E \<noteq> []" "now \<noteq> 0" "nonce \<noteq> []"
    "ed_sign (fe_crypto E) (utf8 (bind_text (fe_nodeId E) addr (show_int now) nonce)) (fe_identityPriv E) \<noteq> []"
  shows "bind_fields (bind_packet E now nonce addr)"
proof -
  have "b64_encode bs \<noteq> []" if "bs \<noteq> []" for bs
    using that length_b64 [of bs] by (cases bs) auto
  then show ?thesis
    using assms by (simp add: bind_fields_def bind_packet_def truthy_field_def sign_def)
qed

text \<open>
  The two halves fit: the bind an edge makes for an address of a relay is served by the relay whatever
  else it holds, if its clock is within five minutes, the nonce is new to it and it has room. The edge's tunnel
  is there then, and the answer makes the edge count the relay as bound, over the channel it came on.
\<close>

theorem bind_reaches_relay:
  assumes "fe_crypto Er = fe_crypto Ee" "sign_ok (fe_crypto Ee) (fe_identityPub Ee) (fe_identityPriv Ee)"
    "node_id_of (fe_crypto Ee) (fe_identityPub Ee) = Some (fe_nodeId Ee)"
    "fe_nodeId Ee \<noteq> []" "fe_identityPub Ee \<noteq> []" "sent \<noteq> 0" "nonce \<noteq> []"
    "ed_sign (fe_crypto Ee) (utf8 (bind_text (fe_nodeId Ee) addr (show_int sent) nonce)) (fe_identityPriv Ee) \<noteq> []"
    and relay: "addr \<in> set (valid_relay_addresses Er f (f_link f c))" "\<bar>now - sent\<bar> \<le> 300000"
    "fst (track nonce (if remote_ip (f_link f c) = [] then fe_nodeId Ee else remote_ip (f_link f c)) now (f_nonces f))"
    "\<not> tunnels_full Er f (fe_nodeId Ee)" "\<not> ip_full Er f (remote_ip (f_link f c)) (fe_nodeId Ee)"
    and edge: "bind_target Ee g addr \<noteq> None"
  shows "\<exists>f' rest t. handleRendezvousBind Er now (bind_packet Ee sent nonce addr) (Some c) f =
      (f', Write c (bind_ack (fe_nodeId Ee)) # rest) \<and>
    jm_get (f_tunnels f') (fe_nodeId Ee) = Some t \<and> tn_chan t = c \<and> tn_ident t = fe_identityPub Ee \<and>
    addr \<in> set (f_bound (fst (bindToRendezvousRelay Ee sent nonce (Some (d, bind_ack (fe_nodeId Ee))) addr g))) \<and>
    jm_has (f_relays (fst (bindToRendezvousRelay Ee sent nonce (Some (d, bind_ack (fe_nodeId Ee))) addr g))) addr"
proof -
  let ?p = "bind_packet Ee sent nonce addr"
  obtain ns where ns: "track nonce (if remote_ip (f_link f c) = [] then fe_nodeId Ee else remote_ip (f_link f c)) now (f_nonces f) = (True, ns)"
    using relay(3) by (cases "track nonce (if remote_ip (f_link f c) = [] then fe_nodeId Ee else remote_ip (f_link f c)) now (f_nonces f)") simp
  have fields: "bind_fields ?p" by (rule packet_complete) (rule assms)+
  have ident: "bind_identity Er ?p = Some (fe_identityPub Ee, fe_nodeId Ee)"
    using assms(1,3) by (simp add: identity_node)
  have verified: "bind_verified Er f (link_of f (Some c)) ?p (fe_nodeId Ee) (fe_identityPub Ee)"
    using relay(1) verify_sign [OF assms(2)] by (auto simp: bind_verified_def list_ex_iff link_of_def assms(1))
  have fresh: "\<not> skewed now (field ?p ''timestamp'') bind_max_skew"
    using relay(2) by (simp add: skewed_def bind_max_skew_def)
  have room: "\<not> tunnels_full Er (f\<lparr>f_nonces := ns\<rparr>) (fe_nodeId Ee)"
    "\<not> ip_full Er (f\<lparr>f_nonces := ns\<rparr>) (remote_ip (f_link f c)) (fe_nodeId Ee)"
    using relay(4,5) by (simp_all add: tunnels_full_def ip_full_def ip_tunnels_def)
  have handled: "handleRendezvousBind Er now ?p (Some c) f = accept_bind Er now ?p (Some c) (fe_nodeId Ee) (fe_identityPub Ee) (f\<lparr>f_nonces := ns\<rparr>)"
    using fields ident verified fresh room ns by (simp add: handleRendezvousBind_def link_of_def Let_def)
  obtain f' es where out: "accept_bind Er now ?p (Some c) (fe_nodeId Ee) (fe_identityPub Ee) (f\<lparr>f_nonces := ns\<rparr>) = (f', es)" by fastforce
  obtain rest where rest: "es = Write c (bind_ack (fe_nodeId Ee)) # rest"
    using accept_reply [of Er now ?p "Some c" "fe_nodeId Ee" "fe_identityPub Ee" "f\<lparr>f_nonces := ns\<rparr>"] out by (auto simp: replies_def)
  have "jm_get (f_tunnels f') (fe_nodeId Ee) = Some (bound_tunnel Er now ?p (Some c) (fe_nodeId Ee) (fe_identityPub Ee) (f\<lparr>f_nonces := ns\<rparr>))"
    using accept_state(1) [of Er now ?p "Some c" "fe_nodeId Ee" "fe_identityPub Ee" "f\<lparr>f_nonces := ns\<rparr>"] out by (simp add: jsmap_simps)
  moreover have "rdv_view (fst (bindToRendezvousRelay Ee sent nonce (Some (d, bind_ack (fe_nodeId Ee))) addr g)) =
      (f_tunnels g, js_add addr (f_bound g), jm_keys (jm_set addr d (f_relays g)))"
    using edge by (auto simp: bindToRendezvousRelay_def Let_def split_beta bound_to_view)
  ultimately show ?thesis
    using handled out rest by (simp add: bound_tunnel_def chan_no_def rdv_view_def jm_has_iff jm_set_keys del: set_map)
qed

section \<open>Concrete runs\<close>

definition edge_id :: string where
  "edge_id = deriveNodeId pad32 (pad32 (utf8 ''i''))"

abbreviation edge_node :: fed_env where
  "edge_node \<equiv> sample_fed_env clear_crypto edge_id"

definition relay_state :: fed where
  "relay_state = (sample_fed sample_node)\<lparr>f_publicIp := Some ''8.8.4.4''\<rparr>"

lemma edge_id_text: "edge_id \<noteq> []"
  unfolding edge_id_def by code_simp

lemma edge_id_key: "node_id_of clear_crypto ''i'' = Some edge_id"
  by (simp add: node_id_of_def edge_id_def) (simp add: clear_crypto_def)

lemma relay_address: "''8.8.4.4:8001'' \<in> set (valid_relay_addresses sample_node relay_state l)"
proof -
  have "show_int 8001 = ''8001''" by (simp add: show_int_def show_radix.simps digit_char_def) (simp add: char_of_def bit_iff_odd)
  then show ?thesis by (simp add: valid_relay_addresses_def relay_state_def Let_def truthy_def)
qed

lemma edge_target: "bind_target edge_node (sample_fed edge_node) ''8.8.4.4:8001'' \<noteq> None"
proof -
  have "peer_target ''8.8.4.4:8001'' = Some (''8.8.4.4'', 8001)" by code_simp
  then show ?thesis
    by (simp add: bind_target_def isSelfPeerAddress_def isSelfAddress_def fe_penv_def sample_fed_def new_fed_def new_peers_def
        pub_port_def truthy_def sample_fed_env_def show_int_def)
qed

theorem bind_reaches_relay_witness:
  "\<exists>f' rest t. handleRendezvousBind sample_node 1000 (bind_packet edge_node 900 ''x'' ''8.8.4.4:8001'') (Some 3) relay_state =
      (f', Write 3 (bind_ack edge_id) # rest) \<and> jm_get (f_tunnels f') edge_id = Some t \<and>
    ''8.8.4.4:8001'' \<in> set (f_bound (fst (bindToRendezvousRelay edge_node 900 ''x'' (Some (5, bind_ack edge_id)) ''8.8.4.4:8001''
       (sample_fed edge_node))))"
proof -
  have "fst (track ''x'' edge_id 1000 (f_nonces relay_state))"
    by (simp add: track_def nonce_cleanup_def relay_state_def sample_fed_def new_fed_def new_store_def evict_oldest_def Let_def)
  moreover have "remote_ip (f_link relay_state 3) = []" "\<not> tunnels_full sample_node relay_state edge_id" "\<not> ip_full sample_node relay_state [] edge_id"
    by (simp_all add: relay_state_def sample_fed_def new_fed_def remote_ip_def no_link_def tunnels_full_def tunnel_limit_def
        or_default_def ip_full_def ip_exempt_def)
  moreover have "ed_sign clear_crypto (utf8 m) ''i'' \<noteq> []" for m
    using utf8_ne [of "''i''"] by (simp add: clear_crypto_def)
  ultimately show ?thesis
    using bind_reaches_relay [of sample_node edge_node 900 "''x''" "''8.8.4.4:8001''" relay_state 3 1000 "sample_fed edge_node" 5]
      relay_address edge_target edge_id_text edge_id_key clear_sign by simp blast
qed


theorem tunnels_genuine_and_bounded_witness:
  "set (f_bound (fst (rdv_step edge_node 900 (Maintained (\<lambda>_. ''x'') (\<lambda>_. None)) (sample_fed edge_node)))) =
   set (jm_keys (f_relays (fst (rdv_step edge_node 900 (Maintained (\<lambda>_. ''x'') (\<lambda>_. None)) (sample_fed edge_node)))))"
proof -
  have "rdv_reach edge_node (fst (rdv_step edge_node 900 (Maintained (\<lambda>_. ''x'') (\<lambda>_. None)) (sample_fed edge_node)))"
    unfolding sample_fed_def by (intro rdv_reach.event rdv_reach.start)
  from tunnels_genuine_and_bounded [OF this] show ?thesis by (elim conjE)
qed

end
