(* ===== verification/PacketHandler.thy ===== *)
theory PacketHandler
  imports Rendezvous "HOL-Library.List_Lexorder" "HOL-Library.Char_ord"
begin

text \<open>
  \<open>src/core/federationPacketHandler.js\<close>: what a node does with each payload of a secure channel. An
  exception ends a handler; where one can be raised before anything is changed the handler does nothing.
  A user's record that the code keeps under two spellings of the same address is two equal records here.
\<close>

section \<open>Shared steps\<close>

definition max_skew :: int where
  "max_skew = 86400000"

definition max_seen :: nat where
  "max_seen = 2000"

text \<open>A set of keys already handled; the oldest goes when there are too many.\<close>

definition remember_key :: "string \<Rightarrow> string list \<Rightarrow> string list" where
  "remember_key k s = (let s1 = js_add k s in if length s1 > max_seen then tl s1 else s1)"

text \<open>\<open>x || y\<close> for a field of any kind.\<close>

definition field_or :: "json \<Rightarrow> string \<Rightarrow> json \<Rightarrow> json" where
  "field_or payload k d = (if truthy_field payload k then the (field payload k) else d)"

definition num_or :: "json \<Rightarrow> string \<Rightarrow> int \<Rightarrow> int" where
  "num_or payload k d = (case field payload k of Some (JNum n) \<Rightarrow> if n = 0 then d else n | _ \<Rightarrow> d)"

text \<open>\<open>{ ...payload, k: v }\<close>.\<close>

fun with_field :: "string \<Rightarrow> json \<Rightarrow> json \<Rightarrow> json" where
  "with_field k v (JObj ms) = JObj (jm_set k v ms)"
| "with_field k v j = JObj [(k, v)]"

text \<open>\<open>rendezvousNodes || []\<close>; a value without \<open>filter\<close> raises.\<close>

definition rendezvous_field :: "json \<Rightarrow> string list option" where
  "rendezvous_field payload =
     (case field_or payload ''rendezvousNodes'' (JArr []) of JArr xs \<Rightarrow> Some (string_list (Some (JArr xs))) | _ \<Rightarrow> None)"

definition transit_role :: "string option \<Rightarrow> bool" where
  "transit_role role =
     (role = Some ''RELAY'' \<or> role = Some ''CAP_RELAY'' \<or> role = Some ''CAP_EDGE_TRANSIT'')"

definition relay_role :: "string option \<Rightarrow> bool" where
  "relay_role role = (role = Some ''RELAY'' \<or> role = Some ''CAP_RELAY'')"

text \<open>The \<open>host:port\<close> a target names, unless it is this node.\<close>

definition foreign_target :: "fed_env \<Rightarrow> fed \<Rightarrow> string \<Rightarrow> string option" where
  "foreign_target E f a =
     (case parseTarget (fe_cfg E) a of
        Some (HostTarget h p v6 w) \<Rightarrow>
          if h \<noteq> [] \<and> p \<noteq> 0 \<and> \<not> isSelfPeerAddress E f h (Some p) then Some (host_port h p) else None
      | _ \<Rightarrow> None)"

text \<open>\<open>nodePhysicalAddresses\<close> takes the first address that will do.\<close>

definition locate :: "fed_env \<Rightarrow> string \<Rightarrow> string list \<Rightarrow> fed \<Rightarrow> fed" where
  "locate E nodeId addrs f =
     (case List.map_filter (foreign_target E f) addrs of
        [] \<Rightarrow> f
      | a # _ \<Rightarrow> f\<lparr>f_phys := jm_set nodeId a (f_phys f)\<rparr>)"

definition register_edge :: "nat option \<Rightarrow> string \<Rightarrow> fed \<Rightarrow> fed" where
  "register_edge ch role f =
     (if role = ''EDGE'' \<and> real_remote_ip (link_of f ch) \<noteq> []
      then f\<lparr>f_peers := registerEdgeIp (real_remote_ip (link_of f ch)) (f_peers f)\<rparr> else f)"

definition learn_relays :: "fed_env \<Rightarrow> int \<Rightarrow> string option \<Rightarrow> string list \<Rightarrow> fed \<Rightarrow> fed" where
  "learn_relays E now role addrs f = (if relay_role role then fold (learn_address E now) addrs f else f)"

text \<open>\<open>channel.peerNodeAddress\<close> when it is an address of the plain network.\<close>

definition plain_peer :: "string option \<Rightarrow> string option" where
  "plain_peer a = (if truthy a \<and> \<not> ends_with ''.mesh'' (the a) then a else None)"

text \<open>A packet is not sent back to where it came from, nor to the host it came from.\<close>

definition came_from :: "link \<Rightarrow> string option \<Rightarrow> string \<Rightarrow> string \<Rightarrow> bool" where
  "came_from l remotePeer peer host =
     ((truthy (l_peerAddress l) \<and> Some peer = l_peerAddress l) \<or>
      (truthy remotePeer \<and> (Some peer = remotePeer \<or> host = addr_host (the remotePeer))))"

definition relay_targets :: "fed_env \<Rightarrow> nat option \<Rightarrow> string option \<Rightarrow> (string \<Rightarrow> bool) \<Rightarrow> fed \<Rightarrow> (string \<times> int) list" where
  "relay_targets E ch remotePeer skip f =
     peer_targets (\<lambda>peer (h, p). \<not> isSelfPeerAddress E f h (Some p) \<and> \<not> came_from (link_of f ch) remotePeer peer h \<and> \<not> skip peer) f"

definition same_channel :: "nat option \<Rightarrow> nat \<Rightarrow> bool" where
  "same_channel ch c = (ch = Some c)"

section \<open>PRESENCE\_ANNOUNCE\<close>

text \<open>One of the users a node says it serves.\<close>

definition take_over_nick :: "fed_env \<Rightarrow> parsed_address \<Rightarrow> string \<Rightarrow> (string, remote_user) jsmap \<Rightarrow> (string, remote_user) jsmap" where
  "take_over_nick E parsed uNodeId users =
     filter (\<lambda>(a, _). case parse_addr E a of
         None \<Rightarrow> True
       | Some ex \<Rightarrow> \<not> (js_lower (pa_name ex) = js_lower (pa_name parsed) \<and> pa_nodeId ex \<noteq> Some uNodeId)) users"

definition mesh_user :: "string \<Rightarrow> string \<Rightarrow> string" where
  "mesh_user name nodeId = ''@'' @ name @ '':'' @ nodeId @ ''.mesh''"

definition route_hint :: "json \<Rightarrow> nat option \<Rightarrow> string \<Rightarrow> fed \<Rightarrow> string list" where
  "route_hint payload ch nodeId f =
     (case or_else (str_field payload ''relayAnnounceAddress'')
             (or_else (jm_get (f_phys f) nodeId) (plain_peer (l_peerAddress (link_of f ch)))) of
        Some (c # s) \<Rightarrow> [c # s]
      | _ \<Rightarrow> [nodeId])"

definition learn_membership :: "fed_env \<Rightarrow> int \<Rightarrow> json \<Rightarrow> nat option \<Rightarrow> string \<Rightarrow> json \<Rightarrow> fed \<Rightarrow> fed" where
  "learn_membership E now payload ch nodeId m f =
     (case or_else (str_field m ''user'') None of
        None \<Rightarrow> f
      | Some user \<Rightarrow>
          (case parse_addr E user of
             None \<Rightarrow> f
           | Some parsed \<Rightarrow>
               if pa_isLocal parsed then f
               else
                 let uNodeId = the (or_else (pa_nodeId parsed) (Some nodeId));
                     canonicalUser = mesh_user (pa_name parsed) uNodeId;
                     kem = the (or_else (str_field m ''kemPublicKey'') (Some []));
                     channels = string_list (field m ''channels'');
                     f1 = f\<lparr>f_users := jm_set canonicalUser
                             \<lparr>ru_lastSeen = now, ru_channels = channels, ru_isSsh = truthy_field m ''isSsh'', ru_kem = kem\<rparr>
                             (take_over_nick E parsed uNodeId (f_users f)),
                            f_db := saveRemoteUserKemKey canonicalUser kem (f_db f)\<rparr>
                 in if uNodeId \<noteq> fe_nodeId E \<and> \<not> jm_has (f_presence f1) uNodeId
                    then let rdv = route_hint payload ch nodeId f1
                         in f1\<lparr>f_presence := jm_set uNodeId \<lparr>ps_role = ''EDGE'', ps_rendezvous = rdv, ps_kem = Some kem,
                                 ps_ident = Some [], ps_channels = channels, ps_lastSeen = now\<rparr> (f_presence f1),
                               f_db := upsertRoute uNodeId ''EDGE'' rdv (Some kem) (Some []) now (f_db f1)\<rparr>
                    else f1))"

definition memberships_of :: "json \<Rightarrow> json list" where
  "memberships_of payload = (case field payload ''memberships'' of Some (JArr ms) \<Rightarrow> ms | _ \<Rightarrow> [])"

definition membership_summary :: "json \<Rightarrow> string" where
  "membership_summary payload =
     join_with '','' (sort (map (\<lambda>m. the (or_else (str_field m ''user'') (Some []))) (memberships_of payload)))"

definition announce_key :: "json \<Rightarrow> string \<Rightarrow> string" where
  "announce_key payload nodeId = nodeId @ '':'' @ field_text payload ''timestamp'' @ '':'' @ membership_summary payload"

text \<open>The fields the signature covers: the memberships are not among them.\<close>

definition announce_signed :: "json \<Rightarrow> string \<Rightarrow> string \<Rightarrow> json" where
  "announce_signed payload nodeId kem =
     presence_signed nodeId (field payload ''role'') (field_or payload ''rendezvousNodes'' (JArr [])) kem
       (field_or payload ''channels'' (JArr [])) (field payload ''timestamp'')"

text \<open>A verified announcement: its node, its two keys and the addresses it can be reached at.\<close>

definition verified_announce :: "fed_env \<Rightarrow> int \<Rightarrow> json \<Rightarrow> (string \<times> string \<times> string \<times> string list) option" where
  "verified_announce E now payload =
     (case (or_else (str_field payload ''nodeId'') None, or_else (str_field payload ''kemPublicKey'') None,
            or_else (str_field payload ''identityPublicKey'') None) of
        (Some nodeId, Some kem, Some ident) \<Rightarrow>
          if \<not> truthy_field payload ''sig'' \<or> nodeId = fe_nodeId E \<or> node_id_of (fe_crypto E) ident \<noteq> Some nodeId
             \<or> \<not> verify (fe_crypto E) (stringify (announce_signed payload nodeId kem)) (str_field payload ''sig'') (Some ident)
             \<or> skewed now (field payload ''timestamp'') max_skew then None
          else map_option (\<lambda>addrs. (nodeId, kem, ident, safe_addresses E addrs)) (rendezvous_field payload)
      | _ \<Rightarrow> None)"

definition announced_role :: "json \<Rightarrow> string" where
  "announced_role payload = the (or_else (str_field payload ''role'') (Some ''EDGE''))"

definition open_channels :: "string list \<Rightarrow> fed \<Rightarrow> fed" where
  "open_channels channels f =
     f\<lparr>f_subs := fold (\<lambda>c m. if jm_has m c then m else jm_set c [] m) channels (f_subs f)\<rparr>"

text \<open>Everything the announcement teaches this node.\<close>

definition learn_announce :: "fed_env \<Rightarrow> int \<Rightarrow> json \<Rightarrow> nat option \<Rightarrow> string \<Rightarrow> string \<Rightarrow> string \<Rightarrow> string list \<Rightarrow> fed \<Rightarrow> fed" where
  "learn_announce E now payload ch nodeId kem ident safe f =
     (let role = announced_role payload;
          channels = string_list (field payload ''channels'');
          f1 = f\<lparr>f_presence := jm_set nodeId \<lparr>ps_role = role, ps_rendezvous = safe, ps_kem = Some kem, ps_ident = Some ident,
                  ps_channels = channels, ps_lastSeen = now\<rparr> (f_presence f)\<rparr>;
          f2 = register_edge ch role f1;
          f3 = (if transit_role (str_field payload ''role'')
                then locate E nodeId (if safe = [] then (case plain_peer (l_peerAddress (link_of f2 ch)) of None \<Rightarrow> [] | Some a \<Rightarrow> [a])
                                      else safe) f2
                else f2);
          f4 = learn_relays E now (str_field payload ''role'') safe f3;
          f5 = f4\<lparr>f_db := upsertRoute nodeId role safe (Some kem) (Some ident) now (f_db f4)\<rparr>;
          f6 = open_channels channels f5;
          f7 = fold (learn_membership E now payload ch nodeId) (memberships_of payload) f6
      in f7\<lparr>f_db := resetOutboxForTarget nodeId (f_db f7)\<rparr>)"

text \<open>A relay that announces itself gets this node's own announcement back, at most every ten seconds.\<close>

definition bilateral_reply :: "fed_env \<Rightarrow> int \<Rightarrow> json \<Rightarrow> nat option \<Rightarrow> bool \<Rightarrow> act" where
  "bilateral_reply E now payload ch isNew f =
     (if isNew \<and> \<not> truthy_field payload ''isBilateralReply'' \<and> relay_role (str_field payload ''role'') \<and>
         now - l_lastSync (link_of f ch) \<ge> 10000
      then
        let f1 = (case ch of None \<Rightarrow> f | Some c \<Rightarrow> f\<lparr>f_link := (f_link f)(c := (f_link f c)\<lparr>l_lastSync := now\<rparr>)\<rparr>);
            (mine, f2) = createPresenceAnnouncePayload E now f1
        in (f2, if announced_memberships E f1 = [] then [] else replies ch (with_field ''isBilateralReply'' (JBool True) mine))
      else (f, []))"

definition gossip_relays :: "fed \<Rightarrow> nat option \<Rightarrow> string option \<Rightarrow> nat list" where
  "gossip_relays f ch remotePeer =
     map snd (filter (\<lambda>(a, c). \<not> (truthy remotePeer \<and> (Some a = remotePeer \<or> l_peerAddress (f_link f c) = remotePeer)) \<and>
         \<not> same_channel ch c \<and> l_ready (f_link f c) \<and> not_unwritable (f_link f c)) (f_relays f))"

definition spread_announce :: "fed_env \<Rightarrow> json \<Rightarrow> nat option \<Rightarrow> string option \<Rightarrow> string \<Rightarrow> fed \<Rightarrow> fed_effect list" where
  "spread_announce E payload ch remotePeer nodeId f =
     (if isRelay f
      then map (\<lambda>(h, p). ConnectWrite h p payload (case ch of None \<Rightarrow> [] | Some c \<Rightarrow> [c]) False)
             (relay_targets E ch remotePeer (\<lambda>peer. jm_get (f_phys f) nodeId = Some peer) f) @
           map (\<lambda>c. Write c payload) (writable_tunnels (\<lambda>n _. n \<noteq> nodeId) f)
      else if allowEdgeGossip (fe_cfg E) \<and> length (f_relays f) \<ge> 2
      then map (\<lambda>c. Write c payload) (gossip_relays f ch remotePeer)
      else [])"

definition announce_ack :: "fed_env \<Rightarrow> json" where
  "announce_ack E =
     JObj [(''status'', JStr ''ack''), (''type'', JStr ''PRESENCE_ANNOUNCE''), (''nodeId'', JStr (fe_nodeId E))]"

definition handlePresenceAnnounce :: "fed_env \<Rightarrow> int \<Rightarrow> json \<Rightarrow> nat option \<Rightarrow> string option \<Rightarrow> act" where
  "handlePresenceAnnounce E now payload ch remotePeer f =
     (case verified_announce E now payload of
        None \<Rightarrow> (f, [])
      | Some (nodeId, kem, ident, safe) \<Rightarrow>
          let f1 = learn_announce E now payload ch nodeId kem ident safe f;
              key = announce_key payload nodeId;
              isNew = (key \<notin> set (sn_presence (f_sets f1)));
              f2 = (if isNew then f1\<lparr>f_sets := (f_sets f1)\<lparr>sn_presence := remember_key key (sn_presence (f_sets f1))\<rparr>\<rparr> else f1);
              (f3, e3) = bilateral_reply E now payload ch isNew f2
          in (f3, [Emitted PresenceChange] @ replies ch (announce_ack E) @ e3 @
                (if isNew then spread_announce E payload ch remotePeer nodeId f3 else []) @
                (if \<not> isRelay f3 \<and> relay_role (str_field payload ''role'') then [Maintain] else []) @ [ProcessOutbox]))"

section \<open>ROUTE\_UPDATE\<close>

definition route_signed_by :: "json \<Rightarrow> string \<Rightarrow> string \<Rightarrow> json" where
  "route_signed_by payload nodeId relayNodeId =
     obj [(''nodeId'', Some (JStr nodeId)), (''relayNodeId'', Some (JStr relayNodeId)),
       (''rendezvousNodes'', Some (field_or payload ''rendezvousNodes'' (JArr []))),
       (''kemPublicKey'', Some (field_or payload ''kemPublicKey'' JNull)),
       (''relayKemPublicKey'', Some (field_or payload ''relayKemPublicKey'' JNull)),
       (''relayAddress'', Some (field_or payload ''relayAddress'' JNull)), (''timestamp'', field payload ''timestamp'')]"

definition route_signed_legacy :: "json \<Rightarrow> string \<Rightarrow> string \<Rightarrow> json" where
  "route_signed_legacy payload nodeId relayNodeId =
     obj [(''nodeId'', Some (JStr nodeId)), (''relayNodeId'', Some (JStr relayNodeId)),
       (''rendezvousNodes'', Some (field_or payload ''rendezvousNodes'' (JArr []))), (''timestamp'', field payload ''timestamp'')]"

record route_claim =
  rc_node :: string
  rc_relay :: string
  rc_relayIdent :: string
  rc_safe :: "string list"
  rc_kem :: "string option"
  rc_relayKem :: "string option"

text \<open>A verified update. The legacy signature does not cover the keys, so they are dropped.\<close>

definition verified_route :: "fed_env \<Rightarrow> int \<Rightarrow> json \<Rightarrow> route_claim option" where
  "verified_route E now payload =
     (case (or_else (str_field payload ''nodeId'') None, or_else (str_field payload ''relayNodeId'') None,
            or_else (str_field payload ''relayIdentityPublicKey'') None) of
        (Some nodeId, Some relayNodeId, Some ident) \<Rightarrow>
          let signed = (\<lambda>j. verify (fe_crypto E) (stringify j) (str_field payload ''sig'') (Some ident));
              full = signed (route_signed_by payload nodeId relayNodeId);
              key = (\<lambda>k. if full then str_field payload k else None)
          in if \<not> truthy_field payload ''sig'' \<or> node_id_of (fe_crypto E) ident \<noteq> Some relayNodeId \<or>
                \<not> (full \<or> signed (route_signed_legacy payload nodeId relayNodeId)) \<or>
                skewed now (field payload ''timestamp'') max_skew then None
             else (case map_option (safe_addresses E) (rendezvous_field payload) of
                     Some (a # as) \<Rightarrow>
                       Some \<lparr>rc_node = nodeId, rc_relay = relayNodeId, rc_relayIdent = ident, rc_safe = a # as,
                         rc_kem = key ''kemPublicKey'', rc_relayKem = key ''relayKemPublicKey''\<rparr>
                   | _ \<Rightarrow> None)
      | _ \<Rightarrow> None)"

definition canonical_relay :: "fed_env \<Rightarrow> string \<Rightarrow> string" where
  "canonical_relay E a =
     (case parseTarget (fe_cfg E) a of
        Some (HostTarget h p v6 w) \<Rightarrow> if h \<noteq> [] \<and> p \<noteq> 0 then host_port h p else a
      | _ \<Rightarrow> a)"

text \<open>\<open>presenceTable.get(n) || db.getRoute(n)\<close>: what is known of a node.\<close>

definition known_node :: "string \<Rightarrow> fed \<Rightarrow> presence option" where
  "known_node n f =
     (case jm_get (f_presence f) n of
        Some p \<Rightarrow> Some p
      | None \<Rightarrow> map_option (\<lambda>r. \<lparr>ps_role = r_role r, ps_rendezvous = r_rendezvousNodes r, ps_kem = Some (r_kemPublicKey r),
                   ps_ident = Some (r_identityPublicKey r), ps_channels = [], ps_lastSeen = r_lastSeen r\<rparr>) (getRoute n (f_db f)))"

text \<open>A record goes into the presence table and the route table.\<close>

definition put_node :: "string \<Rightarrow> presence \<Rightarrow> fed \<Rightarrow> fed" where
  "put_node n p f =
     f\<lparr>f_presence := jm_set n p (f_presence f),
       f_db := upsertRoute n (ps_role p) (ps_rendezvous p) (ps_kem p) (ps_ident p) (ps_lastSeen p) (f_db f)\<rparr>"

definition learn_claimed_relay :: "fed_env \<Rightarrow> int \<Rightarrow> route_claim \<Rightarrow> string \<Rightarrow> fed \<Rightarrow> fed" where
  "learn_claimed_relay E now rc relayAddress f =
     (let addr = canonical_relay E relayAddress;
          known = Option.bind (known_node (rc_relay rc) f) ps_kem;
          f1 = put_node (rc_relay rc) \<lparr>ps_role = ''RELAY'', ps_rendezvous = [addr],
                 ps_kem = or_else (rc_relayKem rc) (or_else known (Some [])), ps_ident = Some (rc_relayIdent rc),
                 ps_channels = [], ps_lastSeen = now\<rparr> f;
          f2 = f1\<lparr>f_phys := jm_set (rc_relay rc) addr (f_phys f1)\<rparr>
      in if CHR '':'' \<in> set addr \<and> \<not> ends_with ''.mesh'' addr
         then f2\<lparr>f_peers := addOrUpdate (fe_penv E) now addr True True (f_peers f2)\<rparr> else f2)"

definition claimed_edge :: "int \<Rightarrow> json \<Rightarrow> route_claim \<Rightarrow> fed \<Rightarrow> presence" where
  "claimed_edge now payload rc f =
     (let known = known_node (rc_node rc) f;
          old = (case known of None \<Rightarrow> [] | Some p \<Rightarrow> ps_rendezvous p)
      in \<lparr>ps_role = announced_role payload, ps_rendezvous = js_uniq (old @ rc_safe rc),
          ps_kem = or_else (rc_kem rc) (or_else (Option.bind known ps_kem) None),
          ps_ident = or_else (str_field payload ''identityPublicKey'') (or_else (Option.bind known ps_ident) None),
          ps_channels = (case known of None \<Rightarrow> [] | Some p \<Rightarrow> ps_channels p), ps_lastSeen = now\<rparr>)"

definition learn_route :: "fed_env \<Rightarrow> int \<Rightarrow> json \<Rightarrow> nat option \<Rightarrow> route_claim \<Rightarrow> fed \<Rightarrow> fed" where
  "learn_route E now payload ch rc f =
     (let f1 = (case or_else (str_field payload ''relayAddress'') None of
                  None \<Rightarrow> f | Some a \<Rightarrow> learn_claimed_relay E now rc a f);
          f2 = put_node (rc_node rc) (claimed_edge now payload rc f1) f1;
          f3 = register_edge ch (announced_role payload) f2;
          f4 = learn_relays E now (str_field payload ''role'') (rc_safe rc) f3;
          f5 = (if transit_role (str_field payload ''role'') then locate E (rc_node rc) (rc_safe rc) f4 else f4)
      in f5\<lparr>f_db := resetOutboxForTarget (rc_node rc) (f_db f5)\<rparr>)"

definition update_key :: "json \<Rightarrow> route_claim \<Rightarrow> string" where
  "update_key payload rc = rc_node rc @ '':'' @ rc_relay rc @ '':'' @ field_text payload ''timestamp''"

definition handleRouteUpdate :: "fed_env \<Rightarrow> int \<Rightarrow> json \<Rightarrow> nat option \<Rightarrow> string option \<Rightarrow> act" where
  "handleRouteUpdate E now payload ch remotePeer f =
     (case verified_route E now payload of
        None \<Rightarrow> (f, [])
      | Some rc \<Rightarrow>
          if update_key payload rc \<in> set (sn_routes (f_sets f)) then (f, [])
          else
            let f1 = f\<lparr>f_sets := (f_sets f)\<lparr>sn_routes := remember_key (update_key payload rc) (sn_routes (f_sets f))\<rparr>\<rparr>;
                f2 = learn_route E now payload ch rc f1
            in (f2, [Emitted PresenceChange] @
                  (if isRelay f2
                   then map (\<lambda>(h, p). SendPacket h p payload False)
                          (relay_targets E ch remotePeer (\<lambda>peer. jm_get (f_phys f2) (rc_node rc) = Some peer) f2) @
                        map (\<lambda>c. Write c payload) (writable_tunnels (\<lambda>n _. n \<noteq> rc_node rc) f2)
                   else [Maintain]) @ [ProcessOutbox]))"

section \<open>Messages\<close>

text \<open>The row a payload becomes; columns that may not be null make the insertion fail.\<close>

definition message_of :: "fed_env \<Rightarrow> int \<Rightarrow> string \<Rightarrow> json \<Rightarrow> message option" where
  "message_of E now freshId payload =
     (case (str_field payload ''from'', str_field payload ''to'', str_field payload ''content'') of
        (Some from, Some to, Some content) \<Rightarrow>
          (case (case field payload ''timestamp'' of None \<Rightarrow> Some (iso (fe_clock E) now) | Some v \<Rightarrow> str_field payload ''timestamp'') of
             None \<Rightarrow> None
           | Some ts \<Rightarrow>
               Some \<lparr>m_id = the (or_else (str_field payload ''id'') (Some freshId)), m_from = from, m_to = to, m_content = content,
                 m_isAction = truthy_field payload ''isAction'', m_isSnippet = truthy_field payload ''isSnippet'',
                 m_isE2EE = truthy_field payload ''isE2EE'', m_deleted_by = [], m_timestamp = ts\<rparr>)
      | _ \<Rightarrow> None)"

text \<open>The sender of a message is online, and reachable through the relay the message came from.\<close>

definition seen_user :: "int \<Rightarrow> string \<Rightarrow> string \<Rightarrow> (string, remote_user) jsmap \<Rightarrow> (string, remote_user) jsmap" where
  "seen_user now canonical raw users =
     (let known = (case jm_get users canonical of Some u \<Rightarrow> Some u | None \<Rightarrow> jm_get users raw);
          u = (case known of None \<Rightarrow> \<lparr>ru_lastSeen = now, ru_channels = [], ru_isSsh = False, ru_kem = []\<rparr>
               | Some u \<Rightarrow> u\<lparr>ru_lastSeen := now\<rparr>)
      in jm_set raw u (jm_set canonical u users))"

definition learn_sender_route :: "fed_env \<Rightarrow> int \<Rightarrow> string option \<Rightarrow> string \<Rightarrow> fed \<Rightarrow> fed" where
  "learn_sender_route E now via n f =
     (case known_node n f of
        Some p \<Rightarrow>
          let p1 = p\<lparr>ps_lastSeen := now\<rparr>;
              f1 = (if jm_has (f_presence f) n then f\<lparr>f_presence := jm_set n p1 (f_presence f)\<rparr> else f)
          in (case via of
                Some a \<Rightarrow> if a \<in> set (ps_rendezvous p) then f1
                          else put_node n (p1\<lparr>ps_rendezvous := ps_rendezvous p @ [a]\<rparr>) f1
              | None \<Rightarrow> f1)
      | None \<Rightarrow>
          (case via of
             Some a \<Rightarrow>
               if n = fe_nodeId E then f
               else put_node n \<lparr>ps_role = ''EDGE'', ps_rendezvous = [a], ps_kem = Some [], ps_ident = Some [], ps_channels = [],
                      ps_lastSeen = now\<rparr> f
           | None \<Rightarrow> f))"

definition learn_sender :: "fed_env \<Rightarrow> int \<Rightarrow> json \<Rightarrow> nat option \<Rightarrow> string option \<Rightarrow> act" where
  "learn_sender E now payload ch remotePeer f =
     (case str_field payload ''from'' of
        None \<Rightarrow> (f, [])
      | Some from \<Rightarrow>
          if \<not> starts_with ''@'' from then (f, [])
          else (case parse_addr E from of
             None \<Rightarrow> (f, [])
           | Some p \<Rightarrow>
               if pa_isLocal p then (f, [])
               else
                 let node = or_else (pa_nodeId p) None;
                     canonical = (case node of None \<Rightarrow> from | Some n \<Rightarrow> mesh_user (pa_name p) n);
                     f1 = f\<lparr>f_users := seen_user now canonical from (f_users f)\<rparr>;
                     via = or_else (plain_peer (l_peerAddress (link_of f ch))) (plain_peer remotePeer);
                     f2 = (case node of None \<Rightarrow> f1 | Some n \<Rightarrow> learn_sender_route E now via n f1);
                     f3 = (case (or_else (pa_host p) None, pa_port p) of
                             (Some h, Some q) \<Rightarrow>
                               if q = 0 then f2
                               else f2\<lparr>f_peers := addOrUpdate (fe_penv E) now (host_port h q) True True (f_peers f2)\<rparr>
                           | _ \<Rightarrow> f2)
                 in (f3, [Emitted PresenceChange])))"

text \<open>The relays a direct message for a node that is not here goes on to.\<close>

definition dialable_peer :: "fed_env \<Rightarrow> fed \<Rightarrow> string \<Rightarrow> string option" where
  "dialable_peer E f a =
     (if a = [] \<or> ends_with ''.mesh'' a then None
      else case peer_target a of
        None \<Rightarrow> None
      | Some (h, p) \<Rightarrow> if isSelfPeerAddress E f h (Some p) then None else Some (host_port h p))"

definition transit_peers :: "fed_env \<Rightarrow> string \<Rightarrow> fed \<Rightarrow> string list" where
  "transit_peers E n f =
     (let known = (case known_node n f of None \<Rightarrow> [] | Some p \<Rightarrow> ps_rendezvous p);
          cands = js_uniq (List.map_filter (dialable_peer E f) known)
      in if cands = [] then js_uniq (List.map_filter (dialable_peer E f) (getAllPeers (f_peers f))) else cands)"

definition hop_back :: "string option \<Rightarrow> string \<Rightarrow> bool" where
  "hop_back a peer = (truthy a \<and> (Some peer = a \<or> addr_host peer = addr_host (the a)))"

definition pooled :: "fed \<Rightarrow> string \<Rightarrow> nat option" where
  "pooled f peer =
     (case jm_get (f_pool f) peer of
        Some c \<Rightarrow> if l_ready (f_link f c) \<and> not_unwritable (f_link f c) then Some c else None
      | None \<Rightarrow> None)"

definition cross_relay :: "fed_env \<Rightarrow> nat option \<Rightarrow> string option \<Rightarrow> string \<Rightarrow> json \<Rightarrow> fed \<Rightarrow> fed_effect list" where
  "cross_relay E ch remotePeer n payload f =
     List.map_filter (\<lambda>peer.
        if hop_back remotePeer peer \<or> hop_back (l_peerAddress (link_of f ch)) peer then None
        else case peer_target peer of
          None \<Rightarrow> None
        | Some (h, p) \<Rightarrow>
            Some (case pooled f peer of Some c \<Rightarrow> Write c payload | None \<Rightarrow> SendPacket h p payload False))
       (transit_peers E n f)"

definition forward_direct :: "fed_env \<Rightarrow> json \<Rightarrow> string \<Rightarrow> nat option \<Rightarrow> string option \<Rightarrow> fed \<Rightarrow> fed_effect list" where
  "forward_direct E payload to ch remotePeer f =
     (case Option.bind (parse_addr E to) (\<lambda>p. or_else (pa_nodeId p) None) of
        None \<Rightarrow> []
      | Some n \<Rightarrow>
          if n = fe_nodeId E then []
          else (case jm_get (f_tunnels f) n of
             Some t \<Rightarrow> if not_unwritable (f_link f (tn_chan t)) then [Write (tn_chan t) payload]
                        else if isRelay f then cross_relay E ch remotePeer n payload f else []
           | None \<Rightarrow> if isRelay f then cross_relay E ch remotePeer n payload f else []))"

text \<open>\<open>forwardToChannelSubscribers\<close>.\<close>

definition to_subscriber :: "json \<Rightarrow> string option \<Rightarrow> string \<Rightarrow> fed_effect list" where
  "to_subscriber payload except peer =
     (if Some peer = except then []
      else if CHR '':'' \<in> set peer
      then (case peer_target peer of None \<Rightarrow> [] | Some (h, p) \<Rightarrow> [SendPacket h p payload False])
      else if isValidNodeId peer \<or> ends_with ''.mesh'' peer then [OnionSend (remove_first ''.mesh'' peer) payload] else [])"

definition forwardToChannelSubscribers :: "string \<Rightarrow> message \<Rightarrow> int \<Rightarrow> int \<Rightarrow> string option \<Rightarrow> fed \<Rightarrow> fed_effect list" where
  "forwardToChannelSubscribers channel m hop ttl except f =
     (let payload = channel_message m hop ttl
      in concat (map (to_subscriber payload except) (case jm_get (f_subs f) channel of None \<Rightarrow> [] | Some s \<Rightarrow> s)) @
         map (\<lambda>c. Write c payload)
           (writable_tunnels (\<lambda>n _. \<not> (truthy except \<and> (Some n = except \<or> Some (n @ ''.mesh'') = except))) f) @
         map (\<lambda>(a, c). Write c payload)
           (filter (\<lambda>(a, c). \<not> hop_back except a \<and> not_unwritable (f_link f c)) (f_relays f)))"

definition forward_message :: "fed_env \<Rightarrow> json \<Rightarrow> message \<Rightarrow> nat option \<Rightarrow> string option \<Rightarrow> fed \<Rightarrow> fed_effect list" where
  "forward_message E payload m ch remotePeer f =
     (let hop = num_or payload ''hop'' 0 + 1;
          ttl = num_or payload ''ttl'' 5
      in if hop \<ge> ttl then []
         else if starts_with ''#'' (m_to m)
         then if CHR '':'' \<notin> set (m_to m) then snd (broadcastChannelMessage m hop ttl remotePeer f)
              else forwardToChannelSubscribers (m_to m) m hop ttl remotePeer f
         else if starts_with ''@'' (m_to m)
         then forward_direct E (with_field ''ttl'' (JNum ttl) (with_field ''hop'' (JNum hop) payload)) (m_to m) ch remotePeer f
         else [])"

definition status_reply :: "string \<Rightarrow> json \<Rightarrow> json" where
  "status_reply status payload = obj [(''status'', Some (JStr status)), (''id'', field payload ''id'')]"

definition handleDirectOrChannelMessage :: "fed_env \<Rightarrow> int \<Rightarrow> string \<Rightarrow> json \<Rightarrow> nat option \<Rightarrow> string option \<Rightarrow> act" where
  "handleDirectOrChannelMessage E now freshId payload ch remotePeer f =
     (let (dup, seen) = cache_has (field_text payload ''id'') now (f_seen f)
      in if dup then (f\<lparr>f_seen := seen\<rparr>, replies ch (status_reply ''duplicate'' payload))
         else
           let f1 = f\<lparr>f_seen := cache_add (field_text payload ''id'') now seen\<rparr>;
               (f2, e2) = learn_sender E now payload ch remotePeer f1;
               (saved, d) = (case message_of E now freshId payload of None \<Rightarrow> (None, f_db f2) | Some m \<Rightarrow> saveMessage m (f_db f2));
               f3 = f2\<lparr>f_db := d\<rparr>
           in (f3, e2 @ (case saved of None \<Rightarrow> []
                         | Some m \<Rightarrow> Emitted (MessageEvent m) # forward_message E payload m ch remotePeer f3) @
                 replies ch (status_reply ''delivered'' payload)))"

section \<open>Subscriptions, typing, leaving and gossip\<close>

text \<open>The tunnel of the node that owns a channel, when this relay is not that node.\<close>

definition owner_tunnel :: "fed_env \<Rightarrow> string \<Rightarrow> json \<Rightarrow> fed \<Rightarrow> fed_effect list" where
  "owner_tunnel E channel payload f =
     (if \<not> isRelay f then []
      else case Option.bind (parse_addr E channel) (\<lambda>p. or_else (pa_nodeId p) None) of
        None \<Rightarrow> []
      | Some n \<Rightarrow>
          if n = fe_nodeId E then []
          else (case jm_get (f_tunnels f) n of
             None \<Rightarrow> []
           | Some t \<Rightarrow> if socket_writable (f_link f (tn_chan t)) then [Write (tn_chan t) payload] else []))"

definition channel_reply :: "string \<Rightarrow> string \<Rightarrow> json" where
  "channel_reply status channel = JObj [(''status'', JStr status), (''channel'', JStr channel)]"

definition handleChannelSubscribe :: "fed_env \<Rightarrow> int \<Rightarrow> json \<Rightarrow> nat option \<Rightarrow> act" where
  "handleChannelSubscribe E now payload ch f =
     (case (or_else (str_field payload ''channel'') None, or_else (str_field payload ''subscriberNode'') None) of
        (Some channel, Some node) \<Rightarrow>
          let subs = (case jm_get (f_subs f) channel of None \<Rightarrow> [] | Some s \<Rightarrow> s);
              f1 = f\<lparr>f_subs := jm_set channel (js_add node subs) (f_subs f),
                     f_peers := addOrUpdate (fe_penv E) now node True True (f_peers f)\<rparr>
          in (f1, owner_tunnel E channel payload f1 @ replies ch (channel_reply ''subscribed'' channel))
      | _ \<Rightarrow> (f, []))"

definition handleChannelUnsubscribe :: "fed_env \<Rightarrow> json \<Rightarrow> nat option \<Rightarrow> act" where
  "handleChannelUnsubscribe E payload ch f =
     (case (or_else (str_field payload ''channel'') None, or_else (str_field payload ''subscriberNode'') None) of
        (Some channel, Some node) \<Rightarrow>
          (case jm_get (f_subs f) channel of
             None \<Rightarrow> (f, [])
           | Some subs \<Rightarrow>
               let f1 = f\<lparr>f_subs := jm_set channel (removeAll node subs) (f_subs f)\<rparr>
               in (f1, owner_tunnel E channel payload f1 @ replies ch (channel_reply ''unsubscribed'' channel)))
      | _ \<Rightarrow> (f, []))"

definition handleTyping :: "fed_env \<Rightarrow> int \<Rightarrow> json \<Rightarrow> act" where
  "handleTyping E now payload f =
     (let f1 = (case str_field payload ''from'' of
                  None \<Rightarrow> f
                | Some from \<Rightarrow>
                    (case (if starts_with ''@'' from then parse_addr E from else None) of
                       None \<Rightarrow> f
                     | Some p \<Rightarrow> if pa_isLocal p then f else f\<lparr>f_users := seen_user now from from (f_users f)\<rparr>))
      in (f1, [Emitted (TypingEvent payload)]))"

definition offline_ack :: "string \<Rightarrow> json" where
  "offline_ack user = JObj [(''status'', JStr ''ack''), (''type'', JStr ''USER_OFFLINE''), (''user'', JStr user)]"

text \<open>A user seen after the time of the packet stays; a packet without a time drops every spelling of the nickname.\<close>

definition goes_offline :: "fed_env \<Rightarrow> string \<Rightarrow> int \<Rightarrow> string \<times> remote_user \<Rightarrow> bool" where
  "goes_offline E user ts entry =
     (let nick = offline_nick E user
      in fst entry = user \<or>
         (nick \<noteq> [] \<and> js_lower (offline_nick E (fst entry)) = js_lower nick \<and> \<not> (ts > 0 \<and> ru_lastSeen (snd entry) > ts)))"

definition spread_offline :: "fed_env \<Rightarrow> json \<Rightarrow> nat option \<Rightarrow> string option \<Rightarrow> fed \<Rightarrow> fed_effect list" where
  "spread_offline E payload ch remotePeer f =
     (if isRelay f
      then map (\<lambda>(h, p). ConnectWrite h p payload (case ch of None \<Rightarrow> [] | Some c \<Rightarrow> [c]) False)
             (filter (\<lambda>(h, p). \<not> jm_has (f_pool f) (host_port h p)) (relay_targets E ch remotePeer (\<lambda>_. False) f)) @
           map (\<lambda>c. Write c payload)
             (filter (\<lambda>c. \<not> same_channel ch c \<and> l_ready (f_link f c) \<and> socket_writable (f_link f c)) (jm_values (f_pool f))) @
           map (\<lambda>c. Write c payload) (writable_tunnels (\<lambda>_ t. \<not> same_channel ch (tn_chan t)) f)
      else [])"

definition handleUserOffline :: "fed_env \<Rightarrow> json \<Rightarrow> nat option \<Rightarrow> string option \<Rightarrow> act" where
  "handleUserOffline E payload ch remotePeer f =
     (case or_else (str_field payload ''user'') None of
        None \<Rightarrow> (f, [])
      | Some user \<Rightarrow>
          let ts = num_or payload ''timestamp'' 0
          in if ts > 0 \<and> (case jm_get (f_users f) user of None \<Rightarrow> False | Some u \<Rightarrow> ru_lastSeen u > ts)
             then (f, replies ch (offline_ack user))
             else
               let f1 = f\<lparr>f_users := filter (\<lambda>e. \<not> goes_offline E user ts e) (f_users f)\<rparr>;
                   key = user @ '':'' @ show_int ts;
                   isNew = (key \<notin> set (sn_offline (f_sets f1)));
                   f2 = (if isNew then f1\<lparr>f_sets := (f_sets f1)\<lparr>sn_offline := remember_key key (sn_offline (f_sets f1))\<rparr>\<rparr> else f1)
               in (f2, (if length (f_users f1) < length (f_users f) then [Emitted PresenceChange] else []) @
                     (if isNew then spread_offline E payload ch remotePeer f2 else []) @ replies ch (offline_ack user)))"

definition handleGossipDiscovery :: "fed_env \<Rightarrow> int \<Rightarrow> (nat \<Rightarrow> nat) \<Rightarrow> json \<Rightarrow> nat option \<Rightarrow> act" where
  "handleGossipDiscovery E now rnd payload ch f =
     (let f1 = learn_gossip E now payload f
      in (f1, replies ch (JObj [(''type'', JStr ''GOSSIP_RESPONSE''), (''selfNode'', gossip_self E f1),
            (''peers'', strings (getRandomSample rnd 5 (f_peers f1)))])))"

section \<open>Dispatch\<close>

text \<open>
  What a handler draws or awaits: the id of a message without one, random bytes, the sampling order and
  the answers of the next hop of a circuit. \<open>ONION_CELL\<close> calls a method the router does not have: the
  handler raises. (Cells that come over a channel never reach it, the channel has its own event for them.)
\<close>

record packet_env =
  pk_freshId :: string
  pk_random :: "byte list"
  pk_order :: "nat \<Rightarrow> nat"
  pk_answers :: "json list option"

definition handleIncoming :: "fed_env \<Rightarrow> int \<Rightarrow> packet_env \<Rightarrow> json \<Rightarrow> nat option \<Rightarrow> string option \<Rightarrow> act" where
  "handleIncoming E now pk payload ch remotePeer f =
     (if \<not> truthy_field payload ''type'' \<or> str_field payload ''status'' = Some ''ack'' then (f, [])
      else case str_field payload ''type'' of
        None \<Rightarrow> (f, [])
      | Some ty \<Rightarrow>
          if ty = ''DIALBACK_REQUEST'' then handleDialbackRequest E now payload ch f
          else if ty = ''DIALBACK_CONFIRM'' then handleDialbackConfirm E now payload f
          else if ty = ''ONION_CELL'' then (f, [])
          else if ty = ''RENDEZVOUS_BIND'' then handleRendezvousBind E now payload ch f
          else if ty = ''CIRCUIT_CREATE'' \<or> ty = ''CIRCUIT_EXTEND''
          then handleCircuitSetup E now (pk_random pk) payload ch (pk_answers pk) f
          else if ty = ''PRESENCE_ANNOUNCE'' then handlePresenceAnnounce E now payload ch remotePeer f
          else if ty = ''ROUTE_UPDATE'' then handleRouteUpdate E now payload ch remotePeer f
          else if ty = ''DIRECT_MESSAGE'' \<or> ty = ''CHANNEL_MESSAGE''
          then handleDirectOrChannelMessage E now (pk_freshId pk) payload ch remotePeer f
          else if ty = ''CHANNEL_SUBSCRIBE'' then handleChannelSubscribe E now payload ch f
          else if ty = ''CHANNEL_UNSUBSCRIBE'' then handleChannelUnsubscribe E payload ch f
          else if ty = ''TYPING'' then handleTyping E now payload f
          else if ty = ''USER_OFFLINE'' then handleUserOffline E payload ch remotePeer f
          else if ty = ''GOSSIP_DISCOVERY'' then handleGossipDiscovery E now (pk_order pk) payload ch f
          else (f, []))"

section \<open>Forwarding ends\<close>

text \<open>The payload an effect carries to another node.\<close>

fun carried :: "fed_effect \<Rightarrow> json option" where
  "carried (Write c p) = Some p"
| "carried (SendPacket h q p b) = Some p"
| "carried (ConnectWrite h q p cs b) = Some p"
| "carried (OnionSend n p) = Some p"
| "carried _ = None"

definition hop_of :: "json \<Rightarrow> int" where
  "hop_of p = num_or p ''hop'' 0"

definition ttl_of :: "json \<Rightarrow> int" where
  "ttl_of p = num_or p ''ttl'' 5"

lemma field_with [simp]: "field (with_field k v j) k' = (if k' = k then Some v else field j k')"
  by (cases j) (auto simp: update_conv')

lemma channel_hops: "hop_of (channel_message m hop ttl) = hop" "ttl_of (channel_message m hop ttl) = (if ttl = 0 then 5 else ttl)"
  by (simp_all add: hop_of_def ttl_of_def num_or_def channel_message_def)

lemma carried_map: "e \<in> set (map (\<lambda>c. Write c p) cs) \<Longrightarrow> carried e = Some p"
  "e \<in> set (map (\<lambda>(h, q). SendPacket h q p b) ts) \<Longrightarrow> carried e = Some p"
  "e \<in> set (map (\<lambda>(a, c). Write c p) rs) \<Longrightarrow> carried e = Some p"
  by auto

lemma carried_broadcast: "e \<in> set (snd (broadcastChannelMessage m hop ttl except f)) \<Longrightarrow> carried e = Some (channel_message m hop ttl)"
  unfolding broadcastChannelMessage_def Let_def snd_conv set_append by (elim UnE) (rule carried_map, assumption)+

lemma carried_subscriber: "e \<in> set (to_subscriber p except peer) \<Longrightarrow> carried e = Some p"
  by (auto simp: to_subscriber_def split: if_splits option.splits)

lemma carried_subscribers: "e \<in> set (forwardToChannelSubscribers c m hop ttl except f) \<Longrightarrow> carried e = Some (channel_message m hop ttl)"
proof -
  assume "e \<in> set (forwardToChannelSubscribers c m hop ttl except f)"
  then consider "e \<in> set (concat (map (to_subscriber (channel_message m hop ttl) except) (case jm_get (f_subs f) c of None \<Rightarrow> [] | Some s \<Rightarrow> s)))"
    | cs where "e \<in> set (map (\<lambda>c. Write c (channel_message m hop ttl)) cs)"
    | rs where "e \<in> set (map (\<lambda>(a :: string, c). Write c (channel_message m hop ttl)) rs)"
    unfolding forwardToChannelSubscribers_def Let_def set_append by blast
  then show ?thesis
    by cases (auto dest: carried_subscriber)
qed

lemma carried_cross: "e \<in> set (cross_relay E ch r n p f) \<Longrightarrow> carried e = Some p"
  by (auto simp: cross_relay_def List.map_filter_def split: if_splits option.splits)

lemma carried_direct: "e \<in> set (forward_direct E p to ch r f) \<Longrightarrow> carried e = Some p"
  by (auto simp: forward_direct_def dest: carried_cross split: if_splits option.splits)

lemma forwarded_hop:
  assumes "e \<in> set (forward_message E payload m ch r f)" "carried e = Some p"
  shows "hop_of p = hop_of payload + 1 \<and> ttl_of p = ttl_of payload \<and> hop_of p < ttl_of p"
proof -
  let ?hop = "num_or payload ''hop'' 0 + 1" and ?ttl = "num_or payload ''ttl'' 5"
  have ttl: "?ttl \<noteq> 0" by (simp add: num_or_def split: option.split json.split)
  have less: "?hop < ?ttl" using assms(1) by (auto simp: forward_message_def Let_def split: if_splits)
  consider "e \<in> set (snd (broadcastChannelMessage m ?hop ?ttl r f))"
    | "e \<in> set (forwardToChannelSubscribers (m_to m) m ?hop ?ttl r f)"
    | "e \<in> set (forward_direct E (with_field ''ttl'' (JNum ?ttl) (with_field ''hop'' (JNum ?hop) payload)) (m_to m) ch r f)"
    using assms(1) unfolding forward_message_def Let_def by (auto split: if_splits)
  then have "p = channel_message m ?hop ?ttl \<or> p = with_field ''ttl'' (JNum ?ttl) (with_field ''hop'' (JNum ?hop) payload)"
    using assms(2) by cases (auto dest: carried_broadcast carried_subscribers carried_direct)
  then show ?thesis
    using ttl less by (auto simp: channel_hops) (auto simp: hop_of_def ttl_of_def num_or_def)
qed

lemma handled_hop:
  assumes "e \<in> set (snd (handleDirectOrChannelMessage E now freshId payload ch r f))" "carried e = Some p" "field p ''type'' \<noteq> None"
  shows "hop_of p = hop_of payload + 1 \<and> ttl_of p = ttl_of payload \<and> hop_of p < ttl_of p"
proof -
  have sender: "\<forall>e \<in> set (snd (learn_sender E now payload ch r g)). carried e = None" for g
    by (auto simp: learn_sender_def Let_def split: option.split)
  have reply: "field (status_reply s payload) ''type'' = None" for s
    by (cases "field payload ''id''") (simp_all add: status_reply_def obj_def List.map_filter_def)
  have "e \<notin> set (replies ch (status_reply s payload))" for s
    using assms(2,3) reply by (auto simp: replies_def split: option.splits)
  then have "\<exists>m g. e \<in> set (forward_message E payload m ch r g)"
    using assms(1,2) sender by (fastforce simp: handleDirectOrChannelMessage_def Let_def split_beta split: if_splits option.splits)
  then show ?thesis using forwarded_hop assms(2) by blast
qed


section \<open>What an announcement can change\<close>

lemma learn_address_frame:
  "f_presence (learn_address E now a f) = f_presence f" "f_tunnels (learn_address E now a f) = f_tunnels f"
  by (auto simp: learn_address_def split: option.split)

lemma fold_keeps: "(\<And>x s. x \<in> set xs \<Longrightarrow> g (h x s) = g s) \<Longrightarrow> g (fold h xs s) = g s"
  by (induction xs arbitrary: s) auto

lemma learn_relays_frame: "f_presence (learn_relays E now role as f) = f_presence f"
  by (simp add: learn_relays_def fold_keeps [where g = f_presence] learn_address_frame)

lemma locate_frame: "f_presence (locate E n as f) = f_presence f"
  by (simp add: locate_def split: list.split)

lemma membership_keeps:
  assumes "jm_get (f_presence f) n = Some p"
  shows "jm_get (f_presence (learn_membership E now payload ch nodeId m f)) n = Some p"
  using assms
  by (auto simp: learn_membership_def Let_def jsmap_simps jm_has_def split: option.split)

lemma memberships_keep:
  assumes "jm_get (f_presence f) n = Some p"
  shows "jm_get (f_presence (fold (learn_membership E now payload ch nodeId) ms f)) n = Some p"
  using assms by (induction ms arbitrary: f) (simp_all add: membership_keeps)

definition announced_record :: "json \<Rightarrow> int \<Rightarrow> string \<Rightarrow> string \<Rightarrow> string list \<Rightarrow> presence" where
  "announced_record payload now kem ident safe =
     \<lparr>ps_role = announced_role payload, ps_rendezvous = safe, ps_kem = Some kem, ps_ident = Some ident,
      ps_channels = string_list (field payload ''channels''), ps_lastSeen = now\<rparr>"

lemma learn_announce_presence:
  assumes "jm_get (jm_set nodeId (announced_record payload now kem ident safe) (f_presence f)) n = Some p"
  shows "jm_get (f_presence (learn_announce E now payload ch nodeId kem ident safe f)) n = Some p"
proof -
  have "f_presence (register_edge ch role g) = f_presence g" for role g by (simp add: register_edge_def)
  then show ?thesis
    using assms
    by (simp add: learn_announce_def Let_def memberships_keep learn_relays_frame locate_frame open_channels_def announced_record_def)
qed

lemma bilateral_presence: "f_presence (fst (bilateral_reply E now payload ch isNew f)) = f_presence f"
  by (simp add: bilateral_reply_def createPresenceAnnouncePayload_def touch_tunnel_users_def Let_def split: option.split)

lemma announce_presence:
  assumes "verified_announce E now payload = Some (nodeId, kem, ident, safe)"
    "jm_get (jm_set nodeId (announced_record payload now kem ident safe) (f_presence f)) n = Some p"
  shows "jm_get (f_presence (fst (handlePresenceAnnounce E now payload ch r f))) n = Some p"
  using learn_announce_presence [OF assms(2), of E ch] assms(1)
  by (simp add: handlePresenceAnnounce_def Let_def split_beta bilateral_presence)

lemma verified_announceD:
  assumes "verified_announce E now payload = Some (nodeId, kem, ident, safe)"
  shows "str_field payload ''nodeId'' = Some nodeId \<and> nodeId \<noteq> fe_nodeId E \<and> node_id_of (fe_crypto E) ident = Some nodeId \<and>
    verify (fe_crypto E) (stringify (announce_signed payload nodeId kem)) (str_field payload ''sig'') (Some ident) \<and>
    \<not> skewed now (field payload ''timestamp'') max_skew"
  using assms
  by (auto simp: verified_announce_def or_else_def split: option.splits if_splits)


section \<open>From one node to another\<close>

lemma created_fields:
  "fst (createPresenceAnnouncePayload E now f) =
     JObj [(''type'', JStr ''PRESENCE_ANNOUNCE''), (''nodeId'', JStr (fe_nodeId E)), (''role'', JStr (f_role f)),
        (''rendezvousNodes'', strings (announced_addresses E f)), (''kemPublicKey'', JStr (fe_kemPub E)),
        (''identityPublicKey'', JStr (fe_identityPub E)), (''channels'', strings (getLocalChannels E)),
        (''memberships'', JArr (map snd (announced_memberships E f))), (''timestamp'', JNum now),
        (''sig'', JStr (sign (fe_crypto E)
           (stringify (presence_signed (fe_nodeId E) (Some (JStr (f_role f))) (strings (announced_addresses E f)) (fe_kemPub E)
              (strings (getLocalChannels E)) (Some (JNum now)))) (fe_identityPriv E)))]"
  by (simp add: createPresenceAnnouncePayload_def Let_def)

lemma string_list_strings [simp]: "string_list (Some (strings xs)) = xs"
  by (induction xs) (simp_all add: string_list_def strings_def List.map_filter_def)

lemma truthy_strings [simp]: "json_truthy (strings xs)"
  by (simp add: strings_def)

lemma created_signed:
  "announce_signed (fst (createPresenceAnnouncePayload E now f)) (fe_nodeId E) (fe_kemPub E) =
   presence_signed (fe_nodeId E) (Some (JStr (f_role f))) (strings (announced_addresses E f)) (fe_kemPub E)
     (strings (getLocalChannels E)) (Some (JNum now))"
  by (simp add: announce_signed_def created_fields field_or_def truthy_field_def)

lemma created_verified:
  assumes "sign_ok (fe_crypto A) (fe_identityPub A) (fe_identityPriv A)"
    "node_id_of (fe_crypto A) (fe_identityPub A) = Some (fe_nodeId A)" "fe_crypto B = fe_crypto A"
    "fe_nodeId A \<noteq> []" "fe_nodeId A \<noteq> fe_nodeId B" "fe_identityPub A \<noteq> []" "fe_kemPub A \<noteq> []"
    "\<forall>m. ed_sign (fe_crypto A) m (fe_identityPriv A) \<noteq> []" "\<bar>now - sent\<bar> \<le> 86400000"
  shows "verified_announce B now (fst (createPresenceAnnouncePayload A sent f)) =
    Some (fe_nodeId A, fe_kemPub A, fe_identityPub A, safe_addresses B (announced_addresses A f))"
proof -
  let ?p = "fst (createPresenceAnnouncePayload A sent f)"
  have "b64_encode bs \<noteq> []" if "bs \<noteq> []" for bs
    using that length_b64 [of bs] by (cases bs) auto
  then have sig: "sign (fe_crypto A) m (fe_identityPriv A) \<noteq> []" for m
    using assms(8) by (simp add: sign_def)
  have "verify (fe_crypto A) (stringify (announce_signed ?p (fe_nodeId A) (fe_kemPub A))) (str_field ?p ''sig'') (Some (fe_identityPub A))"
    unfolding created_signed by (simp add: created_fields str_field_def verify_sign [OF assms(1)] del: stringify.simps)
  moreover have "rendezvous_field ?p = Some (announced_addresses A f)"
    using string_list_strings [of "announced_addresses A f", unfolded strings_def]
    by (simp add: rendezvous_field_def field_or_def truthy_field_def created_fields) (simp add: strings_def)
  moreover have "str_field ?p ''nodeId'' = Some (fe_nodeId A)" "str_field ?p ''kemPublicKey'' = Some (fe_kemPub A)"
    "str_field ?p ''identityPublicKey'' = Some (fe_identityPub A)" "truthy_field ?p ''sig''" "field ?p ''timestamp'' = Some (JNum sent)"
    using sig by (simp_all add: created_fields str_field_def truthy_field_def)
  ultimately show ?thesis
    using assms by (simp add: verified_announce_def or_else_def truthy_def skewed_def max_skew_def)
qed

text \<open>
  The two halves of an announcement fit: what a node announces is accepted by every other node whose clock
  is within a day, which then knows the announcer under its role, keys, channels and usable addresses, and
  acknowledges it.
\<close>

theorem announcement_arrives:
  assumes "sign_ok (fe_crypto A) (fe_identityPub A) (fe_identityPriv A)"
    "node_id_of (fe_crypto A) (fe_identityPub A) = Some (fe_nodeId A)" "fe_crypto B = fe_crypto A"
    "fe_nodeId A \<noteq> []" "fe_nodeId A \<noteq> fe_nodeId B" "fe_identityPub A \<noteq> []" "fe_kemPub A \<noteq> []" "f_role f \<noteq> []"
    "\<forall>m. ed_sign (fe_crypto A) m (fe_identityPriv A) \<noteq> []" "\<bar>now - sent\<bar> \<le> 86400000"
  shows "\<exists>g' es. handlePresenceAnnounce B now (fst (createPresenceAnnouncePayload A sent f)) (Some c) r g = (g', es) \<and>
    Write c (announce_ack B) \<in> set es \<and>
    jm_get (f_presence g') (fe_nodeId A) = Some \<lparr>ps_role = f_role f, ps_rendezvous = safe_addresses B (announced_addresses A f),
      ps_kem = Some (fe_kemPub A), ps_ident = Some (fe_identityPub A), ps_channels = getLocalChannels A, ps_lastSeen = now\<rparr>"
proof -
  let ?p = "fst (createPresenceAnnouncePayload A sent f)"
  note v = created_verified [OF assms(1-7,9,10), where f = f]
  obtain g' es where out: "handlePresenceAnnounce B now ?p (Some c) r g = (g', es)" by fastforce
  have "Write c (announce_ack B) \<in> set (snd (handlePresenceAnnounce B now ?p (Some c) r g))"
    by (simp add: handlePresenceAnnounce_def v Let_def split_beta replies_def)
  moreover have "announced_record ?p now (fe_kemPub A) (fe_identityPub A) safe =
      \<lparr>ps_role = f_role f, ps_rendezvous = safe, ps_kem = Some (fe_kemPub A), ps_ident = Some (fe_identityPub A),
       ps_channels = getLocalChannels A, ps_lastSeen = now\<rparr>" for safe
    using assms(8) by (simp add: announced_record_def announced_role_def created_fields str_field_def or_else_def truthy_def)
  ultimately show ?thesis
    using announce_presence [OF v, of g "fe_nodeId A" _ "Some c" r] out by (simp add: jsmap_simps)
qed

section \<open>Concrete runs\<close>

lemma edge_id_other: "edge_id \<noteq> ''n''"
  unfolding edge_id_def by code_simp

lemma clear_signs: "ed_sign clear_crypto m ''i'' \<noteq> []"
  using utf8_ne [of "''i''"] by (simp add: clear_crypto_def)

definition edge_announce :: json where
  "edge_announce = fst (createPresenceAnnouncePayload edge_node 900 ((sample_fed edge_node)\<lparr>f_role := ''EDGE''\<rparr>))"

lemma edge_announce_verified:
  "\<exists>safe. verified_announce sample_node 1000 edge_announce = Some (edge_id, ''k'', ''i'', safe)"
  using created_verified [of edge_node sample_node 1000 900 "(sample_fed edge_node)\<lparr>f_role := ''EDGE''\<rparr>"]
    clear_sign edge_id_key edge_id_text edge_id_other clear_signs
  by (simp add: edge_announce_def)


theorem announcement_arrives_witness:
  "\<exists>g' es. handlePresenceAnnounce sample_node 1000 edge_announce (Some 2) None (sample_fed sample_node) = (g', es) \<and>
    Write 2 (announce_ack sample_node) \<in> set es \<and> (\<exists>p. jm_get (f_presence g') edge_id = Some p \<and> ps_role p = ''EDGE'')"
  using announcement_arrives [of edge_node sample_node "(sample_fed edge_node)\<lparr>f_role := ''EDGE''\<rparr>" 1000 900 2 None "sample_fed sample_node"]
    clear_sign edge_id_key edge_id_text edge_id_other clear_signs
  by (auto simp: edge_announce_def)

end
