(* ===== verification/Federation.thy ===== *)
theory Federation
  imports PacketHandler
begin

text \<open>
  The rest of \<open>src/core/federation.js\<close>: the pool of secure channels, sending over onion routes, the outbox,
  the messages of this node's own users, and messages delivered to it. What the code awaits is an argument.
\<close>

section \<open>Where a connection goes\<close>

definition first_nonempty :: "string option list \<Rightarrow> string option" where
  "first_nonempty xs = (case filter truthy xs of [] \<Rightarrow> None | x # _ \<Rightarrow> x)"

definition head_of :: "string list \<Rightarrow> string option" where
  "head_of xs = (case xs of [] \<Rightarrow> None | x # _ \<Rightarrow> Some x)"

text \<open>The physical address of a node: where it was seen, else its first rendezvous address.\<close>

definition node_address :: "fed \<Rightarrow> string \<Rightarrow> string option" where
  "node_address f nid =
     first_nonempty [jm_get (f_phys f) nid, Option.bind (jm_get (f_presence f) nid) (\<lambda>p. head_of (ps_rendezvous p)),
       Option.bind (getRoute nid (f_db f)) (\<lambda>r. head_of (r_rendezvousNodes r))]"

definition host_target :: "fed_env \<Rightarrow> string \<Rightarrow> (string \<times> int) option" where
  "host_target E s =
     (case parseTarget (fe_cfg E) s of Some (HostTarget h p v6 w) \<Rightarrow> if h = [] then None else Some (h, p) | _ \<Rightarrow> None)"

definition port_or :: "fed_env \<Rightarrow> int \<Rightarrow> int option \<Rightarrow> int option" where
  "port_or E p port =
     (if p \<noteq> 0 then Some p else case port of Some q \<Rightarrow> if q \<noteq> 0 then Some q else Some (federationPort (fe_cfg E))
      | None \<Rightarrow> Some (federationPort (fe_cfg E)))"

text \<open>\<open>None\<close> when the promise is rejected; a port that is not a number is \<open>None\<close>.\<close>

definition resolve :: "fed_env \<Rightarrow> fed \<Rightarrow> string \<Rightarrow> int option \<Rightarrow> (string \<times> int) option" where
  "resolve E f host port =
     (let valid = (\<lambda>h q. case q of Some p \<Rightarrow> if h = [] \<or> p = 0 then None else Some (h, p) | None \<Rightarrow> None)
      in if host = [] \<or> host = ''null'' then None
         else if ends_with ''.mesh'' host \<or> isValidNodeId host
         then (case node_address f (js_lower (remove_first ''.mesh'' host)) of
                 None \<Rightarrow> None
               | Some a \<Rightarrow>
                   (case host_target E a of
                      Some (h, p) \<Rightarrow> valid h (port_or E p port)
                    | None \<Rightarrow> valid (addr_host a) (if second_part CHR '':'' a \<in> {None, Some []} then port else addr_port a)))
         else if CHR '':'' \<in> set host
         then (case host_target E host of Some (h, p) \<Rightarrow> valid h (port_or E p port) | None \<Rightarrow> valid host port)
         else valid host port)"

section \<open>The pool\<close>

definition max_pool :: nat where
  "max_pool = 500"

datatype connection = Reuse nat | Await nat | Opened nat | Refused

definition usable :: "link \<Rightarrow> bool" where
  "usable l = (case l_socket l of None \<Rightarrow> False | Some s \<Rightarrow> \<not> sv_destroyed s \<and> sv_writable s)"

definition evict_pool :: "string \<Rightarrow> act" where
  "evict_pool key f =
     (case f_pool f of
        (k, c) # _ \<Rightarrow>
          if length (f_pool f) \<ge> max_pool \<and> \<not> jm_has (f_pool f) key
          then (removeCircuitsForHop k (f\<lparr>f_pool := jm_delete k (f_pool f)\<rparr>), [DestroySocket c]) else (f, [])
      | [] \<Rightarrow> (f, []))"

text \<open>A new channel gets the number and the link the environment gives it.\<close>

definition getOrCreateSecureChannel ::
  "fed_env \<Rightarrow> nat \<Rightarrow> link \<Rightarrow> string \<Rightarrow> int option \<Rightarrow> fed \<Rightarrow> connection \<times> fed \<times> fed_effect list" where
  "getOrCreateSecureChannel E c l host port f =
     (case resolve E f host port of
        None \<Rightarrow> (Refused, f, [])
      | Some (h, p) \<Rightarrow>
          let key = host_port h p;
              fresh = (let (f1, es) = evict_pool key f
                       in (Opened c, f1\<lparr>f_pool := jm_set key c (f_pool f1), f_link := (f_link f1)(c := l)\<rparr>, es @ [Dial h p]))
          in case jm_get (f_pool f) key of
               Some old \<Rightarrow>
                 if usable (f_link f old) then (if l_ready (f_link f old) then Reuse old else Await old, f, []) else fresh
             | None \<Rightarrow> fresh)"

text \<open>A pooled channel is ready, or gone.\<close>

definition channel_ready :: "fed_env \<Rightarrow> int \<Rightarrow> string \<Rightarrow> fed \<Rightarrow> fed" where
  "channel_ready E now key f = f\<lparr>f_peers := addOrUpdate (fe_penv E) now key True False (f_peers f)\<rparr>"

definition channel_gone :: "string \<Rightarrow> fed \<Rightarrow> fed" where
  "channel_gone key f = removeCircuitsForHop key (f\<lparr>f_pool := jm_delete key (f_pool f)\<rparr>)"

section \<open>Relays an onion route may use\<close>

definition add_hop :: "fed_env \<Rightarrow> string \<Rightarrow> string \<Rightarrow> string \<Rightarrow> hop list \<Rightarrow> hop list" where
  "add_hop E nodeId address kem pool =
     (if address = [] \<or> kem = [] \<or> nodeId = fe_nodeId E \<or> address \<in> h_address ` set pool then pool
      else pool @ [\<lparr>h_nodeId = nodeId, h_address = address, h_kem = kem\<rparr>])"

record node_info =
  ni_node :: string
  ni_role :: string
  ni_nodes :: "string list"
  ni_kem :: string

definition known_routes :: "fed \<Rightarrow> node_info list" where
  "known_routes f =
     map (\<lambda>(n, r). \<lparr>ni_node = n, ni_role = r_role r, ni_nodes = r_rendezvousNodes r, ni_kem = r_kemPublicKey r\<rparr>) (getAllRoutes (f_db f)) @
     map (\<lambda>(n, p). \<lparr>ni_node = n, ni_role = ps_role p, ni_nodes = ps_rendezvous p, ni_kem = or_empty (ps_kem p)\<rparr>) (f_presence f)"

definition at_address :: "fed \<Rightarrow> string \<Rightarrow> node_info \<Rightarrow> bool" where
  "at_address f a n = (a \<in> set (ni_nodes n) \<or> jm_get (f_phys f) (ni_node n) = Some a)"

text \<open>The relays this node is bound to, with the keys their channels have.\<close>

definition bound_hops :: "fed_env \<Rightarrow> fed \<Rightarrow> hop list" where
  "bound_hops E f =
     List.map_filter (\<lambda>(a, c).
        case (l_peerKem (f_link f c), Option.bind (or_else (l_peerKey (f_link f c)) None) (node_id_of (fe_crypto E))) of
          (Some kem, Some n) \<Rightarrow> if kem = [] then None else Some \<lparr>h_nodeId = n, h_address = a, h_kem = kem\<rparr>
        | _ \<Rightarrow> None) (f_relays f)"

definition relay_pool :: "fed_env \<Rightarrow> fed \<Rightarrow> hop list" where
  "relay_pool E f =
     (let add_node = (\<lambda>n pool. if transit_role (Some (ni_role n)) \<and> ni_node n \<noteq> fe_nodeId E
                        then fold (\<lambda>a. add_hop E (ni_node n) a (ni_kem n)) (ni_nodes n @ phys_of f (ni_node n)) pool else pool);
          p1 = fold add_node (known_routes f) [];
          p2 = fold (\<lambda>h. add_hop E (h_nodeId h) (h_address h) (h_kem h)) (bound_hops E f) p1
      in fold (\<lambda>a pool. if a \<in> h_address ` set pool then pool
                         else case find (at_address f a) (known_routes f) of
                           None \<Rightarrow> pool
                         | Some n \<Rightarrow> if transit_role (Some (ni_role n)) then add_hop E (ni_node n) a (ni_kem n) pool else pool)
           (getAllPeers (f_peers f)) p2)"

definition own_addresses :: "fed_env \<Rightarrow> fed \<Rightarrow> string list" where
  "own_addresses E f =
     [f_nodeAddress f, fe_meshAddress E, getRelayAnnounceAddress E f,
      host_port (serverName (fe_cfg E)) (federationPort (fe_cfg E)), host_port (serverName (fe_cfg E)) (pub_port (fe_cfg E))]"

text \<open>The address of the relay the target hangs on.\<close>

definition exit_address :: "fed_env \<Rightarrow> fed \<Rightarrow> string \<Rightarrow> string option" where
  "exit_address E f target =
     (let nodes = (case known_node target f of None \<Rightarrow> [] | Some p \<Rightarrow> ps_rendezvous p);
          nonSelf = find (\<lambda>a. a \<notin> set (own_addresses E f)) nodes
      in or_else (or_else nonSelf (head_of nodes)) (or_else (jm_get (f_phys f) target) None))"

definition exit_hop :: "fed_env \<Rightarrow> fed \<Rightarrow> string \<Rightarrow> string \<Rightarrow> hop option" where
  "exit_hop E f target exit =
     (case find (\<lambda>h. h_address h = exit) (relay_pool E f) of
        Some h \<Rightarrow> Some h
      | None \<Rightarrow>
          (case find (\<lambda>h. str_includes (h_address h) exit \<or> str_includes exit (h_address h)) (bound_hops E f) of
             Some h \<Rightarrow> Some (h\<lparr>h_address := exit\<rparr>)
           | None \<Rightarrow>
               let match = find (\<lambda>n. transit_role (Some (ni_role n)) \<and>
                              (at_address f exit n \<or> (ni_node n \<noteq> [] \<and> str_includes (ni_node n) exit))) (known_routes f);
                   via = (case match of Some n \<Rightarrow> if ni_kem n = [] then None
                                                  else Some \<lparr>h_nodeId = ni_node n, h_address = exit, h_kem = ni_kem n\<rparr>
                          | None \<Rightarrow> None)
               in case via of
                    Some h \<Rightarrow> Some h
                  | None \<Rightarrow>
                      (case or_else (Option.bind (known_node target f) ps_kem) None of
                         Some kem \<Rightarrow> Some \<lparr>h_nodeId = target, h_address = exit, h_kem = kem\<rparr>
                       | None \<Rightarrow> None)))"

text \<open>At most two relays on the way, then the exit.\<close>

definition onion_hops :: "fed_env \<Rightarrow> fed \<Rightarrow> hop \<Rightarrow> hop list" where
  "onion_hops E f exit = take 2 (filter (\<lambda>h. h_address h \<noteq> h_address exit) (relay_pool E f)) @ [exit]"

section \<open>Sending over onion routes\<close>

text \<open>What an attempt at a circuit draws and awaits, and the channel the cell goes out on.\<close>

record circuit_draw =
  cd_id :: string
  cd_seeds :: "nat \<Rightarrow> byte list"
  cd_ivs :: "nat \<Rightarrow> byte list"
  cd_answers :: "json list option"

record onion_env =
  oe_first :: circuit_draw
  oe_second :: circuit_draw
  oe_cellIvs :: "nat \<Rightarrow> byte list"
  oe_channel :: "nat option"

datatype send_result = Delivered | Queued | Ignored | Broadcasted | Answered json

text \<open>A payload goes to the outbox; one that is no message makes the insertion fail.\<close>

definition queue_payload :: "fed_env \<Rightarrow> int \<Rightarrow> json \<Rightarrow> fed \<Rightarrow> (send_result result) \<times> fed" where
  "queue_payload E now payload f =
     (case message_of E now [] payload of
        None \<Rightarrow> (Throw ''SQLITE_CONSTRAINT'', f)
      | Some m \<Rightarrow> (Ok Queued, f\<lparr>f_db := queueOutbox now m None (f_db f)\<rparr>))"

definition direct_tunnel :: "fed \<Rightarrow> string \<Rightarrow> nat option" where
  "direct_tunnel f n =
     (case jm_get (f_tunnels f) n of
        Some t \<Rightarrow> if socket_writable (f_link f (tn_chan t)) then Some (tn_chan t) else None
      | None \<Rightarrow> None)"

text \<open>A bound relay is the target itself.\<close>

definition is_direct_relay :: "fed_env \<Rightarrow> fed \<Rightarrow> string \<Rightarrow> string \<times> nat \<Rightarrow> bool" where
  "is_direct_relay E f n r =
     (case r of (a, c) \<Rightarrow>
        Option.bind (or_else (l_peerKey (f_link f c)) None) (node_id_of (fe_crypto E)) = Some n \<or> jm_get (f_phys f) n = Some a)"

definition writable_relay :: "fed \<Rightarrow> string \<times> nat \<Rightarrow> bool" where
  "writable_relay f r = not_unwritable (f_link f (snd r))"

definition direct_relay :: "fed_env \<Rightarrow> fed \<Rightarrow> string \<Rightarrow> nat option" where
  "direct_relay E f n = map_option snd (find (\<lambda>r. writable_relay f r \<and> is_direct_relay E f n r) (f_relays f))"

text \<open>A guard that did not answer loses its pooled channel.\<close>

definition drop_guard :: "fed_env \<Rightarrow> string \<Rightarrow> act" where
  "drop_guard E guard f =
     (let other = (case host_target E guard of
                     Some (h, p) \<Rightarrow> host_port h p
                   | None \<Rightarrow> addr_host guard @ '':'' @ (case second_part CHR '':'' guard of None \<Rightarrow> ''undefined'' | Some p \<Rightarrow> p));
          here = jm_get (f_pool f) guard;
          tryOther = (here = None \<and> CHR '':'' \<in> set guard);
          dead = (if tryOther then jm_get (f_pool f) other else here);
          f1 = (if tryOther then f\<lparr>f_pool := jm_delete other (f_pool f)\<rparr> else f)
      in (f1\<lparr>f_pool := jm_delete guard (f_pool f1)\<rparr>, case dead of Some c \<Rightarrow> [DestroySocket c] | None \<Rightarrow> []))"

definition build_with :: "fed_env \<Rightarrow> circuit_draw \<Rightarrow> int \<Rightarrow> hop list \<Rightarrow> string \<Rightarrow> fed \<Rightarrow> circuit result \<times> fed \<times> fed_effect list" where
  "build_with E d now hops target f =
     buildCircuit E (cd_seeds d) (cd_ivs d) (cd_id d) now hops (Some target) (cd_answers d) f"

definition build_twice :: "fed_env \<Rightarrow> onion_env \<Rightarrow> int \<Rightarrow> hop list \<Rightarrow> string \<Rightarrow> fed \<Rightarrow> circuit result \<times> fed \<times> fed_effect list" where
  "build_twice E oe now hops target f =
     (case build_with E (oe_first oe) now hops target f of
        (Ok c, f1, e1) \<Rightarrow> (Ok c, f1, e1)
      | (Throw _, f1, e1) \<Rightarrow>
          let (f2, e2) = drop_guard E (h_address (hd hops)) f1;
              (r, f3, e3) = build_with E (oe_second oe) now hops target f2
          in (r, f3, e1 @ e2 @ e3))"

text \<open>The circuit to the target, if it still ends at the same exit; else a new one.\<close>

definition obtain_circuit :: "fed_env \<Rightarrow> onion_env \<Rightarrow> int \<Rightarrow> string \<Rightarrow> hop \<Rightarrow> fed \<Rightarrow> circuit result \<times> fed \<times> fed_effect list" where
  "obtain_circuit E oe now target exit f =
     (case getActiveCircuitForTarget E now target f of
        (Some c, f1) \<Rightarrow>
          if ci_hops c \<noteq> [] \<and> h_address (last (ci_hops c)) = h_address exit then (Ok c, f1, [])
          else build_twice E oe now (onion_hops E f exit) target (removeClientCircuit (ci_id c) f1)
      | (None, f1) \<Rightarrow> build_twice E oe now (onion_hops E f exit) target f1)"

definition send_over :: "fed_env \<Rightarrow> onion_env \<Rightarrow> string \<Rightarrow> json \<Rightarrow> circuit result \<times> fed \<times> fed_effect list
    \<Rightarrow> send_result result \<times> fed \<times> fed_effect list" where
  "send_over E oe target payload built =
     (case built of
        (Throw e, f, es) \<Rightarrow> (Throw e, f, es)
      | (Ok c, f, es) \<Rightarrow>
          (case sendOnionCell E (oe_cellIvs oe) c target payload (oe_channel oe) of
             (Ok res, e2) \<Rightarrow> (Ok (Answered res), f, es @ e2)
           | (Throw e, e2) \<Rightarrow> (Throw e, removeClientCircuit (ci_id c) f, es @ e2)))"

definition sendViaOnion ::
  "fed_env \<Rightarrow> onion_env \<Rightarrow> int \<Rightarrow> string \<Rightarrow> json \<Rightarrow> bool \<Rightarrow> fed \<Rightarrow> send_result result \<times> fed \<times> fed_effect list" where
  "sendViaOnion E oe now target payload fromOutbox f =
     (let queue = (\<lambda>f. let (r, f') = queue_payload E now payload f in (r, f', []))
      in if target = [] then queue f
         else case (direct_tunnel f target, direct_relay E f target) of
           (Some c, _) \<Rightarrow> (Ok Delivered, f, [Write c payload])
         | (None, Some c) \<Rightarrow> (Ok Delivered, f, [Write c payload])
         | (None, None) \<Rightarrow>
             (case exit_address E f target of
                None \<Rightarrow> if fromOutbox then (Throw ''FED_TARGET_NO_RDV_ERR'', f, []) else queue f
              | Some exit \<Rightarrow>
                  (case exit_hop E f target exit of
                     None \<Rightarrow> queue f
                   | Some hop \<Rightarrow> send_over E oe target payload (obtain_circuit E oe now target hop f))))"

section \<open>The outbox\<close>

definition message_type :: "parsed_address \<Rightarrow> string" where
  "message_type t = (if pa_type t = CHANNEL then ''CHANNEL_MESSAGE'' else ''DIRECT_MESSAGE'')"

definition outbox_packet :: "parsed_address \<Rightarrow> outbox_row \<Rightarrow> json" where
  "outbox_packet t r =
     JObj [(''type'', JStr (message_type t)), (''id'', JStr (o_id r)), (''from'', JStr (o_from r)), (''to'', JStr (o_to r)),
       (''content'', JStr (o_content r)), (''isAction'', JBool (o_isAction r)), (''isSnippet'', JBool (o_isSnippet r)),
       (''isE2EE'', JBool (o_isE2EE r)), (''timestamp'', JStr (o_timestamp r))]"

definition retry_item :: "fed_env \<Rightarrow> int \<Rightarrow> string \<Rightarrow> fed \<Rightarrow> fed" where
  "retry_item E now i f =
     f\<lparr>f_db := snd (updateOutboxRetry (fe_clock E) now i (outbox_max (fe_cfg E)) (outbox_ttl (fe_cfg E)) (f_db f))\<rparr>"

definition remove_item :: "string \<Rightarrow> fed \<Rightarrow> fed" where
  "remove_item i f = f\<lparr>f_db := removeOutbox i (f_db f)\<rparr>"

text \<open>\<open>addOrUpdate(`host:port`, reached)\<close>.\<close>

definition rate_peer :: "fed_env \<Rightarrow> int \<Rightarrow> string \<Rightarrow> int \<Rightarrow> bool \<Rightarrow> fed \<Rightarrow> fed" where
  "rate_peer E now h p ok f = f\<lparr>f_peers := addOrUpdate (fe_penv E) now (host_port h p) ok False (f_peers f)\<rparr>"

text \<open>A plain packet is answered (a time-out counts as an answer), or no channel could be opened.\<close>

definition process_item :: "fed_env \<Rightarrow> int \<Rightarrow> (string \<Rightarrow> onion_env) \<Rightarrow> (string \<Rightarrow> json option) \<Rightarrow> outbox_row \<Rightarrow> act" where
  "process_item E now onions answers r f =
     (case parse_addr E (o_to r) of
        None \<Rightarrow> (remove_item (o_id r) f, [])
      | Some t \<Rightarrow>
          let payload = outbox_packet t r
          in (case or_else (pa_nodeId t) None of
             Some n \<Rightarrow>
               (case sendViaOnion E (onions (o_id r)) now n payload True f of
                  (Throw _, f1, es) \<Rightarrow> (retry_item E now (o_id r) f1, es)
                | (Ok Queued, f1, es) \<Rightarrow> (retry_item E now (o_id r) f1, es)
                | (Ok _, f1, es) \<Rightarrow> (remove_item (o_id r) f1, es))
           | None \<Rightarrow>
               (case (or_else (pa_host t) None, pa_port t) of
                  (Some h, Some p) \<Rightarrow>
                    if p = 0 then (remove_item (o_id r) f, [])
                    else (case answers (o_id r) of
                            Some _ \<Rightarrow> (rate_peer E now h p True (remove_item (o_id r) f), [Request h (Some p) payload])
                          | None \<Rightarrow> (rate_peer E now h p False (retry_item E now (o_id r) f), [Request h (Some p) payload]))
                | _ \<Rightarrow> (remove_item (o_id r) f, []))))"

text \<open>The database handle stays open as long as the engine runs.\<close>

definition processOutbox :: "fed_env \<Rightarrow> int \<Rightarrow> bool \<Rightarrow> (string \<Rightarrow> onion_env) \<Rightarrow> (string \<Rightarrow> json option) \<Rightarrow> act" where
  "processOutbox E now forceAll onions answers f =
     (if f_closed f then (f, [])
      else let (rows, d) = getPendingOutbox (fe_clock E) (fe_cfg E) now forceAll (f_db f)
      in in_order (map (process_item E now onions answers) rows) (f\<lparr>f_db := d\<rparr>))"

text \<open>The outbox worker: what one run of it does, and when it runs next.\<close>

definition scheduleOutbox ::
  "fed_env \<Rightarrow> int \<Rightarrow> bool \<Rightarrow> (string \<Rightarrow> onion_env) \<Rightarrow> (string \<Rightarrow> json option) \<Rightarrow> fed \<Rightarrow> (fed \<times> fed_effect list) \<times> int option" where
  "scheduleOutbox E now busy onions answers f =
     (if f_closed f then ((f, []), None)
      else if busy then ((f, []), Some 2000)
      else let r = processOutbox E now False onions answers f in (r, if f_closed (fst r) then None else Some 5000))"

section \<open>Messages of this node's users\<close>

definition remote_packet :: "parsed_address \<Rightarrow> message \<Rightarrow> json" where
  "remote_packet t m =
     JObj [(''type'', JStr (message_type t)), (''id'', JStr (m_id m)), (''from'', JStr (m_from m)), (''to'', JStr (m_to m)),
       (''content'', JStr (m_content m)), (''isAction'', JBool (m_isAction m)), (''isSnippet'', JBool (m_isSnippet m)),
       (''isE2EE'', JBool (m_isE2EE m)), (''hop'', JNum 0), (''ttl'', JNum 5), (''timestamp'', JStr (m_timestamp m))]"

text \<open>The bound relays a message goes out on: those of the target, else all, or the first for a relay.\<close>

definition dispatch_channels :: "fed_env \<Rightarrow> fed \<Rightarrow> string \<Rightarrow> nat list" where
  "dispatch_channels E f n =
     (let nodes = (case known_node n f of None \<Rightarrow> [] | Some p \<Rightarrow> ps_rendezvous p);
          open_relays = filter (writable_relay f) (f_relays f);
          of_target = filter (\<lambda>r. is_direct_relay E f n r \<or>
                        list_ex (\<lambda>rn. str_includes (fst r) rn \<or> str_includes rn (fst r)) nodes) open_relays
      in map snd (if of_target \<noteq> [] then of_target else if \<not> isRelay f then open_relays else take 1 open_relays))"

definition deliver_here :: "parsed_address \<Rightarrow> message \<Rightarrow> act" where
  "deliver_here t m f =
     (case saveMessage m (f_db f) of
        (None, d) \<Rightarrow> (f\<lparr>f_db := d\<rparr>, [])
      | (Some m', d) \<Rightarrow>
          let f1 = f\<lparr>f_db := d\<rparr>
          in (f1, Emitted (MessageEvent m') #
                (if pa_type t = CHANNEL then forwardToChannelSubscribers (pa_raw t) m' 0 5 None f1 else [])))"

definition send_to_node :: "fed_env \<Rightarrow> onion_env \<Rightarrow> int \<Rightarrow> string \<Rightarrow> json \<Rightarrow> fed \<Rightarrow> send_result result \<times> fed \<times> fed_effect list" where
  "send_to_node E oe now n payload f =
     (case dispatch_channels E f n of
        c # cs \<Rightarrow> (Ok Delivered, f, map (\<lambda>c. Write c payload) (c # cs))
      | [] \<Rightarrow>
          (case sendViaOnion E oe now n payload False f of
             (Ok r, f1, es) \<Rightarrow> (Ok r, f1, es)
           | (Throw _, f1, es) \<Rightarrow> let (r, f2) = queue_payload E now payload f1 in (r, f2, es)))"

definition sendRemoteMessage ::
  "fed_env \<Rightarrow> onion_env \<Rightarrow> json option \<Rightarrow> int \<Rightarrow> message \<Rightarrow> fed \<Rightarrow> send_result result \<times> fed \<times> fed_effect list" where
  "sendRemoteMessage E oe answer now m0 f =
     (case parse_addr E (m_to m0) of
        None \<Rightarrow> (Throw ''FED_INVALID_TARGET_ERR'', f, [])
      | Some t \<Rightarrow>
          let m = m0\<lparr>m_to := pa_raw t\<rparr>;
              payload = remote_packet t m;
              f1 = f\<lparr>f_seen := cache_add (m_id m) now (f_seen f)\<rparr>
          in if pa_isGlobalChannel t
             then let (f2, es) = broadcastChannelMessage m 0 5 None f1 in (Ok Broadcasted, f2, es)
             else case or_else (pa_nodeId t) None of
               Some n \<Rightarrow>
                 if n = fe_nodeId E then let (f2, es) = deliver_here t m f1 in (Ok Delivered, f2, es)
                 else send_to_node E oe now n payload f1
             | None \<Rightarrow>
                 (case (or_else (pa_host t) None, pa_port t) of
                    (Some h, Some p) \<Rightarrow>
                      if p = 0 then (Ok Ignored, f1, [])
                      else (case answer of
                              Some res \<Rightarrow> (Ok (Answered res), rate_peer E now h p True f1, [Request h (Some p) payload])
                            | None \<Rightarrow>
                                let (r, f2) = queue_payload E now payload f1
                                in (r, rate_peer E now h p False f2, [Request h (Some p) payload]))
                  | _ \<Rightarrow> (Ok Ignored, f1, [])))"

definition sendTyping :: "fed_env \<Rightarrow> string \<Rightarrow> string \<Rightarrow> act" where
  "sendTyping E from to f =
     (case parse_addr E to of
        None \<Rightarrow> (f, [])
      | Some t \<Rightarrow>
          (case (or_else (pa_host t) None, pa_port t) of
             (Some h, Some p) \<Rightarrow>
               if pa_isGlobalChannel t \<or> p = 0 then (f, [])
               else (f, [SendPacket h p (JObj [(''type'', JStr ''TYPING''), (''from'', JStr from), (''to'', JStr (pa_raw t))]) False])
           | _ \<Rightarrow> (f, [])))"

section \<open>Messages for this node\<close>

text \<open>A payload that came out of an onion route, with its type filled in.\<close>

definition typed_payload :: "json \<Rightarrow> json" where
  "typed_payload payload =
     (if truthy_field payload ''type'' then payload
      else case str_field payload ''to'' of
        Some to \<Rightarrow> if starts_with ''#'' to then with_field ''type'' (JStr ''CHANNEL_MESSAGE'') payload
                   else if starts_with ''@'' to then with_field ''type'' (JStr ''DIRECT_MESSAGE'') payload else payload
      | None \<Rightarrow> payload)"

definition handleLocalDeliveredMessage :: "fed_env \<Rightarrow> int \<Rightarrow> packet_env \<Rightarrow> json \<Rightarrow> act" where
  "handleLocalDeliveredMessage E now pk payload f =
     (if \<not> json_truthy payload then (f, []) else handleIncoming E now pk (typed_payload payload) None None f)"

section \<open>Closing\<close>

definition close :: act where
  "close f =
     (f\<lparr>f_nat := (f_nat f)\<lparr>nt_running := False, nt_pending := []\<rparr>, f_maintaining := False, f_closed := True, f_pool := []\<rparr>,
      map DestroySocket (jm_values (f_pool f)))"

section \<open>The shape of an onion route\<close>

text \<open>Hops with a key, at different addresses, none of them this node.\<close>

definition pool_fine :: "fed_env \<Rightarrow> hop list \<Rightarrow> bool" where
  "pool_fine E pool =
     (distinct (map h_address pool) \<and> (\<forall>h \<in> set pool. h_nodeId h \<noteq> fe_nodeId E \<and> h_kem h \<noteq> [] \<and> h_address h \<noteq> []))"

lemma fine_add: "pool_fine E pool \<Longrightarrow> pool_fine E (add_hop E n a k pool)"
  by (auto simp: pool_fine_def add_hop_def)

lemma fine_fold: "(\<And>x p. pool_fine E p \<Longrightarrow> pool_fine E (g x p)) \<Longrightarrow> pool_fine E p \<Longrightarrow> pool_fine E (fold g xs p)"
  by (induction xs arbitrary: p) auto

lemma fine_Nil: "pool_fine E []"
  by (simp add: pool_fine_def)

lemma fine_fold_hops: "pool_fine E p \<Longrightarrow> pool_fine E (fold (\<lambda>x. add_hop E (n x) (a x) (k x)) xs p)"
  by (rule fine_fold) (rule fine_add)

lemma pool_is_fine: "pool_fine E (relay_pool E f)"
proof -
  define add_node where "add_node n pool = (if transit_role (Some (ni_role n)) \<and> ni_node n \<noteq> fe_nodeId E
      then fold (\<lambda>a. add_hop E (ni_node n) a (ni_kem n)) (ni_nodes n @ phys_of f (ni_node n)) pool else pool)" for n :: node_info and pool
  define p1 where "p1 = fold add_node (known_routes f) []"
  define p2 where "p2 = fold (\<lambda>h. add_hop E (h_nodeId h) (h_address h) (h_kem h)) (bound_hops E f) p1"
  define add_peer where "add_peer a pool = (if a \<in> h_address ` set pool then pool
      else case find (at_address f a) (known_routes f) of None \<Rightarrow> pool
        | Some n \<Rightarrow> if transit_role (Some (ni_role n)) then add_hop E (ni_node n) a (ni_kem n) pool else pool)" for a pool
  have pool: "relay_pool E f = fold add_peer (getAllPeers (f_peers f)) p2"
    unfolding relay_pool_def Let_def p1_def p2_def add_node_def add_peer_def ..
  have "pool_fine E (add_node n p)" if "pool_fine E p" for n p
    unfolding add_node_def using that by (simp only: fine_fold_hops split: if_split) simp
  then have "pool_fine E p1" unfolding p1_def by (intro fine_fold fine_Nil)
  then have "pool_fine E p2" unfolding p2_def by (rule fine_fold_hops)
  moreover have "pool_fine E (add_peer a p)" if "pool_fine E p" for a p
    using that fine_add [OF that] by (simp add: add_peer_def split: option.split)
  ultimately show ?thesis unfolding pool by (intro fine_fold)
qed

lemma distinct_take_filter: "distinct (map g xs) \<Longrightarrow> distinct (map g (take n (filter P xs)))"
  by (simp add: take_map [symmetric] distinct_map_filter)

text \<open>
  C25. An onion route has at most three hops and ends at the exit; its hops are at different addresses, and the
  relays before the exit have a key and are not this node.
\<close>

theorem onion_route_shape:
  "length (onion_hops E f exit) \<le> 3 \<and> last (onion_hops E f exit) = exit \<and> distinct (map h_address (onion_hops E f exit)) \<and>
   list_all (\<lambda>h. h_nodeId h \<noteq> fe_nodeId E \<and> h_kem h \<noteq> [] \<and> h_address h \<noteq> []) (butlast (onion_hops E f exit))"
proof -
  define inner where "inner = take 2 (filter (\<lambda>h. h_address h \<noteq> h_address exit) (relay_pool E f))"
  have hops: "onion_hops E f exit = inner @ [exit]" by (simp add: onion_hops_def inner_def)
  have "distinct (map h_address inner)"
    unfolding inner_def using pool_is_fine [of E f] by (intro distinct_take_filter) (simp add: pool_fine_def)
  moreover have members: "h \<in> set (relay_pool E f) \<and> h_address h \<noteq> h_address exit" if "h \<in> set inner" for h
    using in_set_takeD [OF that [unfolded inner_def]] by simp
  then have "h_address exit \<notin> h_address ` set inner" by (metis imageE)
  moreover have "length inner \<le> 2" by (simp add: inner_def)
  moreover have "\<forall>h \<in> set (relay_pool E f). h_nodeId h \<noteq> fe_nodeId E \<and> h_kem h \<noteq> [] \<and> h_address h \<noteq> []"
    using pool_is_fine [of E f] by (simp add: pool_fine_def)
  ultimately show ?thesis unfolding hops using members by (simp add: list_all_iff)
qed

section \<open>No message is lost\<close>

definition carries :: "message \<Rightarrow> json \<Rightarrow> bool" where
  "carries m p =
     (str_field p ''id'' = Some (m_id m) \<and> str_field p ''from'' = Some (m_from m) \<and> str_field p ''content'' = Some (m_content m))"

definition queued_in :: "message \<Rightarrow> db \<Rightarrow> bool" where
  "queued_in m d = (\<exists>r \<in> set (outbox d). o_id r = m_id m \<and> o_from r = m_from m \<and> o_content r = m_content m \<and> o_retries r = 0)"

lemma packet_message:
  assumes "m_id m \<noteq> []"
  shows "message_of E now fresh (remote_packet t m) = Some (m\<lparr>m_deleted_by := []\<rparr>)"
  using assms by (cases m) (simp add: message_of_def remote_packet_def str_field_def truthy_field_def or_else_def truthy_def)

lemma queue_packet:
  assumes "m_id m \<noteq> []"
  shows "\<exists>f'. queue_payload E now (remote_packet t m) f = (Ok Queued, f') \<and> queued_in m (f_db f')"
  by (simp add: queue_payload_def packet_message [OF assms] queued_in_def queueOutbox_def Let_def)

lemma packet_carries: "carries m (remote_packet t m)"
  by (simp add: carries_def remote_packet_def str_field_def)

text \<open>What each outcome says has happened to the message.\<close>

definition outcome_true :: "message \<Rightarrow> send_result \<Rightarrow> fed \<Rightarrow> fed_effect list \<Rightarrow> bool" where
  "outcome_true m r f es =
     (case r of
        Queued \<Rightarrow> queued_in m (f_db f)
      | Delivered \<Rightarrow> (\<exists>c p. Write c p \<in> set es \<and> carries m p) \<or> m_id m \<in> m_id ` set (messages (f_db f))
      | Answered res \<Rightarrow> (\<exists>h q p. Request h q p \<in> set es \<and> carries m p) \<or> (\<exists>c p. Write c p \<in> set es)
      | _ \<Rightarrow> True)"

lemma over_outcome:
  assumes "send_over E oe n payload built = (Ok r, f', es)"
  shows "\<exists>res c p. r = Answered res \<and> Write c p \<in> set es"
proof -
  obtain b g e1 where b: "built = (b, g, e1)" using prod_cases3 by blast
  obtain c where c: "b = Ok c" using assms b by (cases b) (simp_all add: send_over_def)
  obtain s e2 where s: "sendOnionCell E (oe_cellIvs oe) c n payload (oe_channel oe) = (s, e2)" by fastforce
  obtain res where res: "s = Ok res" using assms b c s by (cases s) (simp_all add: send_over_def)
  have "\<exists>d p. Write d p \<in> set e2" using s res by (auto simp: sendOnionCell_def split: if_splits option.splits)
  moreover have "r = Answered res \<and> es = e1 @ e2" using assms b c s res by (auto simp: send_over_def)
  ultimately show ?thesis by auto
qed

lemma onion_outcome:
  assumes "m_id m \<noteq> []" "sendViaOnion E oe now n (remote_packet t m) b f = (Ok r, f', es)"
  shows "outcome_true m r f' es"
proof -
  obtain g where g: "queue_payload E now (remote_packet t m) f = (Ok Queued, g)" "queued_in m (f_db g)"
    using queue_packet [OF assms(1)] by blast
  have "(r = Queued \<and> f' = g) \<or> (r = Delivered \<and> (\<exists>c. es = [Write c (remote_packet t m)])) \<or>
      (\<exists>h. send_over E oe n (remote_packet t m) (obtain_circuit E oe now n h f) = (Ok r, f', es))"
    using assms(2) g by (auto simp: sendViaOnion_def Let_def split: if_splits option.splits)
  then show ?thesis
  proof (elim disjE exE conjE)
    fix h
    assume "send_over E oe n (remote_packet t m) (obtain_circuit E oe now n h f) = (Ok r, f', es)"
    from over_outcome [OF this] show ?thesis by (auto simp: outcome_true_def)
  qed (use g(2) packet_carries [of m t] in \<open>auto simp: outcome_true_def\<close>)
qed

lemma node_outcome:
  assumes "m_id m \<noteq> []"
  shows "\<exists>r f' es. send_to_node E oe now n (remote_packet t m) f = (Ok r, f', es) \<and> outcome_true m r f' es"
proof (cases "dispatch_channels E f n")
  case (Cons c cs)
  then show ?thesis using packet_carries [of m t] by (auto simp: send_to_node_def outcome_true_def)
next
  case Nil
  obtain r f1 es where o1: "sendViaOnion E oe now n (remote_packet t m) False f = (r, f1, es)" using prod_cases3 by blast
  show ?thesis
  proof (cases r)
    case (Ok r')
    then show ?thesis using o1 Nil onion_outcome [OF assms] by (simp add: send_to_node_def)
  next
    case (Throw e)
    then show ?thesis
      using o1 Nil queue_packet [OF assms, of E now t f1] by (auto simp: send_to_node_def outcome_true_def)
  qed
qed

lemma here_outcome:
  assumes "m_id m' = m_id m"
  shows "outcome_true m Delivered (fst (deliver_here t m' f)) es"
  using assms by (auto simp: outcome_true_def deliver_here_def saveMessage_def Let_def image_iff)


section \<open>Every message is shown once\<close>

definition shown :: "string \<Rightarrow> fed_effect list \<Rightarrow> bool" where
  "shown i es = (\<exists>m. Emitted (MessageEvent m) \<in> set es \<and> m_id m = i)"

lemma put_node_messages: "messages (f_db (put_node n p f)) = messages (f_db f)"
  by (simp add: put_node_def upsertRoute_def Let_def split: option.split)

lemma sender_messages: "messages (f_db (fst (learn_sender E now payload ch r f))) = messages (f_db f)"
proof -
  have "messages (f_db (learn_sender_route E now via n g)) = messages (f_db g)" for via n g
    by (simp add: learn_sender_route_def Let_def put_node_messages split: option.split)
  then show ?thesis by (simp add: learn_sender_def Let_def split: option.split)
qed

lemma sender_shows_none: "\<not> shown i (snd (learn_sender E now payload ch r f))"
  by (simp add: learn_sender_def Let_def shown_def split: option.split)

lemma carried_not_shown: "\<forall>e \<in> set es. carried e \<noteq> None \<Longrightarrow> \<not> shown i es"
  by (fastforce simp: shown_def)

lemma forward_carries: "\<forall>e \<in> set (forward_message E payload m ch r f). carried e \<noteq> None"
  by (auto simp: forward_message_def Let_def dest: carried_broadcast carried_subscribers carried_direct split: if_splits)

lemma replies_carry: "\<forall>e \<in> set (replies ch p). carried e \<noteq> None"
  by (auto simp: replies_def split: option.splits)

lemma shown_append [simp]: "shown i (xs @ ys) = (shown i xs \<or> shown i ys)"
  by (auto simp: shown_def)

lemma shown_Cons [simp]: "shown i (Emitted (MessageEvent m) # es) = (m_id m = i \<or> shown i es)"
  by (auto simp: shown_def)

lemma shown_Nil [simp]: "\<not> shown i []"
  by (simp add: shown_def)

lemma known_not_shown:
  assumes "i \<in> m_id ` set (messages (f_db f))"
  shows "\<not> shown i (snd (handleDirectOrChannelMessage E now fresh payload ch r f))"
proof -
  have "messages (f_db (fst (learn_sender E now payload ch r (f\<lparr>f_seen := s\<rparr>)))) = messages (f_db f)" for s
    by (simp add: sender_messages)
  moreover have "m_id m' \<noteq> i" if "fst (saveMessage m d) = Some m'" "messages d = messages (f_db f)" for m m' d
    using that assms by (auto simp: saveMessage_def Let_def split: if_splits)
  ultimately show ?thesis
    using sender_shows_none carried_not_shown [OF forward_carries] carried_not_shown [OF replies_carry]
    by (auto simp: handleDirectOrChannelMessage_def Let_def split_beta split: option.splits prod.splits)
qed

lemma message_type_cases: "message_type t \<in> {''CHANNEL_MESSAGE'', ''DIRECT_MESSAGE''}"
  by (simp add: message_type_def)

lemma packet_type: "str_field (remote_packet t m) ''type'' = Some (message_type t)" "truthy_field (remote_packet t m) ''type''"
  "str_field (remote_packet t m) ''status'' = None"
  by (simp_all add: remote_packet_def str_field_def truthy_field_def message_type_def)

lemma packet_handled:
  "handleLocalDeliveredMessage E now pk (remote_packet t m) f =
     handleDirectOrChannelMessage E now (pk_freshId pk) (remote_packet t m) None None f"
proof -
  have "json_truthy (remote_packet t m)" by (simp add: remote_packet_def)
  then show ?thesis
    using packet_type [of t m] message_type_cases [of t] by (auto simp: handleLocalDeliveredMessage_def typed_payload_def handleIncoming_def)
qed


section \<open>An item that never ages\<close>

lemma find_other: "o_id row = i \<Longrightarrow> find (\<lambda>q. o_id q = i) (filter (\<lambda>q. o_id q \<noteq> i) rows @ [row]) = Some row"
  by (induction rows) auto

text \<open>
  An item whose target has an address but no relay with a key for it is queued anew on each attempt: it loses its
  age and its count of attempts, so neither the limit of attempts nor the time to live ever removes it.
\<close>

lemma outbox_packet_message:
  assumes "o_id r \<noteq> []"
  shows "message_of E now fresh (outbox_packet t r) = Some \<lparr>m_id = o_id r, m_from = o_from r, m_to = o_to r, m_content = o_content r,
    m_isAction = o_isAction r, m_isSnippet = o_isSnippet r, m_isE2EE = o_isE2EE r, m_deleted_by = [], m_timestamp = o_timestamp r\<rparr>"
  using assms by (simp add: message_of_def outbox_packet_def str_field_def truthy_field_def or_else_def truthy_def)

lemma stuck_item_never_ages:
  assumes "parse_addr E (o_to r) = Some t" "or_else (pa_nodeId t) None = Some n" "n \<noteq> []" "o_id r \<noteq> []"
    "direct_tunnel f n = None" "direct_relay E f n = None" "exit_address E f n = Some a" "exit_hop E f n a = None"
    "1 < outbox_max (fe_cfg E)" "0 \<le> outbox_ttl (fe_cfg E)" "0 < now"
  shows "\<exists>row \<in> set (outbox (f_db (fst (process_item E now onions answers r f)))).
    o_id row = o_id r \<and> o_retries row = 1 \<and> o_created_at row = now"
proof -
  define m where "m = \<lparr>m_id = o_id r, m_from = o_from r, m_to = o_to r, m_content = o_content r,
    m_isAction = o_isAction r, m_isSnippet = o_isSnippet r, m_isE2EE = o_isE2EE r, m_deleted_by = [], m_timestamp = o_timestamp r\<rparr>"
  obtain d where d1: "queueOutbox now m None (f_db f) = d" by blast
  have "\<exists>row. outbox d = filter (\<lambda>q. o_id q \<noteq> o_id r) (outbox (f_db f)) @ [row] \<and>
      o_id row = o_id r \<and> o_retries row = 0 \<and> o_created_at row = now"
    using d1 by (auto simp: queueOutbox_def removeOutbox_def m_def Let_def)
  then obtain row where d: "outbox d = filter (\<lambda>q. o_id q \<noteq> o_id r) (outbox (f_db f)) @ [row]"
    "o_id row = o_id r" "o_retries row = 0" "o_created_at row = now" by blast
  have "sendViaOnion E (onions (o_id r)) now n (outbox_packet t r) True f = (Ok Queued, f\<lparr>f_db := d\<rparr>, [])"
    using assms d1 by (simp add: sendViaOnion_def queue_payload_def outbox_packet_message [OF assms(4)] m_def [symmetric])
  then have "fst (process_item E now onions answers r f) = retry_item E now (o_id r) (f\<lparr>f_db := d\<rparr>)"
    using assms by (simp add: process_item_def Let_def)
  moreover have "find (\<lambda>q. o_id q = o_id r) (outbox d) = Some row"
    using d(1) find_other [OF d(2)] by simp
  ultimately show ?thesis
    using assms d by (simp add: retry_item_def updateOutboxRetry_def created_of_def Let_def)
qed

section \<open>Concrete runs\<close>

definition sample_message :: message where
  "sample_message = \<lparr>m_id = ''7'', m_from = ''@a:n.mesh'', m_to = ''@bob:x.mesh'', m_content = ''hi'', m_isAction = False,
     m_isSnippet = False, m_isE2EE = False, m_deleted_by = [], m_timestamp = ''t''\<rparr>"

lemma sample_message_simps [simp]: "m_id sample_message = ''7''" "m_to sample_message = ''@bob:x.mesh''"
  by (simp_all add: sample_message_def)

lemma sample_parses: "\<exists>t. parse_addr sample_node ''@bob:x.mesh'' = Some t"
proof -
  have trim: "js_trim ''@bob:x.mesh'' = ''@bob:x.mesh''" by code_simp
  have parts: "starts_with ''@'' ''@bob:x.mesh''" "\<not> starts_with ''#'' ''@bob:x.mesh''" "ends_with ''.mesh'' ''x.mesh''"
    by code_simp+
  have "parseTarget cfg ''x.mesh'' \<noteq> None" for cfg using parts by (simp add: parseTarget_def)
  then have "targeted cfg n ty sg ''bob'' ''x.mesh'' \<noteq> None" for cfg n ty sg
    by (auto simp: targeted_def split: option.splits target.splits)
  then show ?thesis using parts by (auto simp: parse_addr_def parse_def trim)
qed



end
