(* ===== verification/Node.thy ===== *)
theory Node
  imports Federation Channel
begin

text \<open>
  The engine as one machine: every event a running node reacts to (packets of any kind over any channel, the
  dialback service, tunnels and relays, timers, connections, messages of its users, the outbox, closing) and the
  invariant that holds in every state such events can lead to.
\<close>

section \<open>What a secure channel tells the engine\<close>

text \<open>A channel a peer opened, or one of the pool under its key.\<close>

datatype origin = FromPeer string | FromPool string

fun origin_peer :: "origin \<Rightarrow> string" where
  "origin_peer (FromPeer p) = p"
| "origin_peer (FromPool key) = key"

text \<open>A peer address of another kind than a string still counts as a voter.\<close>

definition voter :: "json option \<Rightarrow> string" where
  "voter p = (case p of Some (JStr s) \<Rightarrow> s | Some j \<Rightarrow> stringify j | None \<Rightarrow> ''undefined'')"

definition on_channel :: "fed_env \<Rightarrow> int \<Rightarrow> packet_env \<Rightarrow> string \<Rightarrow> nat \<Rightarrow> origin \<Rightarrow> chan_event \<Rightarrow> act" where
  "on_channel E now pk nonce c src ev f =
     (case ev of
        EvPayload payload \<Rightarrow> handleIncoming E now pk payload (Some c) (Some (origin_peer src)) f
      | EvDialbackConfirm frame \<Rightarrow> handleDialbackConfirm E now frame f
      | EvOnionCell cell \<Rightarrow> (f, handleOnionCell E cell (Some c) f)
      | EvObservedAddress (JStr a) peer \<Rightarrow> handleObservedAddress E now nonce a (voter peer) f
      | EvReady \<Rightarrow> (case src of FromPool key \<Rightarrow> (channel_ready E now key f, []) | FromPeer _ \<Rightarrow> (f, []))
      | EvError _ \<Rightarrow> (case src of FromPool key \<Rightarrow> (channel_gone key f, []) | FromPeer _ \<Rightarrow> (f, []))
      | EvClose \<Rightarrow> (case src of FromPool key \<Rightarrow> (channel_gone key f, []) | FromPeer _ \<Rightarrow> (f, []))
      | _ \<Rightarrow> (f, []))"

text \<open>A pooled channel that is silent for six seconds before it is ready.\<close>

definition channel_timeout :: "string \<Rightarrow> nat \<Rightarrow> act" where
  "channel_timeout key c f = (f\<lparr>f_pool := jm_delete key (f_pool f)\<rparr>, [DestroySocket c])"

section \<open>Events\<close>

datatype node_event =
    ChannelEvent packet_env string nat origin chan_event
  | LocalDelivery packet_env json
  | NatEvent nat_event
  | RdvEvent rdv_event
  | Announce
  | CleanupTimer
  | Gossip "nat \<Rightarrow> nat" "string \<Rightarrow> nat \<Rightarrow> nat" "string \<Rightarrow> json option"
  | UserLeft string
  | UserMessage onion_env "json option" message
  | OutboxWorker bool "string \<Rightarrow> onion_env" "string \<Rightarrow> json option"
  | OutboxNow bool "string \<Rightarrow> onion_env" "string \<Rightarrow> json option"
  | Connect nat link string "int option"
  | ChannelTimeout string nat
  | LinkChange "nat \<Rightarrow> link"
  | PeerChange peer_state
  | Closed

fun node_step :: "fed_env \<Rightarrow> int \<Rightarrow> node_event \<Rightarrow> fed \<Rightarrow> fed" where
  "node_step E now (ChannelEvent pk nonce c src ev) f = fst (on_channel E now pk nonce c src ev f)"
| "node_step E now (LocalDelivery pk payload) f = fst (handleLocalDeliveredMessage E now pk payload f)"
| "node_step E now (NatEvent ev) f = fst (nat_step E now ev f)"
| "node_step E now (RdvEvent ev) f = fst (rdv_step E now ev f)"
| "node_step E now Announce f = fst (broadcastPresence E now f)"
| "node_step E now CleanupTimer f = fst (cleanupExpiredPresence E now f)"
| "node_step E now (Gossip rnd rnds answer) f = fst (performRandomGossip E now rnd rnds answer f)"
| "node_step E now (UserLeft u) f = fst (broadcastUserOffline E now u f)"
| "node_step E now (UserMessage oe answer m) f = fst (snd (sendRemoteMessage E oe answer now m f))"
| "node_step E now (OutboxWorker busy onions answers) f = fst (fst (scheduleOutbox E now busy onions answers f))"
| "node_step E now (OutboxNow b onions answers) f = fst (processOutbox E now b onions answers f)"
| "node_step E now (Connect c l host port) f = fst (snd (getOrCreateSecureChannel E c l host port f))"
| "node_step E now (ChannelTimeout key c) f = fst (channel_timeout key c f)"
| "node_step E now (LinkChange l) f = f\<lparr>f_link := l\<rparr>"
| "node_step E now (PeerChange p) f = f\<lparr>f_peers := p\<rparr>"
| "node_step E now Closed f = fst (close f)"

section \<open>The invariant\<close>

definition msg_ids :: "fed \<Rightarrow> string list" where
  "msg_ids f = map m_id (messages (f_db f))"

definition sets_ok :: "seen_sets \<Rightarrow> bool" where
  "sets_ok s = (length (sn_presence s) \<le> max_seen \<and> length (sn_routes s) \<le> max_seen \<and> length (sn_offline s) \<le> max_seen)"

definition node_inv :: "fed_env \<Rightarrow> fed \<Rightarrow> bool" where
  "node_inv E f = (nat_inv f \<and> rdv_inv E f \<and> length (f_pool f) \<le> max_pool \<and> sets_ok (f_sets f) \<and> distinct (msg_ids f))"

text \<open>What the invariant reads.\<close>

definition core :: "fed \<Rightarrow> _" where
  "core f = (nat_view f, rdv_view f, f_pool f, f_sets f, msg_ids f)"

lemma inv_core: "core g = core f \<Longrightarrow> node_inv E f \<Longrightarrow> node_inv E g"
  using nat_inv_view [of g f] rdv_inv_view [of g f E] by (auto simp: core_def node_inv_def)

lemma inv_part:
  assumes "node_inv E f" "nat_view g = nat_view f \<or> nat_inv g" "rdv_view g = rdv_view f \<or> rdv_inv E g"
    "f_pool g = f_pool f \<or> length (f_pool g) \<le> max_pool" "f_sets g = f_sets f \<or> sets_ok (f_sets g)"
    "msg_ids g = msg_ids f \<or> distinct (msg_ids g)"
  shows "node_inv E g"
  using assms nat_inv_view [of g f] rdv_inv_view [of g f E] by (auto simp: node_inv_def)

named_theorems quiet \<open>steps that leave everything the invariant reads as it is\<close>

lemma core_fields:
  assumes "f_nat g = f_nat f" "f_publicIp g = f_publicIp f" "f_tunnels g = f_tunnels f" "f_bound g = f_bound f"
    "jm_keys (f_relays g) = jm_keys (f_relays f)" "f_pool g = f_pool f" "f_sets g = f_sets f"
    "messages (f_db g) = messages (f_db f)"
  shows "core g = core f"
  using assms by (simp add: core_def nat_view_def rdv_view_def msg_ids_def)

lemma core_updates [quiet]:
  "core (f\<lparr>f_link := l\<rparr>) = core f" "core (f\<lparr>f_peers := p\<rparr>) = core f" "core (f\<lparr>f_users := u\<rparr>) = core f"
  "core (f\<lparr>f_subs := s\<rparr>) = core f" "core (f\<lparr>f_presence := q\<rparr>) = core f" "core (f\<lparr>f_phys := a\<rparr>) = core f"
  "core (f\<lparr>f_circuits := c\<rparr>) = core f" "core (f\<lparr>f_role := r\<rparr>) = core f" "core (f\<lparr>f_nodeAddress := n\<rparr>) = core f"
  "core (f\<lparr>f_seen := t\<rparr>) = core f" "core (f\<lparr>f_nonces := k\<rparr>) = core f" "core (f\<lparr>f_maintaining := b\<rparr>) = core f"
  by (rule core_fields; simp)+

lemma db_messages [simp]:
  "messages (upsertRoute n r ns kem i t d) = messages d" "messages (resetOutboxForTarget n d) = messages d"
  "messages (saveRemoteUserKemKey u ky d) = messages d" "messages (deleteExpiredRoutes t1 t2 t3 d) = messages d"
  "messages (deleteExpiredCircuits t1 t2 d) = messages d" "messages (removeOutbox u d) = messages d"
  "messages (queueOutbox t1 m z d) = messages d"
  by (simp_all add: upsertRoute_def resetOutboxForTarget_def saveRemoteUserKemKey_def upsert_profile_def
      deleteExpiredRoutes_def deleteExpiredCircuits_def removeOutbox_def queueOutbox_def Let_def split: option.split)

lemma db_messages_more [simp]:
  "messages (saveCircuit C rnd c p x k now d) = messages d"
  "messages (snd (updateOutboxRetry K now i mx ttl d)) = messages d"
  "messages (snd (getPendingOutbox K cfg now b d)) = messages d"
  by (simp_all add: saveCircuit_def updateOutboxRetry_def getPendingOutbox_def cleanExpiredOutbox_def Let_def split: option.split)

lemma core_db [quiet]: "messages d = messages (f_db f) \<Longrightarrow> core (f\<lparr>f_db := d\<rparr>) = core f"
  by (rule core_fields) simp_all

text \<open>Announcing, learning, answering: all of it leaves the invariant's parts alone.\<close>

lemma core_announce [quiet]:
  "core (touch_tunnel_users now f) = core f" "core (fst (broadcastPresenceAnnounce E now f)) = core f"
  "core (fst (broadcastPresence E now f)) = core f"
  by (simp_all add: touch_tunnel_users_def broadcastPresence_state broadcastPresenceAnnounce_def
      createPresenceAnnouncePayload_def Let_def quiet)

lemma core_role [quiet]: "core (fst (setRole E now r f)) = core f" "core (fst (checkTransitEdgeRole E now f)) = core f"
  by (simp_all add: checkTransitEdgeRole_def setRole_def Let_def split_beta quiet)

lemma core_fold: "(\<And>x g. core (h x g) = core g) \<Longrightarrow> core (fold h xs f) = core f"
  by (induction xs arbitrary: f) simp_all

lemma core_learn_address [quiet]: "core (learn_address E now a f) = core f"
  by (simp add: learn_address_def quiet split: option.split)

lemma core_learn [quiet]:
  "core (learn_gossip E now payload f) = core f" "core (learn_relays E now role addrs f) = core f"
  "core (locate E n addrs f) = core f" "core (register_edge ch ro f) = core f" "core (put_node n p f) = core f"
  "core (open_channels cs f) = core f" "core (learn_membership E now payload ch n m f) = core f"
  by (simp_all add: learn_gossip_def learn_relays_def locate_def register_edge_def put_node_def open_channels_def
      learn_membership_def Let_def core_fold quiet split: option.split list.split)

lemma core_learn_announce [quiet]: "core (learn_announce E now payload ch n kem ident safe f) = core f"
  by (simp add: learn_announce_def Let_def core_fold quiet split: option.split)

lemma core_learn_route [quiet]: "core (learn_route E now payload ch rc f) = core f"
  by (simp add: learn_route_def learn_claimed_relay_def Let_def quiet split: option.split)

lemma core_bilateral [quiet]: "core (fst (bilateral_reply E now payload ch b f)) = core f"
  by (simp add: bilateral_reply_def createPresenceAnnouncePayload_def Let_def quiet split: option.split)

lemma core_learn_sender [quiet]: "core (fst (learn_sender E now payload ch r f)) = core f"
  by (simp add: learn_sender_def learn_sender_route_def Let_def quiet split: option.split)

lemma core_small_handlers [quiet]:
  "core (fst (handleChannelSubscribe E now payload ch f)) = core f"
  "core (fst (handleChannelUnsubscribe E payload ch f)) = core f"
  "core (fst (handleTyping E now payload f)) = core f"
  "core (fst (handleGossipDiscovery E now rnd payload ch f)) = core f"
  "core (fst (broadcastUserOffline E now u f)) = core f"
  by (simp_all add: handleChannelSubscribe_def handleChannelUnsubscribe_def handleTyping_def handleGossipDiscovery_def
      broadcastUserOffline_def Let_def quiet split: option.split)

lemma core_circuit_setup [quiet]: "core (fst (handleCircuitSetup E now rnd payload ch answers f)) = core f"
  by (simp add: handleCircuitSetup_def Let_def quiet split: option.split list.split)

section \<open>The services next to the rest of the state\<close>

text \<open>What neither service touches, apart from channels a heartbeat drops from the pool.\<close>

definition shelf :: "fed \<Rightarrow> _" where
  "shelf f = (f_pool f, f_sets f, msg_ids f)"

lemma shelf_core: "core g = core f \<Longrightarrow> shelf g = shelf f \<and> nat_view g = nat_view f \<and> rdv_view g = rdv_view f"
  by (simp add: shelf_def core_def)

lemma shelf_fields:
  "f_pool g = f_pool f \<Longrightarrow> f_sets g = f_sets f \<Longrightarrow> messages (f_db g) = messages (f_db f) \<Longrightarrow> shelf g = shelf f"
  by (simp add: shelf_def msg_ids_def)

lemma shelf_updates [quiet]:
  "shelf (f\<lparr>f_nat := x\<rparr>) = shelf f" "shelf (f\<lparr>f_tunnels := a\<rparr>) = shelf f" "shelf (f\<lparr>f_bound := b\<rparr>) = shelf f"
  "shelf (f\<lparr>f_relays := c\<rparr>) = shelf f" "shelf (f\<lparr>f_publicIp := d\<rparr>) = shelf f" "shelf (f\<lparr>f_link := l\<rparr>) = shelf f"
  "shelf (f\<lparr>f_peers := p\<rparr>) = shelf f" "shelf (f\<lparr>f_nodeAddress := n\<rparr>) = shelf f" "shelf (f\<lparr>f_presence := q\<rparr>) = shelf f"
  "shelf (f\<lparr>f_phys := y\<rparr>) = shelf f" "shelf (f\<lparr>f_nonces := k\<rparr>) = shelf f" "shelf (f\<lparr>f_maintaining := m\<rparr>) = shelf f"
  by (rule shelf_fields; simp)+

lemma shelf_db [quiet]: "messages d = messages (f_db f) \<Longrightarrow> shelf (f\<lparr>f_db := d\<rparr>) = shelf f"
  by (rule shelf_fields) simp_all

lemma shelf_announce [quiet]:
  "shelf (fst (broadcastPresenceAnnounce E now f)) = shelf f" "shelf (fst (broadcastPresence E now f)) = shelf f"
  "shelf (fst (setRole E now r f)) = shelf f" "shelf (fst (checkTransitEdgeRole E now f)) = shelf f"
  by (rule shelf_core [THEN conjunct1], simp add: quiet)+

lemma shelf_nat: "shelf (fst (nat_step E now ev f)) = shelf f"
  by (cases ev)
     (simp_all add: handleObservedAddress_def add_vote_def initiateDialback_def dialback_over_def dialbackFailed_def
        dialbackTimeout_def handleDialbackConfirm_def handleDialbackRequest_def dial_connected_def releaseSlot_def Let_def
        split_beta quiet split: option.split list.split)

lemma rdv_view_nat: "rdv_view (fst (nat_step E now ev f)) = rdv_view f"
proof -
  have [simp]: "rdv_view (g\<lparr>f_nat := x\<rparr>) = rdv_view g" "rdv_view (g\<lparr>f_publicIp := d\<rparr>) = rdv_view g"
    "rdv_view (g\<lparr>f_peers := p\<rparr>) = rdv_view g" "rdv_view (g\<lparr>f_nodeAddress := n\<rparr>) = rdv_view g"
    "rdv_view (fst (setRole E now r g)) = rdv_view g" for x g d p n r
    by (simp_all add: rdv_view_def setRole_frame)
  show ?thesis
    by (cases ev)
       (simp_all add: handleObservedAddress_def add_vote_def initiateDialback_def dialback_over_def dialbackFailed_def
          dialbackTimeout_def handleDialbackConfirm_def handleDialbackRequest_def dial_connected_def releaseSlot_def Let_def
          split_beta split: option.split list.split)
qed

lemma inv_shelf:
  assumes "node_inv E f" "nat_view g = nat_view f \<or> nat_inv g" "rdv_view g = rdv_view f \<or> rdv_inv E g" "shelf g = shelf f"
  shows "node_inv E g"
  using assms(1-3) by (rule inv_part) (use assms(4) in \<open>simp_all add: shelf_def\<close>)

lemma inv_nat:
  assumes "node_inv E f"
  shows "node_inv E (fst (nat_step E now ev f))"
proof (rule inv_shelf [OF assms])
  show "nat_view (fst (nat_step E now ev f)) = nat_view f \<or> nat_inv (fst (nat_step E now ev f))"
    using inv_step [of f E now ev] assms by (simp add: node_inv_def)
qed (simp_all add: rdv_view_nat shelf_nat)

text \<open>Tunnels and relays leave the NAT service and what is stored alone; a heartbeat may shrink the pool.\<close>

definition stored :: "fed \<Rightarrow> _" where
  "stored f = (nat_view f, f_sets f, msg_ids f)"

definition shrinks :: "fed \<Rightarrow> fed \<Rightarrow> bool" where
  "shrinks f g = (stored g = stored f \<and> length (f_pool g) \<le> length (f_pool f))"

lemma shrinks_refl [simp]: "shrinks f f"
  by (simp add: shrinks_def)

lemma shrinks_trans [trans]: "shrinks f g \<Longrightarrow> shrinks g h \<Longrightarrow> shrinks f h"
  by (simp add: shrinks_def)

lemma shrinks_core: "core g = core f \<Longrightarrow> shrinks f g"
  by (simp add: shrinks_def stored_def core_def)

lemma shrinks_shelf: "shelf g = shelf f \<Longrightarrow> nat_view g = nat_view f \<Longrightarrow> shrinks f g"
  by (simp add: shrinks_def stored_def shelf_def)

lemma shrinks_pool: "shrinks f (f\<lparr>f_pool := jm_delete k (f_pool f)\<rparr>)"
  by (simp add: shrinks_def stored_def nat_view_def msg_ids_def length_jm_delete_le)

lemma inv_shrinks: "node_inv E f \<Longrightarrow> shrinks f g \<Longrightarrow> rdv_inv E g \<Longrightarrow> node_inv E g"
  by (rule inv_part [of E f]) (auto simp: shrinks_def stored_def node_inv_def)

lemma nat_view_core: "core g = core f \<Longrightarrow> nat_view g = nat_view f"
  by (simp add: core_def)

lemma nat_view_more [simp]:
  "nat_view (fst (checkTransitEdgeRole E now f)) = nat_view f" "nat_view (fst (broadcastPresenceAnnounce E now f)) = nat_view f"
  "nat_view (fst (broadcastPresence E now f)) = nat_view f" "nat_view (hook_close b c f) = nat_view f"
  by (rule nat_view_core, simp add: quiet hook_close_def)+

lemma nat_view_fields [simp]:
  "nat_view (f\<lparr>f_db := d\<rparr>) = nat_view f" "nat_view (f\<lparr>f_tunnels := a\<rparr>) = nat_view f" "nat_view (f\<lparr>f_bound := b\<rparr>) = nat_view f"
  "nat_view (f\<lparr>f_relays := c\<rparr>) = nat_view f" "nat_view (f\<lparr>f_presence := q\<rparr>) = nat_view f" "nat_view (f\<lparr>f_phys := y\<rparr>) = nat_view f"
  "nat_view (f\<lparr>f_nonces := k\<rparr>) = nat_view f" "nat_view (f\<lparr>f_maintaining := m\<rparr>) = nat_view f"
  by (simp_all add: nat_view_def)

lemma shelf_hook [quiet]: "shelf (hook_close b c f) = shelf f"
  by (simp add: hook_close_def quiet)

lemma shrinks_drop: "shrinks f (fst (drop_relay E now addr f))"
  unfolding drop_relay_def by (rule shrinks_shelf) (simp_all add: quiet)

lemma shrinks_bound: "shrinks f (fst (bound_to E now addr c f))"
  by (rule shrinks_shelf) (simp_all add: bound_to_def learn_relay_def Let_def split_beta quiet split: option.split)

lemma shrinks_bind: "shrinks f (fst (bindToRendezvousRelay E now nonce answer addr f))"
  using shrinks_bound by (simp add: bindToRendezvousRelay_def Let_def split_beta split: option.split)

lemma shrinks_bind_next: "shrinks f (fst (bind_next E now nonce answer as f))"
proof (induction "as" arbitrary: f)
  case (Cons a "as")
  show ?case
    using Cons.IH shrinks_trans [OF shrinks_bind Cons.IH] by (simp add: split_beta)
qed simp

lemma shrinks_maintain: "shrinks f (fst (maintainRendezvousTunnels E now nonce answer f))"
proof -
  have m: "shrinks g (g\<lparr>f_maintaining := b\<rparr>)" for g b by (rule shrinks_core) (simp add: quiet)
  show ?thesis
    using shrinks_trans [OF shrinks_trans [OF m shrinks_bind_next] m]
    by (simp add: maintainRendezvousTunnels_def Let_def split_beta)
qed

lemma shrinks_heartbeat_one: "shrinks (fst s) (fst (heartbeat_one E now addr s))"
proof -
  obtain f need es where s: "s = (f, need, es)" using prod_cases3 by blast
  show ?thesis
    using shrinks_drop shrinks_trans [OF shrinks_pool shrinks_drop]
    by (simp add: heartbeat_one_def s split_beta split: option.split)
qed

lemma shrinks_fold: "shrinks (fst s) (fst (fold (heartbeat_one E now) as s))"
proof (induction "as" arbitrary: s)
  case (Cons a "as")
  show ?case using shrinks_trans [OF shrinks_heartbeat_one Cons.IH] by simp
qed simp

lemma shrinks_heartbeat: "shrinks f (fst (sendRendezvousHeartbeat E now f))"
  using shrinks_fold [of "(f, False, [])"] by (simp add: sendRendezvousHeartbeat_def split_beta)

lemma shrinks_accept: "shrinks f (fst (accept_bind E now payload ch n ident f))"
  by (rule shrinks_shelf) (simp_all add: accept_bind_def open_tunnel_def broadcastRouteUpdate_def Let_def split_beta quiet)

lemma shrinks_bind_request: "shrinks f (fst (handleRendezvousBind E now payload ch f))"
proof -
  have "shrinks f (f\<lparr>f_nonces := k\<rparr>)" for k by (rule shrinks_core) (simp add: quiet)
  then show ?thesis
    using shrinks_trans [OF _ shrinks_accept]
    by (simp add: handleRendezvousBind_def Let_def split_beta split: option.split)
qed

lemma shrinks_tunnel_closed: "shrinks f (fst (tunnel_closed E now n c f))"
proof -
  have "shrinks f (fst (broadcastPresence E now (f\<lparr>f_tunnels := x\<rparr>)))" for x
    by (rule shrinks_shelf) (simp_all add: quiet)
  then show ?thesis by (simp add: tunnel_closed_def split: option.split)
qed

lemma shrinks_relay_closed: "shrinks f (fst (relay_closed E now addr c f))"
proof -
  have "shrinks f (hook_close False c f)" by (rule shrinks_shelf) (simp_all add: quiet)
  then show ?thesis using shrinks_trans [OF _ shrinks_drop] by (simp add: relay_closed_def split_beta)
qed

lemma shrinks_rdv: "shrinks f (fst (rdv_step E now ev f))"
  by (cases ev) (simp_all add: shrinks_bind_request shrinks_tunnel_closed shrinks_relay_closed shrinks_maintain shrinks_heartbeat)

lemma inv_rdv:
  assumes "node_inv E f"
  shows "node_inv E (fst (rdv_step E now ev f))"
  using assms shrinks_rdv by (rule inv_shrinks) (use assms in \<open>simp add: node_inv_def inv_rdv_step\<close>)

section \<open>Circuits, onion routes and the outbox\<close>

text \<open>Onion traffic leaves both services and what is stored alone; a dead guard leaves the pool.\<close>

definition onion_calm :: "fed \<Rightarrow> fed \<Rightarrow> bool" where
  "onion_calm f g = (shrinks f g \<and> rdv_view g = rdv_view f)"

lemma calm_trans: "onion_calm f g \<Longrightarrow> onion_calm g h \<Longrightarrow> onion_calm f h"
  by (auto simp: onion_calm_def intro: shrinks_trans)

lemma calm_core: "core g = core f \<Longrightarrow> onion_calm f g"
  by (simp add: onion_calm_def shrinks_core) (simp add: core_def)

lemma calm_refl [simp]: "onion_calm f f"
  by (simp add: calm_core)

lemma calm_pool: "onion_calm f (f\<lparr>f_pool := jm_delete k (f_pool f)\<rparr>)"
  by (simp add: onion_calm_def shrinks_pool)

lemma inv_calm:
  assumes "node_inv E f" "onion_calm f g"
  shows "node_inv E g"
proof (rule inv_shrinks [OF assms(1)])
  show "shrinks f g" using assms(2) unfolding onion_calm_def by (rule conjunct1)
  show "rdv_inv E g" using assms rdv_inv_view [of g f E] unfolding onion_calm_def node_inv_def by blast
qed

lemma core_circuits [quiet]:
  "core (removeClientCircuit i f) = core f" "core (removeCircuitsForHop h f) = core f" "core (cleanupExpiredCircuits E now f) = core f"
  "core (snd (getActiveCircuitForTarget E now t f)) = core f"
  by (simp_all add: removeClientCircuit_def removeCircuitsForHop_def cleanupExpiredCircuits_def getActiveCircuitForTarget_def
      Let_def split_beta quiet)

lemma core_build [quiet]: "core (fst (snd (buildCircuit E seeds ivs i now hops t answers f))) = core f"
  by (simp add: buildCircuit_def Let_def quiet split: list.split option.split result.split)

lemma calm_drop_guard: "onion_calm f (fst (drop_guard E guard f))"
  using calm_pool calm_trans [OF calm_pool calm_pool] by (simp add: drop_guard_def Let_def)

lemma calm_build: "onion_calm f (fst (snd (build_with E d now hops t f)))"
  by (rule calm_core) (simp add: build_with_def quiet)

lemma calm_build_twice: "onion_calm f (fst (snd (build_twice E oe now hops t f)))"
proof -
  obtain r f1 e1 where b: "build_with E (oe_first oe) now hops t f = (r, f1, e1)" using prod_cases3 by blast
  obtain f2 e2 where d: "drop_guard E (h_address (hd hops)) f1 = (f2, e2)" by fastforce
  have "onion_calm f f1" "onion_calm f1 f2" using calm_build [of f E "oe_first oe" now hops t] calm_drop_guard [of f1 E "h_address (hd hops)"]
    by (simp_all add: b d)
  then show ?thesis
    using calm_trans [OF calm_trans calm_build [of f2 E "oe_second oe" now hops t], of f f1]
    by (simp add: build_twice_def b d split_beta split: result.split)
qed

lemma calm_obtain: "onion_calm f (fst (snd (obtain_circuit E oe now t exit f)))"
proof -
  obtain c f1 where g: "getActiveCircuitForTarget E now t f = (c, f1)" by fastforce
  have f1: "onion_calm f f1" using core_circuits(4) [of E now t f] by (intro calm_core) (simp add: g)
  moreover have "onion_calm f1 (removeClientCircuit i f1)" for i by (rule calm_core) (simp add: quiet)
  ultimately show ?thesis
    using calm_trans [OF f1 calm_build_twice] calm_trans [OF calm_trans [OF f1] calm_build_twice]
    by (simp add: obtain_circuit_def g split: option.split)
qed

lemma calm_queue: "onion_calm f (snd (queue_payload E now payload f))"
  by (rule calm_core) (simp add: queue_payload_def quiet split: option.split)

lemma calm_onion: "onion_calm f (fst (snd (sendViaOnion E oe now t payload b f)))"
proof -
  have over: "onion_calm f (fst (snd (send_over E oe t payload (obtain_circuit E oe now t hop f))))" for hop
  proof -
    obtain c g es where o: "obtain_circuit E oe now t hop f = (c, g, es)" using prod_cases3 by blast
    have g: "onion_calm f g" using calm_obtain [of f E oe now t hop] by (simp add: o)
    moreover have "onion_calm f (removeClientCircuit i g)" for i
      by (rule calm_trans [OF g]) (rule calm_core, simp add: quiet)
    ultimately show ?thesis by (simp add: send_over_def o split_beta split: result.split)
  qed
  then show ?thesis
    using calm_queue by (simp add: sendViaOnion_def Let_def split_beta split: option.split)
qed

lemma calm_node: "onion_calm f (fst (snd (send_to_node E oe now n payload f)))"
proof -
  obtain r g es where o: "sendViaOnion E oe now n payload False f = (r, g, es)" using prod_cases3 by blast
  have "onion_calm f g" using calm_onion [of f E oe now n payload False] by (simp add: o)
  then show ?thesis
    using calm_trans [OF _ calm_queue] by (simp add: send_to_node_def o split_beta split: list.split result.split)
qed

lemma core_items [quiet]:
  "core (retry_item E now i f) = core f" "core (remove_item i f) = core f" "core (rate_peer E now h p ok f) = core f"
  by (simp_all add: retry_item_def remove_item_def rate_peer_def quiet)

lemma calm_item: "onion_calm f (fst (process_item E now onions answers r f))"
proof -
  have over: "onion_calm f (fst (case sendViaOnion E oe now n p True f of
      (Throw _, f1, es) \<Rightarrow> (retry_item E now i f1, es) | (Ok Queued, f1, es) \<Rightarrow> (retry_item E now i f1, es)
    | (Ok _, f1, es) \<Rightarrow> (remove_item i f1, es)))" for oe n p i
  proof -
    obtain x g es where o: "sendViaOnion E oe now n p True f = (x, g, es)" using prod_cases3 by blast
    have g: "onion_calm f g" using calm_onion [of f E oe now n p True] by (simp add: o)
    have "onion_calm g (retry_item E now i g)" "onion_calm g (remove_item i g)" by (rule calm_core, simp add: quiet)+
    then show ?thesis using calm_trans [OF g] by (simp add: o split: result.split send_result.split)
  qed
  have "onion_calm f (remove_item i f)" "onion_calm f (rate_peer E now h p ok (remove_item i f))"
    "onion_calm f (rate_peer E now h p ok (retry_item E now i f))" for i h p ok
    by (rule calm_core, simp add: quiet)+
  then show ?thesis using over by (simp add: process_item_def Let_def split: option.split)
qed

lemma calm_outbox: "onion_calm f (fst (processOutbox E now b onions answers f))"
proof -
  obtain rows d where p: "getPendingOutbox (fe_clock E) (fe_cfg E) now b (f_db f) = (rows, d)" by fastforce
  have "messages d = messages (f_db f)" using db_messages_more(3) [of "fe_clock E" "fe_cfg E" now b "f_db f"] by (simp add: p)
  then have start: "onion_calm f (f\<lparr>f_db := d\<rparr>)" by (intro calm_core core_db)
  have "onion_calm f (fst (in_order (map (process_item E now onions answers) rows) (f\<lparr>f_db := d\<rparr>)))"
    by (rule in_order_keeps [of "onion_calm f"]) (auto intro: start calm_trans [OF _ calm_item])
  then show ?thesis by (simp add: processOutbox_def p)
qed

section \<open>Packets\<close>

lemma remember_bound: "length s \<le> max_seen \<Longrightarrow> length (remember_key k s) \<le> max_seen"
  by (simp add: remember_key_def Let_def length_js_add)

lemma inv_sets:
  assumes "node_inv E f" "sets_ok s"
  shows "node_inv E (f\<lparr>f_sets := s\<rparr>)"
  using assms(1) by (rule inv_part) (use assms(2) in \<open>simp_all add: nat_view_def rdv_view_def msg_ids_def\<close>)

lemma inv_remember:
  assumes "node_inv E f"
  shows "node_inv E (f\<lparr>f_sets := (f_sets f)\<lparr>sn_presence := remember_key k (sn_presence (f_sets f))\<rparr>\<rparr>)"
    "node_inv E (f\<lparr>f_sets := (f_sets f)\<lparr>sn_routes := remember_key k (sn_routes (f_sets f))\<rparr>\<rparr>)"
    "node_inv E (f\<lparr>f_sets := (f_sets f)\<lparr>sn_offline := remember_key k (sn_offline (f_sets f))\<rparr>\<rparr>)"
  using assms by (intro inv_sets; simp add: node_inv_def sets_ok_def remember_bound)+

lemma inv_announce:
  assumes "node_inv E f"
  shows "node_inv E (fst (handlePresenceAnnounce E now payload ch r f))"
proof (cases "verified_announce E now payload")
  case (Some v)
  obtain n kem ident safe where v: "v = (n, kem, ident, safe)" using prod_cases4 by blast
  define f1 where "f1 = learn_announce E now payload ch n kem ident safe f"
  have "node_inv E f1" using assms by (rule inv_core [rotated]) (simp add: f1_def quiet)
  then have "node_inv E (fst (bilateral_reply E now payload ch b f1))"
      "node_inv E (fst (bilateral_reply E now payload ch b (f1\<lparr>f_sets := (f_sets f1)\<lparr>sn_presence := remember_key k (sn_presence (f_sets f1))\<rparr>\<rparr>)))"
    for b k using core_bilateral inv_core inv_remember(1) by metis+
  then show ?thesis by (simp add: handlePresenceAnnounce_def Some v f1_def [symmetric] Let_def split_beta)
qed (simp add: handlePresenceAnnounce_def assms)

lemma inv_route:
  assumes "node_inv E f"
  shows "node_inv E (fst (handleRouteUpdate E now payload ch r f))"
proof -
  have "node_inv E (learn_route E now payload ch rc (f\<lparr>f_sets := (f_sets f)\<lparr>sn_routes := remember_key k (sn_routes (f_sets f))\<rparr>\<rparr>))"
    for rc k using core_learn_route inv_core inv_remember(2) [OF assms] by metis
  then show ?thesis using assms by (simp add: handleRouteUpdate_def Let_def split: option.split)
qed

lemma inv_offline:
  assumes "node_inv E f"
  shows "node_inv E (fst (handleUserOffline E payload ch r f))"
proof -
  have u: "node_inv E (f\<lparr>f_users := us\<rparr>)" for us using assms by (rule inv_core [rotated]) (simp add: quiet)
  have "node_inv E (f\<lparr>f_users := us, f_sets := (f_sets f)\<lparr>sn_offline := remember_key k (sn_offline (f_sets f))\<rparr>\<rparr>)" for us k
    using inv_remember(3) [OF u [of us], of k] by simp
  then show ?thesis using assms u by (simp add: handleUserOffline_def Let_def split: option.split)
qed

lemma inv_saved:
  assumes "node_inv E f" "messages (f_db f) = messages d"
  shows "node_inv E (f\<lparr>f_db := snd (saveMessage m d)\<rparr>)"
proof -
  have "distinct (msg_ids f)" using assms(1) by (simp add: node_inv_def)
  then have "distinct (msg_ids (f\<lparr>f_db := snd (saveMessage m d)\<rparr>))"
    using assms(2) by (auto simp: msg_ids_def saveMessage_def Let_def)
  with assms(1) show ?thesis by (intro inv_part [OF assms(1)]) (simp_all add: nat_view_def rdv_view_def)
qed

lemma inv_message:
  assumes "node_inv E f"
  shows "node_inv E (fst (handleDirectOrChannelMessage E now i payload ch r f))"
proof -
  have s: "node_inv E (f\<lparr>f_seen := k\<rparr>)" for k using assms by (rule inv_core [rotated]) (simp add: quiet)
  define g where "g k = fst (learn_sender E now payload ch r (f\<lparr>f_seen := k\<rparr>))" for k
  have g: "node_inv E (g k)" for k unfolding g_def using s by (rule inv_core [OF core_learn_sender])
  have "node_inv E ((g k)\<lparr>f_db := snd (saveMessage m (f_db (g k)))\<rparr>)" "node_inv E ((g k)\<lparr>f_db := f_db (g k)\<rparr>)" for k m
    using inv_saved [OF g refl] g by simp_all
  then show ?thesis
    using s by (simp add: handleDirectOrChannelMessage_def Let_def split_beta g_def split: option.split)
qed

lemma inv_incoming:
  assumes "node_inv E f"
  shows "node_inv E (fst (handleIncoming E now pk payload ch r f))"
proof -
  note nat = inv_nat [OF assms, of now "DialbackRequest payload ch", simplified] inv_nat [OF assms, of now "Confirm payload", simplified]
  note rdv = inv_rdv [OF assms, of now "BindRequest payload ch", simplified]
  have calm: "core g = core f \<Longrightarrow> node_inv E g" for g using assms by (rule inv_core [rotated])
  show ?thesis
    using assms nat rdv inv_announce [OF assms] inv_route [OF assms] inv_offline [OF assms] inv_message [OF assms]
    by (simp add: handleIncoming_def calm quiet split: option.split)
qed

section \<open>Connections, timers and users\<close>

lemma inv_pool:
  assumes "node_inv E f" "length q \<le> max_pool"
  shows "node_inv E (f\<lparr>f_pool := q\<rparr>)"
  using assms(1) by (rule inv_part) (use assms(2) in \<open>simp_all add: nat_view_def rdv_view_def msg_ids_def\<close>)

lemma evict_cases:
  "fst (evict_pool key f) = f \<and> (jm_has (f_pool f) key \<or> length (f_pool f) < max_pool \<or> f_pool f = []) \<or>
   (\<exists>k. fst (evict_pool key f) = removeCircuitsForHop k (f\<lparr>f_pool := jm_delete k (f_pool f)\<rparr>) \<and>
        length (jm_delete k (f_pool f)) < length (f_pool f))"
proof (cases "f_pool f")
  case (Cons kc q)
  obtain k c where kc: "kc = (k, c)" by fastforce
  have "jm_has (f_pool f) k" by (simp add: Cons kc jm_has_def)
  then have "length (jm_delete k (f_pool f)) < length (f_pool f)" by (rule jm_delete_less)
  moreover have "fst (evict_pool key f) =
      (if max_pool \<le> length (f_pool f) \<and> \<not> jm_has (f_pool f) key
       then removeCircuitsForHop k (f\<lparr>f_pool := jm_delete k (f_pool f)\<rparr>) else f)"
    by (simp add: evict_pool_def Cons kc)
  ultimately show ?thesis by (metis not_le)
qed (simp add: evict_pool_def)

lemma pool_hop [simp]: "f_pool (removeCircuitsForHop k f) = f_pool f"
  by (simp add: removeCircuitsForHop_def)

lemma evict_room: "length (f_pool f) \<le> max_pool \<Longrightarrow> length (jm_set key c (f_pool (fst (evict_pool key f)))) \<le> max_pool"
  using evict_cases [of key f] by (auto simp: length_jm_set max_pool_def)

lemma calm_evict: "onion_calm f (fst (evict_pool key f))"
proof -
  have "onion_calm f (removeCircuitsForHop k (f\<lparr>f_pool := jm_delete k (f_pool f)\<rparr>))" for k
    by (rule calm_trans [OF calm_pool calm_core]) (simp add: quiet)
  then show ?thesis using evict_cases [of key f] by auto
qed

lemma inv_connect:
  assumes "node_inv E f"
  shows "node_inv E (fst (snd (getOrCreateSecureChannel E c l host port f)))"
proof -
  have e: "node_inv E (fst (evict_pool key f))" for key using assms calm_evict by (rule inv_calm)
  have "length (f_pool f) \<le> max_pool" using assms by (simp add: node_inv_def)
  then have "node_inv E ((fst (evict_pool key f))\<lparr>f_pool := jm_set key c (f_pool (fst (evict_pool key f)))\<rparr>)" for key
    by (intro inv_pool e evict_room)
  then have "node_inv E ((fst (evict_pool key f))\<lparr>f_pool := jm_set key c (f_pool (fst (evict_pool key f))), f_link := k\<rparr>)" for key k
    by (rule inv_core [rotated]) (simp add: quiet)
  then show ?thesis using assms by (simp add: getOrCreateSecureChannel_def Let_def split_beta split: option.split)
qed

lemma core_expire [quiet]: "core (expire_record E now r f) = core f"
  by (simp add: expire_record_def Let_def split_beta quiet)

lemma core_timers [quiet]:
  "core (fst (cleanupExpiredPresence E now f)) = core f" "core (channel_ready E now key f) = core f"
  by (simp_all add: cleanupExpiredPresence_def channel_ready_def Let_def core_fold quiet)

lemma core_gossip [quiet]: "core (fst (performRandomGossip E now rnd rnds answer f)) = core f"
proof -
  have "core (fst (gossip_with E now k answer peer g)) = core g" for k peer g
    by (simp add: gossip_with_def Let_def quiet split: option.split)
  then show ?thesis
    unfolding performRandomGossip_def by (intro in_order_keeps [of "\<lambda>g. core g = core f"]) auto
qed

lemma calm_worker: "onion_calm f (fst (fst (scheduleOutbox E now busy onions answers f)))"
  by (simp add: scheduleOutbox_def Let_def calm_outbox)

lemma calm_timeout: "onion_calm f (fst (channel_timeout key c f))"
  by (simp add: channel_timeout_def calm_pool)

lemma calm_gone: "onion_calm f (channel_gone key f)"
  unfolding channel_gone_def by (rule calm_trans [OF calm_pool calm_core]) (simp add: quiet)

lemma inv_channel:
  assumes "node_inv E f"
  shows "node_inv E (fst (on_channel E now pk nonce c src ev f))"
proof -
  have "node_inv E (channel_ready E now key f)" for key using assms by (rule inv_core [rotated]) (simp add: quiet)
  then show ?thesis
    using assms inv_incoming [OF assms] inv_nat [OF assms, of now "Confirm p" for p] inv_calm [OF assms calm_gone]
      inv_nat [OF assms, of now "Observed nonce a (voter peer)" for a peer]
    by (simp add: on_channel_def split: chan_event.split json.split origin.split)
qed

lemma inv_close: "node_inv E f \<Longrightarrow> node_inv E (fst (close f))"
  by (erule inv_part) (simp_all add: close_def nat_view_def rdv_view_def msg_ids_def)

lemma inv_here: "node_inv E f \<Longrightarrow> node_inv E (fst (deliver_here t m f))"
  using inv_saved [of E f "f_db f" m] by (simp add: deliver_here_def Let_def split_beta split: option.split)

lemma inv_user:
  assumes "node_inv E f"
  shows "node_inv E (fst (snd (sendRemoteMessage E oe answer now m f)))"
proof -
  have s: "node_inv E (f\<lparr>f_seen := k\<rparr>)" for k using assms by (rule inv_core [rotated]) (simp add: quiet)
  have b: "node_inv E (fst (broadcastChannelMessage m' 0 5 None (f\<lparr>f_seen := k\<rparr>)))" for m' k
    using s by (simp add: broadcastChannelMessage_def Let_def)
  have q: "node_inv E (rate_peer E now h p ok (snd (queue_payload E now y (f\<lparr>f_seen := k\<rparr>))))"
    "node_inv E (rate_peer E now h p ok (f\<lparr>f_seen := k\<rparr>))" for y h p ok k
    by (rule inv_core [OF core_items(3)], rule inv_calm [OF s calm_queue])
       (rule inv_core [OF core_items(3)], rule s)
  show ?thesis
    using assms s b q inv_here [OF s] inv_calm [OF s calm_node]
    by (simp add: sendRemoteMessage_def Let_def split_beta split: option.split)
qed

lemma inv_node_step:
  assumes "node_inv E f"
  shows "node_inv E (node_step E now ev f)"
proof -
  have calm: "core g = core f \<Longrightarrow> node_inv E g" for g using assms by (rule inv_core [rotated])
  show ?thesis
    by (cases ev)
       (simp_all add: assms inv_incoming handleLocalDeliveredMessage_def inv_nat inv_rdv calm quiet inv_user inv_connect inv_close
          inv_channel [OF assms]
          inv_calm [OF assms calm_outbox] inv_calm [OF assms calm_worker] inv_calm [OF assms calm_timeout])
qed

section \<open>Every reachable state\<close>

inductive node_reach :: "fed_env \<Rightarrow> fed \<Rightarrow> bool" for E where
  start: "distinct (map m_id (messages d)) \<Longrightarrow> node_reach E (new_fed E d p)"
| event: "node_reach E f \<Longrightarrow> node_reach E (node_step E now ev f)"

lemma inv_start: "distinct (map m_id (messages d)) \<Longrightarrow> node_inv E (new_fed E d p)"
  by (simp add: node_inv_def nat_inv_def votes_for_def open_dials_def maxConcurrentDialbacks_def rdv_inv_def rdv_view_def
      sets_ok_def msg_ids_def new_fed_def)

interpretation node: keeps_invariant "\<lambda>(now, ev) f. node_step E now ev f" "node_inv E"
  by unfold_locales (auto simp: inv_node_step)

lemma inv_reach: "node_reach E f \<Longrightarrow> node_inv E f"
  by (induction rule: node_reach.induct) (auto intro: inv_start inv_node_step)

text \<open>
  C3. A node stays within its limits whatever happens to it. After any sequence of packets, timers, connections,
  messages of its users and failures, at any times and with any answers from the network, no message is stored
  twice, the pool holds at most 500 channels, the three sets of keys at most 2000 each, at most five dialbacks are
  open, at least two peers have seen the public address it goes by, and every tunnel is held by the key of its node.
\<close>

theorem node_stays_in_bounds:
  assumes "node_reach E f"
  shows "distinct (map m_id (messages (f_db f))) \<and> length (f_pool f) \<le> 500 \<and>
    length (sn_presence (f_sets f)) \<le> 2000 \<and> length (sn_routes (f_sets f)) \<le> 2000 \<and> length (sn_offline (f_sets f)) \<le> 2000 \<and>
    open_dials f \<le> 5 \<and> (\<forall>ip. f_publicIp f = Some ip \<longrightarrow> 2 \<le> card (set (votes_for ip f))) \<and>
    (\<forall>n t. jm_get (f_tunnels f) n = Some t \<longrightarrow> node_id_of (fe_crypto E) (tn_ident t) = Some n)"
proof -
  have inv: "node_inv E f" using assms by (rule inv_reach)
  then have nat: "nat_inv f" and rdv: "rdv_inv E f" by (simp_all add: node_inv_def)
  have "open_dials f \<le> 5" "\<forall>ip. f_publicIp f = Some ip \<longrightarrow> 2 \<le> card (set (votes_for ip f))"
    using nat by (simp_all add: nat_inv_def maxConcurrentDialbacks_def distinct_card)
  moreover have "node_id_of (fe_crypto E) (tn_ident t) = Some n" if "jm_get (f_tunnels f) n = Some t" for n t
    using rdv jm_get_mem [OF that] by (auto simp: rdv_inv_def rdv_view_def)
  ultimately show ?thesis using inv by (simp add: node_inv_def sets_ok_def max_pool_def max_seen_def msg_ids_def)
qed

text \<open>A node that has opened a channel, announced itself and been told a message twice.\<close>

theorem node_stays_in_bounds_witness:
  "\<exists>f. node_reach sample_node f \<and> length (f_pool f) = 1 \<and>
    distinct (map m_id (messages (f_db f))) \<and> length (f_pool f) \<le> 500 \<and> open_dials f \<le> 5"
proof -
  let ?init = "sample_fed sample_node"
  let ?f = "node_step sample_node 6 Announce (node_step sample_node 5 (Connect 1 no_link ''h'' (Some 80)) ?init)"
  have start: "node_reach sample_node ?init" unfolding sample_fed_def by (rule node_reach.start) (simp add: empty_db_def)
  have reach: "node_reach sample_node ?f" by (rule node_reach.event, rule node_reach.event, rule start)
  have "resolve sample_node ?init ''h'' (Some 80) = Some (''h'', 80)"
    by (simp add: resolve_def Let_def isValidNodeId_def ends_with_def)
  then have "length (f_pool ?f) = 1"
    using core_announce(3) [of sample_node 6 "node_step sample_node 5 (Connect 1 no_link ''h'' (Some 80)) ?init"]
    by (simp add: core_def getOrCreateSecureChannel_def evict_pool_def sample_fed_def new_fed_def)
  then show ?thesis using node_stays_in_bounds [OF reach] reach by blast
qed

end
