(* ===== verification/SshPacket.thy ===== *)
theory SshPacket
  imports Crypto
begin

text \<open>
  \<open>src/utils/sshPacket.js\<close>: the reader and the writer of SSH packets. A reader stays where an exception left it.
  The writer doubles its buffer until the new bytes fit; with an empty buffer that loop never ends.
\<close>

section \<open>Numbers and strings on the wire\<close>

definition uint32_bytes :: "nat \<Rightarrow> byte list" where
  "uint32_bytes n = [of_nat (n div 16777216), of_nat (n div 65536 mod 256), of_nat (n div 256 mod 256), of_nat (n mod 256)]"

fun uint32_at :: "byte list \<Rightarrow> nat" where
  "uint32_at (a # b # c # d # s) = unat a * 16777216 + unat b * 65536 + unat c * 256 + unat d"
| "uint32_at _ = 0"

datatype encoding = Utf8 | Ascii

text \<open>Encoding as ASCII keeps the low byte of a character; decoding clears the highest bit.\<close>

fun encode_text :: "encoding \<Rightarrow> string \<Rightarrow> byte list" where
  "encode_text Utf8 s = utf8 s"
| "encode_text Ascii s = map of_char s"

fun decode_text :: "encoding \<Rightarrow> byte list \<Rightarrow> string" where
  "decode_text Utf8 bs = from_utf8 bs"
| "decode_text Ascii bs = map (\<lambda>b. char_of (unat b mod 128)) bs"

section \<open>Reading\<close>

record reader =
  rd_buffer :: "byte list"
  rd_offset :: nat

definition new_reader :: "byte list \<Rightarrow> reader" where
  "new_reader b = \<lparr>rd_buffer = b, rd_offset = 0\<rparr>"

definition remaining :: "reader \<Rightarrow> int" where
  "remaining r = int (length (rd_buffer r)) - int (rd_offset r)"

definition advance :: "nat \<Rightarrow> reader \<Rightarrow> reader" where
  "advance n r = r\<lparr>rd_offset := rd_offset r + n\<rparr>"

definition readByte :: "reader \<Rightarrow> byte result \<times> reader" where
  "readByte r =
     (if rd_offset r < length (rd_buffer r) then (Ok (rd_buffer r ! rd_offset r), advance 1 r)
      else (Throw ''ERR_OUT_OF_RANGE'', r))"

definition readBoolean :: "reader \<Rightarrow> bool result \<times> reader" where
  "readBoolean r = (case readByte r of (Ok b, r1) \<Rightarrow> (Ok (b \<noteq> 0), r1) | (Throw e, r1) \<Rightarrow> (Throw e, r1))"

definition readUInt32 :: "reader \<Rightarrow> nat result \<times> reader" where
  "readUInt32 r =
     (if rd_offset r + 4 \<le> length (rd_buffer r) then (Ok (uint32_at (drop (rd_offset r) (rd_buffer r))), advance 4 r)
      else (Throw ''ERR_OUT_OF_RANGE'', r))"

definition readBuffer :: "reader \<Rightarrow> byte list result \<times> reader" where
  "readBuffer r =
     (case readUInt32 r of
        (Throw e, r1) \<Rightarrow> (Throw e, r1)
      | (Ok len, r1) \<Rightarrow>
          if rd_offset r1 + len > length (rd_buffer r1) then (Throw ''SSH_BUFFER_OVERFLOW'', r1)
          else (Ok (take len (drop (rd_offset r1) (rd_buffer r1))), advance len r1))"

definition readString :: "encoding \<Rightarrow> reader \<Rightarrow> string result \<times> reader" where
  "readString enc r = (case readBuffer r of (Ok bs, r1) \<Rightarrow> (Ok (decode_text enc bs), r1) | (Throw e, r1) \<Rightarrow> (Throw e, r1))"

definition readMpint :: "reader \<Rightarrow> byte list result \<times> reader" where
  "readMpint r = readBuffer r"

definition readNameList :: "reader \<Rightarrow> string list result \<times> reader" where
  "readNameList r =
     (case readString Ascii r of
        (Ok s, r1) \<Rightarrow> (Ok (if s = [] then [] else split_on CHR '','' s), r1)
      | (Throw e, r1) \<Rightarrow> (Throw e, r1))"

section \<open>Writing\<close>

record writer =
  w_buffer :: "byte list"
  w_offset :: nat

datatype written = Wrote writer | RangeError writer | Hangs

definition new_writer :: "nat \<Rightarrow> writer" where
  "new_writer initialSize = \<lparr>w_buffer = replicate initialSize 0, w_offset = 0\<rparr>"

definition toBuffer :: "writer \<Rightarrow> byte list" where
  "toBuffer w = take (w_offset w) (w_buffer w)"

fun and_then :: "written \<Rightarrow> (writer \<Rightarrow> written) \<Rightarrow> written" where
  "and_then (Wrote w) g = g w"
| "and_then (RangeError w) g = RangeError w"
| "and_then Hangs g = Hangs"

text \<open>\<open>while (this.offset + bytesNeeded > nextSize) nextSize *= 2\<close>.\<close>

partial_function (option) grow :: "nat \<Rightarrow> nat \<Rightarrow> nat option" where
  "grow needed nextSize = (if needed > nextSize then grow needed (nextSize * 2) else Some nextSize)"

definition ensureCapacity :: "nat \<Rightarrow> writer \<Rightarrow> written" where
  "ensureCapacity bytesNeeded w =
     (if w_offset w + bytesNeeded > length (w_buffer w)
      then case grow (w_offset w + bytesNeeded) (length (w_buffer w) * 2) of
             None \<Rightarrow> Hangs
           | Some nextSize \<Rightarrow> Wrote (w\<lparr>w_buffer := w_buffer w @ replicate (nextSize - length (w_buffer w)) 0\<rparr>)
      else Wrote w)"

text \<open>Bytes put at the offset; the capacity has been made before.\<close>

definition put_bytes :: "byte list \<Rightarrow> writer \<Rightarrow> writer" where
  "put_bytes bs w =
     w\<lparr>w_buffer := take (w_offset w) (w_buffer w) @ bs @ drop (w_offset w + length bs) (w_buffer w),
       w_offset := w_offset w + length bs\<rparr>"

definition writeByte :: "int \<Rightarrow> writer \<Rightarrow> written" where
  "writeByte val w =
     and_then (ensureCapacity 1 w)
       (\<lambda>w1. if 0 \<le> val \<and> val < 256 then Wrote (put_bytes [of_int val] w1) else RangeError w1)"

definition writeBoolean :: "bool \<Rightarrow> writer \<Rightarrow> written" where
  "writeBoolean val w = writeByte (if val then 1 else 0) w"

definition writeUInt32 :: "int \<Rightarrow> writer \<Rightarrow> written" where
  "writeUInt32 val w =
     and_then (ensureCapacity 4 w)
       (\<lambda>w1. if 0 \<le> val \<and> val < 4294967296 then Wrote (put_bytes (uint32_bytes (nat val)) w1) else RangeError w1)"

definition writeRaw :: "byte list \<Rightarrow> writer \<Rightarrow> written" where
  "writeRaw buf w = and_then (ensureCapacity (length buf) w) (\<lambda>w1. Wrote (put_bytes buf w1))"

definition writeBuffer :: "byte list \<Rightarrow> writer \<Rightarrow> written" where
  "writeBuffer buf w =
     and_then (and_then (ensureCapacity (4 + length buf) w) (writeUInt32 (int (length buf)))) (\<lambda>w1. Wrote (put_bytes buf w1))"

definition writeString :: "encoding \<Rightarrow> string \<Rightarrow> writer \<Rightarrow> written" where
  "writeString enc s w = writeBuffer (encode_text enc s) w"

text \<open>A leading zero keeps the number positive; an empty number becomes one zero byte.\<close>

definition mpint_bytes :: "byte list \<Rightarrow> byte list" where
  "mpint_bytes buf = (if buf = [] \<or> hd buf AND 0x80 \<noteq> 0 then 0 # buf else buf)"

definition writeMpint :: "byte list \<Rightarrow> writer \<Rightarrow> written" where
  "writeMpint buf w = writeBuffer (mpint_bytes buf) w"

definition writeNameList :: "string list \<Rightarrow> writer \<Rightarrow> written" where
  "writeNameList names w = writeString Ascii (join_with '','' names) w"

section \<open>The writer appends\<close>

text \<open>A writer that can grow, and an operation that returns with its bytes at the end of what was written.\<close>

definition writer_ok :: "writer \<Rightarrow> bool" where
  "writer_ok w = (w_buffer w \<noteq> [] \<and> w_offset w \<le> length (w_buffer w))"

definition appends :: "writer \<Rightarrow> byte list \<Rightarrow> written \<Rightarrow> bool" where
  "appends w bs out = (\<exists>w'. out = Wrote w' \<and> writer_ok w' \<and> toBuffer w' = toBuffer w @ bs)"

lemma grow_returns: "0 < s \<Longrightarrow> \<exists>t. grow n s = Some t \<and> n \<le> t \<and> s \<le> t"
proof (induction "n - s" arbitrary: s rule: less_induct)
  case less
  show ?case
  proof (cases "n > s")
    case True
    then have "n - s * 2 < n - s" "0 < s * 2" using less.prems by auto
    then obtain t where "grow n (s * 2) = Some t \<and> n \<le> t \<and> s * 2 \<le> t" using less.hyps [of "s * 2"] by blast
    then show ?thesis using True by (subst grow.simps) auto
  qed (subst grow.simps, simp)
qed

lemma grow_from: "grow n s = Some t \<Longrightarrow> n = 0 \<or> s \<noteq> 0"
  by (erule grow.raw_induct [of "\<lambda>n s t. n = 0 \<or> s \<noteq> 0", rotated]) (fastforce split: if_splits)

lemma grow_empty: "0 < n \<Longrightarrow> grow n 0 = None"
  using grow_from [of n 0] by (cases "grow n 0") auto

lemma ensure_ok:
  assumes "writer_ok w"
  shows "\<exists>w'. ensureCapacity n w = Wrote w' \<and> writer_ok w' \<and> toBuffer w' = toBuffer w \<and> w_offset w' = w_offset w \<and>
    w_offset w + n \<le> length (w_buffer w') \<and> (w_offset w + n \<le> length (w_buffer w) \<longrightarrow> w' = w)"
proof (cases "w_offset w + n > length (w_buffer w)")
  case True
  have "0 < length (w_buffer w) * 2" using assms by (simp add: writer_ok_def)
  then obtain t where "grow (w_offset w + n) (length (w_buffer w) * 2) = Some t" "w_offset w + n \<le> t"
    using grow_returns by blast
  then show ?thesis using True assms by (simp add: ensureCapacity_def writer_ok_def toBuffer_def)
qed (use assms in \<open>simp add: ensureCapacity_def\<close>)

lemma put_ok:
  assumes "writer_ok w" "w_offset w + length bs \<le> length (w_buffer w)"
  shows "writer_ok (put_bytes bs w)" "toBuffer (put_bytes bs w) = toBuffer w @ bs"
proof -
  have "length (take (w_offset w) (w_buffer w)) = w_offset w" using assms by simp
  then show "writer_ok (put_bytes bs w)" "toBuffer (put_bytes bs w) = toBuffer w @ bs"
    using assms by (auto simp: writer_ok_def put_bytes_def toBuffer_def)
qed

lemma ensure_put:
  assumes "writer_ok w" "length bs \<le> n"
  shows "appends w bs (and_then (ensureCapacity n w) (\<lambda>w1. Wrote (put_bytes bs w1)))"
proof -
  obtain w' where "ensureCapacity n w = Wrote w'" "writer_ok w'" "toBuffer w' = toBuffer w" "w_offset w' = w_offset w"
    "w_offset w + n \<le> length (w_buffer w')" using ensure_ok [OF assms(1)] by blast
  then show ?thesis using put_ok [of w' bs] assms(2) by (simp add: appends_def)
qed

lemma writeByte_appends: "writer_ok w \<Longrightarrow> 0 \<le> v \<Longrightarrow> v < 256 \<Longrightarrow> appends w [of_int v] (writeByte v w)"
  using ensure_put [of w "[of_int v]" 1] by (simp add: writeByte_def)

lemma writeUInt32_appends: "writer_ok w \<Longrightarrow> n < 4294967296 \<Longrightarrow> appends w (uint32_bytes n) (writeUInt32 (int n) w)"
  using ensure_put [of w "uint32_bytes n" 4] by (simp add: writeUInt32_def uint32_bytes_def)

lemma writeRaw_appends: "writer_ok w \<Longrightarrow> appends w bs (writeRaw bs w)"
  using ensure_put [of w bs "length bs"] by (simp add: writeRaw_def)

lemma length_uint32 [simp]: "length (uint32_bytes n) = 4"
  by (simp add: uint32_bytes_def)

text \<open>A string is written into the room made for its length and itself at once.\<close>

lemma writeBuffer_appends:
  assumes "writer_ok w" "length bs < 4294967296"
  shows "appends w (uint32_bytes (length bs) @ bs) (writeBuffer bs w)"
proof -
  obtain w1 where w1: "ensureCapacity (4 + length bs) w = Wrote w1" "writer_ok w1" "toBuffer w1 = toBuffer w"
      "w_offset w1 + (4 + length bs) \<le> length (w_buffer w1)"
    using ensure_ok [OF assms(1), of "4 + length bs"] by auto
  let ?w2 = "put_bytes (uint32_bytes (length bs)) w1"
  have "ensureCapacity 4 w1 = Wrote w1" using w1(4) by (simp add: ensureCapacity_def)
  then have "writeUInt32 (int (length bs)) w1 = Wrote ?w2" using assms(2) by (simp add: writeUInt32_def)
  moreover have "writer_ok ?w2" "toBuffer ?w2 = toBuffer w @ uint32_bytes (length bs)"
    using put_ok [of w1 "uint32_bytes (length bs)"] w1 by simp_all
  moreover have "w_offset ?w2 + length bs \<le> length (w_buffer ?w2)" using w1(4) by (simp add: put_bytes_def)
  ultimately show ?thesis using put_ok [of ?w2 bs] w1(1) by (simp add: writeBuffer_def appends_def)
qed

section \<open>Packets\<close>

text \<open>The typed contents of a packet, written and read in order.\<close>

datatype ssh_field =
    FByte byte
  | FBool bool
  | FUInt32 nat
  | FString encoding string
  | FBuffer "byte list"
  | FMpint "byte list"
  | FNames "string list"

fun write_field :: "ssh_field \<Rightarrow> writer \<Rightarrow> written" where
  "write_field (FByte b) w = writeByte (uint b) w"
| "write_field (FBool b) w = writeBoolean b w"
| "write_field (FUInt32 n) w = writeUInt32 (int n) w"
| "write_field (FString enc s) w = writeString enc s w"
| "write_field (FBuffer bs) w = writeBuffer bs w"
| "write_field (FMpint bs) w = writeMpint bs w"
| "write_field (FNames ns) w = writeNameList ns w"

definition write_fields :: "ssh_field list \<Rightarrow> writer \<Rightarrow> written" where
  "write_fields fs w = fold (\<lambda>f out. and_then out (write_field f)) fs (Wrote w)"

fun as_read :: "'a result \<times> reader \<Rightarrow> ('a \<Rightarrow> ssh_field) \<Rightarrow> ssh_field result \<times> reader" where
  "as_read (Ok v, r) c = (Ok (c v), r)"
| "as_read (Throw e, r) c = (Throw e, r)"

text \<open>Reading a field of the kind of the one given.\<close>

fun read_like :: "ssh_field \<Rightarrow> reader \<Rightarrow> ssh_field result \<times> reader" where
  "read_like (FByte _) r = as_read (readByte r) FByte"
| "read_like (FBool _) r = as_read (readBoolean r) FBool"
| "read_like (FUInt32 _) r = as_read (readUInt32 r) FUInt32"
| "read_like (FString enc _) r = as_read (readString enc r) (FString enc)"
| "read_like (FBuffer _) r = as_read (readBuffer r) FBuffer"
| "read_like (FMpint _) r = as_read (readMpint r) FMpint"
| "read_like (FNames _) r = as_read (readNameList r) FNames"

fun read_fields_like :: "ssh_field list \<Rightarrow> reader \<Rightarrow> ssh_field list result \<times> reader" where
  "read_fields_like [] r = (Ok [], r)"
| "read_fields_like (f # fs) r =
     (case read_like f r of
        (Throw e, r1) \<Rightarrow> (Throw e, r1)
      | (Ok v, r1) \<Rightarrow>
          (case read_fields_like fs r1 of (Ok vs, r2) \<Rightarrow> (Ok (v # vs), r2) | (Throw e, r2) \<Rightarrow> (Throw e, r2)))"

fun field_bytes :: "ssh_field \<Rightarrow> byte list" where
  "field_bytes (FByte b) = [b]"
| "field_bytes (FBool b) = [if b then 1 else 0]"
| "field_bytes (FUInt32 n) = uint32_bytes n"
| "field_bytes (FString enc s) = uint32_bytes (length (encode_text enc s)) @ encode_text enc s"
| "field_bytes (FBuffer bs) = uint32_bytes (length bs) @ bs"
| "field_bytes (FMpint bs) = uint32_bytes (length (mpint_bytes bs)) @ mpint_bytes bs"
| "field_bytes (FNames ns) = uint32_bytes (length (join_with '','' ns)) @ map of_char (join_with '','' ns)"

text \<open>What fits: lengths and numbers of 32 bits, ASCII where it is asked for, names without a comma.\<close>

definition ascii_text :: "string \<Rightarrow> bool" where
  "ascii_text s = (\<forall>c \<in> set s. (of_char c :: nat) < 128)"

fun field_fits :: "ssh_field \<Rightarrow> bool" where
  "field_fits (FByte _) = True"
| "field_fits (FBool _) = True"
| "field_fits (FUInt32 n) = (n < 4294967296)"
| "field_fits (FString enc s) = (length (encode_text enc s) < 4294967296 \<and> (enc = Ascii \<longrightarrow> ascii_text s))"
| "field_fits (FBuffer bs) = (length bs < 4294967296)"
| "field_fits (FMpint bs) = (length (mpint_bytes bs) < 4294967296)"
| "field_fits (FNames ns) =
     (length (join_with '','' ns) < 4294967296 \<and> ascii_text (join_with '','' ns) \<and> (\<forall>n \<in> set ns. CHR '','' \<notin> set n) \<and> ns \<noteq> [[]])"

text \<open>A number comes back with the zero byte that was put before it.\<close>

fun received :: "ssh_field \<Rightarrow> ssh_field" where
  "received (FMpint bs) = FMpint (mpint_bytes bs)"
| "received f = f"

lemma write_field_appends:
  assumes "writer_ok w" "field_fits f"
  shows "appends w (field_bytes f) (write_field f w)"
proof (cases f)
  case (FByte b)
  have "uint b < 256" using unsigned_less [of b] by simp
  then show ?thesis using FByte writeByte_appends [OF assms(1), of "uint b"] by simp
next
  case (FBool b)
  then show ?thesis using writeByte_appends [OF assms(1), of "if b then 1 else 0"] by (auto simp: writeBoolean_def)
next
  case (FNames ns)
  then show ?thesis
    using assms writeBuffer_appends [OF assms(1), of "map of_char (join_with '','' ns)"]
    by (simp add: writeNameList_def writeString_def)
qed (use assms writeUInt32_appends writeBuffer_appends [OF assms(1)] in \<open>auto simp: writeString_def writeMpint_def\<close>)

lemma fold_fields: "appends v bs out \<Longrightarrow> list_all field_fits fs \<Longrightarrow>
    appends v (bs @ concat (map field_bytes fs)) (fold (\<lambda>f out. and_then out (write_field f)) fs out)"
proof (induction fs arbitrary: bs out)
  case (Cons f fs)
  obtain w where w: "out = Wrote w" "writer_ok w" "toBuffer w = toBuffer v @ bs" using Cons.prems(1) by (auto simp: appends_def)
  have "appends v (bs @ field_bytes f) (write_field f w)"
    using write_field_appends [OF w(2), of f] Cons.prems(2) w(3) by (auto simp: appends_def)
  from Cons.IH [OF this] show ?case using Cons.prems(2) by (simp add: w(1))
qed simp

lemma write_fields_appends:
  assumes "writer_ok w" "list_all field_fits fs"
  shows "appends w (concat (map field_bytes fs)) (write_fields fs w)"
  using fold_fields [of w "[]" "Wrote w" fs] assms by (simp add: write_fields_def) (simp add: appends_def)

section \<open>The reader takes them off\<close>

definition unread :: "reader \<Rightarrow> byte list \<Rightarrow> bool" where
  "unread r s = (rd_offset r \<le> length (rd_buffer r) \<and> drop (rd_offset r) (rd_buffer r) = s)"

lemma unread_length: "unread r s \<Longrightarrow> length (rd_buffer r) = rd_offset r + length s"
  by (auto simp: unread_def)

lemma unread_new [simp]: "unread (new_reader b) b"
  by (simp add: unread_def new_reader_def)

lemma unread_remaining: "unread r s \<Longrightarrow> remaining r = int (length s)"
  by (simp add: remaining_def unread_length)

lemma unread_advance: "unread r (p @ s) \<Longrightarrow> unread (advance (length p) r) s"
proof -
  assume u: "unread r (p @ s)"
  then have "drop (rd_offset r) (rd_buffer r) = p @ s" by (simp add: unread_def)
  then have "drop (rd_offset r + length p) (rd_buffer r) = s" by (metis add.commute append_eq_conv_conj drop_drop)
  then show ?thesis using unread_length [OF u] by (simp add: unread_def advance_def)
qed

lemma base256: "a * 256 + r0 = n \<Longrightarrow> b * 256 + r1 = a \<Longrightarrow> c * 256 + r2 = b \<Longrightarrow>
    c * 16777216 + r2 * 65536 + r1 * 256 + r0 = (n :: nat)"
  by simp

lemma uint32_value: "n < 4294967296 \<Longrightarrow> uint32_at (uint32_bytes n @ s) = n"
proof -
  assume "n < 4294967296"
  then have d: "n div 16777216 < 256" by linarith
  have "n div 16777216 * 16777216 + n div 65536 mod 256 * 65536 + n div 256 mod 256 * 256 + n mod 256 = n"
    using base256 [of "n div 256" "n mod 256" n "n div 65536" "n div 256 mod 256" "n div 16777216" "n div 65536 mod 256"]
      div_mult2_eq [of n 256 256] div_mult2_eq [of n 65536 256] by simp
  then show ?thesis using d by (simp add: uint32_bytes_def unat_of_nat)
qed

lemma read_byte:
  assumes "unread r (b # s)"
  shows "readByte r = (Ok b, advance 1 r) \<and> unread (advance 1 r) s"
proof -
  have "rd_buffer r ! rd_offset r = b" using assms by (auto simp: unread_def intro: nth_via_drop)
  then show ?thesis using unread_advance [of r "[b]" s] unread_length [OF assms] assms by (simp add: readByte_def)
qed

lemma read_byte_end: "unread r [] \<Longrightarrow> readByte r = (Throw ''ERR_OUT_OF_RANGE'', r)"
  by (simp add: readByte_def unread_length)

lemma read_uint32:
  assumes "unread r (uint32_bytes n @ s)" "n < 4294967296"
  shows "readUInt32 r = (Ok n, advance 4 r) \<and> unread (advance 4 r) s"
proof -
  have "drop (rd_offset r) (rd_buffer r) = uint32_bytes n @ s" using assms(1) by (simp add: unread_def)
  then show ?thesis
    using unread_advance [OF assms(1)] unread_length [OF assms(1)] uint32_value [OF assms(2)] by (simp add: readUInt32_def)
qed

lemma read_uint32_end: "unread r s \<Longrightarrow> length s < 4 \<Longrightarrow> readUInt32 r = (Throw ''ERR_OUT_OF_RANGE'', r)"
  by (simp add: readUInt32_def unread_length)

lemma read_buffer:
  assumes "unread r (uint32_bytes (length bs) @ bs @ s)" "length bs < 4294967296"
  shows "\<exists>r'. readBuffer r = (Ok bs, r') \<and> unread r' s"
proof -
  have u: "readUInt32 r = (Ok (length bs), advance 4 r)" "unread (advance 4 r) (bs @ s)"
    using read_uint32 [OF assms] by blast+
  then show ?thesis
    using unread_length [OF u(2)] unread_advance [OF u(2)] by (auto simp: readBuffer_def unread_def)
qed

lemma read_buffer_end:
  assumes "unread r p" "uint32_bytes (length bs) @ bs = p @ q" "q \<noteq> []" "length bs < 4294967296"
  shows "\<exists>e r'. readBuffer r = (Throw e, r')"
proof (cases "length p < 4")
  case False
  then have "uint32_bytes (length bs) = take 4 p"
    using arg_cong [OF assms(2), of "take 4"] by simp
  then have p: "p = uint32_bytes (length bs) @ drop 4 p" by (metis append_take_drop_id)
  then have "readUInt32 r = (Ok (length bs), advance 4 r)" "unread (advance 4 r) (drop 4 p)"
    using read_uint32 [of r "length bs" "drop 4 p"] assms(1,4) by auto
  moreover have "length (drop 4 p) < length bs"
  proof -
    have "0 < length q" using assms(3) by simp
    moreover have "4 + length bs = length p + length q" using arg_cong [OF assms(2), of length] by simp
    ultimately show ?thesis using False by (simp only: length_drop)
  qed
  ultimately show ?thesis by (simp add: readBuffer_def unread_length)
qed (simp add: readBuffer_def read_uint32_end [OF assms(1)])

lemma unat_char: "unat (of_char c :: byte) = of_char c"
proof -
  have "(of_char c :: byte) = of_nat (of_char c)" by (rule of_nat_of_char [symmetric])
  then show ?thesis by (simp only: unat_of_nat) simp
qed

lemma ascii_back: "ascii_text s \<Longrightarrow> map (\<lambda>b :: byte. char_of (unat b mod 128)) (map of_char s) = s"
  by (induction s) (auto simp: ascii_text_def unat_char)

lemma text_back: "(enc = Ascii \<longrightarrow> ascii_text s) \<Longrightarrow> decode_text enc (encode_text enc s) = s"
  using ascii_back [of s] by (cases enc) simp_all

lemma names_back:
  assumes "\<forall>n \<in> set ns. CHR '','' \<notin> set n" "ns \<noteq> [[]]"
  shows "(if join_with '','' ns = [] then [] else split_on CHR '','' (join_with '','' ns)) = ns"
proof (cases "ns = []")
  case False
  then have "split_on CHR '','' (join_with '','' ns) = ns" using assms(1) by (intro split_join) auto
  moreover have "join_with '','' ns \<noteq> []" using calculation assms(2) by auto
  ultimately show ?thesis by simp
qed simp

lemma read_string:
  assumes "unread r (uint32_bytes (length (encode_text enc t)) @ encode_text enc t @ s)"
    "length (encode_text enc t) < 4294967296" "enc = Ascii \<longrightarrow> ascii_text t"
  shows "\<exists>r'. readString enc r = (Ok t, r') \<and> unread r' s"
  using read_buffer [OF assms(1,2)] text_back [OF assms(3)] by (auto simp: readString_def)

lemma read_field:
  assumes "unread r (field_bytes f @ s)" "field_fits f"
  shows "\<exists>r'. read_like f r = (Ok (received f), r') \<and> unread r' s"
proof (cases f)
  case (FByte b)
  then show ?thesis using assms(1) read_byte [of r b s] by auto
next
  case (FBool b)
  then show ?thesis using assms(1) read_byte [of r "if b then 1 else 0" s] by (auto simp: readBoolean_def)
next
  case (FUInt32 n)
  then show ?thesis using assms read_uint32 [of r n s] by auto
next
  case (FString enc t)
  then show ?thesis using assms read_string [of r enc t s] by fastforce
next
  case (FBuffer bs)
  then show ?thesis using assms read_buffer [of r bs s] by fastforce
next
  case (FMpint bs)
  then show ?thesis using assms read_buffer [of r "mpint_bytes bs" s] by (fastforce simp: readMpint_def)
next
  case (FNames ns)
  then have "\<exists>r'. readString Ascii r = (Ok (join_with '','' ns), r') \<and> unread r' s"
    using assms read_string [of r Ascii "join_with '','' ns" s] by simp
  moreover have "(if join_with '','' ns = [] then [] else split_on CHR '','' (join_with '','' ns)) = ns"
    using FNames assms(2) by (intro names_back) simp_all
  ultimately show ?thesis unfolding FNames by (auto simp: readNameList_def simp del: join_with.simps)
qed

lemma read_field_end:
  assumes "unread r p" "field_bytes f = p @ q" "q \<noteq> []" "field_fits f"
  shows "\<exists>e r'. read_like f r = (Throw e, r')"
proof -
  have buffer: "\<exists>e r'. readBuffer r = (Throw e, r')"
    if "field_bytes f = uint32_bytes (length bs) @ bs" "length bs < 4294967296" for bs
    using read_buffer_end [OF assms(1), of bs q] that assms(2,3) by simp
  have one: "readByte r = (Throw ''ERR_OUT_OF_RANGE'', r)" if "length (field_bytes f) = 1"
  proof -
    have "p = []" using arg_cong [OF assms(2), of length] that assms(3) by (cases p; cases q) simp_all
    then show ?thesis using read_byte_end assms(1) by simp
  qed
  show ?thesis
  proof (cases f)
    case (FByte b)
    then show ?thesis using one by simp
  next
    case (FBool b)
    then show ?thesis using one by (simp add: readBoolean_def)
  next
    case (FUInt32 n)
    have "length p < 4" using arg_cong [OF assms(2), of length] assms(3) FUInt32 by (cases q) simp_all
    then show ?thesis using FUInt32 read_uint32_end [OF assms(1)] by simp
  next
    case (FString enc t)
    then obtain e r' where "readBuffer r = (Throw e, r')" using buffer [of "encode_text enc t"] assms(4) by auto
    then show ?thesis using FString by (simp add: readString_def)
  next
    case (FBuffer bs)
    then obtain e r' where "readBuffer r = (Throw e, r')" using buffer [of bs] assms(4) by auto
    then show ?thesis using FBuffer by simp
  next
    case (FMpint bs)
    then obtain e r' where "readBuffer r = (Throw e, r')" using buffer [of "mpint_bytes bs"] assms(4) by auto
    then show ?thesis using FMpint by (simp add: readMpint_def)
  next
    case (FNames ns)
    then obtain e r' where "readBuffer r = (Throw e, r')" using buffer [of "map of_char (join_with '','' ns)"] assms(4) by auto
    then show ?thesis using FNames by (simp add: readNameList_def readString_def)
  qed
qed

lemma read_fields:
  "unread r (concat (map field_bytes fs) @ s) \<Longrightarrow> list_all field_fits fs \<Longrightarrow>
     \<exists>r'. read_fields_like fs r = (Ok (map received fs), r') \<and> unread r' s"
proof (induction fs arbitrary: r)
  case (Cons f fs)
  obtain r1 where r1: "read_like f r = (Ok (received f), r1)" "unread r1 (concat (map field_bytes fs) @ s)"
    using read_field [of r f "concat (map field_bytes fs) @ s"] Cons.prems by auto
  then show ?case using Cons.IH [OF r1(2)] Cons.prems(2) by auto
qed simp

lemma read_fields_end:
  "unread r p \<Longrightarrow> concat (map field_bytes fs) = p @ q \<Longrightarrow> q \<noteq> [] \<Longrightarrow> list_all field_fits fs \<Longrightarrow>
     \<exists>e r'. read_fields_like fs r = (Throw e, r')"
proof (induction fs arbitrary: r p)
  case (Cons f fs)
  from Cons.prems(2) consider m where "p = field_bytes f @ m" "concat (map field_bytes fs) = m @ q"
    | m where "field_bytes f = p @ m" "m \<noteq> []" by (fastforce simp: append_eq_append_conv2)
  then show ?case
  proof cases
    case (1 m)
    obtain r1 where "read_like f r = (Ok (received f), r1)" "unread r1 m"
      using read_field [of r f m] Cons.prems 1(1) by auto
    then show ?thesis using Cons.IH [of r1 m] Cons.prems 1(2) by fastforce
  next
    case (2 m)
    then show ?thesis using read_field_end [OF Cons.prems(1), of f m] Cons.prems(4) by fastforce
  qed
qed simp

text \<open>
  What is written is read. A packet of any fields that fit, written into a new writer of any positive size,
  reads back field by field, with the reader left exactly at the bytes that follow; and when any of its last bytes are
  missing, reading it raises instead of returning.
\<close>

theorem packet_roundtrip:
  assumes "list_all field_fits fs" "0 < n"
  shows "\<exists>w. write_fields fs (new_writer n) = Wrote w \<and>
    (\<forall>rest. \<exists>r. read_fields_like fs (new_reader (toBuffer w @ rest)) = (Ok (map received fs), r) \<and> remaining r = int (length rest)) \<and>
    (\<forall>k < length (toBuffer w). \<exists>e r. read_fields_like fs (new_reader (take k (toBuffer w))) = (Throw e, r))"
proof -
  have new: "writer_ok (new_writer n)" "toBuffer (new_writer n) = []"
    using assms(2) by (simp_all add: writer_ok_def new_writer_def toBuffer_def)
  obtain w where w: "write_fields fs (new_writer n) = Wrote w" "toBuffer w = concat (map field_bytes fs)"
    using write_fields_appends [OF new(1) assms(1)] new(2) by (auto simp: appends_def)
  have "\<exists>r. read_fields_like fs (new_reader (toBuffer w @ rest)) = (Ok (map received fs), r) \<and> remaining r = int (length rest)" for rest
    unfolding w(2) using read_fields [of "new_reader (concat (map field_bytes fs) @ rest)" fs rest, OF unread_new assms(1)]
      unread_remaining by blast
  moreover have "\<exists>e r. read_fields_like fs (new_reader (take k (toBuffer w))) = (Throw e, r)" if "k < length (toBuffer w)" for k
    using read_fields_end [OF unread_new, of fs "take k (toBuffer w)" "drop k (toBuffer w)"] that assms(1) w(2) by simp
  ultimately show ?thesis using w(1) by blast
qed

text \<open>A writer without any buffer is never done with its first byte.\<close>

lemma empty_writer_hangs: "writeByte v (new_writer 0) = Hangs"
  by (simp add: writeByte_def ensureCapacity_def new_writer_def grow_empty)

theorem packet_roundtrip_witness:
  "\<exists>w r. write_fields [FByte 20, FNames [''a'', ''b''], FMpint [200], FUInt32 7] (new_writer 1) = Wrote w \<and>
    read_fields_like [FByte 20, FNames [''a'', ''b''], FMpint [200], FUInt32 7] (new_reader (toBuffer w @ [9])) =
      (Ok [FByte 20, FNames [''a'', ''b''], FMpint [0, 200], FUInt32 7], r) \<and> remaining r = 1"
proof -
  have "list_all field_fits [FByte 20, FNames [''a'', ''b''], FMpint [200], FUInt32 7]"
    by (simp add: mpint_bytes_def ascii_text_def)
  moreover have "mpint_bytes [200] = [0, 200]" by (simp add: mpint_bytes_def)
  ultimately show ?thesis
    using packet_roundtrip [of "[FByte 20, FNames [''a'', ''b''], FMpint [200], FUInt32 7]" 1] by fastforce
qed

end
