(* ===== verification/InputParser.thy ===== *)
theory InputParser
  imports Channel
begin

text \<open>
  \<open>src/utils/inputParser.js\<close>: the bytes of a terminal become actions. Telnet commands are taken out of each chunk,
  the rest is decoded and read character by character through a small machine for escape sequences and pastes.
\<close>

section \<open>Actions\<close>

datatype key_action =
    RESIZE nat nat
  | PASTE_COMPLETE string bool
  | CHAR_IN string
  | KEY_ENTER bool
  | KEY_TAB | KEY_BACKSPACE | KEY_CTRL_W | KEY_CTRL_U | KEY_INTERRUPT | KEY_ESC
  | KEY_UP | KEY_DOWN | KEY_RIGHT | KEY_LEFT | KEY_HOME | KEY_END | KEY_DELETE | KEY_PAGE_UP | KEY_PAGE_DOWN
  | KEY_UNKNOWN string

definition resize_event :: "nat \<Rightarrow> nat \<Rightarrow> key_action list" where
  "resize_event width height = (if width > 0 \<and> height > 0 then [RESIZE width height] else [])"

section \<open>Telnet\<close>

text \<open>A byte beyond the end counts as zero in arithmetic and equals nothing in a comparison.\<close>

definition byte_at :: "nat \<Rightarrow> byte list \<Rightarrow> nat" where
  "byte_at i bs = (if i < length bs then unat (bs ! i) else 0)"

text \<open>Up to and with the byte that ends a subnegotiation; without one everything is skipped.\<close>

definition after_se :: "byte list \<Rightarrow> byte list" where
  "after_se bs = tl (dropWhile (\<lambda>b. b \<noteq> 0xF0) bs)"

lemma after_se_less: "length (after_se bs) \<le> length bs"
  by (simp add: after_se_def) (metis diff_le_self length_dropWhile_le order_trans)

function extractTelnetEvents :: "byte list \<Rightarrow> byte list \<times> key_action list" where
  "extractTelnetEvents [] = ([], [])"
| "extractTelnetEvents (b # bs) =
     (if b \<noteq> 0xFF then (let (clean, ev) = extractTelnetEvents bs in (b # clean, ev))
      else case bs of
        [] \<Rightarrow> ([], [])
      | c # cs \<Rightarrow>
          if c = 0xFA \<and> cs \<noteq> [] \<and> hd cs = 0x1F
          then (let ev = resize_event (byte_at 2 bs * 256 + byte_at 3 bs) (byte_at 4 bs * 256 + byte_at 5 bs);
                    (clean, ev') = extractTelnetEvents (after_se (drop 5 bs))
                in (clean, ev @ ev'))
          else if c = 0xFA then extractTelnetEvents (after_se cs)
          else if 0xFA < unat c \<and> unat c \<le> 0xFE then extractTelnetEvents (tl cs)
          else extractTelnetEvents cs)"
  by pat_completeness auto
termination
proof (relation "measure length", goal_cases)
  case (3 b bs c cs)
  then show ?case using after_se_less [of "drop 5 bs"] by simp
next
  case (4 b bs c cs)
  then show ?case using after_se_less [of cs] by simp
qed auto

section \<open>Escape sequences\<close>

definition ESC :: char where
  "ESC = CHR 0x1B"

definition mapEscapeSequence :: "string \<Rightarrow> key_action" where
  "mapEscapeSequence s =
     (if s = ESC # ''[A'' \<or> s = ESC # ''OA'' then KEY_UP
      else if s = ESC # ''[B'' \<or> s = ESC # ''OB'' then KEY_DOWN
      else if s = ESC # ''[C'' \<or> s = ESC # ''OC'' then KEY_RIGHT
      else if s = ESC # ''[D'' \<or> s = ESC # ''OD'' then KEY_LEFT
      else if s = ESC # ''[H'' \<or> s = ESC # ''[1~'' then KEY_HOME
      else if s = ESC # ''[F'' \<or> s = ESC # ''[4~'' then KEY_END
      else if s = ESC # ''[3~'' then KEY_DELETE
      else if s = ESC # ''[5~'' then KEY_PAGE_UP
      else if s = ESC # ''[6~'' then KEY_PAGE_DOWN
      else KEY_UNKNOWN s)"

text \<open>\<open>\x1b[<rows>;<columns>R\<close>; the code holds one escape, so the expression matches all of it or nothing.\<close>

definition cursor_report :: "string \<Rightarrow> key_action list" where
  "cursor_report code =
     (if starts_with (ESC # ''['') code
      then case split_on CHR '';'' (butlast (drop 2 code)) of
        [rows, cols] \<Rightarrow>
          if rows \<noteq> [] \<and> cols \<noteq> [] \<and> all_digits rows \<and> all_digits cols
          then resize_event (digits_value 10 cols) (digits_value 10 rows) else []
      | _ \<Rightarrow> []
      else [])"

section \<open>The machine\<close>

definition MAX_PASTE_BUFFER_SIZE :: nat where
  "MAX_PASTE_BUFFER_SIZE = 65536"

record input_parser =
  ip_held :: "byte list"
  ip_escapeState :: nat
  ip_escapeCode :: string
  ip_isPasteMode :: bool
  ip_pasteBuffer :: string

definition new_parser :: input_parser where
  "new_parser = \<lparr>ip_held = [], ip_escapeState = 0, ip_escapeCode = [], ip_isPasteMode = False, ip_pasteBuffer = []\<rparr>"

definition code_of :: "char \<Rightarrow> nat" where
  "code_of c = of_char c"

text \<open>A character outside of an escape sequence.\<close>

definition key_of :: "bool \<Rightarrow> char \<Rightarrow> key_action list" where
  "key_of hasChars c =
     (let code = code_of c
      in if code = 0x09 then [if hasChars then CHAR_IN ''  '' else KEY_TAB]
         else if code = 0x0A then [KEY_ENTER hasChars]
         else if code = 0x08 \<or> code = 0x7F then [KEY_BACKSPACE]
         else if code = 0x17 then [KEY_CTRL_W]
         else if code = 0x15 then [KEY_CTRL_U]
         else if code = 0x03 \<or> code = 0x04 then [KEY_INTERRUPT]
         else if code \<ge> 32 then [CHAR_IN [c]]
         else [])"

definition plain_char :: "bool \<Rightarrow> char \<Rightarrow> input_parser \<Rightarrow> input_parser \<times> key_action list" where
  "plain_char hasChars c p =
     (if ip_isPasteMode p
      then (if length (ip_pasteBuffer p) < MAX_PASTE_BUFFER_SIZE then p\<lparr>ip_pasteBuffer := ip_pasteBuffer p @ [c]\<rparr> else p, [])
      else (p, key_of hasChars c))"

definition start_escape :: "input_parser \<Rightarrow> input_parser" where
  "start_escape p = p\<lparr>ip_escapeState := 1, ip_escapeCode := [ESC]\<rparr>"

definition end_escape :: "input_parser \<Rightarrow> input_parser" where
  "end_escape p = p\<lparr>ip_escapeState := 0, ip_escapeCode := []\<rparr>"

text \<open>The character that completes a sequence, already part of the code.\<close>

definition complete_escape :: "input_parser \<Rightarrow> input_parser \<times> key_action list" where
  "complete_escape p =
     (if ip_escapeCode p = ESC # ''[200~'' then (end_escape (p\<lparr>ip_isPasteMode := True, ip_pasteBuffer := []\<rparr>), [])
      else if ip_escapeCode p = ESC # ''[201~''
      then (end_escape (p\<lparr>ip_isPasteMode := False, ip_pasteBuffer := []\<rparr>), [PASTE_COMPLETE (ip_pasteBuffer p) True])
      else (end_escape p, if ip_isPasteMode p then [] else [mapEscapeSequence (ip_escapeCode p)]))"

definition coded :: "char \<Rightarrow> input_parser \<Rightarrow> input_parser" where
  "coded c p = p\<lparr>ip_escapeCode := ip_escapeCode p @ [c]\<rparr>"

definition lone_escape :: "input_parser \<Rightarrow> key_action list" where
  "lone_escape p = (if ip_isPasteMode p then [] else [KEY_ESC])"

definition after_escape :: "bool \<Rightarrow> char \<Rightarrow> input_parser \<Rightarrow> input_parser \<times> key_action list" where
  "after_escape hasChars c p =
     (if c = ESC then (start_escape p, lone_escape p)
      else if c = CHR ''['' \<or> c = CHR ''O'' then ((coded c p)\<lparr>ip_escapeState := 2\<rparr>, [])
      else let (p', as) = plain_char hasChars c (end_escape p) in (p', lone_escape p @ as))"

definition in_sequence :: "char \<Rightarrow> input_parser \<Rightarrow> input_parser \<times> key_action list" where
  "in_sequence c p =
     (if c = ESC then (start_escape p, [])
      else if c = CHR ''R'' then (end_escape (coded c p), cursor_report (ip_escapeCode (coded c p)))
      else if 0x40 \<le> code_of c \<and> code_of c \<le> 0x7E then complete_escape (coded c p)
      else (coded c p, []))"

definition read_char :: "bool \<Rightarrow> char \<Rightarrow> input_parser \<Rightarrow> input_parser \<times> key_action list" where
  "read_char hasChars c p =
     (if code_of c = 0 then (p, [])
      else if ip_escapeState p = 1 then after_escape hasChars c p
      else if ip_escapeState p = 2 then in_sequence c p
      else if ip_escapeState p = 0 \<and> c = ESC then (start_escape p, [])
      else plain_char hasChars c p)"

fun read_chars :: "bool \<Rightarrow> string \<Rightarrow> input_parser \<Rightarrow> input_parser \<times> key_action list" where
  "read_chars hasChars [] p = (p, [])"
| "read_chars hasChars (c # cs) p =
     (let (p1, a1) = read_char hasChars c p; (p2, a2) = read_chars hasChars cs p1 in (p2, a1 @ a2))"

section \<open>Chunks\<close>

text \<open>\<open>text.replace(/<a><b>/g, '\n')\<close>.\<close>

fun replace_pair :: "char \<Rightarrow> char \<Rightarrow> string \<Rightarrow> string" where
  "replace_pair a b (x # y # s) = (if x = a \<and> y = b then CHR 0x0A # replace_pair a b s else x # replace_pair a b (y # s))"
| "replace_pair a b s = s"

definition newlines :: "string \<Rightarrow> string" where
  "newlines t =
     map (\<lambda>c. if c = CHR 0x0D then CHR 0x0A else c) (replace_pair CHR 0x0D CHR 0x0A (replace_pair CHR 0x0D CHR 0x00 t))"

definition strip_newlines :: "string \<Rightarrow> string" where
  "strip_newlines t = rev (dropWhile (\<lambda>c. c = CHR 0x0A) (rev (dropWhile (\<lambda>c. c = CHR 0x0A) t)))"

text \<open>Several lines in one packet from a terminal that does not bracket its pastes.\<close>

definition raw_paste :: "input_parser \<Rightarrow> string \<Rightarrow> bool" where
  "raw_paste p t =
     (\<not> ip_isPasteMode p \<and> ip_escapeState p = 0 \<and> ESC \<notin> set t \<and> CHR 0x0A \<in> set (strip_newlines t))"

definition has_chars :: "string \<Rightarrow> bool" where
  "has_chars t = list_ex (\<lambda>c. code_of c \<ge> 32 \<and> code_of c \<noteq> 0x7F) t"

definition read_text :: "string \<Rightarrow> input_parser \<Rightarrow> input_parser \<times> key_action list" where
  "read_text t p =
     (if raw_paste p t then (p, [PASTE_COMPLETE (take MAX_PASTE_BUFFER_SIZE (strip_newlines t)) False])
      else read_chars (has_chars t) t p)"

definition parse_input :: "byte list \<Rightarrow> input_parser \<Rightarrow> input_parser \<times> key_action list" where
  "parse_input rawBuffer p =
     (let (clean, events) = extractTelnetEvents rawBuffer
      in if clean = [] then (p, events)
         else let (t, held) = decoder_write (ip_held p) clean;
                  (p', as) = read_text (newlines t) (p\<lparr>ip_held := held\<rparr>)
              in (p', events @ as))"

text \<open>Chunk after chunk.\<close>

fun parse_chunks :: "byte list list \<Rightarrow> input_parser \<Rightarrow> input_parser \<times> key_action list" where
  "parse_chunks [] p = (p, [])"
| "parse_chunks (b # bs) p =
     (let (p1, a1) = parse_input b p; (p2, a2) = parse_chunks bs p1 in (p2, a1 @ a2))"

section \<open>What comes out\<close>

definition parser_ok :: "input_parser \<Rightarrow> bool" where
  "parser_ok p =
     ((ip_escapeState p = 0 \<and> ip_escapeCode p = [] \<or> ip_escapeState p = 1 \<and> ip_escapeCode p = [ESC] \<or>
       ip_escapeState p = 2 \<and> (\<exists>r. ip_escapeCode p = ESC # CHR ''['' # r \<or> ip_escapeCode p = ESC # CHR ''O'' # r)) \<and>
      length (ip_pasteBuffer p) \<le> MAX_PASTE_BUFFER_SIZE \<and> (\<not> ip_isPasteMode p \<longrightarrow> ip_pasteBuffer p = []))"

text \<open>Typed text is two spaces or one character that is no control character of ASCII; pastes and sizes are bounded.\<close>

fun action_ok :: "key_action \<Rightarrow> bool" where
  "action_ok (CHAR_IN s) = (s = ''  '' \<or> (\<exists>c. s = [c] \<and> code_of c \<ge> 32 \<and> code_of c \<noteq> 0x7F))"
| "action_ok (PASTE_COMPLETE s b) = (length s \<le> MAX_PASTE_BUFFER_SIZE)"
| "action_ok (RESIZE w h) = (0 < w \<and> 0 < h)"
| "action_ok _ = True"

definition result_ok :: "input_parser \<times> key_action list \<Rightarrow> bool" where
  "result_ok r = (parser_ok (fst r) \<and> list_all action_ok (snd r))"

lemma resize_ok: "list_all action_ok (resize_event w h)"
  by (simp add: resize_event_def)

lemma cursor_ok: "list_all action_ok (cursor_report code)"
  by (auto simp: cursor_report_def resize_ok split: list.split)

lemma map_escape_ok: "action_ok (mapEscapeSequence s)"
  by (simp add: mapEscapeSequence_def)

lemma key_ok: "list_all action_ok (key_of h c)"
  by (simp add: key_of_def Let_def)

lemma plain_ok: "parser_ok p \<Longrightarrow> result_ok (plain_char h c p)"
  by (auto simp: plain_char_def result_ok_def key_ok parser_ok_def)

lemma end_ok: "parser_ok p \<Longrightarrow> parser_ok (end_escape p)"
  by (simp add: parser_ok_def end_escape_def)

lemma start_ok: "parser_ok p \<Longrightarrow> parser_ok (start_escape p)"
  by (simp add: parser_ok_def start_escape_def)

lemma complete_ok: "parser_ok p \<Longrightarrow> result_ok (complete_escape p)"
  by (auto simp: complete_escape_def result_ok_def map_escape_ok) (auto simp: parser_ok_def end_escape_def)

lemma coded_ok: "parser_ok p \<Longrightarrow> ip_escapeState p = 2 \<Longrightarrow> parser_ok (coded c p)"
  by (auto simp: parser_ok_def coded_def)

lemma entered_ok: "parser_ok p \<Longrightarrow> ip_escapeState p = 1 \<Longrightarrow> c = CHR ''['' \<or> c = CHR ''O'' \<Longrightarrow>
    parser_ok ((coded c p)\<lparr>ip_escapeState := 2\<rparr>)"
  by (auto simp: parser_ok_def coded_def)

lemma after_escape_ok: "parser_ok p \<Longrightarrow> ip_escapeState p = 1 \<Longrightarrow> result_ok (after_escape h c p)"
  using plain_ok [OF end_ok, of p h c] entered_ok [of p c] start_ok [of p]
  by (cases "c = ESC"; cases "c = CHR ''['' \<or> c = CHR ''O''")
     (simp_all add: after_escape_def result_ok_def lone_escape_def split_beta)

lemma in_sequence_ok: "parser_ok p \<Longrightarrow> ip_escapeState p = 2 \<Longrightarrow> result_ok (in_sequence c p)"
  using coded_ok [of p c] end_ok [OF coded_ok, of p c] complete_ok [OF coded_ok, of p c] start_ok [of p] cursor_ok
  by (cases "c = ESC"; cases "c = CHR ''R''") (simp_all add: in_sequence_def result_ok_def)

lemma read_char_ok:
  assumes "parser_ok p"
  shows "result_ok (read_char h c p)"
  using plain_ok [OF assms, of h c] after_escape_ok [OF assms, of h c] in_sequence_ok [OF assms, of c] start_ok [OF assms] assms
  by (simp add: read_char_def) (simp add: result_ok_def)

lemma read_chars_ok: "parser_ok p \<Longrightarrow> result_ok (read_chars h cs p)"
proof (induction cs arbitrary: p)
  case (Cons c cs)
  then show ?case using read_char_ok [OF Cons.prems, of h c] by (simp add: result_ok_def split_beta)
qed (simp add: result_ok_def)

lemma telnet_ok: "list_all action_ok (snd (extractTelnetEvents bs))"
  by (induction bs rule: extractTelnetEvents.induct) (auto simp: split_beta resize_ok split: list.split)

lemma parse_ok: "parser_ok p \<Longrightarrow> result_ok (parse_input b p)"
proof -
  assume p: "parser_ok p"
  have held: "parser_ok (p\<lparr>ip_held := h\<rparr>)" for h using p by (simp add: parser_ok_def)
  have "result_ok (read_text t (p\<lparr>ip_held := h\<rparr>))" for t h
    using read_chars_ok [OF held] held by (simp add: read_text_def) (simp add: result_ok_def)
  then show ?thesis using p telnet_ok [of b] by (simp add: parse_input_def split_beta result_ok_def)
qed

lemma parse_chunks_ok: "parser_ok p \<Longrightarrow> result_ok (parse_chunks bs p)"
proof (induction bs arbitrary: p)
  case (Cons b bs)
  then show ?case using parse_ok [OF Cons.prems, of b] by (simp add: result_ok_def split_beta)
qed (simp add: result_ok_def)

text \<open>
  C36. Whatever bytes a terminal sends in whatever packets, the parser stays well formed, at most 64 KB of a paste are
  kept, no control character comes out as typed text, and no window size is zero.
\<close>

theorem input_is_clean:
  "parser_ok (fst (parse_chunks bs new_parser)) \<and> list_all action_ok (snd (parse_chunks bs new_parser))"
  using parse_chunks_ok [of new_parser bs] by (simp add: result_ok_def parser_ok_def new_parser_def)

section \<open>A bracketed paste arrives whole\<close>

text \<open>What the machine does with the next character does not depend on the packet it came in.\<close>

definition steady :: "input_parser \<Rightarrow> char \<Rightarrow> bool" where
  "steady p c =
     (ip_isPasteMode p \<or> ip_escapeState p = 2 \<or> ip_escapeState p = 0 \<and> c = ESC \<or>
      ip_escapeState p = 1 \<and> (c = ESC \<or> c = CHR ''['' \<or> c = CHR ''O''))"

fun all_steady :: "string \<Rightarrow> input_parser \<Rightarrow> bool" where
  "all_steady [] p = True"
| "all_steady (c # cs) p = (steady p c \<and> all_steady cs (fst (read_char False c p)))"

lemma ESC_not_bracket [simp]: "ESC \<noteq> CHR ''[''" "ESC \<noteq> CHR ''O''" "ESC \<noteq> CHR ''~''" "CHR ''['' \<noteq> ESC" "CHR ''~'' \<noteq> ESC"
  by (simp_all add: ESC_def)

lemma paste_plain: "ip_isPasteMode p \<Longrightarrow> plain_char h c p = plain_char False c p"
  by (simp add: plain_char_def)

lemma paste_end [simp]: "ip_isPasteMode (end_escape p) = ip_isPasteMode p"
  by (simp add: end_escape_def)

lemma steady_after: "ip_isPasteMode p \<or> c = ESC \<or> c = CHR ''['' \<or> c = CHR ''O'' \<Longrightarrow> after_escape h c p = after_escape False c p"
  using paste_plain [of "end_escape p" h c] by (auto simp: after_escape_def)

lemma steady_char:
  assumes "steady p c"
  shows "read_char h c p = read_char False c p"
proof (cases "ip_escapeState p = 1")
  case True
  then have "after_escape h c p = after_escape False c p"
    using assms unfolding steady_def by (intro steady_after) auto
  then show ?thesis using True by (simp add: read_char_def)
next
  case False
  then have "ip_isPasteMode p \<or> ip_escapeState p = 2 \<or> ip_escapeState p = 0 \<and> c = ESC"
    using assms unfolding steady_def by blast
  then show ?thesis
    using False paste_plain [of p h c] by (cases "ip_escapeState p = 2"; cases "ip_isPasteMode p") (simp_all add: read_char_def)
qed

lemma steady_chars: "all_steady cs p \<Longrightarrow> read_chars h cs p = read_chars False cs p"
proof (induction cs arbitrary: p)
  case (Cons c cs)
  have "read_char h c p = read_char False c p" using Cons.prems by (intro steady_char) simp
  moreover have "read_chars h cs (fst (read_char False c p)) = read_chars False cs (fst (read_char False c p))"
    using Cons.prems by (intro Cons.IH) simp
  ultimately show ?case by (simp only: read_chars.simps Let_def split_beta)
qed simp

lemma read_chars_append:
  "read_chars h (a @ b) p = (let (p1, a1) = read_chars h a p; (p2, a2) = read_chars h b p1 in (p2, a1 @ a2))"
  by (induction a arbitrary: p) (simp_all add: split_beta)

lemma all_steady_append: "all_steady (a @ b) p \<longleftrightarrow> all_steady a p \<and> all_steady b (fst (read_chars False a p))"
  by (induction a arbitrary: p) (simp_all add: split_beta)

lemma steady_text: "all_steady t p \<Longrightarrow> read_text t p = read_chars False t p"
proof -
  assume t: "all_steady t p"
  have "\<not> raw_paste p t"
    using t by (cases t) (auto simp: raw_paste_def steady_def strip_newlines_def)
  then show ?thesis using steady_chars [OF t] by (simp add: read_text_def)
qed

lemma held_plain: "plain_char h c (p\<lparr>ip_held := x\<rparr>) = ((fst (plain_char h c p))\<lparr>ip_held := x\<rparr>, snd (plain_char h c p))"
  by (simp add: plain_char_def)

lemma held_parts:
  "end_escape (p\<lparr>ip_held := x\<rparr>) = (end_escape p)\<lparr>ip_held := x\<rparr>" "start_escape (p\<lparr>ip_held := x\<rparr>) = (start_escape p)\<lparr>ip_held := x\<rparr>"
  "complete_escape (p\<lparr>ip_held := x\<rparr>) = ((fst (complete_escape p))\<lparr>ip_held := x\<rparr>, snd (complete_escape p))"
  by (simp_all add: end_escape_def start_escape_def complete_escape_def)

lemma held_update: "p\<lparr>ip_held := x, ip_escapeCode := r\<rparr> = p\<lparr>ip_escapeCode := r\<rparr>\<lparr>ip_held := x\<rparr>"
  "p\<lparr>ip_held := x, ip_escapeCode := r, ip_escapeState := n\<rparr> = p\<lparr>ip_escapeCode := r, ip_escapeState := n\<rparr>\<lparr>ip_held := x\<rparr>"
  by simp_all

lemma held_fields [simp]:
  "ip_escapeState (p\<lparr>ip_held := x\<rparr>) = ip_escapeState p" "ip_escapeCode (p\<lparr>ip_held := x\<rparr>) = ip_escapeCode p"
  "ip_isPasteMode (p\<lparr>ip_held := x\<rparr>) = ip_isPasteMode p" "lone_escape (p\<lparr>ip_held := x\<rparr>) = lone_escape p"
  "coded c (p\<lparr>ip_held := x\<rparr>) = (coded c p)\<lparr>ip_held := x\<rparr>"
  by (simp_all add: coded_def lone_escape_def)

lemma held_after: "after_escape h c (p\<lparr>ip_held := x\<rparr>) = ((fst (after_escape h c p))\<lparr>ip_held := x\<rparr>, snd (after_escape h c p))"
  unfolding after_escape_def held_parts held_fields held_plain by (simp add: split_beta)

lemma held_sequence: "in_sequence c (p\<lparr>ip_held := x\<rparr>) = ((fst (in_sequence c p))\<lparr>ip_held := x\<rparr>, snd (in_sequence c p))"
  unfolding in_sequence_def held_parts held_fields by simp

lemma held_char: "read_char h c (p\<lparr>ip_held := x\<rparr>) = ((fst (read_char h c p))\<lparr>ip_held := x\<rparr>, snd (read_char h c p))"
  unfolding read_char_def held_parts held_fields held_plain held_after held_sequence by simp

lemma held_chars: "read_chars h cs (p\<lparr>ip_held := x\<rparr>) = ((fst (read_chars h cs p))\<lparr>ip_held := x\<rparr>, snd (read_chars h cs p))"
  by (induction cs arbitrary: p) (simp_all add: held_char split_beta)

lemma held_steady: "all_steady cs (p\<lparr>ip_held := x\<rparr>) = all_steady cs p"
  by (induction cs arbitrary: p) (simp_all add: held_char steady_def)

text \<open>Chunks may end in the middle of a character; the decoder holds its first byte back.\<close>

lemma utf8_char_shape:
  "(\<exists>b. utf8_char c = [b] \<and> b \<noteq> 194 \<and> b \<noteq> 195 \<and> b \<noteq> 255) \<or>
   (\<exists>l m. utf8_char c = [l, m] \<and> (l = 194 \<or> l = 195) \<and> m \<noteq> 194 \<and> m \<noteq> 195 \<and> m \<noteq> 255)"
proof -
  let ?n = "of_char c :: nat"
  have n: "?n < 256" by simp
  show ?thesis
  proof (cases "?n < 128")
    case True
    then have "unat (of_nat ?n :: byte) < 128" by (simp add: unat_of_nat)
    then have "(of_nat ?n :: byte) \<notin> {194, 195, 255}" by auto
    then show ?thesis using True by (simp add: utf8_char_def)
  next
    case False
    have d: "?n div 64 = 2 \<or> ?n div 64 = 3" using False n by linarith
    have "128 + ?n mod 64 < 256" by (rule order.strict_trans [of _ "128 + 64"]) simp_all
    then have "unat (of_nat (128 + ?n mod 64) :: byte) = 128 + ?n mod 64" by (simp only: unat_of_nat) simp
    moreover have "?n mod 64 < 64" by simp
    ultimately have m: "(of_nat (128 + ?n mod 64) :: byte) \<notin> {194, 195, 255}" by (auto simp del: of_nat_add)
    have "(of_nat (192 + ?n div 64) :: byte) = 194 \<or> (of_nat (192 + ?n div 64) :: byte) = 195" using d by auto
    then show ?thesis using m False by (simp add: utf8_char_def Let_def del: of_nat_add of_nat_div of_nat_mod)
  qed
qed

lemma utf8_Cons: "utf8 (c # s) = utf8_char c @ utf8 s"
  by (simp add: utf8_def)

lemma utf8_no_iac: "255 \<notin> set (utf8 s)"
proof (induction s)
  case (Cons c s)
  then show ?case using utf8_char_shape [of c] by (auto simp: utf8_Cons)
qed simp

lemma utf8_last: "s \<noteq> [] \<Longrightarrow> utf8 s \<noteq> [] \<and> last (utf8 s) \<noteq> 194 \<and> last (utf8 s) \<noteq> 195"
proof (induction s)
  case (Cons c s)
  then show ?case using utf8_char_shape [of c] by (cases "s = []") (auto simp: utf8_Cons)
qed simp

definition lead :: "byte list \<Rightarrow> bool" where
  "lead h = (h = [] \<or> h = [194] \<or> h = [195])"

lemma utf8_split:
  "utf8 s = x @ y \<Longrightarrow> \<exists>t s' h. s = t @ s' \<and> x = utf8 t @ h \<and> utf8 s' = h @ y \<and> lead h"
proof (induction s arbitrary: x)
  case (Cons c s)
  have rec: "\<exists>t s' h. c # s = t @ s' \<and> x = utf8 t @ h \<and> utf8 s' = h @ y \<and> lead h"
    if e: "x = utf8_char c @ x'" "utf8 s = x' @ y" for x'
  proof -
    obtain t s' h where "s = t @ s'" "x' = utf8 t @ h" "utf8 s' = h @ y" "lead h" using Cons.IH [OF e(2)] by blast
    then show ?thesis using e(1) by (intro exI [of _ "c # t"] exI [of _ s'] exI [of _ h]) (simp add: utf8_Cons)
  qed
  have empty: "\<exists>t s' h. c # s = t @ s' \<and> x = utf8 t @ h \<and> utf8 s' = h @ y \<and> lead h" if "lead x"
    using Cons.prems that by (intro exI [of _ "[]"] exI [of _ "c # s"] exI [of _ x]) simp
  from utf8_char_shape [of c] consider b where "utf8_char c = [b]"
    | l m where "utf8_char c = [l, m]" "l = 194 \<or> l = 195" by blast
  then show ?case
  proof cases
    case (1 b)
    then show ?thesis using Cons.prems rec [of "tl x"] empty by (cases x) (auto simp: utf8_Cons lead_def)
  next
    case (2 l m)
    consider "x = []" | "x = [l]" | x' where "x = l # m # x'" "utf8 s = x' @ y"
      using Cons.prems 2(1) by (cases x; cases "tl x") (auto simp: utf8_Cons)
    then show ?thesis using 2 rec empty by cases (auto simp: lead_def)
  qed
qed (simp add: lead_def)

lemma decode_split:
  assumes "held @ chunk = utf8 t @ h" "lead h"
  shows "decoder_write held chunk = (t, h)"
proof (cases "h = []")
  case True
  then show ?thesis using assms utf8_last [of t] by (cases "t = []") (simp_all add: decoder_write_def Let_def)
next
  case False
  then have "last (utf8 t @ h) = 194 \<or> last (utf8 t @ h) = 195" "butlast (utf8 t @ h) = utf8 t" "[last (utf8 t @ h)] = h"
    using assms(2) by (auto simp: lead_def)
  then show ?thesis using assms(1) False by (simp add: decoder_write_def Let_def)
qed

lemma telnet_plain: "255 \<notin> set bs \<Longrightarrow> extractTelnetEvents bs = (bs, [])"
  by (induction bs) auto

lemma replace_none: "a \<notin> set t \<Longrightarrow> replace_pair a b t = t"
  by (induction a b t rule: replace_pair.induct) auto

lemma newlines_none: "CHR 0x0D \<notin> set t \<Longrightarrow> newlines t = t"
proof -
  assume t: "CHR 0x0D \<notin> set t"
  then have "map (\<lambda>c. if c = CHR 0x0D then CHR 0x0A else c) t = t" by (induction t) auto
  then show ?thesis using t by (simp add: newlines_def replace_none)
qed

lemma chunks_steady:
  assumes "ip_held p @ concat bs = utf8 s" "lead (ip_held p)" "all_steady s p" "CHR 0x0D \<notin> set s"
  shows "parse_chunks bs p = ((fst (read_chars False s p))\<lparr>ip_held := []\<rparr>, snd (read_chars False s p))"
  using assms
proof (induction bs arbitrary: s p)
  case Nil
  then have "s = []" using utf8_last [of s] by (cases "s = []") (auto simp: lead_def)
  then have "ip_held p = []" using Nil.prems(1) by simp
  then show ?case using \<open>s = []\<close> by simp
next
  case (Cons b bs)
  show ?case
  proof (cases "b = []")
    case True
    then show ?thesis using Cons.IH [of p s] Cons.prems by (simp add: parse_input_def)
  next
    case False
    obtain t s' h where t: "s = t @ s'" "ip_held p @ b = utf8 t @ h" "utf8 s' = h @ concat bs" "lead h"
      using utf8_split [of s "ip_held p @ b" "concat bs"] Cons.prems(1) by auto
    let ?r = "read_chars False t p"
    let ?p' = "(fst ?r)\<lparr>ip_held := h\<rparr>"
    have "set b \<subseteq> set (utf8 s)" using arg_cong [OF Cons.prems(1), of set] by auto
    then have plain: "extractTelnetEvents b = (b, [])" using utf8_no_iac [of s] by (intro telnet_plain) auto
    have st: "all_steady t p" "all_steady s' (fst ?r)" using Cons.prems(3) by (simp_all add: t(1) all_steady_append)
    have "read_text (newlines t) (p\<lparr>ip_held := h\<rparr>) = (?p', snd ?r)"
      using Cons.prems(4) st(1) by (simp add: t(1) newlines_none steady_text held_steady held_chars)
    then have "parse_input b p = (?p', snd ?r)"
      using False by (simp add: parse_input_def plain decode_split [OF t(2,4)])
    moreover have "parse_chunks bs ?p' = ((fst (read_chars False s' ?p'))\<lparr>ip_held := []\<rparr>, snd (read_chars False s' ?p'))"
      using t(3,4) st(2) Cons.prems(4) by (intro Cons.IH) (simp_all add: t(1) held_steady)
    ultimately show ?thesis by (simp add: t(1) read_chars_append held_chars split_beta)
  qed
qed

definition paste_start :: string where
  "paste_start = ESC # ''[200~''"

definition paste_end_code :: string where
  "paste_end_code = ESC # ''[201~''"

lemma code_values [simp]:
  "code_of CHR ''['' = 91" "code_of CHR ''0'' = 48" "code_of CHR ''1'' = 49" "code_of CHR ''2'' = 50" "code_of CHR ''~'' = 126"
  "code_of ESC = 27"
  by (simp_all add: code_of_def ESC_def)

lemma ESC_not_digit [simp]: "ESC \<noteq> CHR ''0''" "ESC \<noteq> CHR ''1''" "ESC \<noteq> CHR ''2''" "CHR ''0'' \<noteq> ESC" "CHR ''1'' \<noteq> ESC" "CHR ''2'' \<noteq> ESC"
  by (simp_all add: ESC_def)

lemma start_steps:
  assumes "ip_escapeState p = 0"
  shows "read_chars False paste_start p = (p\<lparr>ip_escapeCode := [], ip_isPasteMode := True, ip_pasteBuffer := []\<rparr>, [])"
    "all_steady paste_start p"
  using assms
  by (simp_all add: paste_start_def read_char_def start_escape_def after_escape_def in_sequence_def coded_def complete_escape_def
      end_escape_def steady_def)

lemma end_steps:
  assumes "ip_escapeState p = 0" "ip_isPasteMode p"
  shows "read_chars False paste_end_code p =
      (p\<lparr>ip_escapeCode := [], ip_isPasteMode := False, ip_pasteBuffer := []\<rparr>, [PASTE_COMPLETE (ip_pasteBuffer p) True])"
    "all_steady paste_end_code p"
  using assms
  by (simp_all add: paste_end_code_def read_char_def start_escape_def after_escape_def in_sequence_def coded_def complete_escape_def
      end_escape_def steady_def)

lemma text_steps:
  "ip_escapeState p = 0 \<Longrightarrow> ip_isPasteMode p \<Longrightarrow> ESC \<notin> set t \<Longrightarrow> CHR 0x00 \<notin> set t \<Longrightarrow>
     length (ip_pasteBuffer p) + length t \<le> MAX_PASTE_BUFFER_SIZE \<Longrightarrow>
     read_chars False t p = (p\<lparr>ip_pasteBuffer := ip_pasteBuffer p @ t\<rparr>, []) \<and> all_steady t p"
proof (induction t arbitrary: p)
  case (Cons c t)
  have "code_of c \<noteq> 0"
  proof
    assume "code_of c = 0"
    moreover have "char_of (code_of c) = c" by (simp add: code_of_def)
    moreover have "char_of (0 :: nat) = CHR 0x00" by code_simp
    ultimately show False using Cons.prems(4) by simp
  qed
  then have "read_char False c p = (p\<lparr>ip_pasteBuffer := ip_pasteBuffer p @ [c]\<rparr>, [])"
    using Cons.prems by (auto simp: read_char_def plain_char_def)
  then show ?case
    using Cons.IH [of "p\<lparr>ip_pasteBuffer := ip_pasteBuffer p @ [c]\<rparr>"] Cons.prems by (simp add: steady_def)
qed simp



end
