(* ===== verification/I18n.thy ===== *)
theory I18n
  imports Settings
begin

text \<open>
  \<open>src/locales/i18n.js\<close>: the texts the program shows. The dictionaries \<open>en.js\<close> and \<open>tr.js\<close> are tables of
  templates and stay arguments; looking a key up, its fallbacks and the substitution of parameters are the code's.
\<close>

type_synonym dictionary = "string \<Rightarrow> string option"

record dictionaries =
  dict_tr :: dictionary
  dict_en :: dictionary

definition dictionary_of :: "dictionaries \<Rightarrow> string \<Rightarrow> dictionary option" where
  "dictionary_of D loc = (if loc = ''tr'' then Some (dict_tr D) else if loc = ''en'' then Some (dict_en D) else None)"

definition setLocale :: "dictionaries \<Rightarrow> string \<Rightarrow> string \<Rightarrow> string" where
  "setLocale D loc current = (if dictionary_of D loc \<noteq> None then loc else current)"

text \<open>
  The replacement of \<open>replaceAll\<close> is a pattern of its own: \<open>$$\<close> is a dollar sign, \<open>$&\<close> the text replaced, and
  a dollar sign with a backquote or a quote is the text before or after it.
\<close>

fun expand_dollars :: "string \<Rightarrow> string \<Rightarrow> string \<Rightarrow> string \<Rightarrow> string" where
  "expand_dollars l p r [] = []"
| "expand_dollars l p r [c] = [c]"
| "expand_dollars l p r (c # d # s) =
     (if c \<noteq> CHR ''$'' then c # expand_dollars l p r (d # s)
      else if d = CHR ''$'' then CHR ''$'' # expand_dollars l p r s
      else if d = CHR ''&'' then p @ expand_dollars l p r s
      else if d = CHR 0x60 then l @ expand_dollars l p r s
      else if d = CHR 0x27 then r @ expand_dollars l p r s
      else c # expand_dollars l p r (d # s))"

function replace_from :: "string \<Rightarrow> string \<Rightarrow> string \<Rightarrow> string \<Rightarrow> string" where
  "replace_from p v l [] = []"
| "replace_from p v l (c # s) =
     (if p \<noteq> [] \<and> starts_with p (c # s)
      then (let r = drop (length p) (c # s) in expand_dollars l p r v @ replace_from p v (l @ p) r)
      else c # replace_from p v (l @ [c]) s)"
  by pat_completeness auto
termination
proof (relation "measure (\<lambda>(p, v, l, s). length s)", goal_cases)
  case (2 p v l c s r)
  then show ?case by (cases p) auto
qed auto

definition replace_all :: "string \<Rightarrow> string \<Rightarrow> string \<Rightarrow> string" where
  "replace_all p v s = replace_from p v [] s"

fun first_template :: "string \<Rightarrow> dictionary list \<Rightarrow> string" where
  "first_template key [] = key"
| "first_template key (d # ds) = (case d key of Some (c # s) \<Rightarrow> c # s | _ \<Rightarrow> first_template key ds)"

definition i18n_t :: "dictionaries \<Rightarrow> string \<Rightarrow> string \<Rightarrow> (string \<times> string) list \<Rightarrow> string" where
  "i18n_t D loc key params =
     (let d = (case dictionary_of D loc of Some d \<Rightarrow> d | None \<Rightarrow> dict_en D)
      in fold (\<lambda>(k, v) s. replace_all (''{'' @ k @ ''}'') v s) params (first_template key [d, dict_en D, dict_tr D]))"

section \<open>What is substituted\<close>

lemma setLocale_known: "dictionary_of D current \<noteq> None \<Longrightarrow> dictionary_of D (setLocale D loc current) \<noteq> None"
  by (simp add: setLocale_def)

lemma expand_plain: "CHR ''$'' \<notin> set v \<Longrightarrow> expand_dollars l p r v = v"
  by (induction l p r v rule: expand_dollars.induct) auto

lemma replace_absent: "\<not> str_includes p s \<Longrightarrow> replace_from p v l s = s"
  by (induction p v l s rule: replace_from.induct) auto

lemma t_unknown_key:
  "dict_en D key = None \<Longrightarrow> dict_tr D key = None \<Longrightarrow> i18n_t D loc key [] = key"
  by (simp add: i18n_t_def dictionary_of_def)

text \<open>A parameter with a dollar sign is not inserted as it is: \<open>$&\<close> brings the placeholder back.\<close>

lemma dollar_parameter:
  "i18n_t \<lparr>dict_tr = (\<lambda>_. None), dict_en = (\<lambda>_. Some ''Unknown: {cmd}'')\<rparr> ''en'' ''SYS_UNKNOWN_COMMAND'' [(''cmd'', ''$&x'')] =
    ''Unknown: {cmd}x''"
  by (simp add: i18n_t_def dictionary_of_def replace_all_def starts_with_def Let_def)

end
