(* ===== verification/Session.thy ===== *)
theory Session
  imports Address I18n
begin

text \<open>
  \<open>src/core/terminalSession.js\<close>: what a user sees and types. The session's fields are one record; operations that
  ask for a redraw, tell the server about a changed profile or write to the socket return these requests as effects.
  The texts, the locale, this node's id and the clock's text are the record \<open>ui\<close>.
\<close>

section \<open>State\<close>

record ui =
  ui_locale :: string
  ui_text :: "string \<Rightarrow> (string \<times> string) list \<Rightarrow> string"
  ui_node :: "string option"
  ui_stamp :: string

record log_line =
  l_from :: string
  l_content :: string
  l_timestamp :: string

datatype focus_area = Input | Sidebar

record kem_pair =
  k_public :: string
  k_private :: string

record session =
  s_userAddress :: string
  s_userNick :: string
  s_isSsh :: bool
  s_kemKeyPair :: "kem_pair option"
  s_warnedInsecureTargets :: "string list"
  s_activeTarget :: string
  s_inputBuffer :: string
  s_cursorIndex :: nat
  s_history :: "string list"
  s_historyIndex :: int
  s_tempInput :: string
  s_focus :: focus_area
  s_tabCompletions :: "string list"
  s_tabIndex :: int
  s_tabPrefix :: string
  s_contacts :: "string list"
  s_selectedContactIdx :: int
  s_unreadCounts :: "(string, nat) jsmap"
  s_systemLogs :: "log_line list"
  s_scrollOffset :: nat
  s_typingUser :: "string option"
  s_typingTimeout :: bool
  s_width :: nat
  s_height :: nat
  s_leftSidebarWidth :: nat
  s_rightSidebarWidth :: nat
  s_screenBuffer :: "string option list"
  s_pendingPasteLines :: "string list"
  s_pendingPasteIsSnippet :: bool
  s_pendingPasteFromChunk :: bool
  s_pasteFlushTimer :: bool

datatype session_effect =
    RequestRender
  | RenderInput
  | RenderMessages "string option"
  | ProfileChange "string list" "string list"
  | SocketWrite string
  | SocketEnd string

type_synonym session_act = "session \<Rightarrow> session \<times> session_effect list"

definition silently :: "(session \<Rightarrow> session) \<Rightarrow> session_act" where
  "silently f s = (f s, [])"

definition and_ask :: "session_effect list \<Rightarrow> (session \<Rightarrow> session) \<Rightarrow> session_act" where
  "and_ask es f s = (f s, es)"

fun one_by_one :: "session_act list \<Rightarrow> session_act" where
  "one_by_one [] s = (s, [])"
| "one_by_one (f # fs) s =
     (let (s1, e1) = f s; (s2, e2) = one_by_one fs s1 in (s2, e1 @ e2))"

definition console :: "ui \<Rightarrow> string" where
  "console U = system_console_name (ui_locale U)"

definition default_channel :: "ui \<Rightarrow> string" where
  "default_channel U = default_channel_name (ui_locale U)"

text \<open>The spelling of a target the code keeps: one name each for the console and the global channel.\<close>

definition norm_target :: "ui \<Rightarrow> string \<Rightarrow> string" where
  "norm_target U target =
     (if isSystemConsole target then console U
      else if isGlobalChannel target then default_channel U else target)"

definition nick :: "string \<Rightarrow> string" where
  "nick address = remove_first ''@'' (before CHR '':'' address)"

definition system_line :: "ui \<Rightarrow> string \<Rightarrow> log_line" where
  "system_line U content =
     \<lparr>l_from = ''['' @ ui_text U ''TUI_SYSTEM_SENDER'' [] @ '']'', l_content = content, l_timestamp = ui_stamp U\<rparr>"

text \<open>\<open>indexOf\<close> on a list, with \<open>-1\<close> for an absent element.\<close>

fun index_in :: "'a \<Rightarrow> 'a list \<Rightarrow> int" where
  "index_in x [] = -1"
| "index_in x (y # ys) = (if y = x then 0 else let i = index_in x ys in if i = -1 then -1 else i + 1)"

definition start_contacts :: "ui \<Rightarrow> string list \<Rightarrow> string list" where
  "start_contacts U saved = js_uniq ([console U, default_channel U] @ js_uniq (map (norm_target U) saved))"

definition new_session :: "ui \<Rightarrow> string \<Rightarrow> string list \<Rightarrow> string list \<Rightarrow> session" where
  "new_session U userAddress contacts history =
     \<lparr>s_userAddress = userAddress, s_userNick = nick userAddress, s_isSsh = False, s_kemKeyPair = None,
      s_warnedInsecureTargets = [], s_activeTarget = default_channel U, s_inputBuffer = [], s_cursorIndex = 0,
      s_history = history, s_historyIndex = -1, s_tempInput = [], s_focus = Input, s_tabCompletions = [],
      s_tabIndex = -1, s_tabPrefix = [], s_contacts = start_contacts U contacts,
      s_selectedContactIdx =
        (let i = index_in (default_channel U) (start_contacts U contacts) in if i \<noteq> -1 then i else 1),
      s_unreadCounts = [],
      s_systemLogs = [system_line U (ui_text U ''SYS_WELCOME'' [(''address'', userAddress)]),
                      system_line U (ui_text U ''SYS_HELP_TIP'' [])],
      s_scrollOffset = 0, s_typingUser = None, s_typingTimeout = False, s_width = 110, s_height = 24,
      s_leftSidebarWidth = 24, s_rightSidebarWidth = 22, s_screenBuffer = [], s_pendingPasteLines = [],
      s_pendingPasteIsSnippet = False, s_pendingPasteFromChunk = False, s_pasteFlushTimer = False\<rparr>"

section \<open>Looking at a session\<close>

definition word_char :: "char \<Rightarrow> bool" where
  "word_char c =
     (let n = of_char c :: nat in (48 \<le> n \<and> n \<le> 57) \<or> (65 \<le> n \<and> n \<le> 90) \<or> n = 95 \<or> (97 \<le> n \<and> n \<le> 122))"

text \<open>\<open>\\b\<close> after the match: the character before and the character after are not both of a word, nor both not.\<close>

definition word_boundary :: "string \<Rightarrow> string \<Rightarrow> bool" where
  "word_boundary l r = ((l \<noteq> [] \<and> word_char (last l)) \<noteq> (r \<noteq> [] \<and> word_char (hd r)))"

fun mention_in :: "string \<Rightarrow> string \<Rightarrow> bool" where
  "mention_in w [] = False"
| "mention_in w (c # s) =
     ((starts_with (js_lower w) (js_lower (c # s)) \<and> word_boundary w (drop (length w) (c # s))) \<or> mention_in w s)"

definition without_port :: "string \<Rightarrow> string" where
  "without_port address = join_with '':'' (take 2 (split_on CHR '':'' address))"

definition isUserMentioned :: "session \<Rightarrow> string \<Rightarrow> bool" where
  "isUserMentioned s content =
     (content \<noteq> [] \<and>
      (str_includes (s_userAddress s) content \<or> str_includes (without_port (s_userAddress s)) content \<or>
       mention_in (''@'' @ s_userNick s) content))"

definition isMemberOf :: "session \<Rightarrow> string \<Rightarrow> bool" where
  "isMemberOf s target = (isGlobalChannel target \<or> target \<in> set (s_contacts s))"

definition isViewingTarget :: "ui \<Rightarrow> session \<Rightarrow> string \<Rightarrow> bool" where
  "isViewingTarget U s target =
     (target \<noteq> [] \<and> s_activeTarget s \<noteq> [] \<and> isSameTarget (ui_node U) (s_activeTarget s) target)"

definition getMyChannels :: "ui \<Rightarrow> session \<Rightarrow> string list" where
  "getMyChannels U s =
     js_uniq (map (\<lambda>c. if isGlobalChannel c then default_channel U else c) (filter (starts_with ''#'') (s_contacts s)))"

section \<open>Contacts, unread counts and the log\<close>

definition notifyProfileChange :: session_act where
  "notifyProfileChange s = (s, [ProfileChange (s_contacts s) (s_history s)])"

definition ANSI_CLEAR :: string where
  "ANSI_CLEAR = CHR 0x1B # ''[2J'' @ CHR 0x1B # ''[3J'' @ CHR 0x1B # ''[H''"

definition PASTE_ON :: string where
  "PASTE_ON = CHR 0x1B # ''[?2004h''"

text \<open>\<open>floor(width * 0.22)\<close> and \<open>floor(width * 0.20)\<close>, in integers.\<close>

definition resize :: "nat \<Rightarrow> nat \<Rightarrow> session_act" where
  "resize width height s =
     (let w = max 40 (if width = 0 then 110 else width); h = max 10 (if height = 0 then 24 else height)
      in (s\<lparr>s_width := w, s_height := h, s_leftSidebarWidth := min 26 (max 18 (w * 22 div 100)),
            s_rightSidebarWidth := min 24 (max 16 (w * 20 div 100)), s_screenBuffer := []\<rparr>,
          [SocketWrite (ANSI_CLEAR @ PASTE_ON), RequestRender]))"

definition insert_contact :: "ui \<Rightarrow> string \<Rightarrow> string list \<Rightarrow> string list" where
  "insert_contact U norm contacts =
     (if norm \<in> set contacts then contacts
      else if isSystemConsole norm then console U # filter (\<lambda>c. \<not> isSystemConsole c) contacts
      else if isGlobalChannel norm
      then (let rest = filter (\<lambda>c. \<not> isGlobalChannel c) contacts; i = (if console U \<in> set rest then 1 else 0)
            in take i rest @ default_channel U # drop i rest)
      else contacts @ [norm])"

definition addContact :: "ui \<Rightarrow> string \<Rightarrow> session_act" where
  "addContact U target s =
     (if target = [] then (s, [])
      else one_by_one
             [silently (\<lambda>s. s\<lparr>s_contacts := insert_contact U (norm_target U target) (s_contacts s)\<rparr>),
              notifyProfileChange, and_ask [RequestRender] id] s)"

definition removeContact :: "string \<Rightarrow> session_act" where
  "removeContact target s =
     (let contacts = filter (\<lambda>c. \<not> (c = target \<or> (isSystemConsole target \<and> isSystemConsole c) \<or>
                                     (isGlobalChannel target \<and> isGlobalChannel c))) (s_contacts s);
          idx = (if s_selectedContactIdx s \<ge> int (length contacts) then max 0 (int (length contacts) - 1)
                 else s_selectedContactIdx s)
      in one_by_one
           [silently (\<lambda>s. s\<lparr>s_contacts := contacts, s_unreadCounts := jm_delete target (s_unreadCounts s),
                          s_selectedContactIdx := idx\<rparr>),
            notifyProfileChange, and_ask [RequestRender] id] s)"

definition unread_of :: "string \<Rightarrow> session \<Rightarrow> nat" where
  "unread_of target s = (case jm_get (s_unreadCounts s) target of None \<Rightarrow> 0 | Some n \<Rightarrow> n)"

definition incrementUnread :: "ui \<Rightarrow> string \<Rightarrow> session \<Rightarrow> session" where
  "incrementUnread U target s =
     (if target = [] \<or> isViewingTarget U s target then s
      else
        let norm = norm_target U target;
            targetNick = before CHR '':'' norm;
            activeNick = before CHR '':'' (s_activeTarget s)
        in if s_activeTarget s = norm then s
           else if activeNick \<noteq> [] \<and> targetNick \<noteq> [] \<and> activeNick = targetNick then s
           else s\<lparr>s_unreadCounts := jm_set norm (unread_of norm s + 1) (s_unreadCounts s)\<rparr>)"

definition forget_unread :: "string \<Rightarrow> (string, nat) jsmap \<Rightarrow> (string, nat) jsmap" where
  "forget_unread norm m =
     (let m1 = jm_delete norm m; targetNick = before CHR '':'' norm
      in if targetNick = [] then m1
         else filter (\<lambda>(k, _). before CHR '':'' k \<noteq> targetNick) (jm_delete targetNick m1))"

definition setTarget :: "ui \<Rightarrow> string \<Rightarrow> session_act" where
  "setTarget U target =
     (let norm = norm_target U target
      in one_by_one
           [silently (\<lambda>s. s\<lparr>s_activeTarget := norm\<rparr>), addContact U norm,
            and_ask [RequestRender]
              (\<lambda>s. s\<lparr>s_selectedContactIdx := index_in norm (s_contacts s),
                    s_unreadCounts := forget_unread norm (s_unreadCounts s), s_scrollOffset := 0\<rparr>)])"

definition MAX_LOGS :: nat where
  "MAX_LOGS = 200"

definition addSystemLog :: "ui \<Rightarrow> string \<Rightarrow> session_act" where
  "addSystemLog U content s =
     (let s1 = s\<lparr>s_systemLogs := s_systemLogs s @ [system_line U content]\<rparr>;
          s2 = (if isSystemConsole (s_activeTarget s1) then s1 else incrementUnread U (console U) s1);
          s3 = (if length (s_systemLogs s2) > MAX_LOGS then s2\<lparr>s_systemLogs := tl (s_systemLogs s2)\<rparr> else s2)
      in (s3, [RequestRender]))"

text \<open>The indicator's timer is replaced by a new one each time; when it fires the indicator goes.\<close>

definition setTyping :: "string \<Rightarrow> session_act" where
  "setTyping user = and_ask [RequestRender] (\<lambda>s. s\<lparr>s_typingUser := Some user, s_typingTimeout := True\<rparr>)"

definition typing_expires :: session_act where
  "typing_expires = and_ask [RequestRender] (\<lambda>s. s\<lparr>s_typingUser := None, s_typingTimeout := False\<rparr>)"

section \<open>The input line\<close>

definition resetTabCompletion :: "session \<Rightarrow> session" where
  "resetTabCompletion s = s\<lparr>s_tabIndex := -1, s_tabCompletions := [], s_tabPrefix := []\<rparr>"

definition MAX_INPUT :: nat where
  "MAX_INPUT = 4096"

definition set_line :: "string \<Rightarrow> string \<Rightarrow> session \<Rightarrow> session" where
  "set_line l r s = s\<lparr>s_inputBuffer := l @ r, s_cursorIndex := length l\<rparr>"

definition before_cursor :: "session \<Rightarrow> string" where
  "before_cursor s = take (s_cursorIndex s) (s_inputBuffer s)"

definition after_cursor :: "session \<Rightarrow> string" where
  "after_cursor s = drop (s_cursorIndex s) (s_inputBuffer s)"

definition insertChar :: "string \<Rightarrow> session \<Rightarrow> session" where
  "insertChar c s =
     (if length (s_inputBuffer s) \<ge> MAX_INPUT then s
      else (resetTabCompletion s)\<lparr>s_inputBuffer := before_cursor s @ c @ after_cursor s,
             s_cursorIndex := s_cursorIndex s + length c\<rparr>)"

definition backspace :: "session \<Rightarrow> session" where
  "backspace s =
     (if s_cursorIndex s > 0
      then (resetTabCompletion s)\<lparr>s_inputBuffer := take (s_cursorIndex s - 1) (s_inputBuffer s) @ after_cursor s,
             s_cursorIndex := s_cursorIndex s - 1\<rparr>
      else resetTabCompletion s)"

definition deleteForward :: "session \<Rightarrow> session" where
  "deleteForward s =
     (if s_cursorIndex s < length (s_inputBuffer s)
      then (resetTabCompletion s)\<lparr>s_inputBuffer := before_cursor s @ drop (s_cursorIndex s + 1) (s_inputBuffer s)\<rparr>
      else resetTabCompletion s)"

definition moveCursorLeft :: "session \<Rightarrow> session" where
  "moveCursorLeft s =
     (if s_cursorIndex s > 0 then (resetTabCompletion s)\<lparr>s_cursorIndex := s_cursorIndex s - 1\<rparr>
      else resetTabCompletion s)"

definition moveCursorRight :: "session \<Rightarrow> session" where
  "moveCursorRight s =
     (if s_cursorIndex s < length (s_inputBuffer s) then (resetTabCompletion s)\<lparr>s_cursorIndex := s_cursorIndex s + 1\<rparr>
      else resetTabCompletion s)"

definition trim_end :: "string \<Rightarrow> string" where
  "trim_end s = rev (dropWhile js_space (rev s))"

text \<open>\<open>s.slice(0, s.lastIndexOf(' ') + 1)\<close>, which is empty without a space.\<close>

definition to_last_space :: "string \<Rightarrow> string" where
  "to_last_space s = rev (dropWhile (\<lambda>c. c \<noteq> CHR '' '') (rev s))"

definition deleteWord :: "session \<Rightarrow> session" where
  "deleteWord s =
     (if s_cursorIndex s = 0 then resetTabCompletion s
      else set_line (to_last_space (trim_end (before_cursor s))) (after_cursor s) (resetTabCompletion s))"

definition clearInput :: "session \<Rightarrow> session" where
  "clearInput s = (resetTabCompletion s)\<lparr>s_inputBuffer := [], s_cursorIndex := 0\<rparr>"

definition candidates :: "string list \<Rightarrow> string list \<Rightarrow> session \<Rightarrow> string \<Rightarrow> string list" where
  "candidates commands users s word =
     (if starts_with ''/'' word
      then map (\<lambda>c. ''/'' @ c @ '' '') (filter (starts_with (js_lower (tl word))) commands)
      else if starts_with ''@'' word
      then map (\<lambda>u. u @ '' '') (filter (\<lambda>u. starts_with (js_lower word) (js_lower u)) users)
      else if starts_with ''#'' word
      then map (\<lambda>c. c @ '' '') (filter (\<lambda>c. starts_with (js_lower word) (js_lower c)) (filter (starts_with ''#'') (s_contacts s)))
      else [])"

definition choose_completion :: "string list \<Rightarrow> session \<Rightarrow> session" where
  "choose_completion tokens s =
     set_line (join_with '' '' (butlast tokens @ [s_tabCompletions s ! nat (s_tabIndex s)])) (after_cursor s) s"

definition handleTabCompletion :: "string list \<Rightarrow> string list \<Rightarrow> session_act" where
  "handleTabCompletion commands users s =
     (let tokens = split_on CHR '' '' (before_cursor s); word = last tokens
      in if word = [] then (s, [])
         else if s_tabIndex s = -1 \<or> s_tabPrefix s \<noteq> word
         then (let s1 = s\<lparr>s_tabPrefix := word\<rparr>; found = candidates commands users s word
               in if found = [] then (s1, [])
                  else (choose_completion tokens (s1\<lparr>s_tabCompletions := found, s_tabIndex := 0\<rparr>), [RenderInput]))
         else (choose_completion tokens
                 (s\<lparr>s_tabIndex := (s_tabIndex s + 1) mod int (length (s_tabCompletions s))\<rparr>), [RenderInput]))"

definition pushHistory :: "string \<Rightarrow> session_act" where
  "pushHistory command =
     one_by_one
       [(if js_trim command \<noteq> [] then one_by_one [silently (\<lambda>s. s\<lparr>s_history := s_history s @ [command]\<rparr>), notifyProfileChange]
         else silently id),
        silently (\<lambda>s. s\<lparr>s_historyIndex := -1, s_tempInput := []\<rparr>)]"

definition show_history :: "session \<Rightarrow> session" where
  "show_history s =
     (let line = (if 0 \<le> s_historyIndex s \<and> nat (s_historyIndex s) < length (s_history s)
                  then s_history s ! nat (s_historyIndex s) else [])
      in s\<lparr>s_inputBuffer := line, s_cursorIndex := length line\<rparr>)"

definition historyUp :: "session \<Rightarrow> session" where
  "historyUp s =
     (if s_history s = [] then s
      else if s_historyIndex s = -1
      then show_history (s\<lparr>s_tempInput := s_inputBuffer s, s_historyIndex := int (length (s_history s)) - 1\<rparr>)
      else if s_historyIndex s > 0 then show_history (s\<lparr>s_historyIndex := s_historyIndex s - 1\<rparr>)
      else show_history s)"

definition historyDown :: "session \<Rightarrow> session" where
  "historyDown s =
     (if s_historyIndex s = -1 then s
      else if s_historyIndex s < int (length (s_history s)) - 1
      then show_history (s\<lparr>s_historyIndex := s_historyIndex s + 1\<rparr>)
      else s\<lparr>s_historyIndex := -1, s_inputBuffer := s_tempInput s, s_cursorIndex := length (s_tempInput s)\<rparr>)"

definition scrollUp :: "nat \<Rightarrow> session \<Rightarrow> session" where
  "scrollUp amount s = s\<lparr>s_scrollOffset := s_scrollOffset s + amount\<rparr>"

definition scrollDown :: "nat \<Rightarrow> session \<Rightarrow> session" where
  "scrollDown amount s = s\<lparr>s_scrollOffset := s_scrollOffset s - amount\<rparr>"

definition notifyNewMessage :: session_act where
  "notifyNewMessage = and_ask [SocketWrite [CHR 0x07]] id"

section \<open>The line editor as text around a cursor\<close>

text \<open>
  What an editor promises: the text before the cursor and the text after it, changed by each key. The operations on
  the buffer and its index do exactly that, for every sequence of keys.
\<close>

datatype edit = Insert string | Backspace | DeleteForward | CursorLeft | CursorRight | DeleteWord | ClearLine

fun do_edit :: "edit \<Rightarrow> session \<Rightarrow> session" where
  "do_edit (Insert c) s = insertChar c s"
| "do_edit Backspace s = backspace s"
| "do_edit DeleteForward s = deleteForward s"
| "do_edit CursorLeft s = moveCursorLeft s"
| "do_edit CursorRight s = moveCursorRight s"
| "do_edit DeleteWord s = deleteWord s"
| "do_edit ClearLine s = clearInput s"

fun spec_edit :: "edit \<Rightarrow> string \<times> string \<Rightarrow> string \<times> string" where
  "spec_edit (Insert c) (l, r) = (if length l + length r < MAX_INPUT then (l @ c, r) else (l, r))"
| "spec_edit Backspace (l, r) = (butlast l, r)"
| "spec_edit DeleteForward (l, r) = (l, tl r)"
| "spec_edit CursorLeft (l, r) = (if l = [] then (l, r) else (butlast l, last l # r))"
| "spec_edit CursorRight (l, r) = (if r = [] then (l, r) else (l @ [hd r], tl r))"
| "spec_edit DeleteWord (l, r) = (to_last_space (trim_end l), r)"
| "spec_edit ClearLine (l, r) = ([], [])"

definition around :: "session \<Rightarrow> string \<times> string" where
  "around s = (before_cursor s, after_cursor s)"

definition line_ok :: "session \<Rightarrow> bool" where
  "line_ok s = (s_cursorIndex s \<le> length (s_inputBuffer s))"

locale simulation =
  fixes op_step :: "'e \<Rightarrow> 's \<Rightarrow> 's"
    and view :: "'s \<Rightarrow> 'a"
    and spec_step :: "'e \<Rightarrow> 'a \<Rightarrow> 'a"
    and ok :: "'s \<Rightarrow> bool"
  assumes keeps_ok: "ok s \<Longrightarrow> ok (op_step e s)"
    and simulates: "ok s \<Longrightarrow> view (op_step e s) = spec_step e (view s)"
begin

lemma runs_simulate: "ok s \<Longrightarrow> ok (fold op_step es s) \<and> view (fold op_step es s) = fold spec_step es (view s)"
  by (induction es arbitrary: s) (simp_all add: keeps_ok simulates)

end

lemma reset_line [simp]:
  "s_inputBuffer (resetTabCompletion s) = s_inputBuffer s" "s_cursorIndex (resetTabCompletion s) = s_cursorIndex s"
  by (simp_all add: resetTabCompletion_def)

lemma reset_around [simp]:
  "before_cursor (resetTabCompletion s) = before_cursor s" "after_cursor (resetTabCompletion s) = after_cursor s"
  by (simp_all add: before_cursor_def after_cursor_def)

lemma around_set_line [simp]: "around (set_line l r s) = (l, r)"
  by (simp add: around_def set_line_def before_cursor_def after_cursor_def)

lemma line_ok_set_line [simp]: "line_ok (set_line l r s)"
  by (simp add: line_ok_def set_line_def)

text \<open>Every state with its index in range is one with the cursor between two texts.\<close>

lemma line_split:
  assumes "line_ok s"
  obtains l r where "s_inputBuffer s = l @ r" "s_cursorIndex s = length l" "around s = (l, r)"
proof (rule that)
  show "s_inputBuffer s = before_cursor s @ after_cursor s" by (simp add: before_cursor_def after_cursor_def)
  show "s_cursorIndex s = length (before_cursor s)" using assms by (simp add: before_cursor_def line_ok_def)
qed (simp add: around_def)

lemma edit_simulates:
  assumes "line_ok s"
  shows "line_ok (do_edit e s) \<and> around (do_edit e s) = spec_edit e (around s)"
proof -
  from assms obtain l r where lr: "s_inputBuffer s = l @ r" "s_cursorIndex s = length l" "around s = (l, r)"
    by (rule line_split)
  have two: "before_cursor s = l" "after_cursor s = r" using lr(3) by (simp_all add: around_def)
  show ?thesis
  proof (cases e)
    case (Insert c)
    then show ?thesis using lr two
      by (auto simp: insertChar_def line_ok_def around_def before_cursor_def after_cursor_def)
  next
    case Backspace
    then show ?thesis using lr two
      by (auto simp: backspace_def line_ok_def around_def before_cursor_def after_cursor_def butlast_conv_take)
  next
    case DeleteForward
    then show ?thesis using lr two
      by (auto simp: deleteForward_def line_ok_def around_def before_cursor_def after_cursor_def drop_Suc tl_drop)
  next
    case CursorLeft
    then show ?thesis using lr two
      by (cases l rule: rev_cases) (auto simp: moveCursorLeft_def line_ok_def around_def before_cursor_def after_cursor_def)
  next
    case CursorRight
    then show ?thesis using lr two
      by (cases r) (auto simp: moveCursorRight_def line_ok_def around_def before_cursor_def after_cursor_def)
  next
    case DeleteWord
    have "to_last_space (trim_end []) = []" by (simp add: to_last_space_def trim_end_def)
    then show ?thesis using lr two DeleteWord by (auto simp: deleteWord_def) (auto simp: line_ok_def around_def)
  next
    case ClearLine
    then show ?thesis using lr by (simp add: clearInput_def line_ok_def around_def before_cursor_def after_cursor_def)
  qed
qed

interpretation editor: simulation do_edit around spec_edit line_ok
  using edit_simulates by unfold_locales auto

text \<open>
  C37. Every sequence of editing keys changes the input line as an editor's text before and after the cursor changes,
  and the cursor stays inside the line.
\<close>

theorem editor_is_text_around_cursor:
  "line_ok s \<Longrightarrow> line_ok (fold do_edit es s) \<and> around (fold do_edit es s) = fold spec_edit es (around s)"
  by (rule editor.runs_simulate)

definition sample_ui :: ui where
  "sample_ui = \<lparr>ui_locale = ''en'', ui_text = (\<lambda>k ps. k), ui_node = None, ui_stamp = ''t''\<rparr>"

theorem editor_is_text_around_cursor_witness:
  "around (fold do_edit [Insert ''h'', Insert ''i'', CursorLeft, Insert ''o''] (new_session sample_ui ''@al:x'' [] [])) =
     (''ho'', ''i'')"
proof -
  have "line_ok (new_session sample_ui ''@al:x'' [] [])" by (simp add: line_ok_def new_session_def)
  from editor_is_text_around_cursor [OF this, of "[Insert ''h'', Insert ''i'', CursorLeft, Insert ''o'']"]
  show ?thesis by (simp add: around_def before_cursor_def after_cursor_def new_session_def MAX_INPUT_def)
qed

text \<open>What deleting a word takes: the blanks at the end and the characters of the word before them, no space.\<close>

lemma delete_word_takes:
  "\<exists>w b. l = to_last_space (trim_end l) @ w @ b \<and> CHR '' '' \<notin> set w \<and> list_all js_space b"
proof -
  have "l = rev (dropWhile js_space (rev l)) @ rev (takeWhile js_space (rev l))"
    by (metis rev_append rev_rev_ident takeWhile_dropWhile_id)
  moreover have "rev t = rev (dropWhile (\<lambda>c. c \<noteq> CHR '' '') t) @ rev (takeWhile (\<lambda>c. c \<noteq> CHR '' '') t)" for t
    by (metis rev_append takeWhile_dropWhile_id)
  moreover have "list_all js_space (rev (takeWhile js_space t))" for t by (auto simp: list_all_iff dest: set_takeWhileD)
  moreover have "CHR '' '' \<notin> set (rev (takeWhile (\<lambda>c. c \<noteq> CHR '' '') t))" for t by (auto dest: set_takeWhileD)
  ultimately show ?thesis unfolding to_last_space_def trim_end_def by (metis append_assoc rev_rev_ident)
qed

section \<open>What every operation keeps\<close>

datatype session_op =
    Edit edit | Tab "string list" "string list" | PushHistory string | HistoryUp | HistoryDown
  | ScrollUp nat | ScrollDown nat | Resize nat nat | AddContact string | RemoveContact string
  | IncrementUnread string | SetTarget string | SystemLog string | Typing string | TypingExpires

fun do_op :: "ui \<Rightarrow> session_op \<Rightarrow> session \<Rightarrow> session" where
  "do_op U (Edit e) s = do_edit e s"
| "do_op U (Tab commands users) s = fst (handleTabCompletion commands users s)"
| "do_op U (PushHistory c) s = fst (pushHistory c s)"
| "do_op U HistoryUp s = historyUp s"
| "do_op U HistoryDown s = historyDown s"
| "do_op U (ScrollUp n) s = scrollUp n s"
| "do_op U (ScrollDown n) s = scrollDown n s"
| "do_op U (Resize w h) s = fst (resize w h s)"
| "do_op U (AddContact t) s = fst (addContact U t s)"
| "do_op U (RemoveContact t) s = fst (removeContact t s)"
| "do_op U (IncrementUnread t) s = incrementUnread U t s"
| "do_op U (SetTarget t) s = fst (setTarget U t s)"
| "do_op U (SystemLog c) s = fst (addSystemLog U c s)"
| "do_op U (Typing u) s = fst (setTyping u s)"
| "do_op U TypingExpires s = fst (typing_expires s)"

definition history_ok :: "session \<Rightarrow> bool" where
  "history_ok s = (-1 \<le> s_historyIndex s \<and> s_historyIndex s < int (length (s_history s)))"

definition tabs_ok :: "session \<Rightarrow> bool" where
  "tabs_ok s =
     (list_all (ends_with '' '') (s_tabCompletions s) \<and>
      (s_tabIndex s = -1 \<or> (0 \<le> s_tabIndex s \<and> s_tabIndex s < int (length (s_tabCompletions s)))))"

definition contacts_ok :: "ui \<Rightarrow> session \<Rightarrow> bool" where
  "contacts_ok U s =
     (distinct (s_contacts s) \<and> list_all (\<lambda>c. norm_target U c = c) (s_contacts s) \<and> -1 \<le> s_selectedContactIdx s \<and>
      s_selectedContactIdx s < max 1 (int (length (s_contacts s))) \<and> jm_ok (s_unreadCounts s))"

definition screen_ok :: "session \<Rightarrow> bool" where
  "screen_ok s =
     (40 \<le> s_width s \<and> 10 \<le> s_height s \<and> 18 \<le> s_leftSidebarWidth s \<and> s_leftSidebarWidth s \<le> 26 \<and>
      16 \<le> s_rightSidebarWidth s \<and> s_rightSidebarWidth s \<le> 24 \<and> length (s_systemLogs s) \<le> MAX_LOGS)"

definition session_ok :: "ui \<Rightarrow> session \<Rightarrow> bool" where
  "session_ok U s = (line_ok s \<and> history_ok s \<and> tabs_ok s \<and> contacts_ok U s \<and> screen_ok s)"

text \<open>Each operation touches few fields; what it leaves alone keeps its part of the invariant.\<close>

definition contact_part :: "session \<Rightarrow> _" where
  "contact_part s = (s_contacts s, s_selectedContactIdx s, s_unreadCounts s)"

definition screen_part :: "session \<Rightarrow> _" where
  "screen_part s = (s_width s, s_height s, s_leftSidebarWidth s, s_rightSidebarWidth s, s_systemLogs s)"

definition line_part :: "session \<Rightarrow> _" where
  "line_part s = (s_inputBuffer s, s_cursorIndex s, s_history s, s_historyIndex s, s_tabCompletions s, s_tabIndex s)"

lemmas parts = contact_part_def screen_part_def line_part_def

lemma contacts_ok_same: "contact_part s = contact_part t \<Longrightarrow> contacts_ok U s = contacts_ok U t"
  by (simp add: contact_part_def contacts_ok_def)

lemma screen_ok_same: "screen_part s = screen_part t \<Longrightarrow> screen_ok s = screen_ok t"
  by (simp add: screen_part_def screen_ok_def)

lemma lines_same:
  "line_part s = line_part t \<Longrightarrow> line_ok s = line_ok t" "line_part s = line_part t \<Longrightarrow> history_ok s = history_ok t"
  "line_part s = line_part t \<Longrightarrow> tabs_ok s = tabs_ok t"
  by (auto simp: line_part_def line_ok_def history_ok_def tabs_ok_def)

lemmas edit_defs = insertChar_def backspace_def deleteForward_def moveCursorLeft_def moveCursorRight_def
  deleteWord_def clearInput_def set_line_def resetTabCompletion_def

lemma edit_parts [simp]:
  "contact_part (do_edit e s) = contact_part s" "screen_part (do_edit e s) = screen_part s"
  by (cases e; simp add: edit_defs parts)+

lemma edit_history: "s_history (do_edit e s) = s_history s" "s_historyIndex (do_edit e s) = s_historyIndex s"
  by (cases e; simp add: edit_defs)+

lemma edit_tabs: "tabs_ok s \<Longrightarrow> tabs_ok (do_edit e s)"
  by (cases e) (simp_all add: edit_defs tabs_ok_def)

lemma edit_ok: "session_ok U s \<Longrightarrow> session_ok U (do_edit e s)"
  using edit_simulates [of s e] edit_tabs [of s e]
  by (simp add: session_ok_def contacts_ok_same [OF edit_parts(1)] screen_ok_same [OF edit_parts(2)] history_ok_def edit_history)

lemma candidates_end: "list_all (ends_with '' '') (candidates commands users s word)"
  by (auto simp: candidates_def list_all_iff ends_with_iff)

lemma choose_fields:
  "line_ok (choose_completion ts s)" "tabs_ok (choose_completion ts s) = tabs_ok s"
  "history_ok (choose_completion ts s) = history_ok s"
  "contact_part (choose_completion ts s) = contact_part s" "screen_part (choose_completion ts s) = screen_part s"
  by (simp_all add: choose_completion_def set_line_def line_ok_def tabs_ok_def history_ok_def parts)

lemma choose_ok:
  "session_ok U s \<Longrightarrow> tabs_ok t \<Longrightarrow> history_ok t = history_ok s \<Longrightarrow> contact_part t = contact_part s \<Longrightarrow>
    screen_part t = screen_part s \<Longrightarrow> session_ok U (choose_completion ts t)"
  using contacts_ok_same [of "choose_completion ts t" s U] screen_ok_same [of "choose_completion ts t" s]
  by (simp add: session_ok_def choose_fields)

lemma tab_ok:
  assumes "session_ok U s"
  shows "session_ok U (fst (handleTabCompletion commands users s))"
proof -
  let ?tokens = "split_on CHR '' '' (before_cursor s)"
  let ?s1 = "s\<lparr>s_tabPrefix := last ?tokens\<rparr>"
  let ?found = "candidates commands users s (last ?tokens)"
  have s1: "session_ok U ?s1" using assms
    by (simp add: session_ok_def line_ok_def history_ok_def tabs_ok_def contacts_ok_def screen_ok_def)
  have chosen: "session_ok U (choose_completion ?tokens (?s1\<lparr>s_tabCompletions := ?found, s_tabIndex := 0\<rparr>))" if "?found \<noteq> []"
    by (rule choose_ok [OF assms])
       (use that candidates_end [of commands users s "last ?tokens"] in \<open>simp_all add: tabs_ok_def history_ok_def parts\<close>)
  have tabs: "tabs_ok s" using assms by (simp add: session_ok_def)
  have turn: "0 \<le> (s_tabIndex s + 1) mod int (length (s_tabCompletions s)) \<and>
      (s_tabIndex s + 1) mod int (length (s_tabCompletions s)) < int (length (s_tabCompletions s))" if "s_tabIndex s \<noteq> -1"
    using that tabs by (cases "s_tabCompletions s") (auto simp: tabs_ok_def)
  have turned: "session_ok U (choose_completion ?tokens
      (s\<lparr>s_tabIndex := (s_tabIndex s + 1) mod int (length (s_tabCompletions s))\<rparr>))" if "s_tabIndex s \<noteq> -1"
    by (rule choose_ok [OF assms])
       (use tabs turn [OF that] in \<open>simp_all add: tabs_ok_def history_ok_def parts\<close>)
  show ?thesis using assms s1 chosen turned by (simp add: handleTabCompletion_def Let_def)
qed

lemma show_history_ok: "session_ok U s \<Longrightarrow> session_ok U (show_history s)"
  by (simp add: show_history_def session_ok_def line_ok_def history_ok_def tabs_ok_def contacts_ok_def screen_ok_def Let_def)

lemma history_index_ok: "session_ok U s \<Longrightarrow> -1 \<le> i \<Longrightarrow> i < int (length (s_history s)) \<Longrightarrow>
    session_ok U (s\<lparr>s_historyIndex := i\<rparr>) \<and> session_ok U (s\<lparr>s_tempInput := t, s_historyIndex := i\<rparr>)"
  by (simp add: session_ok_def line_ok_def history_ok_def tabs_ok_def contacts_ok_def screen_ok_def)

lemma history_ops_ok:
  assumes "session_ok U s"
  shows "session_ok U (historyUp s)" "session_ok U (historyDown s)" "session_ok U (fst (pushHistory c s))"
proof -
  have h: "-1 \<le> s_historyIndex s" "s_historyIndex s < int (length (s_history s))"
    using assms by (simp_all add: session_ok_def history_ok_def)
  show "session_ok U (historyUp s)" using h assms
    by (simp add: historyUp_def show_history_ok history_index_ok del: One_nat_def)
  show "session_ok U (historyDown s)"
  proof (cases "s_historyIndex s \<noteq> -1 \<and> s_historyIndex s < int (length (s_history s)) - 1")
    case True
    with h assms show ?thesis by (simp add: historyDown_def show_history_ok history_index_ok)
  next
    case False
    with assms show ?thesis
      by (auto simp: historyDown_def session_ok_def line_ok_def history_ok_def tabs_ok_def contacts_ok_def screen_ok_def)
  qed
  show "session_ok U (fst (pushHistory c s))" using assms
    by (simp add: pushHistory_def silently_def notifyProfileChange_def session_ok_def line_ok_def history_ok_def tabs_ok_def
        contacts_ok_def screen_ok_def)
qed

lemma console_is [simp]: "isSystemConsole (console U)" "\<not> isGlobalChannel (console U)"
  by (simp_all add: console_def system_console_name_def isSystemConsole_def isGlobalChannel_def js_trim_def js_lower_def
      js_lower_char_def js_space_def Let_def)

lemma default_is [simp]: "isGlobalChannel (default_channel U)" "\<not> isSystemConsole (default_channel U)"
  by (simp_all add: default_channel_def default_channel_name_def isSystemConsole_def isGlobalChannel_def js_trim_def
      js_lower_def js_lower_char_def js_space_def Let_def)

lemma norm_target_idem [simp]: "norm_target U (norm_target U t) = norm_target U t"
  by (simp add: norm_target_def)

lemma insert_contact_distinct: "distinct cs \<Longrightarrow> distinct (insert_contact U t cs)"
proof -
  assume d: "distinct cs"
  have "distinct (take i xs @ default_channel U # drop i xs)"
    if "distinct xs" "default_channel U \<notin> set xs" for i xs
    using that by (metis append_take_drop_id distinct_append distinct.simps(2) disjoint_insert(1) in_set_takeD list.set(2)
        set_append Un_iff)
  with d show ?thesis by (simp add: insert_contact_def Let_def)
qed

lemma insert_contact_grows: "cs \<noteq> [] \<Longrightarrow> insert_contact U t cs \<noteq> []"
  by (simp add: insert_contact_def Let_def)

lemma console_not_global: "isSystemConsole c \<Longrightarrow> \<not> isGlobalChannel c"
  by (auto simp: isSystemConsole_def isGlobalChannel_def Let_def)

lemma norm_cases: "norm_target U c = c \<Longrightarrow> isSystemConsole c \<Longrightarrow> c = console U"
  "norm_target U c = c \<Longrightarrow> isGlobalChannel c \<Longrightarrow> c = default_channel U"
  using console_not_global [of c] by (auto simp: norm_target_def split: if_splits)

text \<open>On a list of contacts in the code's spelling, a new one is added and none goes.\<close>

lemma insert_contact_adds:
  assumes "list_all (\<lambda>c. norm_target U c = c) cs" "norm_target U t = t"
  shows "set (insert_contact U t cs) = insert t (set cs) \<and> length (insert_contact U t cs) \<ge> length cs"
proof -
  have c: "c = console U" if "c \<in> set cs" "isSystemConsole c" for c
    using assms(1) that norm_cases(1) [of U c] by (auto simp: list_all_iff)
  have g: "c = default_channel U" if "c \<in> set cs" "isGlobalChannel c" for c
    using assms(1) that norm_cases(2) [of U c] by (auto simp: list_all_iff)
  consider "t \<in> set cs" | "t \<notin> set cs" "isSystemConsole t" | "t \<notin> set cs" "\<not> isSystemConsole t" "isGlobalChannel t"
    | "t \<notin> set cs" "\<not> isSystemConsole t" "\<not> isGlobalChannel t" by blast
  then show ?thesis
  proof cases
    case 2
    then have t: "t = console U" using norm_cases(1) [OF assms(2)] by simp
    with 2 c have "filter (\<lambda>c. \<not> isSystemConsole c) cs = cs" by (auto simp: filter_id_conv)
    with 2 t show ?thesis by (simp add: insert_contact_def)
  next
    case 3
    then have t: "t = default_channel U" using norm_cases(2) [OF assms(2)] by simp
    with 3 g have f: "filter (\<lambda>c. \<not> isGlobalChannel c) cs = cs" by (auto simp: filter_id_conv)
    have "set (take i cs) \<union> set (drop i cs) = set cs" for i by (metis append_take_drop_id set_append)
    moreover have "length (take i cs @ t # drop i cs) \<ge> length cs" for i by simp
    ultimately show ?thesis using 3 t f by (simp add: insert_contact_def Let_def)
  qed (auto simp: insert_contact_def)
qed

lemma addContact_ok:
  assumes "session_ok U s"
  shows "session_ok U (fst (addContact U t s))"
proof -
  have c: "distinct (s_contacts s)" "list_all (\<lambda>c. norm_target U c = c) (s_contacts s)"
    using assms by (simp_all add: session_ok_def contacts_ok_def)
  have "session_ok U (s\<lparr>s_contacts := insert_contact U (norm_target U t) (s_contacts s)\<rparr>)"
    using assms insert_contact_distinct [OF c(1)] insert_contact_adds [OF c(2), of "norm_target U t"]
    by (auto simp: session_ok_def line_ok_def history_ok_def tabs_ok_def contacts_ok_def screen_ok_def list_all_iff)
  with assms show ?thesis
    by (simp add: addContact_def silently_def and_ask_def notifyProfileChange_def)
qed

lemma removeContact_ok:
  assumes "session_ok U s"
  shows "session_ok U (fst (removeContact t s))"
  using assms unfolding removeContact_def Let_def
  by (auto simp: silently_def and_ask_def notifyProfileChange_def session_ok_def line_ok_def history_ok_def tabs_ok_def
      contacts_ok_def screen_ok_def list_all_iff)

lemma unread_ok: "session_ok U s \<Longrightarrow> session_ok U (incrementUnread U' t s)"
  by (simp add: incrementUnread_def Let_def session_ok_def line_ok_def history_ok_def tabs_ok_def contacts_ok_def screen_ok_def)

lemma index_in_range: "index_in x xs = -1 \<or> (0 \<le> index_in x xs \<and> index_in x xs < int (length xs))"
  by (induction xs) (auto simp: Let_def)

lemma index_in_absent: "index_in x xs = -1 \<longleftrightarrow> x \<notin> set xs"
proof (induction xs)
  case (Cons y ys)
  then show ?case using index_in_range [of x ys] by (auto simp: Let_def)
qed simp

lemma index_in_bounds: "-1 \<le> index_in x xs \<and> index_in x xs < max 1 (int (length xs))"
  using index_in_range [of x xs] by auto

lemma setTarget_ok:
  assumes "session_ok U s"
  shows "session_ok U (fst (setTarget U t s))"
proof -
  let ?s1 = "s\<lparr>s_activeTarget := norm_target U t\<rparr>"
  let ?s2 = "fst (addContact U (norm_target U t) ?s1)"
  have "session_ok U ?s1" using assms
    by (simp add: session_ok_def line_ok_def history_ok_def tabs_ok_def contacts_ok_def screen_ok_def)
  then have "session_ok U ?s2" by (rule addContact_ok)
  then have "session_ok U (?s2\<lparr>s_selectedContactIdx := index_in (norm_target U t) (s_contacts ?s2),
      s_unreadCounts := forget_unread (norm_target U t) (s_unreadCounts ?s2), s_scrollOffset := 0\<rparr>)"
    using index_in_bounds [of "norm_target U t" "s_contacts ?s2"]
    by (simp add: session_ok_def line_ok_def history_ok_def tabs_ok_def contacts_ok_def screen_ok_def forget_unread_def Let_def)
  then show ?thesis by (simp add: setTarget_def silently_def and_ask_def Let_def split_beta)
qed

lemma addSystemLog_ok:
  assumes "session_ok U s"
  shows "session_ok U (fst (addSystemLog U' c s))"
proof -
  let ?s1 = "s\<lparr>s_systemLogs := s_systemLogs s @ [system_line U' c]\<rparr>"
  have same: "s_systemLogs (incrementUnread U' t x) = s_systemLogs x" for t x by (simp add: incrementUnread_def Let_def)
  have trimmed: "session_ok U (x\<lparr>s_systemLogs := ls\<rparr>)" if "session_ok U x" "length ls \<le> MAX_LOGS" for x ls
    using that by (simp add: session_ok_def line_ok_def history_ok_def tabs_ok_def contacts_ok_def screen_ok_def)
  have logs: "length (s_systemLogs s) \<le> MAX_LOGS" using assms by (simp add: session_ok_def screen_ok_def)
  have inc: "incrementUnread U' t (s\<lparr>s_systemLogs := ls\<rparr>) = (incrementUnread U' t s)\<lparr>s_systemLogs := ls\<rparr>" for t ls
    by (simp add: incrementUnread_def isViewingTarget_def unread_of_def Let_def)
  show ?thesis using assms logs unread_ok [OF assms, of U' "console U'"]
    by (auto simp: addSystemLog_def Let_def inc trimmed)
qed

lemma resize_keeps_ok: "session_ok U s \<Longrightarrow> session_ok U (fst (resize w h s))"
  by (simp add: resize_def Let_def session_ok_def line_ok_def history_ok_def tabs_ok_def contacts_ok_def screen_ok_def)

lemma same_locale: "ui_locale U' = ui_locale U \<Longrightarrow> session_ok U' s = session_ok U s"
  by (simp add: session_ok_def contacts_ok_def norm_target_def console_def default_channel_def)

lemma op_ok:
  assumes "session_ok U s"
  shows "session_ok U (do_op U op s)"
proof -
  have plain: "session_ok U (scrollUp n s)" "session_ok U (scrollDown n s)" "session_ok U (fst (setTyping u s))"
    "session_ok U (fst (typing_expires s))" for n u
    using assms by (simp_all add: scrollUp_def scrollDown_def setTyping_def typing_expires_def and_ask_def session_ok_def
        line_ok_def history_ok_def tabs_ok_def contacts_ok_def screen_ok_def)
  show ?thesis using assms plain
    by (cases op) (simp_all add: edit_ok tab_ok history_ops_ok addContact_ok removeContact_ok unread_ok setTarget_ok
        addSystemLog_ok resize_keeps_ok)
qed

definition session_step :: "ui \<Rightarrow> string \<times> session_op \<Rightarrow> session \<Rightarrow> session" where
  "session_step U ev s = do_op (U\<lparr>ui_stamp := fst ev\<rparr>) (snd ev) s"

interpretation steps: keeps_invariant "session_step U" "session_ok U"
proof
  show "session_ok U (session_step U ev s)" if "session_ok U s" for s ev
    using that op_ok [of "U\<lparr>ui_stamp := fst ev\<rparr>" s "snd ev"] same_locale [of "U\<lparr>ui_stamp := fst ev\<rparr>" U]
    by (simp add: session_step_def)
qed

lemma norm_start: "list_all (\<lambda>c. norm_target U c = c) (start_contacts U saved)"
  by (auto simp: start_contacts_def list_all_iff) (simp_all add: norm_target_def)

lemma new_session_ok: "session_ok U (new_session U user contacts history)"
proof -
  have there: "default_channel U \<in> set (start_contacts U contacts)" by (simp add: start_contacts_def)
  then have "index_in (default_channel U) (start_contacts U contacts) \<noteq> -1" by (simp add: index_in_absent)
  with norm_start [of U contacts] index_in_bounds [of "default_channel U" "start_contacts U contacts"]
  have "contacts_ok U (new_session U user contacts history)"
    by (simp add: contacts_ok_def new_session_def Let_def) (simp add: start_contacts_def)
  then show ?thesis
    by (simp add: session_ok_def new_session_def line_ok_def history_ok_def tabs_ok_def screen_ok_def MAX_LOGS_def)
qed


section \<open>Completion stops after one candidate\<close>

lemma split_on_trailing: "split_on c (s @ [c]) = split_on c s @ [[]]"
  by (induction s) auto

lemma join_last: "join_with sep (ws @ [w]) = (if ws = [] then w else join_with sep ws @ sep @ w)"
proof (induction ws)
  case (Cons v vs)
  then show ?case by (cases vs) auto
qed simp

lemma tabs_end:
  assumes "tabs_ok s" "s_tabIndex s \<noteq> -1"
  obtains c where "s_tabCompletions s ! nat (s_tabIndex s) = c @ '' ''"
proof -
  from assms have "nat (s_tabIndex s) < length (s_tabCompletions s)" by (auto simp: tabs_ok_def)
  with assms have "ends_with '' '' (s_tabCompletions s ! nat (s_tabIndex s))" by (simp add: tabs_ok_def list_all_length)
  then show thesis using that by (auto simp: ends_with_iff)
qed

text \<open>
  Every candidate ends with a space, so after a completion the word at the cursor is empty and the next Tab does
  nothing: the branch that turns to the next candidate is not reached by pressing Tab again.
\<close>

lemma after_choice:
  assumes "tabs_ok s" "s_tabIndex s \<noteq> -1"
  shows "handleTabCompletion commands users (choose_completion ts s) = (choose_completion ts s, [])"
proof -
  obtain c where c: "s_tabCompletions s ! nat (s_tabIndex s) = c @ '' ''" using assms by (rule tabs_end)
  obtain l where l: "join_with '' '' (butlast ts @ [c @ '' '']) = l @ [CHR '' '']"
    by (auto simp: join_last) (metis append_assoc)
  have "before_cursor (choose_completion ts s) = l @ [CHR '' '']"
    using around_set_line [of "l @ [CHR '' '']" "after_cursor s" s] by (simp add: choose_completion_def c l around_def)
  then have "last (split_on CHR '' '' (before_cursor (choose_completion ts s))) = []" by (simp add: split_on_trailing)
  then show ?thesis by (simp add: handleTabCompletion_def Let_def)
qed

text \<open>
  After a Tab that completed a word, a second Tab leaves the session as it is: the other candidates are never
  offered.
\<close>

theorem second_tab_does_nothing:
  assumes "session_ok U s" "snd (handleTabCompletion commands users s) = [RenderInput]"
  shows "handleTabCompletion commands' users' (fst (handleTabCompletion commands users s)) =
    (fst (handleTabCompletion commands users s), [])"
proof -
  let ?tokens = "split_on CHR '' '' (before_cursor s)"
  let ?s1 = "s\<lparr>s_tabPrefix := last ?tokens\<rparr>"
  let ?found = "candidates commands users s (last ?tokens)"
  have tabs: "tabs_ok s" using assms(1) by (simp add: session_ok_def)
  have fresh: "tabs_ok (?s1\<lparr>s_tabCompletions := ?found, s_tabIndex := 0\<rparr>)" if "?found \<noteq> []"
    using that candidates_end [of commands users s "last ?tokens"] by (simp add: tabs_ok_def)
  have turn: "0 \<le> (s_tabIndex s + 1) mod int (length (s_tabCompletions s)) \<and>
      (s_tabIndex s + 1) mod int (length (s_tabCompletions s)) < int (length (s_tabCompletions s))" if "s_tabIndex s \<noteq> -1"
    using that tabs by (cases "s_tabCompletions s") (auto simp: tabs_ok_def)
  have turned: "tabs_ok (s\<lparr>s_tabIndex := (s_tabIndex s + 1) mod int (length (s_tabCompletions s))\<rparr>)" if "s_tabIndex s \<noteq> -1"
    using turn [OF that] tabs by (simp add: tabs_ok_def)
  consider "?found \<noteq> []" "handleTabCompletion commands users s =
      (choose_completion ?tokens (?s1\<lparr>s_tabCompletions := ?found, s_tabIndex := 0\<rparr>), [RenderInput])"
    | "s_tabIndex s \<noteq> -1" "handleTabCompletion commands users s =
      (choose_completion ?tokens (s\<lparr>s_tabIndex := (s_tabIndex s + 1) mod int (length (s_tabCompletions s))\<rparr>), [RenderInput])"
    using assms(2) by (auto simp: handleTabCompletion_def Let_def split: if_splits)
  then show ?thesis
  proof cases
    case 1
    show ?thesis unfolding 1(2) fst_conv by (rule after_choice) (use fresh [OF 1(1)] in simp_all)
  next
    case 2
    show ?thesis unfolding 2(2) fst_conv by (rule after_choice) (use turned [OF 2(1)] turn [OF 2(1)] in simp_all)
  qed
qed

definition typed_session :: session where
  "typed_session = insertChar ''/m'' (new_session sample_ui ''@al:x'' [] [])"

lemma typed_session_ok: "session_ok sample_ui typed_session"
  unfolding typed_session_def using edit_ok [OF new_session_ok [of sample_ui "''@al:x''" "[]" "[]"], of "Insert ''/m''"] by simp

theorem second_tab_does_nothing_witness:
  "s_inputBuffer (fst (handleTabCompletion [''me'', ''msg''] [] typed_session)) = ''/me '' \<and>
   handleTabCompletion [''me'', ''msg''] [] (fst (handleTabCompletion [''me'', ''msg''] [] typed_session)) =
     (fst (handleTabCompletion [''me'', ''msg''] [] typed_session), [])"
proof -
  have run: "snd (handleTabCompletion [''me'', ''msg''] [] typed_session) = [RenderInput]"
    "s_inputBuffer (fst (handleTabCompletion [''me'', ''msg''] [] typed_session)) = ''/me ''"
    by (simp_all add: handleTabCompletion_def typed_session_def insertChar_def new_session_def before_cursor_def after_cursor_def
        resetTabCompletion_def MAX_INPUT_def candidates_def choose_completion_def set_line_def starts_with_def js_lower_def
        js_lower_char_def Let_def)
  with second_tab_does_nothing [OF typed_session_ok run(1), of "[''me'', ''msg'']" "[]"] show ?thesis by simp
qed

end
