(* ===== verification/SshAuth.thy ===== *)
theory SshAuth
  imports SshPacket Database Address
begin

text \<open>
  \<open>src/core/sshAuthHandler.js\<close>: user authentication of the SSH server. A login is a password whose vault seed opens
  the token in the profile, offered together with one of the account's keys; the first login makes the token. Failed
  passwords are counted for the connection and for the client's address. The handler never waits, so a request is one
  step; what it sends is returned as effects.
\<close>

section \<open>State\<close>

record attempt =
  a_count :: nat
  a_lockedUntil :: int
  a_lastAttempt :: int

type_synonym attempts = "(string, attempt) jsmap"

record auth_conn =
  ac_offeredClientPub :: "byte list option"
  ac_failedAuthCount :: nat
  ac_derivedE2eeSeed :: "byte list option"
  ac_authenticatedUser :: "string option"

definition new_auth_conn :: auth_conn where
  "new_auth_conn = \<lparr>ac_offeredClientPub = None, ac_failedAuthCount = 0, ac_derivedE2eeSeed = None, ac_authenticatedUser = None\<rparr>"

record auth_env =
  ae_crypto :: node_crypto
  ae_locale :: string
  ae_nodeId :: "string option"
  ae_nodeAddress :: string

datatype ssh_effect = SendPacket "byte list" | DestroyConn bool | EndConn

definition packet_of :: "ssh_field list \<Rightarrow> byte list" where
  "packet_of fs = (case write_fields fs (new_writer 512) of Wrote w \<Rightarrow> toBuffer w | RangeError w \<Rightarrow> [] | Hangs \<Rightarrow> [])"

definition USERAUTH_FAILURE :: byte where
  "USERAUTH_FAILURE = 51"

definition USERAUTH_SUCCESS :: byte where
  "USERAUTH_SUCCESS = 52"

definition auth_failure :: "string list \<Rightarrow> ssh_effect" where
  "auth_failure methods = SendPacket (packet_of [FByte USERAUTH_FAILURE, FNames methods, FBool False])"

definition auth_success :: ssh_effect where
  "auth_success = SendPacket (packet_of [FByte USERAUTH_SUCCESS])"

section \<open>The request\<close>

record auth_header =
  ah_username :: string
  ah_method :: string

definition read_then :: "'a result \<times> reader \<Rightarrow> ('a \<Rightarrow> reader \<Rightarrow> 'b result) \<Rightarrow> 'b result" where
  "read_then x g = (case x of (Ok v, r) \<Rightarrow> g v r | (Throw e, r) \<Rightarrow> Throw e)"

definition read_header :: "reader \<Rightarrow> (auth_header \<times> reader) result" where
  "read_header r =
     read_then (readString Utf8 r) (\<lambda>username r1. read_then (readString Utf8 r1) (\<lambda>service r2.
       read_then (readString Utf8 r2) (\<lambda>method r3. Ok (\<lparr>ah_username = username, ah_method = method\<rparr>, r3))))"

definition read_public_key :: "reader \<Rightarrow> (string \<times> byte list) result" where
  "read_public_key r =
     read_then (readBoolean r) (\<lambda>hasSig r1. read_then (readString Utf8 r1) (\<lambda>algo r2.
       read_then (readBuffer r2) (\<lambda>blob r3. Ok (algo, blob))))"

definition key_in_blob :: "byte list \<Rightarrow> byte list result" where
  "key_in_blob blob =
     read_then (readString Utf8 (new_reader blob)) (\<lambda>name r1. read_then (readBuffer r1) (\<lambda>key r2. Ok key))"

definition read_password :: "reader \<Rightarrow> string result" where
  "read_password r = read_then (readBoolean r) (\<lambda>change r1. read_then (readString Utf8 r1) (\<lambda>password r2. Ok password))"

text \<open>A key is taken as offered without a signature that would prove its possession.\<close>

definition offer_key :: "string \<Rightarrow> byte list \<Rightarrow> auth_conn \<Rightarrow> auth_conn" where
  "offer_key algo blob c =
     (if algo = ''ssh-ed25519''
      then (case key_in_blob blob of Ok key \<Rightarrow> c\<lparr>ac_offeredClientPub := Some key\<rparr> | Throw e \<Rightarrow> c)
      else c)"

definition client_ip :: "string option \<Rightarrow> string option \<Rightarrow> string" where
  "client_ip realAddress address =
     (let raw = (case or_else realAddress address of Some a \<Rightarrow> a | None \<Rightarrow> []); ip = strip_v4mapped raw
      in if ip = [] then ''unknown'' else ip)"

section \<open>Passwords\<close>

definition MAX_CONN_FAILURES :: nat where
  "MAX_CONN_FAILURES = 3"

definition MAX_IP_FAILURES :: nat where
  "MAX_IP_FAILURES = 5"

definition LOCK_MS :: int where
  "LOCK_MS = 30000"

definition ip_locked :: "int \<Rightarrow> string \<Rightarrow> attempts \<Rightarrow> bool" where
  "ip_locked now ip A =
     (ip \<noteq> ''unknown'' \<and> (case jm_get A ip of Some rec \<Rightarrow> a_lockedUntil rec > now | None \<Rightarrow> False))"

definition registered_keys :: "profile \<Rightarrow> string list" where
  "registered_keys p =
     (if p_publicKeys p \<noteq> [] then p_publicKeys p else if p_publicKey p \<noteq> [] then [p_publicKey p] else [])"

definition key_registered :: "profile \<Rightarrow> byte list option \<Rightarrow> bool" where
  "key_registered p offered =
     (registered_keys p = [] \<or> (case offered of None \<Rightarrow> False | Some k \<Rightarrow> b64_encode k \<in> set (registered_keys p)))"

text \<open>The salt is the first registered key, or the one offered, or a hash of the addresses.\<close>

definition salt_key :: "auth_env \<Rightarrow> string \<Rightarrow> profile \<Rightarrow> byte list option \<Rightarrow> byte list" where
  "salt_key E user p offered =
     (case registered_keys p of
        k # ks \<Rightarrow> b64_decode k
      | [] \<Rightarrow>
          (case offered of
             Some k \<Rightarrow> k
           | None \<Rightarrow>
               sha256 (ae_crypto E) (utf8 (''salt:'' @ (if ae_nodeAddress E = [] then ''default'' else ae_nodeAddress E) @
                 '':'' @ user))))"

definition vault_seed :: "auth_env \<Rightarrow> string \<Rightarrow> profile \<Rightarrow> byte list option \<Rightarrow> string \<Rightarrow> byte list result" where
  "vault_seed E user p offered password =
     deriveVaultSeed (ae_crypto E) password (salt_key E user p offered) (ae_nodeAddress E)"

definition vault_opens :: "auth_env \<Rightarrow> profile \<Rightarrow> byte list \<Rightarrow> bool" where
  "vault_opens E p seed =
     (case Option.bind (json_parse (p_passwordHash p)) envelope_of_json of
        None \<Rightarrow> False
      | Some token \<Rightarrow> verifyVaultAuthToken (ae_crypto E) token seed)"

definition register_vault :: "auth_env \<Rightarrow> byte list \<Rightarrow> string \<Rightarrow> byte list \<Rightarrow> byte list option \<Rightarrow> db \<Rightarrow> db" where
  "register_vault E random user seed offered d =
     (let d1 = updateUserPassword user (stringify (json_of_envelope (createVaultAuthToken (ae_crypto E) random seed))) d
      in case offered of Some k \<Rightarrow> addUserPublicKey (ae_locale E) user (b64_encode k) d1 | None \<Rightarrow> d1)"

text \<open>What an examined password comes to.\<close>

datatype verdict = Refused "string list" | Cut | Wrong | Right "byte list"

definition examine_password ::
  "auth_env \<Rightarrow> byte list \<Rightarrow> string \<Rightarrow> string \<Rightarrow> auth_conn \<Rightarrow> db \<Rightarrow> verdict \<times> db" where
  "examine_password E random user password c d =
     (let (p, d1) = getUserProfile (ae_locale E) user d; offered = ac_offeredClientPub c
      in if \<not> key_registered p offered then (Refused [''publickey''], d1)
         else case vault_seed E user p offered password of
                Throw e \<Rightarrow> (Refused [''password''], d1)
              | Ok seed \<Rightarrow>
                  if p_passwordHash p = [] then (Right seed, register_vault E random user seed offered d1)
                  else if vault_opens E p seed then (Right seed, d1) else (Wrong, d1))"

definition attempt_of :: "int \<Rightarrow> string \<Rightarrow> attempts \<Rightarrow> attempt" where
  "attempt_of now ip A =
     (case jm_get A ip of Some rec \<Rightarrow> rec | None \<Rightarrow> \<lparr>a_count = 0, a_lockedUntil = 0, a_lastAttempt = now\<rparr>)"

definition stale :: "int \<Rightarrow> attempt \<Rightarrow> bool" where
  "stale now rec = (now - a_lastAttempt rec > 60000 \<and> a_lockedUntil rec < now)"

definition note_failure :: "int \<Rightarrow> string \<Rightarrow> attempts \<Rightarrow> attempts" where
  "note_failure now ip A =
     (if ip = ''unknown'' then A
      else
        let old = attempt_of now ip A;
            n = a_count old + 1;
            rec = \<lparr>a_count = n, a_lockedUntil = (if n \<ge> MAX_IP_FAILURES then now + LOCK_MS else a_lockedUntil old),
                   a_lastAttempt = now\<rparr>;
            A1 = jm_set ip rec A
        in if length A1 > 1000 then filter (\<lambda>(k, r). \<not> stale now r) A1 else A1)"

definition note_success :: "string \<Rightarrow> attempts \<Rightarrow> attempts" where
  "note_success ip A = (if ip = ''unknown'' then A else jm_delete ip A)"

record auth_state =
  au_attempts :: attempts
  au_db :: db
  au_conn :: auth_conn

definition blocked_verdict :: "int \<Rightarrow> string \<Rightarrow> auth_state \<Rightarrow> verdict option" where
  "blocked_verdict now ip s =
     (if ip_locked now ip (au_attempts s) then Some (Refused [''password''])
      else if ac_failedAuthCount (au_conn s) \<ge> MAX_CONN_FAILURES then Some Cut else None)"

definition apply_verdict :: "int \<Rightarrow> string \<Rightarrow> string \<Rightarrow> verdict \<Rightarrow> auth_state \<Rightarrow> auth_state \<times> ssh_effect list" where
  "apply_verdict now ip user v s =
     (case v of
        Refused methods \<Rightarrow> (s, [auth_failure methods])
      | Cut \<Rightarrow> (s, [DestroyConn False])
      | Wrong \<Rightarrow>
          (s\<lparr>au_attempts := note_failure now ip (au_attempts s),
             au_conn := (au_conn s)\<lparr>ac_failedAuthCount := ac_failedAuthCount (au_conn s) + 1\<rparr>\<rparr>,
           [auth_failure [''password'']])
      | Right seed \<Rightarrow>
          (s\<lparr>au_attempts := note_success ip (au_attempts s),
             au_conn := (au_conn s)\<lparr>ac_derivedE2eeSeed := Some seed, ac_failedAuthCount := 0, ac_authenticatedUser := Some user\<rparr>\<rparr>,
           [auth_success]))"

definition both_methods :: "string list" where
  "both_methods = [''publickey'', ''password'']"

text \<open>Anything that throws ends in the catch of the handler, which refuses with both methods.\<close>

definition password_verdict ::
  "auth_env \<Rightarrow> byte list \<Rightarrow> int \<Rightarrow> string \<Rightarrow> string \<Rightarrow> reader \<Rightarrow> auth_state \<Rightarrow> verdict \<times> db" where
  "password_verdict E random now ip user r s =
     (case blocked_verdict now ip s of
        Some v \<Rightarrow> (v, au_db s)
      | None \<Rightarrow>
          (case read_password r of
             Throw e \<Rightarrow> (Refused both_methods, au_db s)
           | Ok password \<Rightarrow> examine_password E random user password (au_conn s) (au_db s)))"

definition handleUserAuth ::
  "auth_env \<Rightarrow> byte list \<Rightarrow> int \<Rightarrow> string \<Rightarrow> reader \<Rightarrow> auth_state \<Rightarrow> auth_state \<times> ssh_effect list" where
  "handleUserAuth E random now ip r s =
     (case read_header r of
        Throw e \<Rightarrow> (s, [auth_failure both_methods])
      | Ok (h, r1) \<Rightarrow>
          (if \<not> isValidUsername (ah_username h) then (s, [auth_failure both_methods])
           else if ah_method h = ''none'' then (s, [auth_failure both_methods])
           else if ah_method h = ''publickey''
           then (case read_public_key r1 of
                   Throw e \<Rightarrow> (s, [auth_failure both_methods])
                 | Ok (algo, blob) \<Rightarrow> (s\<lparr>au_conn := offer_key algo blob (au_conn s)\<rparr>, [auth_failure [''password'']]))
           else if ah_method h = ''password''
           then (let user = formatUser (ae_nodeId E) (ah_username h) None;
                     (v, d) = password_verdict E random now ip user r1 s
                 in apply_verdict now ip user v (s\<lparr>au_db := d\<rparr>))
           else (s, [])))"

section \<open>A login needs the password and a key of the account\<close>

text \<open>A request that asks for a password, with the user it names.\<close>

definition password_request :: "auth_env \<Rightarrow> reader \<Rightarrow> (string \<times> reader) option" where
  "password_request E r =
     (case read_header r of
        Throw e \<Rightarrow> None
      | Ok (h, r1) \<Rightarrow>
          if isValidUsername (ah_username h) \<and> ah_method h = ''password''
          then Some (formatUser (ae_nodeId E) (ah_username h) None, r1) else None)"

lemma handle_password:
  "password_request E r = Some (user, r1) \<Longrightarrow>
    handleUserAuth E random now ip r s =
      apply_verdict now ip user (fst (password_verdict E random now ip user r1 s))
        (s\<lparr>au_db := snd (password_verdict E random now ip user r1 s)\<rparr>)"
  by (auto simp: password_request_def handleUserAuth_def split_beta Let_def split: result.splits if_splits)

lemma handle_other:
  assumes "password_request E r = None"
  shows "\<exists>k. fst (handleUserAuth E random now ip r s) = s\<lparr>au_conn := (au_conn s)\<lparr>ac_offeredClientPub := k\<rparr>\<rparr>"
proof -
  have same: "s = s\<lparr>au_conn := (au_conn s)\<lparr>ac_offeredClientPub := ac_offeredClientPub (au_conn s)\<rparr>\<rparr>" by simp
  show ?thesis using assms
    by (auto simp: password_request_def handleUserAuth_def offer_key_def split: result.splits if_splits intro: same)
qed

lemma apply_fields:
  "au_attempts (fst (apply_verdict now ip user v s)) =
     (case v of Wrong \<Rightarrow> note_failure now ip (au_attempts s) | Right seed \<Rightarrow> note_success ip (au_attempts s) | _ \<Rightarrow> au_attempts s)"
  "ac_authenticatedUser (au_conn (fst (apply_verdict now ip user v s))) =
     (case v of Right seed \<Rightarrow> Some user | _ \<Rightarrow> ac_authenticatedUser (au_conn s))"
  "ac_derivedE2eeSeed (au_conn (fst (apply_verdict now ip user v s))) =
     (case v of Right seed \<Rightarrow> Some seed | _ \<Rightarrow> ac_derivedE2eeSeed (au_conn s))"
  by (cases v; simp add: apply_verdict_def)+

text \<open>No request takes a user away from a connection.\<close>

lemma user_stays:
  assumes "ac_authenticatedUser (au_conn s) \<noteq> None"
  shows "ac_authenticatedUser (au_conn (fst (handleUserAuth E random now ip r s))) \<noteq> None"
proof (cases "password_request E r")
  case None
  from handle_other [OF this] obtain k
    where "fst (handleUserAuth E random now ip r s) = s\<lparr>au_conn := (au_conn s)\<lparr>ac_offeredClientPub := k\<rparr>\<rparr>" by blast
  with assms show ?thesis by simp
next
  case (Some p)
  obtain u r1 where p: "p = (u, r1)" by (cases p)
  show ?thesis using assms by (simp add: handle_password [OF Some [unfolded p]] apply_fields split: verdict.split)
qed

definition login_proof :: "auth_env \<Rightarrow> string \<Rightarrow> string \<Rightarrow> auth_state \<Rightarrow> byte list \<Rightarrow> bool" where
  "login_proof E user password s seed =
     (let p = fst (getUserProfile (ae_locale E) user (au_db s)); offered = ac_offeredClientPub (au_conn s)
      in key_registered p offered \<and> vault_seed E user p offered password = Ok seed \<and>
         (p_passwordHash p = [] \<or> vault_opens E p seed))"

lemma right_needs_proof:
  "password_verdict E random now ip user r s = (Right seed, d) \<Longrightarrow>
    blocked_verdict now ip s = None \<and> (\<exists>password. read_password r = Ok password \<and> login_proof E user password s seed)"
  by (auto simp: password_verdict_def examine_password_def login_proof_def blocked_verdict_def Let_def split_beta
      split: option.splits result.splits if_splits)

text \<open>
  C4. A connection becomes a user's only through a password request for that user, while neither the address nor the
  connection is locked out, whose password yields a seed that opens the account's vault (or makes it at the first
  login), and with one of the account's keys offered when it has any.
\<close>

theorem ssh_login_needs_vault:
  assumes "ac_authenticatedUser (au_conn s) \<noteq> Some user"
    "ac_authenticatedUser (au_conn (fst (handleUserAuth E random now ip r s))) = Some user"
  shows "\<exists>r1 password seed. password_request E r = Some (user, r1) \<and> read_password r1 = Ok password \<and>
    \<not> ip_locked now ip (au_attempts s) \<and> ac_failedAuthCount (au_conn s) < MAX_CONN_FAILURES \<and>
    login_proof E user password s seed \<and>
    ac_derivedE2eeSeed (au_conn (fst (handleUserAuth E random now ip r s))) = Some seed"
proof (cases "password_request E r")
  case None
  from handle_other [OF this] obtain k
    where "fst (handleUserAuth E random now ip r s) = s\<lparr>au_conn := (au_conn s)\<lparr>ac_offeredClientPub := k\<rparr>\<rparr>" by blast
  with assms show ?thesis by simp
next
  case (Some p)
  obtain u r1 where p: "p = (u, r1)" by (cases p)
  obtain v d where v: "password_verdict E random now ip u r1 s = (v, d)" by fastforce
  have h: "handleUserAuth E random now ip r s = apply_verdict now ip u v (s\<lparr>au_db := d\<rparr>)"
    using handle_password [OF Some [unfolded p]] v by simp
  from assms obtain seed where right: "v = Right seed" "u = user" by (cases v) (simp_all add: h apply_fields)
  from right_needs_proof [OF v [unfolded right]] right obtain password
    where "read_password r1 = Ok password" "login_proof E user password s seed" "blocked_verdict now ip s = None" by blast
  then show ?thesis using Some p right h
    by (auto simp: blocked_verdict_def apply_fields not_le split: if_splits)
qed

section \<open>Guessing is slow\<close>

record login_event =
  le_now :: int
  le_ip :: string
  le_conn :: nat
  le_random :: "byte list"
  le_reader :: reader

record auth_node =
  an_attempts :: attempts
  an_db :: db
  an_conns :: "nat \<Rightarrow> auth_conn"

definition on_conn :: "nat \<Rightarrow> auth_node \<Rightarrow> auth_state" where
  "on_conn c S = \<lparr>au_attempts = an_attempts S, au_db = an_db S, au_conn = an_conns S c\<rparr>"

definition auth_step :: "auth_env \<Rightarrow> login_event \<Rightarrow> auth_node \<Rightarrow> auth_node" where
  "auth_step E e S =
     (let s' = fst (handleUserAuth E (le_random e) (le_now e) (le_ip e) (le_reader e) (on_conn (le_conn e) S))
      in \<lparr>an_attempts = au_attempts s', an_db = au_db s', an_conns = (an_conns S)(le_conn e := au_conn s')\<rparr>)"

definition verdict_of :: "auth_env \<Rightarrow> login_event \<Rightarrow> auth_node \<Rightarrow> verdict option" where
  "verdict_of E e S =
     (case password_request E (le_reader e) of
        None \<Rightarrow> None
      | Some (user, r) \<Rightarrow>
          Some (fst (password_verdict E (le_random e) (le_now e) (le_ip e) user r (on_conn (le_conn e) S))))"

text \<open>How many wrong passwords from an address are examined, and that none of its logins succeeds.\<close>

fun wrong_guesses :: "auth_env \<Rightarrow> string \<Rightarrow> login_event list \<Rightarrow> auth_node \<Rightarrow> nat" where
  "wrong_guesses E ip [] S = 0"
| "wrong_guesses E ip (e # es) S =
     (if le_ip e = ip \<and> verdict_of E e S = Some Wrong then 1 else 0) + wrong_guesses E ip es (auth_step E e S)"

fun never_right :: "auth_env \<Rightarrow> string \<Rightarrow> login_event list \<Rightarrow> auth_node \<Rightarrow> bool" where
  "never_right E ip [] S = True"
| "never_right E ip (e # es) S =
     ((le_ip e = ip \<longrightarrow> (case verdict_of E e S of Some (Right seed) \<Rightarrow> False | _ \<Rightarrow> True)) \<and> never_right E ip es (auth_step E e S))"

lemma step_attempts:
  "an_attempts (auth_step E e S) =
    (case verdict_of E e S of
       Some Wrong \<Rightarrow> note_failure (le_now e) (le_ip e) (an_attempts S)
     | Some (Right seed) \<Rightarrow> note_success (le_ip e) (an_attempts S)
     | _ \<Rightarrow> an_attempts S)"
proof (cases "password_request E (le_reader e)")
  case None
  from handle_other [OF None, of "le_random e" "le_now e" "le_ip e" "on_conn (le_conn e) S"]
  show ?thesis using None by (auto simp: auth_step_def verdict_of_def on_conn_def)
next
  case (Some p)
  obtain u r where p: "p = (u, r)" by (cases p)
  show ?thesis
    by (simp add: auth_step_def verdict_of_def Some p handle_password [OF Some [unfolded p]] apply_fields)
       (simp add: on_conn_def Let_def split: verdict.splits)
qed

lemma get_filter: "jm_ok m \<Longrightarrow> jm_get (filter (\<lambda>(k, v). P v) m) k =
    (case jm_get m k of Some v \<Rightarrow> if P v then Some v else None | None \<Rightarrow> None)"
proof (induction m)
  case (Cons p m)
  obtain k' v where p: "p = (k', v)" by (cases p)
  from Cons.prems p have "jm_get m k' = None" by (simp add: jm_ok_def map_of_eq_None_iff)
  with Cons p show ?case by (auto simp: jm_ok_def split: option.splits)
qed simp

definition account :: "int \<Rightarrow> int \<Rightarrow> int \<Rightarrow> attempt option \<Rightarrow> bool" where
  "account N t0 now rec =
     (case rec of
        None \<Rightarrow> 12000 * N \<le> now - t0
      | Some a \<Rightarrow>
          12000 * (N - int (min 5 (a_count a))) \<le> a_lastAttempt a - t0 \<and> a_lastAttempt a \<le> now \<and>
          (a_count a \<ge> 5 \<longrightarrow> a_lockedUntil a = a_lastAttempt a + 30000))"

lemma account_later: "account N t0 now rec \<Longrightarrow> now \<le> now' \<Longrightarrow> account N t0 now' rec"
  by (auto simp: account_def split: option.splits)

lemma account_stale: "account N t0 now (Some a) \<Longrightarrow> stale now' a \<Longrightarrow> now \<le> now' \<Longrightarrow> account N t0 now' None"
  by (auto simp: account_def stale_def)

lemma failure_ok: "jm_ok A \<Longrightarrow> jm_ok (note_failure now ip A)"
  by (simp add: note_failure_def Let_def)

lemma account_failure:
  assumes "account N t0 now0 (jm_get A ip)" "now0 \<le> now" "\<not> ip_locked now ip A" "ip \<noteq> ''unknown''" "jm_ok A"
  shows "account (N + 1) t0 now (jm_get (note_failure now ip A) ip)"
proof -
  let ?old = "attempt_of now ip A"
  let ?rec = "\<lparr>a_count = a_count ?old + 1, a_lockedUntil = (if a_count ?old + 1 \<ge> MAX_IP_FAILURES then now + LOCK_MS else a_lockedUntil ?old),
    a_lastAttempt = now\<rparr>"
  have fresh: "\<not> stale now ?rec" by (simp add: stale_def)
  have get: "jm_get (note_failure now ip A) ip = Some ?rec"
    using assms(4,5) fresh by (simp add: note_failure_def Let_def get_filter jm_get_set)
  have "account (N + 1) t0 now (Some ?rec)"
    using assms by (auto simp: account_def attempt_of_def ip_locked_def MAX_IP_FAILURES_def LOCK_MS_def min_def
        split: option.splits if_splits)
  then show ?thesis using get by simp
qed

lemma account_other:
  assumes "account N t0 now0 (jm_get A ip)" "now0 \<le> now" "ip' \<noteq> ip" "jm_ok A"
  shows "account N t0 now (jm_get (note_failure now ip' A) ip)" "account N t0 now (jm_get (note_success ip' A) ip)"
proof -
  have "account N t0 now (case jm_get A ip of Some a \<Rightarrow> if stale now a then None else Some a | None \<Rightarrow> None)"
    using assms(1,2) account_later [OF assms(1,2)] account_stale [of N t0 now0 _ now] by (auto split: option.splits)
  then show "account N t0 now (jm_get (note_failure now ip' A) ip)"
    using account_later [OF assms(1,2)] assms(3,4)
    by (auto simp: note_failure_def Let_def get_filter jm_get_set split: option.splits if_splits)
  show "account N t0 now (jm_get (note_success ip' A) ip)"
    using account_later [OF assms(1,2)] assms(3) by (simp add: note_success_def jm_get_delete)
qed

text \<open>A locked address has no password examined.\<close>

lemma wrong_not_locked:
  "verdict_of E e S = Some Wrong \<Longrightarrow> \<not> ip_locked (le_now e) (le_ip e) (an_attempts S)"
  by (auto simp: verdict_of_def password_verdict_def blocked_verdict_def on_conn_def split: option.splits if_splits)

lemma step_account:
  assumes "account N t0 now0 (jm_get (an_attempts S) ip)" "now0 \<le> le_now e" "ip \<noteq> ''unknown''" "jm_ok (an_attempts S)"
    "never_right E ip [e] S"
  shows "account (N + int (wrong_guesses E ip [e] S)) t0 (le_now e) (jm_get (an_attempts (auth_step E e S)) ip) \<and>
    jm_ok (an_attempts (auth_step E e S))"
proof -
  have later: "account N t0 (le_now e) (jm_get (an_attempts S) ip)" using account_later assms(1,2) by blast
  show ?thesis
  proof (cases "verdict_of E e S")
    case (Some v)
    show ?thesis
    proof (cases v)
      case Wrong
      have "\<not> ip_locked (le_now e) (le_ip e) (an_attempts S)" using wrong_not_locked Some Wrong by simp
      then show ?thesis using Some Wrong assms account_failure [OF assms(1,2) _ assms(3,4)]
          account_other(1) [OF assms(1,2) _ assms(4), of "le_ip e"]
        by (auto simp: step_attempts failure_ok add.commute)
    next
      case (Right seed)
      with Some assms(5) have "le_ip e \<noteq> ip" by auto
      then show ?thesis using Some Right assms account_other(2) [OF assms(1,2) _ assms(4), of "le_ip e"]
        by (auto simp: step_attempts note_success_def)
    qed (use Some later assms(4) in \<open>simp_all add: step_attempts\<close>)
  qed (use later assms(4) in \<open>simp_all add: step_attempts\<close>)
qed

lemma guesses_account:
  assumes "account N t0 now0 (jm_get (an_attempts S) ip)" "sorted (now0 # map le_now es)" "ip \<noteq> ''unknown''"
    "jm_ok (an_attempts S)" "never_right E ip es S"
  shows "\<exists>rec. account (N + int (wrong_guesses E ip es S)) t0 (last (now0 # map le_now es)) rec"
  using assms
proof (induction es arbitrary: N now0 S)
  case Nil
  then show ?case by auto
next
  case (Cons e es)
  have "never_right E ip [e] S" using Cons.prems(5) by simp
  from step_account [OF Cons.prems(1) _ Cons.prems(3,4) this]
  have step: "account (N + int (wrong_guesses E ip [e] S)) t0 (le_now e) (jm_get (an_attempts (auth_step E e S)) ip)"
    "jm_ok (an_attempts (auth_step E e S))" using Cons.prems(2) by auto
  have "never_right E ip es (auth_step E e S)" "sorted (le_now e # map le_now es)" using Cons.prems by auto
  from Cons.IH [OF step(1) this(2) Cons.prems(3) step(2) this(1)]
  obtain rec where "account (N + int (wrong_guesses E ip [e] S) + int (wrong_guesses E ip es (auth_step E e S))) t0
      (last (le_now e # map le_now es)) rec" by blast
  then show ?case by (auto simp: add.assoc)
qed

text \<open>
  C13. However many connections a client opens and whatever other clients do, at most five wrong passwords from its
  address are examined at once and at most one more for every twelve seconds, as long as it does not log in.
\<close>

theorem password_guesses_bounded:
  assumes "sorted (t0 # map le_now es)" "ip \<noteq> ''unknown''" "never_right E ip es S"
    "jm_ok (an_attempts S)" "jm_get (an_attempts S) ip = None"
  shows "12000 * (int (wrong_guesses E ip es S) - 5) \<le> last (t0 # map le_now es) - t0"
proof -
  have "account 0 t0 t0 (jm_get (an_attempts S) ip)" using assms(5) by (simp add: account_def)
  from guesses_account [OF this assms(1,2,4,3)] obtain rec
    where a: "account (int (wrong_guesses E ip es S)) t0 (last (t0 # map le_now es)) rec" by auto
  show ?thesis
  proof (cases rec)
    case None
    with a show ?thesis by (simp add: account_def)
  next
    case (Some x)
    with a have "12000 * (int (wrong_guesses E ip es S) - int (min 5 (a_count x))) \<le> last (t0 # map le_now es) - t0"
      by (simp add: account_def del: of_nat_min)
    moreover have "int (min 5 (a_count x)) \<le> 5" by simp
    ultimately show ?thesis by (smt (verit))
  qed
qed

definition password_packet :: "string \<Rightarrow> string \<Rightarrow> byte list" where
  "password_packet user password =
     concat (map field_bytes [FString Utf8 user, FString Utf8 ''ssh-connection'', FString Utf8 ''password'', FBool False,
       FString Utf8 password])"

lemma utf8_short: "length s < 100 \<Longrightarrow> length (utf8 s) < 4294967296"
proof -
  assume "length s < 100"
  moreover have "length (utf8 s) \<le> 2 * length s" by (induction s) (simp_all add: utf8_def utf8_char_def Let_def)
  ultimately show ?thesis by simp
qed

lemma password_arrives:
  assumes "isValidUsername user" "length (utf8 user) < 4294967296" "length (utf8 password) < 4294967296"
  shows "\<exists>r. password_request E (new_reader (password_packet user password)) = Some (formatUser (ae_nodeId E) user None, r) \<and>
    read_password r = Ok password"
proof -
  let ?fields = "[FString Utf8 user, FString Utf8 ''ssh-connection'', FString Utf8 ''password'', FBool False, FString Utf8 password]"
  have short: "length (utf8 ''ssh-connection'') < 4294967296" "length (utf8 ''password'') < 4294967296"
    by (simp_all add: utf8_short)
  define r0 where "r0 = new_reader (password_packet user password)"
  have u0: "unread r0 (field_bytes (FString Utf8 user) @ concat (map field_bytes (tl ?fields)))"
    by (simp add: r0_def password_packet_def)
  obtain r1 where r1: "readString Utf8 r0 = (Ok user, r1)" "unread r1 (concat (map field_bytes (tl ?fields)))"
    using read_string [of r0 Utf8 user] u0 assms(2) by auto
  obtain r2 where r2: "readString Utf8 r1 = (Ok ''ssh-connection'', r2)" "unread r2 (concat (map field_bytes (tl (tl ?fields))))"
    using read_string [of r1 Utf8 "''ssh-connection''"] r1(2) short by auto
  obtain r3 where r3: "readString Utf8 r2 = (Ok ''password'', r3)" "unread r3 (0 # field_bytes (FString Utf8 password))"
    using read_string [of r2 Utf8 "''password''"] r2(2) short by auto
  obtain r4 where r4: "readBoolean r3 = (Ok False, r4)" "unread r4 (field_bytes (FString Utf8 password))"
    using read_byte [OF r3(2)] by (auto simp: readBoolean_def)
  obtain r5 where r5: "readString Utf8 r4 = (Ok password, r5)"
    using read_string [of r4 Utf8 password "[]"] r4(2) assms(3) by auto
  show ?thesis
    using assms(1) r1(1) r2(1) r3(1) r4(1) r5
    by (simp add: password_request_def read_header_def read_password_def read_then_def r0_def)
qed

text \<open>A concrete server: an account with an unreadable vault, and a client that guesses.\<close>

definition sample_auth :: auth_env where
  "sample_auth = \<lparr>ae_crypto = clear_crypto, ae_locale = ''en'', ae_nodeId = None, ae_nodeAddress = ''n''\<rparr>"

definition locked_profile :: db where
  "locked_profile = upsert_profile ''@al:local.mesh'' (\<lambda>p. p\<lparr>p_passwordHash := ''x''\<rparr>) (empty_db [])"

definition sample_server :: auth_node where
  "sample_server = \<lparr>an_attempts = [], an_db = locked_profile, an_conns = (\<lambda>c. new_auth_conn)\<rparr>"

definition guess :: login_event where
  "guess = \<lparr>le_now = 1000, le_ip = ''10.0.0.9'', le_conn = 7, le_random = [],
     le_reader = new_reader (password_packet ''al'' ''secret'')\<rparr>"

lemma clear_seed: "32 \<le> length k \<Longrightarrow> \<exists>seed. deriveVaultSeed clear_crypto password k address = Ok seed"
  by (simp add: deriveVaultSeed_def clear_crypto_def Let_def)

lemma clear_hash: "length (sha256 clear_crypto bs) = 32"
  by (simp add: clear_crypto_def pad32_def)

lemma guess_is_wrong: "verdict_of sample_auth guess sample_server = Some Wrong"
proof -
  have valid: "isValidUsername ''al''" by (simp add: isValidUsername_def user_char_def Let_def)
  obtain r where r: "password_request sample_auth (le_reader guess) = Some (formatUser None ''al'' None, r)"
    "read_password r = Ok ''secret''"
    using password_arrives [OF valid, of "''secret''" sample_auth] utf8_short by (auto simp: guess_def sample_auth_def)
  have user: "formatUser None ''al'' None = ''@al:local.mesh''" by (simp add: formatUser_def or_else_def)
  let ?p = "blank_profile\<lparr>p_passwordHash := ''x'', p_contacts := normalize_contacts ''en'' []\<rparr>"
  have profile: "getUserProfile ''en'' ''@al:local.mesh'' locked_profile = (?p, locked_profile)"
    by (simp add: getUserProfile_def locked_profile_def upsert_profile_def empty_db_def blank_profile_def)
  have opens: "json_parse ''x'' = None"
    by (simp add: json_parse_def json_space_def parse_num_def starts_with_def is_digit_def digit_value_def Let_def)
  obtain seed where seed: "vault_seed sample_auth ''@al:local.mesh'' ?p None ''secret'' = Ok seed"
    using clear_seed [of "sha256 clear_crypto (utf8 ''salt:n:@al:local.mesh'')" "''secret''" "''n''"]
    by (auto simp: vault_seed_def salt_key_def registered_keys_def blank_profile_def sample_auth_def clear_hash)
  show ?thesis
    using r user profile seed opens
    by (simp add: verdict_of_def password_verdict_def blocked_verdict_def examine_password_def vault_opens_def ip_locked_def
        key_registered_def registered_keys_def blank_profile_def on_conn_def sample_server_def new_auth_conn_def
        sample_auth_def MAX_CONN_FAILURES_def Let_def)
qed

theorem password_guesses_bounded_witness:
  "wrong_guesses sample_auth ''10.0.0.9'' [guess] sample_server = 1 \<and>
   12000 * (int (wrong_guesses sample_auth ''10.0.0.9'' [guess] sample_server) - 5) \<le> 0"
proof -
  have "le_now guess = 1000" "le_ip guess = ''10.0.0.9''" by (simp_all add: guess_def)
  then show ?thesis
    using password_guesses_bounded [of 1000 "[guess]" "''10.0.0.9''" sample_auth sample_server] guess_is_wrong
    by (simp add: sample_server_def)
qed

section \<open>The password that made a vault opens it\<close>

lemma profile_row:
  assumes "getUserProfile loc user d = (p, d1)"
  shows "\<exists>q. jm_get (profiles d1) user = Some q \<and> p_passwordHash q = p_passwordHash p \<and>
    (registered_keys p = [] \<longrightarrow> p_publicKeys q = [] \<and> p_publicKey q = [])"
  using assms
  by (auto simp: getUserProfile_def updateUserProfile_def upsert_profile_def jm_get_set blank_profile_def registered_keys_def
      Let_def split: option.splits if_splits)

lemma vault_row:
  assumes "getUserProfile loc user d = (p, d1)" "registered_keys p = []" "ae_locale E = loc" "k \<noteq> []"
  shows "\<exists>q. jm_get (profiles (register_vault E random user seed (Some k) d1)) user = Some q \<and>
    p_passwordHash q = stringify (json_of_envelope (createVaultAuthToken (ae_crypto E) random seed)) \<and>
    p_publicKeys q = [b64_encode k]"
  using profile_row [OF assms(1)] assms(2,3)
  by (auto simp: register_vault_def updateUserPassword_def upsert_profile_def addUserPublicKey_def update_profile_def
      getUserProfile_def set_keys_def js_uniq_def js_add_def jm_get_set Let_def)

lemma getUserProfile_row:
  "jm_get (profiles d) user = Some q \<Longrightarrow> p_publicKeys q \<noteq> [] \<Longrightarrow>
    \<exists>p. getUserProfile loc user d = (p, d) \<and> p_passwordHash p = p_passwordHash q \<and> p_publicKeys p = p_publicKeys q"
  by (simp add: getUserProfile_def)

lemma token_text: "json_parse (stringify (json_of_envelope e)) = Some (json_of_envelope e)"
  by (rule json_parse_stringify) (simp add: json_of_envelope_def)

lemma envelope_json: "envelope_of_json (json_of_envelope e) = Some e"
  by (simp add: envelope_of_json_def json_of_envelope_def str_field_def)

lemma token_opens: "gcm_ok (ae_crypto E) seed \<Longrightarrow>
    p_passwordHash p = stringify (json_of_envelope (createVaultAuthToken (ae_crypto E) random seed)) \<Longrightarrow> vault_opens E p seed"
  by (simp add: vault_opens_def token_text envelope_json verifyVaultAuthToken_def)
     (simp add: createVaultAuthToken_def decrypt_encrypt normalizeKey_def)


definition sample_key :: "byte list" where
  "sample_key = replicate 32 5"

definition offering :: auth_conn where
  "offering = new_auth_conn\<lparr>ac_offeredClientPub := Some sample_key\<rparr>"


text \<open>
  The seed depends on the first key of the account. When \<open>/keys del\<close> removes that one, the seed of the same password
  comes from the next key, which the token was not made with.
\<close>

lemma deleting_first_key_changes_salt:
  assumes "jm_get (profiles d) user = Some q" "p_publicKeys q = [k1, k2]" "k1 \<noteq> k2"
  shows "salt_key E user (fst (getUserProfile loc user d)) offered = b64_decode k1 \<and>
    salt_key E user (fst (getUserProfile loc user (snd (removeUserPublicKey loc user k1 d)))) offered = b64_decode k2"
  using assms
  by (simp add: salt_key_def registered_keys_def getUserProfile_def removeUserPublicKey_def update_profile_def set_keys_def
      jm_get_set Let_def)

definition fresh_state :: auth_state where
  "fresh_state = \<lparr>au_attempts = [], au_db = empty_db [], au_conn = offering\<rparr>"

definition login_request :: reader where
  "login_request = new_reader (password_packet ''al'' ''secret'')"

lemma login_succeeds:
  "ac_authenticatedUser (au_conn (fst (handleUserAuth sample_auth [] 0 ''10.0.0.9'' login_request fresh_state))) =
    Some ''@al:local.mesh''"
proof -
  have valid: "isValidUsername ''al''" by (simp add: isValidUsername_def user_char_def Let_def)
  have user: "formatUser None ''al'' None = ''@al:local.mesh''" by (simp add: formatUser_def or_else_def)
  obtain r where r: "password_request sample_auth login_request = Some (''@al:local.mesh'', r)" "read_password r = Ok ''secret''"
    using password_arrives [OF valid, of "''secret''" sample_auth] utf8_short user by (auto simp: login_request_def sample_auth_def)
  let ?p = "fst (getUserProfile ''en'' ''@al:local.mesh'' (empty_db []))"
  have p: "p_passwordHash ?p = []" "registered_keys ?p = []"
    by (simp_all add: getUserProfile_def empty_db_def blank_profile_def registered_keys_def)
  obtain seed where "vault_seed sample_auth ''@al:local.mesh'' ?p (Some sample_key) ''secret'' = Ok seed"
    using clear_seed [of sample_key "''secret''" "''n''"]
    by (auto simp: vault_seed_def salt_key_def p(2) sample_auth_def sample_key_def)
  then have "\<exists>seed. fst (password_verdict sample_auth [] 0 ''10.0.0.9'' ''@al:local.mesh'' r fresh_state) = Right seed"
    using r(2) p by (simp add: password_verdict_def blocked_verdict_def ip_locked_def fresh_state_def offering_def new_auth_conn_def
        MAX_CONN_FAILURES_def examine_password_def key_registered_def split_beta sample_auth_def Let_def)
  then show ?thesis using handle_password [OF r(1)] by (auto simp: apply_fields)
qed

theorem ssh_login_needs_vault_witness:
  "\<exists>r1 password seed. password_request sample_auth login_request = Some (''@al:local.mesh'', r1) \<and>
     read_password r1 = Ok password \<and> login_proof sample_auth ''@al:local.mesh'' password fresh_state seed"
  using ssh_login_needs_vault [OF _ login_succeeds] by (auto simp: fresh_state_def offering_def new_auth_conn_def)

end
