(* ===== verification/SshConnection.thy ===== *)
theory SshConnection
  imports SshAuth Session
begin

text \<open>
  \<open>src/core/sshKexHandler.js\<close> and \<open>src/core/sshClientConnection.js\<close>: the SSH server's side of a connection. It
  reads the client's banner, exchanges keys, and then takes packets off the buffer one by one, in clear or decrypted
  and authenticated, and handles each. Node's primitives are the record \<open>kex_crypto\<close>; a cipher in counter mode is
  its key, its vector and the position in its key stream. An exception in the listener ends the handling of a chunk.
  The terminal session behind the channel is reached through effects.
\<close>

section \<open>State\<close>

record kex_crypto =
  kc_sha256 :: "byte list \<Rightarrow> byte list"
  kc_hmac :: "byte list \<Rightarrow> byte list \<Rightarrow> byte list"
  kc_keystream :: "byte list \<Rightarrow> byte list \<Rightarrow> nat \<Rightarrow> byte"
  kc_x25519_public :: "byte list \<Rightarrow> byte list"
  kc_x25519_shared :: "byte list \<Rightarrow> byte list \<Rightarrow> byte list option"
  kc_kem_encapsulate :: "byte list \<Rightarrow> byte list \<Rightarrow> (byte list \<times> byte list) option"
  kc_sign :: "byte list \<Rightarrow> byte list"
  kc_hasMlKem :: bool
  kc_fromPkcs8 :: "byte list \<Rightarrow> kem_pair option"

record ssh_env =
  se_auth :: auth_env
  se_kex :: kex_crypto
  se_hostKey :: "byte list"
  se_padding :: "nat \<Rightarrow> byte list"
  se_cookie :: "byte list"
  se_seed :: "byte list"
  se_kemSeed :: "byte list"
  se_vaultIv :: "byte list"
  se_now :: int
  se_ip :: string

record ctr_cipher =
  ci_key :: "byte list"
  ci_iv :: "byte list"
  ci_pos :: nat

datatype conn_phase = IDENT | KEX

record ssh_conn =
  sc_state :: conn_phase
  sc_clientVersion :: string
  sc_serverVersion :: string
  sc_clientKexPayload :: "byte list option"
  sc_serverKexPayload :: "byte list option"
  sc_postQuantum :: bool
  sc_sharedSecret :: "byte list option"
  sc_exchangeHash :: "byte list option"
  sc_sessionIdentifier :: "byte list option"
  sc_isEncryptedIn :: bool
  sc_isEncryptedOut :: bool
  sc_encryptCipher :: "ctr_cipher option"
  sc_decryptCipher :: "ctr_cipher option"
  sc_outHmacKey :: "byte list"
  sc_inHmacKey :: "byte list"
  sc_inSeq :: "32 word"
  sc_outSeq :: "32 word"
  sc_currentPacketLen :: nat
  sc_decryptedHead :: "byte list"
  sc_auth :: auth_conn
  sc_channelRemoteId :: "nat option"
  sc_channelRemoteWindow :: nat
  sc_channelRemoteMaxPacket :: nat
  sc_session :: bool
  sc_termWidth :: nat
  sc_termHeight :: nat
  sc_destroyed :: bool
  sc_ended :: bool
  sc_endTimer :: bool

record ssh_state =
  ss_conn :: ssh_conn
  ss_attempts :: attempts
  ss_db :: db

datatype conn_effect =
    Written "byte list"
  | SocketDestroyed bool
  | SocketEnded
  | SessionStarted string "kem_pair option"
  | SessionResized nat nat
  | ChannelInput "byte list"
  | SessionClosed string

type_synonym ssh_act = "ssh_state \<Rightarrow> ssh_state \<times> conn_effect list"

fun ssh_seq :: "ssh_act list \<Rightarrow> ssh_act" where
  "ssh_seq [] s = (s, [])"
| "ssh_seq (f # fs) s = (let (s1, e1) = f s; (s2, e2) = ssh_seq fs s1 in (s2, e1 @ e2))"

definition on_state :: "(ssh_conn \<Rightarrow> ssh_conn) \<Rightarrow> ssh_act" where
  "on_state f s = (s\<lparr>ss_conn := f (ss_conn s)\<rparr>, [])"

definition formatSshServerVersion :: "string \<Rightarrow> string option \<Rightarrow> string" where
  "formatSshServerVersion version custom =
     (case custom of
        Some v \<Rightarrow>
          if js_trim v \<noteq> [] then (if starts_with ''SSH-2.0-'' (js_trim v) then js_trim v else ''SSH-2.0-'' @ js_trim v)
          else ''SSH-2.0-Metrice_'' @ version
      | None \<Rightarrow> ''SSH-2.0-Metrice_'' @ version)"

definition new_ssh_conn :: "string \<Rightarrow> ssh_conn" where
  "new_ssh_conn serverVersion =
     \<lparr>sc_state = IDENT, sc_clientVersion = [], sc_serverVersion = serverVersion, sc_clientKexPayload = None,
      sc_serverKexPayload = None, sc_postQuantum = True, sc_sharedSecret = None, sc_exchangeHash = None,
      sc_sessionIdentifier = None, sc_isEncryptedIn = False, sc_isEncryptedOut = False, sc_encryptCipher = None,
      sc_decryptCipher = None, sc_outHmacKey = [], sc_inHmacKey = [], sc_inSeq = 0, sc_outSeq = 0,
      sc_currentPacketLen = 0, sc_decryptedHead = [], sc_auth = new_auth_conn, sc_channelRemoteId = None,
      sc_channelRemoteWindow = 0, sc_channelRemoteMaxPacket = 32768, sc_session = False, sc_termWidth = 110,
      sc_termHeight = 24, sc_destroyed = False, sc_ended = False, sc_endTimer = False\<rparr>"

definition ssh_banner :: "ssh_conn \<Rightarrow> conn_effect list" where
  "ssh_banner c = [Written (utf8 (sc_serverVersion c @ [CHR 0x0D, CHR 0x0A]))]"

definition destroySocket :: "bool \<Rightarrow> ssh_act" where
  "destroySocket reset s = (s\<lparr>ss_conn := (ss_conn s)\<lparr>sc_destroyed := True\<rparr>\<rparr>, [SocketDestroyed reset])"

definition endSocket :: ssh_act where
  "endSocket s = (s\<lparr>ss_conn := (ss_conn s)\<lparr>sc_ended := True\<rparr>\<rparr>, [SocketEnded])"

section \<open>Ciphers and packets\<close>

definition keystream_at :: "kex_crypto \<Rightarrow> ctr_cipher \<Rightarrow> nat \<Rightarrow> byte list" where
  "keystream_at K c n = map (kc_keystream K (ci_key c) (ci_iv c)) [ci_pos c..<ci_pos c + n]"

definition cipher_update :: "kex_crypto \<Rightarrow> ctr_cipher \<Rightarrow> byte list \<Rightarrow> byte list \<times> ctr_cipher" where
  "cipher_update K c data = (map2 (XOR) data (keystream_at K c (length data)), c\<lparr>ci_pos := ci_pos c + length data\<rparr>)"

definition BLOCK :: nat where
  "BLOCK = 16"

definition padding_length :: "nat \<Rightarrow> nat" where
  "padding_length n = (let p = BLOCK - (4 + 1 + n) mod BLOCK in if p < 4 then p + BLOCK else p)"

text \<open>\<open>randomBytes(n)\<close>: as many bytes as asked for.\<close>

definition random_padding :: "ssh_env \<Rightarrow> 32 word \<Rightarrow> nat \<Rightarrow> byte list" where
  "random_padding E seq n = take n (se_padding E (unat seq) @ replicate n 0)"

definition raw_packet :: "byte list \<Rightarrow> byte list \<Rightarrow> byte list" where
  "raw_packet payload padding =
     uint32_bytes (1 + length payload + length padding) @ of_nat (length padding) # payload @ padding"

definition mac_of :: "kex_crypto \<Rightarrow> byte list \<Rightarrow> 32 word \<Rightarrow> byte list \<Rightarrow> byte list" where
  "mac_of K key seq packet = kc_hmac K key (uint32_bytes (unat seq) @ packet)"

definition socket_open :: "ssh_conn \<Rightarrow> bool" where
  "socket_open c = (\<not> sc_destroyed c \<and> \<not> sc_ended c)"

definition sendPacket :: "ssh_env \<Rightarrow> byte list \<Rightarrow> ssh_act" where
  "sendPacket E payload s =
     (let c = ss_conn s; K = se_kex E;
          raw = raw_packet payload (random_padding E (sc_outSeq c) (padding_length (length payload)))
      in if \<not> socket_open c then (s, [])
         else case (sc_isEncryptedOut c, sc_encryptCipher c) of
           (True, Some cipher) \<Rightarrow>
             (let (encrypted, cipher') = cipher_update K cipher raw
              in (s\<lparr>ss_conn := c\<lparr>sc_encryptCipher := Some cipher', sc_outSeq := sc_outSeq c + 1\<rparr>\<rparr>,
                  [Written (encrypted @ mac_of K (sc_outHmacKey c) (sc_outSeq c) raw)]))
         | _ \<Rightarrow> (s\<lparr>ss_conn := c\<lparr>sc_outSeq := sc_outSeq c + 1\<rparr>\<rparr>, [Written raw]))"

definition sendFields :: "ssh_env \<Rightarrow> ssh_field list \<Rightarrow> ssh_act" where
  "sendFields E fs = sendPacket E (packet_of fs)"

section \<open>Key exchange\<close>

definition PQ_KEX :: string where
  "PQ_KEX = ''mlkem768x25519-sha256''"

definition kexinit_fields :: "byte list \<Rightarrow> ssh_field list" where
  "kexinit_fields cookie =
     FByte 20 # map FByte cookie @
     [FNames [PQ_KEX, ''curve25519-sha256'', ''curve25519-sha256@libssh.org''], FNames [''ssh-ed25519''],
      FNames [''aes128-ctr'', ''aes256-ctr''], FNames [''aes128-ctr'', ''aes256-ctr''],
      FNames [''hmac-sha2-256''], FNames [''hmac-sha2-256''], FNames [''none''], FNames [''none''], FNames [], FNames [],
      FBool False, FUInt32 0]"

definition sendKexInit :: "ssh_env \<Rightarrow> ssh_act" where
  "sendKexInit E =
     (let payload = packet_of (kexinit_fields (take 16 (se_cookie E @ replicate 16 0)))
      in ssh_seq [on_state (\<lambda>c. c\<lparr>sc_serverKexPayload := Some payload\<rparr>), sendPacket E payload])"

definition secret_bytes :: "bool \<Rightarrow> byte list \<Rightarrow> byte list" where
  "secret_bytes postQuantum k =
     (let m = (if postQuantum then k else mpint_bytes k) in uint32_bytes (length m) @ m)"

text \<open>Each round appends a digest; with digests that are not empty \<open>len\<close> rounds are enough.\<close>

fun extend_key :: "kex_crypto \<Rightarrow> byte list \<Rightarrow> nat \<Rightarrow> nat \<Rightarrow> byte list \<Rightarrow> byte list" where
  "extend_key K prefix len 0 key = key"
| "extend_key K prefix len (Suc n) key =
     (if length key < len then extend_key K prefix len n (key @ kc_sha256 K (prefix @ key)) else key)"

definition deriveKey :: "kex_crypto \<Rightarrow> bool \<Rightarrow> byte list \<Rightarrow> byte list \<Rightarrow> byte list \<Rightarrow> char \<Rightarrow> nat \<Rightarrow> byte list" where
  "deriveKey K postQuantum secret hash sid letter len =
     (let prefix = secret_bytes postQuantum secret @ hash
      in take len (extend_key K prefix len len (kc_sha256 K (prefix @ [of_char letter] @ sid))))"

definition prepareKeys :: "kex_crypto \<Rightarrow> byte list \<Rightarrow> byte list \<Rightarrow> byte list \<Rightarrow> ssh_conn \<Rightarrow> ssh_conn" where
  "prepareKeys K secret hash sid c =
     (let D = deriveKey K (sc_postQuantum c) secret hash sid
      in c\<lparr>sc_inHmacKey := D CHR ''E'' 32, sc_outHmacKey := D CHR ''F'' 32,
           sc_decryptCipher := Some \<lparr>ci_key = D CHR ''C'' 16, ci_iv = D CHR ''A'' 16, ci_pos = 0\<rparr>,
           sc_encryptCipher := Some \<lparr>ci_key = D CHR ''D'' 16, ci_iv = D CHR ''B'' 16, ci_pos = 0\<rparr>\<rparr>)"

definition exchange_secret :: "ssh_env \<Rightarrow> bool \<Rightarrow> byte list \<Rightarrow> (byte list \<times> byte list) option" where
  "exchange_secret E postQuantum clientBlob =
     (let K = se_kex E; serverPub = kc_x25519_public K (se_seed E)
      in if postQuantum
         then (if length clientBlob \<noteq> 1216 then None
               else case kc_x25519_shared K (se_seed E) (drop 1184 clientBlob) of
                 None \<Rightarrow> None
               | Some kCl \<Rightarrow>
                   (case kc_kem_encapsulate K (take 1184 clientBlob) (se_kemSeed E) of
                      None \<Rightarrow> None
                    | Some (kPq, ct) \<Rightarrow> Some (ct @ serverPub, kc_sha256 K (kPq @ kCl))))
         else if length clientBlob \<noteq> 32 then None
         else map_option (\<lambda>k. (serverPub, k)) (kc_x25519_shared K (se_seed E) clientBlob))"

definition host_key_blob :: "ssh_env \<Rightarrow> byte list" where
  "host_key_blob E = packet_of [FString Utf8 ''ssh-ed25519'', FBuffer (se_hostKey E)]"

definition exchange_hash :: "ssh_env \<Rightarrow> ssh_conn \<Rightarrow> byte list \<Rightarrow> byte list \<Rightarrow> byte list \<Rightarrow> byte list option" where
  "exchange_hash E c clientBlob serverBlob secret =
     (case (sc_clientKexPayload c, sc_serverKexPayload c) of
        (Some ic, Some is') \<Rightarrow>
          Some (kc_sha256 (se_kex E)
            (packet_of [FString Utf8 (sc_clientVersion c), FString Utf8 (sc_serverVersion c), FBuffer ic, FBuffer is',
               FBuffer (host_key_blob E), FBuffer clientBlob, FBuffer serverBlob,
               (if sc_postQuantum c then FBuffer secret else FMpint secret)]))
      | _ \<Rightarrow> None)"

definition handleKexInitMessage :: "ssh_env \<Rightarrow> reader \<Rightarrow> ssh_act" where
  "handleKexInitMessage E r s =
     (case readBuffer r of
        (Throw e, r1) \<Rightarrow> destroySocket True s
      | (Ok clientBlob, r1) \<Rightarrow>
          (case exchange_secret E (sc_postQuantum (ss_conn s)) clientBlob of
             None \<Rightarrow> destroySocket True s
           | Some (serverBlob, secret) \<Rightarrow>
               (let c1 = (ss_conn s)\<lparr>sc_sharedSecret := Some secret\<rparr>
                in case exchange_hash E c1 clientBlob serverBlob secret of
                     None \<Rightarrow> destroySocket True (s\<lparr>ss_conn := c1\<rparr>)
                   | Some hash \<Rightarrow>
                       (let sid = (case sc_sessionIdentifier c1 of Some i \<Rightarrow> i | None \<Rightarrow> hash);
                            signature = packet_of [FString Utf8 ''ssh-ed25519'', FBuffer (kc_sign (se_kex E) hash)]
                        in ssh_seq
                             [on_state (\<lambda>c. c1\<lparr>sc_exchangeHash := Some hash, sc_sessionIdentifier := Some sid\<rparr>),
                              sendFields E [FByte 31, FBuffer (host_key_blob E), FBuffer serverBlob, FBuffer signature],
                              sendFields E [FByte 21],
                              on_state (\<lambda>c. (prepareKeys (se_kex E) secret hash sid c)\<lparr>sc_isEncryptedOut := True\<rparr>)] s))))"

section \<open>Handling a packet\<close>

text \<open>The outcome of a handler: it comes to its end, or an exception leaves it.\<close>

datatype ended = Finished | Raised

type_synonym ssh_handler = "ssh_state \<Rightarrow> (ssh_state \<times> conn_effect list) \<times> ended"

definition finish :: "ssh_act \<Rightarrow> ssh_handler" where
  "finish f s = (f s, Finished)"

definition stop_raised :: ssh_handler where
  "stop_raised s = ((s, []), Raised)"

text \<open>\<open>const v = reader.readX()\<close> in a handler.\<close>

definition reading :: "'a result \<times> reader \<Rightarrow> ('a \<Rightarrow> reader \<Rightarrow> ssh_handler) \<Rightarrow> ssh_handler" where
  "reading x g = (case x of (Ok v, r) \<Rightarrow> g v r | (Throw e, r) \<Rightarrow> stop_raised)"

definition after :: "ssh_act \<Rightarrow> ssh_handler \<Rightarrow> ssh_handler" where
  "after f h s = (let (s1, e1) = f s; ((s2, e2), outcome) = h s1 in ((s2, e1 @ e2), outcome))"

definition remote_id :: "ssh_conn \<Rightarrow> nat" where
  "remote_id c = (case sc_channelRemoteId c of Some n \<Rightarrow> n | None \<Rightarrow> 0)"

definition sendChannelSuccess :: "ssh_env \<Rightarrow> ssh_act" where
  "sendChannelSuccess E s = sendFields E [FByte 99, FUInt32 (remote_id (ss_conn s))] s"

definition virtual_write :: "ssh_env \<Rightarrow> byte list \<Rightarrow> ssh_act" where
  "virtual_write E data s =
     (if ac_authenticatedUser (sc_auth (ss_conn s)) = None \<or> \<not> socket_open (ss_conn s) then (s, [])
      else sendFields E [FByte 94, FUInt32 (remote_id (ss_conn s)), FBuffer data] s)"

definition virtual_end :: "ssh_env \<Rightarrow> byte list \<Rightarrow> ssh_act" where
  "virtual_end E data s =
     (if \<not> socket_open (ss_conn s) then (s, [])
      else ssh_seq [(if data = [] then (\<lambda>s. (s, [])) else virtual_write E data),
                    virtual_write E (utf8 (CHR 0x1B # ''[?2004l'' @ [CHR 0x0D, CHR 0x0A])),
                    on_state (\<lambda>c. c\<lparr>sc_endTimer := True\<rparr>)] s)"

text \<open>The socket is ended a moment later, unless the connection has been cleaned up before.\<close>

definition end_timer :: ssh_act where
  "end_timer s =
     (if \<not> sc_endTimer (ss_conn s) then (s, [])
      else ssh_seq [on_state (\<lambda>c. c\<lparr>sc_endTimer := False\<rparr>),
                    (\<lambda>s. if socket_open (ss_conn s) then endSocket s else (s, []))] s)"

text \<open>The key pair whose private key is the seed, from its PKCS#8 form.\<close>

definition deriveDeterministicX25519 :: "kex_crypto \<Rightarrow> byte list \<Rightarrow> kem_pair option" where
  "deriveDeterministicX25519 K seed = kc_fromPkcs8 K (from_hex ''302e020100300506032b656e04220420'' @ seed)"

definition startSshTuiSession :: "ssh_env \<Rightarrow> ssh_handler" where
  "startSshTuiSession E s =
     (let c = ss_conn s; user = (case ac_authenticatedUser (sc_auth c) of Some u \<Rightarrow> u | None \<Rightarrow> []);
          d1 = snd (getUserProfile (ae_locale (se_auth E)) user (ss_db s));
          s1 = s\<lparr>ss_db := d1, ss_conn := c\<lparr>sc_session := True\<rparr>\<rparr>
      in case ac_derivedE2eeSeed (sc_auth c) of
           None \<Rightarrow>
             finish (ssh_seq [virtual_write E (utf8 PASTE_ON), (\<lambda>t. (t, [SessionStarted user None,
               SessionResized (sc_termWidth c) (sc_termHeight c)]))]) s1
         | Some seed \<Rightarrow>
             (case deriveDeterministicX25519 (se_kex E) seed of
                None \<Rightarrow> stop_raised s1
              | Some pair \<Rightarrow>
                  finish (ssh_seq [virtual_write E (utf8 PASTE_ON), (\<lambda>t. (t, [SessionStarted user (Some pair),
                      SessionResized (sc_termWidth c) (sc_termHeight c)]))])
                    (s1\<lparr>ss_db := updateUserKemKey user (k_public pair) d1\<rparr>)))"

definition cleanup :: ssh_act where
  "cleanup s =
     (let c = (ss_conn s)\<lparr>sc_endTimer := False\<rparr>
      in case (ac_authenticatedUser (sc_auth c), sc_session c) of
           (Some user, True) \<Rightarrow>
             (s\<lparr>ss_conn := c\<lparr>sc_session := False, sc_auth := (sc_auth c)\<lparr>ac_authenticatedUser := None\<rparr>\<rparr>\<rparr>, [SessionClosed user])
         | _ \<Rightarrow> (s\<lparr>ss_conn := c\<rparr>, []))"

text \<open>The effects of the authentication handler, carried out in order.\<close>

fun perform :: "ssh_env \<Rightarrow> ssh_effect list \<Rightarrow> ssh_act" where
  "perform E [] s = (s, [])"
| "perform E (SendPacket payload # es) s = ssh_seq [sendPacket E payload, perform E es] s"
| "perform E (DestroyConn reset # es) s = ssh_seq [destroySocket reset, perform E es] s"
| "perform E (EndConn # es) s = ssh_seq [endSocket, perform E es] s"

definition authenticate :: "ssh_env \<Rightarrow> reader \<Rightarrow> ssh_act" where
  "authenticate E r s =
     (let (a, fx) = handleUserAuth (se_auth E) (se_vaultIv E) (se_now E) (se_ip E) r
                      \<lparr>au_attempts = ss_attempts s, au_db = ss_db s, au_conn = sc_auth (ss_conn s)\<rparr>
      in perform E fx (s\<lparr>ss_attempts := au_attempts a, ss_db := au_db a, ss_conn := (ss_conn s)\<lparr>sc_auth := au_conn a\<rparr>\<rparr>))"

definition logged_in :: "ssh_state \<Rightarrow> bool" where
  "logged_in s = (ac_authenticatedUser (sc_auth (ss_conn s)) \<noteq> None)"

definition on_kexinit :: "ssh_env \<Rightarrow> byte list \<Rightarrow> reader \<Rightarrow> ssh_handler" where
  "on_kexinit E payload r =
     after (on_state (\<lambda>c. c\<lparr>sc_clientKexPayload := Some payload\<rparr>))
       (reading (readNameList (advance 16 r))
         (\<lambda>names r1. finish (on_state (\<lambda>c. c\<lparr>sc_postQuantum := (PQ_KEX \<in> set names \<and> kc_hasMlKem (se_kex E))\<rparr>))))"

definition on_service :: "ssh_env \<Rightarrow> reader \<Rightarrow> ssh_handler" where
  "on_service E r =
     reading (readString Utf8 r)
       (\<lambda>service r1. finish (if service = ''ssh-userauth'' then sendFields E [FByte 6, FString Utf8 ''ssh-userauth'']
                             else (\<lambda>s. (s, []))))"

definition on_userauth :: "ssh_env \<Rightarrow> reader \<Rightarrow> ssh_handler" where
  "on_userauth E r s = finish (if sc_isEncryptedIn (ss_conn s) then authenticate E r else destroySocket True) s"

text \<open>Handlers that only a client with a user gets to; anyone else is disconnected.\<close>

definition for_user :: "ssh_handler \<Rightarrow> ssh_handler" where
  "for_user h s = (if logged_in s then h s else finish (destroySocket True) s)"

definition open_channel :: "ssh_env \<Rightarrow> string \<Rightarrow> nat \<Rightarrow> ssh_act" where
  "open_channel E chanType remote =
     (if chanType = ''session''
      then sendFields E [FByte 91, FUInt32 remote, FUInt32 0, FUInt32 1048576, FUInt32 32768] else (\<lambda>s. (s, [])))"

definition on_channel_open :: "ssh_env \<Rightarrow> reader \<Rightarrow> ssh_handler" where
  "on_channel_open E r =
     for_user (reading (readString Utf8 r) (\<lambda>chanType r1. reading (readUInt32 r1) (\<lambda>remote r2.
       after (on_state (\<lambda>c. c\<lparr>sc_channelRemoteId := Some remote\<rparr>))
         (reading (readUInt32 r2) (\<lambda>window r3.
           after (on_state (\<lambda>c. c\<lparr>sc_channelRemoteWindow := window\<rparr>))
             (reading (readUInt32 r3) (\<lambda>maxPacket r4.
               after (on_state (\<lambda>c. c\<lparr>sc_channelRemoteMaxPacket := maxPacket\<rparr>))
                 (finish (open_channel E chanType remote)))))))))"

definition confirm :: "ssh_env \<Rightarrow> bool \<Rightarrow> ssh_act" where
  "confirm E wantReply = (if wantReply then sendChannelSuccess E else (\<lambda>s. (s, [])))"

definition on_pty :: "ssh_env \<Rightarrow> bool \<Rightarrow> reader \<Rightarrow> ssh_handler" where
  "on_pty E wantReply r =
     reading (readString Utf8 r) (\<lambda>term r1. reading (readUInt32 r1) (\<lambda>w r2.
       after (on_state (\<lambda>c. c\<lparr>sc_termWidth := w\<rparr>))
         (reading (readUInt32 r2) (\<lambda>h r3.
           after (on_state (\<lambda>c. c\<lparr>sc_termHeight := h\<rparr>)) (finish (confirm E wantReply))))))"

definition resize_session :: "nat \<Rightarrow> nat \<Rightarrow> ssh_act" where
  "resize_session w h s = (s, if sc_session (ss_conn s) then [SessionResized w h] else [])"

definition on_window_change :: "reader \<Rightarrow> ssh_handler" where
  "on_window_change r =
     reading (readUInt32 r) (\<lambda>w r1.
       after (on_state (\<lambda>c. c\<lparr>sc_termWidth := w\<rparr>))
         (reading (readUInt32 r1) (\<lambda>h r2.
           after (on_state (\<lambda>c. c\<lparr>sc_termHeight := h\<rparr>)) (finish (resize_session w h)))))"

definition on_channel_request :: "ssh_env \<Rightarrow> reader \<Rightarrow> ssh_handler" where
  "on_channel_request E r =
     for_user (reading (readUInt32 r) (\<lambda>chan r1. reading (readString Utf8 r1) (\<lambda>reqType r2. reading (readBoolean r2)
       (\<lambda>wantReply r3.
         if reqType = ''pty-req'' then on_pty E wantReply r3
         else if reqType = ''window-change'' then on_window_change r3
         else if reqType = ''shell'' then after (confirm E wantReply) (startSshTuiSession E)
         else finish (\<lambda>s. (s, []))))))"

definition channel_input :: "byte list \<Rightarrow> ssh_act" where
  "channel_input data s = (s, if sc_session (ss_conn s) \<and> \<not> sc_destroyed (ss_conn s) then [ChannelInput data] else [])"

definition on_channel_data :: "reader \<Rightarrow> ssh_handler" where
  "on_channel_data r =
     for_user (reading (readUInt32 r) (\<lambda>chan r1. reading (readBuffer r1) (\<lambda>data r2. finish (channel_input data))))"

definition on_window_adjust :: "reader \<Rightarrow> ssh_handler" where
  "on_window_adjust r =
     reading (readUInt32 r) (\<lambda>chan r1. reading (readUInt32 r1) (\<lambda>n r2.
       finish (on_state (\<lambda>c. c\<lparr>sc_channelRemoteWindow := sc_channelRemoteWindow c + n\<rparr>))))"

definition on_channel_close :: "ssh_env \<Rightarrow> ssh_handler" where
  "on_channel_close E =
     finish (ssh_seq [cleanup,
       (\<lambda>s. if sc_destroyed (ss_conn s) then (s, [])
            else ssh_seq [sendFields E [FByte 97, FUInt32 (remote_id (ss_conn s))], endSocket] s)])"

definition handle_type :: "ssh_env \<Rightarrow> byte list \<Rightarrow> nat \<Rightarrow> reader \<Rightarrow> ssh_handler" where
  "handle_type E payload t r =
     (if t = 1 then finish endSocket
      else if t = 20 then on_kexinit E payload r
      else if t = 30 then finish (handleKexInitMessage E r)
      else if t = 21 then finish (on_state (\<lambda>c. c\<lparr>sc_isEncryptedIn := True\<rparr>))
      else if t = 5 then on_service E r
      else if t = 50 then on_userauth E r
      else if t = 90 then on_channel_open E r
      else if t = 98 then on_channel_request E r
      else if t = 94 then on_channel_data r
      else if t = 93 then on_window_adjust r
      else if t = 96 \<or> t = 97 then on_channel_close E
      else finish (\<lambda>s. (s, [])))"

definition handlePacket :: "ssh_env \<Rightarrow> byte list \<Rightarrow> ssh_handler" where
  "handlePacket E payload = reading (readByte (new_reader payload)) (\<lambda>b r. handle_type E payload (unat b) r)"

section \<open>Taking packets off the buffer\<close>

definition MAX_PACKET :: nat where
  "MAX_PACKET = 65536"

datatype fetched = Waiting | Invalid | NoCipher | Packet "byte list"

definition fetch_plain :: "byte list \<Rightarrow> ssh_conn \<Rightarrow> fetched \<times> byte list \<times> ssh_conn" where
  "fetch_plain buf c =
     (if length buf < 5 then (if length buf > 1024 then Invalid else Waiting, buf, c)
      else
        let packetLength = uint32_at buf; paddingLength = unat (buf ! 4)
        in if packetLength > MAX_PACKET \<or> packetLength < 4 \<or> paddingLength \<ge> packetLength then (Invalid, buf, c)
           else if length buf < 4 + packetLength then (Waiting, buf, c)
           else (Packet (take (packetLength - paddingLength - 1) (drop 5 buf)), drop (4 + packetLength) buf,
                 c\<lparr>sc_inSeq := sc_inSeq c + 1\<rparr>))"

text \<open>
  The length is decrypted as soon as its four bytes are there, and kept until the packet is complete; 0 stands for none
  (the code's test is for a falsy value).
\<close>

definition fetch_head :: "kex_crypto \<Rightarrow> byte list \<Rightarrow> ssh_conn \<Rightarrow> (nat \<times> byte list \<times> ssh_conn) option" where
  "fetch_head K buf c =
     (if sc_currentPacketLen c \<noteq> 0 then Some (sc_currentPacketLen c, buf, c)
      else case sc_decryptCipher c of
        None \<Rightarrow> None
      | Some cipher \<Rightarrow>
          (let (decHead, cipher') = cipher_update K cipher (take 4 buf)
           in Some (uint32_at decHead, drop 4 buf,
                c\<lparr>sc_decryptCipher := Some cipher', sc_currentPacketLen := uint32_at decHead, sc_decryptedHead := decHead\<rparr>)))"

definition fetch_body :: "kex_crypto \<Rightarrow> nat \<Rightarrow> byte list \<Rightarrow> ssh_conn \<Rightarrow> fetched \<times> byte list \<times> ssh_conn" where
  "fetch_body K n buf c =
     (case sc_decryptCipher c of
        None \<Rightarrow> (NoCipher, buf, c)
      | Some cipher \<Rightarrow>
          (let (decBody, cipher') = cipher_update K cipher (take n buf);
               mac = take 32 (drop n buf);
               full = sc_decryptedHead c @ decBody;
               rest = drop (n + 32) buf;
               c1 = c\<lparr>sc_decryptCipher := Some cipher'\<rparr>
           in if mac \<noteq> mac_of K (sc_inHmacKey c) (sc_inSeq c) full then (Invalid, rest, c1)
              else
                let c2 = c1\<lparr>sc_inSeq := sc_inSeq c + 1\<rparr>; paddingLength = unat (full ! 4)
                in if paddingLength \<ge> n \<or> paddingLength < 4 then (Invalid, rest, c2)
                   else (Packet (take (n - paddingLength - 1) (drop 5 full)), rest,
                         c2\<lparr>sc_currentPacketLen := 0, sc_decryptedHead := []\<rparr>)))"

definition fetch_encrypted :: "kex_crypto \<Rightarrow> byte list \<Rightarrow> ssh_conn \<Rightarrow> fetched \<times> byte list \<times> ssh_conn" where
  "fetch_encrypted K buf c =
     (if length buf < 4 then (Waiting, buf, c)
      else case fetch_head K buf c of
        None \<Rightarrow> (NoCipher, buf, c)
      | Some (n, buf1, c1) \<Rightarrow>
          if sc_currentPacketLen c = 0 \<and> (n > MAX_PACKET \<or> n < 4) then (Invalid, buf1, c1)
          else if length buf1 < n + 32 then (Waiting, buf1, c1)
          else fetch_body K n buf1 c1)"

definition fetch :: "kex_crypto \<Rightarrow> byte list \<Rightarrow> ssh_conn \<Rightarrow> fetched \<times> byte list \<times> ssh_conn" where
  "fetch K buf c =
     (if buf = [] then (Waiting, buf, c)
      else if sc_isEncryptedIn c then fetch_encrypted K buf c else fetch_plain buf c)"

lemma fetch_shorter: "fetch K buf c = (Packet p, buf', c') \<Longrightarrow> length buf' < length buf"
  by (auto simp: fetch_def fetch_plain_def fetch_encrypted_def fetch_head_def fetch_body_def Let_def split_beta
      split: if_splits option.splits prod.splits)

function packets :: "ssh_env \<Rightarrow> byte list \<Rightarrow> ssh_state \<Rightarrow> byte list \<times> ssh_state \<times> conn_effect list" where
  "packets E buf s =
     (case fetch (se_kex E) buf (ss_conn s) of
        (Waiting, buf1, c1) \<Rightarrow> (buf1, s\<lparr>ss_conn := c1\<rparr>, [])
      | (NoCipher, buf1, c1) \<Rightarrow> (buf1, s\<lparr>ss_conn := c1\<rparr>, [])
      | (Invalid, buf1, c1) \<Rightarrow> (let (s2, e2) = destroySocket True (s\<lparr>ss_conn := c1\<rparr>) in (buf1, s2, e2))
      | (Packet payload, buf1, c1) \<Rightarrow>
          (let ((s2, e2), outcome) = handlePacket E payload (s\<lparr>ss_conn := c1\<rparr>)
           in if outcome = Raised then (buf1, s2, e2)
              else let (buf3, s3, e3) = packets E buf1 s2 in (buf3, s3, e2 @ e3)))"
  by pat_completeness auto
termination
  by (relation "measure (\<lambda>(E, buf, s). length buf)") (auto dest: fetch_shorter [OF sym])

declare packets.simps [simp del]

definition processIncoming :: "ssh_env \<Rightarrow> byte list \<Rightarrow> ssh_state \<Rightarrow> byte list \<times> ssh_state \<times> conn_effect list" where
  "processIncoming E buf s =
     (if sc_state (ss_conn s) = IDENT
      then (if 0x0A \<notin> set buf
            then (if length buf > 256 then (let (s1, e1) = destroySocket True s in (buf, s1, e1)) else (buf, s, []))
            else
              let line = takeWhile (\<lambda>b. b \<noteq> 0x0A) buf @ [0x0A]; rest = drop (length line) buf;
                  (s1, e1) = ssh_seq [on_state (\<lambda>c. c\<lparr>sc_clientVersion := js_trim (from_utf8 line), sc_state := KEX\<rparr>),
                                      sendKexInit E] s;
                  (buf2, s2, e2) = packets E rest s1
              in (buf2, s2, e1 @ e2))
      else packets E buf s)"

definition ssh_data :: "ssh_env \<Rightarrow> byte list \<Rightarrow> byte list \<times> ssh_state \<Rightarrow> (byte list \<times> ssh_state) \<times> conn_effect list" where
  "ssh_data E chunk = (\<lambda>(buf, s). let (buf', s', es) = processIncoming E (buf @ chunk) s in ((buf', s'), es))"

text \<open>What happens to a connection: a chunk arrives, the session writes or ends, the timer fires, the socket closes.\<close>

datatype ssh_event = Data "byte list" | Output "byte list" | EndSession "byte list" | EndTimer | SocketClosed

fun ssh_step :: "ssh_env \<Rightarrow> ssh_event \<Rightarrow> byte list \<times> ssh_state \<Rightarrow> (byte list \<times> ssh_state) \<times> conn_effect list" where
  "ssh_step E (Data chunk) bs = ssh_data E chunk bs"
| "ssh_step E (Output data) (buf, s) = (let (s', es) = virtual_write E data s in ((buf, s'), es))"
| "ssh_step E (EndSession data) (buf, s) = (let (s', es) = virtual_end E data s in ((buf, s'), es))"
| "ssh_step E EndTimer (buf, s) = (let (s', es) = end_timer s in ((buf, s'), es))"
| "ssh_step E SocketClosed (buf, s) = (let (s', es) = cleanup s in ((buf, s'), es))"

fun ssh_run :: "(ssh_env \<times> ssh_event) list \<Rightarrow> byte list \<times> ssh_state \<Rightarrow> (byte list \<times> ssh_state) \<times> conn_effect list" where
  "ssh_run [] bs = (bs, [])"
| "ssh_run ((E, ev) # evs) bs =
     (let (bs1, e1) = ssh_step E ev bs; (bs2, e2) = ssh_run evs bs1 in (bs2, e1 @ e2))"

section \<open>Nothing before the key exchange, nothing before the login\<close>

text \<open>The part of the state that decides what a client may do, and the effects that reach no session.\<close>

definition guards :: "ssh_state \<Rightarrow> _" where
  "guards s = (ac_authenticatedUser (sc_auth (ss_conn s)), sc_session (ss_conn s), sc_isEncryptedIn (ss_conn s),
     sc_sessionIdentifier (ss_conn s), sc_decryptCipher (ss_conn s))"

definition stored :: "ssh_state \<Rightarrow> _" where
  "stored s = (ss_db s, ss_attempts s)"

fun harmless :: "conn_effect \<Rightarrow> bool" where
  "harmless (Written bs) = True"
| "harmless (SocketDestroyed r) = True"
| "harmless SocketEnded = True"
| "harmless _ = False"

definition quiet :: "ssh_act \<Rightarrow> bool" where
  "quiet f = (\<forall>s. guards (fst (f s)) = guards s \<and> stored (fst (f s)) = stored s \<and> list_all harmless (snd (f s)))"

definition keeps :: "ssh_handler \<Rightarrow> bool" where
  "keeps h = (\<forall>s. guards (fst (fst (h s))) = guards s)"

named_theorems quiet_intros

lemma quietI: "(\<And>s. guards (fst (f s)) = guards s \<and> stored (fst (f s)) = stored s \<and> list_all harmless (snd (f s))) \<Longrightarrow> quiet f"
  by (simp add: quiet_def)

lemma quietD: "quiet f \<Longrightarrow> guards (fst (f s)) = guards s" "quiet f \<Longrightarrow> stored (fst (f s)) = stored s"
  "quiet f \<Longrightarrow> list_all harmless (snd (f s))"
  by (simp_all add: quiet_def)

lemma quiet_nothing [quiet_intros]: "quiet (\<lambda>s. (s, []))"
  by (simp add: quiet_def)

lemma quiet_seq [quiet_intros]: "list_all quiet fs \<Longrightarrow> quiet (ssh_seq fs)"
proof (induction fs)
  case (Cons f fs)
  then have "quiet f" "quiet (ssh_seq fs)" by simp_all
  then show ?case by (intro quietI) (simp add: split_beta Let_def quietD)
qed (simp add: quiet_def)

lemma quiet_on_state [quiet_intros]:
  "(\<And>c. ac_authenticatedUser (sc_auth (f c)) = ac_authenticatedUser (sc_auth c) \<and> sc_session (f c) = sc_session c \<and>
      sc_isEncryptedIn (f c) = sc_isEncryptedIn c \<and> sc_sessionIdentifier (f c) = sc_sessionIdentifier c \<and>
      sc_decryptCipher (f c) = sc_decryptCipher c) \<Longrightarrow> quiet (on_state f)"
  by (simp add: quiet_def on_state_def guards_def stored_def)

lemma quiet_send [quiet_intros]: "quiet (sendPacket E p)" "quiet (sendFields E fs)"
proof -
  show "quiet (sendPacket E p)" for p
    by (rule quietI) (auto simp: sendPacket_def guards_def stored_def Let_def split_beta split: bool.splits option.splits)
  then show "quiet (sendFields E fs)" by (simp add: sendFields_def)
qed

lemma quiet_socket [quiet_intros]: "quiet (destroySocket b)" "quiet endSocket"
  by (simp_all add: quiet_def destroySocket_def endSocket_def guards_def stored_def)

lemma quiet_if [quiet_intros]: "quiet f \<Longrightarrow> quiet g \<Longrightarrow> quiet (if b then f else g)"
  by simp

lemma quiet_perform [quiet_intros]: "quiet (perform E es)"
proof (induction es)
  case (Cons e es)
  have "quiet (ssh_seq [f, perform E es])" if "quiet f" for f using that Cons by (intro quiet_intros) simp
  then show ?case using Cons by (cases e) (auto intro!: quietI simp: quietD quiet_send quiet_socket simp del: ssh_seq.simps)
qed (simp add: quiet_def)

definition same_guards :: "ssh_act \<Rightarrow> bool" where
  "same_guards f = (\<forall>s. guards (fst (f s)) = guards s)"

lemma same_quiet: "quiet f \<Longrightarrow> same_guards f"
  by (simp add: same_guards_def quietD)

lemma same_parts: "same_guards (resize_session w h)" "same_guards (channel_input data)" "same_guards (confirm E b)"
  "same_guards (open_channel E t n)"
  using quiet_send by (auto simp: same_guards_def resize_session_def channel_input_def confirm_def open_channel_def
      sendChannelSuccess_def quietD)

lemma keeps_finish: "same_guards f \<Longrightarrow> keeps (finish f)"
  by (simp add: keeps_def finish_def same_guards_def)

lemma keeps_reading: "(\<And>v r. keeps (g v r)) \<Longrightarrow> keeps (reading x g)"
  by (auto simp: keeps_def reading_def stop_raised_def split: prod.splits result.splits)

lemma keeps_after: "quiet f \<Longrightarrow> keeps h \<Longrightarrow> keeps (after f h)"
  by (simp add: keeps_def after_def split_beta Let_def quietD)

lemma quiet_sizes [quiet_intros]:
  "quiet (on_state (\<lambda>c. c\<lparr>sc_termWidth := n\<rparr>))" "quiet (on_state (\<lambda>c. c\<lparr>sc_termHeight := n\<rparr>))"
  "quiet (on_state (\<lambda>c. c\<lparr>sc_channelRemoteWindow := n\<rparr>))" "quiet (on_state (\<lambda>c. c\<lparr>sc_channelRemoteMaxPacket := n\<rparr>))"
  "quiet (on_state (\<lambda>c. c\<lparr>sc_channelRemoteId := i\<rparr>))" "quiet (on_state (\<lambda>c. c\<lparr>sc_clientKexPayload := p\<rparr>))"
  "quiet (on_state (\<lambda>c. c\<lparr>sc_channelRemoteWindow := sc_channelRemoteWindow c + n\<rparr>))"
  "quiet (on_state (\<lambda>c. c\<lparr>sc_postQuantum := b\<rparr>))" "quiet (on_state (\<lambda>c. c\<lparr>sc_serverKexPayload := p\<rparr>))"
  by (rule quiet_on_state, simp)+

lemma keeps_user: "keeps h \<Longrightarrow> keeps (for_user h)"
  by (simp add: keeps_def for_user_def finish_def quietD quiet_socket)

lemmas keeps_intros = keeps_user keeps_reading keeps_after keeps_finish quiet_sizes same_parts same_quiet

lemma keeps_open: "keeps (on_channel_open E r)"
  unfolding on_channel_open_def by (intro keeps_intros)

lemma keeps_request_parts: "keeps (on_pty E b r)" "keeps (on_window_change r)" "keeps (on_window_adjust r)"
  unfolding on_pty_def on_window_change_def on_window_adjust_def by (intro keeps_intros)+

lemma keeps_data: "keeps (on_channel_data r)"
  unfolding on_channel_data_def by (intro keeps_intros)

text \<open>
  A connection is secure when its user, if any, came over an encrypted connection whose key exchange is done, a session
  belongs to a user, and the cipher of the input came from a key exchange.
\<close>

definition secure :: "ssh_state \<Rightarrow> bool" where
  "secure s =
     (let c = ss_conn s
      in (ac_authenticatedUser (sc_auth c) \<noteq> None \<longrightarrow> sc_isEncryptedIn c \<and> sc_sessionIdentifier c \<noteq> None) \<and>
         (sc_session c \<longrightarrow> ac_authenticatedUser (sc_auth c) \<noteq> None) \<and>
         (sc_decryptCipher c \<noteq> None \<longrightarrow> sc_sessionIdentifier c \<noteq> None))"

definition exchanged :: "ssh_state \<Rightarrow> bool" where
  "exchanged s = (sc_sessionIdentifier (ss_conn s) \<noteq> None)"

text \<open>What holds of a step: it keeps a connection secure and exchanged, and before the exchange it changes nothing stored.\<close>

definition sound_step :: "ssh_state \<Rightarrow> ssh_state \<Rightarrow> conn_effect list \<Rightarrow> bool" where
  "sound_step s t es =
     (secure t \<and> (exchanged s \<longrightarrow> exchanged t) \<and> (\<not> exchanged s \<longrightarrow> stored t = stored s \<and> list_all harmless es))"

lemma guards_parts:
  assumes "guards t = guards s"
  shows "secure t = secure s" "exchanged t = exchanged s"
  using assms by (simp_all add: guards_def secure_def exchanged_def Let_def)

lemma secure_user: "secure s \<Longrightarrow> logged_in s \<Longrightarrow> exchanged s"
  by (auto simp: secure_def logged_in_def exchanged_def Let_def)

lemma sound_quiet: "quiet f \<Longrightarrow> secure s \<Longrightarrow> sound_step s (fst (f s)) (snd (f s))"
  using guards_parts [OF quietD(1) [of f s]] by (simp add: sound_step_def quietD)

lemma sound_keeps: "keeps h \<Longrightarrow> secure s \<Longrightarrow> exchanged s \<Longrightarrow> sound_step s (fst (fst (h s))) (snd (fst (h s)))"
  using guards_parts [of "fst (fst (h s))" s] by (simp add: sound_step_def keeps_def)

definition sound :: "ssh_handler \<Rightarrow> bool" where
  "sound h = (\<forall>s. secure s \<longrightarrow> (sc_isEncryptedIn (ss_conn s) \<longrightarrow> exchanged s) \<longrightarrow>
     sound_step s (fst (fst (h s))) (snd (fst (h s))))"

lemma sound_finish: "quiet f \<Longrightarrow> sound (finish f)"
  by (simp add: sound_def finish_def sound_quiet)

lemma sound_for_user:
  assumes "\<And>s. secure s \<Longrightarrow> exchanged s \<Longrightarrow> logged_in s \<Longrightarrow> sound_step s (fst (fst (h s))) (snd (fst (h s)))"
  shows "sound (for_user h)"
  using assms secure_user sound_quiet [OF quiet_socket(1)] by (auto simp: sound_def for_user_def finish_def)

lemma sound_user_keeps: "keeps (for_user h) \<Longrightarrow> sound (for_user h)"
proof (rule sound_for_user)
  fix s
  assume "keeps (for_user h)" "secure s" "exchanged s" "logged_in s"
  then show "sound_step s (fst (fst (h s))) (snd (fst (h s)))" using sound_keeps [of "for_user h" s] by (simp add: for_user_def)
qed

lemma sound_reading: "(\<And>v r. sound (g v r)) \<Longrightarrow> sound (reading x g)"
  by (auto simp: sound_def reading_def stop_raised_def sound_step_def split: prod.splits result.splits)

lemma sound_after:
  assumes "quiet f" "sound h"
  shows "sound (after f h)"
  unfolding sound_def
proof (intro allI impI)
  fix s
  assume s: "secure s" "sc_isEncryptedIn (ss_conn s) \<longrightarrow> exchanged s"
  obtain s1 e1 where f: "f s = (s1, e1)" by fastforce
  obtain s2 e2 d where h: "h s1 = ((s2, e2), d)" by (metis prod.exhaust)
  have q: "guards s1 = guards s" "stored s1 = stored s" "list_all harmless e1" using quietD [OF assms(1), of s] f by simp_all
  then have "sc_isEncryptedIn (ss_conn s1) = sc_isEncryptedIn (ss_conn s)" by (simp add: guards_def)
  then have "sound_step s1 s2 e2" using assms(2) s h guards_parts [OF q(1)] by (force simp: sound_def)
  then show "sound_step s (fst (fst (after f h s))) (snd (fst (after f h s)))"
    using q guards_parts [OF q(1)] by (simp add: after_def f h sound_step_def)
qed

lemmas sound_intros = sound_reading sound_after sound_finish quiet_sizes quiet_intros

lemma sound_service: "sound (on_service E r)"
  unfolding on_service_def by (intro sound_reading sound_finish quiet_if quiet_send quiet_nothing)

lemma sound_kexinit: "sound (on_kexinit E payload r)"
  unfolding on_kexinit_def by (intro sound_after sound_reading sound_finish quiet_sizes)

lemma sound_newkeys: "sound (finish (on_state (\<lambda>c. c\<lparr>sc_isEncryptedIn := True\<rparr>)))"
  by (auto simp: sound_def finish_def on_state_def sound_step_def secure_def exchanged_def stored_def Let_def)

lemma sound_userauth: "sound (on_userauth E r)"
proof -
  have auth: "sound_step s (fst (authenticate E r s)) (snd (authenticate E r s))"
    if s: "secure s" "sc_isEncryptedIn (ss_conn s)" "exchanged s" for s
  proof -
    obtain a fx where a: "handleUserAuth (se_auth E) (se_vaultIv E) (se_now E) (se_ip E) r
        \<lparr>au_attempts = ss_attempts s, au_db = ss_db s, au_conn = sc_auth (ss_conn s)\<rparr> = (a, fx)" by fastforce
    let ?t = "s\<lparr>ss_attempts := au_attempts a, ss_db := au_db a, ss_conn := (ss_conn s)\<lparr>sc_auth := au_conn a\<rparr>\<rparr>"
    have user: "ac_authenticatedUser (au_conn a) \<noteq> None" if "ac_authenticatedUser (sc_auth (ss_conn s)) \<noteq> None"
      using that user_stays [of "\<lparr>au_attempts = ss_attempts s, au_db = ss_db s, au_conn = sc_auth (ss_conn s)\<rparr>"
        "se_auth E" "se_vaultIv E" "se_now E" "se_ip E" r] a by simp
    have "secure ?t" using s user by (auto simp: secure_def exchanged_def Let_def)
    moreover have "exchanged ?t" using s by (simp add: exchanged_def)
    ultimately show ?thesis
      using sound_quiet [OF quiet_perform, of ?t E fx] s(3) by (simp add: authenticate_def a sound_step_def)
  qed
  then show ?thesis using sound_quiet [OF quiet_socket(1)] by (auto simp: sound_def on_userauth_def finish_def)
qed

lemma sound_cleanup: "sound (finish cleanup)"
  unfolding sound_def finish_def
proof (intro allI impI)
  fix s
  assume "secure s"
  then show "sound_step s (fst (fst ((cleanup s, Finished)))) (snd (fst ((cleanup s, Finished))))"
    by (auto simp: cleanup_def sound_step_def secure_def exchanged_def stored_def Let_def split: option.splits bool.splits)
qed

lemma sound_seq:
  assumes "sound (finish f)" "quiet g"
  shows "sound (finish (ssh_seq [f, g]))"
  unfolding sound_def
proof (intro allI impI)
  fix s
  assume s: "secure s" "sc_isEncryptedIn (ss_conn s) \<longrightarrow> exchanged s"
  obtain s1 e1 where f: "f s = (s1, e1)" by fastforce
  have "sound_step s s1 e1" using assms(1) s by (force simp: sound_def finish_def f)
  then show "sound_step s (fst (fst (finish (ssh_seq [f, g]) s))) (snd (fst (finish (ssh_seq [f, g]) s)))"
    using quietD [OF assms(2), of s1] guards_parts [OF quietD(1) [OF assms(2)], of s1]
    by (simp add: finish_def f sound_step_def split_beta Let_def)
qed

lemma sound_close: "sound (on_channel_close E)"
  unfolding on_channel_close_def
proof (rule sound_seq [OF sound_cleanup])
  show "quiet (\<lambda>s. if sc_destroyed (ss_conn s) then (s, [])
      else ssh_seq [sendFields E [FByte 97, FUInt32 (remote_id (ss_conn s))], endSocket] s)"
    using quietD [OF quiet_seq [of "[sendFields E _, endSocket]"]] quiet_send quiet_socket
    by (intro quietI) (simp del: ssh_seq.simps)
qed

lemma sound_shell: "sound (for_user (after (confirm E b) (startSshTuiSession E)))"
proof (rule sound_for_user)
  fix s
  assume s: "secure s" "exchanged s" "logged_in s"
  have q: "quiet (confirm E b)" using quiet_send by (auto simp: confirm_def sendChannelSuccess_def quiet_def)
  obtain s1 e1 where f: "confirm E b s = (s1, e1)" by fastforce
  have g: "guards s1 = guards s" using quietD(1) [OF q, of s] f by simp
  then have s1: "secure s1" "exchanged s1" "logged_in s1" using s guards_parts [OF g] by (simp_all add: guards_def logged_in_def)
  have w: "guards (fst (virtual_write E d t)) = guards t" for d t using quietD(1) [OF quiet_send(2)] by (simp add: virtual_write_def)
  have start: "guards (fst (fst (startSshTuiSession E s1))) =
      guards (s1\<lparr>ss_conn := (ss_conn s1)\<lparr>sc_session := True\<rparr>\<rparr>)"
    by (auto simp: startSshTuiSession_def finish_def stop_raised_def split_beta Let_def w split: option.splits)
       (simp_all add: guards_def)
  have "secure (s1\<lparr>ss_conn := (ss_conn s1)\<lparr>sc_session := True\<rparr>\<rparr>)" "exchanged (s1\<lparr>ss_conn := (ss_conn s1)\<lparr>sc_session := True\<rparr>\<rparr>)"
    using s1 by (simp_all add: secure_def exchanged_def logged_in_def Let_def)
  then have "secure (fst (fst (startSshTuiSession E s1)))" "exchanged (fst (fst (startSshTuiSession E s1)))"
    using guards_parts [OF start] by simp_all
  then show "sound_step s (fst (fst (after (confirm E b) (startSshTuiSession E) s)))
      (snd (fst (after (confirm E b) (startSshTuiSession E) s)))"
    using s(2) by (simp add: after_def f split_beta Let_def sound_step_def)
qed

lemma sound_user_reading: "(\<And>v r. sound (for_user (g v r))) \<Longrightarrow> sound (for_user (reading x g))"
proof (rule sound_for_user)
  fix s
  assume g: "\<And>v r. sound (for_user (g v r))" and s: "secure s" "exchanged s" "logged_in s"
  have "sound_step s (fst (fst (g v r s))) (snd (fst (g v r s)))" for v r
    using g [of v r] s by (auto simp: sound_def for_user_def)
  then show "sound_step s (fst (fst (reading x g s))) (snd (fst (reading x g s)))"
    using s by (auto simp: reading_def stop_raised_def sound_step_def split: prod.splits result.splits)
qed

lemma sound_request: "sound (on_channel_request E r)"
proof -
  have "sound (for_user (if t = ''pty-req'' then on_pty E b r3
         else if t = ''window-change'' then on_window_change r3
         else if t = ''shell'' then after (confirm E b) (startSshTuiSession E)
         else finish (\<lambda>s. (s, []))))" for t b r3
    using sound_user_keeps [OF keeps_user] keeps_request_parts sound_shell keeps_finish [OF same_quiet [OF quiet_nothing]]
    by simp
  then show ?thesis unfolding on_channel_request_def by (intro sound_user_reading)
qed

lemma sound_kex: "sound (finish (handleKexInitMessage E r))"
  unfolding sound_def
proof (intro allI impI)
  fix s
  assume s: "secure s"
  have other: "sound_step s (fst (destroySocket True (s\<lparr>ss_conn := (ss_conn s)\<lparr>sc_sharedSecret := k\<rparr>\<rparr>)))
      (snd (destroySocket True (s\<lparr>ss_conn := (ss_conn s)\<lparr>sc_sharedSecret := k\<rparr>\<rparr>)))" for k
    using s by (simp add: destroySocket_def sound_step_def secure_def exchanged_def stored_def Let_def)
  have made: "sound_step s (fst (ssh_seq [on_state (\<lambda>c. (ss_conn s)\<lparr>sc_sharedSecret := k, sc_exchangeHash := h, sc_sessionIdentifier := Some i\<rparr>),
        sendFields E fs, sendFields E gs,
        on_state (\<lambda>c. (prepareKeys K secret hash sid c)\<lparr>sc_isEncryptedOut := True\<rparr>)] s))
      (snd (ssh_seq [on_state (\<lambda>c. (ss_conn s)\<lparr>sc_sharedSecret := k, sc_exchangeHash := h, sc_sessionIdentifier := Some i\<rparr>),
        sendFields E fs, sendFields E gs,
        on_state (\<lambda>c. (prepareKeys K secret hash sid c)\<lparr>sc_isEncryptedOut := True\<rparr>)] s))" for k h i fs gs K secret hash sid
  proof -
    let ?s1 = "s\<lparr>ss_conn := (ss_conn s)\<lparr>sc_sharedSecret := k, sc_exchangeHash := h, sc_sessionIdentifier := Some i\<rparr>\<rparr>"
    let ?s2 = "fst (sendFields E fs ?s1)" and ?s3 = "fst (sendFields E gs (fst (sendFields E fs ?s1)))"
    have g: "guards ?s3 = guards ?s1" "stored ?s3 = stored ?s1" using quietD [OF quiet_send(2)] by metis+
    have e: "list_all harmless (snd (sendFields E fs ?s1))" "list_all harmless (snd (sendFields E gs ?s2))"
      using quietD(3) [OF quiet_send(2)] by blast+
    have "secure (?s3\<lparr>ss_conn := (prepareKeys K secret hash sid (ss_conn ?s3))\<lparr>sc_isEncryptedOut := True\<rparr>\<rparr>)"
      using s g(1) by (auto simp: secure_def guards_def prepareKeys_def Let_def)
    moreover have "exchanged (?s3\<lparr>ss_conn := (prepareKeys K secret hash sid (ss_conn ?s3))\<lparr>sc_isEncryptedOut := True\<rparr>\<rparr>)"
      using g(1) by (simp add: exchanged_def guards_def prepareKeys_def Let_def)
    moreover have "stored (?s3\<lparr>ss_conn := c\<rparr>) = stored s" for c using g(2) by (simp add: stored_def)
    ultimately show ?thesis using e by (simp add: on_state_def split_beta Let_def sound_step_def)
  qed
  have here: "sound_step s (fst (destroySocket True s)) (snd (destroySocket True s))"
    using sound_quiet [OF quiet_socket(1) s] .
  show "sound_step s (fst (fst (finish (handleKexInitMessage E r) s))) (snd (fst (finish (handleKexInitMessage E r) s)))"
    unfolding finish_def handleKexInitMessage_def
    using here other made
    by (auto simp del: ssh_seq.simps simp: Let_def split: prod.splits result.splits option.splits)
qed

lemma sound_handle: "sound (handlePacket E payload)"
proof -
  have ends: "sound (finish endSocket)" "sound (finish (\<lambda>s. (s, [])))" by (intro sound_finish quiet_intros)+
  have adjust: "sound (on_window_adjust r)" for r
    unfolding on_window_adjust_def by (intro sound_reading sound_finish quiet_sizes)
  have opened: "sound (on_channel_open E r)" for r
    using sound_user_keeps keeps_open unfolding on_channel_open_def by blast
  have data: "sound (on_channel_data r)" for r
    using sound_user_keeps keeps_data unfolding on_channel_data_def by blast
  have "sound (handle_type E payload t r)" for t r
    unfolding handle_type_def
    by (simp add: ends adjust opened data sound_kexinit sound_kex sound_newkeys sound_service sound_userauth sound_request
        sound_close)
  then show ?thesis unfolding handlePacket_def by (intro sound_reading)
qed

text \<open>Fetching leaves the guards alone, and under encryption gets a packet only with a cipher.\<close>

lemma fetch_guards:
  assumes "fetch K buf c = (x, buf', c')"
  shows "sc_auth c' = sc_auth c" "sc_session c' = sc_session c" "sc_isEncryptedIn c' = sc_isEncryptedIn c"
    "sc_sessionIdentifier c' = sc_sessionIdentifier c" "(sc_decryptCipher c' = None) = (sc_decryptCipher c = None)"
    "x = Packet p \<Longrightarrow> sc_isEncryptedIn c \<Longrightarrow> sc_decryptCipher c \<noteq> None"
  using assms
  by (auto simp: fetch_def fetch_plain_def fetch_encrypted_def fetch_head_def fetch_body_def Let_def split_beta
      split: if_splits option.splits prod.splits)

text \<open>Over several steps: as long as no key has been exchanged, nothing stored has changed.\<close>

definition progress :: "ssh_state \<Rightarrow> ssh_state \<Rightarrow> conn_effect list \<Rightarrow> bool" where
  "progress s t es =
     (secure t \<and> (exchanged s \<longrightarrow> exchanged t) \<and> (\<not> exchanged t \<longrightarrow> stored t = stored s \<and> list_all harmless es))"

lemma sound_progress: "sound_step s t es \<Longrightarrow> progress s t es"
  by (auto simp: sound_step_def progress_def)

lemma progress_chain: "progress s t e1 \<Longrightarrow> progress t u e2 \<Longrightarrow> progress s u (e1 @ e2)"
  by (auto simp: progress_def)

lemma progress_secure: "progress s t es \<Longrightarrow> secure t"
  by (simp add: progress_def)

lemma progress_quiet: "quiet f \<Longrightarrow> secure s \<Longrightarrow> progress s (fst (f s)) (snd (f s))"
  by (rule sound_progress) (rule sound_quiet)

lemma sound_fetched:
  assumes "fetch K buf (ss_conn s) = (x, buf', c')" "secure s"
  shows "progress s (s\<lparr>ss_conn := c'\<rparr>) []"
    "x = Packet p \<Longrightarrow> sc_isEncryptedIn c' \<Longrightarrow> exchanged (s\<lparr>ss_conn := c'\<rparr>)"
  using fetch_guards [OF assms(1)] assms(2) by (auto simp: secure_def progress_def exchanged_def stored_def Let_def)

lemma progress_packets:
  "secure s \<Longrightarrow> packets E buf s = (buf', s', es) \<Longrightarrow> progress s s' es"
proof (induction E buf s arbitrary: buf' s' es rule: packets.induct)
  case (1 E buf s)
  obtain x buf1 c1 where f: "fetch (se_kex E) buf (ss_conn s) = (x, buf1, c1)" by (metis prod.exhaust)
  note fetched = sound_fetched [OF f 1(2)]
  let ?s1 = "s\<lparr>ss_conn := c1\<rparr>"
  have s1: "secure ?s1" by (rule progress_secure [OF fetched(1)])
  show ?case
  proof (cases x)
    case Waiting
    with 1(3) f fetched show ?thesis by (simp add: packets.simps [of E buf s])
  next
    case NoCipher
    with 1(3) f fetched show ?thesis by (simp add: packets.simps [of E buf s])
  next
    case Invalid
    have "progress ?s1 (fst (destroySocket True ?s1)) (snd (destroySocket True ?s1))"
      by (rule progress_quiet [OF quiet_socket(1) s1])
    from progress_chain [OF fetched(1) this] Invalid 1(3) f show ?thesis
      by (simp add: packets.simps [of E buf s] split_beta Let_def)
  next
    case (Packet payload)
    obtain s2 e2 outcome where h: "handlePacket E payload ?s1 = ((s2, e2), outcome)" by (metis prod.exhaust)
    have "sound_step ?s1 s2 e2" using sound_handle [of E payload] s1 fetched(2) [OF Packet] h by (force simp: sound_def)
    from progress_chain [OF fetched(1) sound_progress [OF this]] have step: "progress s s2 e2" by simp
    show ?thesis
    proof (cases "outcome = Raised")
      case True
      with 1(3) f Packet h step show ?thesis by (simp add: packets.simps [of E buf s])
    next
      case False
      obtain buf3 s3 e3 where r: "packets E buf1 s2 = (buf3, s3, e3)" by (metis prod.exhaust)
      have "progress s2 s3 e3"
        by (rule 1(1) [OF f [symmetric] Packet refl h [symmetric] refl refl False progress_secure [OF step] r])
      from progress_chain [OF step this] show ?thesis using 1(3) f Packet h False r by (simp add: packets.simps [of E buf s])
    qed
  qed
qed

definition identify :: "ssh_env \<Rightarrow> string \<Rightarrow> ssh_act" where
  "identify E line = ssh_seq [on_state (\<lambda>c. c\<lparr>sc_clientVersion := line, sc_state := KEX\<rparr>), sendKexInit E]"

lemma quiet_identify: "quiet (identify E line)"
proof -
  have "quiet (on_state (\<lambda>c. c\<lparr>sc_clientVersion := line, sc_state := KEX\<rparr>))" by (rule quiet_on_state) simp
  then show ?thesis unfolding identify_def sendKexInit_def Let_def
    by (intro quiet_seq) (simp add: quiet_seq quiet_send quiet_sizes del: ssh_seq.simps)
qed

lemma progress_data:
  assumes "secure s"
  shows "progress s (snd (fst (ssh_data E chunk (buf, s)))) (snd (ssh_data E chunk (buf, s)))"
proof -
  have all: "progress s (fst (snd (packets E b s))) (snd (snd (packets E b s)))" if "secure s" for b s
    using progress_packets [OF that, of E b] by (metis prod.collapse)
  have cut: "progress s (fst (destroySocket True s)) (snd (destroySocket True s))"
    by (rule progress_quiet [OF quiet_socket(1) assms])
  have same: "progress s s []" using assms by (simp add: progress_def)
  have id: "progress s (fst (identify E line s)) (snd (identify E line s))" for line
    by (rule progress_quiet [OF quiet_identify assms])
  have then_all: "progress s (fst (snd (packets E b (fst (identify E line s)))))
      (snd (identify E line s) @ snd (snd (packets E b (fst (identify E line s)))))" for b line
    by (rule progress_chain [OF id all]) (rule progress_secure [OF id])
  show ?thesis
    using all [OF assms] cut same then_all
    by (simp add: ssh_data_def processIncoming_def Let_def split_beta identify_def [symmetric] del: ssh_seq.simps)
qed

lemma quiet_virtual: "quiet (virtual_write E d)" "quiet (virtual_end E d)" "quiet end_timer"
proof -
  show w: "quiet (virtual_write E d)" for d
    using quiet_send(2) by (intro quietI) (simp add: virtual_write_def quietD)
  have t: "quiet (on_state (\<lambda>c. c\<lparr>sc_endTimer := b\<rparr>))" for b by (rule quiet_on_state) simp
  have "quiet (ssh_seq [(if d = [] then (\<lambda>s. (s, [])) else virtual_write E d),
      virtual_write E (utf8 (CHR 0x1B # ''[?2004l'' @ [CHR 0x0D, CHR 0x0A])), on_state (\<lambda>c. c\<lparr>sc_endTimer := True\<rparr>)])"
    using w t by (intro quiet_seq) (simp add: quiet_nothing)
  then show "quiet (virtual_end E d)" by (intro quietI) (simp add: virtual_end_def quietD del: ssh_seq.simps)
  have "quiet (\<lambda>s. if socket_open (ss_conn s) then endSocket s else (s, []))"
    using quiet_socket(2) by (intro quietI) (simp add: quietD)
  then have "quiet (ssh_seq [on_state (\<lambda>c. c\<lparr>sc_endTimer := False\<rparr>),
                    (\<lambda>s. if socket_open (ss_conn s) then endSocket s else (s, []))])"
    using t by (intro quiet_seq) simp
  then show "quiet end_timer" by (intro quietI) (simp add: end_timer_def quietD del: ssh_seq.simps)
qed

lemma progress_step:
  assumes "secure s"
  shows "progress s (snd (fst (ssh_step E ev (buf, s)))) (snd (ssh_step E ev (buf, s)))"
proof (cases ev)
  case (Data chunk)
  then show ?thesis using progress_data [OF assms] by simp
next
  case SocketClosed
  have "progress s (fst (cleanup s)) (snd (cleanup s))"
    using assms by (auto simp: cleanup_def progress_def secure_def exchanged_def stored_def Let_def split: option.splits bool.splits)
  then show ?thesis using SocketClosed by (simp add: split_beta Let_def)
qed (use progress_quiet [OF quiet_virtual(1) assms] progress_quiet [OF quiet_virtual(2) assms]
      progress_quiet [OF quiet_virtual(3) assms] in \<open>simp_all add: split_beta Let_def\<close>)

lemma progress_run: "secure s \<Longrightarrow> progress s (snd (fst (ssh_run evs (buf, s)))) (snd (ssh_run evs (buf, s)))"
proof (induction evs arbitrary: buf s)
  case (Cons p evs)
  obtain E ev where p: "p = (E, ev)" by (cases p)
  obtain buf1 s1 e1 where step: "ssh_step E ev (buf, s) = ((buf1, s1), e1)" by (metis prod.exhaust)
  have first: "progress s s1 e1" using progress_step [OF Cons.prems, of E ev buf] step by simp
  show ?case using progress_chain [OF first Cons.IH [OF progress_secure [OF first], of buf1]]
    by (simp add: p step split_beta Let_def)
qed (simp add: progress_def)

definition fresh_ssh :: "string \<Rightarrow> attempts \<Rightarrow> db \<Rightarrow> ssh_state" where
  "fresh_ssh version A d = \<lparr>ss_conn = new_ssh_conn version, ss_attempts = A, ss_db = d\<rparr>"

text \<open>
  C7. Whatever a client sends, a connection has a user only after a key exchange and over encrypted input, a session
  only with a user; and until keys have been exchanged nothing reaches the database, the counters or a session.
\<close>

theorem ssh_access_in_order:
  assumes "ssh_run evs ([], fresh_ssh version A d) = ((buf, s), es)"
  shows "(sc_session (ss_conn s) \<longrightarrow> logged_in s) \<and>
    (logged_in s \<longrightarrow> sc_isEncryptedIn (ss_conn s) \<and> exchanged s) \<and>
    (\<not> exchanged s \<longrightarrow> ss_db s = d \<and> ss_attempts s = A \<and> list_all harmless es)"
proof -
  have "secure (fresh_ssh version A d)" by (simp add: secure_def fresh_ssh_def new_ssh_conn_def new_auth_conn_def)
  from progress_run [OF this, of evs "[]"] assms have "progress (fresh_ssh version A d) s es" by simp
  then show ?thesis by (auto simp: progress_def secure_def logged_in_def exchanged_def stored_def fresh_ssh_def Let_def)
qed

section \<open>What the server writes, a peer with its keys reads\<close>

lemma length_keystream [simp]: "length (keystream_at K c n) = n"
  by (simp add: keystream_at_def)

lemma keystream_split: "keystream_at K c (m + n) = keystream_at K c m @ keystream_at K (c\<lparr>ci_pos := ci_pos c + m\<rparr>) n"
proof -
  have "[ci_pos c..<ci_pos c + (m + n)] = [ci_pos c..<ci_pos c + m] @ [ci_pos c + m..<ci_pos c + (m + n)]"
    using upt_add_eq_append [of "ci_pos c" "ci_pos c + m" n] by (simp add: add.assoc)
  then show ?thesis by (simp add: keystream_at_def add.assoc)
qed

lemma xor_twice: "length ks = length (bs :: byte list) \<Longrightarrow> map2 (XOR) (map2 (XOR) bs ks) ks = bs"
  by (induction bs ks rule: list_induct2') (simp_all add: xor.assoc)

lemma length_update [simp]: "length (fst (cipher_update K c bs)) = length bs"
  by (simp add: cipher_update_def)

lemma update_inverse: "cipher_update K c (fst (cipher_update K c bs)) = (bs, snd (cipher_update K c bs))"
  by (simp add: cipher_update_def xor_twice)

lemma update_append:
  "cipher_update K c (as @ bs) =
    (fst (cipher_update K c as) @ fst (cipher_update K (snd (cipher_update K c as)) bs),
     snd (cipher_update K (snd (cipher_update K c as)) bs))"
  by (simp add: cipher_update_def keystream_split zip_append1 add.assoc)

lemma padding_bounds: "4 \<le> padding_length n \<and> padding_length n < 20"
proof -
  define r where "r = (4 + 1 + n) mod 16"
  have "r < 16" by (simp add: r_def)
  moreover have "padding_length n = (if 16 - r < 4 then 16 - r + 16 else 16 - r)"
    by (simp add: padding_length_def BLOCK_def r_def Let_def)
  ultimately show ?thesis by auto
qed

text \<open>A packet fills whole blocks.\<close>

lemma packet_blocks: "length (raw_packet payload (random_padding E seq (padding_length (length payload)))) mod BLOCK = 0"
proof -
  define r where "r = (4 + 1 + length payload) mod 16"
  have r: "r < 16" "(5 + length payload) mod 16 = r" by (simp_all add: r_def)
  have "padding_length (length payload) = (if 16 - r < 4 then 16 - r + 16 else 16 - r)"
    by (simp add: padding_length_def BLOCK_def r_def Let_def)
  then have "(r + padding_length (length payload)) mod 16 = 0" using r(1) by auto
  then have "(5 + length payload + padding_length (length payload)) mod 16 = 0" using r(2) by (metis mod_add_left_eq)
  moreover have "length (raw_packet payload (random_padding E seq (padding_length (length payload)))) =
      5 + length payload + padding_length (length payload)"
    by (simp add: raw_packet_def random_padding_def uint32_bytes_def)
  ultimately show ?thesis by (simp only: BLOCK_def)
qed

definition matched :: "ssh_conn \<Rightarrow> ssh_conn \<Rightarrow> bool" where
  "matched t c =
     (sc_isEncryptedIn c = sc_isEncryptedOut t \<and> sc_inSeq c = sc_outSeq t \<and> sc_currentPacketLen c = 0 \<and>
      (sc_isEncryptedOut t \<longrightarrow> sc_encryptCipher t \<noteq> None \<and> sc_decryptCipher c = sc_encryptCipher t \<and>
         sc_inHmacKey c = sc_outHmacKey t))"

text \<open>A packet as a length, a byte for the padding, and the rest.\<close>

lemma raw_parts:
  fixes E :: ssh_env and seq :: "32 word"
  assumes "length payload \<le> 65000"
  defines "pad \<equiv> random_padding E seq (padding_length (length payload))"
  defines "n \<equiv> 1 + length payload + length pad"
  shows "raw_packet payload pad = uint32_bytes n @ of_nat (length pad) # payload @ pad"
    "length pad = padding_length (length payload)" "n < 4294967296" "4 \<le> n" "n \<le> MAX_PACKET"
    "unat (of_nat (length pad) :: byte) = length pad" "length pad < n" "4 \<le> length pad"
proof -
  show l: "length pad = padding_length (length payload)" by (simp add: pad_def random_padding_def)
  note b = padding_bounds [of "length payload"]
  show "raw_packet payload pad = uint32_bytes n @ of_nat (length pad) # payload @ pad" by (simp add: raw_packet_def n_def)
  show "n < 4294967296" "4 \<le> n" "n \<le> MAX_PACKET" "length pad < n" "4 \<le> length pad"
    using assms(1) b l by (simp_all add: n_def MAX_PACKET_def)
  show "unat (of_nat (length pad) :: byte) = length pad" using b l by (simp add: unat_of_nat)
qed

lemma plain_arrives:
  fixes E :: ssh_env and seq :: "32 word"
  assumes "length payload \<le> 65000" "\<not> sc_isEncryptedIn c"
  defines "raw \<equiv> raw_packet payload (random_padding E seq (padding_length (length payload)))"
  shows "fetch K (raw @ rest) c = (Packet payload, rest, c\<lparr>sc_inSeq := sc_inSeq c + 1\<rparr>) \<and>
    (k < length raw \<longrightarrow> fetch K (take k raw) c = (Waiting, take k raw, c))"
proof -
  let ?pad = "random_padding E seq (padding_length (length payload))"
  let ?n = "1 + length payload + length ?pad"
  note p = raw_parts [OF assms(1), of E seq]
  have raw: "raw = uint32_bytes ?n @ of_nat (length ?pad) # payload @ ?pad" using p(1) by (simp add: raw_def)
  have len: "length raw = 4 + ?n" by (simp add: raw)
  have at: "uint32_at (raw @ s) = ?n" for s using uint32_value [OF p(3)] by (simp add: raw)
  have fourth: "(raw @ s) ! 4 = of_nat (length ?pad)" for s by (simp add: raw nth_append)
  have got: "take (?n - length ?pad - 1) (drop 5 (raw @ rest)) = payload" by (simp add: raw)
  have whole: "fetch K (raw @ rest) c = (Packet payload, rest, c\<lparr>sc_inSeq := sc_inSeq c + 1\<rparr>)"
    using assms(2) p len at fourth got by (simp add: fetch_def fetch_plain_def raw [symmetric] Let_def) (simp add: raw)
  have short: "fetch K (take k raw) c = (Waiting, take k raw, c)" if k: "k < length raw"
  proof (cases "k < 5")
    case False
    then have five: "take 5 (take k raw) = take 5 raw" by (simp add: min_def)
    have "uint32_at (take k raw) = ?n"
      using k False uint32_value [OF p(3), of "take (k - 4) (of_nat (length ?pad) # payload @ ?pad)"] by (simp add: raw)
    moreover have "take k raw ! 4 = of_nat (length ?pad)" using False fourth [of "[]"] by simp
    ultimately show ?thesis using assms(2) p k len False by (auto simp: fetch_def fetch_plain_def Let_def)
  qed (use k assms(2) in \<open>auto simp: fetch_def fetch_plain_def\<close>)
  show ?thesis using whole short by blast
qed

lemma encrypted_arrives:
  fixes E :: ssh_env and seq :: "32 word"
  assumes "length payload \<le> 65000" "sc_isEncryptedIn c" "sc_decryptCipher c = Some k" "sc_currentPacketLen c = 0"
    "sc_inSeq c = seq" "sc_inHmacKey c = key" "\<And>m. length (kc_hmac K key m) = 32"
  defines "raw \<equiv> raw_packet payload (random_padding E seq (padding_length (length payload)))"
  defines "bytes \<equiv> fst (cipher_update K k raw) @ mac_of K key seq raw"
  shows "\<exists>c'. fetch K (bytes @ rest) c = (Packet payload, rest, c') \<and> sc_isEncryptedIn c' \<and> sc_currentPacketLen c' = 0 \<and>
      sc_inSeq c' = seq + 1 \<and> sc_inHmacKey c' = key \<and> sc_decryptCipher c' = Some (snd (cipher_update K k raw)) \<and>
      (\<forall>m < length bytes. \<exists>b1 c1. fetch K (take m bytes) c = (Waiting, b1, c1) \<and>
         fetch K (b1 @ drop m bytes @ rest) c1 = (Packet payload, rest, c'))"
proof -
  let ?pad = "random_padding E seq (padding_length (length payload))"
  let ?n = "1 + length payload + length ?pad"
  let ?h = "uint32_bytes ?n" and ?body = "of_nat (length ?pad) # payload @ ?pad"
  note p = raw_parts [OF assms(1), of E seq]
  have raw: "raw = ?h @ ?body" using p(1) by (simp add: raw_def)
  define eh k1 where "eh = fst (cipher_update K k ?h)" and "k1 = snd (cipher_update K k ?h)"
  define eb k2 where "eb = fst (cipher_update K k1 ?body)" and "k2 = snd (cipher_update K k1 ?body)"
  define mac where "mac = mac_of K key seq raw"
  have sealed: "cipher_update K k raw = (eh @ eb, k2)"
    unfolding raw by (subst update_append) (simp add: eh_def eb_def k1_def k2_def)
  have bytes: "bytes = eh @ eb @ mac" by (simp add: bytes_def sealed mac_def)
  have len: "length eh = 4" "length eb = ?n" "length mac = 32"
    using assms(7) by (simp_all add: eh_def eb_def mac_def mac_of_def del: of_nat_add)
  have undo: "cipher_update K k eh = (?h, k1)" "cipher_update K k1 eb = (?body, k2)"
    by (simp_all add: eh_def eb_def k1_def k2_def update_inverse)
  have n: "uint32_at ?h = ?n" using uint32_value [OF p(3), of "[]"] by simp
  define c1 where "c1 = c\<lparr>sc_decryptCipher := Some k1, sc_currentPacketLen := ?n, sc_decryptedHead := ?h\<rparr>"
  define c2 where "c2 = c1\<lparr>sc_decryptCipher := Some k2, sc_inSeq := sc_inSeq c + 1, sc_currentPacketLen := 0, sc_decryptedHead := []\<rparr>"
  have head: "fetch_head K (eh @ s) c = Some (?n, s, c1)" for s
    using assms(3,4) len(1) undo(1) n by (simp add: fetch_head_def c1_def del: of_nat_add)
  have payload: "take (?n - length ?pad - 1) (drop 5 (?h @ ?body)) = payload" by (simp add: uint32_bytes_def)
  have fourth: "unat ((?h @ ?body) ! 4) = length ?pad" using p(6) by (simp add: nth_append)
  have body: "fetch_body K ?n (eb @ mac @ rest) c1 = (Packet payload, rest, c2)"
    using len undo(2) assms(5,6) payload fourth p(7,8)
    by (simp add: fetch_body_def c1_def c2_def Let_def mac_def raw del: append_Cons append.simps uint32_bytes_def)
  have whole: "fetch K (bytes @ rest) c = (Packet payload, rest, c2)"
    using assms(2,4) len p(4,5) head [of "eb @ mac @ rest"] body
    by (simp add: bytes fetch_def fetch_encrypted_def not_less del: of_nat_add) (use len in force)
  have some: "mac \<noteq> []" using len(3) by auto
  have waits: "fetch K (eh @ b) c = (Waiting, b, c1)" if b: "length b < ?n + 32" for b
  proof -
    have "eh \<noteq> []" using len(1) by auto
    then have "fetch K (eh @ b) c = fetch_encrypted K (eh @ b) c" using assms(2) by (simp add: fetch_def)
    also have "... = (Waiting, b, c1)"
      using assms(4) len(1) p(4,5) b by (simp add: fetch_encrypted_def head del: of_nat_add)
    finally show ?thesis .
  qed
  have split: "\<exists>b1 c1'. fetch K (take m bytes) c = (Waiting, b1, c1') \<and>
      fetch K (b1 @ drop m bytes @ rest) c1' = (Packet payload, rest, c2)" if m: "m < length bytes" for m
  proof (cases "m < 4")
    case True
    then have "length (take m bytes) < 4" by simp
    then have "fetch K (take m bytes) c = (Waiting, take m bytes, c)"
      using assms(2) by (simp only: fetch_def fetch_encrypted_def if_True split: if_split) simp
    moreover have "take m bytes @ drop m bytes @ rest = bytes @ rest" by (metis append_assoc append_take_drop_id)
    ultimately show ?thesis using whole by metis
  next
    case False
    have take: "take m bytes = eh @ take (m - 4) (eb @ mac)" using False len(1) by (simp add: bytes)
    have "drop m (eh @ x) = drop (m - 4) x" for x using False len(1) by simp
    then have "drop m bytes = drop (m - 4) (eb @ mac)" unfolding bytes .
    then have "take (m - 4) (eb @ mac) @ drop m bytes = eb @ mac" by (simp only: append_take_drop_id)
    then have drop: "take (m - 4) (eb @ mac) @ drop m bytes @ rest = eb @ mac @ rest" by (metis append_assoc)
    have "length (take (m - 4) (eb @ mac)) < ?n + 32" using m len False by (simp add: bytes)
    then have "fetch K (take m bytes) c = (Waiting, take (m - 4) (eb @ mac), c1)"
      using waits unfolding take by blast
    moreover have "fetch K (eb @ mac @ rest) c1 = (Packet payload, rest, c2)"
      using assms(2) len some p(4) body by (simp add: fetch_def fetch_encrypted_def fetch_head_def c1_def)
    ultimately show ?thesis using drop by metis
  qed
  show ?thesis using whole split assms(2,5,6) by (auto simp: c1_def c2_def sealed)
qed

text \<open>
  C21. A packet that \<open>sendPacket\<close> writes, in clear or encrypted and authenticated, is taken off the stream by the
  reader of a peer with the same keys and counters, whole or cut anywhere, leaves what follows it, and both sides are
  matched again for the next one.
\<close>

theorem ssh_packet_arrives:
  assumes "matched (ss_conn s) c" "socket_open (ss_conn s)" "length payload \<le> 65000"
    "\<And>key m. length (kc_hmac (se_kex E) key m) = 32"
  shows "\<exists>bytes c'. snd (sendPacket E payload s) = [Written bytes] \<and> matched (ss_conn (fst (sendPacket E payload s))) c' \<and>
    fetch (se_kex E) (bytes @ rest) c = (Packet payload, rest, c') \<and>
    (\<forall>m < length bytes. \<exists>b1 c1. fetch (se_kex E) (take m bytes) c = (Waiting, b1, c1) \<and>
       fetch (se_kex E) (b1 @ drop m bytes @ rest) c1 = (Packet payload, rest, c'))"
proof (cases "sc_isEncryptedOut (ss_conn s)")
  case True
  with assms(1) obtain k where k: "sc_encryptCipher (ss_conn s) = Some k" "sc_decryptCipher c = Some k"
    "sc_isEncryptedIn c" "sc_currentPacketLen c = 0" "sc_inSeq c = sc_outSeq (ss_conn s)"
    "sc_inHmacKey c = sc_outHmacKey (ss_conn s)" by (auto simp: matched_def)
  show ?thesis
    using encrypted_arrives [OF assms(3) k(3,2,4,5,6) assms(4), of E rest] assms(2) True k
    by (auto simp: sendPacket_def matched_def split_beta Let_def)
next
  case False
  let ?raw = "raw_packet payload (random_padding E (sc_outSeq (ss_conn s)) (padding_length (length payload)))"
  let ?c = "c\<lparr>sc_inSeq := sc_inSeq c + 1\<rparr>"
  have c: "\<not> sc_isEncryptedIn c" using assms(1) False by (simp add: matched_def)
  have "fetch (se_kex E) (take m ?raw @ drop m ?raw @ rest) c = (Packet payload, rest, ?c)" for m
    using plain_arrives [OF assms(3) c, of "se_kex E" E "sc_outSeq (ss_conn s)" rest] by (metis append_assoc append_take_drop_id)
  then show ?thesis
    using plain_arrives [OF assms(3) c, of "se_kex E" E "sc_outSeq (ss_conn s)" rest] assms(1,2) False
    by (auto simp: sendPacket_def matched_def Let_def)
qed

definition sample_kex :: kex_crypto where
  "sample_kex = \<lparr>kc_sha256 = pad32, kc_hmac = (\<lambda>key m. pad32 (key @ m)), kc_keystream = (\<lambda>key v i. of_nat (i + length key)),
     kc_x25519_public = pad32, kc_x25519_shared = (\<lambda>seed pub. Some (pad32 (seed @ pub))),
     kc_kem_encapsulate = (\<lambda>pub seed. Some (pad32 seed, seed)), kc_sign = pad32, kc_hasMlKem = True,
     kc_fromPkcs8 = (\<lambda>der. None)\<rparr>"

definition sample_ssh :: ssh_env where
  "sample_ssh = \<lparr>se_auth = sample_auth, se_kex = sample_kex, se_hostKey = [], se_padding = (\<lambda>i. []), se_cookie = [],
     se_seed = [], se_kemSeed = [], se_vaultIv = [], se_now = 0, se_ip = ''10.0.0.9''\<rparr>"

definition sample_cipher :: ctr_cipher where
  "sample_cipher = \<lparr>ci_key = [1, 2], ci_iv = [3], ci_pos = 40\<rparr>"

definition writing_side :: ssh_state where
  "writing_side = fresh_ssh ''SSH-2.0-x'' [] (empty_db [])\<lparr>ss_conn := (new_ssh_conn ''SSH-2.0-x'')\<lparr>sc_isEncryptedOut := True,
     sc_encryptCipher := Some sample_cipher, sc_outHmacKey := [9], sc_outSeq := 5\<rparr>\<rparr>"

definition reading_side :: ssh_conn where
  "reading_side = (new_ssh_conn [])\<lparr>sc_isEncryptedIn := True, sc_decryptCipher := Some sample_cipher, sc_inHmacKey := [9], sc_inSeq := 5\<rparr>"

theorem ssh_packet_arrives_witness:
  "\<exists>bytes c'. snd (sendPacket sample_ssh [21] writing_side) = [Written bytes] \<and>
    fetch sample_kex (bytes @ [7, 7]) reading_side = (Packet [21], [7, 7], c')"
proof -
  have "matched (ss_conn writing_side) reading_side" "socket_open (ss_conn writing_side)"
    by (simp_all add: matched_def writing_side_def reading_side_def new_ssh_conn_def socket_open_def)
  moreover have "length (kc_hmac (se_kex sample_ssh) key m) = 32" for key m
    by (simp add: sample_ssh_def sample_kex_def pad32_def)
  ultimately show ?thesis
    using ssh_packet_arrives [of writing_side reading_side "[21]" sample_ssh "[7, 7]"] by (auto simp: sample_ssh_def)
qed

theorem ssh_access_in_order_witness:
  "ssh_run [(sample_ssh, Data [1, 2, 3]), (sample_ssh, EndTimer)] ([], fresh_ssh ''SSH-2.0-x'' [] (empty_db [])) =
     (([1, 2, 3], fresh_ssh ''SSH-2.0-x'' [] (empty_db [])), []) \<and>
   \<not> logged_in (fresh_ssh ''SSH-2.0-x'' [] (empty_db [])) \<and> ss_db (fresh_ssh ''SSH-2.0-x'' [] (empty_db [])) = empty_db []"
proof -
  let ?s = "fresh_ssh ''SSH-2.0-x'' [] (empty_db [])"
  have run: "ssh_run [(sample_ssh, Data [1, 2, 3]), (sample_ssh, EndTimer)] ([], ?s) = (([1, 2, 3], ?s), [])"
    by (simp add: ssh_data_def processIncoming_def fresh_ssh_def new_ssh_conn_def end_timer_def)
  have "\<not> exchanged ?s" by (simp add: exchanged_def fresh_ssh_def new_ssh_conn_def)
  with ssh_access_in_order [OF run] run show ?thesis by auto
qed

text \<open>
  NEWKEYS without a key exchange: the connection expects encrypted packets and has no cipher. Whatever comes stays in
  the buffer, which grows with every chunk, and the connection is not closed.
\<close>

lemma newkeys_without_exchange_stalls:
  "sc_isEncryptedIn (ss_conn s) \<Longrightarrow> sc_decryptCipher (ss_conn s) = None \<Longrightarrow> sc_currentPacketLen (ss_conn s) = 0 \<Longrightarrow>
    packets E buf s = (buf, s, [])"
  by (simp add: packets.simps [of E buf s] fetch_def fetch_encrypted_def fetch_head_def)

end
