(* ===== verification/Telnet.thy ===== *)
theory Telnet
  imports InputParser Session Database Crypto
begin

text \<open>
  \<open>src/core/telnetClientConnection.js\<close>: a Telnet client logs in or registers by name and password and then drives a
  terminal session. Chunks are handled in order; while a password is hashed or verified (an awaited call of the crypto
  module) the rest of the input waits. A handler that throws drops the rest of its chunk. The session and the other
  connections are reached through effects, the names in use are the argument \<open>online\<close>.
\<close>

section \<open>State\<close>

datatype auth_state_name = USERNAME | LOGIN_PASSWORD | REGISTER_PASSWORD | CONFIRM_PASSWORD | AUTHENTICATED

text \<open>The awaited call, with what the handler still needs of its variables.\<close>

datatype waiting = Hashing string | Verifying string

record telnet =
  t_authState :: auth_state_name
  t_targetUserAddress :: "string option"
  t_userProfile :: "profile option"
  t_loginAttempts :: nat
  t_inputBuffer :: string
  t_tempPassword :: string
  t_userAddress :: "string option"
  t_session :: bool
  t_detectedWidth :: nat
  t_detectedHeight :: nat
  t_parser :: input_parser
  t_waiting :: "waiting option"
  t_actions :: "key_action list"
  t_chunks :: "byte list list"
  t_stuck :: bool

record telnet_env =
  te_crypto :: node_crypto
  te_locale :: string
  te_nodeId :: "string option"
  te_nodeAddress :: string
  te_text :: "string \<Rightarrow> (string \<times> string) list \<Rightarrow> string"
  te_salt :: "byte list"

datatype telnet_effect =
    TWrite string
  | TWriteBytes "byte list"
  | TEnd
  | TLogin string profile nat nat
  | TSystemLog string
  | TResizeSession nat nat
  | TSessionAction key_action
  | TLogout string

type_synonym telnet_act = "telnet \<times> db \<Rightarrow> (telnet \<times> db) \<times> telnet_effect list"

definition new_telnet :: telnet where
  "new_telnet =
     \<lparr>t_authState = USERNAME, t_targetUserAddress = None, t_userProfile = None, t_loginAttempts = 0, t_inputBuffer = [],
      t_tempPassword = [], t_userAddress = None, t_session = False, t_detectedWidth = 110, t_detectedHeight = 24,
      t_parser = new_parser, t_waiting = None, t_actions = [], t_chunks = [], t_stuck = False\<rparr>"

definition handshake_effects :: "telnet_effect list" where
  "handshake_effects =
     [TWriteBytes [0xFF, 0xFB, 0x01, 0xFF, 0xFB, 0x03, 0xFF, 0xFE, 0x22, 0xFF, 0xFD, 0x1F],
      TWrite (CHR 0x1B # ''[?2004h''),
      TWrite (CHR 0x1B # ''[s'' @ CHR 0x1B # ''[999;999H'' @ CHR 0x1B # ''[6n'' @ CHR 0x1B # ''[u'')]"

definition greeting :: "telnet_env \<Rightarrow> telnet_effect list" where
  "greeting E =
     handshake_effects @
     [TWrite (CHR 0x1B # ''[2J'' @ CHR 0x1B # ''[H'' @ CHR 0x1B # ''[1;36m'' @ te_text E ''TUI_WELCOME_BANNER'' [] @
        CHR 0x1B # ''[0m''),
      TWrite (te_text E ''TUI_LOGIN_PROMPT'' [])]"

section \<open>Logging in\<close>

definition say :: "telnet_env \<Rightarrow> string \<Rightarrow> telnet_effect" where
  "say E key = TWrite (te_text E key [])"

definition completeLogin :: "telnet \<Rightarrow> telnet \<times> telnet_effect list" where
  "completeLogin t =
     (let user = (case t_targetUserAddress t of Some u \<Rightarrow> u | None \<Rightarrow> []);
          p = (case t_userProfile t of Some p \<Rightarrow> p | None \<Rightarrow> blank_profile)
      in (t\<lparr>t_authState := AUTHENTICATED, t_userAddress := t_targetUserAddress t, t_session := True\<rparr>,
          [TLogin user p (t_detectedWidth t) (t_detectedHeight t)]))"

definition enter_username :: "telnet_env \<Rightarrow> (string \<Rightarrow> bool) \<Rightarrow> string \<Rightarrow> telnet_act" where
  "enter_username E online val = (\<lambda>(t, d).
     (if \<not> isValidUsername val then ((t, d), [say E ''TUI_INVALID_USERNAME''])
      else
        let user = formatUser (te_nodeId E) val None
        in if online user then ((t\<lparr>t_targetUserAddress := None\<rparr>, d), [say E ''TUI_USERNAME_TAKEN''])
           else
             let (p, d1) = getUserProfile (te_locale E) user d;
                 t1 = t\<lparr>t_targetUserAddress := Some user, t_userProfile := Some p\<rparr>
             in if p_passwordHash p = []
                then ((t1\<lparr>t_authState := REGISTER_PASSWORD\<rparr>, d1), [say E ''TUI_NEW_USER_PASSWORD_PROMPT''])
                else ((t1\<lparr>t_authState := LOGIN_PASSWORD\<rparr>, d1), [say E ''TUI_PASSWORD_PROMPT''])))"

definition enter_new_password :: "telnet_env \<Rightarrow> string \<Rightarrow> telnet_act" where
  "enter_new_password E val = (\<lambda>(t, d).
     (if length val < 4
      then ((t, d), [say E ''TUI_PASSWORD_TOO_SHORT'', say E ''TUI_NEW_USER_PASSWORD_PROMPT''])
      else ((t\<lparr>t_tempPassword := val, t_authState := CONFIRM_PASSWORD\<rparr>, d), [say E ''TUI_CONFIRM_PASSWORD_PROMPT''])))"

definition enter_confirmation :: "telnet_env \<Rightarrow> string \<Rightarrow> telnet_act" where
  "enter_confirmation E val = (\<lambda>(t, d).
     (if val \<noteq> t_tempPassword t
      then ((t\<lparr>t_tempPassword := [], t_authState := REGISTER_PASSWORD\<rparr>, d),
            [say E ''TUI_PASSWORD_MISMATCH'', say E ''TUI_NEW_USER_PASSWORD_PROMPT''])
      else ((t\<lparr>t_waiting := Some (Hashing val)\<rparr>, d), [])))"

definition is_vault :: "profile \<Rightarrow> bool" where
  "is_vault p = starts_with ''{'' (p_passwordHash p)"

definition enter_password :: "telnet_env \<Rightarrow> string \<Rightarrow> telnet_act" where
  "enter_password E val = (\<lambda>(t, d).
     (let user = (case t_targetUserAddress t of Some u \<Rightarrow> u | None \<Rightarrow> []);
          (p, d1) = getUserProfile (te_locale E) user d;
          t1 = t\<lparr>t_userProfile := Some p\<rparr>
      in if is_vault p \<and> \<not> p_allowTelnet p then ((t1, d1), [say E ''TUI_TELNET_BLOCKED_SSH_ONLY'', TEnd])
         else if is_vault p \<and> p_publicKey p = [] then ((t1, d1), [say E ''TUI_TELNET_NO_KEY_IN_PROFILE'', TEnd])
         else ((t1\<lparr>t_waiting := Some (Verifying val)\<rparr>, d1), [])))"

definition enter_line :: "telnet_env \<Rightarrow> (string \<Rightarrow> bool) \<Rightarrow> string \<Rightarrow> telnet_act" where
  "enter_line E online val = (\<lambda>(t, d).
     (case t_authState t of
        USERNAME \<Rightarrow> enter_username E online val (t, d)
      | REGISTER_PASSWORD \<Rightarrow> enter_new_password E val (t, d)
      | CONFIRM_PASSWORD \<Rightarrow> enter_confirmation E val (t, d)
      | LOGIN_PASSWORD \<Rightarrow> enter_password E val (t, d)
      | AUTHENTICATED \<Rightarrow> ((t, d), [])))"

definition handleAuthInput :: "telnet_env \<Rightarrow> (string \<Rightarrow> bool) \<Rightarrow> key_action \<Rightarrow> telnet_act" where
  "handleAuthInput E online action = (\<lambda>(t, d).
     (case action of
        CHAR_IN c \<Rightarrow>
          (if length (t_inputBuffer t) < 1024
           then ((t\<lparr>t_inputBuffer := t_inputBuffer t @ c\<rparr>, d), [TWrite (if t_authState t = USERNAME then c else ''*'')])
           else ((t, d), []))
      | KEY_BACKSPACE \<Rightarrow>
          (if t_inputBuffer t \<noteq> []
           then ((t\<lparr>t_inputBuffer := butlast (t_inputBuffer t)\<rparr>, d), [TWrite [CHR 0x08, CHR '' '', CHR 0x08]])
           else ((t, d), []))
      | KEY_ENTER fromChunk \<Rightarrow> enter_line E online (js_trim (t_inputBuffer t)) (t\<lparr>t_inputBuffer := []\<rparr>, d)
      | _ \<Rightarrow> ((t, d), [])))"

text \<open>The password check as the awaited call makes it; \<open>Throw\<close> is an exception in its callback.\<close>

definition password_check :: "telnet_env \<Rightarrow> profile \<Rightarrow> string \<Rightarrow> bool result" where
  "password_check E p val =
     (if is_vault p then verifyPassword (te_crypto E) val (p_passwordHash p) (Some (KeyString (p_publicKey p))) (te_nodeAddress E)
      else verifyPassword (te_crypto E) val (p_passwordHash p) None [])"

definition MAX_LOGIN_ATTEMPTS :: nat where
  "MAX_LOGIN_ATTEMPTS = 3"

definition wrong_password :: "telnet_env \<Rightarrow> telnet \<Rightarrow> telnet \<times> telnet_effect list" where
  "wrong_password E t =
     (let t1 = t\<lparr>t_loginAttempts := t_loginAttempts t + 1\<rparr>
      in if t_loginAttempts t1 \<ge> MAX_LOGIN_ATTEMPTS then (t1, [say E ''TUI_MAX_LOGIN_ATTEMPTS'', TEnd])
         else (t1, [TWrite (te_text E ''TUI_WRONG_PASSWORD'' [(''remaining'', show_nat (MAX_LOGIN_ATTEMPTS - t_loginAttempts t1))]),
                    say E ''TUI_PASSWORD_PROMPT'']))"

text \<open>
  The awaited call is over. A hash that fails rejects, and the handler drops the rest of its chunk; an exception in the
  callback of a verification leaves the promise open, and this connection's input is never handled again.
\<close>

definition finish_hash :: "telnet_env \<Rightarrow> string \<Rightarrow> telnet_act" where
  "finish_hash E val = (\<lambda>(t, d).
     (case hashPassword (te_crypto E) (te_salt E) val of
        Throw e \<Rightarrow> ((t\<lparr>t_waiting := None, t_actions := []\<rparr>, d), [])
      | Ok hash \<Rightarrow>
          (let user = (case t_targetUserAddress t of Some u \<Rightarrow> u | None \<Rightarrow> []);
               (t1, es) = completeLogin (t\<lparr>t_waiting := None, t_tempPassword := [],
                 t_userProfile := map_option (\<lambda>p. p\<lparr>p_passwordHash := hash\<rparr>) (t_userProfile t)\<rparr>)
           in ((t1, updateUserPassword user hash d), es))))"

definition finish_verify :: "telnet_env \<Rightarrow> string \<Rightarrow> telnet_act" where
  "finish_verify E val = (\<lambda>(t, d).
     (let p = (case t_userProfile t of Some p \<Rightarrow> p | None \<Rightarrow> blank_profile)
      in case password_check E p val of
           Throw e \<Rightarrow> ((t\<lparr>t_stuck := True\<rparr>, d), [])
         | Ok False \<Rightarrow> (let (t1, es) = wrong_password E (t\<lparr>t_waiting := None\<rparr>) in ((t1, d), es))
         | Ok True \<Rightarrow>
             (let (t1, es) = completeLogin (t\<lparr>t_waiting := None\<rparr>)
              in ((t1, d), es @ (if is_vault p then [TSystemLog (te_text E ''E2EE_TELNET_BANNER_WARNING'' [])] else [])))))"

definition finish_waiting :: "telnet_env \<Rightarrow> telnet_act" where
  "finish_waiting E = (\<lambda>(t, d).
     (case t_waiting t of
        None \<Rightarrow> ((t, d), [])
      | Some (Hashing val) \<Rightarrow> finish_hash E val (t, d)
      | Some (Verifying val) \<Rightarrow> finish_verify E val (t, d)))"

section \<open>The input queue\<close>

text \<open>
  What the actions of a logged-in client do is the session's part (\<open>TSessionAction\<close>, in order); the next action waits for
  it as it does for a password, but nothing of the connection depends on how long it takes.
\<close>

definition on_action :: "telnet_env \<Rightarrow> (string \<Rightarrow> bool) \<Rightarrow> key_action \<Rightarrow> telnet_act" where
  "on_action E online action = (\<lambda>(t, d).
     (case action of
        RESIZE w h \<Rightarrow>
          ((t\<lparr>t_detectedWidth := w, t_detectedHeight := h\<rparr>, d), if t_session t then [TResizeSession w h] else [])
      | _ \<Rightarrow>
          if t_authState t \<noteq> AUTHENTICATED then handleAuthInput E online action (t, d)
          else ((t, d), [TSessionAction action])))"

definition busy :: "telnet \<Rightarrow> bool" where
  "busy t = (t_waiting t \<noteq> None \<or> t_stuck t)"

fun do_actions :: "telnet_env \<Rightarrow> (string \<Rightarrow> bool) \<Rightarrow> key_action list \<Rightarrow> telnet_act" where
  "do_actions E online [] (t, d) = ((t\<lparr>t_actions := []\<rparr>, d), [])"
| "do_actions E online (a # rest) (t, d) =
     (if busy t then ((t\<lparr>t_actions := a # rest\<rparr>, d), [])
      else let (td1, e1) = on_action E online a (t, d); (td2, e2) = do_actions E online rest td1 in (td2, e1 @ e2))"

fun do_chunks :: "telnet_env \<Rightarrow> (string \<Rightarrow> bool) \<Rightarrow> byte list list \<Rightarrow> telnet_act" where
  "do_chunks E online [] (t, d) = ((t\<lparr>t_chunks := []\<rparr>, d), [])"
| "do_chunks E online (c # cs) (t, d) =
     (if busy t then ((t\<lparr>t_chunks := c # cs\<rparr>, d), [])
      else
        let (parser', actions) = parse_input c (t_parser t);
            (td1, e1) = do_actions E online actions (t\<lparr>t_parser := parser'\<rparr>, d);
            (td2, e2) = do_chunks E online cs td1
        in (td2, e1 @ e2))"

definition on_chunk :: "telnet_env \<Rightarrow> (string \<Rightarrow> bool) \<Rightarrow> byte list \<Rightarrow> telnet_act" where
  "on_chunk E online chunk = (\<lambda>(t, d). do_chunks E online (t_chunks t @ [chunk]) (t, d))"

definition on_result :: "telnet_env \<Rightarrow> (string \<Rightarrow> bool) \<Rightarrow> telnet_act" where
  "on_result E online = (\<lambda>(t, d).
     (if t_waiting t = None \<or> t_stuck t then ((t, d), [])
      else
        let ((t1, d1), e1) = finish_waiting E (t, d);
            ((t2, d2), e2) = do_actions E online (t_actions t1) (t1, d1);
            (td3, e3) = do_chunks E online (t_chunks t2) (t2, d2)
        in (td3, e1 @ e2 @ e3)))"

definition on_close :: "telnet_act" where
  "on_close = (\<lambda>(t, d).
     ((t, d), case (t_userAddress t, t_session t) of (Some user, True) \<Rightarrow> [TLogout user] | _ \<Rightarrow> []))"

section \<open>No login without a checked password\<close>

definition profile_is :: "(profile \<Rightarrow> bool) \<Rightarrow> telnet \<Rightarrow> bool" where
  "profile_is P t = (case t_userProfile t of Some p \<Rightarrow> P p | None \<Rightarrow> False)"

definition new_account :: "profile \<Rightarrow> bool" where
  "new_account p = (p_passwordHash p = [])"

definition telnet_allowed :: "profile \<Rightarrow> bool" where
  "telnet_allowed p = (is_vault p \<longrightarrow> p_allowTelnet p \<and> p_publicKey p \<noteq> [])"

definition phase_ok :: "telnet \<Rightarrow> bool" where
  "phase_ok t =
     (case t_authState t of
        USERNAME \<Rightarrow> True
      | REGISTER_PASSWORD \<Rightarrow> t_targetUserAddress t \<noteq> None \<and> profile_is new_account t
      | CONFIRM_PASSWORD \<Rightarrow> t_targetUserAddress t \<noteq> None \<and> profile_is new_account t \<and> length (t_tempPassword t) \<ge> 4
      | LOGIN_PASSWORD \<Rightarrow> t_targetUserAddress t \<noteq> None
      | AUTHENTICATED \<Rightarrow> t_targetUserAddress t \<noteq> None \<and> t_userAddress t = t_targetUserAddress t)"

definition waiting_ok :: "telnet \<Rightarrow> bool" where
  "waiting_ok t =
     (case t_waiting t of
        None \<Rightarrow> True
      | Some (Hashing v) \<Rightarrow> t_authState t = CONFIRM_PASSWORD \<and> v = t_tempPassword t
      | Some (Verifying v) \<Rightarrow> t_authState t = LOGIN_PASSWORD \<and> profile_is telnet_allowed t)"

definition telnet_ok :: "telnet \<Rightarrow> bool" where
  "telnet_ok t = (phase_ok t \<and> waiting_ok t)"

fun is_login :: "telnet_effect \<Rightarrow> bool" where
  "is_login (TLogin user p w h) = True"
| "is_login _ = False"

text \<open>A step of a connection that is not waiting: it stays consistent, and nobody is logged in by it.\<close>

definition calm_at :: "(auth_state_name \<Rightarrow> bool) \<Rightarrow> telnet_act \<Rightarrow> bool" where
  "calm_at S f =
     (\<forall>t d t' d' es. telnet_ok t \<longrightarrow> \<not> busy t \<longrightarrow> S (t_authState t) \<longrightarrow> f (t, d) = ((t', d'), es) \<longrightarrow>
       telnet_ok t' \<and> \<not> list_ex is_login es)"

abbreviation calm :: "telnet_act \<Rightarrow> bool" where
  "calm \<equiv> calm_at (\<lambda>s. True)"

lemmas telnet_defs = telnet_ok_def phase_ok_def waiting_ok_def busy_def profile_is_def say_def
lemmas telnet_splits = auth_state_name.split option.split waiting.split

lemma calm_lines:
  "calm_at ((=) USERNAME) (enter_username E online val)"
  "calm_at ((=) REGISTER_PASSWORD) (enter_new_password E val)"
  "calm_at ((=) CONFIRM_PASSWORD) (enter_confirmation E val)"
  "calm_at ((=) LOGIN_PASSWORD) (enter_password E val)"
  unfolding calm_at_def enter_username_def enter_new_password_def enter_confirmation_def enter_password_def
  by (auto simp: telnet_defs new_account_def telnet_allowed_def Let_def split_beta split: if_splits option.splits)

lemma calm_atD:
  "calm_at S f \<Longrightarrow> telnet_ok t \<Longrightarrow> \<not> busy t \<Longrightarrow> S (t_authState t) \<Longrightarrow> f (t, d) = ((t', d'), es) \<Longrightarrow>
    telnet_ok t' \<and> \<not> list_ex is_login es"
  unfolding calm_at_def by blast

lemma calm_line: "calm (enter_line E online val)"
  unfolding calm_at_def
proof (intro allI impI)
  fix t d t' d' es
  assume t: "telnet_ok t" "\<not> busy t" and e: "enter_line E online val (t, d) = ((t', d'), es)"
  show "telnet_ok t' \<and> \<not> list_ex is_login es"
    using calm_lines(1) [of E online val, THEN calm_atD, OF t] calm_lines(2) [of E val, THEN calm_atD, OF t]
      calm_lines(3) [of E val, THEN calm_atD, OF t] calm_lines(4) [of E val, THEN calm_atD, OF t] t e
    by (cases "t_authState t") (simp_all add: enter_line_def)
qed

lemma ok_buffer: "telnet_ok (t\<lparr>t_inputBuffer := b\<rparr>) = telnet_ok t" "busy (t\<lparr>t_inputBuffer := b\<rparr>) = busy t"
  by (simp_all add: telnet_defs split: telnet_splits)

lemma calm_auth: "calm (handleAuthInput E online action)"
  unfolding calm_at_def
proof (intro allI impI)
  fix t d t' d' es
  assume t: "telnet_ok t" "\<not> busy t" and h: "handleAuthInput E online action (t, d) = ((t', d'), es)"
  have "telnet_ok (t\<lparr>t_inputBuffer := []\<rparr>)" "\<not> busy (t\<lparr>t_inputBuffer := []\<rparr>)" using t by (simp_all add: ok_buffer)
  note line = calm_atD [OF calm_line this TrueI]
  show "telnet_ok t' \<and> \<not> list_ex is_login es"
    using t h by (cases action) (auto simp: handleAuthInput_def ok_buffer dest: line split: if_splits)
qed

lemma calm_action: "calm (on_action E online action)"
proof -
  have "telnet_ok (t\<lparr>t_detectedWidth := w, t_detectedHeight := h\<rparr>) = telnet_ok t" for t w h
    by (simp add: telnet_defs split: telnet_splits)
  then show ?thesis using calm_auth [of E online action] by (auto simp: calm_at_def on_action_def split: key_action.splits if_splits)
qed

lemma ok_queues [simp]: "telnet_ok (t\<lparr>t_actions := a\<rparr>) = telnet_ok t" "telnet_ok (t\<lparr>t_chunks := c\<rparr>) = telnet_ok t"
  "telnet_ok (t\<lparr>t_parser := q\<rparr>) = telnet_ok t"
  by (simp_all add: telnet_defs split: telnet_splits)

lemma calm_actions: "telnet_ok t \<Longrightarrow> telnet_ok (fst (fst (do_actions E online as (t, d)))) \<and>
    \<not> list_ex is_login (snd (do_actions E online as (t, d)))"
proof (induction as arbitrary: t d)
  case (Cons a as)
  show ?case
  proof (cases "busy t")
    case False
    obtain t1 d1 e1 where a: "on_action E online a (t, d) = ((t1, d1), e1)" by (metis prod.exhaust)
    have "telnet_ok t1 \<and> \<not> list_ex is_login e1" using calm_action [of E online a] Cons.prems False a by (auto simp: calm_at_def)
    then show ?thesis using Cons.IH [of t1 d1] False by (simp add: a split_beta Let_def)
  qed (use Cons.prems in simp)
qed simp

lemma calm_chunks: "telnet_ok t \<Longrightarrow> telnet_ok (fst (fst (do_chunks E online cs (t, d)))) \<and>
    \<not> list_ex is_login (snd (do_chunks E online cs (t, d)))"
proof (induction cs arbitrary: t d)
  case (Cons c cs)
  show ?case
  proof (cases "busy t")
    case False
    obtain q as where q: "parse_input c (t_parser t) = (q, as)" by fastforce
    obtain t1 d1 e1 where a: "do_actions E online as (t\<lparr>t_parser := q\<rparr>, d) = ((t1, d1), e1)" by (metis prod.exhaust)
    have "telnet_ok t1 \<and> \<not> list_ex is_login e1" using calm_actions [of "t\<lparr>t_parser := q\<rparr>" E online as d] Cons.prems a by simp
    then show ?thesis using Cons.IH [of t1 d1] False by (simp add: q a split_beta Let_def)
  qed (use Cons.prems in simp)
qed simp

text \<open>What a login rests on: the new password, given twice, of an account without one, or a checked password.\<close>

definition login_checked :: "telnet_env \<Rightarrow> telnet \<Rightarrow> string \<Rightarrow> bool" where
  "login_checked E t user =
     (t_targetUserAddress t = Some user \<and>
      (case t_waiting t of
         None \<Rightarrow> False
       | Some (Hashing v) \<Rightarrow> v = t_tempPassword t \<and> length v \<ge> 4 \<and> profile_is new_account t
       | Some (Verifying v) \<Rightarrow> profile_is (\<lambda>p. password_check E p v = Ok True \<and> telnet_allowed p) t))"

lemma finish_steps:
  assumes "telnet_ok t"
      "finish_waiting E (t, d) = ((t', d'), es)"
  shows "telnet_ok t' \<and> (TLogin user p w h \<in> set es \<longrightarrow> login_checked E t user)"
proof (cases "t_waiting t")
  case (Some a)
  then show ?thesis
    using assms
    by (cases a) (auto simp: finish_waiting_def finish_hash_def finish_verify_def completeLogin_def wrong_password_def
        login_checked_def telnet_defs Let_def split: option.splits result.splits bool.splits if_splits)
qed (use assms in \<open>auto simp: finish_waiting_def\<close>)

lemma finish_ok:
  assumes "telnet_ok t"
  shows "telnet_ok (fst (fst (finish_waiting E (t, d))))"
    "TLogin user p w h \<in> set (snd (finish_waiting E (t, d))) \<Longrightarrow> login_checked E t user"
  using finish_steps [OF assms, of E d "fst (fst (finish_waiting E (t, d)))" "snd (fst (finish_waiting E (t, d)))"
      "snd (finish_waiting E (t, d))" user p w h] by auto

definition sample_env :: telnet_env where
  "sample_env = \<lparr>te_crypto = clear_crypto, te_locale = ''en'', te_nodeId = Some ''n'', te_nodeAddress = ''n.mesh'',
     te_text = (\<lambda>k vs. k), te_salt = [1, 2]\<rparr>"

inductive telnet_reach :: "telnet_env \<Rightarrow> telnet \<Rightarrow> bool" for E where
  connected: "telnet_reach E new_telnet"
| chunk: "telnet_reach E t \<Longrightarrow> on_chunk E online c (t, d) = ((t', d'), es) \<Longrightarrow> telnet_reach E t'"
| result: "telnet_reach E t \<Longrightarrow> on_result E online (t, d) = ((t', d'), es) \<Longrightarrow> telnet_reach E t'"

lemma result_steps:
  assumes "telnet_ok t"
  shows "telnet_ok (fst (fst (on_result E online (t, d))))"
    "TLogin user p w h \<in> set (snd (on_result E online (t, d))) \<Longrightarrow> login_checked E t user"
proof -
  obtain t1 d1 e1 where f: "finish_waiting E (t, d) = ((t1, d1), e1)" by (metis prod.exhaust)
  obtain t2 d2 e2 where a: "do_actions E online (t_actions t1) (t1, d1) = ((t2, d2), e2)" by (metis prod.exhaust)
  obtain t3 d3 e3 where c: "do_chunks E online (t_chunks t2) (t2, d2) = ((t3, d3), e3)" by (metis prod.exhaust)
  have t1: "telnet_ok t1" using finish_ok(1) [OF assms, of E d] f by simp
  have t2: "telnet_ok t2" "\<not> list_ex is_login e2" using calm_actions [OF t1, of E online "t_actions t1" d1] a by simp_all
  have t3: "telnet_ok t3" "\<not> list_ex is_login e3" using calm_chunks [OF t2(1), of E online "t_chunks t2" d2] c by simp_all
  show "telnet_ok (fst (fst (on_result E online (t, d))))" using assms t3 by (simp add: on_result_def f a c)
  have "is_login (TLogin user p w h)" by simp
  then show "TLogin user p w h \<in> set (snd (on_result E online (t, d))) \<Longrightarrow> login_checked E t user"
    using finish_ok(2) [OF assms, of user p w h E d] f a c t2 t3
    by (auto simp: on_result_def list_ex_iff split: if_splits)
qed

lemma reach_ok: "telnet_reach E t \<Longrightarrow> telnet_ok t"
proof (induction rule: telnet_reach.induct)
  case connected
  show ?case by (simp add: new_telnet_def telnet_defs)
next
  case (chunk t online c d t' d' es)
  then show ?case using calm_chunks [of t E online "t_chunks t @ [c]" d] by (simp add: on_chunk_def)
next
  case (result t online d t' d' es)
  then show ?case using result_steps(1) [of t E online d] by simp
qed


definition sample_session :: "telnet \<times> db" where
  "sample_session = fold (\<lambda>c s. fst (on_chunk sample_env (\<lambda>u. False) c s))
     [[97, 110, 110, 13], [112, 97, 115, 115, 13], [112, 97, 115, 115, 13]] (new_telnet, empty_db [])"

lemma on_chunk_reach: "telnet_reach E (fst s) \<Longrightarrow> telnet_reach E (fst (fst (on_chunk E online c s)))"
  by (metis telnet_reach.chunk prod.collapse)

lemma telnet_sample_reach: "telnet_reach sample_env (fst sample_session)"
  by (simp add: sample_session_def on_chunk_reach telnet_reach.connected)


section \<open>Registering and logging in\<close>

lemma hash_not_vault:
  "hashPassword C random password = Ok stored \<Longrightarrow> random \<noteq> [] \<Longrightarrow> \<not> starts_with ''{'' stored"
  using to_hex_no_mark(2) [of random] length_to_hex [of random]
  by (cases "to_hex random") (auto simp: hashPassword_def Let_def starts_with_def split: option.splits)

lemma stored_hash: "p_passwordHash (fst (getUserProfile loc user (updateUserPassword user hash d))) = hash"
  by (simp add: updateUserPassword_def upsert_profile_def getUserProfile_def jsmap_simps)

text \<open>
  An account registered over Telnet is opened by its password, and only by passwords with the same derived key:
  when the hash of the new password has been stored, a later check of an attempt against the stored profile answers
  whether the attempt derives the key of the password that was registered, and never throws.
\<close>

theorem registered_password_opens:
  assumes "hashPassword (te_crypto E) (te_salt E) val = Ok hash" "te_salt E \<noteq> []" "t_targetUserAddress t = Some user"
    and "\<And>p s k. scrypt (te_crypto E) p s 64 = Some k \<Longrightarrow> length k = 64"
  shows "password_check E (fst (getUserProfile loc user (snd (fst (finish_hash E val (t, d)))))) attempt =
    Ok (scrypt (te_crypto E) (utf8 attempt) (utf8 (to_hex (te_salt E))) 64 =
        scrypt (te_crypto E) (utf8 val) (utf8 (to_hex (te_salt E))) 64)"
  using password_roundtrip [OF assms(1,2) assms(4), where attempt = attempt and key = None and addr = "[]"] hash_not_vault [OF assms(1,2)] assms(1,3)
  by (simp add: password_check_def is_vault_def stored_hash finish_hash_def split_beta Let_def)

theorem registered_password_opens_witness:
  "password_check sample_env
     (fst (getUserProfile ''en'' ''@ann'' (snd (fst (finish_hash sample_env ''pass'' (new_telnet\<lparr>t_targetUserAddress := Some ''@ann''\<rparr>,
        empty_db [])))))) ''pass'' = Ok True"
proof -
  obtain stored where s: "hashPassword (te_crypto sample_env) (te_salt sample_env) ''pass'' = Ok stored"
    by (simp add: hashPassword_def clear_crypto_def sample_env_def Let_def)
  have l: "scrypt (te_crypto sample_env) p t 64 = Some k \<Longrightarrow> length k = 64" for p t k
    by (auto simp: clear_crypto_def sample_env_def)
  have "te_salt sample_env \<noteq> []" by (simp add: sample_env_def)
  from registered_password_opens [OF s this _ l, where t = "new_telnet\<lparr>t_targetUserAddress := Some ''@ann''\<rparr>"
      and user = "''@ann''" and loc = "''en''" and d = "empty_db []" and attempt = "''pass''"]
  show ?thesis by simp
qed

text \<open>
  The limit of attempts: the third wrong password ends the socket's writable side, but the connection stays in its state,
  so input that still arrives is handled like before, a further password included.
\<close>

lemma fourth_attempt_is_checked:
  assumes "t_authState t = LOGIN_PASSWORD" "t_userProfile t = Some p" "password_check E p v1 = Ok False" "t_loginAttempts t = 2"
  shows "fst (finish_verify E v1 (t, d)) = (t\<lparr>t_waiting := None, t_loginAttempts := 3\<rparr>, d) \<and>
    last (snd (finish_verify E v1 (t, d))) = TEnd \<and>
    enter_line E online v2 (fst (finish_verify E v1 (t, d))) = enter_password E v2 (t\<lparr>t_waiting := None, t_loginAttempts := 3\<rparr>, d)"
  using assms by (simp add: finish_verify_def wrong_password_def MAX_LOGIN_ATTEMPTS_def enter_line_def Let_def)

end
