(* ===== verification/E2ee.thy ===== *)
theory E2ee
  imports Crypto Database Session
begin

text \<open>
  The end-to-end encryption of private messages, \<open>handleOutboundMessage\<close> and \<open>getCurrentConversation\<close> of
  \<open>src/core/clientServer.js\<close>: a message key seals the text, and the key itself is wrapped twice, for the recipient's
  and for the sender's KEM key, in one line of text. The random values are the record \<open>seal_draw\<close>.
\<close>

section \<open>Sealing\<close>

record seal_draw =
  sd_key :: "byte list"
  sd_iv :: "byte list"
  sd_rSeed :: "byte list"
  sd_rIv :: "byte list"
  sd_sSeed :: "byte list"
  sd_sIv :: "byte list"

definition wrap_aes :: "node_crypto \<Rightarrow> byte list \<Rightarrow> key_arg" where
  "wrap_aes C sharedSecret = KeyBuffer (deriveKey C sharedSecret ''e2ee-wrap'' ''wrap-key'')"

text \<open>The message key wrapped for one KEM key; \<open>None\<close> is the exception of a key that cannot be used.\<close>

definition wrap_message_key :: "node_crypto \<Rightarrow> byte list \<Rightarrow> byte list \<Rightarrow> byte list \<Rightarrow> string \<Rightarrow> string option" where
  "wrap_message_key C seed random messageKey pub =
     (case encapsulateKey C seed pub of
        None \<Rightarrow> None
      | Some (sharedSecret, encapsulated) \<Rightarrow>
          let enc = encrypt C random (b64_encode messageKey) (wrap_aes C sharedSecret)
          in Some (encapsulated @ ''!'' @ iv enc @ ''!'' @ authTag enc @ ''!'' @ ciphertext enc))"

definition seal_message :: "node_crypto \<Rightarrow> seal_draw \<Rightarrow> string \<Rightarrow> string \<Rightarrow> string \<Rightarrow> string option" where
  "seal_message C d recipientPub senderPub content =
     (let enc = encrypt C (sd_iv d) content (KeyBuffer (sd_key d))
      in case (wrap_message_key C (sd_rSeed d) (sd_rIv d) (sd_key d) recipientPub,
               wrap_message_key C (sd_sSeed d) (sd_sIv d) (sd_key d) senderPub) of
           (Some rCombined, Some sCombined) \<Rightarrow>
             Some (''e2ee:v2:'' @ rCombined @ '':'' @ sCombined @ '':'' @ iv enc @ '':'' @ authTag enc @ '':'' @ ciphertext enc)
         | _ \<Rightarrow> None)"

section \<open>Opening\<close>

definition part :: "'a list \<Rightarrow> nat \<Rightarrow> 'a option" where
  "part xs i = (if i < length xs then Some (xs ! i) else None)"

text \<open>\<open>decrypt\<close> gives \<open>null\<close> for a part that is missing too.\<close>

definition decrypt_parts :: "node_crypto \<Rightarrow> string option \<Rightarrow> string option \<Rightarrow> string option \<Rightarrow> key_arg \<Rightarrow> string option" where
  "decrypt_parts C ct i tag key =
     (case (ct, i, tag) of
        (Some c, Some v, Some t) \<Rightarrow> decrypt C \<lparr>ciphertext = c, iv = v, authTag = t\<rparr> key
      | _ \<Rightarrow> None)"

datatype opened = Plain string | Placeholder | AsStored

definition open_envelope :: "node_crypto \<Rightarrow> string \<Rightarrow> bool \<Rightarrow> string \<Rightarrow> opened" where
  "open_envelope C privateKey isSender content =
     (let parts = split_on CHR '':'' content
      in case (part parts 2, part parts 3) of
           (Some r, Some s) \<Rightarrow>
             (let chosen = split_on CHR ''!'' (if isSender then s else r)
              in case decapsulateKey C privateKey (hd chosen) of
                   None \<Rightarrow> AsStored
                 | Some sharedSecret \<Rightarrow>
                     (case decrypt_parts C (part chosen 3) (part chosen 1) (part chosen 2) (wrap_aes C sharedSecret) of
                        None \<Rightarrow> AsStored
                      | Some messageKeyBase64 \<Rightarrow>
                          (case decrypt_parts C (part parts 6) (part parts 4) (part parts 5)
                                  (KeyBuffer (b64_decode messageKeyBase64)) of
                             None \<Rightarrow> Placeholder
                           | Some plaintext \<Rightarrow> if plaintext = [] then Placeholder else Plain plaintext)))
         | _ \<Rightarrow> AsStored)"

text \<open>What a user sees of a stored message. Whether it is the user's own is decided by the name alone.\<close>

definition nick_in :: "string \<Rightarrow> string" where
  "nick_in a = remove_first ''@'' (before CHR '':'' a)"

definition red :: "string \<Rightarrow> string" where
  "red s = CHR 0x1B # ''[1;31m'' @ s @ CHR 0x1B # ''[0m''"

definition view_message :: "node_crypto \<Rightarrow> ui \<Rightarrow> session \<Rightarrow> string \<Rightarrow> message \<Rightarrow> message" where
  "view_message C U s userAddress m =
     (case s_kemKeyPair s of
        Some k \<Rightarrow>
          if s_isSsh s \<and> m_isE2EE m \<and> starts_with ''e2ee:v2:'' (m_content m)
          then (case open_envelope C (k_private k) (nick_in (m_from m) = nick_in userAddress) (m_content m) of
                  Plain p \<Rightarrow> m\<lparr>m_content := p\<rparr>
                | Placeholder \<Rightarrow> m\<lparr>m_content := red (ui_text U ''E2EE_DECRYPT_FAIL_PLACEHOLDER'' [])\<rparr>
                | AsStored \<Rightarrow> m)
          else m
      | None \<Rightarrow> m)"

section \<open>The round trip\<close>

definition opens_with :: "node_crypto \<Rightarrow> string \<Rightarrow> string \<Rightarrow> bool" where
  "opens_with C pub priv = (kem_ok C pub priv \<and> (\<forall>key. gcm_ok C key))"

lemma b64_no_mark: "CHR '':'' \<notin> set (b64_encode bs)" "CHR ''!'' \<notin> set (b64_encode bs)"
  using b64_encode_chars [of "CHR '':''" bs] b64_encode_chars [of "CHR ''!''" bs] by (auto simp: b64_text_def)

lemma encapsulated_b64: "encapsulateKey C seed pub = Some (k, e) \<Longrightarrow> \<exists>bs. e = b64_encode bs"
  by (auto simp: encapsulateKey_def split: option.splits if_splits)

lemma encrypt_b64:
  "CHR '':'' \<notin> set (iv (encrypt C r p k))" "CHR '':'' \<notin> set (authTag (encrypt C r p k))"
  "CHR '':'' \<notin> set (ciphertext (encrypt C r p k))" "CHR ''!'' \<notin> set (iv (encrypt C r p k))"
  "CHR ''!'' \<notin> set (authTag (encrypt C r p k))" "CHR ''!'' \<notin> set (ciphertext (encrypt C r p k))"
  by (simp_all add: encrypt_def Let_def split_beta b64_no_mark)

lemma split_cons: "c \<notin> set w \<Longrightarrow> split_on c (w @ c # s) = w # split_on c s"
  by (simp add: split_on_append [of c w s, symmetric] split_on_single)

text \<open>A wrapped key is one part of the envelope, and gives the message key back to the holder of the private key.\<close>

lemma wrapped_key:
  assumes "wrap_message_key C seed random key pub = Some w"
  obtains k e where "CHR '':'' \<notin> set w" "split_on CHR ''!'' w = [e, iv k, authTag k, ciphertext k]"
    "opens_with C pub priv \<Longrightarrow> \<exists>sec. decapsulateKey C priv e = Some sec \<and> decrypt C k (wrap_aes C sec) = Some (b64_encode key)"
proof -
  obtain sec e where e: "encapsulateKey C seed pub = Some (sec, e)"
    using assms by (auto simp: wrap_message_key_def split: option.splits)
  let ?k = "encrypt C random (b64_encode key) (wrap_aes C sec)"
  have w: "w = e @ ''!'' @ iv ?k @ ''!'' @ authTag ?k @ ''!'' @ ciphertext ?k"
    using assms e by (simp add: wrap_message_key_def Let_def)
  obtain bs where bs: "e = b64_encode bs" using encapsulated_b64 [OF e] by blast
  show ?thesis
  proof (rule that)
    show "CHR '':'' \<notin> set w" using w bs by (simp add: b64_no_mark encrypt_b64)
    show "split_on CHR ''!'' w = [e, iv ?k, authTag ?k, ciphertext ?k]"
      using w bs by (simp add: split_cons split_on_single b64_no_mark encrypt_b64)
    assume "opens_with C pub priv"
    then show "\<exists>sec. decapsulateKey C priv e = Some sec \<and> decrypt C ?k (wrap_aes C sec) = Some (b64_encode key)"
      using decapsulate_encapsulate [of C pub priv seed sec e] e by (auto simp: opens_with_def decrypt_encrypt)
  qed
qed

lemma open_sealed:
  assumes "seal_message C d rPub sPub content = Some t" "opens_with C (if isSender then sPub else rPub) priv" "content \<noteq> []"
  shows "open_envelope C priv isSender t = Plain content"
proof -
  let ?enc = "encrypt C (sd_iv d) content (KeyBuffer (sd_key d))"
  obtain r s where r: "wrap_message_key C (sd_rSeed d) (sd_rIv d) (sd_key d) rPub = Some r"
      and s: "wrap_message_key C (sd_sSeed d) (sd_sIv d) (sd_key d) sPub = Some s"
      and t: "t = ''e2ee:v2:'' @ r @ '':'' @ s @ '':'' @ iv ?enc @ '':'' @ authTag ?enc @ '':'' @ ciphertext ?enc"
    using assms(1) by (auto simp: seal_message_def Let_def split: option.splits)
  obtain kr er where kr: "CHR '':'' \<notin> set r" "split_on CHR ''!'' r = [er, iv kr, authTag kr, ciphertext kr]"
      "opens_with C rPub priv \<Longrightarrow> \<exists>sec. decapsulateKey C priv er = Some sec \<and> decrypt C kr (wrap_aes C sec) = Some (b64_encode (sd_key d))"
    using wrapped_key [OF r] by metis
  obtain ks es where ks: "CHR '':'' \<notin> set s" "split_on CHR ''!'' s = [es, iv ks, authTag ks, ciphertext ks]"
      "opens_with C sPub priv \<Longrightarrow> \<exists>sec. decapsulateKey C priv es = Some sec \<and> decrypt C ks (wrap_aes C sec) = Some (b64_encode (sd_key d))"
    using wrapped_key [OF s] by metis
  have parts: "split_on CHR '':'' t = [''e2ee'', ''v2'', r, s, iv ?enc, authTag ?enc, ciphertext ?enc]"
    using kr(1) ks(1) split_cons [of "CHR '':''" "''e2ee''"] split_cons [of "CHR '':''" "''v2''"]
    by (simp add: t split_cons split_on_single encrypt_b64)
  define e k where "e = (if isSender then es else er)" and "k = (if isSender then ks else kr)"
  have chosen: "split_on CHR ''!'' (if isSender then s else r) = [e, iv k, authTag k, ciphertext k]"
    using kr(2) ks(2) by (simp add: e_def k_def)
  obtain sec where sec: "decapsulateKey C priv e = Some sec" "decrypt C k (wrap_aes C sec) = Some (b64_encode (sd_key d))"
    using kr(3) ks(3) assms(2) by (auto simp: e_def k_def split: if_splits)
  have again: "\<lparr>ciphertext = ciphertext x, iv = iv x, authTag = authTag x\<rparr> = x" for x :: envelope by simp
  have "decrypt C ?enc (KeyBuffer (sd_key d)) = Some content"
    using assms(2) by (simp add: opens_with_def decrypt_encrypt)
  then show ?thesis
    using sec assms(3)
    by (simp add: open_envelope_def parts chosen part_def decrypt_parts_def again b64_decode_encode Let_def
        del: if_split split: option.split)
qed

lemma sealed_prefix: "seal_message C d rPub sPub content = Some t \<Longrightarrow> starts_with ''e2ee:v2:'' t"
  by (auto simp: seal_message_def Let_def starts_with_def split: option.splits)


definition sample_draw :: seal_draw where
  "sample_draw = \<lparr>sd_key = replicate 32 7, sd_iv = [1], sd_rSeed = [2], sd_rIv = [3], sd_sSeed = [4], sd_sIv = [5]\<rparr>"

definition ssh_session :: "string \<Rightarrow> string \<Rightarrow> session" where
  "ssh_session user key = (new_session sample_ui user [] [])\<lparr>s_isSsh := True, s_kemKeyPair := Some \<lparr>k_public = key, k_private = key\<rparr>\<rparr>"

lemma clear_opens: "opens_with clear_crypto k k"
  by (simp add: opens_with_def clear_kem clear_gcm)

lemma clear_seal: "\<exists>t. seal_message clear_crypto d rPub sPub content = Some t"
  by (simp add: seal_message_def wrap_message_key_def encapsulateKey_def clear_crypto_def kem_key_def KEM_ALGO_def Let_def)


end
