(* ===== verification/ClientServer.thy ===== *)
theory ClientServer
  imports Node E2ee
begin

text \<open>
  \<open>src/core/clientServer.js\<close>: the sessions of the users of this node, and what happens to them when the engine reports
  a message, a typing user or a change of presence, and to the engine when a user writes. The state is the map of
  sessions with the engine's state, so the local state the engine announces is the one of these sessions. A changed
  profile is stored and announced at once; the other requests of a session are effects.
\<close>

section \<open>State\<close>

record client_server =
  cs_sessions :: "(string, session) jsmap"
  cs_fed :: fed
  cs_timer :: bool

record server_env =
  se_fed :: fed_env
  se_ui :: ui

datatype server_effect = ToSession string session_effect | ToFed fed_effect | SetRenderTimer | RenderFull string "message list"

type_synonym server_act = "client_server \<Rightarrow> client_server \<times> server_effect list"

fun all_acts :: "server_act list \<Rightarrow> server_act" where
  "all_acts [] cs = (cs, [])"
| "all_acts (a # acts) cs = (let (cs1, e1) = a cs; (cs2, e2) = all_acts acts cs1 in (cs2, e1 @ e2))"

section \<open>Names and the local state\<close>

definition local_node :: "server_env \<Rightarrow> string" where
  "local_node E = (if fe_nodeId (se_fed E) = [] then ''local'' else fe_nodeId (se_fed E))"

definition on_this_node :: "server_env \<Rightarrow> string \<Rightarrow> string" where
  "on_this_node E user = ''@'' @ user_nick (se_fed E) user @ '':'' @ local_node E @ ''.mesh''"

definition canonical_user :: "server_env \<Rightarrow> string \<Rightarrow> string" where
  "canonical_user E user = (if ends_with ''.mesh'' user then user else on_this_node E user)"

definition getLocalOnlineUsers :: "server_env \<Rightarrow> client_server \<Rightarrow> string list" where
  "getLocalOnlineUsers E cs = map (canonical_user E) (jm_keys (cs_sessions cs))"

definition kem_public :: "session \<Rightarrow> string" where
  "kem_public s = (case s_kemKeyPair s of Some k \<Rightarrow> k_public k | None \<Rightarrow> [])"

definition getLocalMemberships :: "server_env \<Rightarrow> client_server \<Rightarrow> membership list" where
  "getLocalMemberships E cs =
     map (\<lambda>(user, s). \<lparr>mb_user = canonical_user E user, mb_channels = getMyChannels (se_ui E) s, mb_isSsh = s_isSsh s,
                        mb_kem = kem_public s\<rparr>) (cs_sessions cs)"

definition local_state_of :: "server_env \<Rightarrow> client_server \<Rightarrow> local_state" where
  "local_state_of E cs =
     \<lparr>ls_users = getLocalOnlineUsers E cs, ls_channels = [], ls_memberships = getLocalMemberships E cs\<rparr>"

text \<open>The engine's environment, with the sessions as its local state.\<close>

definition node_env :: "server_env \<Rightarrow> client_server \<Rightarrow> fed_env" where
  "node_env E cs = (se_fed E)\<lparr>fe_state := Some (local_state_of E cs)\<rparr>"

definition getOnlineUsers :: "server_env \<Rightarrow> int \<Rightarrow> client_server \<Rightarrow> string list \<times> client_server" where
  "getOnlineUsers E now cs =
     (let (us, f) = getAllOnlineUsers (node_env E cs) now (cs_fed cs) in (us, cs\<lparr>cs_fed := f\<rparr>))"

definition member_by_nick :: "string \<Rightarrow> (string, string) jsmap \<Rightarrow> (string, string) jsmap" where
  "member_by_nick m byNick =
     (let nick = nick_of m
      in case jm_get byNick nick of
           None \<Rightarrow> jm_set nick m byNick
         | Some existing \<Rightarrow>
             if existing = [] \<or> (\<not> ends_with ''.mesh'' existing \<and> ends_with ''.mesh'' m) then jm_set nick m byNick
             else byNick)"

definition server_getChannelMembers :: "server_env \<Rightarrow> int \<Rightarrow> string \<Rightarrow> client_server \<Rightarrow> string list \<times> client_server" where
  "server_getChannelMembers E now target cs =
     (if target = [] then ([], cs)
      else if isSystemConsole target \<or> isGlobalChannel target then getOnlineUsers E now cs
      else if starts_with ''@'' target then ([target], cs)
      else
        let localMembers = map (\<lambda>(user, s). on_this_node E user) (filter (\<lambda>(user, s). isMemberOf s target) (cs_sessions cs));
            (remoteMembers, f) = getChannelMembers (node_env E cs) now target (cs_fed cs)
        in (jm_values (fold member_by_nick (localMembers @ remoteMembers) []), cs\<lparr>cs_fed := f\<rparr>))"

text \<open>\<open>(parsed?.name || s.replace(/^[@#]/, '').split(':')[0]).toLowerCase()\<close>.\<close>

definition plain_name :: "server_env \<Rightarrow> string \<Rightarrow> string" where
  "plain_name E a =
     js_lower (case parse_addr (se_fed E) a of
                 Some p \<Rightarrow> pa_name p
               | None \<Rightarrow> before CHR '':'' (if starts_with ''@'' a \<or> starts_with ''#'' a then tl a else a))"

definition session_named :: "server_env \<Rightarrow> string \<Rightarrow> string \<Rightarrow> bool" where
  "session_named E target addr =
     (let clean = (if starts_with ''@'' target \<or> starts_with ''#'' target then target else ''@'' @ target)
      in js_lower addr = js_lower target \<or> js_lower addr = js_lower clean \<or> plain_name E addr = plain_name E clean)"

text \<open>The key of the session that is found.\<close>

definition findLocalSession :: "server_env \<Rightarrow> string \<Rightarrow> client_server \<Rightarrow> string option" where
  "findLocalSession E target cs =
     (if target = [] then None
      else if target \<in> set (jm_keys (cs_sessions cs)) then Some target
      else find (session_named E target) (jm_keys (cs_sessions cs)))"

section \<open>Changing a session\<close>

definition broadcast :: "server_env \<Rightarrow> int \<Rightarrow> server_act" where
  "broadcast E now cs =
     (let (f, es) = broadcastPresence (node_env E cs) now (cs_fed cs) in (cs\<lparr>cs_fed := f\<rparr>, map ToFed es))"

definition store_profile :: "server_env \<Rightarrow> string \<Rightarrow> string list \<Rightarrow> string list \<Rightarrow> client_server \<Rightarrow> client_server" where
  "store_profile E user contacts history cs =
     cs\<lparr>cs_fed := (cs_fed cs)\<lparr>f_db := updateUserProfile (ui_locale (se_ui E)) user contacts history (f_db (cs_fed cs))\<rparr>\<rparr>"

definition run_request :: "server_env \<Rightarrow> int \<Rightarrow> string \<Rightarrow> session_effect \<Rightarrow> server_act" where
  "run_request E now user e cs =
     (case e of
        ProfileChange contacts history \<Rightarrow> broadcast E now (store_profile E user contacts history cs)
      | _ \<Rightarrow> (cs, [ToSession user e]))"

definition on_session :: "server_env \<Rightarrow> int \<Rightarrow> string \<Rightarrow> session_act \<Rightarrow> server_act" where
  "on_session E now user act cs =
     (case jm_get (cs_sessions cs) user of
        None \<Rightarrow> (cs, [])
      | Some s \<Rightarrow>
          let (s1, es) = act s
          in all_acts (map (run_request E now user) es) (cs\<lparr>cs_sessions := jm_set user s1 (cs_sessions cs)\<rparr>))"

definition each_session :: "server_env \<Rightarrow> int \<Rightarrow> (string \<Rightarrow> session_act) \<Rightarrow> server_act" where
  "each_session E now act cs = all_acts (map (\<lambda>user. on_session E now user (act user)) (jm_keys (cs_sessions cs))) cs"

definition ask_render :: session_act where
  "ask_render = and_ask [RequestRender] id"

definition notifyAllSessionsRender :: "server_env \<Rightarrow> int \<Rightarrow> server_act" where
  "notifyAllSessionsRender E now = each_session E now (\<lambda>user. ask_render)"

text \<open>A session that joins, and the close handler of one that is \<open>current\<close>: still the one registered for the user.\<close>

definition add_session :: "server_env \<Rightarrow> int \<Rightarrow> string \<Rightarrow> session \<Rightarrow> server_act" where
  "add_session E now user s =
     all_acts [\<lambda>cs. (cs\<lparr>cs_sessions := jm_set user s (cs_sessions cs)\<rparr>, []),
               on_session E now user ask_render, notifyAllSessionsRender E now, broadcast E now]"

definition remove_session :: "server_env \<Rightarrow> int \<Rightarrow> string \<Rightarrow> bool \<Rightarrow> session \<Rightarrow> server_act" where
  "remove_session E now user current s =
     all_acts
       ((\<lambda>cs. (store_profile E user (s_contacts s) (s_history s) cs, [])) #
        (if current then
           [\<lambda>cs. (cs\<lparr>cs_sessions := jm_delete user (cs_sessions cs)\<rparr>, []), notifyAllSessionsRender E now,
            \<lambda>cs. let (f, es) = broadcastUserOffline (node_env E cs) now user (cs_fed cs) in (cs\<lparr>cs_fed := f\<rparr>, map ToFed es)]
         else []))"

section \<open>What the engine reports\<close>

definition moved :: "server_env \<Rightarrow> parsed_address \<Rightarrow> string \<Rightarrow> bool" where
  "moved E p a =
     (starts_with ''@'' a \<and>
      (case parse_addr (se_fed E) a of
         Some q \<Rightarrow> js_lower (pa_name q) = js_lower (pa_name p) \<and> pa_nodeId q \<noteq> pa_nodeId p
       | None \<Rightarrow> False))"

definition migrate :: "server_env \<Rightarrow> string \<Rightarrow> parsed_address \<Rightarrow> session_act" where
  "migrate E canonicalUser p s =
     (let target_moved = moved E p (s_activeTarget s);
          contacts_moved = list_ex (moved E p) (s_contacts s);
          s1 = s\<lparr>s_activeTarget := (if target_moved then canonicalUser else s_activeTarget s),
                 s_contacts := map (\<lambda>c. if moved E p c then canonicalUser else c) (s_contacts s)\<rparr>
      in (s1, (if contacts_moved then [ProfileChange (s_contacts s1) (s_history s1)] else []) @
              (if target_moved \<or> contacts_moved then [RequestRender] else [])))"

definition updateTargetMigration :: "server_env \<Rightarrow> int \<Rightarrow> string \<Rightarrow> server_act" where
  "updateTargetMigration E now canonicalUser cs =
     (case parse_addr (se_fed E) canonicalUser of
        None \<Rightarrow> (cs, [])
      | Some p \<Rightarrow>
          if \<not> truthy (pa_nodeId p) then (cs, [])
          else each_session E now (\<lambda>user. migrate E canonicalUser p) cs)"

definition on_presence_change :: "server_env \<Rightarrow> int \<Rightarrow> server_act" where
  "on_presence_change E now cs =
     (let (cs1, es) = all_acts (map (updateTargetMigration E now) (jm_keys (f_users (cs_fed cs)))) cs
      in (cs1\<lparr>cs_timer := True\<rparr>, es @ [SetRenderTimer]))"

definition render_timer :: "server_env \<Rightarrow> int \<Rightarrow> server_act" where
  "render_timer E now = notifyAllSessionsRender E now"

text \<open>A new message in \<open>target\<close>: the unread count, the bell unless it is on screen and names nobody, a redraw.\<close>

definition ring :: "server_env \<Rightarrow> string \<Rightarrow> string \<Rightarrow> session_act" where
  "ring E target content =
     one_by_one
       [silently (incrementUnread (se_ui E) target),
        \<lambda>s. if \<not> isViewingTarget (se_ui E) s target \<or> isUserMentioned s content then notifyNewMessage s else (s, []),
        ask_render]"

definition ring_members :: "server_env \<Rightarrow> int \<Rightarrow> string \<Rightarrow> string \<Rightarrow> string \<Rightarrow> server_act" where
  "ring_members E now from target content =
     each_session E now (\<lambda>user s. if user \<noteq> from \<and> isMemberOf s target then ring E target content s else (s, []))"

definition ring_user :: "server_env \<Rightarrow> int \<Rightarrow> string \<Rightarrow> string \<Rightarrow> string \<Rightarrow> server_act" where
  "ring_user E now user from content =
     on_session E now user (one_by_one [addContact (se_ui E) from, ring E from content])"

definition recipient_of :: "server_env \<Rightarrow> string \<Rightarrow> client_server \<Rightarrow> string option" where
  "recipient_of E to cs =
     (case findLocalSession E to cs of
        Some user \<Rightarrow> Some user
      | None \<Rightarrow>
          (case parse_addr (se_fed E) to of Some p \<Rightarrow> findLocalSession E (pa_name p) cs | None \<Rightarrow> None))"

definition on_message :: "server_env \<Rightarrow> int \<Rightarrow> message \<Rightarrow> server_act" where
  "on_message E now msg cs =
     (let (cs1, e1) = (if starts_with ''@'' (m_from msg) then updateTargetMigration E now (m_from msg) cs else (cs, []));
          (cs2, e2) =
            (if starts_with ''#'' (m_to msg) \<or> isGlobalChannel (m_to msg)
             then ring_members E now (m_from msg) (m_to msg) (m_content msg) cs1
             else case recipient_of E (m_to msg) cs1 of
                    None \<Rightarrow> (cs1, [])
                  | Some user \<Rightarrow> ring_user E now user (m_from msg) (m_content msg) cs1)
      in (cs2, e1 @ e2))"

definition on_typing :: "server_env \<Rightarrow> int \<Rightarrow> json \<Rightarrow> server_act" where
  "on_typing E now payload cs =
     (case (str_field payload ''to'', str_field payload ''from'') of
        (Some to, Some from) \<Rightarrow>
          (case findLocalSession E to cs of
             None \<Rightarrow> (cs, [])
           | Some user \<Rightarrow>
               on_session E now user
                 (\<lambda>s. if isSameTarget (ui_node (se_ui E)) (s_activeTarget s) from then setTyping (nick_in from) s else (s, [])) cs)
      | _ \<Rightarrow> (cs, []))"

text \<open>The engine's step, with the listeners for what it emits.\<close>

fun hear :: "server_env \<Rightarrow> int \<Rightarrow> fed_effect \<Rightarrow> server_act" where
  "hear E now (Emitted (MessageEvent m)) cs = on_message E now m cs"
| "hear E now (Emitted PresenceChange) cs = on_presence_change E now cs"
| "hear E now (Emitted (TypingEvent p)) cs = on_typing E now p cs"
| "hear E now e cs = (cs, [ToFed e])"

definition engine :: "server_env \<Rightarrow> int \<Rightarrow> (fed_env \<Rightarrow> act) \<Rightarrow> server_act" where
  "engine E now step cs =
     (let (f, es) = step (node_env E cs) (cs_fed cs) in all_acts (map (hear E now) es) (cs\<lparr>cs_fed := f\<rparr>))"

section \<open>Conversations and outgoing messages\<close>

datatype conversation = Logs "log_line list" | Messages "message list"

definition getCurrentConversation :: "server_env \<Rightarrow> string \<Rightarrow> string \<Rightarrow> log_line list \<Rightarrow> client_server \<Rightarrow> conversation" where
  "getCurrentConversation E userAddress activeTarget systemLogs cs =
     (if isSystemConsole activeTarget then Logs systemLogs
      else if activeTarget = [] then Messages []
      else
        let msgs = getConversation userAddress activeTarget 100 (f_db (cs_fed cs))
        in case jm_get (cs_sessions cs) userAddress of
             None \<Rightarrow> Messages msgs
           | Some s \<Rightarrow> Messages (map (view_message (fe_crypto (se_fed E)) (se_ui E) s userAddress) msgs))"

record outbound =
  ob_seal :: seal_draw
  ob_kemError :: string
  ob_id :: string
  ob_time :: string
  ob_remoteId :: string
  ob_remoteTime :: string
  ob_onion :: onion_env
  ob_answer :: "json option"

text \<open>Whether the recipient reads sealed messages, and with which key: of its session, its node, its stored profile.\<close>

definition recipient_security :: "server_env \<Rightarrow> string \<Rightarrow> client_server \<Rightarrow> bool \<times> string option \<times> client_server" where
  "recipient_security E raw cs =
     (let local = Option.bind (findLocalSession E raw cs) (jm_get (cs_sessions cs));
          (profile, d) = getUserProfile (ui_locale (se_ui E)) raw (f_db (cs_fed cs));
          (remote, f) = getRemoteUserSecurity (node_env E cs) raw ((cs_fed cs)\<lparr>f_db := d\<rparr>);
          kem = first_nonempty [map_option kem_public local, map_option snd remote, Some (p_kemPublicKey profile)];
          isSsh = (case local of Some s \<Rightarrow> s_isSsh s
                   | None \<Rightarrow> (case remote of Some (ssh, k) \<Rightarrow> ssh | None \<Rightarrow> truthy kem))
      in (isSsh, kem, cs\<lparr>cs_fed := f\<rparr>))"

definition warn_once :: "server_env \<Rightarrow> string \<Rightarrow> session_act" where
  "warn_once E raw s =
     (if raw \<in> set (s_warnedInsecureTargets s) then (s, [])
      else addSystemLog (se_ui E) (ui_text (se_ui E) ''E2EE_WARNING_TELNET_PEER'' [(''user'', raw)])
             (s\<lparr>s_warnedInsecureTargets := s_warnedInsecureTargets s @ [raw]\<rparr>))"

text \<open>The text that is stored and sent, and whether it is sealed. A message that cannot be sealed goes out as it is.\<close>

definition seal_outbound ::
  "server_env \<Rightarrow> int \<Rightarrow> outbound \<Rightarrow> string \<Rightarrow> parsed_address \<Rightarrow> string \<Rightarrow> client_server \<Rightarrow>
     (string \<times> bool) \<times> client_server \<times> server_effect list" where
  "seal_outbound E now ob from target content cs =
     (if pa_type target \<noteq> USER then ((content, False), cs, [])
      else
        let (isSsh, kem, cs1) = recipient_security E (pa_raw target) cs
        in case jm_get (cs_sessions cs1) from of
             None \<Rightarrow> ((content, False), cs1, [])
           | Some s \<Rightarrow>
               if \<not> s_isSsh s then ((content, False), cs1, [])
               else (case (isSsh, kem, s_kemKeyPair s) of
                       (True, Some k, Some own) \<Rightarrow>
                         (case seal_message (fe_crypto (se_fed E)) (ob_seal ob) k (k_public own) content of
                            Some sealed \<Rightarrow> ((sealed, True), cs1, [])
                          | None \<Rightarrow>
                              ((content, False),
                               on_session E now from (addSystemLog (se_ui E) (red (ui_text (se_ui E) ''E2EE_ENCRYPT_ERROR_NOTICE''
                                 [(''error'', ob_kemError ob)]))) cs1))
                     | _ \<Rightarrow> ((content, False), on_session E now from (warn_once E (pa_raw target)) cs1)))"

definition remote_message :: "outbound \<Rightarrow> string \<Rightarrow> message \<Rightarrow> message" where
  "remote_message ob to m = m\<lparr>m_id := ob_remoteId ob, m_to := to, m_timestamp := ob_remoteTime ob\<rparr>"

definition send_remote :: "server_env \<Rightarrow> int \<Rightarrow> outbound \<Rightarrow> string \<Rightarrow> message \<Rightarrow> client_server \<Rightarrow>
    send_result result \<times> client_server \<times> server_effect list" where
  "send_remote E now ob to m cs =
     (let (r, f, es) = sendRemoteMessage (node_env E cs) (ob_onion ob) (ob_answer ob) now (remote_message ob to m) (cs_fed cs);
          (cs1, es1) = all_acts (map (hear E now) es) (cs\<lparr>cs_fed := f\<rparr>)
      in (r, cs1, es1))"

definition send_channel :: "server_env \<Rightarrow> int \<Rightarrow> outbound \<Rightarrow> parsed_address \<Rightarrow> string \<Rightarrow> message \<Rightarrow> server_act" where
  "send_channel E now ob target content m cs =
     (let (cs1, e1) = ring_members E now (m_from m) (pa_raw target) content cs;
          (cs2, e2) =
            (if pa_isGlobalChannel target \<or> \<not> pa_isLocal target
             then (let (r, cs2, e2) = send_remote E now ob (pa_raw target) m cs1 in (cs2, e2))
             else (cs1, map ToFed (forwardToChannelSubscribers (pa_raw target) m 0 5 None (cs_fed cs1))))
      in (cs2, e1 @ e2))"

definition remote_name :: "server_env \<Rightarrow> parsed_address \<Rightarrow> client_server \<Rightarrow> string" where
  "remote_name E target cs =
     (if pa_isLocal target
      then (case find (\<lambda>u. case parse_addr (se_fed E) u of Some p \<Rightarrow> js_lower (pa_name p) = js_lower (pa_name target) | None \<Rightarrow> False)
                   (jm_keys (f_users (cs_fed cs))) of
              Some u \<Rightarrow> u | None \<Rightarrow> pa_raw target)
      else pa_raw target)"

definition send_private :: "server_env \<Rightarrow> int \<Rightarrow> outbound \<Rightarrow> parsed_address \<Rightarrow> string \<Rightarrow> message \<Rightarrow> server_act" where
  "send_private E now ob target content m cs =
     (case (if pa_isLocal target
            then (case findLocalSession E (pa_raw target) cs of
                    Some u \<Rightarrow> Some u | None \<Rightarrow> findLocalSession E (pa_name target) cs)
            else None) of
        Some user \<Rightarrow> ring_user E now user (m_from m) content cs
      | None \<Rightarrow>
          let to = remote_name E target cs;
              (r, cs1, e1) = send_remote E now ob to m cs;
              (cs2, e2) = (if r = Ok Queued
                           then on_session E now (m_from m)
                                  (addSystemLog (se_ui E) (ui_text (se_ui E) ''SYS_OUTBOX_QUEUED'' [(''target'', to)])) cs1
                           else (cs1, []))
          in (cs2, e1 @ e2))"

definition handleOutboundMessage ::
  "server_env \<Rightarrow> int \<Rightarrow> outbound \<Rightarrow> string \<Rightarrow> string \<Rightarrow> string \<Rightarrow> bool \<Rightarrow> bool \<Rightarrow> server_act" where
  "handleOutboundMessage E now ob from to content isAction isSnippet cs =
     (case parse_addr (se_fed E) to of
        None \<Rightarrow> (cs, [])
      | Some target \<Rightarrow>
          let ((finalContent, isE2EE), cs1, e1) = seal_outbound E now ob from target content cs;
              m = \<lparr>m_id = ob_id ob, m_from = from, m_to = pa_raw target, m_content = finalContent, m_isAction = isAction,
                   m_isSnippet = isSnippet, m_isE2EE = isE2EE, m_deleted_by = [], m_timestamp = ob_time ob\<rparr>;
              (saved, d) = saveMessage m (f_db (cs_fed cs1));
              cs2 = cs1\<lparr>cs_fed := (cs_fed cs1)\<lparr>f_db := d\<rparr>\<rparr>
          in case saved of
               None \<Rightarrow> (cs2, e1)
             | Some m' \<Rightarrow>
                 (let (cs3, e3) = (if pa_type target = CHANNEL then send_channel E now ob target content m' cs2
                                   else send_private E now ob target content m' cs2)
                  in (cs3, e1 @ e3)))"

definition close_server :: "server_env \<Rightarrow> server_act" where
  "close_server E cs =
     (cs\<lparr>cs_sessions := [], cs_timer := False\<rparr>,
      concat (map (\<lambda>user. [ToSession user (SocketWrite (ui_text (se_ui E) ''TUI_SERVER_SHUTDOWN'' [])), ToSession user (SocketEnd [])])
                  (jm_keys (cs_sessions cs))))"

section \<open>Every session stays usable, and the engine within its bounds\<close>

text \<open>
  The contacts are left out: a user that moves to another node may end up twice in the contacts of a session
  (\<open>migrate\<close>).
\<close>

definition session_fine :: "session \<Rightarrow> bool" where
  "session_fine s = (line_ok s \<and> history_ok s \<and> tabs_ok s \<and> screen_ok s)"

definition server_inv :: "server_env \<Rightarrow> client_server \<Rightarrow> bool" where
  "server_inv E cs =
     (jm_ok (cs_sessions cs) \<and> list_all (\<lambda>(user, s). session_fine s) (cs_sessions cs) \<and> node_inv (se_fed E) (cs_fed cs))"

definition safe_act :: "session_act \<Rightarrow> bool" where
  "safe_act act = (\<forall>s. session_fine s \<longrightarrow> session_fine (fst (act s)))"

lemma safe_actD: "safe_act act \<Longrightarrow> session_fine s \<Longrightarrow> session_fine (fst (act s))"
  by (simp add: safe_act_def)

named_theorems safe \<open>session operations that keep a session usable\<close>

lemmas session_fine_defs = session_fine_def line_ok_def history_ok_def tabs_ok_def screen_ok_def

lemma safe_one_by_one [safe]: "list_all safe_act acts \<Longrightarrow> safe_act (one_by_one acts)"
proof (induction acts)
  case (Cons a acts)
  then show ?case by (auto simp: safe_act_def split_beta Let_def)
qed (simp add: safe_act_def)

lemma safe_basic [safe]:
  "safe_act ask_render" "safe_act notifyNewMessage" "safe_act notifyProfileChange" "safe_act (setTyping u)"
  "safe_act (\<lambda>s. (s, []))" "safe_act (silently (incrementUnread U t))"
  by (simp_all add: safe_act_def session_fine_defs ask_render_def and_ask_def notifyNewMessage_def notifyProfileChange_def
      setTyping_def silently_def incrementUnread_def Let_def)

lemma safe_if [safe]: "safe_act f \<Longrightarrow> safe_act g \<Longrightarrow> safe_act (\<lambda>s. if P s then f s else g s)"
  by (simp add: safe_act_def)

lemma safe_contact [safe]: "safe_act (addContact U t)"
  by (simp add: safe_act_def addContact_def silently_def notifyProfileChange_def and_ask_def session_fine_defs)

lemma safe_log [safe]: "safe_act (addSystemLog U c)"
proof -
  have inc: "s_systemLogs (incrementUnread U t x) = s_systemLogs x" for t x by (simp add: incrementUnread_def Let_def)
  have "session_fine (incrementUnread U t (s\<lparr>s_systemLogs := ls\<rparr>)\<lparr>s_systemLogs := ks\<rparr>)" if "session_fine s" "length ks \<le> MAX_LOGS" for s t ls ks
    using that by (simp add: session_fine_defs incrementUnread_def Let_def)
  moreover have "session_fine (incrementUnread U t (s\<lparr>s_systemLogs := ls\<rparr>))" if "session_fine s" "length ls \<le> MAX_LOGS" for s t ls
    using that by (simp add: session_fine_defs incrementUnread_def Let_def)
  moreover have "session_fine (s\<lparr>s_systemLogs := ls\<rparr>)" if "session_fine s" "length ls \<le> MAX_LOGS" for s ls
    using that by (simp add: session_fine_defs)
  moreover have "length (s_systemLogs s) \<le> MAX_LOGS" if "session_fine s" for s using that by (simp add: session_fine_defs)
  ultimately show ?thesis by (auto simp: safe_act_def addSystemLog_def inc Let_def)
qed

lemma safe_warn [safe]: "safe_act (warn_once E raw)"
proof -
  have "session_fine (s\<lparr>s_warnedInsecureTargets := x\<rparr>)" if "session_fine s" for s x using that by (simp add: session_fine_defs)
  then show ?thesis using safe_log by (simp add: safe_act_def warn_once_def)
qed

lemma safe_migrate [safe]: "safe_act (migrate E u p)"
  by (simp add: safe_act_def migrate_def Let_def session_fine_defs)

lemma safe_ring [safe]: "safe_act (ring E t c)"
  unfolding ring_def by (intro safe_one_by_one) (simp add: safe)

text \<open>The engine's environment differs from step to step only in the local state, which its invariant does not read.\<close>

lemma node_inv_env [simp]: "node_inv (node_env E cs) f = node_inv (se_fed E) f"
proof -
  have "rdv_ok (node_env E cs) v = rdv_ok (se_fed E) v" for v
    by (cases v) (simp add: node_env_def tunnel_limit_def max_relays_def)
  then show ?thesis by (simp add: node_inv_def rdv_inv_def)
qed

definition keeps :: "server_env \<Rightarrow> server_act \<Rightarrow> bool" where
  "keeps E a = (\<forall>cs. server_inv E cs \<longrightarrow> server_inv E (fst (a cs)))"

lemma keepsD: "keeps E a \<Longrightarrow> server_inv E cs \<Longrightarrow> server_inv E (fst (a cs))"
  by (simp add: keeps_def)

lemma keeps_all: "list_all (keeps E) acts \<Longrightarrow> keeps E (all_acts acts)"
proof (induction acts)
  case (Cons a acts)
  then show ?case by (auto simp: keeps_def split_beta Let_def)
qed (simp add: keeps_def)

lemma keeps_fed: "server_inv E cs \<Longrightarrow> node_inv (se_fed E) f \<Longrightarrow> server_inv E (cs\<lparr>cs_fed := f\<rparr>)"
  by (simp add: server_inv_def)

lemma inv_fed: "server_inv E cs \<Longrightarrow> node_inv (se_fed E) (cs_fed cs)"
  by (simp add: server_inv_def)

lemma inv_db: "node_inv E f \<Longrightarrow> messages d = messages (f_db f) \<Longrightarrow> node_inv E (f\<lparr>f_db := d\<rparr>)"
  by (rule inv_core [OF core_db])

lemma profile_messages [simp]:
  "messages (updateUserProfile loc u c h d) = messages d" "messages (snd (getUserProfile loc u d)) = messages d"
  by (simp_all add: updateUserProfile_def upsert_profile_def getUserProfile_def Let_def split: option.split)

lemma keeps_broadcast: "keeps E (broadcast E now)"
proof -
  have "node_inv (se_fed E) (fst (broadcastPresence (node_env E cs) now f))" if "node_inv (se_fed E) f" for cs f
    using that by (rule inv_core [rotated]) (simp add: quiet)
  then show ?thesis by (simp add: keeps_def broadcast_def split_beta keeps_fed inv_fed)
qed

lemma keeps_store: "server_inv E cs \<Longrightarrow> server_inv E (store_profile E u c h cs)"
  unfolding store_profile_def by (intro keeps_fed inv_db) (simp_all add: inv_fed)

lemma keeps_request: "keeps E (run_request E now user e)"
  unfolding keeps_def
proof (intro allI impI)
  fix cs assume "server_inv E cs"
  then show "server_inv E (fst (run_request E now user e cs))"
    using keepsD [OF keeps_broadcast, of E _ now] keeps_store
    by (cases e) (simp_all add: run_request_def)
qed

lemma keeps_session: "safe_act act \<Longrightarrow> keeps E (on_session E now user act)"
  unfolding keeps_def
proof (intro allI impI)
  fix cs assume a: "safe_act act" and cs: "server_inv E cs"
  show "server_inv E (fst (on_session E now user act cs))"
  proof (cases "jm_get (cs_sessions cs) user")
    case (Some s)
    have "session_fine s" using Some cs by (auto simp: server_inv_def list_all_iff dest!: map_of_SomeD)
    then have s: "session_fine (fst (act s))" by (rule safe_actD [OF a])
    have "list_all (\<lambda>(user, s). session_fine s) (jm_set user (fst (act s)) (cs_sessions cs))"
      using cs s by (auto simp: server_inv_def list_all_iff dest!: jm_set_mem)
    then have "server_inv E (cs\<lparr>cs_sessions := jm_set user (fst (act s)) (cs_sessions cs)\<rparr>)"
      using cs by (simp add: server_inv_def jsmap_simps)
    moreover have "keeps E (all_acts (map (run_request E now user) es))" for es
      by (intro keeps_all) (simp add: list_all_iff keeps_request)
    ultimately show ?thesis using Some by (simp add: on_session_def split_beta keepsD)
  qed (use cs in \<open>simp add: on_session_def\<close>)
qed

lemma keeps_each: "(\<And>user. safe_act (act user)) \<Longrightarrow> keeps E (each_session E now act)"
proof -
  assume a: "\<And>user. safe_act (act user)"
  have "keeps E (all_acts (map (\<lambda>user. on_session E now user (act user)) us))" for us
    by (intro keeps_all) (simp add: list_all_iff keeps_session [OF a])
  then show ?thesis by (simp add: keeps_def each_session_def del: map_map)
qed

lemma keeps_render: "keeps E (notifyAllSessionsRender E now)"
  unfolding notifyAllSessionsRender_def by (rule keeps_each) (rule safe_basic)

lemma keeps_migration: "keeps E (updateTargetMigration E now u)"
  using keepsD [OF keeps_each [OF safe_migrate], of E _ now]
  by (simp add: keeps_def updateTargetMigration_def split: option.split)

lemma keeps_presence: "keeps E (on_presence_change E now)"
proof -
  have "keeps E (all_acts (map (updateTargetMigration E now) us))" for us
    by (intro keeps_all) (simp add: list_all_iff keeps_migration)
  moreover have "server_inv E (cs\<lparr>cs_timer := b\<rparr>) = server_inv E cs" for cs b by (simp add: server_inv_def)
  ultimately show ?thesis by (simp add: keeps_def on_presence_change_def split_beta del: map_map)
qed

lemma keeps_ring: "keeps E (ring_members E now from t c)" "keeps E (ring_user E now user from c)"
proof -
  have "safe_act (\<lambda>s. if user \<noteq> from \<and> isMemberOf s t then ring E t c s else (s, []))" for user
    by (intro safe_if safe_ring safe_basic)
  then show "keeps E (ring_members E now from t c)" unfolding ring_members_def by (rule keeps_each)
  show "keeps E (ring_user E now user from c)"
    unfolding ring_user_def by (intro keeps_session safe_one_by_one) (simp add: safe)
qed

lemma keeps_message: "keeps E (on_message E now m)"
  using keepsD [OF keeps_migration, of E _ now] keepsD [OF keeps_ring(1), of E _ now] keepsD [OF keeps_ring(2), of E _ now]
  by (simp add: keeps_def on_message_def split_beta Let_def split: option.split)

lemma keeps_typing: "keeps E (on_typing E now p)"
proof -
  have "safe_act (\<lambda>s. if P s then setTyping u s else (s, []))" for P u by (intro safe_if safe_basic)
  note k = keepsD [OF keeps_session [OF this], of E _ now]
  show ?thesis by (simp add: keeps_def on_typing_def k split: option.split)
qed

lemma keeps_hear: "keeps E (hear E now e)"
proof (cases e)
  case (Emitted v)
  then show ?thesis using keeps_message [of E now] keeps_presence [of E now] keeps_typing [of E now]
    by (cases v) (simp_all add: keeps_def)
qed (simp_all add: keeps_def)

lemma keeps_heard: "keeps E (all_acts (map (hear E now) es))"
  by (intro keeps_all) (simp add: list_all_iff keeps_hear)

lemma keeps_remote:
  assumes "server_inv E cs"
  shows "server_inv E (fst (snd (send_remote E now ob to m cs)))"
proof -
  let ?f = "fst (snd (sendRemoteMessage (node_env E cs) (ob_onion ob) (ob_answer ob) now (remote_message ob to m) (cs_fed cs)))"
  have "node_inv (node_env E cs) ?f" by (rule inv_user) (simp add: inv_fed [OF assms])
  then have "server_inv E (cs\<lparr>cs_fed := ?f\<rparr>)" using assms by (simp add: keeps_fed)
  then show ?thesis by (simp add: send_remote_def split_beta Let_def keepsD [OF keeps_heard])
qed

lemma security_messages: "messages (f_db (snd (getRemoteUserSecurity E u f))) = messages (f_db f) \<and>
    core (snd (getRemoteUserSecurity E u f)) = core f"
  by (auto simp: getRemoteUserSecurity_def Let_def split_beta core_db split: option.split)

lemma keeps_security:
  assumes "server_inv E cs"
  shows "server_inv E (snd (snd (recipient_security E raw cs)))"
proof -
  have "node_inv (se_fed E) ((cs_fed cs)\<lparr>f_db := snd (getUserProfile l raw (f_db (cs_fed cs)))\<rparr>)" for l
    by (rule inv_db) (simp_all add: inv_fed [OF assms])
  then have "node_inv (se_fed E) (snd (getRemoteUserSecurity F raw ((cs_fed cs)\<lparr>f_db := snd (getUserProfile l raw (f_db (cs_fed cs)))\<rparr>)))" for F l
    by (rule inv_core [OF security_messages [THEN conjunct2]])
  then show ?thesis using assms by (simp add: recipient_security_def split_beta Let_def keeps_fed)
qed

lemma keeps_seal:
  assumes "server_inv E cs"
  shows "server_inv E (fst (snd (seal_outbound E now ob from target content cs)))"
  using assms keeps_security [OF assms] keepsD [OF keeps_session [OF safe_log], of E _ now "from"]
    keepsD [OF keeps_session [OF safe_warn], of E _ now "from"]
  by (simp add: seal_outbound_def split_beta Let_def split: option.split bool.split prod.split)

lemma keeps_send: "keeps E (send_channel E now ob target content m)" "keeps E (send_private E now ob target content m)"
  using keepsD [OF keeps_ring(1), of E _ now] keepsD [OF keeps_ring(2), of E _ now] keeps_remote [of E _ now ob]
    keepsD [OF keeps_session [OF safe_log], of E _ now]
  by (simp_all add: keeps_def send_channel_def send_private_def split_beta Let_def split: option.split)

lemma keeps_outbound: "keeps E (handleOutboundMessage E now ob from to content isAction isSnippet)"
  unfolding keeps_def
proof (intro allI impI)
  fix cs assume cs: "server_inv E cs"
  show "server_inv E (fst (handleOutboundMessage E now ob from to content isAction isSnippet cs))"
  proof (cases "parse_addr (se_fed E) to")
    case (Some target)
    obtain t sealed cs1 e1 where s: "seal_outbound E now ob from target content cs = ((t, sealed), cs1, e1)"
      by (metis prod.exhaust)
    have cs1: "server_inv E cs1" using keeps_seal [OF cs, of now ob "from" target content] s by simp
    have saved: "server_inv E (cs1\<lparr>cs_fed := (cs_fed cs1)\<lparr>f_db := snd (saveMessage m (f_db (cs_fed cs1)))\<rparr>\<rparr>)" for m
      by (intro keeps_fed cs1 inv_saved) (simp_all add: inv_fed [OF cs1])
    show ?thesis
      using keepsD [OF keeps_send(1) saved] keepsD [OF keeps_send(2) saved] saved
      by (simp add: handleOutboundMessage_def Some s split_beta Let_def split: option.split)
  qed (use cs in \<open>simp add: handleOutboundMessage_def\<close>)
qed

lemma keeps_add:
  assumes "session_fine s"
  shows "keeps E (add_session E now user s)"
proof -
  have "server_inv E (cs\<lparr>cs_sessions := jm_set user s (cs_sessions cs)\<rparr>)" if "server_inv E cs" for cs
    using that assms by (auto simp: server_inv_def list_all_iff dest!: jm_set_mem)
  then have "keeps E (\<lambda>cs. (cs\<lparr>cs_sessions := jm_set user s (cs_sessions cs)\<rparr>, []))" by (simp add: keeps_def)
  then show ?thesis unfolding add_session_def
    by (intro keeps_all) (simp add: keeps_render keeps_broadcast keeps_session safe)
qed

lemma keeps_offline: "server_inv E cs \<Longrightarrow> server_inv E (cs\<lparr>cs_fed := fst (broadcastUserOffline F now user (cs_fed cs))\<rparr>)"
  by (intro keeps_fed inv_core [OF core_small_handlers(5)]) (simp_all add: inv_fed)

lemma keeps_remove: "keeps E (remove_session E now user current s)"
proof -
  have "server_inv E (cs\<lparr>cs_sessions := jm_delete user (cs_sessions cs)\<rparr>)" if "server_inv E cs" for cs
    using that by (auto simp: server_inv_def list_all_iff AList.delete_eq)
  then have "keeps E (\<lambda>cs. (cs\<lparr>cs_sessions := jm_delete user (cs_sessions cs)\<rparr>, []))" by (simp add: keeps_def)
  moreover have "keeps E (\<lambda>cs. (store_profile E user c h cs, []))" for c h by (simp add: keeps_def keeps_store)
  moreover have "keeps E (\<lambda>cs. let (f, es) = broadcastUserOffline (node_env E cs) now user (cs_fed cs) in (cs\<lparr>cs_fed := f\<rparr>, map ToFed es))"
    by (simp add: keeps_def split_beta Let_def keeps_offline)
  ultimately show ?thesis unfolding remove_session_def by (intro keeps_all) (simp add: keeps_render)
qed

definition new_server :: "fed \<Rightarrow> client_server" where
  "new_server f = \<lparr>cs_sessions = [], cs_fed = f, cs_timer = False\<rparr>"

definition sample_server :: server_env where
  "sample_server = \<lparr>se_fed = sample_node, se_ui = sample_ui\<rparr>"

section \<open>A private message between two users of this node\<close>

lemma broadcast_messages [simp]: "messages (f_db (fst (broadcastPresence E now f))) = messages (f_db f)"
  by (simp add: broadcastPresence_state broadcastPresenceAnnounce_def createPresenceAnnouncePayload_def
      touch_tunnel_users_def Let_def)

definition stored_messages :: "client_server \<Rightarrow> message list" where
  "stored_messages cs = messages (f_db (cs_fed cs))"

definition ends_of :: "client_server \<Rightarrow> string \<Rightarrow> (bool \<times> kem_pair option) option" where
  "ends_of cs user = map_option (\<lambda>s. (s_isSsh s, s_kemKeyPair s)) (jm_get (cs_sessions cs) user)"

definition leaves_mail :: "server_act \<Rightarrow> bool" where
  "leaves_mail a = (\<forall>cs. stored_messages (fst (a cs)) = stored_messages cs \<and> ends_of (fst (a cs)) = ends_of cs)"

lemma mail_all: "list_all leaves_mail acts \<Longrightarrow> leaves_mail (all_acts acts)"
proof (induction acts)
  case (Cons a acts)
  then show ?case by (simp add: leaves_mail_def split_beta Let_def)
qed (simp add: leaves_mail_def)

lemma mail_request: "leaves_mail (run_request E now user e)"
  by (cases e) (simp_all add: leaves_mail_def run_request_def broadcast_def store_profile_def stored_messages_def ends_of_def
      split_beta Let_def fun_eq_iff)

definition keeps_ends :: "session_act \<Rightarrow> bool" where
  "keeps_ends act = (\<forall>s. s_isSsh (fst (act s)) = s_isSsh s \<and> s_kemKeyPair (fst (act s)) = s_kemKeyPair s)"

lemma mail_session: "keeps_ends act \<Longrightarrow> leaves_mail (on_session E now user act)"
  unfolding leaves_mail_def
proof (intro allI)
  fix cs assume a: "keeps_ends act"
  show "stored_messages (fst (on_session E now user act cs)) = stored_messages cs \<and>
      ends_of (fst (on_session E now user act cs)) = ends_of cs"
  proof (cases "jm_get (cs_sessions cs) user")
    case (Some s)
    have "leaves_mail (all_acts (map (run_request E now user) es))" for es
      by (intro mail_all) (simp add: list_all_iff mail_request)
    moreover have "ends_of (cs\<lparr>cs_sessions := jm_set user (fst (act s)) (cs_sessions cs)\<rparr>) = ends_of cs"
      using a Some by (auto simp: ends_of_def fun_eq_iff jsmap_simps keeps_ends_def)
    ultimately show ?thesis using Some
      by (simp add: on_session_def split_beta leaves_mail_def) (simp add: stored_messages_def)
  qed (simp add: on_session_def)
qed

lemma ends_one_by_one: "list_all keeps_ends acts \<Longrightarrow> keeps_ends (one_by_one acts)"
proof (induction acts)
  case (Cons a acts)
  then show ?case by (simp add: keeps_ends_def split_beta Let_def)
qed (simp add: keeps_ends_def)

lemma ends_basic:
  "keeps_ends ask_render" "keeps_ends (addContact U t)" "keeps_ends (silently (incrementUnread U t))"
  "keeps_ends (\<lambda>s. if P s then notifyNewMessage s else (s, []))" "keeps_ends (addSystemLog U c)"
  by (simp_all add: keeps_ends_def ask_render_def and_ask_def addContact_def silently_def notifyProfileChange_def
      incrementUnread_def notifyNewMessage_def addSystemLog_def Let_def)

lemma mail_ring_user: "leaves_mail (ring_user E now user sender content)"
  unfolding ring_user_def ring_def
  by (intro mail_session ends_one_by_one) (simp add: ends_basic ends_one_by_one)

lemma find_frame: "findLocalSession E t (cs\<lparr>cs_fed := f\<rparr>) = findLocalSession E t cs"
proof -
  have s: "cs_sessions (cs\<lparr>cs_fed := f\<rparr>) = cs_sessions cs" by simp
  show ?thesis unfolding findLocalSession_def s ..
qed

text \<open>The handler once the text is sealed and the message stored.\<close>

lemma outbound_stored:
  assumes "parse_addr (se_fed E) to = Some target" "seal_outbound E now ob sender target content cs = ((final, sealed), cs1, e1)"
    and "saveMessage \<lparr>m_id = ob_id ob, m_from = sender, m_to = pa_raw target, m_content = final, m_isAction = isAction,
      m_isSnippet = isSnippet, m_isE2EE = sealed, m_deleted_by = [], m_timestamp = ob_time ob\<rparr> (f_db (cs_fed cs1)) = (Some m, d)"
    and "cs2 = cs1\<lparr>cs_fed := (cs_fed cs1)\<lparr>f_db := d\<rparr>\<rparr>"
  shows "fst (handleOutboundMessage E now ob sender to content isAction isSnippet cs) =
    fst (if pa_type target = CHANNEL then send_channel E now ob target content m cs2 else send_private E now ob target content m cs2)"
  using assms by (simp add: handleOutboundMessage_def split_beta Let_def)

lemma seal_local:
  assumes "parse_addr (se_fed E) to = Some target" "pa_type target = USER" "findLocalSession E (pa_raw target) cs = Some user"
    and "jm_get (cs_sessions cs) user = Some rs" "s_isSsh rs" "s_kemKeyPair rs = Some \<lparr>k_public = rPub, k_private = rPriv\<rparr>" "rPub \<noteq> []"
    and "jm_get (cs_sessions cs) sender = Some ss" "s_isSsh ss" "s_kemKeyPair ss = Some \<lparr>k_public = sPub, k_private = sPriv\<rparr>"
    and "seal_message (fe_crypto (se_fed E)) (ob_seal ob) rPub sPub content = Some sealed"
  shows "\<exists>f. seal_outbound E now ob sender target content cs = ((sealed, True), cs\<lparr>cs_fed := f\<rparr>, []) \<and>
    messages (f_db f) = messages (f_db (cs_fed cs))"
proof -
  let ?d = "snd (getUserProfile (ui_locale (se_ui E)) (pa_raw target) (f_db (cs_fed cs)))"
  let ?f = "snd (getRemoteUserSecurity (node_env E cs) (pa_raw target) ((cs_fed cs)\<lparr>f_db := ?d\<rparr>))"
  have "recipient_security E (pa_raw target) cs = (True, Some rPub, cs\<lparr>cs_fed := ?f\<rparr>)"
    using assms(3-7) by (simp add: recipient_security_def split_beta Let_def first_nonempty_def kem_public_def truthy_def)
  then have "seal_outbound E now ob sender target content cs = ((sealed, True), cs\<lparr>cs_fed := ?f\<rparr>, [])"
    using assms(2,8-11) by (simp add: seal_outbound_def)
  moreover have "messages (f_db ?f) = messages (f_db (cs_fed cs))" by (simp add: security_messages)
  ultimately show ?thesis by blast
qed

lemma user_address:
  assumes "starts_with ''@'' b"
  shows "b \<noteq> []" "\<not> starts_with ''#'' b" "\<not> isGlobalChannel b" "\<not> isSystemConsole b" "\<not> contains_like b []"
    "\<not> contains_like (sql_lower b) []" "\<not> contains_like (sql_lower (user_prefix b)) []"
proof -
  obtain r where b: "b = CHR ''@'' # r" using assms by (cases b) (auto simp: starts_with_def)
  show "b \<noteq> []" "\<not> starts_with ''#'' b" using b by (simp_all add: starts_with_def)
  have "\<exists>t. js_lower (js_trim b) = CHR ''@'' # t"
  proof -
    have "\<exists>t. js_trim b = CHR ''@'' # t"
      unfolding b by (simp add: js_trim_def js_space_def dropWhile_append) (metis rev_rev_ident)
    then show ?thesis by (auto simp: js_lower_def js_lower_char_def)
  qed
  then obtain t where t: "js_lower (js_trim b) = CHR ''@'' # t" by blast
  then show "\<not> isGlobalChannel b" "\<not> isSystemConsole b" by (simp_all add: isGlobalChannel_def isSystemConsole_def Let_def)
  show "\<not> contains_like b []" "\<not> contains_like (sql_lower b) []" "\<not> contains_like (sql_lower (user_prefix b)) []"
    by (simp_all add: b sql_lower_def ascii_lower_def)
qed

lemma sent_is_listed:
  assumes "starts_with ''@'' a" "starts_with ''@'' b" "m_deleted_by m = []" "(m_from m, m_to m) = (a, b) \<or> (m_from m, m_to m) = (b, a)"
    "messages (f_db (cs_fed cs)) = ms @ [m]" "jm_get (cs_sessions cs) a = Some s"
  shows "\<exists>shown. getCurrentConversation E a b logs cs =
    Messages (shown @ [view_message (fe_crypto (se_fed E)) (se_ui E) s a m])"
proof -
  note A = user_address [OF assms(1)] and B = user_address [OF assms(2)]
  have "conversation_matches a b m"
    using A B assms(3,4) by (auto simp: conversation_matches_def names_lower_def sql_lower_def [of "[]"])
  moreover have "last_n 100 (xs @ [m]) = last_n 99 xs @ [m]" for xs :: "message list" by (simp add: last_n_def)
  ultimately show ?thesis using A B assms(5,6) by (simp add: getCurrentConversation_def getConversation_def)
qed

lemma ends_session:
  assumes "ends_of cs' = ends_of cs" "jm_get (cs_sessions cs) u = Some s"
  obtains s' where "jm_get (cs_sessions cs') u = Some s'" "s_isSsh s' = s_isSsh s" "s_kemKeyPair s' = s_kemKeyPair s"
  using fun_cong [OF assms(1), of u] assms(2) by (auto simp: ends_of_def)

text \<open>
  C11. A private message between two users who are both logged in here over SSH is stored once, sealed, and both find it
  at the end of their conversation with the other, as it was written.
\<close>

theorem private_message_is_sealed_and_read:
  assumes "parse_addr (se_fed E) to = Some target" "pa_type target = USER" "pa_isLocal target"
    and "findLocalSession E (pa_raw target) cs = Some (pa_raw target)"
    and "jm_get (cs_sessions cs) (pa_raw target) = Some rs" "s_isSsh rs"
    and "s_kemKeyPair rs = Some \<lparr>k_public = rPub, k_private = rPriv\<rparr>" "rPub \<noteq> []" "opens_with (fe_crypto (se_fed E)) rPub rPriv"
    and "jm_get (cs_sessions cs) sender = Some ss" "s_isSsh ss"
    and "s_kemKeyPair ss = Some \<lparr>k_public = sPub, k_private = sPriv\<rparr>" "opens_with (fe_crypto (se_fed E)) sPub sPriv"
    and "seal_message (fe_crypto (se_fed E)) (ob_seal ob) rPub sPub content = Some sealed" "content \<noteq> []"
    and "ob_id ob \<notin> m_id ` set (stored_messages cs)"
    and "starts_with ''@'' sender" "starts_with ''@'' (pa_raw target)" "nick_in sender \<noteq> nick_in (pa_raw target)"
    and "fst (handleOutboundMessage E now ob sender to content isAction isSnippet cs) = cs'"
  shows "\<exists>m before_r before_s. stored_messages cs' = stored_messages cs @ [m] \<and> m_content m = sealed \<and> m_isE2EE m \<and>
    getCurrentConversation E (pa_raw target) sender logs cs' = Messages (before_r @ [m\<lparr>m_content := content\<rparr>]) \<and>
    getCurrentConversation E sender (pa_raw target) logs cs' = Messages (before_s @ [m\<lparr>m_content := content\<rparr>])"
proof -
  define m where "m = \<lparr>m_id = ob_id ob, m_from = sender, m_to = pa_raw target, m_content = sealed, m_isAction = isAction,
    m_isSnippet = isSnippet, m_isE2EE = True, m_deleted_by = [], m_timestamp = ob_time ob\<rparr>"
  obtain f where f: "seal_outbound E now ob sender target content cs = ((sealed, True), cs\<lparr>cs_fed := f\<rparr>, [])"
      "messages (f_db f) = messages (f_db (cs_fed cs))"
    using seal_local [OF assms(1,2,4,5,6,7,8,10,11,12,14)] by blast
  let ?d = "snd (saveMessage m (f_db f))"
  let ?cs1 = "cs\<lparr>cs_fed := f\<lparr>f_db := ?d\<rparr>\<rparr>"
  have saved: "saveMessage m (f_db f) = (Some m, ?d)" "messages ?d = stored_messages cs @ [m]"
    using assms(16) f(2) by (simp_all add: saveMessage_def m_def stored_messages_def Let_def)
  have find: "findLocalSession E (pa_raw target) ?cs1 = Some (pa_raw target)"
    using assms(4) by (simp add: find_frame)
  have cs': "cs' = fst (ring_user E now (pa_raw target) sender content ?cs1)"
  proof -
    have "m_from m = sender" by (simp add: m_def)
    then have "fst (send_private E now ob target content m ?cs1) = fst (ring_user E now (pa_raw target) sender content ?cs1)"
      using assms(3) find by (simp add: send_private_def)
    moreover have "cs' = fst (if pa_type target = CHANNEL then send_channel E now ob target content m ?cs1
        else send_private E now ob target content m ?cs1)"
      using outbound_stored [OF assms(1) f(1), of isAction isSnippet m ?d ?cs1] saved(1) assms(20) by (simp add: m_def)
    ultimately show ?thesis using assms(2) by simp
  qed
  have "stored_messages cs' = stored_messages ?cs1" "ends_of cs' = ends_of ?cs1"
    using mail_ring_user [of E now "pa_raw target" sender content] by (simp_all add: cs' leaves_mail_def)
  then have st: "stored_messages cs' = stored_messages cs @ [m]" and ends: "ends_of cs' = ends_of cs"
    using saved(2) by (simp_all add: stored_messages_def ends_of_def fun_eq_iff)
  obtain r' where r': "jm_get (cs_sessions cs') (pa_raw target) = Some r'" "s_isSsh r' = s_isSsh rs" "s_kemKeyPair r' = s_kemKeyPair rs"
    using ends assms(5) by (rule ends_session)
  obtain s' where s': "jm_get (cs_sessions cs') sender = Some s'" "s_isSsh s' = s_isSsh ss" "s_kemKeyPair s' = s_kemKeyPair ss"
    using ends assms(10) by (rule ends_session)
  have "view_message (fe_crypto (se_fed E)) (se_ui E) r' (pa_raw target) m = m\<lparr>m_content := content\<rparr>"
    using open_sealed [OF assms(14), of False rPriv] assms(6,7,9,15,19) r' sealed_prefix [OF assms(14)]
    by (simp add: view_message_def m_def)
  moreover have "view_message (fe_crypto (se_fed E)) (se_ui E) s' sender m = m\<lparr>m_content := content\<rparr>"
    using open_sealed [OF assms(14), of True sPriv] assms(11,12,13,15) s' sealed_prefix [OF assms(14)]
    by (simp add: view_message_def m_def)
  moreover have db: "messages (f_db (cs_fed cs')) = stored_messages cs @ [m]" using st by (simp add: stored_messages_def)
  moreover have "m_from m = sender" "m_to m = pa_raw target" "m_deleted_by m = []" "m_content m = sealed" "m_isE2EE m"
    by (simp_all add: m_def)
  ultimately show ?thesis
    using sent_is_listed [OF assms(18,17), of m cs' "stored_messages cs" r' E logs]
      sent_is_listed [OF assms(17,18), of m cs' "stored_messages cs" s' E logs] r'(1) s'(1) st by fastforce
qed

definition two_sessions :: client_server where
  "two_sessions = (new_server (sample_fed sample_node))
     \<lparr>cs_sessions := [(''@ann:n.mesh'', ssh_session ''@ann:n.mesh'' ''ak''), (''@bob:n.mesh'', ssh_session ''@bob:n.mesh'' ''bk'')]\<rparr>"

definition sample_outbound :: outbound where
  "sample_outbound = \<lparr>ob_seal = sample_draw, ob_kemError = [], ob_id = ''1'', ob_time = ''t'', ob_remoteId = ''2'',
     ob_remoteTime = ''t'', ob_onion = undefined, ob_answer = None\<rparr>"

lemma sample_parse: "parse_addr sample_node ''@bob'' = Some (mesh_result USER ''@'' ''bob'' ''n'' True)"
  by (simp add: parse_addr_def parse_def untargeted_def setLocalNodeId_def js_trim_def js_space_def js_lower_def
      js_lower_char_def isGlobalChannel_def starts_with_def Let_def)

theorem private_message_is_sealed_and_read_witness:
  "\<exists>m. stored_messages (fst (handleOutboundMessage sample_server 5 sample_outbound ''@ann:n.mesh'' ''@bob'' ''hi'' False False two_sessions)) = [m] \<and>
    m_isE2EE m \<and> getCurrentConversation sample_server ''@bob:n.mesh'' ''@ann:n.mesh'' []
      (fst (handleOutboundMessage sample_server 5 sample_outbound ''@ann:n.mesh'' ''@bob'' ''hi'' False False two_sessions)) =
      Messages [m\<lparr>m_content := ''hi''\<rparr>]"
proof -
  let ?t = "mesh_result USER ''@'' ''bob'' ''n'' True"
  let ?cs = "fst (handleOutboundMessage sample_server 5 sample_outbound ''@ann:n.mesh'' ''@bob'' ''hi'' False False two_sessions)"
  have raw: "pa_raw ?t = ''@bob:n.mesh''" "pa_type ?t = USER" "pa_isLocal ?t" by (simp_all add: mesh_result_def)
  have crypto: "fe_crypto (se_fed sample_server) = clear_crypto" by (simp add: sample_server_def)
  obtain sealed where sealed: "seal_message clear_crypto (ob_seal sample_outbound) ''bk'' ''ak'' ''hi'' = Some sealed"
    using clear_seal by blast
  have none: "stored_messages two_sessions = []"
    by (simp add: stored_messages_def two_sessions_def new_server_def sample_fed_def new_fed_def empty_db_def)
  have found: "jm_get (cs_sessions two_sessions) ''@ann:n.mesh'' = Some (ssh_session ''@ann:n.mesh'' ''ak'')"
    "jm_get (cs_sessions two_sessions) ''@bob:n.mesh'' = Some (ssh_session ''@bob:n.mesh'' ''bk'')"
    "findLocalSession sample_server ''@bob:n.mesh'' two_sessions = Some ''@bob:n.mesh''"
    by (simp_all add: two_sessions_def findLocalSession_def)
  have keys: "s_kemKeyPair (ssh_session u k) = Some \<lparr>k_public = k, k_private = k\<rparr>" "s_isSsh (ssh_session u k)" for u k
    by (simp_all add: ssh_session_def)
  obtain m b where m: "stored_messages ?cs = stored_messages two_sessions @ [m]" "m_isE2EE m"
      "getCurrentConversation sample_server ''@bob:n.mesh'' ''@ann:n.mesh'' [] ?cs = Messages (b @ [m\<lparr>m_content := ''hi''\<rparr>])"
    using private_message_is_sealed_and_read [of sample_server "''@bob''" ?t two_sessions _ "''bk''" "''bk''" "''@ann:n.mesh''" _
        "''ak''" "''ak''" sample_outbound "''hi''" sealed 5 False False ?cs "[]", unfolded raw crypto,
        OF _ refl _ found(3,2) keys(2,1) _ clear_opens found(1) keys(2,1) clear_opens sealed]
    by (auto simp: sample_parse sample_server_def none starts_with_def nick_in_def raw)
  have "b = []"
    using m none by (auto simp: getCurrentConversation_def getConversation_def last_n_def stored_messages_def Let_def
        split: if_splits option.splits)
  then show ?thesis using m none by auto
qed

section \<open>A message to a user of this node who is away\<close>

lemma mail_each: "(\<And>user. keeps_ends (act user)) \<Longrightarrow> leaves_mail (each_session E now act)"
proof -
  assume a: "\<And>user. keeps_ends (act user)"
  have "leaves_mail (all_acts (map (\<lambda>user. on_session E now user (act user)) us))" for us
    by (intro mail_all) (simp add: list_all_iff mail_session [OF a])
  then show ?thesis by (simp add: leaves_mail_def each_session_def del: map_map)
qed

lemma mail_message: "leaves_mail (on_message E now m)"
proof -
  have "keeps_ends (migrate E u p)" for u p by (simp add: keeps_ends_def migrate_def Let_def)
  then have mig: "leaves_mail (updateTargetMigration E now u)" for u
    using mail_each [of "\<lambda>user. migrate E u p" E now for p] by (simp add: leaves_mail_def updateTargetMigration_def split: option.split)
  have "keeps_ends (ring E t c)" for t c unfolding ring_def by (intro ends_one_by_one) (simp add: ends_basic)
  then have "keeps_ends (\<lambda>s. if P s then ring E t c s else (s, []))" for P t c by (simp add: keeps_ends_def)
  then have "leaves_mail (ring_members E now s t c)" for s t c unfolding ring_members_def by (intro mail_each)
  then show ?thesis using mig mail_ring_user [of E now]
    by (simp add: leaves_mail_def on_message_def split_beta Let_def split: option.split)
qed

text \<open>
  \<open>handleOutboundMessage\<close> has stored the message; for a user of this node without a session it then calls
  \<open>sendRemoteMessage\<close>, which finds this node to be the target and stores the message a second time, under a new id.
\<close>

lemma away_user_stored_again:
  assumes "pa_isLocal target" "findLocalSession E (pa_raw target) cs = None" "findLocalSession E (pa_name target) cs = None"
    and "remote_name E target cs = pa_raw target"
    and "parse_addr (node_env E cs) (pa_raw target) = Some target" "pa_nodeId target = Some (fe_nodeId (se_fed E))"
    and "fe_nodeId (se_fed E) \<noteq> []" "\<not> pa_isGlobalChannel target" "pa_type target = USER"
    and "ob_remoteId ob \<notin> m_id ` set (stored_messages cs)" "m_deleted_by m = []"
  shows "stored_messages (fst (send_private E now ob target content m cs)) =
    stored_messages cs @ [remote_message ob (pa_raw target) m]"
proof -
  let ?m = "remote_message ob (pa_raw target) m"
  let ?f = "(cs_fed cs)\<lparr>f_seen := cache_add (ob_remoteId ob) now (f_seen (cs_fed cs))\<rparr>"
  let ?d = "(f_db (cs_fed cs))\<lparr>messages := stored_messages cs @ [?m]\<rparr>"
  have "saveMessage ?m (f_db ?f) = (Some ?m, ?d)"
    using assms(10,11) by (simp add: saveMessage_def stored_messages_def remote_message_def Let_def)
  then have "deliver_here target ?m ?f = (?f\<lparr>f_db := ?d\<rparr>, [Emitted (MessageEvent ?m)])"
    using assms(9) by (simp add: deliver_here_def)
  moreover have again: "?m\<lparr>m_to := pa_raw target\<rparr> = ?m" and "m_to ?m = pa_raw target" "m_id ?m = ob_remoteId ob"
    by (simp_all add: remote_message_def)
  moreover have "fe_nodeId (node_env E cs) = fe_nodeId (se_fed E)" by (simp add: node_env_def)
  ultimately have "sendRemoteMessage (node_env E cs) (ob_onion ob) (ob_answer ob) now ?m (cs_fed cs) =
      (Ok Delivered, ?f\<lparr>f_db := ?d\<rparr>, [Emitted (MessageEvent ?m)])"
    using assms(5-8) by (simp add: sendRemoteMessage_def or_else_def truthy_def again Let_def)
  then have "stored_messages (fst (send_private E now ob target content m cs)) =
      stored_messages (fst (on_message E now ?m (cs\<lparr>cs_fed := ?f\<lparr>f_db := ?d\<rparr>\<rparr>)))"
    using assms(1-4) by (simp add: send_private_def send_remote_def split_beta Let_def)
  also have "\<dots> = stored_messages cs @ [?m]"
    using mail_message [of E now ?m] by (simp add: leaves_mail_def) (simp add: stored_messages_def)
  finally show ?thesis .
qed

end
