(* ===== verification/Commands.thy ===== *)
theory Commands
  imports ClientServer
begin

text \<open>
  \<open>src/commands/\<close>: the registry of the slash commands and the commands themselves, as steps of the server on behalf of
  the session that typed them. The process' figures for \<open>/status\<close> and whether a packet went out are the record
  \<open>command_env\<close>, with the draws of an outgoing message.
\<close>

section \<open>The registry\<close>

datatype command =
    HelpCmd | MeCmd | MsgCmd | JoinCmd | LeaveCmd | RemoveCmd | SystemCmd | WhoCmd | PeersCmd | StatusCmd | ClearCmd
  | QuitCmd | AllowTelnetCmd | KeysCmd

record command_module =
  cm_name :: string
  cm_aliases :: "string list"
  cm_description :: string
  cm_command :: command

type_synonym registry = "(string, command_module) jsmap"

definition register :: "command_module \<Rightarrow> registry \<Rightarrow> registry" where
  "register m r =
     (if cm_name m = [] then r else fold (\<lambda>a. jm_set (js_lower a) m) (cm_aliases m) (jm_set (js_lower (cm_name m)) m r))"

definition get_command :: "string \<Rightarrow> registry \<Rightarrow> command_module option" where
  "get_command name r = jm_get r (js_lower name)"

definition getAllUnique :: "registry \<Rightarrow> command_module list" where
  "getAllUnique r = jm_values (fold (\<lambda>(k, m). jm_set (cm_name m) m) r [])"

definition cmd :: "string \<Rightarrow> string list \<Rightarrow> string \<Rightarrow> command \<Rightarrow> command_module" where
  "cmd name aliases description c = \<lparr>cm_name = name, cm_aliases = aliases, cm_description = description, cm_command = c\<rparr>"

definition command_modules :: "command_module list" where
  "command_modules =
     [cmd ''help'' [''yardim'', ''h'', ''?''] ''CMD_HELP_DESC'' HelpCmd,
      cmd ''me'' [] ''CMD_ME_DESC'' MeCmd,
      cmd ''msg'' [''query'', ''q'', ''dm''] ''CMD_MSG_DESC'' MsgCmd,
      cmd ''join'' [''j'', ''channel''] ''CMD_JOIN_DESC'' JoinCmd,
      cmd ''leave'' [''part'', ''l''] ''CMD_LEAVE_DESC'' LeaveCmd,
      cmd ''remove'' [''close'', ''rm''] ''CMD_REMOVE_DESC'' RemoveCmd,
      cmd ''system'' [''console'', ''sistem''] ''CMD_SYSTEM_DESC'' SystemCmd,
      cmd ''who'' [''online'', ''users''] ''CMD_WHO_DESC'' WhoCmd,
      cmd ''peers'' [''nodes'', ''mesh''] ''CMD_PEERS_DESC'' PeersCmd,
      cmd ''status'' [''stats'', ''info''] ''CMD_STATUS_DESC'' StatusCmd,
      cmd ''clear'' [''cls''] ''CMD_CLEAR_DESC'' ClearCmd,
      cmd ''quit'' [''exit''] ''CMD_QUIT_DESC'' QuitCmd,
      cmd ''allowtelnet'' [''telnetaccess'', ''telnet''] ''CMD_ALLOWTELNET_DESC'' AllowTelnetCmd,
      cmd ''keys'' [''key'', ''pubkey'', ''authorized_keys''] ''CMD_KEYS_DESC'' KeysCmd]"

definition createCommandRegistry :: registry where
  "createCommandRegistry = fold register command_modules []"

section \<open>What commands use\<close>

record command_env =
  ce_server :: server_env
  ce_now :: int
  ce_out :: outbound
  ce_sent :: bool
  ce_uptime :: nat
  ce_rss :: string
  ce_heap :: string

abbreviation ce_ui :: "command_env \<Rightarrow> ui" where
  "ce_ui C \<equiv> se_ui (ce_server C)"

definition mine :: "command_env \<Rightarrow> string \<Rightarrow> session_act \<Rightarrow> server_act" where
  "mine C user act = on_session (ce_server C) (ce_now C) user act"

definition sys_log :: "command_env \<Rightarrow> string \<Rightarrow> string \<Rightarrow> server_act" where
  "sys_log C user line = mine C user (addSystemLog (ce_ui C) line)"

definition i18n :: "command_env \<Rightarrow> string \<Rightarrow> (string \<times> string) list \<Rightarrow> string" where
  "i18n C key vs = ui_text (ce_ui C) key vs"

definition say_to :: "command_env \<Rightarrow> string \<Rightarrow> string \<Rightarrow> server_act" where
  "say_to C user key = sys_log C user (i18n C key [])"

definition on_db :: "(db \<Rightarrow> db) \<Rightarrow> server_act" where
  "on_db g cs = (cs\<lparr>cs_fed := (cs_fed cs)\<lparr>f_db := g (f_db (cs_fed cs))\<rparr>\<rparr>, [])"

definition with_session :: "string \<Rightarrow> (session \<Rightarrow> server_act) \<Rightarrow> server_act" where
  "with_session user act cs = (case jm_get (cs_sessions cs) user of None \<Rightarrow> (cs, []) | Some s \<Rightarrow> act s cs)"

definition profile_of :: "command_env \<Rightarrow> string \<Rightarrow> (profile \<Rightarrow> server_act) \<Rightarrow> server_act" where
  "profile_of C user act cs =
     (let (p, d) = getUserProfile (ui_locale (ce_ui C)) user (f_db (cs_fed cs))
      in act p (cs\<lparr>cs_fed := (cs_fed cs)\<lparr>f_db := d\<rparr>\<rparr>))"

definition parsed :: "command_env \<Rightarrow> string \<Rightarrow> parsed_address option" where
  "parsed C a = parse_addr (se_fed (ce_server C)) a"

text \<open>\<open>args[i] || ''\<close>.\<close>

definition arg :: "nat \<Rightarrow> string list \<Rightarrow> string" where
  "arg i args = (if i < length args then args ! i else [])"

section \<open>The commands\<close>

definition pad_end :: "nat \<Rightarrow> string \<Rightarrow> string" where
  "pad_end n s = s @ replicate (n - length s) CHR '' ''"

definition help_line :: "command_env \<Rightarrow> command_module \<Rightarrow> string" where
  "help_line C m =
     ''/'' @ pad_end 8 (cm_name m) @
     (if cm_aliases m = [] then [] else '' ('' @ join_with '', '' (map (\<lambda>a. ''/'' @ a) (cm_aliases m)) @ '')'') @
     '' : '' @ i18n C (cm_description m) []"

definition run_help :: "command_env \<Rightarrow> registry \<Rightarrow> string \<Rightarrow> server_act" where
  "run_help C r user =
     all_acts (say_to C user ''CMD_HELP_HEADER'' # map (\<lambda>m. sys_log C user (help_line C m)) (getAllUnique r))"

definition run_me :: "command_env \<Rightarrow> string \<Rightarrow> string \<Rightarrow> server_act" where
  "run_me C user argStr =
     with_session user (\<lambda>s.
       if argStr = [] then say_to C user ''CMD_ME_USAGE_ERROR''
       else if s_activeTarget s = [] \<or> isSystemConsole (s_activeTarget s) then say_to C user ''CMD_ME_TARGET_ERROR''
       else handleOutboundMessage (ce_server C) (ce_now C) (ce_out C) user (s_activeTarget s) argStr True False)"

text \<open>A known address outside this node's mesh becomes a peer.\<close>

definition note_peer :: "command_env \<Rightarrow> parsed_address \<Rightarrow> server_act" where
  "note_peer C p cs =
     (case (or_else (pa_host p) None, pa_port p) of
        (Some h, Some port) \<Rightarrow>
          if pa_isLocal p \<or> port = 0 then (cs, [])
          else (cs\<lparr>cs_fed := (cs_fed cs)\<lparr>f_peers :=
                  addOrUpdate (fe_penv (se_fed (ce_server C))) (ce_now C) (host_port h port) True False (f_peers (cs_fed cs))\<rparr>\<rparr>, [])
      | _ \<Rightarrow> (cs, []))"

definition render_conversation :: "command_env \<Rightarrow> string \<Rightarrow> string \<Rightarrow> server_act" where
  "render_conversation C user target cs = (cs, [RenderFull user (getConversation user target 100 (f_db (cs_fed cs)))])"

definition run_msg :: "command_env \<Rightarrow> string \<Rightarrow> string list \<Rightarrow> server_act" where
  "run_msg C user args =
     (let a = arg 0 args
      in if a = [] then say_to C user ''CMD_MSG_USAGE_ERROR''
         else case parsed C (if starts_with ''@'' a \<or> starts_with ''#'' a then a else ''@'' @ a) of
                Some p \<Rightarrow>
                  if pa_type p \<noteq> USER then sys_log C user (i18n C ''CMD_MSG_FORMAT_ERROR'' [(''input'', a)])
                  else
                    all_acts
                      [if pa_bracketWarning p then say_to C user ''CMD_MSG_IPV6_PORT_SYNTAX'' else all_acts [],
                       note_peer C p,
                       \<lambda>cs. let target = remote_name (ce_server C) p cs
                            in all_acts [mine C user (setTarget (ce_ui C) target), render_conversation C user target] cs]
              | None \<Rightarrow> sys_log C user (i18n C ''CMD_MSG_FORMAT_ERROR'' [(''input'', a)]))"

text \<open>The channel of another node is told about a subscription, or that it ended.\<close>

definition tell_channel ::
  "command_env \<Rightarrow> parsed_address \<Rightarrow> (fed_env \<Rightarrow> string \<Rightarrow> int \<Rightarrow> act) \<Rightarrow> (fed_env \<Rightarrow> string \<Rightarrow> act) \<Rightarrow> server_act" where
  "tell_channel C p to_host to_node =
     (if pa_isLocal p \<or> pa_isGlobalChannel p then all_acts []
      else case (or_else (pa_host p) None, pa_port p) of
             (Some h, Some port) \<Rightarrow>
               if port \<noteq> 0 then engine (ce_server C) (ce_now C) (\<lambda>E. to_host E h port)
               else (case or_else (pa_nodeId p) None of
                       Some n \<Rightarrow> engine (ce_server C) (ce_now C) (\<lambda>E. to_node E n) | None \<Rightarrow> all_acts [])
           | _ \<Rightarrow> (case or_else (pa_nodeId p) None of
                     Some n \<Rightarrow> engine (ce_server C) (ce_now C) (\<lambda>E. to_node E n) | None \<Rightarrow> all_acts []))"

definition run_join :: "command_env \<Rightarrow> string \<Rightarrow> string list \<Rightarrow> server_act" where
  "run_join C user args =
     (if \<not> starts_with ''#'' (arg 0 args) then say_to C user ''CMD_JOIN_USAGE_ERROR''
      else case parsed C (arg 0 args) of
             Some p \<Rightarrow>
               if pa_type p \<noteq> CHANNEL then say_to C user ''CMD_JOIN_USAGE_ERROR''
               else
                 all_acts
                   [tell_channel C p (\<lambda>E h port. subscribeRemoteChannel E (ce_now C) h port (pa_raw p) (ce_sent C))
                      (\<lambda>E n. subscribeNodeChannel E n (pa_raw p)),
                    mine C user (setTarget (ce_ui C) (pa_raw p)),
                    sys_log C user (i18n C ''SYS_JOINED_CHANNEL'' [(''channel'', pa_raw p)])]
           | None \<Rightarrow> say_to C user ''CMD_JOIN_USAGE_ERROR'')"

text \<open>The target a command names, or the active one; \<open>[]\<close> for an address that does not parse.\<close>

definition named_target :: "command_env \<Rightarrow> session \<Rightarrow> string list \<Rightarrow> string" where
  "named_target C s args =
     (if arg 0 args \<noteq> [] then (case parsed C (arg 0 args) of Some p \<Rightarrow> pa_raw p | None \<Rightarrow> []) else s_activeTarget s)"

definition leave_target :: "command_env \<Rightarrow> string \<Rightarrow> string \<Rightarrow> server_act" where
  "leave_target C user target =
     with_session user (\<lambda>s.
       if s_activeTarget s \<noteq> target then all_acts []
       else mine C user (setTarget (ce_ui C)
              (case find isGlobalChannel (s_contacts s) of Some c \<Rightarrow> c | None \<Rightarrow> console (ce_ui C))))"

definition run_leave :: "command_env \<Rightarrow> string \<Rightarrow> string list \<Rightarrow> server_act" where
  "run_leave C user args =
     with_session user (\<lambda>s.
       let target = named_target C s args
       in if \<not> starts_with ''#'' target then say_to C user ''CMD_LEAVE_USAGE_ERROR''
          else
            all_acts
              [case parsed C target of
                 Some p \<Rightarrow> tell_channel C p (\<lambda>E h port. unsubscribeRemoteChannel h port (pa_raw p)) (\<lambda>E n. unsubscribeNodeChannel E n (pa_raw p))
               | None \<Rightarrow> all_acts [],
               mine C user (removeContact target), on_db (clearConversationForUser user target),
               sys_log C user (i18n C ''SYS_LEFT_CHANNEL'' [(''channel'', target)]), leave_target C user target])"

definition run_remove :: "command_env \<Rightarrow> string \<Rightarrow> string list \<Rightarrow> server_act" where
  "run_remove C user args =
     with_session user (\<lambda>s.
       let target = named_target C s args
       in if \<not> starts_with ''@'' target then say_to C user ''CMD_REMOVE_USAGE_ERROR''
          else
            all_acts
              [mine C user (removeContact target), on_db (clearConversationForUser user target),
               sys_log C user (i18n C ''SYS_REMOVED_DM'' [(''target'', target)]), leave_target C user target])"

definition run_who :: "command_env \<Rightarrow> string \<Rightarrow> server_act" where
  "run_who C user cs =
     (let (us, cs1) = getOnlineUsers (ce_server C) (ce_now C) cs;
          online = join_with '', '' us
      in sys_log C user (i18n C ''CMD_WHO_RESULT'' [(''users'', if online = [] then i18n C ''CMD_WHO_EMPTY'' [] else online)]) cs1)"

definition run_peers :: "command_env \<Rightarrow> string \<Rightarrow> server_act" where
  "run_peers C user cs =
     (let peers = getAllPeers (f_peers (cs_fed cs))
      in sys_log C user (i18n C ''CMD_PEERS_RESULT''
           [(''count'', show_nat (length peers)),
            (''peers'', if peers = [] then i18n C ''CMD_PEERS_EMPTY'' [] else join_with '', '' peers)]) cs)"

definition uptime_text :: "nat \<Rightarrow> string" where
  "uptime_text t = show_nat (t div 3600) @ ''h '' @ show_nat (t mod 3600 div 60) @ ''m '' @ show_nat (t mod 60) @ ''s''"

definition text_or :: "string \<Rightarrow> string \<Rightarrow> string" where
  "text_or a b = (if a = [] then b else a)"

definition rendezvous_info :: "command_env \<Rightarrow> fed \<Rightarrow> string" where
  "rendezvous_info C f =
     (if isRelay f
      then i18n C ''CMD_STATUS_RDV_TUNNELS'' [(''current'', show_nat (length (f_tunnels f))), (''max'', ''64'')]
      else i18n C ''CMD_STATUS_RDV_RELAYS''
             [(''relays'', text_or (join_with '', '' (f_bound f)) (i18n C ''CMD_STATUS_NONE'' []))])"

definition run_status :: "command_env \<Rightarrow> string \<Rightarrow> server_act" where
  "run_status C user cs =
     (let E = se_fed (ce_server C);
          (us, cs1) = getOnlineUsers (ce_server C) (ce_now C) cs;
          peers = getAllPeers (f_peers (cs_fed cs1));
          (rows, d) = getPendingOutbox (fe_clock E) (fe_cfg E) (ce_now C) False (f_db (cs_fed cs1));
          cs2 = cs1\<lparr>cs_fed := (cs_fed cs1)\<lparr>f_db := d\<rparr>\<rparr>;
          f = cs_fed cs2
      in all_acts
           [say_to C user ''CMD_STATUS_HEADER'',
            sys_log C user (i18n C ''CMD_STATUS_NODE''
              [(''nodeId'', fe_nodeId E), (''address'', fe_meshAddress E), (''role'', text_or (f_role f) ''EDGE'')]),
            sys_log C user (rendezvous_info C f),
            sys_log C user (i18n C ''CMD_STATUS_UPTIME'' [(''uptime'', uptime_text (ce_uptime C))]),
            sys_log C user (i18n C ''CMD_STATUS_MEMORY'' [(''rss'', ce_rss C), (''heap'', ce_heap C)]),
            sys_log C user (i18n C ''CMD_STATUS_CLIENTS'' [(''count'', show_nat (length us))]),
            sys_log C user (i18n C ''CMD_STATUS_PEERS''
              [(''count'', show_nat (length peers)), (''peers'', text_or (join_with '', '' peers) ''-'')]),
            sys_log C user (i18n C ''CMD_STATUS_OUTBOX'' [(''count'', show_nat (length rows))])] cs2)"

definition clear_logs :: session_act where
  "clear_logs s = ((if isSystemConsole (s_activeTarget s) then s\<lparr>s_systemLogs := []\<rparr> else s), [])"

definition run_clear :: "command_env \<Rightarrow> string \<Rightarrow> server_act" where
  "run_clear C user = all_acts [mine C user clear_logs, \<lambda>cs. (cs, [RenderFull user []])]"

definition run_quit :: "command_env \<Rightarrow> string \<Rightarrow> server_act" where
  "run_quit C user cs = (cs, [ToSession user (SocketEnd (i18n C ''TUI_SESSION_CLOSED'' []))])"

definition run_allowtelnet :: "command_env \<Rightarrow> string \<Rightarrow> string list \<Rightarrow> server_act" where
  "run_allowtelnet C user args =
     profile_of C user (\<lambda>p.
       let sub = js_lower (arg 0 args)
       in if sub \<in> {''on'', ''enable'', ''ac''}
          then all_acts [on_db (setUserTelnetAccess user True), say_to C user ''CMD_ALLOWTELNET_ENABLED'']
          else if sub \<in> {''off'', ''disable'', ''kapat''}
          then all_acts [on_db (setUserTelnetAccess user False), say_to C user ''CMD_ALLOWTELNET_DISABLED'']
          else all_acts
                 [sys_log C user (i18n C ''CMD_ALLOWTELNET_CURRENT_STATUS''
                    [(''status'', i18n C (if p_allowTelnet p then ''CMD_ALLOWTELNET_STATUS_OPEN'' else ''CMD_ALLOWTELNET_STATUS_LOCKED'') [])]),
                  say_to C user ''CMD_ALLOWTELNET_HELP_TIP''])"

definition coloured :: "string \<Rightarrow> string \<Rightarrow> string" where
  "coloured code s = CHR 0x1B # ''['' @ code @ ''m'' @ s @ CHR 0x1B # ''[0m''"

definition key_line :: "nat \<Rightarrow> string \<Rightarrow> string" where
  "key_line i k =
     coloured ''1;32'' (''['' @ show_nat (i + 1) @ '']'') @ '' SHA256:'' @ take 16 (to_hex (b64_decode k)) @
     '' | Base64: '' @ take 12 k @ ''...'' @ last_n 8 k"

definition list_keys :: "command_env \<Rightarrow> string \<Rightarrow> string list \<Rightarrow> server_act" where
  "list_keys C user keys =
     all_acts
       (sys_log C user (coloured ''1;36'' (i18n C ''CMD_KEYS_HEADER'' [])) #
        (if keys = [] then [sys_log C user (coloured ''33'' (i18n C ''CMD_KEYS_EMPTY'' []))]
         else map (\<lambda>(i, k). sys_log C user (key_line i k)) (zip [0..<length keys] keys) @
              [sys_log C user (coloured ''90'' (i18n C ''CMD_KEYS_ADD_PROMPT'' []))]))"

definition add_key :: "command_env \<Rightarrow> string \<Rightarrow> string list \<Rightarrow> string \<Rightarrow> server_act" where
  "add_key C user keys input =
     (if input = [] then say_to C user ''CMD_KEYS_INPUT_REQUIRED''
      else case parseAndValidateOpenSshKey (fe_crypto (se_fed (ce_server C))) input of
             Throw e \<Rightarrow> sys_log C user (i18n C ''CMD_KEYS_REJECTED'' [(''error'', i18n C e [])])
           | Ok k \<Rightarrow>
               if key_base64 k \<in> set keys then say_to C user ''CMD_KEYS_ALREADY_EXISTS''
               else all_acts
                      [on_db (addUserPublicKey (ui_locale (ce_ui C)) user (key_base64 k)),
                       sys_log C user (i18n C ''CMD_KEYS_ADDED_SUCCESS'' [(''fingerprint'', fingerprint k)])])"

text \<open>\<open>publicKeys[parseInt(target, 10) - 1]\<close>, or the first key that contains the text.\<close>

definition chosen_key :: "string list \<Rightarrow> string \<Rightarrow> string option" where
  "chosen_key keys target =
     (case parse_int 10 target of
        Some n \<Rightarrow>
          if 1 \<le> n \<and> n \<le> int (length keys) \<and> keys ! nat (n - 1) \<noteq> [] then Some (keys ! nat (n - 1))
          else find (str_includes target) keys
      | None \<Rightarrow> find (str_includes target) keys)"

definition del_key :: "command_env \<Rightarrow> string \<Rightarrow> string list \<Rightarrow> string \<Rightarrow> server_act" where
  "del_key C user keys target =
     (if target = [] then say_to C user ''CMD_KEYS_DEL_INDEX_REQUIRED''
      else if length keys \<le> 1 then say_to C user ''CMD_KEYS_LAST_KEY_PROTECTION''
      else case or_else (chosen_key keys target) None of
             None \<Rightarrow> sys_log C user (i18n C ''CMD_KEYS_NOT_FOUND'' [(''target'', target)])
           | Some k \<Rightarrow>
               all_acts
                 [on_db (\<lambda>d. snd (removeUserPublicKey (ui_locale (ce_ui C)) user k d)), say_to C user ''CMD_KEYS_DELETED_SUCCESS''])"

definition run_keys :: "command_env \<Rightarrow> string \<Rightarrow> string list \<Rightarrow> server_act" where
  "run_keys C user args =
     profile_of C user (\<lambda>p.
       let sub = js_lower (text_or (arg 0 args) ''list'')
       in if sub \<in> {''list'', ''ls''} then list_keys C user (p_publicKeys p)
          else if sub = ''add'' then add_key C user (p_publicKeys p) (js_trim (join_with '' '' (tl args)))
          else if sub \<in> {''del'', ''rm'', ''remove''} then del_key C user (p_publicKeys p) (arg 1 args)
          else say_to C user ''CMD_KEYS_SYNTAX_HELP'')"

section \<open>Running a command line\<close>

definition run_command :: "command_env \<Rightarrow> registry \<Rightarrow> string \<Rightarrow> string list \<Rightarrow> string \<Rightarrow> command \<Rightarrow> server_act" where
  "run_command C r user args argStr c =
     (case c of
        HelpCmd \<Rightarrow> run_help C r user
      | MeCmd \<Rightarrow> run_me C user argStr
      | MsgCmd \<Rightarrow> run_msg C user args
      | JoinCmd \<Rightarrow> run_join C user args
      | LeaveCmd \<Rightarrow> run_leave C user args
      | RemoveCmd \<Rightarrow> run_remove C user args
      | SystemCmd \<Rightarrow> mine C user (setTarget (ce_ui C) (console (ce_ui C)))
      | WhoCmd \<Rightarrow> run_who C user
      | PeersCmd \<Rightarrow> run_peers C user
      | StatusCmd \<Rightarrow> run_status C user
      | ClearCmd \<Rightarrow> run_clear C user
      | QuitCmd \<Rightarrow> run_quit C user
      | AllowTelnetCmd \<Rightarrow> run_allowtelnet C user args
      | KeysCmd \<Rightarrow> run_keys C user args)"

text \<open>The name and the words of a command line.\<close>

definition command_words :: "string \<Rightarrow> string \<times> string list" where
  "command_words input =
     (let parts = split_on CHR '' '' (js_trim input) in (js_lower (remove_first ''/'' (hd parts)), tl parts))"

text \<open>No command of the registry throws: what can fail in them is caught, or is a branch above.\<close>

definition execute :: "command_env \<Rightarrow> registry \<Rightarrow> string \<Rightarrow> string \<Rightarrow> server_act" where
  "execute C r user input =
     (let (name, args) = command_words input
      in case get_command name r of
           None \<Rightarrow> sys_log C user (i18n C ''SYS_UNKNOWN_COMMAND'' [(''cmd'', name)])
         | Some m \<Rightarrow> run_command C r user args (join_with '' '' args) (cm_command m))"

section \<open>Commands keep the server's invariant\<close>

named_theorems kept \<open>steps that keep the server's invariant, as introduction rules\<close>

lemma keeps_if [kept]: "(P \<Longrightarrow> keeps E a) \<Longrightarrow> (\<not> P \<Longrightarrow> keeps E b) \<Longrightarrow> keeps E (if P then a else b)"
  by simp

lemma keeps_option [kept]: "keeps E a \<Longrightarrow> (\<And>x. keeps E (b x)) \<Longrightarrow> keeps E (case v of None \<Rightarrow> a | Some x \<Rightarrow> b x)"
  by (simp split: option.split)

lemma keeps_result [kept]: "(\<And>e. keeps E (a e)) \<Longrightarrow> (\<And>x. keeps E (b x)) \<Longrightarrow> keeps E (case v of Throw e \<Rightarrow> a e | Ok x \<Rightarrow> b x)"
  by (simp split: result.split)

lemma keeps_nil [kept]: "keeps E (all_acts [])"
  by (simp add: keeps_def)

lemma keeps_cons [kept]: "keeps E a \<Longrightarrow> keeps E (all_acts as) \<Longrightarrow> keeps E (all_acts (a # as))"
  by (simp add: keeps_def split_beta Let_def)

lemma keeps_map [kept]: "(\<And>x. keeps E (a x)) \<Longrightarrow> keeps E (all_acts (map a xs))"
  by (intro keeps_all) (simp add: list_all_iff)

lemma all_acts_append: "fst (all_acts (xs @ ys) cs) = fst (all_acts ys (fst (all_acts xs cs)))"
  by (induction xs arbitrary: cs) (simp_all add: split_beta Let_def)

lemma keeps_append [kept]: "keeps E (all_acts xs) \<Longrightarrow> keeps E (all_acts ys) \<Longrightarrow> keeps E (all_acts (xs @ ys))"
  unfolding keeps_def all_acts_append by blast

lemma keeps_mine [kept]: "safe_act act \<Longrightarrow> keeps (ce_server C) (mine C user act)"
  unfolding mine_def by (rule keeps_session)

lemma keeps_log [kept]: "keeps (ce_server C) (sys_log C user line)" "keeps (ce_server C) (say_to C user key)"
  unfolding say_to_def sys_log_def by (intro keeps_mine safe_log)+

lemma keeps_with [kept]: "(\<And>s. keeps E (act s)) \<Longrightarrow> keeps E (with_session user act)"
  by (simp add: keeps_def with_session_def split: option.split)

lemma keeps_db [kept]: "(\<And>d. map m_id (messages (g d)) = map m_id (messages d)) \<Longrightarrow> keeps E (on_db g)"
  unfolding keeps_def on_db_def fst_conv
  by (intro allI impI keeps_fed) (auto simp: server_inv_def node_inv_def msg_ids_def nat_inv_view [of "f\<lparr>f_db := d\<rparr>" f for f d]
      rdv_inv_view [of "f\<lparr>f_db := d\<rparr>" f for f d] nat_view_def rdv_view_def)

lemma keeps_engine [kept]: "(\<And>F f. core (fst (step F f)) = core f) \<Longrightarrow> keeps E (engine E now step)"
  unfolding keeps_def
proof (intro allI impI)
  fix cs assume c: "\<And>F f. core (fst (step F f)) = core f" and cs: "server_inv E cs"
  have "node_inv (se_fed E) (fst (step (node_env E cs) (cs_fed cs)))" using inv_fed [OF cs] by (rule inv_core [OF c])
  then show "server_inv E (fst (engine E now step cs))"
    by (simp add: engine_def split_beta keepsD [OF keeps_heard keeps_fed [OF cs]])
qed

lemma core_tell [simp]:
  "core (fst (subscribeRemoteChannel F now h p c b f)) = core f" "core (fst (unsubscribeRemoteChannel h p c f)) = core f"
  "core (fst (subscribeNodeChannel F n c f)) = core f" "core (fst (unsubscribeNodeChannel F n c f)) = core f"
  "core (fst (sendTyping F u t f)) = core f"
  by (simp_all add: subscribeRemoteChannel_def unsubscribeRemoteChannel_def subscribeNodeChannel_def unsubscribeNodeChannel_def
      tell_node_def sendTyping_def Let_def quiet split: option.split)

lemma keeps_profile [kept]:
  assumes "\<And>p. keeps E (act p)"
  shows "keeps E (profile_of C user act)"
  unfolding keeps_def
proof (intro allI impI)
  fix cs assume cs: "server_inv E cs"
  have "server_inv E (cs\<lparr>cs_fed := (cs_fed cs)\<lparr>f_db := snd (getUserProfile (ui_locale (ce_ui C)) user (f_db (cs_fed cs)))\<rparr>\<rparr>)"
    by (intro keeps_fed [OF cs] inv_db) (simp_all add: inv_fed [OF cs])
  then show "server_inv E (fst (profile_of C user act cs))"
    by (simp add: profile_of_def split_beta keepsD [OF assms])
qed

lemma keeps_same [kept]: "keeps E (\<lambda>cs. (cs, es cs))" "keeps E (\<lambda>cs. (cs, []))"
  by (simp_all add: keeps_def)

lemma safe_target [safe]: "safe_act (setTarget U t)"
proof -
  have s: "session_fine (s\<lparr>s_activeTarget := a\<rparr>)" "session_fine (s\<lparr>s_selectedContactIdx := i, s_unreadCounts := u, s_scrollOffset := n\<rparr>)"
    if "session_fine s" for s a i u n using that by (simp_all add: session_fine_defs)
  have "safe_act (silently (\<lambda>s. s\<lparr>s_activeTarget := a\<rparr>))" for a using s(1) by (simp add: safe_act_def silently_def)
  moreover have "safe_act (and_ask [RequestRender] (\<lambda>s. s\<lparr>s_selectedContactIdx := i s, s_unreadCounts := u s, s_scrollOffset := 0\<rparr>))" for i u
    using s(2) by (simp add: safe_act_def and_ask_def)
  ultimately show ?thesis unfolding setTarget_def Let_def by (intro safe_one_by_one) (simp add: safe_contact)
qed

lemma safe_remove [safe]: "safe_act (removeContact t)"
  by (simp add: safe_act_def removeContact_def silently_def and_ask_def notifyProfileChange_def session_fine_defs Let_def)

lemma safe_clear [safe]: "safe_act clear_logs"
  by (simp add: safe_act_def clear_logs_def session_fine_defs)

lemma clear_ids: "map m_id (messages (clearConversationForUser u t d)) = map m_id (messages d)"
proof -
  have "m_id (if clear_matches u t m then mark_deleted u m else m) = m_id m" for m
    by (simp add: mark_deleted_def Let_def)
  then show ?thesis by (simp add: clearConversationForUser_def comp_def)
qed

lemma update_messages [simp]:
  "messages (setUserTelnetAccess u b d) = messages d" "messages (addUserPublicKey l u k d) = messages d"
  "messages (snd (removeUserPublicKey l u k d)) = messages d"
proof -
  have [simp]: "messages (update_profile u f d) = messages d" for f d by (simp add: update_profile_def split: option.split)
  show "messages (setUserTelnetAccess u b d) = messages d" "messages (addUserPublicKey l u k d) = messages d"
    "messages (snd (removeUserPublicKey l u k d)) = messages d"
    by (simp_all add: setUserTelnetAccess_def addUserPublicKey_def removeUserPublicKey_def split_beta Let_def)
qed

lemma keeps_note [kept]: "keeps E (note_peer C p)"
proof -
  have "node_inv E' (f\<lparr>f_peers := x\<rparr>)" if "node_inv E' f" for E' f x by (rule inv_core [OF _ that]) (simp add: quiet)
  then show ?thesis by (simp add: keeps_def note_peer_def keeps_fed inv_fed split: option.split)
qed

lemma keeps_online: "server_inv E cs \<Longrightarrow> server_inv E (snd (getOnlineUsers E now cs))"
proof -
  assume cs: "server_inv E cs"
  have "core (snd (getAllOnlineUsers F now f)) = core f" for F f
    by (simp add: getAllOnlineUsers_def refresh_users_def Let_def quiet)
  then have "node_inv (se_fed E) (snd (getAllOnlineUsers F now (cs_fed cs)))" for F
    by (rule inv_core) (rule inv_fed [OF cs])
  then show ?thesis using cs by (simp add: getOnlineUsers_def split_beta keeps_fed)
qed

lemma keeps_tell [kept]:
  assumes "\<And>F h p f. core (fst (a F h p f)) = core f" "\<And>F n f. core (fst (b F n f)) = core f"
  shows "keeps (ce_server C) (tell_channel C p a b)"
proof -
  have "keeps E (engine E now (\<lambda>E. a E h port))" "keeps E (engine E now (\<lambda>E. b E n))" for E now h port n
    by (intro keeps_engine assms)+
  then show ?thesis by (simp add: tell_channel_def keeps_nil split: option.split del: all_acts.simps)
qed

lemma keeps_leave_target [kept]: "keeps (ce_server C) (leave_target C user t)"
  unfolding leave_target_def by (intro kept safe)

lemma keeps_then: "server_inv E cs \<Longrightarrow> keeps E a \<Longrightarrow> server_inv E (fst (a cs))"
  by (rule keepsD)

lemma keeps_who: "keeps (ce_server C) (run_who C user)" "keeps (ce_server C) (run_peers C user)"
  by (simp_all add: keeps_def run_who_def run_peers_def split_beta Let_def keepsD [OF keeps_log(1)] keeps_online)

lemma keeps_status: "keeps (ce_server C) (run_status C user)"
proof -
  have m: "messages (snd (getPendingOutbox K cfg now b d)) = messages d" for K cfg now b d by simp
  have d: "server_inv E (cs\<lparr>cs_fed := (cs_fed cs)\<lparr>f_db := snd (getPendingOutbox K cfg now b (f_db (cs_fed cs)))\<rparr>\<rparr>)"
    if "server_inv E cs" for E cs K cfg now b
    using that by (intro keeps_fed inv_db) (simp_all add: inv_fed)
  have k: "keeps (ce_server C) (all_acts [say_to C user a, sys_log C user b, sys_log C user c, sys_log C user e, sys_log C user g,
      sys_log C user h, sys_log C user i, sys_log C user j])" for a b c e g h i j
    by (intro kept)
  show ?thesis unfolding keeps_def run_status_def Let_def split_beta
    by (intro allI impI keepsD [OF k] d keeps_online)
qed

lemma keeps_command [kept]: "keeps (ce_server C) (run_command C r user args argStr c)"
proof -
  have hlp: "keeps (ce_server C) (run_help C r user)" unfolding run_help_def by (intro kept)
  have me: "keeps (ce_server C) (run_me C user argStr)" unfolding run_me_def by (intro kept keeps_outbound)
  have target: "keeps (ce_server C) (\<lambda>cs. let t = remote_name (ce_server C) p cs
      in all_acts [mine C user (setTarget (ce_ui C) t), render_conversation C user t] cs)" for p
  proof -
    have "keeps (ce_server C) (all_acts [mine C user (setTarget (ce_ui C) t), render_conversation C user t])" for t
      unfolding render_conversation_def by (intro kept safe)
    then show ?thesis by (simp only: keeps_def Let_def) blast
  qed
  have msg: "keeps (ce_server C) (run_msg C user args)" unfolding run_msg_def Let_def by (intro kept target [unfolded Let_def])
  have join: "keeps (ce_server C) (run_join C user args)" unfolding run_join_def by (intro kept safe) simp_all
  have leave: "keeps (ce_server C) (run_leave C user args)" unfolding run_leave_def Let_def by (intro kept safe) (simp_all add: clear_ids)
  have remove: "keeps (ce_server C) (run_remove C user args)" unfolding run_remove_def Let_def by (intro kept safe) (simp_all add: clear_ids)
  have clear: "keeps (ce_server C) (run_clear C user)" unfolding run_clear_def by (intro kept safe)
  have telnet: "keeps (ce_server C) (run_allowtelnet C user args)" unfolding run_allowtelnet_def Let_def by (intro kept) simp_all
  have keys: "keeps (ce_server C) (run_keys C user args)"
  proof -
    have "keeps (ce_server C) (list_keys C user ks)" for ks
      unfolding list_keys_def split_beta by (intro kept) (simp_all add: kept)
    moreover have "keeps (ce_server C) (add_key C user ks k)" for ks k unfolding add_key_def by (intro kept) simp_all
    moreover have "keeps (ce_server C) (del_key C user ks k)" for ks k unfolding del_key_def by (intro kept) simp_all
    ultimately show ?thesis unfolding run_keys_def Let_def by (intro kept)
  qed
  have quit: "keeps (ce_server C) (run_quit C user)" by (simp add: keeps_def run_quit_def)
  show ?thesis using hlp me msg join leave remove clear telnet keys keeps_who keeps_status
    by (cases c) (simp_all add: run_command_def keeps_mine safe_target quit)
qed

lemma keeps_execute [kept]: "keeps (ce_server C) (execute C r user input)"
  unfolding execute_def Let_def split_beta by (intro kept)

section \<open>The registry's names\<close>

definition names_of :: "command_module \<Rightarrow> string list" where
  "names_of m = map js_lower (cm_name m # cm_aliases m)"

lemma fold_set: "jm_get (fold (\<lambda>a. jm_set (js_lower a) m) as r) k = (if k \<in> js_lower ` set as then Some m else jm_get r k)"
  by (induction as arbitrary: r) (auto simp: jsmap_simps)

lemma register_get: "cm_name m \<noteq> [] \<Longrightarrow> jm_get (register m r) k = (if k \<in> set (names_of m) then Some m else jm_get r k)"
  by (auto simp: register_def names_of_def fold_set jsmap_simps)

lemma registered:
  "distinct (concat (map names_of ms)) \<Longrightarrow> list_all (\<lambda>m. cm_name m \<noteq> []) ms \<Longrightarrow> m \<in> set ms \<Longrightarrow> k \<in> set (names_of m) \<Longrightarrow>
    jm_get (fold register ms r) k = Some m"
proof (induction ms arbitrary: r)
  case (Cons x ms)
  have other: "k \<notin> \<Union> (set ` names_of ` set zs) \<Longrightarrow> list_all (\<lambda>m. cm_name m \<noteq> []) zs \<Longrightarrow>
      jm_get (fold register zs q) k = jm_get q k" for zs q
    by (induction zs arbitrary: q) (simp_all add: register_get)
  show ?case
  proof (cases "m \<in> set ms")
    case False
    then have "m = x" using Cons.prems(3) by simp
    moreover have "k \<notin> \<Union> (set ` names_of ` set ms)" using Cons.prems(1,4) \<open>m = x\<close> by auto
    ultimately show ?thesis using Cons.prems(2,4) other [of ms "register x r"] by (simp add: register_get)
  qed (use Cons in simp)
qed simp

lemma names_distinct: "distinct (concat (map names_of command_modules))"
  by code_simp

lemma names_given: "list_all (\<lambda>m. cm_name m \<noteq> []) command_modules"
  by code_simp

text \<open>
  Every name and every alias of a command reaches that command, in any spelling of its letters: no alias hides
  another command.
\<close>

theorem every_name_reaches_its_command:
  "m \<in> set command_modules \<Longrightarrow> a \<in> set (cm_name m # cm_aliases m) \<Longrightarrow> js_lower typed = js_lower a \<Longrightarrow>
    get_command typed createCommandRegistry = Some m"
  using registered [OF names_distinct names_given, of m "js_lower a" "[]"]
  by (auto simp: get_command_def createCommandRegistry_def names_of_def)

theorem every_name_reaches_its_command_witness:
  "get_command ''DM'' createCommandRegistry = Some (cmd ''msg'' [''query'', ''q'', ''dm''] ''CMD_MSG_DESC'' MsgCmd)"
proof (rule every_name_reaches_its_command [of _ "''dm''"])
  show "cmd ''msg'' [''query'', ''q'', ''dm''] ''CMD_MSG_DESC'' MsgCmd \<in> set command_modules" by (simp add: command_modules_def)
  show "js_lower ''DM'' = js_lower ''dm''" by code_simp
qed (simp add: cmd_def)

end
