(* ===== verification/SessionInput.thy ===== *)
theory SessionInput
  imports Commands InputParser
begin

text \<open>
  \<open>src/core/sessionInputHandler.js\<close>: what a key or a paste does to the session of its user and, through commands and
  messages, to the server. Lines that come in quick succession are collected and leave as one message when the flush
  timer fires (\<open>flush_burst\<close>); the timer is the session's \<open>s_pasteFlushTimer\<close>.
\<close>

section \<open>Bursts of lines\<close>

text \<open>\<open>replace(/^\r?\n+|\r?\n+$/g, '')\<close>: the line breaks at the start, and those at the end.\<close>

definition strip_leading :: "string \<Rightarrow> string" where
  "strip_leading s =
     (let nl = (\<lambda>c. c = CHR 0x0A)
      in if s \<noteq> [] \<and> hd s = CHR 0x0D \<and> tl s \<noteq> [] \<and> nl (hd (tl s)) then dropWhile nl (tl s) else dropWhile nl s)"

definition strip_trailing :: "string \<Rightarrow> string" where
  "strip_trailing s =
     (let r = rev s; body = dropWhile (\<lambda>c. c = CHR 0x0A) r
      in rev (if body \<noteq> r \<and> body \<noteq> [] \<and> hd body = CHR 0x0D then tl body else body))"

definition strip_breaks :: "string \<Rightarrow> string" where
  "strip_breaks s = strip_trailing (strip_leading s)"

definition queue_lines :: "string \<Rightarrow> bool \<Rightarrow> bool \<Rightarrow> session \<Rightarrow> session" where
  "queue_lines textContent isMultiLineChunk fromChunkWithChars s =
     (let s1 = (if s_inputBuffer s \<noteq> [] \<and> isMultiLineChunk
                then clearInput (s\<lparr>s_pendingPasteLines := s_pendingPasteLines s @ [s_inputBuffer s]\<rparr>) else s)
      in if isMultiLineChunk
         then s1\<lparr>s_pendingPasteIsSnippet := True, s_pendingPasteFromChunk := True,
                 s_pendingPasteLines := s_pendingPasteLines s1 @ split_on CHR 0x0A textContent\<rparr>
         else s1\<lparr>s_pendingPasteLines := s_pendingPasteLines s1 @ [textContent],
                 s_pendingPasteFromChunk := s_pendingPasteFromChunk s1 \<or> fromChunkWithChars\<rparr>)"

definition scheduleBurstFlush :: "session \<Rightarrow> session" where
  "scheduleBurstFlush s = s\<lparr>s_pasteFlushTimer := True\<rparr>"

definition queueOutboundBurst :: "string \<Rightarrow> bool \<Rightarrow> bool \<Rightarrow> session_act" where
  "queueOutboundBurst textContent isMultiLineChunk fromChunkWithChars =
     silently (\<lambda>s. scheduleBurstFlush (queue_lines textContent isMultiLineChunk fromChunkWithChars s))"

text \<open>What the timer takes from the session: the lines, whether they are one snippet, and the rest of the session.\<close>

definition take_burst :: "session \<Rightarrow> string list \<times> bool \<times> session" where
  "take_burst s =
     (let pending = s_pendingPasteLines s; wasSnippet = s_pendingPasteIsSnippet s; wasFromChunk = s_pendingPasteFromChunk s;
          s1 = s\<lparr>s_pasteFlushTimer := False, s_pendingPasteLines := [], s_pendingPasteIsSnippet := False, s_pendingPasteFromChunk := False\<rparr>
      in if pending \<noteq> [] \<and> (length pending \<ge> 2 \<or> wasSnippet \<or> wasFromChunk) \<and> s_inputBuffer s1 \<noteq> []
         then (pending @ [s_inputBuffer s1], True, clearInput s1)
         else (pending, length pending > 1 \<or> wasSnippet, s1))"

definition send_text :: "command_env \<Rightarrow> string \<Rightarrow> string \<Rightarrow> string \<Rightarrow> bool \<Rightarrow> server_act" where
  "send_text C user target content isSnippet =
     handleOutboundMessage (ce_server C) (ce_now C) (ce_out C) user target content False isSnippet"

text \<open>Lines for the console, or without a target, are dropped.\<close>

definition send_burst :: "command_env \<Rightarrow> string \<Rightarrow> string list \<Rightarrow> bool \<Rightarrow> server_act" where
  "send_burst C user lns isMulti =
     with_session user (\<lambda>s.
       if lns = [] \<or> s_activeTarget s = [] \<or> isSystemConsole (s_activeTarget s) then all_acts []
       else if isMulti
       then (let fullBlock = strip_breaks (join_with [CHR 0x0A] lns)
             in all_acts [if js_trim fullBlock \<noteq> [] then send_text C user (s_activeTarget s) fullBlock True else all_acts [],
                          mine C user ask_render])
       else (let singleMsg = js_trim (hd lns)
             in all_acts
                  [if singleMsg \<noteq> []
                   then all_acts [mine C user (pushHistory singleMsg), send_text C user (s_activeTarget s) singleMsg False]
                   else all_acts [],
                   mine C user ask_render]))"

definition flush_burst :: "command_env \<Rightarrow> string \<Rightarrow> server_act" where
  "flush_burst C user =
     with_session user (\<lambda>s.
       let (lns, isMulti, s1) = take_burst s
       in all_acts [mine C user (\<lambda>s. (s1, [])), send_burst C user lns isMulti])"

section \<open>Pastes\<close>

fun collapse_breaks :: "bool \<Rightarrow> string \<Rightarrow> string" where
  "collapse_breaks inside [] = []"
| "collapse_breaks inside (c # s) =
     (if c = CHR 0x0A \<or> c = CHR 0x0D then (if inside then collapse_breaks True s else CHR '' '' # collapse_breaks True s)
      else c # collapse_breaks False s)"

definition paste_line :: "string \<Rightarrow> session_act" where
  "paste_line text =
     and_ask [RenderInput]
       (\<lambda>s. s\<lparr>s_focus := Input, s_inputBuffer := s_inputBuffer s @ text, s_cursorIndex := length (s_inputBuffer s @ text)\<rparr>)"

definition handlePaste :: "command_env \<Rightarrow> string \<Rightarrow> string \<Rightarrow> bool \<Rightarrow> server_act" where
  "handlePaste C user content bracketed =
     with_session user (\<lambda>s.
       let cleaned = strip_breaks content;
           trimmed = js_trim cleaned;
           hasPendingBurst = s_pendingPasteLines s \<noteq> []
       in if trimmed = [] then all_acts []
          else if CHR 0x0A \<notin> set trimmed \<and> \<not> hasPendingBurst
          then mine C user (paste_line (collapse_breaks False trimmed))
          else if s_activeTarget s = [] \<or> isSystemConsole (s_activeTarget s) then all_acts []
          else if \<not> bracketed \<or> hasPendingBurst then mine C user (queueOutboundBurst cleaned True True)
          else
            let finalBlock = (if s_inputBuffer s \<noteq> [] then s_inputBuffer s @ [CHR 0x0A] @ cleaned else cleaned)
            in all_acts
                 [mine C user (silently (if s_inputBuffer s \<noteq> [] then clearInput else id)),
                  send_text C user (s_activeTarget s) finalBlock True, mine C user ask_render])"

section \<open>Keys\<close>

definition edit_key :: "(session \<Rightarrow> session) \<Rightarrow> session_act" where
  "edit_key f s = (if s_focus s = Input then (f s, [RenderInput]) else (s, []))"

text \<open>\<open>getOnlineUsers\<close> runs when the word to complete is a name and no completion of it is under way.\<close>

definition asks_users :: "session \<Rightarrow> bool" where
  "asks_users s =
     (let word = last (split_on CHR '' '' (before_cursor s))
      in starts_with ''@'' word \<and> (s_tabIndex s = -1 \<or> s_tabPrefix s \<noteq> word))"

definition tab_key :: "command_env \<Rightarrow> registry \<Rightarrow> string \<Rightarrow> server_act" where
  "tab_key C r user =
     with_session user (\<lambda>s.
       if s_focus s = Input \<and> js_trim (s_inputBuffer s) \<noteq> []
       then (\<lambda>cs. let (us, cs1) = (if asks_users s then getOnlineUsers (ce_server C) (ce_now C) cs else ([], cs))
                  in mine C user (handleTabCompletion (map cm_name (getAllUnique r)) us) cs1)
       else mine C user (and_ask [RequestRender] (\<lambda>s. s\<lparr>s_focus := (if s_focus s = Input then Sidebar else Input)\<rparr>)))"

definition tell_typing :: "command_env \<Rightarrow> string \<Rightarrow> server_act" where
  "tell_typing C user =
     with_session user (\<lambda>s.
       let target = s_activeTarget s
       in if target = [] \<or> starts_with ''#'' target \<or> isSystemConsole target then all_acts []
          else case parsed C target of
                 None \<Rightarrow> all_acts []
               | Some p \<Rightarrow>
                   if pa_isLocal p
                   then mine C (pa_raw p)
                          (\<lambda>r. if isSameTarget (ui_node (ce_ui C)) (s_activeTarget r) user then setTyping (nick_in user) r else (r, []))
                   else engine (ce_server C) (ce_now C) (\<lambda>E. sendTyping E user target))"

text \<open>The first key after a pasted chunk puts the flush off: the chunk's last line is still coming.\<close>

definition type_char :: "string \<Rightarrow> session_act" where
  "type_char c s =
     (let s1 = (if s_pasteFlushTimer s \<and> (s_pendingPasteFromChunk s \<or> length (s_pendingPasteLines s) \<ge> 2)
                then scheduleBurstFlush s else s)
      in if s_focus s = Input then (insertChar c s1, [RenderInput])
         else (insertChar c (s1\<lparr>s_focus := Input\<rparr>), [RequestRender]))"

definition char_key :: "command_env \<Rightarrow> string \<Rightarrow> string \<Rightarrow> server_act" where
  "char_key C user c =
     with_session user (\<lambda>s.
       if s_focus s = Input then all_acts [mine C user (type_char c), tell_typing C user] else mine C user (type_char c))"

definition up_key :: "session_act" where
  "up_key s =
     (if s_focus s = Input then (historyUp s, [RenderInput])
      else (if s_selectedContactIdx s > 0 then s\<lparr>s_selectedContactIdx := s_selectedContactIdx s - 1\<rparr> else s, [RequestRender]))"

definition down_key :: "session_act" where
  "down_key s =
     (if s_focus s = Input then (historyDown s, [RenderInput])
      else (if s_selectedContactIdx s < int (length (s_contacts s)) - 1
            then s\<lparr>s_selectedContactIdx := s_selectedContactIdx s + 1\<rparr> else s, [RequestRender]))"

definition choose_contact :: "command_env \<Rightarrow> session_act" where
  "choose_contact C s =
     (let i = s_selectedContactIdx s
      in if 0 \<le> i \<and> i < int (length (s_contacts s)) \<and> s_contacts s ! nat i \<noteq> []
         then one_by_one [setTarget (ce_ui C) (s_contacts s ! nat i), silently (\<lambda>s. s\<lparr>s_focus := Input\<rparr>)] s
         else (s, []))"

definition is_command :: "session \<Rightarrow> string \<Rightarrow> bool" where
  "is_command s input =
     (s_pendingPasteLines s = [] \<and> starts_with ''/'' input \<and> \<not> starts_with ''//'' input \<and> \<not> starts_with ''/*'' input)"

definition ends_socket :: "string \<Rightarrow> server_effect \<Rightarrow> bool" where
  "ends_socket user e = (case e of ToSession u (SocketEnd t) \<Rightarrow> u = user | _ \<Rightarrow> False)"

text \<open>\<open>open\<close>: the socket is not ended or destroyed when the command returns, unless the command ended it.\<close>

definition command_line :: "command_env \<Rightarrow> registry \<Rightarrow> string \<Rightarrow> bool \<Rightarrow> string \<Rightarrow> server_act" where
  "command_line C r user is_open input cs =
     (let (cs1, e1) = mine C user (pushHistory input) cs;
          (cs2, e2) = execute C r user input cs1;
          (cs3, e3) = (if is_open \<and> \<not> list_ex (ends_socket user) e2 then mine C user ask_render cs2 else (cs2, []))
      in (cs3, e1 @ e2 @ e3))"

definition enter_key :: "command_env \<Rightarrow> registry \<Rightarrow> string \<Rightarrow> bool \<Rightarrow> bool \<Rightarrow> server_act" where
  "enter_key C r user is_open fromChunkWithChars =
     with_session user (\<lambda>s.
       if s_focus s = Sidebar then mine C user (choose_contact C)
       else
         let rawLine = s_inputBuffer s; input = js_trim rawLine;
             clear = mine C user (silently clearInput)
         in if input = []
            then all_acts [clear, mine C user (if s_pendingPasteLines s \<noteq> [] then queueOutboundBurst [] False fromChunkWithChars
                                               else and_ask [RenderInput] id)]
            else if is_command s input then all_acts [clear, command_line C r user is_open input]
            else if isSystemConsole (s_activeTarget s)
            then all_acts [clear, say_to C user ''SYS_SYSTEM_WINDOW_NO_MSG'']
            else if s_activeTarget s \<noteq> [] then all_acts [clear, mine C user (queueOutboundBurst rawLine False fromChunkWithChars)]
            else clear)"

definition handleAction :: "command_env \<Rightarrow> registry \<Rightarrow> string \<Rightarrow> bool \<Rightarrow> key_action \<Rightarrow> server_act" where
  "handleAction C r user is_open action =
     (case action of
        RESIZE w h \<Rightarrow> mine C user (resize w h)
      | PASTE_COMPLETE content bracketed \<Rightarrow> handlePaste C user content bracketed
      | KEY_TAB \<Rightarrow> tab_key C r user
      | CHAR_IN c \<Rightarrow> char_key C user c
      | KEY_BACKSPACE \<Rightarrow> mine C user (edit_key backspace)
      | KEY_DELETE \<Rightarrow> mine C user (edit_key deleteForward)
      | KEY_CTRL_W \<Rightarrow> mine C user (edit_key deleteWord)
      | KEY_CTRL_U \<Rightarrow> mine C user (edit_key clearInput)
      | KEY_LEFT \<Rightarrow> mine C user (edit_key moveCursorLeft)
      | KEY_RIGHT \<Rightarrow> mine C user (edit_key moveCursorRight)
      | KEY_PAGE_UP \<Rightarrow> mine C user (and_ask [RequestRender] (scrollUp 5))
      | KEY_PAGE_DOWN \<Rightarrow> mine C user (and_ask [RequestRender] (scrollDown 5))
      | KEY_UP \<Rightarrow> mine C user up_key
      | KEY_DOWN \<Rightarrow> mine C user down_key
      | KEY_ENTER fromChunkWithChars \<Rightarrow> enter_key C r user is_open fromChunkWithChars
      | KEY_INTERRUPT \<Rightarrow> (\<lambda>cs. (cs, [ToSession user (SocketEnd (i18n C ''TUI_SESSION_CLOSED'' []))]))
      | _ \<Rightarrow> all_acts [])"

section \<open>Input keeps the server's invariant\<close>

lemma fine_same: "line_part t = line_part s \<Longrightarrow> screen_part t = screen_part s \<Longrightarrow> session_fine s \<Longrightarrow> session_fine t"
  using lines_same [of t s] screen_ok_same [of t s] by (simp add: session_fine_def)

lemma fine_edit: "session_fine s \<Longrightarrow> session_fine (do_edit e s)"
  using edit_simulates [of s e] edit_tabs [of s e] screen_ok_same [OF edit_parts(2) [of e s]]
  by (simp add: session_fine_def history_ok_def edit_history)

lemma fine_clear [simp]: "session_fine s \<Longrightarrow> session_fine (clearInput s)"
  using fine_edit [of s ClearLine] by simp

lemma safe_edit [safe]:
  "safe_act (edit_key backspace)" "safe_act (edit_key deleteForward)" "safe_act (edit_key deleteWord)"
  "safe_act (edit_key clearInput)" "safe_act (edit_key moveCursorLeft)" "safe_act (edit_key moveCursorRight)"
  using fine_edit [of _ Backspace] fine_edit [of _ DeleteForward] fine_edit [of _ DeleteWord] fine_edit [of _ ClearLine]
    fine_edit [of _ CursorLeft] fine_edit [of _ CursorRight]
  by (simp_all add: safe_act_def edit_key_def)

lemma fine_pending: "session_fine s \<Longrightarrow> session_fine (s\<lparr>s_pasteFlushTimer := a\<rparr>)"
  "session_fine s \<Longrightarrow> session_fine (s\<lparr>s_focus := f\<rparr>)" "session_fine s \<Longrightarrow> session_fine (s\<lparr>s_pendingPasteLines := l\<rparr>)"
  "session_fine s \<Longrightarrow> session_fine (s\<lparr>s_pendingPasteIsSnippet := b\<rparr>)" "session_fine s \<Longrightarrow> session_fine (s\<lparr>s_pendingPasteFromChunk := b\<rparr>)"
  by (erule fine_same [rotated 2], simp_all add: parts)+

lemma fine_more: "session_fine s \<Longrightarrow> session_fine (s\<lparr>s_selectedContactIdx := i\<rparr>)" "session_fine s \<Longrightarrow> session_fine (s\<lparr>s_scrollOffset := n\<rparr>)"
  by (erule fine_same [rotated 2], simp_all add: parts)+

lemma fine_queue: "session_fine s \<Longrightarrow> session_fine (queue_lines t a b s)"
proof -
  assume s: "session_fine s"
  have q: "session_fine (x\<lparr>s_pendingPasteIsSnippet := p, s_pendingPasteFromChunk := q, s_pendingPasteLines := l\<rparr>)"
    "session_fine (x\<lparr>s_pendingPasteLines := l, s_pendingPasteFromChunk := q\<rparr>)" if "session_fine x" for x p q l
    using that by (simp_all add: fine_pending)
  show ?thesis using s by (simp add: queue_lines_def q fine_pending Let_def)
qed

lemma safe_queue [safe]: "safe_act (queueOutboundBurst t a b)"
  by (simp add: safe_act_def queueOutboundBurst_def silently_def scheduleBurstFlush_def fine_queue fine_pending)

lemma fine_burst: "session_fine s \<Longrightarrow> session_fine (snd (snd (take_burst s)))"
proof -
  assume s: "session_fine s"
  have "session_fine (s\<lparr>s_pasteFlushTimer := False, s_pendingPasteLines := [], s_pendingPasteIsSnippet := False, s_pendingPasteFromChunk := False\<rparr>)"
    using s by (simp add: fine_pending)
  then show ?thesis by (simp add: take_burst_def Let_def)
qed

lemma fine_show: "session_fine s \<Longrightarrow> -1 \<le> s_historyIndex t \<Longrightarrow> s_historyIndex t < int (length (s_history t)) \<Longrightarrow>
    tabs_ok t = tabs_ok s \<Longrightarrow> screen_part t = screen_part s \<Longrightarrow> session_fine (show_history t)"
  using screen_ok_same [of t s]
  by (simp add: session_fine_def show_history_def line_ok_def history_ok_def tabs_ok_def screen_ok_def Let_def)

lemma fine_history: "session_fine s \<Longrightarrow> session_fine (historyUp s)" "session_fine s \<Longrightarrow> session_fine (historyDown s)"
proof -
  assume s: "session_fine s"
  then have h: "-1 \<le> s_historyIndex s" "s_historyIndex s < int (length (s_history s))" by (simp_all add: session_fine_def history_ok_def)
  show "session_fine (historyUp s)" using s h
    by (auto simp: historyUp_def tabs_ok_def screen_part_def intro!: fine_show [OF s])
  show "session_fine (historyDown s)" using s h
    by (auto simp: historyDown_def tabs_ok_def screen_part_def intro!: fine_show [OF s]) (simp_all add: session_fine_defs)
qed

lemma safe_keys [safe]:
  "safe_act up_key" "safe_act down_key" "safe_act (choose_contact C)" "safe_act (resize w h)" "safe_act (pushHistory c)"
  "safe_act (and_ask es (scrollUp n))" "safe_act (and_ask es (scrollDown n))" "safe_act (and_ask es id)"
  "safe_act (silently clearInput)" "safe_act (silently id)" "safe_act (and_ask es (\<lambda>s. s\<lparr>s_focus := f s\<rparr>))"
proof -
  have "safe_act (silently (\<lambda>s. s\<lparr>s_focus := Input\<rparr>))" by (simp add: safe_act_def silently_def fine_pending)
  then have "safe_act (one_by_one [setTarget U t, silently (\<lambda>s. s\<lparr>s_focus := Input\<rparr>)])" for U t
    by (intro safe_one_by_one) (simp add: safe_target)
  then show "safe_act (choose_contact C)" by (simp add: safe_act_def choose_contact_def Let_def)
  show "safe_act (resize w h)" by (simp add: safe_act_def resize_def session_fine_defs Let_def)
  show "safe_act (pushHistory c)"
    by (simp add: safe_act_def pushHistory_def silently_def notifyProfileChange_def session_fine_defs)
qed (simp_all add: safe_act_def up_key_def down_key_def and_ask_def silently_def scrollUp_def scrollDown_def fine_history
    fine_more fine_pending)

lemma fine_insert: "session_fine s \<Longrightarrow> session_fine (insertChar c s)"
  using fine_edit [of s "Insert c"] by simp

lemma safe_type [safe]: "safe_act (type_char c)"
  by (simp add: safe_act_def type_char_def scheduleBurstFlush_def fine_insert fine_pending Let_def)

lemma safe_paste [safe]: "safe_act (paste_line t)"
  by (simp add: safe_act_def paste_line_def and_ask_def session_fine_defs)

lemma safe_tab [safe]: "safe_act (handleTabCompletion commands users)"
  unfolding safe_act_def
proof (intro allI impI)
  fix s assume s: "session_fine s"
  let ?tokens = "split_on CHR '' '' (before_cursor s)"
  have choose: "session_fine (choose_completion ts t)" if "tabs_ok t" "history_ok t" "screen_ok t" for ts t
    using that screen_ok_same [OF choose_fields(5) [of ts t]] by (simp add: session_fine_def choose_fields)
  have fine: "tabs_ok s" "history_ok s" "screen_ok s" using s by (simp_all add: session_fine_def)
  have turn: "0 \<le> (s_tabIndex s + 1) mod int (length (s_tabCompletions s)) \<and>
      (s_tabIndex s + 1) mod int (length (s_tabCompletions s)) < int (length (s_tabCompletions s))" if "s_tabIndex s \<noteq> -1"
    using that fine(1) by (cases "s_tabCompletions s") (auto simp: tabs_ok_def)
  have "session_fine (s\<lparr>s_tabPrefix := p\<rparr>)" for p using s by (simp add: session_fine_defs)
  moreover have "session_fine (choose_completion ?tokens (s\<lparr>s_tabPrefix := p, s_tabCompletions := found, s_tabIndex := 0\<rparr>))"
    if "found \<noteq> []" "list_all (ends_with '' '') found" for p found
    using that fine by (intro choose) (simp_all add: tabs_ok_def history_ok_def screen_ok_def)
  moreover have "session_fine (choose_completion ?tokens
      (s\<lparr>s_tabIndex := (s_tabIndex s + 1) mod int (length (s_tabCompletions s))\<rparr>))" if "s_tabIndex s \<noteq> -1"
    using turn [OF that] fine by (intro choose) (simp_all add: tabs_ok_def history_ok_def screen_ok_def)
  ultimately show "session_fine (fst (handleTabCompletion commands users s))"
    using s candidates_end [of commands users s "last ?tokens"] by (simp add: handleTabCompletion_def Let_def)
qed

lemma keeps_text [kept]: "keeps (ce_server C) (send_text C user t c b)"
  unfolding send_text_def by (rule keeps_outbound)

lemma keeps_burst: "keeps (ce_server C) (flush_burst C user)"
proof -
  have send: "keeps (ce_server C) (send_burst C user lns b)" for lns b
    unfolding send_burst_def Let_def by (intro kept safe)
  show ?thesis unfolding keeps_def
  proof (intro allI impI)
    fix cs assume cs: "server_inv (ce_server C) cs"
    show "server_inv (ce_server C) (fst (flush_burst C user cs))"
    proof (cases "jm_get (cs_sessions cs) user")
      case (Some s)
      have "session_fine s" using Some cs by (auto simp: server_inv_def list_all_iff dest!: map_of_SomeD)
      then have "safe_act (\<lambda>x. (snd (snd (take_burst s)), []))" using fine_burst by (simp add: safe_act_def)
      then have "keeps (ce_server C) (all_acts [mine C user (\<lambda>x. (snd (snd (take_burst s)), [])),
          send_burst C user (fst (take_burst s)) (fst (snd (take_burst s)))])"
        by (intro kept send)
      then show ?thesis using cs Some by (simp add: flush_burst_def with_session_def split_beta keepsD del: all_acts.simps)
    qed (use cs in \<open>simp add: flush_burst_def with_session_def\<close>)
  qed
qed

lemma keeps_paste: "keeps (ce_server C) (handlePaste C user content b)"
proof -
  have "safe_act (silently (if s_inputBuffer s \<noteq> [] then clearInput else id))" for s by (simp add: safe)
  then show ?thesis unfolding handlePaste_def Let_def by (intro kept safe)
qed

lemma keeps_tab: "keeps (ce_server C) (tab_key C r user)"
proof -
  have "keeps (ce_server C) (\<lambda>cs. let (us, cs1) = (if asks_users s then getOnlineUsers (ce_server C) (ce_now C) cs else ([], cs))
      in mine C user (handleTabCompletion (names us) us) cs1)" for s names
    by (simp add: keeps_def split_beta keepsD [OF keeps_mine [OF safe_tab]] keeps_online)
  then show ?thesis unfolding tab_key_def by (intro kept safe)
qed

lemma keeps_char: "keeps (ce_server C) (char_key C user c)"
proof -
  have "safe_act (\<lambda>r. if P r then setTyping u r else (r, []))" for P u by (intro safe)
  then have "keeps (ce_server C) (tell_typing C user)" unfolding tell_typing_def Let_def by (intro kept safe) simp_all
  then show ?thesis unfolding char_key_def by (intro kept safe)
qed

lemma keeps_line: "keeps (ce_server C) (command_line C r user b input)"
  using keepsD [OF keeps_execute] keepsD [OF keeps_mine [OF safe_keys(5)]] keepsD [OF keeps_mine [OF safe_basic(1)]]
  by (simp add: keeps_def command_line_def split_beta Let_def)

lemma keeps_enter: "keeps (ce_server C) (enter_key C r user b c)"
proof -
  have "safe_act (if P then queueOutboundBurst [] False c else and_ask [RenderInput] id)" for P by (simp add: safe)
  then show ?thesis unfolding enter_key_def Let_def by (intro kept safe keeps_line)
qed

lemma keeps_action: "keeps (ce_server C) (handleAction C r user b action)"
  by (cases action) (simp_all add: handleAction_def keeps_mine safe keeps_paste keeps_tab keeps_char keeps_enter keeps_nil keeps_same
      del: all_acts.simps)

section \<open>Every reachable state of the server\<close>

text \<open>
  Users log in and out and press keys; timers fire; the engine takes its own steps and reports messages, typing users
  and changes of presence.
\<close>

inductive server_reach :: "server_env \<Rightarrow> client_server \<Rightarrow> bool" for E where
  start: "distinct (map m_id (messages d)) \<Longrightarrow> server_reach E (new_server (new_fed (se_fed E) d p))"
| joins: "server_reach E cs \<Longrightarrow> server_reach E (fst (add_session E now user
      ((new_session (se_ui E) user contacts history)\<lparr>s_isSsh := ssh, s_kemKeyPair := kem\<rparr>) cs))"
| leaves: "server_reach E cs \<Longrightarrow> server_reach E (fst (remove_session E now user current s cs))"
| key: "server_reach E cs \<Longrightarrow> ce_server C = E \<Longrightarrow> server_reach E (fst (handleAction C r user is_open action cs))"
| flush: "server_reach E cs \<Longrightarrow> ce_server C = E \<Longrightarrow> server_reach E (fst (flush_burst C user cs))"
| typing: "server_reach E cs \<Longrightarrow> server_reach E (fst (on_session E now user typing_expires cs))"
| report: "server_reach E cs \<Longrightarrow> server_reach E (fst (hear E now e cs))"
| engine_step: "server_reach E cs \<Longrightarrow> server_reach E (cs\<lparr>cs_fed := node_step (node_env E cs) now ev (cs_fed cs)\<rparr>)"
| timer: "server_reach E cs \<Longrightarrow> server_reach E (fst (render_timer E now cs))"

lemma new_fine: "session_fine ((new_session U user contacts history)\<lparr>s_isSsh := ssh, s_kemKeyPair := kem\<rparr>)"
proof -
  have "session_fine (new_session U user contacts history)"
    using new_session_ok [of U user contacts history] by (simp add: session_fine_def session_ok_def)
  then show ?thesis by (rule fine_same [rotated 2]) (simp_all add: parts)
qed

lemma server_reach_inv: "server_reach E cs \<Longrightarrow> server_inv E cs"
proof (induction rule: server_reach.induct)
  case (start d p)
  then show ?case by (simp add: server_inv_def new_server_def inv_start)
next
  case (engine_step cs now ev)
  then have "node_inv (node_env E cs) (node_step (node_env E cs) now ev (cs_fed cs))"
    by (intro inv_node_step) (simp add: inv_fed)
  with engine_step.IH show ?case by (simp add: keeps_fed)
next
  case (typing cs now user)
  have "safe_act typing_expires" by (simp add: safe_act_def typing_expires_def and_ask_def session_fine_defs)
  then show ?case by (intro keepsD [OF keeps_session typing.IH])
next
  case (timer cs now)
  then show ?case unfolding render_timer_def by (intro keepsD [OF keeps_render])
next
  case (joins cs now user contacts history ssh kem)
  then show ?case by (intro keepsD [OF keeps_add [OF new_fine]])
next
  case (leaves cs now user current s)
  then show ?case by (intro keepsD [OF keeps_remove])
next
  case (key cs C r user is_open action)
  then show ?case using keepsD [OF keeps_action [of C r user is_open action]] by simp
next
  case (flush cs C user)
  then show ?case using keepsD [OF keeps_burst [of C user]] by simp
next
  case (report cs now e)
  then show ?case by (intro keepsD [OF keeps_hear])
qed

text \<open>
  C15. However users log in and out, whatever keys they press and text they paste, and whatever the mesh sends
  meanwhile: no session's cursor leaves its line or its history index the history, none keeps more than 200 system
  lines, and the engine below stores no message under an id it has, and keeps its pool of channels within its limit.
\<close>

theorem server_stays_consistent:
  assumes "server_reach E cs"
  shows "(\<forall>user s. jm_get (cs_sessions cs) user = Some s \<longrightarrow>
      s_cursorIndex s \<le> length (s_inputBuffer s) \<and> s_historyIndex s < int (length (s_history s)) \<and> length (s_systemLogs s) \<le> 200) \<and>
    distinct (jm_keys (cs_sessions cs)) \<and> distinct (map m_id (messages (f_db (cs_fed cs)))) \<and> length (f_pool (cs_fed cs)) \<le> 500"
proof -
  have inv: "server_inv E cs" using assms by (rule server_reach_inv)
  have "session_fine s" if "jm_get (cs_sessions cs) user = Some s" for user s
    using inv that by (auto simp: server_inv_def list_all_iff dest!: map_of_SomeD)
  then show ?thesis using inv
    by (auto simp: session_fine_defs MAX_LOGS_def server_inv_def node_inv_def max_pool_def msg_ids_def jm_ok_def)
qed

definition sample_commands :: command_env where
  "sample_commands = \<lparr>ce_server = sample_server, ce_now = 5, ce_out = sample_outbound, ce_sent = True, ce_uptime = 0,
     ce_rss = ''1'', ce_heap = ''1''\<rparr>"

definition sample_run :: client_server where
  "sample_run = fst (handleAction sample_commands createCommandRegistry ''@ann:n.mesh'' True (CHAR_IN ''a'')
     (fst (add_session sample_server 5 ''@ann:n.mesh''
        ((new_session (se_ui sample_server) ''@ann:n.mesh'' [] [])\<lparr>s_isSsh := False, s_kemKeyPair := None\<rparr>)
        (new_server (new_fed (se_fed sample_server) (empty_db []) (new_peers (fe_penv sample_node)))))))"

theorem server_stays_consistent_witness:
  "length (f_pool (cs_fed sample_run)) \<le> 500 \<and> distinct (jm_keys (cs_sessions sample_run))"
proof -
  have "server_reach sample_server sample_run"
    unfolding sample_run_def
    by (intro server_reach.key server_reach.joins server_reach.start) (simp_all add: sample_commands_def empty_db_def)
  from server_stays_consistent [OF this] show ?thesis by blast
qed

section \<open>A burst of lines is one message\<close>

definition enter_lines :: "string list \<Rightarrow> session \<Rightarrow> session" where
  "enter_lines lns s = fold (\<lambda>l s. fst (queueOutboundBurst l False False s)) lns s"

definition idle :: "session \<Rightarrow> bool" where
  "idle s = (s_pendingPasteLines s = [] \<and> \<not> s_pendingPasteIsSnippet s \<and> \<not> s_pendingPasteFromChunk s \<and> s_inputBuffer s = [])"

lemma enter_line: "fst (queueOutboundBurst l False False s) =
    s\<lparr>s_pendingPasteLines := s_pendingPasteLines s @ [l], s_pasteFlushTimer := True\<rparr>"
  by (simp add: queueOutboundBurst_def silently_def scheduleBurstFlush_def queue_lines_def)

lemma entered: "lns \<noteq> [] \<Longrightarrow> enter_lines lns s = s\<lparr>s_pendingPasteLines := s_pendingPasteLines s @ lns, s_pasteFlushTimer := True\<rparr>"
proof (induction lns arbitrary: s rule: list_nonempty_induct)
  case (cons l lns)
  then show ?case by (simp add: enter_lines_def enter_line)
qed (simp add: enter_lines_def enter_line)

text \<open>
  C39. Lines entered in quick succession are not torn apart: when the timer fires they leave as one snippet, in their
  order, for the conversation that is open then, and the session holds none of them any more.
\<close>

theorem burst_leaves_as_one:
  assumes "idle s" "2 \<le> length lns" "jm_get (cs_sessions cs) user = Some (enter_lines lns s)"
    and "s_activeTarget s \<noteq> []" "\<not> isSystemConsole (s_activeTarget s)" "js_trim (strip_breaks (join_with [CHR 0x0A] lns)) \<noteq> []"
  shows "fst (flush_burst C user cs) =
    fst (all_acts [send_text C user (s_activeTarget s) (strip_breaks (join_with [CHR 0x0A] lns)) True, mine C user ask_render]
      (cs\<lparr>cs_sessions := jm_set user (s\<lparr>s_pasteFlushTimer := False\<rparr>) (cs_sessions cs)\<rparr>))"
proof -
  let ?s = "s\<lparr>s_pasteFlushTimer := False\<rparr>" and ?q = "enter_lines lns s"
  let ?cs = "cs\<lparr>cs_sessions := jm_set user ?s (cs_sessions cs)\<rparr>"
  have ne: "lns \<noteq> []" using assms(2) by auto
  have "take_burst ?q = (lns, True, ?s)"
  proof -
    have "s_pendingPasteLines s = []" "s_pendingPasteIsSnippet s = False" "s_pendingPasteFromChunk s = False" "s_inputBuffer s = []"
      using assms(1) by (simp_all add: idle_def)
    then show ?thesis using assms(2) entered [OF ne, of s] by (cases s) (simp add: take_burst_def)
  qed
  moreover have "mine C user (\<lambda>x. (?s, [])) cs = (?cs, [])"
    using assms(3) by (simp add: mine_def on_session_def)
  ultimately have "fst (flush_burst C user cs) = fst (send_burst C user lns True ?cs)"
    using assms(3) by (simp add: flush_burst_def with_session_def Let_def split_beta)
  also have "\<dots> = fst (all_acts [send_text C user (s_activeTarget s) (strip_breaks (join_with [CHR 0x0A] lns)) True,
      mine C user ask_render] ?cs)"
    using ne assms(4-6) by (simp add: send_burst_def with_session_def jsmap_simps del: all_acts.simps)
  finally show ?thesis .
qed

definition sample_burst :: client_server where
  "sample_burst = (new_server (sample_fed sample_node))
     \<lparr>cs_sessions := [(''@ann:n.mesh'', enter_lines [''a'', ''b''] (new_session sample_ui ''@ann:n.mesh'' [] []))]\<rparr>"

theorem burst_leaves_as_one_witness:
  "fst (flush_burst sample_commands ''@ann:n.mesh'' sample_burst) =
    fst (all_acts [send_text sample_commands ''@ann:n.mesh'' ''#general'' [CHR ''a'', CHR 0x0A, CHR ''b''] True,
      mine sample_commands ''@ann:n.mesh'' ask_render]
      (sample_burst\<lparr>cs_sessions := [(''@ann:n.mesh'', new_session sample_ui ''@ann:n.mesh'' [] [])]\<rparr>))"
proof -
  let ?s = "new_session sample_ui ''@ann:n.mesh'' [] []"
  have t: "s_activeTarget ?s = ''#general''" by (simp add: new_session_def sample_ui_def default_channel_def default_channel_name_def)
  have j: "strip_breaks (join_with [CHR 0x0A] [''a'', ''b'']) = [CHR ''a'', CHR 0x0A, CHR ''b'']" by code_simp
  have u: "?s\<lparr>s_pasteFlushTimer := False\<rparr> = ?s" by (simp add: new_session_def)
  have b: "cs_sessions sample_burst = [(''@ann:n.mesh'', enter_lines [''a'', ''b''] ?s)]" by (simp add: sample_burst_def)
  have "idle ?s" by (simp add: idle_def new_session_def)
  moreover have "\<not> isSystemConsole ''#general''" by code_simp
  moreover have "js_trim [CHR ''a'', CHR 0x0A, CHR ''b''] \<noteq> []" by code_simp
  ultimately show ?thesis
    using burst_leaves_as_one [of ?s "[''a'', ''b'']" sample_burst "''@ann:n.mesh''" sample_commands] t j u b by simp
qed

end
