(* ===== verification/Health.thy ===== *)
theory Health
  imports Federation
begin

text \<open>
  \<open>src/core/healthServer.js\<close>: the line protocol for monitors. A connection is its buffer and whether the socket was
  destroyed or ended; the rest of the program is read through the record \<open>health_env\<close>, with the database, the engine and
  its peers given as \<open>src/index.js\<close> gives them. The server is its address, whether it listens and the set of its sockets;
  listening itself is I/O. A write after \<open>QUIT\<close> is an effect like any other: the socket answers it with an error event.
\<close>

section \<open>The figures\<close>

record health_env =
  he_fed :: fed_env
  he_state :: fed
  he_version :: string
  he_hasDb :: bool
  he_query :: "string option"
  he_startTime :: int
  he_remote :: "string option"
  he_rssMb :: json
  he_heapUsedMb :: json

text \<open>The error of the database: none given, or the message with which \<open>SELECT 1\<close> failed.\<close>

definition db_error :: "health_env \<Rightarrow> string option" where
  "db_error H = (if he_hasDb H then he_query H else Some ''Database not initialized'')"

definition getHealthData :: "health_env \<Rightarrow> int \<Rightarrow> (string \<times> json) list" where
  "getHealthData H now =
     (let status = (if db_error H = None then ''healthy'' else ''unhealthy'')
      in [(''status'', JStr status), (''uptime'', JNum ((now - he_startTime H) div 1000)), (''database'', JStr status),
          (''timestamp'', JNum now)] @
         (case db_error H of Some e \<Rightarrow> (if e = [] then [] else [(''error'', JStr e)]) | None \<Rightarrow> []))"

definition verified_peer :: "peer_meta \<Rightarrow> bool" where
  "verified_peer p = (failures p = 0 \<and> score p \<ge> 80)"

definition getStatusData :: "health_env \<Rightarrow> int \<Rightarrow> json" where
  "getStatusData H now =
     (let E = he_fed H; f = he_state H; cfg = fe_cfg E; health = getHealthData H now
      in JObj
           [(''status'', the (jm_get health ''status'')), (''version'', JStr (he_version H)), (''serverName'', JStr (serverName cfg)),
            (''nodeAddress'', JStr (if fe_meshAddress E \<noteq> [] then fe_meshAddress E
                                    else if f_nodeAddress f \<noteq> [] then f_nodeAddress f else ''unknown'')),
            (''meshRole'', JStr (if f_role f \<noteq> [] then f_role f else if meshRole cfg \<noteq> [] then meshRole cfg else ''EDGE'')),
            (''uptimeSeconds'', the (jm_get health ''uptime'')), (''timestamp'', JNum now),
            (''database'', JObj [(''status'', the (jm_get health ''database'')), (''walMode'', JBool True)]),
            (''federation'', JObj
               [(''port'', JNum (federationPort cfg)), (''activeRendezvousTunnels'', JNum (int (length (f_tunnels f)))),
                (''maxRendezvousTunnels'', JNum (or_default (maxRendezvousTunnels cfg) 64)),
                (''activeCircuits'', JNum (int (length (f_circuits f))))]),
            (''peers'', JObj
               [(''totalKnown'', JNum (int (length (peers (f_peers f))))),
                (''verified'', JNum (int (length (filter (\<lambda>(a, p). verified_peer p) (peers (f_peers f))))))]),
            (''quantumSecurity'', JObj [(''mlkem768'', JBool True), (''strictPq'', JBool (strictPq cfg))]),
            (''memory'', JObj [(''rssMb'', he_rssMb H), (''heapUsedMb'', he_heapUsedMb H)])])"

section \<open>The protocol\<close>

datatype health_effect = HWrite string | HEnd | HDestroy

record health_sock =
  hk_buffer :: string
  hk_destroyed :: bool
  hk_ended :: bool

definition new_sock :: health_sock where
  "new_sock = \<lparr>hk_buffer = [], hk_destroyed = False, hk_ended = False\<rparr>"

definition NL :: char where
  "NL = CHR 0x0A"

text \<open>\<open>toUpperCase\<close> on the letters the commands are made of; no other character of a text becomes one of these.\<close>

definition upper_char :: "char \<Rightarrow> char" where
  "upper_char c = (let n = of_char c :: nat in if 97 \<le> n \<and> n \<le> 122 then char_of (n - 32) else c)"

definition js_upper :: "string \<Rightarrow> string" where
  "js_upper s = map upper_char s"

definition strip_cr :: "string \<Rightarrow> string" where
  "strip_cr s = (if s \<noteq> [] \<and> last s = CHR 0x0D then butlast s else s)"

definition is_loopback :: "health_env \<Rightarrow> bool" where
  "is_loopback H =
     (let clean = strip_v4mapped (case he_remote H of Some a \<Rightarrow> a | None \<Rightarrow> [])
      in clean \<in> {''127.0.0.1'', ''::1'', ''localhost''})"

definition health_line :: "health_env \<Rightarrow> int \<Rightarrow> string" where
  "health_line H now =
     (let health = getHealthData H now
      in (if jm_get health ''status'' = Some (JStr ''healthy'') then ''OK '' else ''ERR '') @ stringify (JObj health) @ [NL])"

definition answer :: "health_env \<Rightarrow> int \<Rightarrow> string \<Rightarrow> health_effect list" where
  "answer H now cmd =
     (if cmd = ''PING'' then [HWrite (''PONG'' @ [NL])]
      else if cmd \<in> {''HEALTH'', ''CHECK''} then [HWrite (health_line H now)]
      else if cmd \<in> {''STATUS'', ''INFO''}
      then [HWrite (if is_loopback H then stringify (getStatusData H now) @ [NL] else ''ERR unauthorized'' @ [NL])]
      else if cmd = ''QUIT'' then [HEnd]
      else [HWrite (''ERR unknown_command'' @ [NL])])"

lemma rest_shorter: "NL \<in> set buf \<Longrightarrow> length (tl (dropWhile (\<lambda>c. c \<noteq> NL) buf)) < length buf"
  by (induction buf) auto

text \<open>The loop over the lines of the buffer. \<open>QUIT\<close> leaves it, and what follows stays in the buffer.\<close>

function read_lines :: "health_env \<Rightarrow> int \<Rightarrow> string \<Rightarrow> string \<times> health_effect list" where
  "read_lines H now buf =
     (if NL \<notin> set buf then (buf, [])
      else
        let line = js_trim (strip_cr (before NL buf));
            rest = tl (dropWhile (\<lambda>c. c \<noteq> NL) buf);
            cmd = js_upper line
        in if line = [] then read_lines H now rest
           else if cmd = ''QUIT'' then (rest, answer H now cmd)
           else let (buf', es) = read_lines H now rest in (buf', answer H now cmd @ es))"
  by pat_completeness auto

termination
  by (relation "measure (\<lambda>(H, now, buf). length buf)") (auto dest: rest_shorter)

definition MAX_HEALTH_BUFFER :: nat where
  "MAX_HEALTH_BUFFER = 8192"

definition on_health_data :: "health_env \<Rightarrow> int \<Rightarrow> byte list \<Rightarrow> health_sock \<Rightarrow> health_sock \<times> health_effect list" where
  "on_health_data H now chunk k =
     (if hk_destroyed k then (k, [])
      else
        let buf = hk_buffer k @ from_utf8 chunk
        in if length buf > MAX_HEALTH_BUFFER then (k\<lparr>hk_buffer := buf, hk_destroyed := True\<rparr>, [HDestroy])
           else let (buf', es) = read_lines H now buf
                in (k\<lparr>hk_buffer := buf', hk_ended := hk_ended k \<or> HEnd \<in> set es\<rparr>, es))"

fun on_health_chunks :: "health_env \<Rightarrow> int \<Rightarrow> byte list list \<Rightarrow> health_sock \<Rightarrow> health_sock \<times> health_effect list" where
  "on_health_chunks H now [] k = (k, [])"
| "on_health_chunks H now (c # cs) k =
     (let (k1, e1) = on_health_data H now c k; (k2, e2) = on_health_chunks H now cs k1 in (k2, e1 @ e2))"

section \<open>What leaves the node\<close>

declare read_lines.simps [simp del]

text \<open>The answers that tell nothing about the node but whether it works.\<close>

definition harmless :: "health_env \<Rightarrow> int \<Rightarrow> health_effect \<Rightarrow> bool" where
  "harmless H now e =
     (case e of
        HWrite t \<Rightarrow> t \<in> {''PONG'' @ [NL], health_line H now, ''ERR unauthorized'' @ [NL], ''ERR unknown_command'' @ [NL]}
      | _ \<Rightarrow> True)"

lemma answer_harmless: "\<not> is_loopback H \<Longrightarrow> list_all (harmless H now) (answer H now cmd)"
  by (simp add: answer_def harmless_def)

lemma lines_harmless: "\<not> is_loopback H \<Longrightarrow> list_all (harmless H now) (snd (read_lines H now buf))"
proof (induction H now buf rule: read_lines.induct)
  case (1 H now buf)
  let ?rest = "tl (dropWhile (\<lambda>c. c \<noteq> NL) buf)"
  obtain b es where r: "read_lines H now ?rest = (b, es)" by fastforce
  show ?case using 1 answer_harmless [of H now] r by (subst read_lines.simps) (auto simp: Let_def)
qed



lemma lines_shorter: "length (fst (read_lines H now buf)) \<le> length buf"
proof (induction H now buf rule: read_lines.induct)
  case (1 H now buf)
  show ?case
  proof (cases "NL \<in> set buf")
    case True
    let ?rest = "tl (dropWhile (\<lambda>c. c \<noteq> NL) buf)" and ?line = "js_trim (strip_cr (before NL buf))"
    have IH: "?line = [] \<or> js_upper ?line \<noteq> ''QUIT'' \<Longrightarrow> length (fst (read_lines H now ?rest)) \<le> length ?rest"
      using 1(1) [OF _ refl refl refl] 1(2) [OF _ refl refl refl] True by (cases "?line = []") simp_all
    show ?thesis using IH rest_shorter [OF True] True
      by (subst read_lines.simps) (simp only: Let_def split_beta if_not_P if_P fst_conv not_not simp_thms split: if_split, linarith)
  qed (subst read_lines.simps, simp)
qed

lemma health_buffer_bounded:
  "length (hk_buffer k) \<le> MAX_HEALTH_BUFFER \<Longrightarrow>
    hk_destroyed (fst (on_health_chunks H now chunks k)) \<or> length (hk_buffer (fst (on_health_chunks H now chunks k))) \<le> MAX_HEALTH_BUFFER"
proof (induction chunks arbitrary: k)
  case (Cons c cs)
  obtain k1 e1 where k1: "on_health_data H now c k = (k1, e1)" by fastforce
  have dead: "hk_destroyed x \<Longrightarrow> hk_destroyed (fst (on_health_chunks H now xs x))" for x xs
    by (induction xs arbitrary: x) (simp_all add: on_health_data_def split_beta Let_def)
  have "hk_destroyed k1 \<or> length (hk_buffer k1) \<le> MAX_HEALTH_BUFFER"
    using k1 Cons.prems lines_shorter [of H now "hk_buffer k @ from_utf8 c"]
    by (auto simp: on_health_data_def Let_def split_beta split: if_splits)
  then show ?case using Cons.IH [of k1] dead [of k1 cs] k1 by (auto simp: split_beta Let_def)
qed simp

text \<open>After \<open>QUIT\<close> the rest of the packet waits, and is answered when another one comes.\<close>

lemma quit_does_not_stop:
  "snd (on_health_chunks H now [[81, 85, 73, 84, 10, 80, 73, 78, 71, 10], [10]] new_sock) = [HEnd, HWrite (''PONG'' @ [NL])]"
  by code_simp

section \<open>The server and its sockets\<close>

record health_server =
  hs_port :: int
  hs_host :: string
  hs_listening :: bool
  hs_sockets :: "nat list"
  hs_conns :: "(nat, health_sock) jsmap"

text \<open>\<open>src/index.js\<close> gives no options, so the configuration decides.\<close>

definition new_health_server :: "config \<Rightarrow> health_server" where
  "new_health_server cfg =
     \<lparr>hs_port = (if healthPort cfg = 0 then 8050 else healthPort cfg),
      hs_host = (if allowOuterHeartbeat cfg then ''0.0.0.0'' else ''127.0.0.1''),
      hs_listening = False, hs_sockets = [], hs_conns = []\<rparr>"

text \<open>\<open>start\<close> listens once; the address is given when it does.\<close>

definition start_health :: "health_server \<Rightarrow> health_server \<times> (string \<times> int) option" where
  "start_health h = (if hs_listening h then (h, None) else (h\<lparr>hs_listening := True\<rparr>, Some (hs_host h, hs_port h)))"

definition health_connection :: "nat \<Rightarrow> health_server \<Rightarrow> health_server" where
  "health_connection i h = h\<lparr>hs_sockets := js_add i (hs_sockets h), hs_conns := jm_set i new_sock (hs_conns h)\<rparr>"

definition health_data :: "health_env \<Rightarrow> int \<Rightarrow> nat \<Rightarrow> byte list \<Rightarrow> health_server \<Rightarrow> health_server \<times> health_effect list" where
  "health_data H now i chunk h =
     (case jm_get (hs_conns h) i of
        None \<Rightarrow> (h, [])
      | Some k \<Rightarrow>
          let (k', es) = on_health_data H now chunk k
          in (h\<lparr>hs_conns := jm_set i k' (hs_conns h),
                hs_sockets := (if HDestroy \<in> set es then removeAll i (hs_sockets h) else hs_sockets h)\<rparr>, es))"

definition health_gone :: "nat \<Rightarrow> health_server \<Rightarrow> health_server" where
  "health_gone i h = h\<lparr>hs_sockets := removeAll i (hs_sockets h)\<rparr>"

definition close_health :: "health_server \<Rightarrow> health_server" where
  "close_health h =
     h\<lparr>hs_conns := map (\<lambda>(i, k). (i, if i \<in> set (hs_sockets h) then k\<lparr>hk_destroyed := True\<rparr> else k)) (hs_conns h),
       hs_sockets := [], hs_listening := False\<rparr>"

datatype health_event = Accept nat | Data nat "byte list" | Gone nat | Shut

fun health_step :: "health_env \<Rightarrow> int \<Rightarrow> health_event \<Rightarrow> health_server \<Rightarrow> health_server" where
  "health_step H now (Accept i) h = health_connection i h"
| "health_step H now (Data i chunk) h = fst (health_data H now i chunk h)"
| "health_step H now (Gone i) h = health_gone i h"
| "health_step H now Shut h = close_health h"

text \<open>A socket of the set is one whose connection was not destroyed, so closing the server destroys each once.\<close>

definition sockets_live :: "health_server \<Rightarrow> bool" where
  "sockets_live h = (\<forall>i \<in> set (hs_sockets h). \<exists>k. jm_get (hs_conns h) i = Some k \<and> \<not> hk_destroyed k)"

lemma destroy_told:
  "on_health_data H now chunk k = (k', es) \<Longrightarrow> \<not> hk_destroyed k \<Longrightarrow> HDestroy \<notin> set es \<Longrightarrow> \<not> hk_destroyed k'"
  by (auto simp: on_health_data_def Let_def split_beta split: if_splits)

lemma live_connection: "sockets_live h \<Longrightarrow> sockets_live (health_connection i h)"
  by (auto simp: sockets_live_def health_connection_def new_sock_def update_conv')

lemma live_data: "sockets_live h \<Longrightarrow> sockets_live (fst (health_data H now i chunk h))"
  by (auto simp: sockets_live_def health_data_def update_conv' split_beta split: option.splits)
     (metis destroy_told prod.collapse option.inject)+

lemma health_step_live: "sockets_live h \<Longrightarrow> sockets_live (health_step H now e h)"
  by (cases e) (simp_all add: live_connection live_data, auto simp: sockets_live_def health_gone_def close_health_def)

lemma health_run_live: "sockets_live (fold (health_step H now) es (new_health_server cfg))"
proof -
  have "sockets_live h \<Longrightarrow> sockets_live (fold (health_step H now) es h)" for h
    by (induction es arbitrary: h) (simp_all add: health_step_live)
  then show ?thesis by (simp add: sockets_live_def new_health_server_def)
qed

end
