(* ===== verification/Ansi.thy ===== *)
theory Ansi
  imports Session
begin

text \<open>
  The texts a terminal is driven with: \<open>src/utils/ansi.js\<close>, and of \<open>src/core/terminalRenderer.js\<close> the two functions on
  texts, \<open>sanitizeContent\<close> and \<open>wrapLineStrict\<close>. The regular expressions of the source are matchers that list what may
  be left after a match, in the order a backtracking engine tries them; the first is the match.
\<close>

section \<open>Codes\<close>

definition csi :: "string \<Rightarrow> string" where
  "csi s = CHR 0x1B # CHR ''['' # s"

definition sgr :: "string \<Rightarrow> string" where
  "sgr codes = csi (codes @ ''m'')"

definition RESET :: string where "RESET = sgr ''0''"
definition BOLD :: string where "BOLD = sgr ''1''"
definition DIM :: string where "DIM = sgr ''2''"
definition BG_HEADER :: string where "BG_HEADER = sgr ''48;5;237''"
definition BG_INPUT :: string where "BG_INPUT = sgr ''48;5;236''"
definition FG_CYAN :: string where "FG_CYAN = sgr ''38;5;51''"
definition FG_GREEN :: string where "FG_GREEN = sgr ''38;5;82''"
definition FG_GRAY :: string where "FG_GRAY = sgr ''38;5;245''"
definition FG_WHITE :: string where "FG_WHITE = sgr ''38;5;255''"
definition FG_MAGENTA :: string where "FG_MAGENTA = sgr ''38;5;201''"
definition FG_YELLOW :: string where "FG_YELLOW = sgr ''38;5;226''"
definition FG_RED :: string where "FG_RED = sgr ''38;5;196''"

definition CLEAR_LINE :: string where
  "CLEAR_LINE = csi ''2K''"

definition CURSOR_MOVE :: "nat \<Rightarrow> nat \<Rightarrow> string" where
  "CURSOR_MOVE r c = csi (show_nat r @ '';'' @ show_nat c @ ''H'')"

section \<open>Regular expressions\<close>

type_synonym rx = "string \<Rightarrow> string list"

definition rx_one :: "(char \<Rightarrow> bool) \<Rightarrow> rx" where
  "rx_one p s = (case s of [] \<Rightarrow> [] | c # s' \<Rightarrow> if p c then [s'] else [])"

fun rx_many :: "(char \<Rightarrow> bool) \<Rightarrow> rx" where
  "rx_many p [] = [[]]"
| "rx_many p (c # s) = (if p c then rx_many p s else []) @ [c # s]"

fun rx_upto :: "nat \<Rightarrow> (char \<Rightarrow> bool) \<Rightarrow> rx" where
  "rx_upto 0 p s = [s]"
| "rx_upto (Suc n) p s = (case s of [] \<Rightarrow> [] | c # s' \<Rightarrow> if p c then rx_upto n p s' else []) @ [s]"

definition rx_seq :: "rx \<Rightarrow> rx \<Rightarrow> rx" where
  "rx_seq a b s = concat (map b (a s))"

definition rx_alt :: "rx \<Rightarrow> rx \<Rightarrow> rx" where
  "rx_alt a b s = a s @ b s"

definition rx_digit :: "char \<Rightarrow> bool" where
  "rx_digit c = (let n = of_char c :: nat in 48 \<le> n \<and> n \<le> 57)"

lemma rx_upto_length: "r \<in> set (rx_upto n p s) \<Longrightarrow> length r \<le> length s"
  by (induction n arbitrary: s) (fastforce split: list.splits if_splits)+

text \<open>\<open>(?:;[0-9]{0,4})*\<close>.\<close>

function rx_params :: rx where
  "rx_params [] = [[]]"
| "rx_params (c # s) = (if c = CHR '';'' then concat (map rx_params (rx_upto 4 rx_digit s)) else []) @ [c # s]"
  by pat_completeness auto

termination
  by (relation "measure length") (auto dest: rx_upto_length simp: less_Suc_eq_le)

text \<open>\<open>s.replace(m, '')\<close>. Where the match is empty the next character stays.\<close>

function rx_remove :: "rx \<Rightarrow> string \<Rightarrow> string" where
  "rx_remove m [] = []"
| "rx_remove m (c # s) =
     (case m (c # s) of
        [] \<Rightarrow> c # rx_remove m s
      | r # _ \<Rightarrow> if length r \<le> length s then rx_remove m r else c # rx_remove m s)"
  by pat_completeness auto

termination
  by (relation "measure (\<lambda>(m, s). length s)") auto

definition is_esc :: "char \<Rightarrow> bool" where
  "is_esc c = (c = CHR 0x1B)"

text \<open>The expressions \<open>oscRegex\<close>, \<open>ansiRegex\<close> and \<open>/\x1b\[[0-9;]*m/\<close>.\<close>

definition osc_rx :: rx where
  "osc_rx =
     rx_seq (rx_one is_esc) (rx_seq (rx_one (\<lambda>c. c = CHR '']'')) (rx_seq (rx_many (\<lambda>c. c \<noteq> CHR 0x07 \<and> c \<noteq> CHR 0x1B))
       (rx_alt (rx_one (\<lambda>c. c = CHR 0x07)) (rx_seq (rx_one is_esc) (rx_one (\<lambda>c. c = CHR 0x5C))))))"

definition final_char :: "char \<Rightarrow> bool" where
  "final_char c =
     (let n = of_char c :: nat
      in rx_digit c \<or> (65 \<le> n \<and> n \<le> 79) \<or> (102 \<le> n \<and> n \<le> 110) \<or> c \<in> set ''RZcqry=><'')"

definition rx_numbers :: rx where
  "rx_numbers = rx_seq (rx_one rx_digit) (rx_seq (rx_upto 3 rx_digit) rx_params)"

definition ansi_rx :: rx where
  "ansi_rx =
     rx_seq (rx_one (\<lambda>c. c = CHR 0x1B \<or> c = CHR 0x9B)) (rx_seq (rx_many (\<lambda>c. c \<in> set ''[()#;?''))
       (rx_seq (rx_alt rx_numbers (\<lambda>s. [s])) (rx_one final_char)))"

definition sgr_rx :: rx where
  "sgr_rx =
     rx_seq (rx_one is_esc) (rx_seq (rx_one (\<lambda>c. c = CHR ''[''))
       (rx_seq (rx_many (\<lambda>c. rx_digit c \<or> c = CHR '';'')) (rx_one (\<lambda>c. c = CHR ''m''))))"

definition without_colors :: "string \<Rightarrow> string" where
  "without_colors s = rx_remove sgr_rx s"

definition no_esc :: "string \<Rightarrow> bool" where
  "no_esc t = list_all (\<lambda>c. \<not> is_esc c) t"

lemma many_first: "list_all p k \<Longrightarrow> \<not> p c \<Longrightarrow> \<exists>more. rx_many p (k @ c # s) = (c # s) # more"
  by (induction k) auto

lemma sgr_match:
  assumes "list_all (\<lambda>c. rx_digit c \<or> c = CHR '';'') k"
  shows "\<exists>more. sgr_rx (sgr k @ s) = s # more"
proof -
  have "\<not> (rx_digit CHR ''m'' \<or> CHR ''m'' = CHR '';'')" by (simp add: rx_digit_def)
  from many_first [OF assms this, of s] obtain more
    where "rx_many (\<lambda>c. rx_digit c \<or> c = CHR '';'') (k @ CHR ''m'' # s) = (CHR ''m'' # s) # more" by blast
  then show ?thesis by (simp add: sgr_rx_def sgr_def csi_def rx_seq_def rx_one_def is_esc_def)
qed

lemma sgr_gone:
  assumes "list_all (\<lambda>c. rx_digit c \<or> c = CHR '';'') k"
  shows "without_colors (sgr k @ s) = without_colors s"
proof -
  obtain more where m: "sgr_rx (CHR 0x1B # CHR ''['' # k @ CHR ''m'' # s) = s # more"
    using sgr_match [OF assms, of s] by (auto simp: sgr_def csi_def)
  show ?thesis by (simp add: without_colors_def sgr_def csi_def m)
qed

lemma colors_gone:
  "without_colors (RESET @ s) = without_colors s" "without_colors (BOLD @ s) = without_colors s"
  "without_colors (BG_HEADER @ s) = without_colors s" "without_colors (FG_CYAN @ s) = without_colors s"
  "without_colors (FG_GRAY @ s) = without_colors s" "without_colors (FG_MAGENTA @ s) = without_colors s"
  "without_colors (FG_YELLOW @ s) = without_colors s"
  unfolding RESET_def BOLD_def BG_HEADER_def FG_CYAN_def FG_GRAY_def FG_MAGENTA_def FG_YELLOW_def
  by (rule sgr_gone, simp add: rx_digit_def)+

lemma color_end: "without_colors [] = []" "without_colors RESET = []"
  using colors_gone(1) [of "[]"] by (simp_all add: without_colors_def)

lemma no_esc_simps [simp]: "no_esc []" "no_esc (c # t) = (c \<noteq> CHR 0x1B \<and> no_esc t)" "no_esc (t @ u) = (no_esc t \<and> no_esc u)"
  by (simp_all add: no_esc_def is_esc_def)

lemma without_colors_char: "c \<noteq> CHR 0x1B \<Longrightarrow> without_colors (c # t) = c # without_colors t"
  by (simp add: without_colors_def sgr_rx_def rx_seq_def rx_one_def is_esc_def)

lemma no_colors: "no_esc t \<Longrightarrow> without_colors (t @ s) = t @ without_colors s"
  by (induction t) (simp_all add: without_colors_char)

section \<open>Cleaning a text\<close>

definition control_char :: "char \<Rightarrow> bool" where
  "control_char c =
     (let n = of_char c :: nat in n \<le> 8 \<or> (11 \<le> n \<and> n \<le> 12) \<or> (14 \<le> n \<and> n \<le> 31) \<or> n = 127)"

definition LF :: char where
  "LF = CHR 0x0A"

fun join_crlf :: "string \<Rightarrow> string" where
  "join_crlf (c # d # s) = (if c = CHR 0x0D \<and> d = LF then LF # join_crlf s else c # join_crlf (d # s))"
| "join_crlf s = s"

definition cr_to_lf :: "string \<Rightarrow> string" where
  "cr_to_lf s = map (\<lambda>c. if c = CHR 0x0D then LF else c) s"

definition expand_tabs :: "string \<Rightarrow> string" where
  "expand_tabs s = concat (map (\<lambda>c. if c = CHR 0x09 then ''  '' else [c]) s)"

definition sanitizeContent :: "string \<Rightarrow> string" where
  "sanitizeContent str =
     expand_tabs (cr_to_lf (join_crlf (filter (\<lambda>c. \<not> control_char c) (rx_remove ansi_rx (rx_remove osc_rx str)))))"

text \<open>
  What is left can print, end a line, or be one of the upper half of the byte range: no character moves the cursor or
  starts an escape sequence of the seven-bit kind.
\<close>

definition text_char :: "char \<Rightarrow> bool" where
  "text_char c = (let n = of_char c :: nat in c = LF \<or> (32 \<le> n \<and> n \<noteq> 127))"

lemma kept_chars: "\<not> control_char c \<Longrightarrow> c = CHR 0x0D \<or> c = CHR 0x09 \<or> text_char c"
proof -
  assume "\<not> control_char c"
  then have "(of_char c :: nat) = 9 \<or> (of_char c :: nat) = 10 \<or> (of_char c :: nat) = 13 \<or> text_char c"
    by (auto simp: control_char_def text_char_def Let_def)
  moreover have "c = char_of (of_char c :: nat)" by simp
  moreover have "char_of (9::nat) = CHR 0x09" "char_of (10::nat) = LF" "char_of (13::nat) = CHR 0x0D" by (code_simp+)
  moreover have "text_char LF" by (simp add: text_char_def)
  ultimately show ?thesis by metis
qed

lemma join_crlf_set: "set (join_crlf s) \<subseteq> insert LF (set s)"
  by (induction s rule: join_crlf.induct) auto

lemma cleaned_chars: "c \<in> set (sanitizeContent s) \<Longrightarrow> text_char c"
proof -
  let ?t = "filter (\<lambda>c. \<not> control_char c) (rx_remove ansi_rx (rx_remove osc_rx s))"
  assume "c \<in> set (sanitizeContent s)"
  then obtain d where d: "d \<in> set (cr_to_lf (join_crlf ?t))" "c \<in> set (if d = CHR 0x09 then ''  '' else [d])"
    by (auto simp: sanitizeContent_def expand_tabs_def split: if_splits)
  then obtain e where e: "e \<in> set (join_crlf ?t)" "d = (if e = CHR 0x0D then LF else e)" by (auto simp: cr_to_lf_def)
  have e': "e = LF \<or> \<not> control_char e" using join_crlf_set [of ?t] e(1) by auto
  have sp: "text_char CHR '' ''" "text_char LF" by (simp_all add: text_char_def)
  show ?thesis
    using kept_chars [of e] e(2) e' d(2) sp by (auto split: if_splits)
qed

text \<open>
  C28. What is shown of the text of a message has no ASCII control character but the line break, whatever the message
  was: it can neither ring, move the cursor nor start an escape sequence of the seven-bit kind.
\<close>

theorem sanitized_text_is_clean: "list_all text_char (sanitizeContent s)"
  by (simp add: list_all_iff cleaned_chars)

text \<open>
  The eight-bit introducer is not of the list: a control character that keeps the expression from matching is removed
  after it, and the sequence is whole again.
\<close>

lemma eight_bit_sequence_survives: "sanitizeContent [CHR 0x9B, CHR 0x01, CHR ''2'', CHR ''J''] = [CHR 0x9B, CHR ''2'', CHR ''J'']"
  by code_simp

section \<open>Wrapping a line\<close>

text \<open>\<open>slice(0, n)\<close> and \<open>slice(n)\<close>, with an \<open>n\<close> that may be negative.\<close>

definition slice_to :: "int \<Rightarrow> string \<Rightarrow> string" where
  "slice_to n s = (if n \<ge> 0 then take (nat n) s else take (length s - nat (- n)) s)"

definition slice_from :: "int \<Rightarrow> string \<Rightarrow> string" where
  "slice_from n s = (if n \<ge> 0 then drop (nat n) s else drop (length s - nat (- n)) s)"

partial_function (option) wrap_loop :: "int \<Rightarrow> string \<Rightarrow> string list \<Rightarrow> string list option" where
  "wrap_loop w cur chunks =
     (if int (length cur) > w then wrap_loop w (slice_from w cur) (chunks @ [slice_to w cur])
      else Some (if cur \<noteq> [] then chunks @ [cur] else chunks))"

definition wrapLineStrict :: "string \<Rightarrow> int \<Rightarrow> string list option" where
  "wrapLineStrict line maxWidth =
     (if line = [] then Some [[]] else if int (length line) \<le> maxWidth then Some [line] else wrap_loop maxWidth line [])"

text \<open>The reference: pieces of \<open>n\<close> characters, the last of what is left.\<close>

function chop :: "nat \<Rightarrow> string \<Rightarrow> string list" where
  "chop n s = (if n = 0 \<or> length s \<le> n then (if s = [] then [] else [s]) else take n s # chop n (drop n s))"
  by pat_completeness auto

termination
  by (relation "measure (\<lambda>(n, s). length s)") auto

declare chop.simps [simp del]

lemma wrap_loop_chop: "0 < w \<Longrightarrow> wrap_loop w cur chunks = Some (chunks @ chop (nat w) cur)"
proof (induction "nat w" cur arbitrary: chunks rule: chop.induct)
  case (1 cur)
  show ?case
  proof (cases "length cur \<le> nat w")
    case True
    then show ?thesis using 1(2) by (subst wrap_loop.simps) (simp add: chop.simps [of "nat w" cur] le_nat_iff)
  next
    case False
    then have IH: "wrap_loop w (drop (nat w) cur) c = Some (c @ chop (nat w) (drop (nat w) cur))" for c
      using 1 by simp
    have "cur \<noteq> []" using False by auto
    then show ?thesis
      using False 1(2) IH by (subst wrap_loop.simps) (simp add: chop.simps [of "nat w" cur] slice_from_def slice_to_def nat_less_iff not_le)
  qed
qed

lemma chop_concat: "concat (chop n s) = s"
  by (induction n s rule: chop.induct) (subst chop.simps, auto)

lemma chop_width: "0 < n \<Longrightarrow> c \<in> set (chop n s) \<Longrightarrow> length c \<le> n \<and> c \<noteq> []"
proof (induction n s rule: chop.induct)
  case (1 n s)
  have "set (chop n s) = set (if n = 0 \<or> length s \<le> n then (if s = [] then [] else [s]) else take n s # chop n (drop n s))"
    by (simp add: chop.simps [of n s])
  then show ?case using 1 by (auto split: if_splits)
qed

lemma wrap_returns: "0 < w \<Longrightarrow> wrapLineStrict line w \<noteq> None"
  by (simp add: wrapLineStrict_def wrap_loop_chop)

text \<open>A line wrapped to a positive width is cut, never changed, and each piece fits.\<close>

lemma wrap_cuts:
  assumes "0 < w" "wrapLineStrict line w = Some chunks"
  shows "concat chunks = line" and "c \<in> set chunks \<Longrightarrow> int (length c) \<le> w"
  using assms chop_concat [of "nat w" line] chop_width [of "nat w" c line]
  by (auto simp: wrapLineStrict_def wrap_loop_chop split: if_splits)

text \<open>With no width the loop does not end.\<close>

lemma zero_width_hangs: "line \<noteq> [] \<Longrightarrow> wrapLineStrict line 0 = None"
proof -
  have "w = 0 \<longrightarrow> cur = []" if "wrap_loop w cur chunks = Some r" for w cur chunks r
    using that by (rule wrap_loop.raw_induct [rotated]) (auto simp: slice_from_def split: if_splits)
  then have "wrap_loop 0 line [] = None" if "line \<noteq> []" using that by (metis not_None_eq)
  then show "line \<noteq> [] \<Longrightarrow> ?thesis" by (simp add: wrapLineStrict_def)
qed

end
