(* ===== verification/Renderer.thy ===== *)
theory Renderer
  imports Ansi Commands
begin

text \<open>
  \<open>src/core/terminalRenderer.js\<close>: the screen of a session. A screen is a list of rows; what is written to the terminal
  is a list of drawing operations, and the text of these is what the code sends. The clock, the users who are online and
  the figures of the process come with the record \<open>screen_env\<close>. The marks outside the byte range are its characters: each
  is one character for the code as well, so every length is the code's.
\<close>

section \<open>What the screen is made of\<close>

record marks =
  mk_bar :: char
  mk_on :: char
  mk_off :: char
  mk_star :: char
  mk_up :: char
  mk_pointer :: char
  mk_dotted_i :: char

record system_stats =
  st_uptime :: string
  st_rss :: string
  st_peers :: "string list"
  st_role :: string
  st_nodeId :: string

text \<open>\<open>rd_time\<close> reads a time stamp: hours and minutes in the local zone, nothing for a text that is no date.\<close>

record screen_env =
  rd_ui :: ui
  rd_time :: "string \<Rightarrow> (nat \<times> nat) option"
  rd_online :: "string list"
  rd_members :: "string list"
  rd_stats :: system_stats
  rd_marks :: marks

definition tr :: "screen_env \<Rightarrow> string \<Rightarrow> (string \<times> string) list \<Rightarrow> string" where
  "tr E key params = ui_text (rd_ui E) key params"

definition spaces :: "nat \<Rightarrow> string" where
  "spaces n = replicate n CHR '' ''"

definition dashes :: "nat \<Rightarrow> string" where
  "dashes n = replicate n CHR ''-''"

definition pad2 :: "nat \<Rightarrow> string" where
  "pad2 n = replicate (2 - length (show_nat n)) CHR ''0'' @ show_nat n"

text \<open>A text that is no date does not throw: its hours and minutes are \<open>NaN\<close>.\<close>

definition formatTime :: "screen_env \<Rightarrow> string \<Rightarrow> string" where
  "formatTime E isoString =
     (case rd_time E isoString of Some (h, m) \<Rightarrow> pad2 h @ '':'' @ pad2 m | None \<Rightarrow> ''NaN:NaN'')"

section \<open>Messages as lines\<close>

definition is_system_sender :: "screen_env \<Rightarrow> string \<Rightarrow> bool" where
  "is_system_sender E a =
     (a = ''['' @ tr E ''TUI_SYSTEM_SENDER'' [] @ '']'' \<or> a = ''[S'' @ [mk_dotted_i (rd_marks E)] @ ''STEM]'' \<or> a = ''[SYSTEM]'')"

definition is_me :: "session \<Rightarrow> message \<Rightarrow> bool" where
  "is_me s m = (m_from m = s_userAddress s)"

definition shown_sender :: "screen_env \<Rightarrow> session \<Rightarrow> message \<Rightarrow> string" where
  "shown_sender E s m =
     (if is_system_sender E (m_from m) then tr E ''TUI_SYSTEM_SENDER'' []
      else if is_me s m then tr E ''TUI_ME_SENDER_YOU'' [] else nick (m_from m))"

definition time_cell :: "screen_env \<Rightarrow> message \<Rightarrow> string" where
  "time_cell E m = FG_GRAY @ formatTime E (m_timestamp m) @ RESET"

definition still_sealed :: "message \<Rightarrow> bool" where
  "still_sealed m = starts_with ''e2ee:'' (m_content m)"

definition message_text :: "screen_env \<Rightarrow> message \<Rightarrow> string" where
  "message_text E m =
     (if still_sealed m then BOLD @ FG_RED @ tr E ''E2EE_ENCRYPTED_PLACEHOLDER'' [] @ RESET
      else sanitizeContent (m_content m))"

definition mentions_me :: "screen_env \<Rightarrow> session \<Rightarrow> message \<Rightarrow> bool" where
  "mentions_me E s m =
     (\<not> is_me s m \<and> \<not> is_system_sender E (m_from m) \<and> \<not> still_sealed m \<and> isUserMentioned s (m_content m))"

definition sender_color :: "screen_env \<Rightarrow> session \<Rightarrow> message \<Rightarrow> string" where
  "sender_color E s m =
     (if is_system_sender E (m_from m) then FG_YELLOW @ BOLD else if is_me s m then FG_CYAN else FG_MAGENTA)"

definition lock_badge :: "message \<Rightarrow> string" where
  "lock_badge m = (if m_isE2EE m then FG_YELLOW @ ''[SEC]'' @ RESET @ '' '' else [])"

definition mention_prefix :: "bool \<Rightarrow> string" where
  "mention_prefix b = (if b then BG_HEADER @ FG_YELLOW @ ''[@] '' else [])"

definition mention_suffix :: "bool \<Rightarrow> string" where
  "mention_suffix b = (if b then RESET else [])"

fun wrap_all :: "int \<Rightarrow> string list \<Rightarrow> string list option" where
  "wrap_all w [] = Some []"
| "wrap_all w (l # ls) = do {c \<leftarrow> wrapLineStrict l w; cs \<leftarrow> wrap_all w ls; Some (c @ cs)}"

definition code_row :: "screen_env \<Rightarrow> string \<Rightarrow> string" where
  "code_row E chunk = FG_GREEN @ [mk_bar (rd_marks E)] @ RESET @ '' '' @ FG_WHITE @ chunk @ RESET"

definition is_multi_line :: "screen_env \<Rightarrow> message \<Rightarrow> bool" where
  "is_multi_line E m = (\<not> still_sealed m \<and> (LF \<in> set (message_text E m) \<or> m_isSnippet m))"

definition snippet_lines :: "screen_env \<Rightarrow> session \<Rightarrow> int \<Rightarrow> message \<Rightarrow> string list option" where
  "snippet_lines E s w m =
     (let mine = mentions_me E s m;
          title = time_cell E m @ '' '' @ lock_badge m @ mention_prefix mine @ sender_color E s m @ ''['' @ shown_sender E s m @
                  '']'' @ RESET @ '' '' @ DIM @ tr E ''TUI_SNIPPET_TITLE'' [] @ RESET @ mention_suffix mine
      in do {chunks \<leftarrow> wrap_all (max 10 (w - 3)) (split_on LF (message_text E m)); Some (title # map (code_row E) chunks)})"

definition action_lines :: "screen_env \<Rightarrow> session \<Rightarrow> int \<Rightarrow> message \<Rightarrow> string list option" where
  "action_lines E s w m =
     (let mine = mentions_me E s m
      in map_option
           (map (\<lambda>chunk. time_cell E m @ '' '' @ lock_badge m @ mention_prefix mine @ FG_YELLOW @ chunk @ RESET @ mention_suffix mine))
           (wrapLineStrict (''* '' @ shown_sender E s m @ '' '' @ message_text E m) (w - 6)))"

definition sender_prefix :: "screen_env \<Rightarrow> session \<Rightarrow> message \<Rightarrow> string" where
  "sender_prefix E s m = ''['' @ shown_sender E s m @ ''] ''"

definition prefix_length :: "screen_env \<Rightarrow> session \<Rightarrow> message \<Rightarrow> nat" where
  "prefix_length E s m =
     6 + length (sender_prefix E s m) + (if m_isE2EE m then 2 else 0) + (if mentions_me E s m then 4 else 0)"

definition first_line :: "screen_env \<Rightarrow> session \<Rightarrow> message \<Rightarrow> string \<Rightarrow> string" where
  "first_line E s m chunk =
     time_cell E m @ '' '' @ lock_badge m @ mention_prefix (mentions_me E s m) @ sender_color E s m @ sender_prefix E s m @
     RESET @ chunk @ mention_suffix (mentions_me E s m)"

definition text_lines :: "screen_env \<Rightarrow> session \<Rightarrow> int \<Rightarrow> message \<Rightarrow> string list option" where
  "text_lines E s w m =
     (let n = prefix_length E s m
      in do {chunks \<leftarrow> wrapLineStrict (message_text E m) (max 10 (w - int n));
             Some (case chunks of [] \<Rightarrow> [] | c # cs \<Rightarrow> first_line E s m c # map (\<lambda>chunk. spaces n @ chunk) cs)})"

definition message_lines :: "screen_env \<Rightarrow> session \<Rightarrow> int \<Rightarrow> message \<Rightarrow> string list option" where
  "message_lines E s w m =
     (if is_multi_line E m then snippet_lines E s w m
      else if m_isAction m \<and> \<not> still_sealed m then action_lines E s w m
      else text_lines E s w m)"

fun formatMessagesToLines :: "screen_env \<Rightarrow> session \<Rightarrow> message list \<Rightarrow> int \<Rightarrow> string list option" where
  "formatMessagesToLines E s [] w = Some []"
| "formatMessagesToLines E s (m # ms) w =
     do {ls \<leftarrow> message_lines E s w m; rest \<leftarrow> formatMessagesToLines E s ms w; Some (ls @ rest)}"

text \<open>A line of the log has none of the marks of a message.\<close>

definition log_message :: "log_line \<Rightarrow> message" where
  "log_message l =
     \<lparr>m_id = [], m_from = l_from l, m_to = [], m_content = l_content l, m_isAction = False, m_isSnippet = False,
      m_isE2EE = False, m_deleted_by = [], m_timestamp = l_timestamp l\<rparr>"

section \<open>The line being typed\<close>

definition max_input :: "session \<Rightarrow> nat" where
  "max_input s = max 10 (s_width s - 4)"

definition input_start :: "session \<Rightarrow> nat" where
  "input_start s =
     (let start = s_cursorIndex s - max_input s div 2; n = length (s_inputBuffer s)
      in if start + max_input s > n then n - max_input s else start)"

definition visible_input :: "session \<Rightarrow> string \<times> nat" where
  "visible_input s =
     (if length (s_inputBuffer s) > max_input s
      then (take (max_input s) (drop (input_start s) (s_inputBuffer s)), s_cursorIndex s - input_start s)
      else (s_inputBuffer s, s_cursorIndex s))"

definition calculateInputRender :: "session \<Rightarrow> string \<times> nat" where
  "calculateInputRender s =
     (let color = (if s_focus s = Input then FG_GREEN else FG_GRAY); (visibleText, visualCursor) = visible_input s
      in (color @ ''> '' @ RESET @ visibleText @ spaces (max_input s - length visibleText), 3 + visualCursor))"

section \<open>Drawing\<close>

datatype draw = ClearScreen | MoveTo nat nat | ClearRow | Put string

fun draw_text :: "draw \<Rightarrow> string" where
  "draw_text ClearScreen = ANSI_CLEAR"
| "draw_text (MoveTo r c) = CURSOR_MOVE r c"
| "draw_text ClearRow = CLEAR_LINE"
| "draw_text (Put t) = t"

definition write_draws :: "draw list \<Rightarrow> session_effect list" where
  "write_draws ds = [SocketWrite (concat (map draw_text ds))]"

definition row_at :: "string option list \<Rightarrow> nat \<Rightarrow> string option" where
  "row_at rows r = (if r < length rows then rows ! r else None)"

text \<open>\<open>rows[r] = t\<close>, which leaves holes when the array is shorter.\<close>

definition set_row :: "nat \<Rightarrow> string \<Rightarrow> string option list \<Rightarrow> string option list" where
  "set_row r t rows =
     (if r < length rows then rows[r := Some t] else rows @ replicate (r - length rows) None @ [Some t])"

definition renderInputOnly :: "session \<Rightarrow> session \<times> draw list" where
  "renderInputOnly s =
     (if s_width s < 70 \<or> s_height s < 12 then (s, [])
      else let (lineContent, cursorCol) = calculateInputRender s
           in (s\<lparr>s_screenBuffer := set_row (s_height s - 1) lineContent (s_screenBuffer s)\<rparr>,
               [MoveTo (s_height s) 1, ClearRow, Put lineContent, MoveTo (s_height s) cursorCol]))"

definition draw_row :: "string option list \<Rightarrow> nat \<times> string \<Rightarrow> draw list" where
  "draw_row old x = (if row_at old (fst x) = Some (snd x) then [] else [MoveTo (fst x + 1) 1, ClearRow, Put (snd x)])"

definition screen_diff :: "string option list \<Rightarrow> string list \<Rightarrow> draw list" where
  "screen_diff old new = concat (map (draw_row old) (enumerate 0 new))"

section \<open>The panels\<close>

definition inner_left :: "session \<Rightarrow> nat" where
  "inner_left s = max 10 (s_leftSidebarWidth s - 2)"

definition inner_right :: "session \<Rightarrow> nat" where
  "inner_right s = max 10 (s_rightSidebarWidth s - 2)"

definition inner_mid :: "session \<Rightarrow> nat" where
  "inner_mid s = max 10 (s_width s - s_leftSidebarWidth s - s_rightSidebarWidth s - 1)"

definition stat_line :: "string \<Rightarrow> string \<Rightarrow> string \<Rightarrow> string" where
  "stat_line color label value = color @ label @ RESET @ value"

definition system_panel :: "screen_env \<Rightarrow> string list" where
  "system_panel E =
     (let st = rd_stats E
      in (if st_nodeId st = [] then [] else [stat_line FG_CYAN ''Node:'' ('' '' @ take 10 (st_nodeId st))]) @
         (if st_role st = [] then [] else [stat_line FG_CYAN ''Rol:'' ('' CAP_'' @ st_role st)]) @
         [stat_line FG_CYAN (tr E ''TUI_SYS_PANEL_UPTIME'' []) ('' '' @ st_uptime st),
          stat_line FG_CYAN (tr E ''TUI_SYS_PANEL_RAM'' []) ('' '' @ st_rss st @ ''MB''),
          stat_line FG_GRAY (dashes 16) [],
          stat_line FG_YELLOW (tr E ''TUI_SYS_PANEL_PEERS'' [(''count'', show_nat (length (st_peers st)))]) []] @
         (if st_peers st = [] then [stat_line FG_GRAY (tr E ''TUI_SYS_PANEL_NO_PEERS'' []) []]
          else map (\<lambda>p. stat_line FG_GREEN [mk_on (rd_marks E)] ('' '' @ p)) (st_peers st)))"

definition member_online :: "screen_env \<Rightarrow> string \<Rightarrow> bool" where
  "member_online E member =
     (member \<in> set (rd_online E) \<or> list_ex (\<lambda>u. u = member \<or> nick u = nick member) (rd_online E))"

definition member_row :: "screen_env \<Rightarrow> session \<Rightarrow> string \<Rightarrow> string" where
  "member_row E s member =
     (let online = member_online E member;
          isMe = (member = s_userAddress s \<or> (s_userAddress s \<noteq> [] \<and> nick (s_userAddress s) = nick member));
          statusChar = (if online then mk_on (rd_marks E) else mk_off (rd_marks E));
          statusColor = (if online then FG_GREEN else FG_GRAY);
          visibleMember = take (max 4 (inner_right s - 3)) (nick member);
          nameColor = (if isMe then FG_CYAN @ BOLD else if online then FG_WHITE else FG_GRAY)
      in statusColor @ [statusChar] @ RESET @ '' '' @ nameColor @ visibleMember @ RESET)"

definition right_panel :: "screen_env \<Rightarrow> session \<Rightarrow> string \<times> string list" where
  "right_panel E s =
     (if isSystemConsole (s_activeTarget s) then (tr E ''TUI_SYS_PANEL_TITLE'' [], system_panel E)
      else (tr E ''TUI_MEMBERS_HEADER'' [(''count'', show_nat (length (rd_members E)))], map (member_row E s) (rd_members E)))"

definition contact_online :: "screen_env \<Rightarrow> string \<Rightarrow> bool" where
  "contact_online E contact =
     (contact \<in> set (rd_online E) \<or>
      list_ex (\<lambda>u. u = contact \<or> (starts_with ''@'' contact \<and> before CHR '':'' u = before CHR '':'' contact)) (rd_online E))"

definition contact_status :: "screen_env \<Rightarrow> string \<Rightarrow> char \<times> string" where
  "contact_status E contact =
     (if isSystemConsole contact then (mk_star (rd_marks E), FG_YELLOW)
      else if starts_with ''#'' contact then (CHR ''#'', FG_CYAN)
      else if contact_online E contact then (mk_on (rd_marks E), FG_GREEN)
      else (mk_off (rd_marks E), FG_GRAY))"

definition contact_row :: "screen_env \<Rightarrow> session \<Rightarrow> nat \<Rightarrow> string \<Rightarrow> string" where
  "contact_row E s idx contact =
     (let isCurrent = (contact = s_activeTarget s);
          isSelected = (s_focus s = Sidebar \<and> int idx = s_selectedContactIdx s);
          unread = unread_of contact s;
          (statusChar, statusColor) = contact_status E contact;
          prefix = (if isCurrent then CHR ''>'' else if isSelected then mk_pointer (rd_marks E) else CHR '' '');
          badge = (if unread > 0 then '' ('' @ show_nat unread @ '')'' else []);
          visibleName = take (max 4 (inner_left s - 4 - length badge)) contact;
          nameColor = (if isSelected then BG_HEADER @ FG_YELLOW @ BOLD
                       else if unread > 0 \<and> \<not> isCurrent then FG_WHITE @ BOLD
                       else if isSystemConsole contact \<and> \<not> isCurrent then FG_YELLOW
                       else if isCurrent then FG_GREEN @ BOLD else FG_GRAY);
          badgeStr = (if unread > 0 then FG_RED @ BOLD @ badge @ RESET else []);
          plainText = [statusChar] @ '' '' @ [prefix] @ '' '' @ visibleName @ badge
      in statusColor @ [statusChar] @ RESET @ '' '' @ [prefix] @ '' '' @ nameColor @ visibleName @ RESET @ badgeStr @
         spaces (inner_left s - length plainText))"

text \<open>A cell of a given width around a text with colour codes, or nothing.\<close>

definition cell :: "nat \<Rightarrow> string option \<Rightarrow> string" where
  "cell n t = (case t of None \<Rightarrow> spaces n | Some t \<Rightarrow> t @ spaces (n - length (without_colors t)))"

definition line_at :: "string list \<Rightarrow> nat \<Rightarrow> string option" where
  "line_at ls i = (if i < length ls then Some (ls ! i) else None)"

definition left_cell :: "screen_env \<Rightarrow> session \<Rightarrow> nat \<Rightarrow> string" where
  "left_cell E s idx =
     (case line_at (s_contacts s) idx of
        None \<Rightarrow> spaces (inner_left s)
      | Some contact \<Rightarrow> if contact = [] then spaces (inner_left s) else contact_row E s idx contact)"

section \<open>The frame\<close>

definition header_row :: "screen_env \<Rightarrow> session \<Rightarrow> string" where
  "header_row E s =
     (let hint = tr E (if s_focus s = Sidebar then ''TUI_HINT_SIDEBAR_FOCUS'' else ''TUI_HINT_INPUT_FOCUS'') [];
          badge = tr E (if s_isSsh s then ''E2EE_ACTIVE_BADGE'' else ''E2EE_INACTIVE_BADGE'') [];
          title = tr E ''TUI_HEADER_TITLE'' [(''address'', s_userAddress s)] @ badge
      in BG_HEADER @ FG_CYAN @ BOLD @ title @ spaces (max 1 (s_width s - length title - length hint)) @ FG_YELLOW @ hint @ RESET)"

definition titled :: "string \<Rightarrow> string \<Rightarrow> nat \<Rightarrow> string" where
  "titled color title n = (let safe = take n title in color @ BOLD @ safe @ RESET @ dashes (n - length safe) @ ''+'')"

definition border_row :: "screen_env \<Rightarrow> session \<Rightarrow> string" where
  "border_row E s =
     (let leftTitle = tr E (if s_focus s = Sidebar then ''TUI_SIDEBAR_HEADER_FOCUSED'' else ''TUI_SIDEBAR_HEADER_UNFOCUSED'') [];
          scrollInfo = (if s_scrollOffset s > 0 then '' ['' @ [mk_up (rd_marks E)] @ '' +'' @ show_nat (s_scrollOffset s) @ '']'' else []);
          target = (if s_activeTarget s = [] then tr E ''TUI_CHAT_NO_TARGET'' [] else s_activeTarget s);
          midTitle = tr E ''TUI_CHAT_HEADER'' [(''target'', target), (''scroll'', scrollInfo)]
      in ''+'' @ titled (if s_focus s = Sidebar then FG_YELLOW else FG_CYAN) leftTitle (inner_left s) @
         titled FG_CYAN midTitle (inner_mid s) @
         titled (if isSystemConsole (s_activeTarget s) then FG_YELLOW else FG_GRAY) (fst (right_panel E s)) (inner_right s))"

definition max_scroll :: "session \<Rightarrow> nat \<Rightarrow> nat" where
  "max_scroll s n = n - (s_height s - 5)"

text \<open>The lines in the window: \<open>chatHeight - 2\<close> of them, where the screen has room for one more.\<close>

definition first_shown :: "session \<Rightarrow> nat \<Rightarrow> nat \<Rightarrow> nat" where
  "first_shown s n offset = (n - offset) - (s_height s - 4 - 2)"

definition visible_lines :: "session \<Rightarrow> string list \<Rightarrow> nat \<Rightarrow> string list" where
  "visible_lines s ls offset = drop (first_shown s (length ls) offset) (take (length ls - offset) ls)"

definition chat_row :: "screen_env \<Rightarrow> session \<Rightarrow> string list \<Rightarrow> nat \<Rightarrow> string" where
  "chat_row E s window idx =
     ''|'' @ left_cell E s idx @ ''|'' @ cell (inner_mid s) (line_at window idx) @ ''|'' @
     cell (inner_right s) (line_at (snd (right_panel E s)) idx) @ ''|''"

definition bottom_border :: "session \<Rightarrow> string" where
  "bottom_border s = ''+'' @ dashes (inner_left s) @ ''+'' @ dashes (inner_mid s) @ ''+'' @ dashes (inner_right s) @ ''+''"

definition status_row :: "screen_env \<Rightarrow> session \<Rightarrow> string" where
  "status_row E s =
     (let text = (case or_else (s_typingUser s) None of
                    Some user \<Rightarrow> tr E ''TUI_TYPING_INDICATOR'' [(''user'', user)]
                  | None \<Rightarrow> tr E ''TUI_BOTTOM_INFO'' [])
      in BG_INPUT @ FG_WHITE @ pad_end (s_width s) text @ RESET)"

text \<open>
  The rows in order: the header, the border, \<open>height - 5\<close> rows of cells, the lower border, the status and the input. The
  border is drawn before the offset is brought into its bounds, so it shows the old one.
\<close>

definition new_frame :: "screen_env \<Rightarrow> session \<Rightarrow> string list \<Rightarrow> string list" where
  "new_frame E s ls =
     (let offset = min (s_scrollOffset s) (max_scroll s (length ls))
      in [header_row E s, border_row E s] @ map (chat_row E s (visible_lines s ls offset)) [0..<s_height s - 5] @
         [bottom_border s, status_row E s, fst (calculateInputRender s)])"

definition too_small :: "session \<Rightarrow> bool" where
  "too_small s = (s_width s < 75 \<or> s_height s < 14)"

definition shown_messages :: "session \<Rightarrow> message list \<Rightarrow> message list" where
  "shown_messages s msgs = (if isSystemConsole (s_activeTarget s) then map log_message (s_systemLogs s) else msgs)"

definition renderFull :: "screen_env \<Rightarrow> message list \<Rightarrow> session \<Rightarrow> (session \<times> draw list) option" where
  "renderFull E msgs s =
     (if too_small s
      then Some (s\<lparr>s_screenBuffer := []\<rparr>,
                 [ClearScreen, MoveTo (s_height s div 2) 2,
                  Put (FG_YELLOW @
                       tr E ''TUI_SCREEN_TOO_SMALL'' [(''width'', show_nat (s_width s)), (''height'', show_nat (s_height s))] @ RESET)])
      else
        do {ls \<leftarrow> formatMessagesToLines E s (shown_messages s msgs) (int (inner_mid s) - 2);
            let frame = new_frame E s ls;
            Some (s\<lparr>s_scrollOffset := min (s_scrollOffset s) (max_scroll s (length ls)), s_screenBuffer := map Some frame\<rparr>,
                  screen_diff (s_screenBuffer s) frame @ [MoveTo (s_height s) (snd (calculateInputRender s))])})"

section \<open>Drawing always returns\<close>

lemma wrap_all_returns: "0 < w \<Longrightarrow> wrap_all w ls \<noteq> None"
  using wrap_returns [of w] by (induction ls) (auto simp: bind_eq_None_conv)

lemma message_lines_return:
  assumes "6 < w"
  shows "message_lines E s w m \<noteq> None"
proof -
  have p: "0 < max 10 (w - 3)" "0 < max 10 (w - int (prefix_length E s m))" "0 < w - 6" using assms by simp_all
  show ?thesis
    using wrap_all_returns [OF p(1)] wrap_returns [OF p(2)] wrap_returns [OF p(3)]
    by (simp add: message_lines_def snippet_lines_def action_lines_def text_lines_def Let_def bind_eq_None_conv del: not_None_eq)
qed

lemma format_returns: "6 < w \<Longrightarrow> formatMessagesToLines E s ms w \<noteq> None"
  using message_lines_return [of w E s] by (induction ms) (auto simp: bind_eq_None_conv)

text \<open>
  Drawing a screen ends, for every session, every size and all messages: the widths it wraps to are positive, so
  the loop that would run for ever at width zero is never entered there.
\<close>

lemma render_always_returns: "\<exists>s' ds. renderFull E msgs s = Some (s', ds)"
proof -
  have "6 < int (inner_mid s) - 2" by (simp add: inner_mid_def)
  from format_returns [OF this, of E s "shown_messages s msgs"] show ?thesis
    by (auto simp: renderFull_def Let_def)
qed

section \<open>The terminal\<close>

text \<open>
  A terminal keeps its rows, counted from one, and its cursor. Only a text put at the start of an empty row is told
  exactly, which is how every row is drawn.
\<close>

record tty =
  t_rows :: "nat \<Rightarrow> string"
  t_row :: nat
  t_col :: nat

definition put_in :: "nat \<Rightarrow> string \<Rightarrow> string \<Rightarrow> string" where
  "put_in k t row = pad_end k (take k row) @ t @ drop (k + length (without_colors t)) row"

fun draw_on :: "draw \<Rightarrow> tty \<Rightarrow> tty" where
  "draw_on ClearScreen T = T\<lparr>t_rows := (\<lambda>_. []), t_row := 1, t_col := 1\<rparr>"
| "draw_on (MoveTo r c) T = T\<lparr>t_row := r, t_col := c\<rparr>"
| "draw_on ClearRow T = T\<lparr>t_rows := (t_rows T)(t_row T := [])\<rparr>"
| "draw_on (Put t) T =
     T\<lparr>t_rows := (t_rows T)(t_row T := put_in (t_col T - 1) t (t_rows T (t_row T))),
       t_col := t_col T + length (without_colors t)\<rparr>"

definition draw_all :: "draw list \<Rightarrow> tty \<Rightarrow> tty" where
  "draw_all ds T = fold draw_on ds T"

lemma draw_all_simps [simp]:
  "draw_all [] T = T" "draw_all (d # ds) T = draw_all ds (draw_on d T)" "draw_all (ds @ es) T = draw_all es (draw_all ds T)"
  by (simp_all add: draw_all_def)

lemma put_in_empty [simp]: "put_in 0 t [] = t"
  by (simp add: put_in_def pad_end_def)

text \<open>The rows the session remembers are those of the terminal.\<close>

definition in_step :: "session \<Rightarrow> tty \<Rightarrow> bool" where
  "in_step s T = (\<forall>r t. row_at (s_screenBuffer s) r = Some t \<longrightarrow> t_rows T (r + 1) = t)"

lemma row_at_set_row: "row_at (set_row r t rows) q = (if q = r then Some t else row_at rows q)"
  by (auto simp: row_at_def set_row_def nth_append nth_Cons split: nat.splits)

lemma draw_row_rows:
  "t_rows (draw_all (draw_row old (r, t)) T) = (if row_at old r = Some t then t_rows T else (t_rows T)(Suc r := t))"
  by (simp add: draw_row_def)

lemma diff_rows:
  "t_rows (draw_all (concat (map (draw_row old) (enumerate k new))) T) (Suc (k + j)) =
     (if j < length new \<and> row_at old (k + j) \<noteq> Some (new ! j) then new ! j else t_rows T (Suc (k + j)))"
  "q \<le> k \<Longrightarrow> t_rows (draw_all (concat (map (draw_row old) (enumerate k new))) T) q = t_rows T q"
proof (induction new arbitrary: k j T q)
  case (Cons t new)
  {
    case 1
    show ?case
    proof (cases j)
      case 0
      then show ?thesis using Cons(2) [of "Suc k" "Suc k"] by (simp add: draw_row_rows)
    next
      case (Suc i)
      then show ?thesis using Cons(1) [of "Suc k" _ i] by (simp add: draw_row_rows)
    qed
  next
    case 2
    then show ?case using Cons(2) [of q "Suc k"] by (simp add: draw_row_rows)
  }
qed simp_all

lemma diff_draws:
  assumes "\<And>r t. row_at old r = Some t \<Longrightarrow> t_rows T (Suc r) = t" "r < length new"
  shows "t_rows (draw_all (screen_diff old new) T) (Suc r) = new ! r"
  using assms(1) [of r "new ! r"] assms(2) diff_rows(1) [of old 0 new T r] by (auto simp: screen_diff_def)

lemma length_frame: "\<not> too_small s \<Longrightarrow> length (new_frame E s ls) = s_height s"
  by (auto simp: new_frame_def too_small_def Let_def)

lemma full_shows:
  assumes "in_step s T" "renderFull E msgs s = Some (s', ds)" "\<not> too_small s"
  shows "in_step s' (draw_all ds T)"
    and "\<exists>ls. formatMessagesToLines E s (shown_messages s msgs) (int (inner_mid s) - 2) = Some ls \<and>
           map (\<lambda>r. t_rows (draw_all ds T) (Suc r)) [0..<s_height s] = new_frame E s ls"
proof -
  from assms(2,3) obtain ls where ls: "formatMessagesToLines E s (shown_messages s msgs) (int (inner_mid s) - 2) = Some ls"
    and s': "s_screenBuffer s' = map Some (new_frame E s ls)"
    and ds: "ds = screen_diff (s_screenBuffer s) (new_frame E s ls) @ [MoveTo (s_height s) (snd (calculateInputRender s))]"
    by (auto simp: renderFull_def Let_def bind_eq_Some_conv)
  have rows: "t_rows (draw_all ds T) (Suc r) = new_frame E s ls ! r" if "r < s_height s" for r
    using diff_draws [of "s_screenBuffer s" T r "new_frame E s ls"] assms(1) that length_frame [OF assms(3)]
    by (simp add: ds in_step_def)
  show "in_step s' (draw_all ds T)"
    using rows length_frame [OF assms(3)] by (auto simp: in_step_def s' row_at_def split: if_splits)
  have "map (\<lambda>r. t_rows (draw_all ds T) (Suc r)) [0..<s_height s] = new_frame E s ls"
    by (rule nth_equalityI) (simp_all add: rows length_frame [OF assms(3)])
  then show "\<exists>ls. formatMessagesToLines E s (shown_messages s msgs) (int (inner_mid s) - 2) = Some ls \<and>
      map (\<lambda>r. t_rows (draw_all ds T) (Suc r)) [0..<s_height s] = new_frame E s ls"
    using ls by blast
qed

lemma full_in_step: "in_step s T \<Longrightarrow> renderFull E msgs s = Some (s', ds) \<Longrightarrow> in_step s' (draw_all ds T)"
  using full_shows(1) by (cases "too_small s") (auto simp: renderFull_def in_step_def row_at_def)

lemma input_in_step: "in_step s T \<Longrightarrow> renderInputOnly s = (s', ds) \<Longrightarrow> in_step s' (draw_all ds T)"
  by (auto simp: renderInputOnly_def in_step_def row_at_set_row split_beta split: if_splits)

text \<open>
  A session and its terminal: anything may happen to the session but to the rows it remembers, and the terminal changes
  only by what is drawn. A resize clears both.
\<close>

inductive on_screen :: "session \<Rightarrow> tty \<Rightarrow> bool" where
  fresh: "s_screenBuffer s = [] \<Longrightarrow> on_screen s T"
| resized: "on_screen s T \<Longrightarrow> on_screen (fst (resize w h s)) (draw_on ClearScreen T)"
| full: "on_screen s T \<Longrightarrow> renderFull E msgs s = Some (s', ds) \<Longrightarrow> on_screen s' (draw_all ds T)"
| input: "on_screen s T \<Longrightarrow> renderInputOnly s = (s', ds) \<Longrightarrow> on_screen s' (draw_all ds T)"
| changed: "on_screen s T \<Longrightarrow> s_screenBuffer s' = s_screenBuffer s \<Longrightarrow> on_screen s' T"

lemma on_screen_in_step: "on_screen s T \<Longrightarrow> in_step s T"
proof (induction rule: on_screen.induct)
  case (fresh s T)
  then show ?case by (simp add: in_step_def row_at_def)
next
  case (resized s T w h)
  then show ?case by (simp add: resize_def in_step_def row_at_def Let_def)
next
  case (full s T E msgs s' ds)
  then show ?case by (blast intro: full_in_step)
next
  case (input s T s' ds)
  then show ?case by (blast intro: input_in_step)
next
  case (changed s T s')
  then show ?case by (simp add: in_step_def)
qed


definition sample_marks :: marks where
  "sample_marks = \<lparr>mk_bar = CHR ''|'', mk_on = CHR ''o'', mk_off = CHR ''.'', mk_star = CHR ''*'', mk_up = CHR ''^'',
                   mk_pointer = CHR ''>'', mk_dotted_i = CHR ''I''\<rparr>"

definition sample_screen :: screen_env where
  "sample_screen =
     \<lparr>rd_ui = sample_ui, rd_time = (\<lambda>_. Some (9, 5)),
      rd_online = [''@ann:n.mesh''], rd_members = [''@ann:n.mesh''],
      rd_stats = \<lparr>st_uptime = ''1m'', st_rss = ''40.0'', st_peers = [], st_role = [], st_nodeId = []\<rparr>,
      rd_marks = sample_marks\<rparr>"

definition sample_user :: session where
  "sample_user = new_session sample_ui ''@ann:n.mesh'' [] []"


section \<open>What the window shows\<close>

text \<open>
  The window has a row less than the screen has room for, while the offset is bounded by the room: the oldest line of a
  conversation that fills the screen is never shown.
\<close>

lemma oldest_line_hidden:
  assumes "\<not> too_small s" "s_height s - 5 \<le> n" "offset \<le> max_scroll s n"
  shows "0 < first_shown s n offset"
  using assms by (auto simp: too_small_def max_scroll_def first_shown_def)

text \<open>The part of the input line that is shown has the cursor in it, at its place.\<close>

lemma input_window:
  assumes "line_ok s"
  shows "snd (visible_input s) \<le> length (fst (visible_input s))"
    and "length (fst (visible_input s)) \<le> max_input s"
    and "s_cursorIndex s < length (s_inputBuffer s) \<Longrightarrow>
      fst (visible_input s) ! snd (visible_input s) = s_inputBuffer s ! s_cursorIndex s"
proof -
  have "10 \<le> max_input s" by (simp add: max_input_def)
  then show "snd (visible_input s) \<le> length (fst (visible_input s))" "length (fst (visible_input s)) \<le> max_input s"
    "s_cursorIndex s < length (s_inputBuffer s) \<Longrightarrow> fst (visible_input s) ! snd (visible_input s) = s_inputBuffer s ! s_cursorIndex s"
    using assms by (auto simp: visible_input_def input_start_def line_ok_def Let_def split: if_splits)
qed

text \<open>How much of a row a line takes, the colours apart.\<close>

lemma width_parts:
  "without_colors (time_cell E m @ t) = without_colors (FG_GRAY @ formatTime E (m_timestamp m) @ RESET @ t)"
  "without_colors (lock_badge m @ t) = (if m_isE2EE m then ''[SEC] '' else []) @ without_colors t"
  "without_colors (mention_prefix b @ t) = (if b then ''[@] '' else []) @ without_colors t"
  "without_colors (sender_color E s m @ t) = without_colors t"
  "without_colors (mention_suffix b) = []"
  by (simp_all add: time_cell_def lock_badge_def mention_prefix_def sender_color_def mention_suffix_def colors_gone color_end
      without_colors_char)

lemma first_line_width:
  assumes "no_esc (formatTime E (m_timestamp m))" "length (formatTime E (m_timestamp m)) = 5" "no_esc (shown_sender E s m)" "no_esc c"
  shows "length (without_colors (first_line E s m c)) = prefix_length E s m + length c + (if m_isE2EE m then 4 else 0)"
proof -
  have "without_colors (first_line E s m c) =
      formatTime E (m_timestamp m) @ '' '' @ (if m_isE2EE m then ''[SEC] '' else []) @ (if mentions_me E s m then ''[@] '' else []) @
      sender_prefix E s m @ c"
    using assms by (simp add: first_line_def width_parts colors_gone sender_prefix_def without_colors_char no_colors)
  then show ?thesis using assms(2) by (simp add: prefix_length_def)
qed

text \<open>
  The lock takes six places and two are counted: the first line of an encrypted message that fills its width is four
  places wider than the width it was wrapped to, two more than its cell has.
\<close>

lemma encrypted_line_too_wide:
  assumes "no_esc (formatTime E (m_timestamp m))" "length (formatTime E (m_timestamp m)) = 5" "no_esc (shown_sender E s m)" "no_esc c"
    and "m_isE2EE m" "prefix_length E s m + length c = inner_mid s - 2" "2 < inner_mid s"
  shows "length (without_colors (first_line E s m c)) = inner_mid s + 2"
  using first_line_width [OF assms(1-4)] assms(5-7) by simp

section \<open>A session asks to be drawn\<close>

record machine =
  mc_minutes :: nat
  mc_rss :: string
  mc_time :: "string \<Rightarrow> (nat \<times> nat) option"
  mc_marks :: marks

definition stats_now :: "server_env \<Rightarrow> machine \<Rightarrow> client_server \<Rightarrow> system_stats" where
  "stats_now E M cs =
     \<lparr>st_uptime = show_nat (mc_minutes M) @ ''m'', st_rss = mc_rss M, st_peers = getAllPeers (f_peers (cs_fed cs)),
      st_role = f_role (cs_fed cs), st_nodeId = fe_nodeId (se_fed E)\<rparr>"

definition conversation_messages :: "conversation \<Rightarrow> message list" where
  "conversation_messages c = (case c of Logs ls \<Rightarrow> map log_message ls | Messages ms \<Rightarrow> ms)"

text \<open>What the drawing asks of the server, in its order; a screen that is too small asks nothing.\<close>

definition screen_now :: "server_env \<Rightarrow> int \<Rightarrow> machine \<Rightarrow> session \<Rightarrow> client_server \<Rightarrow> screen_env \<times> client_server" where
  "screen_now E now M s cs =
     (let (online, cs1) = (if too_small s then ([], cs) else getOnlineUsers E now cs);
          (members, cs2) = (if too_small s \<or> isSystemConsole (s_activeTarget s) then ([], cs1)
                            else server_getChannelMembers E now (s_activeTarget s) cs1)
      in (\<lparr>rd_ui = se_ui E, rd_time = mc_time M, rd_online = online, rd_members = members, rd_stats = stats_now E M cs2,
           rd_marks = mc_marks M\<rparr>, cs2))"

definition on_request_render :: "server_env \<Rightarrow> int \<Rightarrow> machine \<Rightarrow> string \<Rightarrow> client_server \<Rightarrow> (client_server \<times> server_effect list) option" where
  "on_request_render E now M user cs =
     (case jm_get (cs_sessions cs) user of
        None \<Rightarrow> Some (cs, [])
      | Some s \<Rightarrow>
          let conv = getCurrentConversation E user (s_activeTarget s) (s_systemLogs s) cs;
              (SE, cs1) = screen_now E now M s cs
          in map_option (\<lambda>(s', ds). (cs1\<lparr>cs_sessions := jm_set user s' (cs_sessions cs1)\<rparr>, map (ToSession user) (write_draws ds)))
               (renderFull SE (conversation_messages conv) s))"

lemma keeps_members: "server_inv E cs \<Longrightarrow> server_inv E (snd (server_getChannelMembers E now target cs))"
proof -
  assume cs: "server_inv E cs"
  have "core (snd (getChannelMembers F now target f)) = core f" for F f
    by (simp add: getChannelMembers_def refresh_users_def Let_def quiet)
  then have "node_inv (se_fed E) (snd (getChannelMembers F now target (cs_fed cs)))" for F
    using inv_core inv_fed [OF cs] by blast
  then show ?thesis using cs by (simp add: server_getChannelMembers_def split_beta Let_def keeps_fed keeps_online)
qed

lemma keeps_screen: "server_inv E cs \<Longrightarrow> server_inv E (snd (screen_now E now M s cs))"
  by (simp add: screen_now_def split_beta Let_def keeps_online keeps_members)

lemma render_fine: "session_fine s \<Longrightarrow> renderFull SE msgs s = Some (s', ds) \<Longrightarrow> session_fine s'"
  by (auto simp: renderFull_def Let_def bind_eq_Some_conv session_fine_defs split: if_splits)

text \<open>A drawing ends and keeps the server's invariant.\<close>

lemma request_render_keeps:
  assumes "server_inv E cs"
  shows "\<exists>cs' es. on_request_render E now M user cs = Some (cs', es) \<and> server_inv E cs'"
proof (cases "jm_get (cs_sessions cs) user")
  case (Some s)
  obtain SE cs1 where n: "screen_now E now M s cs = (SE, cs1)" by fastforce
  obtain s' ds where r: "renderFull SE (conversation_messages (getCurrentConversation E user (s_activeTarget s) (s_systemLogs s) cs)) s = Some (s', ds)"
    using render_always_returns by blast
  have "session_fine s" using assms map_of_SomeD [OF Some] by (auto simp: server_inv_def list_all_iff)
  from render_fine [OF this r] have "session_fine s'" .
  moreover have "server_inv E cs1" using keeps_screen [OF assms, of now M s] n by simp
  ultimately have "server_inv E (cs1\<lparr>cs_sessions := jm_set user s' (cs_sessions cs1)\<rparr>)"
    by (auto simp: server_inv_def list_all_iff dest: jm_set_mem)
  then show ?thesis using Some n r by (simp add: on_request_render_def)
qed (simp add: on_request_render_def assms)

end
