(* ===== verification/Terminal.thy ===== *)
theory Terminal
  imports SessionInput Renderer
begin

text \<open>
  A user's terminal from end to end: the bytes it sends become actions (\<open>InputParser\<close>), the actions change the session and
  the server (\<open>SessionInput\<close>), and the drawings they ask for are written back (\<open>Renderer\<close>). This is \<open>handleChannelInput\<close> of
  \<open>src/core/sshClientConnection.js\<close> and the listener for data of \<open>src/core/telnetClientConnection.js\<close> after the login.
\<close>

section \<open>Bytes become actions\<close>

text \<open>
  \<open>opens i\<close>: the socket is open before the action with number \<open>i\<close>. A connection without its session, or whose socket was
  destroyed, takes nothing.
\<close>

definition act_on_all :: "command_env \<Rightarrow> registry \<Rightarrow> string \<Rightarrow> (nat \<Rightarrow> bool) \<Rightarrow> key_action list \<Rightarrow> server_act" where
  "act_on_all C r user opens actions = all_acts (map (\<lambda>(i, a). handleAction C r user (opens i) a) (enumerate 0 actions))"

definition handleChannelInput ::
  "command_env \<Rightarrow> registry \<Rightarrow> string \<Rightarrow> bool \<Rightarrow> (nat \<Rightarrow> bool) \<Rightarrow> byte list \<Rightarrow> input_parser \<Rightarrow> client_server \<Rightarrow>
    input_parser \<times> client_server \<times> server_effect list" where
  "handleChannelInput C r user is_gone opens chunk p cs =
     (if is_gone \<or> \<not> jm_has (cs_sessions cs) user then (p, cs, [])
      else let (p', actions) = parse_input chunk p in (p', act_on_all C r user opens actions cs))"

section \<open>Requests become drawings\<close>

text \<open>
  What a request of a session writes to its terminal. \<open>RenderFull\<close> draws the messages it names; a request for a session
  that is gone draws nothing.
\<close>

definition draw_full :: "server_env \<Rightarrow> int \<Rightarrow> machine \<Rightarrow> string \<Rightarrow> message list \<Rightarrow> client_server \<Rightarrow> (client_server \<times> server_effect list) option" where
  "draw_full E now M user msgs cs =
     (case jm_get (cs_sessions cs) user of
        None \<Rightarrow> Some (cs, [])
      | Some s \<Rightarrow>
          let (SE, cs1) = screen_now E now M s cs
          in map_option (\<lambda>(s', ds). (cs1\<lparr>cs_sessions := jm_set user s' (cs_sessions cs1)\<rparr>, map (ToSession user) (write_draws ds)))
               (renderFull SE msgs s))"

definition draw_input :: "string \<Rightarrow> server_act" where
  "draw_input user cs =
     (case jm_get (cs_sessions cs) user of
        None \<Rightarrow> (cs, [])
      | Some s \<Rightarrow>
          let (s', ds) = renderInputOnly s
          in (cs\<lparr>cs_sessions := jm_set user s' (cs_sessions cs)\<rparr>,
              if ds = [] then [] else map (ToSession user) (write_draws ds)))"

definition draw_one :: "server_env \<Rightarrow> int \<Rightarrow> machine \<Rightarrow> server_effect \<Rightarrow> client_server \<Rightarrow> (client_server \<times> server_effect list) option" where
  "draw_one E now M e cs =
     (case e of
        ToSession user RequestRender \<Rightarrow> on_request_render E now M user cs
      | ToSession user RenderInput \<Rightarrow> Some (draw_input user cs)
      | RenderFull user msgs \<Rightarrow> draw_full E now M user msgs cs
      | _ \<Rightarrow> Some (cs, [e]))"

fun draw_requests :: "server_env \<Rightarrow> int \<Rightarrow> machine \<Rightarrow> server_effect list \<Rightarrow> client_server \<Rightarrow> (client_server \<times> server_effect list) option" where
  "draw_requests E now M [] cs = Some (cs, [])"
| "draw_requests E now M (e # es) cs =
     do {(cs1, o1) \<leftarrow> draw_one E now M e cs; (cs2, o2) \<leftarrow> draw_requests E now M es cs1; Some (cs2, o1 @ o2)}"

definition terminal_input ::
  "command_env \<Rightarrow> registry \<Rightarrow> machine \<Rightarrow> string \<Rightarrow> bool \<Rightarrow> (nat \<Rightarrow> bool) \<Rightarrow> byte list \<Rightarrow> input_parser \<Rightarrow> client_server \<Rightarrow>
    (input_parser \<times> client_server \<times> server_effect list) option" where
  "terminal_input C r M user is_gone opens chunk p cs =
     (let (p', cs', es) = handleChannelInput C r user is_gone opens chunk p cs
      in map_option (\<lambda>(cs'', out). (p', cs'', out)) (draw_requests (ce_server C) (ce_now C) M es cs'))"

section \<open>From the keys to the screen\<close>

lemma set_session:
  "server_inv E cs \<Longrightarrow> session_fine s \<Longrightarrow> server_inv E (cs\<lparr>cs_sessions := jm_set user s (cs_sessions cs)\<rparr>)"
  by (auto simp: server_inv_def list_all_iff dest: jm_set_mem)

lemma session_of: "server_inv E cs \<Longrightarrow> jm_get (cs_sessions cs) user = Some s \<Longrightarrow> session_fine s"
  by (auto simp: server_inv_def list_all_iff dest!: map_of_SomeD)

lemma input_fine: "session_fine s \<Longrightarrow> renderInputOnly s = (s', ds) \<Longrightarrow> session_fine s'"
  by (auto simp: renderInputOnly_def split_beta session_fine_defs split: if_splits)

lemma full_draws:
  assumes "server_inv E cs"
  shows "\<exists>cs' es. draw_full E now M user msgs cs = Some (cs', es) \<and> server_inv E cs'"
proof (cases "jm_get (cs_sessions cs) user")
  case (Some s)
  obtain SE cs1 where n: "screen_now E now M s cs = (SE, cs1)" by fastforce
  obtain s' ds where r: "renderFull SE msgs s = Some (s', ds)" using render_always_returns by blast
  have "server_inv E cs1" using keeps_screen [OF assms, of now M s] n by simp
  then have "server_inv E (cs1\<lparr>cs_sessions := jm_set user s' (cs_sessions cs1)\<rparr>)"
    using set_session render_fine [OF session_of [OF assms Some] r] by blast
  then show ?thesis using Some n r by (simp add: draw_full_def)
qed (simp add: draw_full_def assms)

lemma input_draws: "server_inv E cs \<Longrightarrow> server_inv E (fst (draw_input user cs))"
  by (auto simp: draw_input_def split_beta split: option.split intro: set_session input_fine session_of)
     (metis input_fine prod.collapse session_of set_session)

lemma draws_one:
  assumes "server_inv E cs"
  shows "\<exists>cs' es. draw_one E now M e cs = Some (cs', es) \<and> server_inv E cs'"
proof -
  have input: "\<exists>cs' es. Some (draw_input u cs) = Some (cs', es) \<and> server_inv E cs'" for u
    using input_draws [OF assms, of u] by (metis prod.collapse)
  show ?thesis
    using assms full_draws [OF assms] request_render_keeps [OF assms] input
    by (simp add: draw_one_def split: server_effect.split session_effect.split)
qed

lemma draws_all: "server_inv E cs \<Longrightarrow> \<exists>cs' es'. draw_requests E now M es cs = Some (cs', es') \<and> server_inv E cs'"
proof (induction es arbitrary: cs)
  case (Cons e es)
  obtain cs1 o1 where "draw_one E now M e cs = Some (cs1, o1)" "server_inv E cs1" using draws_one [OF Cons.prems] by blast
  then show ?case using Cons.IH by fastforce
qed simp

lemma keeps_acts: "keeps (ce_server C) (act_on_all C r user opens actions)"
  unfolding act_on_all_def by (rule keeps_all) (auto simp: list_all_iff keeps_action)

text \<open>
  C16. Whatever bytes a user's terminal sends, in whatever packets and whatever the state of the node: the parser, the
  commands and messages and every drawing they ask for, of any user's screen, come to an end, the parser stays well formed
  and the server consistent.
\<close>

theorem terminal_input_is_drawn:
  assumes "server_inv (ce_server C) cs" "parser_ok p"
  shows "\<exists>p' cs' out. terminal_input C r M user is_gone opens chunk p cs = Some (p', cs', out) \<and>
    parser_ok p' \<and> server_inv (ce_server C) cs'"
proof -
  obtain p' cs' es where h: "handleChannelInput C r user is_gone opens chunk p cs = (p', cs', es)" by (metis prod.exhaust)
  have "parser_ok p' \<and> server_inv (ce_server C) cs'"
  proof (cases "is_gone \<or> \<not> jm_has (cs_sessions cs) user")
    case False
    then show ?thesis
      using h parse_ok [OF assms(2), of chunk] keepsD [OF keeps_acts assms(1), of r user opens "snd (parse_input chunk p)"]
      by (auto simp: handleChannelInput_def result_ok_def split_beta)
  qed (use h assms in \<open>auto simp: handleChannelInput_def\<close>)
  then show ?thesis using draws_all [of "ce_server C" cs' "ce_now C" M es] h by (auto simp: terminal_input_def)
qed

definition sample_machine :: machine where
  "sample_machine = \<lparr>mc_minutes = 1, mc_rss = ''40.0'', mc_time = (\<lambda>_. None), mc_marks = sample_marks\<rparr>"

theorem terminal_input_is_drawn_witness:
  "\<exists>p' cs' out. terminal_input sample_commands createCommandRegistry sample_machine ''@ann:n.mesh'' False (\<lambda>_. True) [104, 105, 13]
     new_parser sample_run = Some (p', cs', out) \<and> parser_ok p' \<and> server_inv (ce_server sample_commands) cs'"
proof -
  have "server_reach sample_server sample_run"
    unfolding sample_run_def
    by (intro server_reach.key server_reach.joins server_reach.start) (simp_all add: sample_commands_def empty_db_def)
  then have "server_inv (ce_server sample_commands) sample_run"
    by (auto simp: sample_commands_def dest: server_reach_inv)
  moreover have "parser_ok new_parser" by (simp add: parser_ok_def new_parser_def)
  ultimately show ?thesis by (rule terminal_input_is_drawn)
qed

end
