(* ===== verification/Schema.thy ===== *)
theory Schema
  imports Database
begin

text \<open>
  \<open>src/storage/schema.js\<close> and the part of \<open>src/storage/database.js\<close> that opens the file: the tables with their columns, the
  migrations of older files, and the identity of the node. Here a table is its columns with their defaults and its rows;
  \<open>Database\<close> works on the rows of the tables this theory sets up. A statement returns the new file and whether it
  succeeded, and the statements before a failing one stay.
\<close>

section \<open>Tables\<close>

datatype sql = SNull | SInt int | SText string

type_synonym sql_row = "(string, sql) jsmap"

record sql_table =
  tb_columns :: "(string \<times> sql) list"
  tb_rows :: "sql_row list"

record sql_db =
  sq_tables :: "(string, sql_table) jsmap"
  sq_indexes :: "(string \<times> string) list"

type_synonym statement = "sql_db \<Rightarrow> sql_db \<times> bool"

fun run_all :: "statement list \<Rightarrow> statement" where
  "run_all [] d = (d, True)"
| "run_all (s # ss) d = (let (d1, ok) = s d in if ok then run_all ss d1 else (d1, False))"

definition columns_of :: "string \<Rightarrow> sql_db \<Rightarrow> string list" where
  "columns_of t d = (case jm_get (sq_tables d) t of None \<Rightarrow> [] | Some tb \<Rightarrow> map fst (tb_columns tb))"

definition create_table :: "string \<Rightarrow> (string \<times> sql) list \<Rightarrow> statement" where
  "create_table t cols d =
     (if jm_has (sq_tables d) t then (d, True)
      else (d\<lparr>sq_tables := jm_set t \<lparr>tb_columns = cols, tb_rows = []\<rparr> (sq_tables d)\<rparr>, True))"

definition create_index :: "string \<Rightarrow> string \<Rightarrow> string list \<Rightarrow> statement" where
  "create_index name t cols d =
     (if name \<in> fst ` set (sq_indexes d) then (d, True)
      else if list_all (\<lambda>c. c \<in> set (columns_of t d)) cols then (d\<lparr>sq_indexes := sq_indexes d @ [(name, t)]\<rparr>, True)
      else (d, False))"

definition drop_table :: "string \<Rightarrow> statement" where
  "drop_table t d =
     (d\<lparr>sq_tables := jm_delete t (sq_tables d), sq_indexes := filter (\<lambda>(i, u). u \<noteq> t) (sq_indexes d)\<rparr>, True)"

definition on_table :: "string \<Rightarrow> (sql_table \<Rightarrow> sql_table) \<Rightarrow> statement" where
  "on_table t f d =
     (case jm_get (sq_tables d) t of None \<Rightarrow> (d, False) | Some tb \<Rightarrow> (d\<lparr>sq_tables := jm_set t (f tb) (sq_tables d)\<rparr>, True))"

definition add_column :: "string \<Rightarrow> string \<Rightarrow> sql \<Rightarrow> statement" where
  "add_column t c v d =
     (if c \<in> set (columns_of t d) then (d, False)
      else on_table t (\<lambda>tb. tb\<lparr>tb_columns := tb_columns tb @ [(c, v)], tb_rows := map (jm_set c v) (tb_rows tb)\<rparr>) d)"

definition update_rows :: "string \<Rightarrow> (sql_row \<Rightarrow> sql_row) \<Rightarrow> statement" where
  "update_rows t f = on_table t (\<lambda>tb. tb\<lparr>tb_rows := map f (tb_rows tb)\<rparr>)"

section \<open>The schema\<close>

definition plain_columns :: "string list \<Rightarrow> (string \<times> sql) list" where
  "plain_columns cs = map (\<lambda>c. (c, SNull)) cs"

definition messages_columns :: "(string \<times> sql) list" where
  "messages_columns =
     plain_columns [''id'', ''sender'', ''receiver'', ''content''] @
     [(''is_action'', SInt 0), (''is_snippet'', SInt 0), (''is_e2ee'', SInt 0), (''deleted_by'', SText []), (''timestamp'', SNull)]"

definition profiles_columns :: "(string \<times> sql) list" where
  "profiles_columns =
     plain_columns [''user_address'', ''contacts'', ''history''] @
     [(''password_hash'', SText []), (''public_key'', SText []), (''kem_public_key'', SText [])]"

definition identity_columns :: "(string \<times> sql) list" where
  "identity_columns =
     plain_columns [''id'', ''identity_private_key'', ''identity_public_key'', ''kem_private_key'', ''kem_public_key'', ''created_at'']"

definition outbox_columns :: "(string \<times> sql) list" where
  "outbox_columns =
     plain_columns [''id'', ''sender'', ''receiver'', ''content''] @
     [(''is_action'', SInt 0), (''is_snippet'', SInt 0), (''is_e2ee'', SInt 0), (''retries'', SInt 0), (''next_retry'', SNull),
      (''timestamp'', SNull), (''created_at'', SInt 0)]"

definition circuits_columns :: "(string \<times> sql) list" where
  "circuits_columns =
     plain_columns [''circuit_key'', ''circuit_id'', ''prev_hop'', ''next_hop'', ''symmetric_key'', ''created_at'']"

definition base_schema :: "statement list" where
  "base_schema =
     [create_table ''messages'' messages_columns,
      create_index ''idx_messages_conversation'' ''messages'' [''sender'', ''receiver'', ''timestamp''],
      create_table ''profiles'' profiles_columns,
      create_table ''node_identity'' identity_columns,
      create_table ''trusted_keys'' (plain_columns [''node_address'', ''identity_public_key'', ''kem_public_key'', ''last_updated'']),
      create_table ''outbox'' outbox_columns,
      create_table ''routing_table''
        (plain_columns [''node_id'', ''role'', ''rendezvous_nodes'', ''kem_public_key'', ''identity_public_key'', ''last_seen'']),
      create_table ''active_circuits'' circuits_columns,
      create_index ''idx_circuits_cid'' ''active_circuits'' [''circuit_id''],
      create_index ''idx_circuits_created'' ''active_circuits'' [''created_at''],
      create_index ''idx_routing_seen'' ''routing_table'' [''last_seen''],
      create_index ''idx_outbox_next_retry'' ''outbox'' [''next_retry'']]"

section \<open>Migrations\<close>

definition upgrade_circuits :: statement where
  "upgrade_circuits d =
     (let cols = columns_of ''active_circuits'' d
      in if cols \<noteq> [] \<and> ''circuit_key'' \<notin> set cols
         then run_all [drop_table ''active_circuits'', create_table ''active_circuits'' circuits_columns,
                       create_index ''idx_circuits_cid'' ''active_circuits'' [''circuit_id'']] d
         else (d, True))"

text \<open>A column that is missing is added, and then filled by updates.\<close>

definition add_missing :: "string \<Rightarrow> string \<Rightarrow> sql \<Rightarrow> (sql_row \<Rightarrow> sql_row) list \<Rightarrow> statement" where
  "add_missing t c v fills d =
     (if c \<in> set (columns_of t d) then (d, True) else run_all (add_column t c v # map (update_rows t) fills) d)"

definition fill_public_keys :: "sql_row \<Rightarrow> sql_row" where
  "fill_public_keys r =
     (case jm_get r ''public_key'' of
        Some (SText k) \<Rightarrow> if k \<noteq> [] \<and> jm_get r ''public_keys'' = Some (SText ''[]'')
                          then jm_set ''public_keys'' (SText (stringify (JArr [JStr k]))) r else r
      | _ \<Rightarrow> r)"

text \<open>\<open>CAST(text AS INTEGER)\<close>: the longest number at the front, or nought.\<close>

definition cast_int :: "string \<Rightarrow> int" where
  "cast_int s =
     (let t = dropWhile js_space s; neg = (t \<noteq> [] \<and> hd t = CHR ''-'');
          digits = takeWhile (is_digit 10) (if t \<noteq> [] \<and> hd t \<in> {CHR ''-'', CHR ''+''} then tl t else t);
          n = int (digits_value 10 digits)
      in if neg then - n else n)"

text \<open>\<open>epoch\<close> is \<open>strftime('%s', text)\<close>, nothing for a text that is no date.\<close>

definition fill_dated :: "(string \<Rightarrow> int option) \<Rightarrow> sql_row \<Rightarrow> sql_row" where
  "fill_dated epoch r =
     (case jm_get r ''timestamp'' of
        Some (SText ts) \<Rightarrow>
          if jm_get r ''created_at'' = Some (SInt 0) \<and> CHR ''-'' \<in> set ts
          then jm_set ''created_at'' (case epoch ts of Some n \<Rightarrow> SInt (n * 1000) | None \<Rightarrow> SNull) r else r
      | _ \<Rightarrow> r)"

definition fill_numbered :: "sql_row \<Rightarrow> sql_row" where
  "fill_numbered r =
     (case jm_get r ''timestamp'' of
        Some (SText ts) \<Rightarrow>
          if jm_get r ''created_at'' = Some (SInt 0) \<and> CHR ''-'' \<notin> set ts then jm_set ''created_at'' (SInt (cast_int ts)) r else r
      | _ \<Rightarrow> r)"

definition fill_now :: "int \<Rightarrow> sql_row \<Rightarrow> sql_row" where
  "fill_now seconds r =
     (case jm_get r ''created_at'' of
        Some (SInt n) \<Rightarrow> if n \<le> 0 then jm_set ''created_at'' (SInt (seconds * 1000)) r else r
      | _ \<Rightarrow> r)"

definition migrations :: "(string \<Rightarrow> int option) \<Rightarrow> int \<Rightarrow> statement list" where
  "migrations epoch seconds =
     [upgrade_circuits,
      add_missing ''messages'' ''deleted_by'' (SText []) [],
      add_missing ''messages'' ''is_e2ee'' (SInt 0) [],
      add_missing ''profiles'' ''kem_public_key'' (SText []) [],
      add_missing ''profiles'' ''allow_telnet'' (SInt 0) [],
      add_missing ''profiles'' ''public_keys'' (SText ''[]'') [fill_public_keys],
      add_missing ''outbox'' ''created_at'' (SInt 0) [fill_dated epoch, fill_numbered, fill_now seconds],
      create_index ''idx_outbox_retry'' ''outbox'' [''next_retry'', ''created_at'']]"

text \<open>
  The contacts of a profile: no text or no JSON is passed over; anything but a list of texts ends the pass, as iterating
  over a number or an object does.
\<close>

datatype contact_read = Pass | Stop | Listed "string list"

definition read_contacts :: "sql_row \<Rightarrow> contact_read" where
  "read_contacts r =
     (case jm_get r ''contacts'' of
        Some (SText t) \<Rightarrow>
          if t = [] then Pass
          else (case json_parse t of
                  None \<Rightarrow> Pass
                | Some (JArr js) \<Rightarrow>
                    if list_all (\<lambda>j. case j of JStr _ \<Rightarrow> True | _ \<Rightarrow> False) js
                    then Listed (map (\<lambda>j. case j of JStr s \<Rightarrow> s | _ \<Rightarrow> []) js) else Stop
                | Some _ \<Rightarrow> Stop)
      | _ \<Rightarrow> Pass)"

fun sync_rows :: "string \<Rightarrow> sql_row list \<Rightarrow> sql_row list" where
  "sync_rows loc [] = []"
| "sync_rows loc (r # rs) =
     (case read_contacts r of
        Pass \<Rightarrow> r # sync_rows loc rs
      | Stop \<Rightarrow> r # rs
      | Listed cs \<Rightarrow> jm_set ''contacts'' (SText (stringify (JArr (map JStr (normalize_contacts loc cs))))) r # sync_rows loc rs)"

text \<open>A failure of the first statements is thrown; one of the migrations is logged and ends them.\<close>

definition initSchema :: "(string \<Rightarrow> int option) \<Rightarrow> int \<Rightarrow> string \<Rightarrow> statement" where
  "initSchema epoch seconds loc d =
     (let (d1, ok) = run_all base_schema d
      in if \<not> ok then (d1, False)
         else let (d2, migrated) = run_all (migrations epoch seconds) d1
              in (if migrated then fst (on_table ''profiles'' (\<lambda>tb. tb\<lparr>tb_rows := sync_rows loc (tb_rows tb)\<rparr>) d2) else d2, True))"

section \<open>No data is lost\<close>

text \<open>
  A table keeps its columns, its rows in their order, and in every row the values of its columns; only the contacts of a
  profile may be written anew, and the circuits, which a node builds again, may go.
\<close>

definition keeps_table :: "sql_table \<Rightarrow> sql_table \<Rightarrow> bool" where
  "keeps_table tb tb' =
     (list_all (\<lambda>c. c \<in> set (map fst (tb_columns tb'))) (map fst (tb_columns tb)) \<and>
      list_all2 (\<lambda>r r'. list_all (\<lambda>c. c = ''contacts'' \<or> jm_get r' c = jm_get r c) (map fst (tb_columns tb)))
        (tb_rows tb) (tb_rows tb'))"

definition keeps_data :: "sql_db \<Rightarrow> sql_db \<Rightarrow> bool" where
  "keeps_data d d' =
     list_all (\<lambda>t. t = ''active_circuits'' \<or>
         (case (jm_get (sq_tables d) t, jm_get (sq_tables d') t) of
            (Some tb, Some tb') \<Rightarrow> keeps_table tb tb' | _ \<Rightarrow> False)) (jm_keys (sq_tables d))"

lemma keeps_data_iff:
  "keeps_data d d' \<longleftrightarrow>
     (\<forall>t tb. t \<noteq> ''active_circuits'' \<longrightarrow> jm_get (sq_tables d) t = Some tb \<longrightarrow>
        (\<exists>tb'. jm_get (sq_tables d') t = Some tb' \<and> keeps_table tb tb'))"
proof -
  have "t \<in> set (jm_keys (sq_tables d)) \<longleftrightarrow> (\<exists>tb. jm_get (sq_tables d) t = Some tb)" for t
    by (metis dom_map_of_conv_image_fst domIff image_set not_None_eq)
  then show ?thesis unfolding keeps_data_def list_all_iff by (fastforce split: option.splits)
qed

lemma keeps_table_refl: "keeps_table tb tb"
  by (simp add: keeps_table_def list_all_iff list_all2_refl)

lemma keeps_data_refl: "keeps_data d d"
  by (simp add: keeps_data_iff keeps_table_refl)

text \<open>A column that the table of the first file does not have, or the contacts.\<close>

definition free_column :: "sql_db \<Rightarrow> string \<Rightarrow> string \<Rightarrow> bool" where
  "free_column d t c = (c = ''contacts'' \<or> c \<notin> set (columns_of t d))"

definition only :: "string \<Rightarrow> sql_row \<Rightarrow> sql_row \<Rightarrow> bool" where
  "only c r r' = (\<forall>x. x \<noteq> c \<longrightarrow> jm_get r' x = jm_get r x)"

lemma only_simps [simp]: "only c r r" "only c r (jm_set c v r)"
  by (simp_all add: only_def update_conv')

definition harmless_statement :: "sql_db \<Rightarrow> statement \<Rightarrow> bool" where
  "harmless_statement d0 s = (\<forall>d. keeps_data d0 d \<longrightarrow> keeps_data d0 (fst (s d)))"

lemma harmless_run: "list_all (harmless_statement d0) ss \<Longrightarrow> harmless_statement d0 (run_all ss)"
  by (induction ss) (auto simp: harmless_statement_def split_beta Let_def)

lemma harmless_create: "harmless_statement d0 (create_table t cols)"
proof -
  have "keeps_data d0 (fst (create_table t cols d))" if k: "keeps_data d0 d" for d
  proof (cases "jm_has (sq_tables d) t")
    case False
    then have "jm_get (sq_tables d) t = None" by (simp add: jm_has_def)
    then have "jm_get (sq_tables d) u = Some tb \<Longrightarrow> jm_get (jm_set t x (sq_tables d)) u = Some tb" for u tb x
      by (auto simp: update_conv')
    then show ?thesis using k False unfolding keeps_data_iff create_table_def by fastforce
  qed (simp add: create_table_def k)
  then show ?thesis by (simp add: harmless_statement_def)
qed

lemma harmless_index: "harmless_statement d0 (create_index n t cols)"
  by (simp add: harmless_statement_def create_index_def keeps_data_iff)

lemma harmless_drop: "harmless_statement d0 (drop_table ''active_circuits'')"
  by (simp add: harmless_statement_def drop_table_def keeps_data_iff)

lemma harmless_on_table:
  assumes "free_column d0 t c" "\<And>tb. set (map fst (tb_columns tb)) \<subseteq> set (map fst (tb_columns (f tb)))"
    and "\<And>tb. list_all2 (only c) (tb_rows tb) (tb_rows (f tb))"
  shows "harmless_statement d0 (on_table t f)"
proof -
  have step: "keeps_table tb (f tb')" if k: "keeps_table tb tb'" and t: "jm_get (sq_tables d0) t = Some tb" for tb tb'
  proof -
    have free: "x = c \<Longrightarrow> x \<in> fst ` set (tb_columns tb) \<Longrightarrow> x = ''contacts''" for x
      using assms(1) t by (auto simp: free_column_def columns_of_def)
    let ?P = "\<lambda>r r'. list_all (\<lambda>c. c = ''contacts'' \<or> jm_get r' c = jm_get r c) (map fst (tb_columns tb))"
    have "?P r r' \<Longrightarrow> only c r' r'' \<Longrightarrow> ?P r r''" for r r' r''
      unfolding list_all_iff only_def set_map using free by metis
    from list_all2_trans [of ?P "only c" ?P, OF this _ assms(3)]
    have "list_all2 ?P (tb_rows tb) (tb_rows (f tb'))" using k by (simp add: keeps_table_def)
    then show ?thesis using k assms(2) [of tb'] by (auto simp: keeps_table_def list_all_iff)
  qed
  have "keeps_data d0 (fst (on_table t f d))" if k: "keeps_data d0 d" for d
  proof (cases "jm_get (sq_tables d) t")
    case (Some x)
    show ?thesis unfolding keeps_data_iff
    proof (intro allI impI)
      fix u tb assume u: "u \<noteq> ''active_circuits''" "jm_get (sq_tables d0) u = Some tb"
      then obtain tb' where "jm_get (sq_tables d) u = Some tb'" "keeps_table tb tb'" using k unfolding keeps_data_iff by blast
      then show "\<exists>tb'. jm_get (sq_tables (fst (on_table t f d))) u = Some tb' \<and> keeps_table tb tb'"
        using Some step u(2) by (cases "u = t") (auto simp: on_table_def update_conv')
    qed
  qed (simp add: on_table_def k)
  then show ?thesis by (simp add: harmless_statement_def)
qed

lemma harmless_update:
  assumes "free_column d0 t c" "\<And>r. only c r (f r)"
  shows "harmless_statement d0 (update_rows t f)"
  unfolding update_rows_def by (rule harmless_on_table [OF assms(1)]) (simp_all add: list_all2_conv_all_nth assms(2))

lemma harmless_add: "free_column d0 t c \<Longrightarrow> harmless_statement d0 (add_column t c v)"
proof -
  assume "free_column d0 t c"
  then have "harmless_statement d0 (on_table t (\<lambda>tb. tb\<lparr>tb_columns := tb_columns tb @ [(c, v)], tb_rows := map (jm_set c v) (tb_rows tb)\<rparr>))"
    by (rule harmless_on_table) (auto simp: list_all2_conv_all_nth only_def update_conv')
  then show ?thesis by (simp add: harmless_statement_def add_column_def)
qed

lemma harmless_missing:
  assumes "list_all (\<lambda>f. \<forall>r. only c r (f r)) fills" "t \<noteq> ''active_circuits''"
  shows "harmless_statement d0 (add_missing t c v fills)"
proof -
  have "keeps_data d0 (fst (run_all (add_column t c v # map (update_rows t) fills) d))"
    if k: "keeps_data d0 d" and new: "c \<notin> set (columns_of t d)" for d
  proof -
    have "free_column d0 t c"
    proof (cases "jm_get (sq_tables d0) t")
      case (Some tb)
      then obtain tb' where "jm_get (sq_tables d) t = Some tb'" "keeps_table tb tb'"
        using k assms(2) unfolding keeps_data_iff by blast
      then show ?thesis using Some new by (auto simp: free_column_def columns_of_def keeps_table_def list_all_iff)
    qed (simp add: free_column_def columns_of_def)
    then have "list_all (harmless_statement d0) (add_column t c v # map (update_rows t) fills)"
      using assms(1) by (auto simp: list_all_iff harmless_add harmless_update)
    from harmless_run [OF this] k show ?thesis by (simp add: harmless_statement_def)
  qed
  then show ?thesis by (auto simp: harmless_statement_def add_missing_def)
qed

lemma fills_only:
  "only ''public_keys'' r (fill_public_keys r)" "only ''created_at'' r (fill_dated epoch r)"
  "only ''created_at'' r (fill_numbered r)" "only ''created_at'' r (fill_now n r)"
  by (auto simp: only_def fill_public_keys_def fill_dated_def fill_numbered_def fill_now_def update_conv'
      split: option.splits sql.splits)

lemma sync_only: "list_all2 (only ''contacts'') rs (sync_rows loc rs)"
proof (induction rs)
  case (Cons r rs)
  have "list_all2 (only ''contacts'') rs rs" by (simp add: list_all2_conv_all_nth)
  then show ?case using Cons by (auto split: contact_read.splits)
qed simp

lemma harmless_base: "harmless_statement d0 (run_all base_schema)"
  by (rule harmless_run) (simp add: base_schema_def harmless_create harmless_index)

lemma harmless_upgrade: "harmless_statement d0 upgrade_circuits"
proof -
  have "harmless_statement d0 (run_all [drop_table ''active_circuits'', create_table ''active_circuits'' circuits_columns,
          create_index ''idx_circuits_cid'' ''active_circuits'' [''circuit_id'']])"
    by (rule harmless_run) (simp add: harmless_drop harmless_create harmless_index)
  then show ?thesis by (simp add: harmless_statement_def upgrade_circuits_def Let_def)
qed

lemma harmless_migrations: "harmless_statement d0 (run_all (migrations epoch seconds))"
  by (rule harmless_run) (simp add: migrations_def harmless_upgrade harmless_missing harmless_index fills_only)

lemma harmless_sync: "harmless_statement d (on_table ''profiles'' (\<lambda>tb. tb\<lparr>tb_rows := sync_rows loc (tb_rows tb)\<rparr>))"
  by (rule harmless_on_table [of _ _ "''contacts''"]) (simp_all add: free_column_def sync_only)

lemma harmless_init: "harmless_statement d (initSchema epoch seconds loc)"
  unfolding harmless_statement_def
proof (intro allI impI)
  fix e assume "keeps_data d e"
  then have start: "keeps_data d (fst (run_all base_schema e))"
    using harmless_base unfolding harmless_statement_def by blast
  then have migrated: "keeps_data d (fst (run_all (migrations epoch seconds) (fst (run_all base_schema e))))"
    using harmless_migrations unfolding harmless_statement_def by blast
  show "keeps_data d (fst (initSchema epoch seconds loc e))"
    using start migrated harmless_sync unfolding harmless_statement_def by (simp add: initSchema_def split_beta Let_def)
qed

section \<open>The columns the code uses\<close>

definition empty_file :: sql_db where
  "empty_file = \<lparr>sq_tables = [], sq_indexes = []\<rparr>"

lemma new_file_columns:
  "let d = fst (initSchema (\<lambda>_. None) 0 ''en'' empty_file)
   in columns_of ''profiles'' d = map fst profiles_columns @ [''allow_telnet'', ''public_keys''] \<and>
      columns_of ''messages'' d = map fst messages_columns \<and> columns_of ''outbox'' d = map fst outbox_columns \<and>
      map fst (sq_indexes d) = [''idx_messages_conversation'', ''idx_circuits_cid'', ''idx_circuits_created'', ''idx_routing_seen'',
        ''idx_outbox_next_retry'', ''idx_outbox_retry''] \<and>
      initSchema (\<lambda>_. None) 0 ''en'' d = (d, True)"
  by code_simp

text \<open>An upgrade of the circuits drops the index on their age with the table, and only the next start makes it again.\<close>

definition old_circuits :: sql_db where
  "old_circuits =
     \<lparr>sq_tables = [(''active_circuits'', \<lparr>tb_columns = plain_columns [''circuit_id'', ''created_at''], tb_rows = []\<rparr>)], sq_indexes = []\<rparr>"

lemma upgrade_loses_index:
  "''idx_circuits_created'' \<notin> fst ` set (sq_indexes (fst (initSchema (\<lambda>_. None) 0 ''en'' old_circuits))) \<and>
   ''idx_circuits_created'' \<in> fst ` set (sq_indexes (fst (initSchema (\<lambda>_. None) 0 ''en'' (fst (initSchema (\<lambda>_. None) 0 ''en'' old_circuits)))))"
  by code_simp

text \<open>A dash in a time stamp that is no date leaves a queued message without a creation time, which no later step repairs.\<close>

lemma undated_stays_null:
  "fill_now 9 (fill_numbered (fill_dated (\<lambda>_. None) [(''timestamp'', SText ''a-b''), (''created_at'', SInt 0)])) =
     [(''timestamp'', SText ''a-b''), (''created_at'', SNull)]"
  by code_simp

section \<open>The identity of the node\<close>

record stored_identity =
  si_nodeId :: string
  si_private :: string
  si_public :: string
  si_kemPrivate :: string
  si_kemPublic :: string

record fresh_keys =
  fk_private :: string
  fk_public :: string
  fk_kemPrivate :: string
  fk_kemPublic :: string
  fk_createdAt :: string

definition text_at :: "sql_row \<Rightarrow> string \<Rightarrow> string" where
  "text_at r c = (case jm_get r c of Some (SText t) \<Rightarrow> t | _ \<Rightarrow> [])"

definition identity_row :: "fresh_keys \<Rightarrow> sql_row" where
  "identity_row k =
     [(''id'', SInt 1), (''identity_private_key'', SText (fk_private k)), (''identity_public_key'', SText (fk_public k)),
      (''kem_private_key'', SText (fk_kemPrivate k)), (''kem_public_key'', SText (fk_kemPublic k)),
      (''created_at'', SText (fk_createdAt k))]"

text \<open>A key whose node id cannot be derived throws, and a missing table does: no identity then, and nothing is stored.\<close>

definition identity_of :: "node_crypto \<Rightarrow> sql_row \<Rightarrow> stored_identity option" where
  "identity_of C r =
     map_option
       (\<lambda>n. \<lparr>si_nodeId = n, si_private = text_at r ''identity_private_key'', si_public = text_at r ''identity_public_key'',
             si_kemPrivate = text_at r ''kem_private_key'', si_kemPublic = text_at r ''kem_public_key''\<rparr>)
       (node_id_of C (text_at r ''identity_public_key''))"

definition getNodeIdentity :: "node_crypto \<Rightarrow> fresh_keys \<Rightarrow> sql_db \<Rightarrow> stored_identity option \<times> sql_db" where
  "getNodeIdentity C k d =
     (case jm_get (sq_tables d) ''node_identity'' of
        None \<Rightarrow> (None, d)
      | Some tb \<Rightarrow>
          (case find (\<lambda>r. jm_get r ''id'' = Some (SInt 1)) (tb_rows tb) of
             Some r \<Rightarrow> (identity_of C r, d)
           | None \<Rightarrow>
               (case identity_of C (identity_row k) of
                  None \<Rightarrow> (None, d)
                | Some i \<Rightarrow>
                    (Some i, fst (on_table ''node_identity'' (\<lambda>tb. tb\<lparr>tb_rows := tb_rows tb @ [identity_row k]\<rparr>) d)))))"

text \<open>The identity made at the first start is the node's at every later one, whatever keys would be drawn then.\<close>

lemma identity_stays:
  assumes "getNodeIdentity C k d = (Some i, d1)"
  shows "getNodeIdentity C k2 d1 = (Some i, d1)"
proof -
  obtain tb where tb: "jm_get (sq_tables d) ''node_identity'' = Some tb"
    using assms by (auto simp: getNodeIdentity_def split: option.splits)
  have found: "find P xs = None \<Longrightarrow> P y \<Longrightarrow> find P (xs @ [y]) = Some y" for P :: "sql_row \<Rightarrow> bool" and xs y
    by (induction xs) (auto split: if_splits)
  show ?thesis
  proof (cases "find (\<lambda>r. jm_get r ''id'' = Some (SInt 1)) (tb_rows tb)")
    case None
    have "jm_get (identity_row k) ''id'' = Some (SInt 1)" by (simp add: identity_row_def)
    then show ?thesis
      using assms tb None found [OF None] by (auto simp: getNodeIdentity_def on_table_def update_conv' split: option.splits)
  next
    case (Some r)
    then show ?thesis using assms tb by (simp add: getNodeIdentity_def)
  qed
qed

section \<open>Opening the file\<close>

datatype opened = Opened | Busy | Broken

text \<open>
  \<open>init\<close>: a file on disk is locked first. A file in use is left alone (where another process took a stale
  lock meanwhile, the lock is that process' from then on); where the schema cannot be set up the lock is given back.
\<close>

definition open_database ::
  "(string \<Rightarrow> int option) \<Rightarrow> int \<Rightarrow> string \<Rightarrow> (int \<Rightarrow> bool) \<Rightarrow> bool \<Rightarrow> int \<Rightarrow> string \<Rightarrow> string option \<Rightarrow> sql_db \<Rightarrow>
    opened \<times> string option \<times> sql_db" where
  "open_database epoch now loc running raced pid path lock d =
     (let on_disk = (path \<noteq> [] \<and> path \<noteq> '':memory:'')
      in case (if on_disk then map_sum id Some (acquireLock running raced pid now path lock) else Inr lock) of
           Inl _ \<Rightarrow> (Busy, lock, d)
         | Inr held \<Rightarrow>
             (case initSchema epoch (now div 1000) loc d of
                (d', True) \<Rightarrow> (Opened, held, d')
              | (d', False) \<Rightarrow> (Broken, releaseLock on_disk pid held, d')))"

text \<open>Closing gives the lock back, whatever closing the file said.\<close>

definition close_database :: "bool \<Rightarrow> int \<Rightarrow> opened \<Rightarrow> string option \<Rightarrow> string option" where
  "close_database on_disk pid state lock = releaseLock (on_disk \<and> state = Opened) pid lock"

text \<open>
  C31. Opening a file of any earlier version loses nothing: every table but the circuits keeps its columns, its rows in
  their order and every value but the contact lists, which are brought to the names of the locale. That holds whether the
  statements succeed, fail at the start or fail in a migration, and when another process holds the file.
\<close>

theorem opening_keeps_data: "keeps_data d (snd (snd (open_database epoch now loc running raced pid path lock d)))"
proof -
  have "keeps_data d (fst (initSchema epoch (now div 1000) loc d))"
    using harmless_init keeps_data_refl unfolding harmless_statement_def by blast
  then show ?thesis
    by (cases "initSchema epoch (now div 1000) loc d")
      (auto simp: open_database_def Let_def keeps_data_refl split: sum.split bool.split prod.split)
qed

text \<open>A second instance finds the file in use and changes neither the file nor the lock.\<close>

lemma second_instance_waits:
  assumes "path \<noteq> []" "path \<noteq> '':memory:''" "lock_pid content = Some p" "running p"
  shows "open_database epoch now loc running raced pid path (Some content) d = (Busy, Some content, d)"
  using assms by (simp add: open_database_def acquireLock_def)

end
