(* ===== verification/Startup.thy ===== *)
theory Startup
  imports Health Commands
begin

text \<open>
  What starts and stops a node, and the helpers every part uses: \<open>src/utils/logger.js\<close>, \<open>src/utils/errorHandler.js\<close>,
  \<open>src/version.js\<close>, the way from an accepted socket to a connection that the three servers share (\<open>FederationEngine.start\<close>,
  \<open>ClientServer.start\<close>, \<open>SshServer.start\<close>), the timers of the engine, and \<open>src/index.js\<close>.
\<close>

section \<open>Log lines\<close>

datatype log_level = DEBUG | INFO | WARN | ERROR

fun level_val :: "log_level \<Rightarrow> nat" where
  "level_val DEBUG = 0"
| "level_val INFO = 1"
| "level_val WARN = 2"
| "level_val ERROR = 3"

fun level_name :: "log_level \<Rightarrow> string" where
  "level_name DEBUG = ''DEBUG''"
| "level_name INFO = ''INFO''"
| "level_name WARN = ''WARN''"
| "level_name ERROR = ''ERROR''"

fun level_color :: "log_level \<Rightarrow> string" where
  "level_color DEBUG = CHR 0x1B # ''[38;5;244m''"
| "level_color INFO = CHR 0x1B # ''[38;5;39m''"
| "level_color WARN = CHR 0x1B # ''[38;5;214m''"
| "level_color ERROR = CHR 0x1B # ''[38;5;196m''"

text \<open>\<open>LOG_LEVELS[name.toUpperCase()]\<close>.\<close>

definition level_of :: "string \<Rightarrow> log_level option" where
  "level_of name = find (\<lambda>l. level_name l = js_upper name) [DEBUG, INFO, WARN, ERROR]"

definition setGlobalLevel :: "string \<Rightarrow> log_level option \<Rightarrow> log_level option" where
  "setGlobalLevel name g = (case level_of name of Some l \<Rightarrow> Some l | None \<Rightarrow> g)"

text \<open>The level set last, or the environment's, or the configuration's, or \<open>DEBUG\<close>.\<close>

definition getGlobalLevel :: "log_level option \<Rightarrow> string option \<Rightarrow> string \<Rightarrow> log_level" where
  "getGlobalLevel g env cfg =
     (case g of Some l \<Rightarrow> l | None \<Rightarrow>
        (case level_of (case or_else env None of Some e \<Rightarrow> e | None \<Rightarrow> []) of Some l \<Rightarrow> l | None \<Rightarrow>
           (case level_of cfg of Some l \<Rightarrow> l | None \<Rightarrow> DEBUG)))"

record logger =
  lg_module :: string
  lg_level :: "log_level option"
  lg_file :: "string option"

definition new_logger :: "string \<Rightarrow> string option \<Rightarrow> string option \<Rightarrow> logger" where
  "new_logger name minLevel file =
     \<lparr>lg_module = js_upper name, lg_level = (case minLevel of None \<Rightarrow> None | Some l \<Rightarrow> level_of l), lg_file = file\<rparr>"

definition set_min_level :: "string \<Rightarrow> logger \<Rightarrow> logger" where
  "set_min_level name L = (case level_of name of Some l \<Rightarrow> L\<lparr>lg_level := Some l\<rparr> | None \<Rightarrow> L)"

definition min_level :: "log_level \<Rightarrow> logger \<Rightarrow> log_level" where
  "min_level globalLevel L = (case lg_level L of Some l \<Rightarrow> l | None \<Rightarrow> globalLevel)"

text \<open>\<open>toISOString().replace('T', ' ').slice(0, 19)\<close>, of the ISO text.\<close>

definition log_time :: "string \<Rightarrow> string" where
  "log_time stamp = take 19 (map (\<lambda>c. if c = CHR ''T'' then CHR '' '' else c) stamp)"

definition meta_text :: "json option \<Rightarrow> string" where
  "meta_text meta =
     (case meta of
        None \<Rightarrow> [] | Some JNull \<Rightarrow> [] | Some (JBool False) \<Rightarrow> []
      | Some (JNum n) \<Rightarrow> (if n = 0 then [] else '' | '' @ show_int n)
      | Some (JStr s) \<Rightarrow> (if s = [] then [] else '' | '' @ s)
      | Some (JBool True) \<Rightarrow> '' | true''
      | Some j \<Rightarrow> '' | '' @ stringify j)"

datatype log_effect = Console string | AppendFile string string

definition log_write :: "log_level \<Rightarrow> string \<Rightarrow> logger \<Rightarrow> log_level \<Rightarrow> string \<Rightarrow> json option \<Rightarrow> log_effect list" where
  "log_write globalLevel stamp L level message meta =
     (if level_val level < level_val (min_level globalLevel L) then []
      else
        let time = log_time stamp; name = pad_end 5 (level_name level); reset = CHR 0x1B # ''[0m''; m = meta_text meta
        in Console (CHR 0x1B # ''[90m['' @ time @ '']'' @ reset @ '' '' @ level_color level @ (CHR 0x1B # ''[1m['') @ name @ '']'' @ reset @
                    '' '' @ (CHR 0x1B # ''[35m['') @ lg_module L @ '']'' @ reset @ '' '' @ message @ m) #
           (case or_else (lg_file L) None of
              Some file \<Rightarrow> [AppendFile file (''['' @ time @ ''] ['' @ name @ ''] ['' @ lg_module L @ ''] '' @ message @ m @ [NL])]
            | None \<Rightarrow> []))"

text \<open>The lines of a logger are those of its level and above, whatever the global level, once it has one of its own.\<close>

lemma log_threshold:
  "log_write g stamp (set_min_level name L) level message meta = [] \<longleftrightarrow>
     (case level_of name of Some l \<Rightarrow> level_val level < level_val l
      | None \<Rightarrow> level_val level < level_val (min_level g L))"
  by (simp add: log_write_def set_min_level_def min_level_def Let_def split: option.split)

section \<open>Errors and versions\<close>

definition safeJsonParse :: "string \<Rightarrow> json \<Rightarrow> json" where
  "safeJsonParse str fallback = (case json_parse str of Some j \<Rightarrow> j | None \<Rightarrow> fallback)"

text \<open>\<open>wrapAsync\<close>: a failure is logged under its context, and the answer is \<open>null\<close>.\<close>

definition wrapAsync :: "'r result \<Rightarrow> string \<Rightarrow> 'r option \<times> (string \<times> string) option" where
  "wrapAsync outcome ctx = (case outcome of Ok r \<Rightarrow> (Some r, None) | Throw e \<Rightarrow> (None, Some (ctx, e)))"

text \<open>The version of the package file when it has one, else the one that is written down.\<close>

definition package_version :: "json option \<Rightarrow> string" where
  "package_version pkg =
     (case pkg of
        Some (JObj kvs) \<Rightarrow>
          (case jm_get kvs ''version'' of
             Some (JStr v) \<Rightarrow> if js_trim v \<noteq> [] then js_trim v else ''2.7.8''
           | _ \<Rightarrow> ''2.7.8'')
      | _ \<Rightarrow> ''2.7.8'')"

definition default_ssh_version :: "string \<Rightarrow> string" where
  "default_ssh_version version = ''SSH-2.0-Metrice_'' @ version"

definition formatSshServerVersion :: "string \<Rightarrow> string option \<Rightarrow> string" where
  "formatSshServerVersion version custom =
     (case custom of
        None \<Rightarrow> default_ssh_version version
      | Some v \<Rightarrow>
          if js_trim v = [] then default_ssh_version version
          else if starts_with ''SSH-2.0-'' (js_trim v) then js_trim v else ''SSH-2.0-'' @ js_trim v)"

lemma ssh_version_shape: "starts_with ''SSH-2.0-'' (formatSshServerVersion version custom)"
  by (auto simp: formatSshServerVersion_def default_ssh_version_def starts_with_def split: option.split)

section \<open>From a socket to a connection\<close>

text \<open>
  Each server makes its connection at once, or, behind a proxy, when the header has been read: then the callback of
  \<open>ProxyProtocolParser.handle\<close> comes without an error.
\<close>

definition connections_made :: "config \<Rightarrow> string option \<Rightarrow> int option \<Rightarrow> proxy_event list \<Rightarrow> nat" where
  "connections_made cfg remote rport es =
     (if useProxyProtocol cfg
      then length (filter (\<lambda>e. e = Callback None)
             (snd (proxy_run remote rport (clean_trusted (proxyProtocolTrustedIps cfg)) es proxy_init)))
      else 1)"

text \<open>A socket becomes one connection at most, however its bytes are cut and whatever else happens to it.\<close>

lemma one_connection: "connections_made cfg remote rport es \<le> 1"
proof -
  have "length (filter (\<lambda>e. e = Callback None) out) \<le> length (filter (\<lambda>e. \<exists>r. e = Callback r) out)" for out
    by (induction out) auto
  then show ?thesis
    using proxy_run_one_callback [of remote rport _ es proxy_init] le_trans unfolding connections_made_def by fastforce
qed

section \<open>Starting and stopping\<close>

text \<open>The intervals of \<open>startWorkers\<close> with their periods in milliseconds; gossip waits twelve to eighteen seconds.\<close>

datatype worker = PresenceWorker | HeartbeatWorker | MaintainWorker | CleanupWorker

fun worker_period :: "worker \<Rightarrow> nat" where
  "worker_period PresenceWorker = 10000"
| "worker_period HeartbeatWorker = 30000"
| "worker_period MaintainWorker = 15000"
| "worker_period CleanupWorker = 30000"

definition gossip_delay :: "nat \<Rightarrow> nat" where
  "gossip_delay draw = 12000 + draw mod 6000"

datatype part = HealthPart | ClientPart | SshPart | FederationPart | DatabasePart

datatype node_effect = Close part | ShutdownError string | CleanExit | Exit nat

fun close_parts :: "(part \<Rightarrow> string option) \<Rightarrow> part list \<Rightarrow> node_effect list" where
  "close_parts fails [] = [CleanExit]"
| "close_parts fails (p # ps) =
     Close p # (case fails p of Some e \<Rightarrow> [ShutdownError e] | None \<Rightarrow> close_parts fails ps)"

definition shutdown :: "(part \<Rightarrow> string option) \<Rightarrow> bool \<Rightarrow> bool \<times> node_effect list" where
  "shutdown fails isShuttingDown =
     (if isShuttingDown then (True, [])
      else (True, close_parts fails [HealthPart, ClientPart, SshPart, FederationPart, DatabasePart] @ [Exit 0]))"

fun signals :: "(part \<Rightarrow> string option) list \<Rightarrow> bool \<Rightarrow> node_effect list" where
  "signals [] b = []"
| "signals (f # fs) b = (let (b', es) = shutdown f b in es @ signals fs b')"

text \<open>
  However many signals come, the node closes its parts once, in order, and exits once; the database is closed last, after
  everything that writes to it, unless closing something before it failed.
\<close>

lemma shuts_down_once: "signals (f # fs) False = snd (shutdown f False)"
proof -
  have "signals fs True = []" for fs by (induction fs) (simp_all add: shutdown_def)
  then show ?thesis by (simp add: shutdown_def)
qed

lemma clean_shutdown:
  "snd (shutdown (\<lambda>_. None) False) = map Close [HealthPart, ClientPart, SshPart, FederationPart, DatabasePart] @ [CleanExit, Exit 0]"
  by (simp add: shutdown_def)

text \<open>One part that cannot be closed leaves the ones after it open, the database among them.\<close>

lemma failed_close_skips_database:
  "p \<noteq> DatabasePart \<Longrightarrow> Close DatabasePart \<notin> set (snd (shutdown (\<lambda>q. if q = p then Some e else None) False))"
  by (cases p) (simp_all add: shutdown_def)

text \<open>Without the post-quantum functions of the runtime a node goes on with the classical ones, unless it must not.\<close>

definition verifyQuantumSafePosture :: "bool \<Rightarrow> bool \<Rightarrow> bool \<times> node_effect list" where
  "verifyQuantumSafePosture has_ml_kem strict =
     (if has_ml_kem then (True, []) else (False, if strict then [Exit 1] else []))"

end
