(* ===== verification/Locales.thy ===== *)
theory Locales
  imports I18n
begin

text \<open>
  \<open>src/locales/en.js\<close> and \<open>src/locales/tr.js\<close>: the tables of templates, a definition for each block of the files, cut where
  the order of the two differs. A text
  is given by the bytes of its UTF-8 form, as it is stored and sent; looking up and filling in (\<open>I18n\<close>) act on these bytes
  as the code acts on the characters, since the braces of a placeholder are bytes of their own in UTF-8.
\<close>

section \<open>The tables\<close>

definition en_channels :: "(string \<times> string) list" where
  "en_channels =
     [(''DEFAULT_CHANNEL_NAME'', ''#general''),
      (''SYSTEM_CONSOLE_NAME'', ''*system'')]"

definition en_bootstrap :: "(string \<times> string) list" where
  "en_bootstrap =
     [(''BOOTSTRAP_BANNER'', ''====================================================''),
      (''BOOTSTRAP_STARTING'', ''Starting Node: {name}''),
      (''BOOTSTRAP_FED_PORT'', ''Federation Port: {port}''),
      (''BOOTSTRAP_CLIENT_PORT'', ''Client TUI Port: {port}''),
      (''BOOTSTRAP_SSH_PORT'', ''SSH Server Port: {port}''),
      (''BOOTSTRAP_HEALTH_PORT'', ''Health / Heartbeat Port: {port} ({outer})''),
      (''BOOTSTRAP_LOG_LEVEL'', ''Log Level: {level}''),
      (''BOOTSTRAP_SHUTTING_DOWN'', ''Shutting down node, cleaning up connections and database...''),
      (''BOOTSTRAP_CLEAN_EXIT'', ''Graceful exit completed. Goodbye!''),
      (''BOOTSTRAP_SHUTDOWN_ERROR'', ''Error during shutdown: {error}'')]"

definition en_health :: "(string \<times> string) list" where
  "en_health =
     [(''HEALTH_SRV_LISTENING'', ''TCP Health & Heartbeat Server Ready -> {host}:{port}''),
      (''HEALTH_SRV_CLOSED'', ''TCP Health & Heartbeat Server closed.''),
      (''HEALTH_SRV_ERROR'', ''Health server error: {error}''),
      (''HEALTH_SRV_CMD_RECEIVED'', ''Received health command: {cmd} from {address}''),
      (''HEALTH_SRV_CONN_ERROR'', ''Health socket connection error ({address}): {error}'')]"

definition en_database_1 :: "(string \<times> string) list" where
  "en_database_1 =
     [(''DB_LOADED'', ''Database loaded: {path}''),
      (''DB_CORRUPT_RESET'', ''Failed to read database, resetting: {error}''),
      (''DB_CREATED'', ''Creating new database: {path}''),
      (''DB_WRITE_ERROR'', ''Database write error: {error}''),
      (''DB_MSG_SAVED'', ''Message saved to DB''),
      (''DB_GEN_IDENTITY_KEYS'', ''Generating new Ed25519 and Kyber (M'' @ ''L-KEM-768) key pairs for node...''),
      (''DB_MIGRATION_WARN'', ''Migration warning: {error}''),
      (''DB_WAL_CLOSED'', ''Database WAL flushed and safely closed.''),
      (''DB_CLOSE_ERROR'', ''Error closing database: {error}'')]"

definition en_database_2 :: "(string \<times> string) list" where
  "en_database_2 =
     [(''DB_LEGACY_CIRCUITS_UPGRADED'', ''Legacy active_circuits schema detected and upgraded to composite circuit_key.'')]"

definition en_database_3 :: "(string \<times> string) list" where
  "en_database_3 =
     [(''DB_OUTBOX_CLEANED'', ''Cleaned {count} expired or unroutable outbox messages''),
      (''DB_OUTBOX_CLEAN_ERR'', ''Failed to clean expired outbox messages: {error}''),
      (''DB_LOCKED_ERROR'', ''[LOCKED DATABASE] Database file ({path}) is currently locked by another Metrice process (PID: {pid})! Concurrent instances are blocked to preserve data integrity.''),
      (''DB_STALE_LOCK_REMOVED'', ''[LOCK WARNING] Removed stale lockfile from terminated process (PID: {pid}): {path}'')]"

definition en_peers :: "(string \<times> string) list" where
  "en_peers =
     [(''PEER_CACHE_LOADED'', ''Dynamic peer pool loaded ({count} peers)''),
      (''PEER_CACHE_SAVE_ERROR'', ''Failed to save peer pool: {error}''),
      (''PEER_EVICTED'', ''Low-score peer evicted from pool: {peer}''),
      (''PEER_UDP_ERROR'', ''UDP Discovery socket warning: {error}''),
      (''PEER_LAN_ACTIVE'', ''LAN Discovery beacon active -> Port: {port}'')]"

definition en_federation_1 :: "(string \<times> string) list" where
  "en_federation_1 =
     [(''FED_INCOMING_CONN'', ''Incoming federation connection: {peer}''),
      (''FED_INVALID_JSON'', ''Invalid JSON packet ({peer}): {error}''),
      (''FED_SOCKET_ERROR'', ''Federation socket error ({peer}): {error}''),
      (''FED_LISTENING'', ''Federation network listening -> Port: {port}''),
      (''FED_MSG_RECEIVED'', ''Remote message received: {from} -> {to}''),
      (''FED_CONNECTING'', ''Connecting to remote server: {host}:{port}''),
      (''FED_CONNECTED'', ''Connected to remote server ({host}:{port}). Encrypted channel ready.''),
      (''FED_REMOTE_ACK'', ''Remote server acknowledgment received''),
      (''FED_SEND_FAILED'', ''Transmission to remote server failed ({host}:{port}): {error}''),
      (''FED_CONN_CLOSED'', ''Federation connection closed: {peer}''),
      (''FED_OUTBOX_SENT'', ''Outbox message successfully delivered: {id}''),
      (''FED_OUTBOX_QUEUED'', ''Message could not be delivered, queued in Outbox ({to}): {error}''),
      (''FED_OUTBOX_EXPIRED'', ''Outbox message expired or exceeded maximum retries ({id}, {retries} retries), discarding''),
      (''FED_CHANNEL_SUBSCRIBED'', ''Remote channel subscriber added: {peer} -> {channel}''),
      (''FED_CHANNEL_UNSUBSCRIBED'', ''Remote channel subscriber removed: {peer} -> {channel}''),
      (''FED_NODE_IDENTITY_READY'', ''Node Identity Active -> Ed25519 & Kyber-768 | Address: {address}''),
      (''FED_SECURE_CHANNEL_PARSE_ERR'', ''Encrypted channel frame parse error: {error}''),
      (''FED_SECURE_HANDSHAKE_INIT_FAIL'', ''[SECURITY] Handshake INIT signature verification failed: {node}''),
      (''FED_SECURE_HANDSHAKE_REPLY_FAIL'', ''[SECURITY] Handshake REPLY signature verification failed: {node}''),
      (''FED_SECURE_FRAME_NOT_READY'', ''Encrypted packet received before handshake completion, dropping.''),
      (''FED_SECURE_DECRYPT_FAIL'', ''[SECURITY] Failed to decrypt packet or integrity (AuthTag) corrupted! Peer: {peer}''),
      (''FED_SECURE_DECRYPT_JSON_ERR'', ''Decrypted JSON corrupted: {error}''),
      (''FED_SECURE_TIMEOUT'', ''Secure channel timed out''),
      (''FED_CLOSED'', ''Federation engine and secure transport channels closed.'')]"

definition en_federation_2 :: "(string \<times> string) list" where
  "en_federation_2 =
     [(''FED_REPLAY_NONCE_DETECTED'', ''[SECURITY] Replay nonce detected, disconnecting: {node}''),
      (''FED_IP_SPOOFING_DETECTED'', ''[SECURITY] IP Spoofing detected! Declared: {declared}, Remote IP: {remote}'')]"

definition en_federation_3 :: "(string \<times> string) list" where
  "en_federation_3 =
     [(''FED_ROLE_UPDATED'', ''Node role updated -> {role}''),
      (''FED_PROXY_HANDSHAKE_ERR'', ''Proxy Protocol handshake error: {error}''),
      (''FED_AUTONAT_SSRF_BLOCKED'', ''AutoNAT SSRF Protection: Dialback to private/loopback network blocked: {ip}''),
      (''FED_AUTONAT_INBOUND_REQUEST'', ''AutoNAT: Inbound Dialback request received -> {ip}:{port}'')]"

definition en_federation_4 :: "(string \<times> string) list" where
  "en_federation_4 =
     [(''FED_RDV_NODE_ID_MISMATCH'', ''Rendezvous NodeID mismatch: Expected {expected}, Derived: {derived}''),
      (''FED_RDV_INVALID_SIG'', ''Rendezvous signature invalid: {node}''),
      (''FED_RDV_CAPACITY_REACHED'', ''Rendezvous tunnel capacity reached ({current}/{max}), {node} rejected''),
      (''FED_RDV_IP_LIMIT_REACHED'', ''Rendezvous IP limit reached: {ip} reached maximum {max} active rendezvous slots''),
      (''FED_RDV_TUNNEL_CLOSED'', ''Rendezvous tunnel closed: {node}''),
      (''FED_RDV_TUNNEL_BOUND'', ''Rendezvous tunnel successfully bound: {node} (Active tunnels: {current}/64)''),
      (''FED_RDV_BOUND_SUCCESS'', ''Rendezvous reverse tunnel established successfully with EDGE {node} (Active tunnels: {total})''),
      (''FED_TRANSIT_FORWARDED'', ''Transit direct message forwarded to reverse tunnel {node} (from: {from}, to: {to})''),
      (''FED_TRANSIT_CROSS_RELAY'', ''Transit direct message forwarding across relay {relay} (target: {target}, from: {from})''),
      (''FED_PRESENCE_ANNOUNCE_SKEW'', ''Presence announcement timeout ({node}): Clock skew exceeds 24h ({seconds}s)''),
      (''FED_ROUTE_UPDATE_SKEW'', ''Route update timeout ({node}): Clock skew exceeds 24h ({seconds}s)''),
      (''FED_AUTONAT_CONSENSUS'', ''AutoNAT: Reflected IP consensus reached: {ip} ({votes} peer confirmations)''),
      (''FED_AUTONAT_EDGE_SKIPPED'', ''AutoNAT: MESH_ROLE=EDGE explicitly configured, skipping dialback, maintaining EDGE role.'')]"

definition en_federation_5 :: "(string \<times> string) list" where
  "en_federation_5 =
     [(''FED_AUTONAT_CAPACITY_REACHED'', ''AutoNAT: Active dialback capacity reached (capped at {max} concurrent requests).''),
      (''FED_AUTONAT_RATE_LIMITED'', ''AutoNAT: Request rate limit exceeded: {ip}'')]"

definition en_federation_6 :: "(string \<times> string) list" where
  "en_federation_6 =
     [(''FED_AUTONAT_DIALBACK_ERR'', ''Dialback initiation error: {error}''),
      (''FED_AUTONAT_ALREADY_RUNNING'', ''AutoNAT: Dialback test already running, duplicate call prevented.''),
      (''FED_AUTONAT_TIMEOUT'', ''AutoNAT: Dialback timeout -> Role: CAP_EDGE''),
      (''FED_AUTONAT_PACKET_ERR'', ''Dialback packet send error: {error}''),
      (''FED_AUTONAT_VERIFIED'', ''AutoNAT: Inbound Dialback verified -> Role: CAP_RELAY''),
      (''FED_RDV_CONNECTED'', ''Rendezvous tunnel connected -> {relay}''),
      (''FED_RDV_DISCONNECTED'', ''Rendezvous connection disconnected -> {relay}, refreshing...''),
      (''FED_RDV_CONN_ERR'', ''Rendezvous connection error ({relay}): {error}''),
      (''FED_RDV_ZOMBIE_DETECTED'', ''Rendezvous zombie tunnel detected (PONG timeout): {relay}''),
      (''FED_NO_ACTIVE_RDV'', ''No active rendezvous point found for target EDGE {node}, message queued in Outbox''),
      (''FED_NO_EXIT_NODE'', ''No suitable Exit node found for target {node} ({exit}), message queued in Outbox''),
      (''FED_ONION_SEND_ERR'', ''Onion send error ({node}): {error}, queuing in outbox''),
      (''FED_TARGET_NO_RDV_ERR'', ''No active rendezvous point found for target {node}''),
      (''FED_INVALID_TARGET_ERR'', ''Invalid target: {target}'')]"

definition en_federation_7 :: "(string \<times> string) list" where
  "en_federation_7 =
     [(''FED_OUTBOX_EXCEPTION'', ''Outbox queue processing exception: {error}''),
      (''FED_GOSSIP_WORKER_EXCEPTION'', ''Gossip worker exception: {error}''),
      (''FED_BUFFER_OVERFLOW_DOS'', ''Buffer overflow / DoS protection triggered (> {max} bytes without newline)''),
      (''FED_KEX_UNEXPECTED_INIT'', ''Initiator received unexpected HANDSHAKE_INIT''),
      (''FED_KEX_UNEXPECTED_REPLY'', ''Responder received unexpected HANDSHAKE_REPLY'')]"

definition en_ssh_1 :: "(string \<times> string) list" where
  "en_ssh_1 =
     [(''SSH_SRV_LISTENING'', ''Zero-Dependency SSH-2 Server Ready -> Port: {port}''),
      (''SSH_CLIENT_IDENTIFIED'', ''SSH Client Identified: {version}''),
      (''SSH_CONN_ERROR'', ''SSH Connection error: {error}''),
      (''SSH_HMAC_FAIL'', ''SSH HMAC verification failed, disconnecting.''),
      (''SSH_TRANSPORT_READY'', ''SSH Encrypted Transport Layer (AES-256-CTR + HMAC-SHA256) Initialized.''),
      (''SSH_AUTH_SUCCESS'', ''SSH User Authenticated with Password: {user}''),
      (''SSH_BUFFER_OVERFLOW'', ''SSH Buffer overflow: {target}''),
      (''SSH_INVALID_PACKET_SIZE'', ''Invalid SSH packet size: {size}''),
      (''SSH_KEX_NEGOTIATED'', ''Negotiated SSH KEX: {kex}''),
      (''SSH_SERVICE_REQUEST_RECEIVED'', ''SSH Service Request Received: {service}''),
      (''SSH_PUBKEY_READ_ERROR'', ''Ed25519 public key read error: {error}''),
      (''SSH_UNREGISTERED_PUBKEY_WARN'', ''[SECURITY] Ed25519 key presented by user is not registered to this account: {user}''),
      (''SSH_VAULT_SEED_ERROR'', ''Vault Seed derivation error: {error}''),
      (''SSH_AUTH_CLEARTEXT_REJECTED'', ''SSH authentication attempt in cleartext rejected''),
      (''SSH_CHANNEL_PREAUTH_REJECTED'', ''SSH channel open attempted prior to authentication''),
      (''SSH_INVALID_USERNAME_FORMAT'', ''Invalid SSH username format rejected: {username}''),
      (''SSH_AUTH_EXCEPTION'', ''SSH authentication exception: {error}'')]"

definition en_ssh_2 :: "(string \<times> string) list" where
  "en_ssh_2 =
     [(''SSH_INVALID_BANNER_LEN'', ''Invalid SSH ID banner length, disconnecting.''),
      (''SSH_HEADER_BUFFER_OVERFLOW'', ''Unencrypted SSH header buffer overflow, resetting connection.''),
      (''SSH_CLEANUP_ERROR'', ''SSH cleanup error: {error}''),
      (''SSH_PROXY_HANDSHAKE_ERR'', ''SSH Proxy Protocol handshake error: {error}'')]"

definition en_crypto :: "(string \<times> string) list" where
  "en_crypto =
     [(''CRYPTO_PQ_CRITICAL_BANNER'', [CHR 0x0A, CHR 0x1B] @ ''[41;1;37m                                                                               '' @ [CHR 0x1B] @ ''[0m'' @ [CHR 0x0A, CHR 0x1B] @ ''[41;1;37m   [CRITICAL SECURITY WARNING] POST-QUANTUM ENCRYPTION (M'' @ ''L-KEM) NOT ACTIVE!   '' @ [CHR 0x1B] @ ''[0m'' @ [CHR 0x0A, CHR 0x1B] @ ''[41;1;37m   System fell back to classical Elliptic Curve (X25519). This session is not   '' @ [CHR 0x1B] @ ''[0m'' @ [CHR 0x0A, CHR 0x1B] @ ''[41;1;37m   QUANTUM SECURE! Ensure you are running in Node.js >= 24.7 / 26 environment. '' @ [CHR 0x1B] @ ''[0m'' @ [CHR 0x0A, CHR 0x1B] @ ''[41;1;37m                                                                               '' @ [CHR 0x1B] @ ''[0m''),
      (''CRYPTO_STRICT_PQ_ABORT'', ''[ERROR] Refused to start with classical encryption because STRICT_PQ=true is set.''),
      (''CRYPTO_FALLBACK_X25519_WARN'', ''[WARNING] System could not generate M'' @ ''L-KEM, falling back to classical X25519 key!''),
      (''CRYPTO_INVALID_CLIENT_ED25519'', ''Invalid client Ed25519 public key! Vault seed cannot be derived.''),
      (''CRYPTO_INVALID_KEY_FORMAT'', ''Invalid key format!''),
      (''CRYPTO_ONLY_ED25519_SUPPORTED'', ''Only keys with ssh-ed25519 algorithm are supported!''),
      (''CRYPTO_KEY_TOO_SHORT'', ''Key data is too short!''),
      (''CRYPTO_WIRE_FORMAT_ERROR'', ''Failed to parse OpenSSH wire format!''),
      (''CRYPTO_ED25519_LENGTH_ERROR'', ''Ed25519 public key must be exactly 32 bytes!''),
      (''CRYPTO_NOT_ED25519_TYPE'', ''Key is not of Ed25519 type!''),
      (''CRYPTO_VERIFICATION_FAILED'', ''Cryptographic public key could not be verified: {error}'')]"

definition en_e2ee :: "(string \<times> string) list" where
  "en_e2ee =
     [(''E2EE_ACTIVE_BADGE'', '' ['' @ [CHR 0xF0, CHR 0x9F, CHR 0x94, CHR 0x92] @ '' E2EE] ''),
      (''E2EE_INACTIVE_BADGE'', '' ['' @ [CHR 0xF0, CHR 0x9F, CHR 0x94, CHR 0x93] @ '' PLAINTEXT] ''),
      (''E2EE_WARNING_TELNET_PEER'', ''[SECURITY] End-to-end encryption (E2EE) is disabled in this chat because {user} is connected via Telnet.''),
      (''E2EE_ENABLED_NOTICE'', ''[SECURITY] End-to-end encryption (E2EE - Kyber768 + AES-256-GCM) active.''),
      (''E2EE_DECRYPT_FAIL_PLACEHOLDER'', [CHR 0xF0, CHR 0x9F, CHR 0x94, CHR 0x92] @ '' [DECRYPTION ERROR: Key Mismatch]''),
      (''E2EE_ENCRYPT_ERROR_LOG'', ''E2EE encryption error: {error}''),
      (''E2EE_ENCRYPT_ERROR_NOTICE'', ''[E2EE ERROR] Message could not be encrypted: {error}''),
      (''E2EE_TELNET_BANNER_WARNING'', [CHR 0x1B] @ ''[1;41;37m WARNING! YOUR SESSION IS NOT LOCKED! '' @ [CHR 0x1B] @ ''[0m'' @ [CHR 0x0D, CHR 0x0A, CHR 0x1B] @ ''[1;31mYou have connected to this session via insecure Telnet protocol.'' @ [CHR 0x1B] @ ''[0m'' @ [CHR 0x0D, CHR 0x0A, CHR 0x1B] @ ''[33mBecause your hardware key (id_ed25519) is not on the client, end-to-end encrypted (E2EE) messages cannot be decrypted and your session is subject to eavesdropping.'' @ [CHR 0x1B] @ ''[0m'')]"

definition en_clients_1 :: "(string \<times> string) list" where
  "en_clients_1 =
     [(''CLIENT_NEW_CONN'', ''New terminal connection opened: {addr}''),
      (''CLIENT_USER_LOGGED_IN'', ''User logged in: {user}''),
      (''CLIENT_CONN_CLOSED'', ''Connection closed: {addr}''),
      (''CLIENT_SOCKET_ERROR'', ''Socket error ({addr}): {error}''),
      (''CLIENT_LISTENING'', ''Terminal TUI Port Listening: {port}''),
      (''CLIENT_INPUT_ERROR'', ''Input processing error: {error}''),
      (''CLIENT_MSG_DISPATCH_ERROR'', ''Message dispatch error: {error}''),
      (''CLIENT_CLOSED'', ''Client TUI server and active sessions closed.'')]"

definition en_clients_2 :: "(string \<times> string) list" where
  "en_clients_2 =
     [(''CLIENT_PROXY_ERR'', ''Client Proxy Protocol handshake error: {error}''),
      (''CLIENT_GLOBAL_CHAN_DISPATCHED'', ''Global channel (#general) message dispatched: {from} -> {target} ({status})''),
      (''CLIENT_GLOBAL_CHAN_ERR'', ''Global channel (#general) message dispatch error: {error}'')]"

definition en_errors :: "(string \<times> string) list" where
  "en_errors =
     [(''ERR_UNCAUGHT'', ''Critical Uncaught Exception (uncaughtException): {error}''),
      (''ERR_UNHANDLED_REJECTION'', ''Unhandled Promise Rejection (unhandledRejection): {error}''),
      (''ERR_OPERATION_FAILED'', ''[{context}] Caught error: {error}'')]"

definition en_screen_1 :: "(string \<times> string) list" where
  "en_screen_1 =
     [(''TUI_WELCOME_BANNER'', ''=== METRICE TERMINAL ==='' @ [CHR 0x0D, CHR 0x0A]),
      (''TUI_LOGIN_PROMPT'', ''Enter username (a-z, 0-9, _): ''),
      (''TUI_INVALID_USERNAME'', [CHR 0x0D, CHR 0x0A] @ ''Invalid username! Only use a-z, 0-9, _, -: ''),
      (''TUI_USERNAME_TAKEN'', [CHR 0x0D, CHR 0x0A] @ ''This user is already connected! Choose another name: ''),
      (''TUI_PASSWORD_PROMPT'', [CHR 0x0D, CHR 0x0A] @ ''Password: ''),
      (''TUI_NEW_USER_PASSWORD_PROMPT'', [CHR 0x0D, CHR 0x0A] @ ''[NEW ACCOUNT] Set password (min 4 characters): ''),
      (''TUI_CONFIRM_PASSWORD_PROMPT'', [CHR 0x0D, CHR 0x0A] @ ''Confirm password: ''),
      (''TUI_PASSWORD_MISMATCH'', [CHR 0x0D, CHR 0x0A] @ ''[ERROR] Passwords do not match! Please try again.'' @ [CHR 0x0D, CHR 0x0A]),
      (''TUI_PASSWORD_TOO_SHORT'', [CHR 0x0D, CHR 0x0A] @ ''[ERROR] Password must be at least 4 characters long!'' @ [CHR 0x0D, CHR 0x0A]),
      (''TUI_WRONG_PASSWORD'', [CHR 0x0D, CHR 0x0A] @ ''[ERROR] Incorrect password! Remaining attempts: {remaining}'' @ [CHR 0x0D, CHR 0x0A]),
      (''TUI_MAX_LOGIN_ATTEMPTS'', [CHR 0x0D, CHR 0x0A] @ ''Too many failed attempts. Disconnected.'' @ [CHR 0x0D, CHR 0x0A]),
      (''TUI_TELNET_BLOCKED_SSH_ONLY'', [CHR 0x0D, CHR 0x0A, CHR 0x1B] @ ''[1;31m[SECURITY]'' @ [CHR 0x1B] @ ''[0m This account is sealed with an SSH Ed25519 hardware key.'' @ [CHR 0x0D, CHR 0x0A] @ ''Telnet access is disabled. To allow, connect via SSH and type '' @ [CHR 0x1B] @ ''[1;33m/allowtelnet on'' @ [CHR 0x1B] @ ''[0m.'' @ [CHR 0x0D, CHR 0x0A]),
      (''TUI_TELNET_NO_KEY_IN_PROFILE'', [CHR 0x0D, CHR 0x0A, CHR 0x1B] @ ''[1;31m[ERROR]'' @ [CHR 0x1B] @ ''[0m SSH key belonging to your account was not found in profile. Please login with SSH first.'' @ [CHR 0x0D, CHR 0x0A]),
      (''TUI_SESSION_CLOSED'', [CHR 0x0D, CHR 0x0A] @ ''Session closed.'' @ [CHR 0x0D, CHR 0x0A]),
      (''TUI_SERVER_SHUTDOWN'', [CHR 0x0D, CHR 0x0A] @ ''[SERVER] Server is shutting down. Your session has ended.'' @ [CHR 0x0D, CHR 0x0A]),
      (''TUI_HINT_SIDEBAR_FOCUS'', ''[FOCUS: LIST | Arrows/Enter | Tab/Type: Input]''),
      (''TUI_HINT_INPUT_FOCUS'', ''[Tab: Complete/List | PgUp/Dn: Scroll]''),
      (''TUI_HEADER_TITLE'', '' METRICE | {address}''),
      (''TUI_SIDEBAR_HEADER_FOCUSED'', '' [Console/Rooms] ''),
      (''TUI_SIDEBAR_HEADER_UNFOCUSED'', '' Console/Rooms ''),
      (''TUI_MEMBERS_HEADER'', '' Members ({count}) ''),
      (''TUI_CHAT_HEADER'', '' Window: {target}{scroll} ''),
      (''TUI_CHAT_NO_TARGET'', ''None''),
      (''TUI_BOTTOM_INFO'', '' /help | /join #room | /leave | /msg @user | /remove | /status | [Tab] Complete'')]"

definition en_screen_2 :: "(string \<times> string) list" where
  "en_screen_2 =
     [(''TUI_TYPING_INDICATOR'', '' '' @ [CHR 0xE2, CHR 0x9C, CHR 0x8E] @ '' {user} is typing...''),
      (''TUI_ME_SENDER_YOU'', ''You''),
      (''TUI_SYSTEM_SENDER'', ''SYSTEM''),
      (''TUI_SNIPPET_TITLE'', ''--- [PASTED TEXT / CODE BLOCK] ---''),
      (''TUI_SCREEN_TOO_SMALL'', ''Terminal too small! Please enlarge (Min: 80x15). Current: {width}x{height}''),
      (''TUI_SYS_PANEL_TITLE'', '' [Node & Peers] ''),
      (''TUI_SYS_PANEL_UPTIME'', ''UPTIME :''),
      (''TUI_SYS_PANEL_RAM'', ''RAM    :''),
      (''TUI_SYS_PANEL_PEERS'', ''PEERS ({count}):''),
      (''TUI_SYS_PANEL_NO_PEERS'', ''(No peers)'')]"

definition en_system :: "(string \<times> string) list" where
  "en_system =
     [(''SYS_WELCOME'', ''Welcome to Metrice Terminal! Logged in as: {address}''),
      (''SYS_HELP_TIP'', ''Type /help for command list.''),
      (''SYS_UNKNOWN_COMMAND'', ''[WARNING] Unknown command: /{cmd}. Type /help for assistance.''),
      (''SYS_COMMAND_ERROR'', ''[ERROR] Error executing /{cmd}: {error}''),
      (''SYS_SYSTEM_WINDOW_NO_MSG'', ''[INFO] Cannot write message directly to system console. Start with / to run commands or switch to a room.''),
      (''SYS_OUTBOX_QUEUED'', ''[OUTBOX] {target} is offline, message queued.''),
      (''SYS_JOINED_CHANNEL'', ''[INFO] Joined channel {channel}.''),
      (''SYS_LEFT_CHANNEL'', ''[INFO] Left channel {channel} and message history cleared.''),
      (''SYS_REMOVED_DM'', ''[INFO] Private chat with {target} and message history cleared.''),
      (''SYS_PASTE_MODE_ON'', ''[INFO] Manual paste mode active. Type /paste again to send.'')]"

definition en_commands_1 :: "(string \<times> string) list" where
  "en_commands_1 =
     [(''CMD_HELP_HEADER'', ''=== AVAILABLE COMMANDS ===''),
      (''CMD_HELP_DESC'', ''Lists all available commands''),
      (''CMD_ME_DESC'', ''Sends a status/action message (e.g., /me drinking coffee)''),
      (''CMD_ME_USAGE_ERROR'', ''[ERROR] Usage: /me <action>''),
      (''CMD_ME_TARGET_ERROR'', ''[ERROR] You must be in an active chat or room to use /me.''),
      (''CMD_MSG_DESC'', ''Starts a private chat with a user''),
      (''CMD_MSG_USAGE_ERROR'', ''[ERROR] Usage: /msg @user:host[:port]''),
      (''CMD_MSG_FORMAT_ERROR'', ''[ERROR] Invalid format: {input}. Example: /msg @user:localhost:8002''),
      (''CMD_JOIN_DESC'', ''Joins a room/channel''),
      (''CMD_JOIN_USAGE_ERROR'', ''[ERROR] Usage: /join #room_name or /join #room:host:port''),
      (''CMD_LEAVE_DESC'', ''Leaves current channel and clears local history''),
      (''CMD_LEAVE_USAGE_ERROR'', ''[ERROR] You can only leave channels (/leave #room). Use /remove to delete DMs.''),
      (''CMD_REMOVE_DESC'', ''Removes a DM chat from list and deletes local messages''),
      (''CMD_REMOVE_USAGE_ERROR'', ''[ERROR] Usage: /remove @user (or /remove while in active DM window)''),
      (''CMD_SYSTEM_DESC'', ''Switches to system console window''),
      (''CMD_WHO_DESC'', ''Lists active users on this server''),
      (''CMD_WHO_EMPTY'', ''Nobody online''),
      (''CMD_WHO_RESULT'', ''[WHO] Active Local Users: {users}''),
      (''CMD_PEERS_DESC'', ''Lists active peer nodes discovered on the network''),
      (''CMD_PEERS_EMPTY'', ''No connected peers found yet.''),
      (''CMD_PEERS_RESULT'', ''[PEERS] Discovered Nodes ({count}): {peers}''),
      (''CMD_CLEAR_DESC'', ''Clears message screen of active window''),
      (''CMD_QUIT_DESC'', ''Closes terminal session''),
      (''CMD_STATUS_DESC'', ''Displays network, node, and system resource statistics'')]"

definition en_commands_2 :: "(string \<times> string) list" where
  "en_commands_2 =
     [(''CMD_STATUS_HEADER'', ''=== NODE & SYSTEM STATUS ===''),
      (''CMD_STATUS_UPTIME'', ''Uptime                  : {uptime}''),
      (''CMD_STATUS_MEMORY'', ''Memory Usage (RSS)      : {rss} MB (Heap: {heap} MB)''),
      (''CMD_STATUS_CLIENTS'', ''Active Local Sessions   : {count} users''),
      (''CMD_STATUS_PEERS'', ''Discovered Peer Nodes   : {count} ({peers})''),
      (''CMD_STATUS_OUTBOX'', ''Pending Outbox Queue    : {count} messages''),
      (''CMD_PASTE_DESC'', ''Toggles manual multi-line paste mode'')]"

definition en_allowtelnet :: "(string \<times> string) list" where
  "en_allowtelnet =
     [(''CMD_ALLOWTELNET_DESC'', ''Allows or disables insecure Telnet access for SSH account (on/off)''),
      (''CMD_ALLOWTELNET_USAGE'', ''/allowtelnet [on|off]''),
      (''CMD_ALLOWTELNET_ENABLED'', [CHR 0x1B] @ ''[1;33m[SECURITY]'' @ [CHR 0x1B] @ ''[0m Plaintext login via Telnet is '' @ [CHR 0x1B] @ ''[1;32mENABLED'' @ [CHR 0x1B] @ ''[0m for this account. When session is opened via Telnet, E2EE vault cannot be decrypted.''),
      (''CMD_ALLOWTELNET_DISABLED'', [CHR 0x1B] @ ''[1;32m[SECURITY]'' @ [CHR 0x1B] @ ''[0m Telnet access '' @ [CHR 0x1B] @ ''[1;31mDISABLED'' @ [CHR 0x1B] @ ''[0m for this account. Now accessible only with SSH hardware key.''),
      (''CMD_ALLOWTELNET_STATUS_OPEN'', [CHR 0x1B] @ ''[1;32mOPEN'' @ [CHR 0x1B] @ ''[0m (Accessible via Telnet)''),
      (''CMD_ALLOWTELNET_STATUS_LOCKED'', [CHR 0x1B] @ ''[1;31mLOCKED'' @ [CHR 0x1B] @ ''[0m (SSH only)''),
      (''CMD_ALLOWTELNET_CURRENT_STATUS'', ''Current Telnet Access Status: {status}''),
      (''CMD_ALLOWTELNET_HELP_TIP'', ''Usage: /allowtelnet on (Allow access) | /allowtelnet off (Disable and lock)'')]"

definition en_keys :: "(string \<times> string) list" where
  "en_keys =
     [(''CMD_KEYS_DESC'', ''Manages SSH Ed25519 hardware public keys (list, add, del)''),
      (''CMD_KEYS_USAGE'', ''/keys [list | add <ssh-ed25519 ...> | del <fingerprint_or_index>]''),
      (''CMD_KEYS_HEADER'', ''=== CONFIGURED SSH ED25519 HARDWARE KEYS ===''),
      (''CMD_KEYS_EMPTY'', ''(No additional configured public keys)''),
      (''CMD_KEYS_ADD_PROMPT'', ''To add new key: /keys add ssh-ed25519 AAAAC3...''),
      (''CMD_KEYS_INPUT_REQUIRED'', ''[ERROR] Please enter the public key to add.'' @ [CHR 0x0D, CHR 0x0A] @ ''Example: /keys add ssh-ed25519 AAAAC3NzaC1lZDI1NTE5AAAAI...''),
      (''CMD_KEYS_ALREADY_EXISTS'', ''[INFO] This Ed25519 key is already configured on your account.''),
      (''CMD_KEYS_ADDED_SUCCESS'', ''[SUCCESS] New SSH key added to your account!'' @ [CHR 0x0D, CHR 0x0A] @ ''Fingerprint: SHA256:{fingerprint}'' @ [CHR 0x0D, CHR 0x0A] @ ''You can now connect to your account from this machine with the same password.''),
      (''CMD_KEYS_REJECTED'', ''[REJECTED] Key could not be verified: {error}''),
      (''CMD_KEYS_DEL_INDEX_REQUIRED'', ''[ERROR] Specify the index number of the key to delete. (e.g.: /keys del 2)''),
      (''CMD_KEYS_LAST_KEY_PROTECTION'', ''[PROTECTED] Cannot delete the last key on your account! Add a new key first.''),
      (''CMD_KEYS_NOT_FOUND'', ''[ERROR] Specified key not found: {target}''),
      (''CMD_KEYS_DELETED_SUCCESS'', ''[SUCCESS] Key removed from account.''),
      (''CMD_KEYS_SYNTAX_HELP'', ''Usage: /keys [list | add <ssh-ed25519 ...> | del <index>]'')]"

definition en_registry :: "(string \<times> string) list" where
  "en_registry =
     [(''CMD_REG_INVALID_MODULE'', ''Invalid command module registration attempt.''),
      (''CMD_MSG_IPV6_PORT_SYNTAX'', ''Warning: [IPv6]:Port s'' @ ''yntax must be used to specify a port in IPv6 addresses.''),
      (''CMD_STATUS_NODE'', ''Node: {nodeId} ({address}) [CAP_{role}]''),
      (''CMD_STATUS_RDV_TUNNELS'', ''Rendezvous Tunnels: {current}/{max}''),
      (''CMD_STATUS_RDV_RELAYS'', ''Rendezvous Relays: {relays}''),
      (''CMD_STATUS_NONE'', ''none'')]"

definition en_onion_1 :: "(string \<times> string) list" where
  "en_onion_1 =
     [(''ONION_CELL_SIZE_EXCEEDED'', ''Onion cell size exceeded uniform boundary ({len} > {max})''),
      (''ONION_CIRCUIT_MIN_HOPS'', ''Circuit requires at least 1 relay hop''),
      (''ONION_HOP_NO_KEY'', ''Hop {index} ({hop}) has no kemPublicKey''),
      (''ONION_GUARD_UNACKNOWLEDGED'', ''Circuit creation unacknowledged by Guard relay: {address}''),
      (''ONION_CIRCUIT_DROPPED_SOCKET'', ''Client circuit associated with disconnected socket dropped from pool: {circuitId} ({hop})''),
      (''ONION_PAYLOAD_SIZE_EXCEEDED'', ''Onion payload size exceeded MAX_ONION_PAYLOAD ({max}) limit: {bytes} bytes''),
      (''ONION_CIRCUIT_HOP_SAVED'', ''Circuit hop recorded: {circuitId} (Prev: {prev}, Next: {next})''),
      (''ONION_EXTEND_DECRYPT_FAIL'', ''Failed to decrypt circuit extend payload: {circuitId}''),
      (''ONION_EXTEND_JSON_FAIL'', ''Invalid JSON in circuit extend payload: {circuitId}''),
      (''ONION_NEXT_HOP_UNACKNOWLEDGED'', ''Next hop did not acknowledge circuit s'' @ ''etup ({hop}): {reason}''),
      (''ONION_CIRCUIT_SETUP_ERR'', ''Circuit s'' @ ''etup error: {error}''),
      (''ONION_INVALID_CELL_FRAME'', ''Invalid ONION_CELL frame received''),
      (''ONION_UNKNOWN_CIRCUIT_DROPPED'', ''Unknown circuit cell received, dropping: {circuitId} (Prev: {prev})''),
      (''ONION_CELL_DECRYPT_FAIL'', ''Failed to decrypt onion cell (AuthTag error): {circuitId}''),
      (''ONION_CELL_JSON_ERR'', ''Onion cell JSON error: {error}''),
      (''ONION_TRANSIT_FORWARDED'', ''Onion transit cell forwarded via tunnel bridge -> {forwardTo} (Circuit: {circuitId})''),
      (''ONION_TRANSIT_FORWARD_ERR'', ''Onion transit tunnel forwarding error: {error}''),
      (''ONION_CELL_FORWARDED'', ''Onion cell forwarded via encrypted channel -> {forwardTo} (Circuit: {circuitId})''),
      (''ONION_CELL_FORWARD_ERR'', ''Onion forwarding error ({forwardTo}): {error}''),
      (''ONION_CELL_EXIT_REACHED'', ''Onion cell reached exit node. Target: {node}''),
      (''ONION_MSG_DELIVERED_TUNNEL'', ''Onion message delivered via reverse tunnel -> NodeID: {node}''),
      (''ONION_CELL_UNDELIVERABLE'', ''Onion cell undeliverable: no active reverse tunnel found for {node}''),
      (''ONION_CELL_ASYNC_ERR'', ''Onion cell asynchronous processing error: {error}''),
      (''ONION_INVALID_FORWARD_ADDR'', ''Invalid forwardTo address format'')]"

definition en_onion_2 :: "(string \<times> string) list" where
  "en_onion_2 =
     [(''ONION_INVALID_FORWARD_PORT'', ''Invalid forwardTo port range'')]"

definition en_onion_3 :: "(string \<times> string) list" where
  "en_onion_3 =
     [(''FED_USER_OFFLINE_BROADCAST'', ''User offline announcement broadcasted: {user}''),
      (''FED_STALE_OFFLINE_DROPPED'', ''Stale user offline packet dropped (fresh session preserved): {user}''),
      (''FED_BILATERAL_SYNC'', ''Bilateral presence synchronization performed: {node}'')]"

definition en_onion_4 :: "(string \<times> string) list" where
  "en_onion_4 =
     [(''E2EE_ENCRYPTED_PLACEHOLDER'', [CHR 0xF0, CHR 0x9F, CHR 0x94, CHR 0x92] @ '' [ENCRYPTED TEXT]'')]"

definition en_texts :: "(string \<times> string) list" where
  "en_texts = concat
     [en_channels, en_bootstrap, en_health, en_database_1, en_database_2, en_database_3, en_peers, en_federation_1,
    en_federation_2, en_federation_3, en_federation_4, en_federation_5, en_federation_6, en_federation_7,
    en_ssh_1, en_ssh_2, en_crypto, en_e2ee, en_clients_1, en_clients_2, en_errors, en_screen_1, en_screen_2,
    en_system, en_commands_1, en_commands_2, en_allowtelnet, en_keys, en_registry, en_onion_1, en_onion_2,
    en_onion_3, en_onion_4]"

definition tr_channels :: "(string \<times> string) list" where
  "tr_channels =
     [(''DEFAULT_CHANNEL_NAME'', ''#genel''),
      (''SYSTEM_CONSOLE_NAME'', ''*sistem'')]"

definition tr_bootstrap :: "(string \<times> string) list" where
  "tr_bootstrap =
     [(''BOOTSTRAP_BANNER'', ''====================================================''),
      (''BOOTSTRAP_STARTING'', ''D'' @ [CHR 0xC3, CHR 0xBC, CHR 0xC4, CHR 0x9F, CHR 0xC3, CHR 0xBC] @ ''m Ba'' @ [CHR 0xC5, CHR 0x9F] @ ''lat'' @ [CHR 0xC4, CHR 0xB1] @ ''l'' @ [CHR 0xC4, CHR 0xB1] @ ''yor: {name}''),
      (''BOOTSTRAP_FED_PORT'', ''Federation Port: {port}''),
      (''BOOTSTRAP_CLIENT_PORT'', ''Client TUI Port: {port}''),
      (''BOOTSTRAP_SSH_PORT'', ''SSH Sunucu Portu: {port}''),
      (''BOOTSTRAP_HEALTH_PORT'', ''Sa'' @ [CHR 0xC4, CHR 0x9F] @ ''l'' @ [CHR 0xC4, CHR 0xB1] @ ''k / Kalp At'' @ [CHR 0xC4, CHR 0xB1, CHR 0xC5, CHR 0x9F, CHR 0xC4, CHR 0xB1] @ '' Portu: {port} ({outer})''),
      (''BOOTSTRAP_LOG_LEVEL'', ''Log Seviyesi: {level}''),
      (''BOOTSTRAP_SHUTTING_DOWN'', ''D'' @ [CHR 0xC3, CHR 0xBC, CHR 0xC4, CHR 0x9F, CHR 0xC3, CHR 0xBC] @ ''m kapat'' @ [CHR 0xC4, CHR 0xB1] @ ''l'' @ [CHR 0xC4, CHR 0xB1] @ ''yor, ba'' @ [CHR 0xC4, CHR 0x9F] @ ''lant'' @ [CHR 0xC4, CHR 0xB1] @ ''lar ve veritaban'' @ [CHR 0xC4, CHR 0xB1] @ '' temizleniyor...''),
      (''BOOTSTRAP_CLEAN_EXIT'', ''Temiz kapan'' @ [CHR 0xC4, CHR 0xB1, CHR 0xC5, CHR 0x9F] @ '' tamamland'' @ [CHR 0xC4, CHR 0xB1] @ ''. Ho'' @ [CHR 0xC5, CHR 0x9F, CHR 0xC3, CHR 0xA7] @ ''a kal'' @ [CHR 0xC4, CHR 0xB1] @ ''n!''),
      (''BOOTSTRAP_SHUTDOWN_ERROR'', ''Kapan'' @ [CHR 0xC4, CHR 0xB1, CHR 0xC5, CHR 0x9F] @ '' s'' @ [CHR 0xC4, CHR 0xB1] @ ''ras'' @ [CHR 0xC4, CHR 0xB1] @ ''nda hata: {error}'')]"

definition tr_health :: "(string \<times> string) list" where
  "tr_health =
     [(''HEALTH_SRV_LISTENING'', ''TCP Sa'' @ [CHR 0xC4, CHR 0x9F] @ ''l'' @ [CHR 0xC4, CHR 0xB1] @ ''k ve Kalp At'' @ [CHR 0xC4, CHR 0xB1, CHR 0xC5, CHR 0x9F, CHR 0xC4, CHR 0xB1] @ '' Sunucusu Haz'' @ [CHR 0xC4, CHR 0xB1] @ ''r -> {host}:{port}''),
      (''HEALTH_SRV_CLOSED'', ''TCP Sa'' @ [CHR 0xC4, CHR 0x9F] @ ''l'' @ [CHR 0xC4, CHR 0xB1] @ ''k ve Kalp At'' @ [CHR 0xC4, CHR 0xB1, CHR 0xC5, CHR 0x9F, CHR 0xC4, CHR 0xB1] @ '' Sunucusu kapat'' @ [CHR 0xC4, CHR 0xB1] @ ''ld'' @ [CHR 0xC4, CHR 0xB1] @ ''.''),
      (''HEALTH_SRV_ERROR'', ''Sa'' @ [CHR 0xC4, CHR 0x9F] @ ''l'' @ [CHR 0xC4, CHR 0xB1] @ ''k sunucusu hatas'' @ [CHR 0xC4, CHR 0xB1] @ '': {error}''),
      (''HEALTH_SRV_CMD_RECEIVED'', ''Sa'' @ [CHR 0xC4, CHR 0x9F] @ ''l'' @ [CHR 0xC4, CHR 0xB1] @ ''k komutu al'' @ [CHR 0xC4, CHR 0xB1] @ ''nd'' @ [CHR 0xC4, CHR 0xB1] @ '': {cmd} ({address})''),
      (''HEALTH_SRV_CONN_ERROR'', ''Sa'' @ [CHR 0xC4, CHR 0x9F] @ ''l'' @ [CHR 0xC4, CHR 0xB1] @ ''k soketi ba'' @ [CHR 0xC4, CHR 0x9F] @ ''lant'' @ [CHR 0xC4, CHR 0xB1] @ '' hatas'' @ [CHR 0xC4, CHR 0xB1] @ '' ({address}): {error}'')]"

definition tr_database_1 :: "(string \<times> string) list" where
  "tr_database_1 =
     [(''DB_LOADED'', ''Veritaban'' @ [CHR 0xC4, CHR 0xB1] @ '' y'' @ [CHR 0xC3, CHR 0xBC] @ ''klendi: {path}''),
      (''DB_CORRUPT_RESET'', ''Veritaban'' @ [CHR 0xC4, CHR 0xB1] @ '' okunamad'' @ [CHR 0xC4, CHR 0xB1] @ '', s'' @ [CHR 0xC4, CHR 0xB1] @ ''f'' @ [CHR 0xC4, CHR 0xB1] @ ''rlan'' @ [CHR 0xC4, CHR 0xB1] @ ''yor: {error}''),
      (''DB_CREATED'', ''Yeni veritaban'' @ [CHR 0xC4, CHR 0xB1] @ '' olu'' @ [CHR 0xC5, CHR 0x9F] @ ''turuluyor: {path}''),
      (''DB_WRITE_ERROR'', ''Veritaban'' @ [CHR 0xC4, CHR 0xB1] @ '' yazma hatas'' @ [CHR 0xC4, CHR 0xB1] @ '': {error}''),
      (''DB_MSG_SAVED'', ''Mesaj DB'' @ [CHR 0x27] @ ''ye eklendi''),
      (''DB_GEN_IDENTITY_KEYS'', ''D'' @ [CHR 0xC3, CHR 0xBC, CHR 0xC4, CHR 0x9F, CHR 0xC3, CHR 0xBC] @ ''m i'' @ [CHR 0xC3, CHR 0xA7] @ ''in yeni Ed25519 ve Kyber (M'' @ ''L-KEM-768) anahtar '' @ [CHR 0xC3, CHR 0xA7] @ ''iftleri '' @ [CHR 0xC3, CHR 0xBC] @ ''retiliyor...''),
      (''DB_MIGRATION_WARN'', ''Migrasyon uyar'' @ [CHR 0xC4, CHR 0xB1] @ ''s'' @ [CHR 0xC4, CHR 0xB1] @ '': {error}''),
      (''DB_WAL_CLOSED'', ''Veritaban'' @ [CHR 0xC4, CHR 0xB1] @ '' WAL temizlendi ve g'' @ [CHR 0xC3, CHR 0xBC] @ ''venle kapat'' @ [CHR 0xC4, CHR 0xB1] @ ''ld'' @ [CHR 0xC4, CHR 0xB1] @ ''.''),
      (''DB_CLOSE_ERROR'', ''Veritaban'' @ [CHR 0xC4, CHR 0xB1] @ '' kapat'' @ [CHR 0xC4, CHR 0xB1] @ ''l'' @ [CHR 0xC4, CHR 0xB1] @ ''rken hata: {error}'')]"

definition tr_database_3 :: "(string \<times> string) list" where
  "tr_database_3 =
     [(''DB_OUTBOX_CLEANED'', ''{count} adet s'' @ [CHR 0xC3, CHR 0xBC] @ ''resi dolmu'' @ [CHR 0xC5, CHR 0x9F] @ '' veya iletilemeyen giden kutusu (outbox) mesaj'' @ [CHR 0xC4, CHR 0xB1] @ '' temizlendi''),
      (''DB_OUTBOX_CLEAN_ERR'', ''S'' @ [CHR 0xC3, CHR 0xBC] @ ''resi dolmu'' @ [CHR 0xC5, CHR 0x9F] @ '' giden kutusu mesajlar'' @ [CHR 0xC4, CHR 0xB1] @ '' temizlenemedi: {error}''),
      (''DB_LOCKED_ERROR'', ''[K'' @ [CHR 0xC4, CHR 0xB0] @ ''L'' @ [CHR 0xC4, CHR 0xB0] @ ''TL'' @ [CHR 0xC4, CHR 0xB0] @ '' VER'' @ [CHR 0xC4, CHR 0xB0] @ ''TABANI] Veritaban'' @ [CHR 0xC4, CHR 0xB1] @ '' dosyas'' @ [CHR 0xC4, CHR 0xB1] @ '' ({path}) '' @ [CHR 0xC5, CHR 0x9F] @ ''u anda ba'' @ [CHR 0xC5, CHR 0x9F] @ ''ka bir Metrice s'' @ [CHR 0xC3, CHR 0xBC] @ ''reci (PID: {pid}) taraf'' @ [CHR 0xC4, CHR 0xB1] @ ''ndan kilitli! Veri b'' @ [CHR 0xC3, CHR 0xBC] @ ''t'' @ [CHR 0xC3, CHR 0xBC] @ ''nl'' @ [CHR 0xC3, CHR 0xBC, CHR 0xC4, CHR 0x9F, CHR 0xC3, CHR 0xBC] @ ''n'' @ [CHR 0xC3, CHR 0xBC] @ '' korumak i'' @ [CHR 0xC3, CHR 0xA7] @ ''in e'' @ [CHR 0xC5, CHR 0x9F] @ ''zamanl'' @ [CHR 0xC4, CHR 0xB1] @ '' ikinci bir '' @ [CHR 0xC3, CHR 0xB6] @ ''rnek ba'' @ [CHR 0xC5, CHR 0x9F] @ ''lat'' @ [CHR 0xC4, CHR 0xB1] @ ''lamaz.''),
      (''DB_STALE_LOCK_REMOVED'', ''[K'' @ [CHR 0xC4, CHR 0xB0] @ ''L'' @ [CHR 0xC4, CHR 0xB0] @ ''T UYARISI] '' @ [CHR 0xC3, CHR 0x96] @ ''nceki '' @ [CHR 0xC3, CHR 0xA7, CHR 0xC3, CHR 0xB6] @ ''ken s'' @ [CHR 0xC3, CHR 0xBC] @ ''re'' @ [CHR 0xC3, CHR 0xA7] @ ''ten (PID: {pid}) kalan ge'' @ [CHR 0xC3, CHR 0xA7] @ ''ersiz kilit dosyas'' @ [CHR 0xC4, CHR 0xB1] @ '' temizlendi: {path}'')]"

definition tr_peers :: "(string \<times> string) list" where
  "tr_peers =
     [(''PEER_CACHE_LOADED'', ''Dinamik e'' @ [CHR 0xC5, CHR 0x9F] @ '' havuzu y'' @ [CHR 0xC3, CHR 0xBC] @ ''klendi ({count} e'' @ [CHR 0xC5, CHR 0x9F] @ '')''),
      (''PEER_CACHE_SAVE_ERROR'', ''E'' @ [CHR 0xC5, CHR 0x9F] @ '' havuzu kaydedilemedi: {error}''),
      (''PEER_EVICTED'', ''D'' @ [CHR 0xC3, CHR 0xBC, CHR 0xC5, CHR 0x9F, CHR 0xC3, CHR 0xBC] @ ''k puanl'' @ [CHR 0xC4, CHR 0xB1] @ '' e'' @ [CHR 0xC5, CHR 0x9F] @ '' havuzdan at'' @ [CHR 0xC4, CHR 0xB1] @ ''ld'' @ [CHR 0xC4, CHR 0xB1] @ '': {peer}''),
      (''PEER_UDP_ERROR'', ''UDP Ke'' @ [CHR 0xC5, CHR 0x9F] @ ''if soketi uyar'' @ [CHR 0xC4, CHR 0xB1] @ ''s'' @ [CHR 0xC4, CHR 0xB1] @ '': {error}''),
      (''PEER_LAN_ACTIVE'', ''LAN Ke'' @ [CHR 0xC5, CHR 0x9F] @ ''if yay'' @ [CHR 0xC4, CHR 0xB1] @ ''n'' @ [CHR 0xC4, CHR 0xB1] @ '' aktif -> Port: {port}'')]"

definition tr_federation_1 :: "(string \<times> string) list" where
  "tr_federation_1 =
     [(''FED_INCOMING_CONN'', ''Gelen federasyon ba'' @ [CHR 0xC4, CHR 0x9F] @ ''lant'' @ [CHR 0xC4, CHR 0xB1] @ ''s'' @ [CHR 0xC4, CHR 0xB1] @ '': {peer}''),
      (''FED_INVALID_JSON'', ''Ge'' @ [CHR 0xC3, CHR 0xA7] @ ''ersiz JSON paketi ({peer}): {error}''),
      (''FED_SOCKET_ERROR'', ''Federasyon soket hatas'' @ [CHR 0xC4, CHR 0xB1] @ '' ({peer}): {error}''),
      (''FED_LISTENING'', ''Federasyon a'' @ [CHR 0xC4, CHR 0x9F, CHR 0xC4, CHR 0xB1] @ '' dinleniyor -> Port: {port}''),
      (''FED_MSG_RECEIVED'', ''Uzak mesaj al'' @ [CHR 0xC4, CHR 0xB1] @ ''nd'' @ [CHR 0xC4, CHR 0xB1] @ '': {from} -> {to}''),
      (''FED_CONNECTING'', ''Uzak sunucuya ba'' @ [CHR 0xC4, CHR 0x9F] @ ''lan'' @ [CHR 0xC4, CHR 0xB1] @ ''l'' @ [CHR 0xC4, CHR 0xB1] @ ''yor: {host}:{port}''),
      (''FED_CONNECTED'', ''Uzak sunucuya ba'' @ [CHR 0xC4, CHR 0x9F] @ ''land'' @ [CHR 0xC4, CHR 0xB1] @ '' ({host}:{port}). '' @ [CHR 0xC5, CHR 0x9E] @ ''ifreli kanal haz'' @ [CHR 0xC4, CHR 0xB1] @ ''r.''),
      (''FED_REMOTE_ACK'', ''Uzak sunucu onay'' @ [CHR 0xC4, CHR 0xB1] @ '' al'' @ [CHR 0xC4, CHR 0xB1] @ ''nd'' @ [CHR 0xC4, CHR 0xB1]),
      (''FED_SEND_FAILED'', ''Uzak sunucuya iletim ba'' @ [CHR 0xC5, CHR 0x9F] @ ''ar'' @ [CHR 0xC4, CHR 0xB1] @ ''s'' @ [CHR 0xC4, CHR 0xB1] @ ''z ({host}:{port}): {error}''),
      (''FED_CONN_CLOSED'', ''Federasyon ba'' @ [CHR 0xC4, CHR 0x9F] @ ''lant'' @ [CHR 0xC4, CHR 0xB1] @ ''s'' @ [CHR 0xC4, CHR 0xB1] @ '' kapand'' @ [CHR 0xC4, CHR 0xB1] @ '': {peer}''),
      (''FED_OUTBOX_SENT'', ''Outbox mesaj'' @ [CHR 0xC4, CHR 0xB1] @ '' ba'' @ [CHR 0xC5, CHR 0x9F] @ ''ar'' @ [CHR 0xC4, CHR 0xB1] @ ''yla iletildi: {id}''),
      (''FED_OUTBOX_QUEUED'', ''Mesaj iletilemedi, Outbox kuyru'' @ [CHR 0xC4, CHR 0x9F] @ ''una al'' @ [CHR 0xC4, CHR 0xB1] @ ''n'' @ [CHR 0xC4, CHR 0xB1] @ ''yor ({to}): {error}''),
      (''FED_OUTBOX_EXPIRED'', ''Giden kutusu (Outbox) mesaj'' @ [CHR 0xC4, CHR 0xB1] @ '' zaman a'' @ [CHR 0xC5, CHR 0x9F, CHR 0xC4, CHR 0xB1] @ ''m'' @ [CHR 0xC4, CHR 0xB1] @ ''na u'' @ [CHR 0xC4, CHR 0x9F] @ ''rad'' @ [CHR 0xC4, CHR 0xB1] @ '' veya azami deneme s'' @ [CHR 0xC4, CHR 0xB1] @ ''n'' @ [CHR 0xC4, CHR 0xB1] @ ''r'' @ [CHR 0xC4, CHR 0xB1] @ ''n'' @ [CHR 0xC4, CHR 0xB1] @ '' a'' @ [CHR 0xC5, CHR 0x9F] @ ''t'' @ [CHR 0xC4, CHR 0xB1] @ '' ({id}, {retries} deneme), siliniyor''),
      (''FED_CHANNEL_SUBSCRIBED'', ''Uzak kanal abonesi eklendi: {peer} -> {channel}''),
      (''FED_CHANNEL_UNSUBSCRIBED'', ''Uzak kanal abonesi '' @ [CHR 0xC3, CHR 0xA7, CHR 0xC4, CHR 0xB1] @ ''kar'' @ [CHR 0xC4, CHR 0xB1] @ ''ld'' @ [CHR 0xC4, CHR 0xB1] @ '': {peer} -> {channel}''),
      (''FED_NODE_IDENTITY_READY'', ''D'' @ [CHR 0xC3, CHR 0xBC, CHR 0xC4, CHR 0x9F, CHR 0xC3, CHR 0xBC] @ ''m Kimli'' @ [CHR 0xC4, CHR 0x9F] @ ''i Aktif -> Ed25519 & Kyber-768 | Adres: {address}''),
      (''FED_SECURE_CHANNEL_PARSE_ERR'', [CHR 0xC5, CHR 0x9E] @ ''ifreli kanal '' @ [CHR 0xC3, CHR 0xA7] @ ''er'' @ [CHR 0xC3, CHR 0xA7] @ ''eve ayr'' @ [CHR 0xC4, CHR 0xB1, CHR 0xC5, CHR 0x9F] @ ''t'' @ [CHR 0xC4, CHR 0xB1] @ ''rma hatas'' @ [CHR 0xC4, CHR 0xB1] @ '': {error}''),
      (''FED_SECURE_HANDSHAKE_INIT_FAIL'', ''[G'' @ [CHR 0xC3, CHR 0x9C] @ ''VENL'' @ [CHR 0xC4, CHR 0xB0] @ ''K] Handshake INIT imza do'' @ [CHR 0xC4, CHR 0x9F] @ ''rulamas'' @ [CHR 0xC4, CHR 0xB1] @ '' ba'' @ [CHR 0xC5, CHR 0x9F] @ ''ar'' @ [CHR 0xC4, CHR 0xB1] @ ''s'' @ [CHR 0xC4, CHR 0xB1] @ ''z: {node}''),
      (''FED_SECURE_HANDSHAKE_REPLY_FAIL'', ''[G'' @ [CHR 0xC3, CHR 0x9C] @ ''VENL'' @ [CHR 0xC4, CHR 0xB0] @ ''K] Handshake REPLY imza do'' @ [CHR 0xC4, CHR 0x9F] @ ''rulamas'' @ [CHR 0xC4, CHR 0xB1] @ '' ba'' @ [CHR 0xC5, CHR 0x9F] @ ''ar'' @ [CHR 0xC4, CHR 0xB1] @ ''s'' @ [CHR 0xC4, CHR 0xB1] @ ''z: {node}''),
      (''FED_SECURE_FRAME_NOT_READY'', ''El s'' @ [CHR 0xC4, CHR 0xB1] @ ''k'' @ [CHR 0xC4, CHR 0xB1, CHR 0xC5, CHR 0x9F] @ ''ma tamamlanmadan '' @ [CHR 0xC5, CHR 0x9F] @ ''ifreli paket al'' @ [CHR 0xC4, CHR 0xB1] @ ''nd'' @ [CHR 0xC4, CHR 0xB1] @ '', d'' @ [CHR 0xC3, CHR 0xBC, CHR 0xC5, CHR 0x9F, CHR 0xC3, CHR 0xBC] @ ''r'' @ [CHR 0xC3, CHR 0xBC] @ ''l'' @ [CHR 0xC3, CHR 0xBC] @ ''yor.''),
      (''FED_SECURE_DECRYPT_FAIL'', ''[G'' @ [CHR 0xC3, CHR 0x9C] @ ''VENL'' @ [CHR 0xC4, CHR 0xB0] @ ''K] Paket de'' @ [CHR 0xC5, CHR 0x9F] @ ''ifre edilemedi veya b'' @ [CHR 0xC3, CHR 0xBC] @ ''t'' @ [CHR 0xC3, CHR 0xBC] @ ''nl'' @ [CHR 0xC3, CHR 0xBC] @ ''k (AuthTag) bozuk! Peer: {peer}''),
      (''FED_SECURE_DECRYPT_JSON_ERR'', ''De'' @ [CHR 0xC5, CHR 0x9F] @ ''ifre edilen JSON bozuk: {error}''),
      (''FED_SECURE_TIMEOUT'', ''G'' @ [CHR 0xC3, CHR 0xBC] @ ''venli kanal zaman a'' @ [CHR 0xC5, CHR 0x9F, CHR 0xC4, CHR 0xB1] @ ''m'' @ [CHR 0xC4, CHR 0xB1] @ ''na u'' @ [CHR 0xC4, CHR 0x9F] @ ''rad'' @ [CHR 0xC4, CHR 0xB1]),
      (''FED_CLOSED'', ''Federasyon motoru ve g'' @ [CHR 0xC3, CHR 0xBC] @ ''venli ta'' @ [CHR 0xC5, CHR 0x9F, CHR 0xC4, CHR 0xB1] @ ''ma kanallar'' @ [CHR 0xC4, CHR 0xB1] @ '' kapat'' @ [CHR 0xC4, CHR 0xB1] @ ''ld'' @ [CHR 0xC4, CHR 0xB1] @ ''.'')]"

definition tr_federation_2 :: "(string \<times> string) list" where
  "tr_federation_2 =
     [(''FED_REPLAY_NONCE_DETECTED'', ''[G'' @ [CHR 0xC3, CHR 0x9C] @ ''VENL'' @ [CHR 0xC4, CHR 0xB0] @ ''K] Tekrarlanan (Replay) Nonce saptand'' @ [CHR 0xC4, CHR 0xB1] @ '', ba'' @ [CHR 0xC4, CHR 0x9F] @ ''lant'' @ [CHR 0xC4, CHR 0xB1] @ '' kesiliyor: {node}''),
      (''FED_IP_SPOOFING_DETECTED'', ''[G'' @ [CHR 0xC3, CHR 0x9C] @ ''VENL'' @ [CHR 0xC4, CHR 0xB0] @ ''K] IP Spoofing saptand'' @ [CHR 0xC4, CHR 0xB1] @ ''! '' @ [CHR 0xC4, CHR 0xB0] @ ''ddia edilen: {declared}, Ger'' @ [CHR 0xC3, CHR 0xA7] @ ''ek IP: {remote}'')]"

definition tr_ssh_1 :: "(string \<times> string) list" where
  "tr_ssh_1 =
     [(''SSH_SRV_LISTENING'', ''S'' @ [CHR 0xC4, CHR 0xB1] @ ''f'' @ [CHR 0xC4, CHR 0xB1] @ ''r Ba'' @ [CHR 0xC4, CHR 0x9F, CHR 0xC4, CHR 0xB1] @ ''ml'' @ [CHR 0xC4, CHR 0xB1] @ ''l'' @ [CHR 0xC4, CHR 0xB1] @ ''k SSH-2 Sunucusu Haz'' @ [CHR 0xC4, CHR 0xB1] @ ''r -> Port: {port}''),
      (''SSH_CLIENT_IDENTIFIED'', ''SSH '' @ [CHR 0xC4, CHR 0xB0] @ ''stemci Tan'' @ [CHR 0xC4, CHR 0xB1] @ ''mland'' @ [CHR 0xC4, CHR 0xB1] @ '': {version}''),
      (''SSH_CONN_ERROR'', ''SSH Ba'' @ [CHR 0xC4, CHR 0x9F] @ ''lant'' @ [CHR 0xC4, CHR 0xB1] @ '' hatas'' @ [CHR 0xC4, CHR 0xB1] @ '': {error}''),
      (''SSH_HMAC_FAIL'', ''SSH HMAC do'' @ [CHR 0xC4, CHR 0x9F] @ ''rulamas'' @ [CHR 0xC4, CHR 0xB1] @ '' ba'' @ [CHR 0xC5, CHR 0x9F] @ ''ar'' @ [CHR 0xC4, CHR 0xB1] @ ''s'' @ [CHR 0xC4, CHR 0xB1] @ ''z, ba'' @ [CHR 0xC4, CHR 0x9F] @ ''lant'' @ [CHR 0xC4, CHR 0xB1] @ '' kesiliyor.''),
      (''SSH_TRANSPORT_READY'', ''SSH '' @ [CHR 0xC5, CHR 0x9E] @ ''ifreli Ta'' @ [CHR 0xC5, CHR 0x9F, CHR 0xC4, CHR 0xB1] @ ''ma Katman'' @ [CHR 0xC4, CHR 0xB1] @ '' (AES-256-CTR + HMAC-SHA256) Devreye Al'' @ [CHR 0xC4, CHR 0xB1] @ ''nd'' @ [CHR 0xC4, CHR 0xB1] @ ''.''),
      (''SSH_AUTH_SUCCESS'', ''SSH Kullan'' @ [CHR 0xC4, CHR 0xB1] @ ''c'' @ [CHR 0xC4, CHR 0xB1] @ '' Parola ile Do'' @ [CHR 0xC4, CHR 0x9F] @ ''ruland'' @ [CHR 0xC4, CHR 0xB1] @ '': {user}''),
      (''SSH_BUFFER_OVERFLOW'', ''SSH Buffer ta'' @ [CHR 0xC5, CHR 0x9F] @ ''mas'' @ [CHR 0xC4, CHR 0xB1] @ '': {target}''),
      (''SSH_INVALID_PACKET_SIZE'', ''Ge'' @ [CHR 0xC3, CHR 0xA7] @ ''ersiz SSH paket boyutu: {size}''),
      (''SSH_KEX_NEGOTIATED'', ''M'' @ [CHR 0xC3, CHR 0xBC] @ ''zakere Edilen SSH KEX: {kex}''),
      (''SSH_SERVICE_REQUEST_RECEIVED'', ''SSH Servis Talebi Al'' @ [CHR 0xC4, CHR 0xB1] @ ''nd'' @ [CHR 0xC4, CHR 0xB1] @ '': {service}''),
      (''SSH_PUBKEY_READ_ERROR'', ''Ed25519 a'' @ [CHR 0xC3, CHR 0xA7, CHR 0xC4, CHR 0xB1] @ ''k anahtar okuma hatas'' @ [CHR 0xC4, CHR 0xB1] @ '': {error}''),
      (''SSH_UNREGISTERED_PUBKEY_WARN'', ''[G'' @ [CHR 0xC3, CHR 0x9C] @ ''VENL'' @ [CHR 0xC4, CHR 0xB0] @ ''K] Kullan'' @ [CHR 0xC4, CHR 0xB1] @ ''c'' @ [CHR 0xC4, CHR 0xB1] @ ''n'' @ [CHR 0xC4, CHR 0xB1] @ ''n sundu'' @ [CHR 0xC4, CHR 0x9F] @ ''u Ed25519 anahtar'' @ [CHR 0xC4, CHR 0xB1] @ '' bu hesapta kay'' @ [CHR 0xC4, CHR 0xB1] @ ''tl'' @ [CHR 0xC4, CHR 0xB1] @ '' de'' @ [CHR 0xC4, CHR 0x9F] @ ''il: {user}''),
      (''SSH_VAULT_SEED_ERROR'', ''Vault Seed t'' @ [CHR 0xC3, CHR 0xBC] @ ''retim hatas'' @ [CHR 0xC4, CHR 0xB1] @ '': {error}''),
      (''SSH_AUTH_CLEARTEXT_REJECTED'', [CHR 0xC5, CHR 0x9E] @ ''ifresiz (a'' @ [CHR 0xC3, CHR 0xA7, CHR 0xC4, CHR 0xB1] @ ''k metin) SSH kimlik do'' @ [CHR 0xC4, CHR 0x9F] @ ''rulama giri'' @ [CHR 0xC5, CHR 0x9F] @ ''imi reddedildi''),
      (''SSH_CHANNEL_PREAUTH_REJECTED'', ''Kimlik do'' @ [CHR 0xC4, CHR 0x9F] @ ''rulama '' @ [CHR 0xC3, CHR 0xB6] @ ''ncesinde SSH kanal a'' @ [CHR 0xC3, CHR 0xA7] @ ''ma giri'' @ [CHR 0xC5, CHR 0x9F] @ ''imi reddedildi''),
      (''SSH_INVALID_USERNAME_FORMAT'', ''Ge'' @ [CHR 0xC3, CHR 0xA7] @ ''ersiz SSH kullan'' @ [CHR 0xC4, CHR 0xB1] @ ''c'' @ [CHR 0xC4, CHR 0xB1] @ '' ad'' @ [CHR 0xC4, CHR 0xB1] @ '' bi'' @ [CHR 0xC3, CHR 0xA7] @ ''imi reddedildi: {username}''),
      (''SSH_AUTH_EXCEPTION'', ''SSH kimlik do'' @ [CHR 0xC4, CHR 0x9F] @ ''rulama istisnas'' @ [CHR 0xC4, CHR 0xB1] @ '': {error}'')]"

definition tr_crypto :: "(string \<times> string) list" where
  "tr_crypto =
     [(''CRYPTO_PQ_CRITICAL_BANNER'', [CHR 0x0A, CHR 0x1B] @ ''[41;1;37m                                                                               '' @ [CHR 0x1B] @ ''[0m'' @ [CHR 0x0A, CHR 0x1B] @ ''[41;1;37m   [KR'' @ [CHR 0xC4, CHR 0xB0] @ ''T'' @ [CHR 0xC4, CHR 0xB0] @ ''K G'' @ [CHR 0xC3, CHR 0x9C] @ ''VENL'' @ [CHR 0xC4, CHR 0xB0] @ ''K UYARISI] KUANTUM SONRASI '' @ [CHR 0xC5, CHR 0x9E, CHR 0xC4, CHR 0xB0] @ ''FRELEME (M'' @ ''L-KEM) AKT'' @ [CHR 0xC4, CHR 0xB0] @ ''F DE'' @ [CHR 0xC4, CHR 0x9E, CHR 0xC4, CHR 0xB0] @ ''L!   '' @ [CHR 0x1B] @ ''[0m'' @ [CHR 0x0A, CHR 0x1B] @ ''[41;1;37m   Sistem klasik Eliptik E'' @ [CHR 0xC4, CHR 0x9F] @ ''riye (X25519) d'' @ [CHR 0xC3, CHR 0xBC, CHR 0xC5, CHR 0x9F] @ ''t'' @ [CHR 0xC3, CHR 0xBC] @ ''. Bu oturum KUANTUM G'' @ [CHR 0xC3, CHR 0x9C] @ ''VENL'' @ [CHR 0xC4, CHR 0xB0] @ ''       '' @ [CHR 0x1B] @ ''[0m'' @ [CHR 0x0A, CHR 0x1B] @ ''[41;1;37m   DE'' @ [CHR 0xC4, CHR 0x9E, CHR 0xC4, CHR 0xB0] @ ''LD'' @ [CHR 0xC4, CHR 0xB0] @ ''R! Node.js >= 24.7 / 26 ortam'' @ [CHR 0xC4, CHR 0xB1] @ ''nda '' @ [CHR 0xC3, CHR 0xA7] @ ''al'' @ [CHR 0xC4, CHR 0xB1, CHR 0xC5, CHR 0x9F] @ ''t'' @ [CHR 0xC4, CHR 0xB1, CHR 0xC4, CHR 0x9F, CHR 0xC4, CHR 0xB1] @ ''n'' @ [CHR 0xC4, CHR 0xB1] @ ''zdan emin olun.         '' @ [CHR 0x1B] @ ''[0m'' @ [CHR 0x0A, CHR 0x1B] @ ''[41;1;37m                                                                               '' @ [CHR 0x1B] @ ''[0m''),
      (''CRYPTO_STRICT_PQ_ABORT'', ''[HATA] STRICT_PQ=true ayarland'' @ [CHR 0xC4, CHR 0xB1, CHR 0xC4, CHR 0x9F, CHR 0xC4, CHR 0xB1] @ '' i'' @ [CHR 0xC3, CHR 0xA7] @ ''in klasik '' @ [CHR 0xC5, CHR 0x9F] @ ''ifrelemeyle ba'' @ [CHR 0xC5, CHR 0x9F] @ ''latma reddedildi.''),
      (''CRYPTO_FALLBACK_X25519_WARN'', ''[UYARI] Sistem M'' @ ''L-KEM '' @ [CHR 0xC3, CHR 0xBC] @ ''retemedi, klasik X25519 anahtar'' @ [CHR 0xC4, CHR 0xB1] @ ''na d'' @ [CHR 0xC3, CHR 0xBC, CHR 0xC5, CHR 0x9F, CHR 0xC3, CHR 0xBC] @ ''l'' @ [CHR 0xC3, CHR 0xBC] @ ''yor!''),
      (''CRYPTO_INVALID_CLIENT_ED25519'', ''Ge'' @ [CHR 0xC3, CHR 0xA7] @ ''ersiz istemci Ed25519 a'' @ [CHR 0xC3, CHR 0xA7, CHR 0xC4, CHR 0xB1] @ ''k anahtar'' @ [CHR 0xC4, CHR 0xB1] @ ''! Kasa tohumu t'' @ [CHR 0xC3, CHR 0xBC] @ ''retilemez.''),
      (''CRYPTO_INVALID_KEY_FORMAT'', ''Ge'' @ [CHR 0xC3, CHR 0xA7] @ ''ersiz anahtar format'' @ [CHR 0xC4, CHR 0xB1] @ ''!''),
      (''CRYPTO_ONLY_ED25519_SUPPORTED'', ''Yaln'' @ [CHR 0xC4, CHR 0xB1] @ ''zca ssh-ed25519 algoritmas'' @ [CHR 0xC4, CHR 0xB1] @ ''na sahip anahtarlar desteklenir!''),
      (''CRYPTO_KEY_TOO_SHORT'', ''Anahtar verisi '' @ [CHR 0xC3, CHR 0xA7] @ ''ok k'' @ [CHR 0xC4, CHR 0xB1] @ ''sa!''),
      (''CRYPTO_WIRE_FORMAT_ERROR'', ''OpenSSH wire format'' @ [CHR 0xC4, CHR 0xB1] @ '' '' @ [CHR 0xC3, CHR 0xA7, CHR 0xC3, CHR 0xB6] @ ''z'' @ [CHR 0xC3, CHR 0xBC] @ ''mlenemedi!''),
      (''CRYPTO_ED25519_LENGTH_ERROR'', ''Ed25519 a'' @ [CHR 0xC3, CHR 0xA7, CHR 0xC4, CHR 0xB1] @ ''k anahtar'' @ [CHR 0xC4, CHR 0xB1] @ '' tam 32 bayt olmal'' @ [CHR 0xC4, CHR 0xB1] @ ''d'' @ [CHR 0xC4, CHR 0xB1] @ ''r!''),
      (''CRYPTO_NOT_ED25519_TYPE'', ''Anahtar Ed25519 t'' @ [CHR 0xC3, CHR 0xBC] @ ''r'' @ [CHR 0xC3, CHR 0xBC] @ ''nde de'' @ [CHR 0xC4, CHR 0x9F] @ ''il!''),
      (''CRYPTO_VERIFICATION_FAILED'', ''Kriptografik a'' @ [CHR 0xC3, CHR 0xA7, CHR 0xC4, CHR 0xB1] @ ''k anahtar do'' @ [CHR 0xC4, CHR 0x9F] @ ''rulanamad'' @ [CHR 0xC4, CHR 0xB1] @ '': {error}'')]"

definition tr_e2ee :: "(string \<times> string) list" where
  "tr_e2ee =
     [(''E2EE_ACTIVE_BADGE'', '' ['' @ [CHR 0xF0, CHR 0x9F, CHR 0x94, CHR 0x92] @ '' E2EE] ''),
      (''E2EE_INACTIVE_BADGE'', '' ['' @ [CHR 0xF0, CHR 0x9F, CHR 0x94, CHR 0x93] @ '' D'' @ [CHR 0xC3, CHR 0x9C] @ ''Z MET'' @ [CHR 0xC4, CHR 0xB0] @ ''N] ''),
      (''E2EE_WARNING_TELNET_PEER'', ''[G'' @ [CHR 0xC3, CHR 0x9C] @ ''VENL'' @ [CHR 0xC4, CHR 0xB0] @ ''K] {user} Telnet '' @ [CHR 0xC3, CHR 0xBC] @ ''zerinden ba'' @ [CHR 0xC4, CHR 0x9F] @ ''l'' @ [CHR 0xC4, CHR 0xB1] @ '' oldu'' @ [CHR 0xC4, CHR 0x9F] @ ''u i'' @ [CHR 0xC3, CHR 0xA7] @ ''in bu sohbette u'' @ [CHR 0xC3, CHR 0xA7] @ ''tan uca '' @ [CHR 0xC5, CHR 0x9F] @ ''ifreleme (E2EE) devre d'' @ [CHR 0xC4, CHR 0xB1, CHR 0xC5, CHR 0x9F, CHR 0xC4, CHR 0xB1] @ ''d'' @ [CHR 0xC4, CHR 0xB1] @ ''r.''),
      (''E2EE_ENABLED_NOTICE'', ''[G'' @ [CHR 0xC3, CHR 0x9C] @ ''VENL'' @ [CHR 0xC4, CHR 0xB0] @ ''K] U'' @ [CHR 0xC3, CHR 0xA7] @ ''tan uca '' @ [CHR 0xC5, CHR 0x9F] @ ''ifreleme (E2EE - Kyber768 + AES-256-GCM) aktif.''),
      (''E2EE_DECRYPT_FAIL_PLACEHOLDER'', [CHR 0xF0, CHR 0x9F, CHR 0x94, CHR 0x92] @ '' [DE'' @ [CHR 0xC5, CHR 0x9E, CHR 0xC4, CHR 0xB0] @ ''FRE HATASI: Anahtar Uyu'' @ [CHR 0xC5, CHR 0x9F] @ ''mazl'' @ [CHR 0xC4, CHR 0xB1, CHR 0xC4, CHR 0x9F, CHR 0xC4, CHR 0xB1] @ '']''),
      (''E2EE_ENCRYPT_ERROR_LOG'', ''E2EE '' @ [CHR 0xC5, CHR 0x9F] @ ''ifreleme hatas'' @ [CHR 0xC4, CHR 0xB1] @ '': {error}''),
      (''E2EE_ENCRYPT_ERROR_NOTICE'', ''[E2EE HATA] Mesaj '' @ [CHR 0xC5, CHR 0x9F] @ ''ifrelenemedi: {error}''),
      (''E2EE_TELNET_BANNER_WARNING'', [CHR 0x1B] @ ''[1;41;37m UYARI! OTURUMUNUZ K'' @ [CHR 0xC4, CHR 0xB0] @ ''L'' @ [CHR 0xC4, CHR 0xB0] @ ''TL'' @ [CHR 0xC4, CHR 0xB0] @ '' DE'' @ [CHR 0xC4, CHR 0x9E, CHR 0xC4, CHR 0xB0] @ ''L! '' @ [CHR 0x1B] @ ''[0m'' @ [CHR 0x0D, CHR 0x0A, CHR 0x1B] @ ''[1;31mBu oturuma g'' @ [CHR 0xC3, CHR 0xBC] @ ''vensiz Telnet protokol'' @ [CHR 0xC3, CHR 0xBC] @ '' '' @ [CHR 0xC3, CHR 0xBC] @ ''zerinden ba'' @ [CHR 0xC4, CHR 0x9F] @ ''land'' @ [CHR 0xC4, CHR 0xB1] @ ''n'' @ [CHR 0xC4, CHR 0xB1] @ ''z.'' @ [CHR 0x1B] @ ''[0m'' @ [CHR 0x0D, CHR 0x0A, CHR 0x1B] @ ''[33mDonan'' @ [CHR 0xC4, CHR 0xB1] @ ''m anahtar'' @ [CHR 0xC4, CHR 0xB1] @ ''n'' @ [CHR 0xC4, CHR 0xB1] @ ''z (id_ed25519) istemcide bulunmad'' @ [CHR 0xC4, CHR 0xB1, CHR 0xC4, CHR 0x9F, CHR 0xC4, CHR 0xB1] @ '' i'' @ [CHR 0xC3, CHR 0xA7] @ ''in u'' @ [CHR 0xC3, CHR 0xA7] @ ''tan uca '' @ [CHR 0xC5, CHR 0x9F] @ ''ifreli (E2EE) mesajlar '' @ [CHR 0xC3, CHR 0xA7, CHR 0xC3, CHR 0xB6] @ ''z'' @ [CHR 0xC3, CHR 0xBC] @ ''lemez ve oturumunuz dinlenmeye a'' @ [CHR 0xC3, CHR 0xA7, CHR 0xC4, CHR 0xB1] @ ''kt'' @ [CHR 0xC4, CHR 0xB1] @ ''r.'' @ [CHR 0x1B] @ ''[0m'')]"

definition tr_clients_1 :: "(string \<times> string) list" where
  "tr_clients_1 =
     [(''CLIENT_NEW_CONN'', ''Yeni terminal ba'' @ [CHR 0xC4, CHR 0x9F] @ ''lant'' @ [CHR 0xC4, CHR 0xB1] @ ''s'' @ [CHR 0xC4, CHR 0xB1] @ '' a'' @ [CHR 0xC3, CHR 0xA7, CHR 0xC4, CHR 0xB1] @ ''ld'' @ [CHR 0xC4, CHR 0xB1] @ '': {addr}''),
      (''CLIENT_USER_LOGGED_IN'', ''Kullan'' @ [CHR 0xC4, CHR 0xB1] @ ''c'' @ [CHR 0xC4, CHR 0xB1] @ '' oturum a'' @ [CHR 0xC3, CHR 0xA7] @ ''t'' @ [CHR 0xC4, CHR 0xB1] @ '': {user}''),
      (''CLIENT_CONN_CLOSED'', ''Ba'' @ [CHR 0xC4, CHR 0x9F] @ ''lant'' @ [CHR 0xC4, CHR 0xB1] @ '' kapand'' @ [CHR 0xC4, CHR 0xB1] @ '': {addr}''),
      (''CLIENT_SOCKET_ERROR'', ''Soket hatas'' @ [CHR 0xC4, CHR 0xB1] @ '' ({addr}): {error}''),
      (''CLIENT_LISTENING'', ''Terminal TUI Portu Dinleniyor: {port}''),
      (''CLIENT_INPUT_ERROR'', ''Girdi i'' @ [CHR 0xC5, CHR 0x9F] @ ''leme hatas'' @ [CHR 0xC4, CHR 0xB1] @ '': {error}''),
      (''CLIENT_MSG_DISPATCH_ERROR'', ''Mesaj da'' @ [CHR 0xC4, CHR 0x9F, CHR 0xC4, CHR 0xB1] @ ''t'' @ [CHR 0xC4, CHR 0xB1] @ ''m hatas'' @ [CHR 0xC4, CHR 0xB1] @ '': {error}''),
      (''CLIENT_CLOSED'', [CHR 0xC4, CHR 0xB0] @ ''stemci TUI sunucusu ve a'' @ [CHR 0xC3, CHR 0xA7, CHR 0xC4, CHR 0xB1] @ ''k oturumlar kapat'' @ [CHR 0xC4, CHR 0xB1] @ ''ld'' @ [CHR 0xC4, CHR 0xB1] @ ''.'')]"

definition tr_errors :: "(string \<times> string) list" where
  "tr_errors =
     [(''ERR_UNCAUGHT'', ''Kritik Yakalanmam'' @ [CHR 0xC4, CHR 0xB1, CHR 0xC5, CHR 0x9F] @ '' Hata (uncaughtException): {error}''),
      (''ERR_UNHANDLED_REJECTION'', ''Yakalanmam'' @ [CHR 0xC4, CHR 0xB1, CHR 0xC5, CHR 0x9F] @ '' Asenkron Promise (unhandledRejection): {error}''),
      (''ERR_OPERATION_FAILED'', ''[{context}] Hata yakaland'' @ [CHR 0xC4, CHR 0xB1] @ '': {error}'')]"

definition tr_screen_1 :: "(string \<times> string) list" where
  "tr_screen_1 =
     [(''TUI_WELCOME_BANNER'', ''=== METRICE TERMINAL ==='' @ [CHR 0x0D, CHR 0x0A]),
      (''TUI_LOGIN_PROMPT'', ''Kullan'' @ [CHR 0xC4, CHR 0xB1] @ ''c'' @ [CHR 0xC4, CHR 0xB1] @ '' ad'' @ [CHR 0xC4, CHR 0xB1] @ '' girin (a-z, 0-9, _): ''),
      (''TUI_INVALID_USERNAME'', [CHR 0x0D, CHR 0x0A] @ ''Ge'' @ [CHR 0xC3, CHR 0xA7] @ ''ersiz ad! Sadece a-z, 0-9, _, - kullan'' @ [CHR 0xC4, CHR 0xB1] @ ''n: ''),
      (''TUI_USERNAME_TAKEN'', [CHR 0x0D, CHR 0x0A] @ ''Bu kullan'' @ [CHR 0xC4, CHR 0xB1] @ ''c'' @ [CHR 0xC4, CHR 0xB1] @ '' zaten ba'' @ [CHR 0xC4, CHR 0x9F] @ ''l'' @ [CHR 0xC4, CHR 0xB1] @ ''! Ba'' @ [CHR 0xC5, CHR 0x9F] @ ''ka bir ad se'' @ [CHR 0xC3, CHR 0xA7] @ ''in: ''),
      (''TUI_PASSWORD_PROMPT'', [CHR 0x0D, CHR 0x0A] @ ''Parola: ''),
      (''TUI_NEW_USER_PASSWORD_PROMPT'', [CHR 0x0D, CHR 0x0A] @ ''[YEN'' @ [CHR 0xC4, CHR 0xB0] @ '' HESAP] Parola belirleyin (min 4 karakter): ''),
      (''TUI_CONFIRM_PASSWORD_PROMPT'', [CHR 0x0D, CHR 0x0A] @ ''Parolay'' @ [CHR 0xC4, CHR 0xB1] @ '' tekrar girin: ''),
      (''TUI_PASSWORD_MISMATCH'', [CHR 0x0D, CHR 0x0A] @ ''[HATA] Parolalar e'' @ [CHR 0xC5, CHR 0x9F] @ ''le'' @ [CHR 0xC5, CHR 0x9F] @ ''medi! Tekrar deneyin.'' @ [CHR 0x0D, CHR 0x0A]),
      (''TUI_PASSWORD_TOO_SHORT'', [CHR 0x0D, CHR 0x0A] @ ''[HATA] Parola en az 4 karakter olmal'' @ [CHR 0xC4, CHR 0xB1] @ ''d'' @ [CHR 0xC4, CHR 0xB1] @ ''r!'' @ [CHR 0x0D, CHR 0x0A]),
      (''TUI_WRONG_PASSWORD'', [CHR 0x0D, CHR 0x0A] @ ''[HATA] Hatal'' @ [CHR 0xC4, CHR 0xB1] @ '' parola! Kalan hak: {remaining}'' @ [CHR 0x0D, CHR 0x0A]),
      (''TUI_MAX_LOGIN_ATTEMPTS'', [CHR 0x0D, CHR 0x0A, CHR 0xC3, CHR 0x87] @ ''ok fazla hatal'' @ [CHR 0xC4, CHR 0xB1] @ '' deneme. Ba'' @ [CHR 0xC4, CHR 0x9F] @ ''lant'' @ [CHR 0xC4, CHR 0xB1] @ '' kesildi.'' @ [CHR 0x0D, CHR 0x0A]),
      (''TUI_TELNET_BLOCKED_SSH_ONLY'', [CHR 0x0D, CHR 0x0A, CHR 0x1B] @ ''[1;31m[G'' @ [CHR 0xC3, CHR 0x9C] @ ''VENL'' @ [CHR 0xC4, CHR 0xB0] @ ''K]'' @ [CHR 0x1B] @ ''[0m Bu hesap SSH Ed25519 donan'' @ [CHR 0xC4, CHR 0xB1] @ ''m anahtar'' @ [CHR 0xC4, CHR 0xB1] @ '' ile m'' @ [CHR 0xC3, CHR 0xBC] @ ''h'' @ [CHR 0xC3, CHR 0xBC] @ ''rlenmi'' @ [CHR 0xC5, CHR 0x9F] @ ''tir.'' @ [CHR 0x0D, CHR 0x0A] @ ''Telnet eri'' @ [CHR 0xC5, CHR 0x9F] @ ''imi kapal'' @ [CHR 0xC4, CHR 0xB1] @ ''d'' @ [CHR 0xC4, CHR 0xB1] @ ''r. '' @ [CHR 0xC4, CHR 0xB0] @ ''zin vermek i'' @ [CHR 0xC3, CHR 0xA7] @ ''in SSH ile ba'' @ [CHR 0xC4, CHR 0x9F] @ ''lan'' @ [CHR 0xC4, CHR 0xB1] @ ''p '' @ [CHR 0x1B] @ ''[1;33m/allowtelnet on'' @ [CHR 0x1B] @ ''[0m yaz'' @ [CHR 0xC4, CHR 0xB1] @ ''n.'' @ [CHR 0x0D, CHR 0x0A]),
      (''TUI_TELNET_NO_KEY_IN_PROFILE'', [CHR 0x0D, CHR 0x0A, CHR 0x1B] @ ''[1;31m[HATA]'' @ [CHR 0x1B] @ ''[0m Hesab'' @ [CHR 0xC4, CHR 0xB1] @ ''n'' @ [CHR 0xC4, CHR 0xB1] @ ''za ait SSH anahtar'' @ [CHR 0xC4, CHR 0xB1] @ '' profilde bulunamad'' @ [CHR 0xC4, CHR 0xB1] @ ''. L'' @ [CHR 0xC3, CHR 0xBC] @ ''tfen '' @ [CHR 0xC3, CHR 0xB6] @ ''nce bir kez SSH ile giri'' @ [CHR 0xC5, CHR 0x9F] @ '' yap'' @ [CHR 0xC4, CHR 0xB1] @ ''n.'' @ [CHR 0x0D, CHR 0x0A]),
      (''TUI_SESSION_CLOSED'', [CHR 0x0D, CHR 0x0A] @ ''Oturum kapat'' @ [CHR 0xC4, CHR 0xB1] @ ''ld'' @ [CHR 0xC4, CHR 0xB1] @ ''.'' @ [CHR 0x0D, CHR 0x0A]),
      (''TUI_SERVER_SHUTDOWN'', [CHR 0x0D, CHR 0x0A] @ ''[SUNUCU] Sunucu kapat'' @ [CHR 0xC4, CHR 0xB1] @ ''l'' @ [CHR 0xC4, CHR 0xB1] @ ''yor. Oturumunuz sonland'' @ [CHR 0xC4, CHR 0xB1] @ ''r'' @ [CHR 0xC4, CHR 0xB1] @ ''ld'' @ [CHR 0xC4, CHR 0xB1] @ ''.'' @ [CHR 0x0D, CHR 0x0A]),
      (''TUI_HINT_SIDEBAR_FOCUS'', ''[ODAK: L'' @ [CHR 0xC4, CHR 0xB0] @ ''STE | Ok/Enter | Tab/Yaz: Giri'' @ [CHR 0xC5, CHR 0x9F] @ '']''),
      (''TUI_HINT_INPUT_FOCUS'', ''[Tab: Tamamla/Liste | PgUp/Dn: Kayd'' @ [CHR 0xC4, CHR 0xB1] @ ''r]''),
      (''TUI_HEADER_TITLE'', '' METRICE | {address}''),
      (''TUI_SIDEBAR_HEADER_FOCUSED'', '' [Konsol/Odalar] ''),
      (''TUI_SIDEBAR_HEADER_UNFOCUSED'', '' Konsol/Odalar ''),
      (''TUI_MEMBERS_HEADER'', '' '' @ [CHR 0xC3, CHR 0x9C] @ ''yeler ({count}) ''),
      (''TUI_CHAT_HEADER'', '' Pencere: {target}{scroll} ''),
      (''TUI_CHAT_NO_TARGET'', ''Se'' @ [CHR 0xC3, CHR 0xA7] @ ''ilmedi''),
      (''TUI_BOTTOM_INFO'', '' /help | /join #oda | /leave | /msg @kisi | /remove | /status | [Tab] Tamamla'')]"

definition tr_screen_2 :: "(string \<times> string) list" where
  "tr_screen_2 =
     [(''TUI_TYPING_INDICATOR'', '' '' @ [CHR 0xE2, CHR 0x9C, CHR 0x8E] @ '' {user} yaz'' @ [CHR 0xC4, CHR 0xB1] @ ''yor...''),
      (''TUI_ME_SENDER_YOU'', ''Sen''),
      (''TUI_SYSTEM_SENDER'', ''S'' @ [CHR 0xC4, CHR 0xB0] @ ''STEM''),
      (''TUI_SNIPPET_TITLE'', ''--- [YAPI'' @ [CHR 0xC5, CHR 0x9E] @ ''TIRILAN MET'' @ [CHR 0xC4, CHR 0xB0] @ ''N / KOD BLO'' @ [CHR 0xC4, CHR 0x9E] @ ''U] ---''),
      (''TUI_SCREEN_TOO_SMALL'', ''Terminal '' @ [CHR 0xC3, CHR 0xA7] @ ''ok k'' @ [CHR 0xC3, CHR 0xBC, CHR 0xC3, CHR 0xA7, CHR 0xC3, CHR 0xBC] @ ''k! L'' @ [CHR 0xC3, CHR 0xBC] @ ''tfen b'' @ [CHR 0xC3, CHR 0xBC] @ ''y'' @ [CHR 0xC3, CHR 0xBC] @ ''t'' @ [CHR 0xC3, CHR 0xBC] @ ''n (Min: 80x15). '' @ [CHR 0xC5, CHR 0x9E] @ ''u an: {width}x{height}''),
      (''TUI_SYS_PANEL_TITLE'', '' [D'' @ [CHR 0xC3, CHR 0xBC, CHR 0xC4, CHR 0x9F, CHR 0xC3, CHR 0xBC] @ ''m & E'' @ [CHR 0xC5, CHR 0x9F] @ ''ler] ''),
      (''TUI_SYS_PANEL_UPTIME'', ''UPTIME :''),
      (''TUI_SYS_PANEL_RAM'', ''RAM    :''),
      (''TUI_SYS_PANEL_PEERS'', ''E'' @ [CHR 0xC5, CHR 0x9E] @ ''LER ({count}):''),
      (''TUI_SYS_PANEL_NO_PEERS'', ''(E'' @ [CHR 0xC5, CHR 0x9F] @ '' yok)'')]"

definition tr_system :: "(string \<times> string) list" where
  "tr_system =
     [(''SYS_WELCOME'', ''Metrice Terminale Ho'' @ [CHR 0xC5, CHR 0x9F] @ '' Geldin! Giri'' @ [CHR 0xC5, CHR 0x9F] @ '' yap'' @ [CHR 0xC4, CHR 0xB1] @ ''ld'' @ [CHR 0xC4, CHR 0xB1] @ '': {address}''),
      (''SYS_HELP_TIP'', ''Komut listesi i'' @ [CHR 0xC3, CHR 0xA7] @ ''in /help yazabilirsin.''),
      (''SYS_UNKNOWN_COMMAND'', ''[UYARI] Bilinmeyen komut: /{cmd}. Yard'' @ [CHR 0xC4, CHR 0xB1] @ ''m i'' @ [CHR 0xC3, CHR 0xA7] @ ''in /help yazabilirsiniz.''),
      (''SYS_COMMAND_ERROR'', ''[HATA] /{cmd} '' @ [CHR 0xC3, CHR 0xA7] @ ''al'' @ [CHR 0xC4, CHR 0xB1, CHR 0xC5, CHR 0x9F] @ ''t'' @ [CHR 0xC4, CHR 0xB1] @ ''r'' @ [CHR 0xC4, CHR 0xB1] @ ''l'' @ [CHR 0xC4, CHR 0xB1] @ ''rken hata: {error}''),
      (''SYS_SYSTEM_WINDOW_NO_MSG'', ''[B'' @ [CHR 0xC4, CHR 0xB0] @ ''LG'' @ [CHR 0xC4, CHR 0xB0] @ ''] Sistem konsoluna do'' @ [CHR 0xC4, CHR 0x9F] @ ''rudan mesaj yaz'' @ [CHR 0xC4, CHR 0xB1] @ ''lamaz. Komut '' @ [CHR 0xC3, CHR 0xA7] @ ''al'' @ [CHR 0xC4, CHR 0xB1, CHR 0xC5, CHR 0x9F] @ ''t'' @ [CHR 0xC4, CHR 0xB1] @ ''rmak i'' @ [CHR 0xC3, CHR 0xA7] @ ''in / ile ba'' @ [CHR 0xC5, CHR 0x9F] @ ''lay'' @ [CHR 0xC4, CHR 0xB1] @ ''n veya bir odaya ge'' @ [CHR 0xC3, CHR 0xA7] @ ''in.''),
      (''SYS_OUTBOX_QUEUED'', ''[OUTBOX] {target} '' @ [CHR 0xC3, CHR 0xA7] @ ''evrimd'' @ [CHR 0xC4, CHR 0xB1, CHR 0xC5, CHR 0x9F, CHR 0xC4, CHR 0xB1] @ '', mesaj kuyru'' @ [CHR 0xC4, CHR 0x9F] @ ''a al'' @ [CHR 0xC4, CHR 0xB1] @ ''nd'' @ [CHR 0xC4, CHR 0xB1] @ ''.''),
      (''SYS_JOINED_CHANNEL'', ''[B'' @ [CHR 0xC4, CHR 0xB0] @ ''LG'' @ [CHR 0xC4, CHR 0xB0] @ ''] {channel} kanal'' @ [CHR 0xC4, CHR 0xB1] @ ''na kat'' @ [CHR 0xC4, CHR 0xB1] @ ''ld'' @ [CHR 0xC4, CHR 0xB1] @ ''n'' @ [CHR 0xC4, CHR 0xB1] @ ''z.''),
      (''SYS_LEFT_CHANNEL'', ''[B'' @ [CHR 0xC4, CHR 0xB0] @ ''LG'' @ [CHR 0xC4, CHR 0xB0] @ ''] {channel} kanal'' @ [CHR 0xC4, CHR 0xB1] @ ''ndan ayr'' @ [CHR 0xC4, CHR 0xB1] @ ''ld'' @ [CHR 0xC4, CHR 0xB1] @ ''n'' @ [CHR 0xC4, CHR 0xB1] @ ''z ve mesaj ge'' @ [CHR 0xC3, CHR 0xA7] @ ''mi'' @ [CHR 0xC5, CHR 0x9F] @ ''iniz silindi.''),
      (''SYS_REMOVED_DM'', ''[B'' @ [CHR 0xC4, CHR 0xB0] @ ''LG'' @ [CHR 0xC4, CHR 0xB0] @ ''] {target} ile olan '' @ [CHR 0xC3, CHR 0xB6] @ ''zel sohbet ve mesaj ge'' @ [CHR 0xC3, CHR 0xA7] @ ''mi'' @ [CHR 0xC5, CHR 0x9F] @ ''iniz silindi.''),
      (''SYS_PASTE_MODE_ON'', ''[B'' @ [CHR 0xC4, CHR 0xB0] @ ''LG'' @ [CHR 0xC4, CHR 0xB0] @ ''] Manuel yap'' @ [CHR 0xC4, CHR 0xB1, CHR 0xC5, CHR 0x9F] @ ''t'' @ [CHR 0xC4, CHR 0xB1] @ ''rma modu aktif. G'' @ [CHR 0xC3, CHR 0xB6] @ ''ndermek i'' @ [CHR 0xC3, CHR 0xA7] @ ''in /paste tekrar yaz'' @ [CHR 0xC4, CHR 0xB1] @ ''n.'')]"

definition tr_commands_1 :: "(string \<times> string) list" where
  "tr_commands_1 =
     [(''CMD_HELP_HEADER'', ''=== KULLANILAB'' @ [CHR 0xC4, CHR 0xB0] @ ''L'' @ [CHR 0xC4, CHR 0xB0] @ ''R KOMUTLAR ===''),
      (''CMD_HELP_DESC'', ''Kullan'' @ [CHR 0xC4, CHR 0xB1] @ ''labilir t'' @ [CHR 0xC3, CHR 0xBC] @ ''m komutlar'' @ [CHR 0xC4, CHR 0xB1] @ '' listeler''),
      (''CMD_ME_DESC'', ''Durum/eylem mesaj'' @ [CHR 0xC4, CHR 0xB1] @ '' g'' @ [CHR 0xC3, CHR 0xB6] @ ''nderir ('' @ [CHR 0xC3, CHR 0x96] @ ''rn: /me kahve i'' @ [CHR 0xC3, CHR 0xA7] @ ''iyor)''),
      (''CMD_ME_USAGE_ERROR'', ''[HATA] Kullan'' @ [CHR 0xC4, CHR 0xB1] @ ''m: /me <eylem>''),
      (''CMD_ME_TARGET_ERROR'', ''[HATA] /me kullanmak i'' @ [CHR 0xC3, CHR 0xA7] @ ''in aktif bir sohbette veya odada olmal'' @ [CHR 0xC4, CHR 0xB1] @ ''s'' @ [CHR 0xC4, CHR 0xB1] @ ''n'' @ [CHR 0xC4, CHR 0xB1] @ ''z.''),
      (''CMD_MSG_DESC'', ''Bir kullan'' @ [CHR 0xC4, CHR 0xB1] @ ''c'' @ [CHR 0xC4, CHR 0xB1] @ ''yla '' @ [CHR 0xC3, CHR 0xB6] @ ''zel sohbet ba'' @ [CHR 0xC5, CHR 0x9F] @ ''lat'' @ [CHR 0xC4, CHR 0xB1] @ ''r''),
      (''CMD_MSG_USAGE_ERROR'', ''[HATA] Kullan'' @ [CHR 0xC4, CHR 0xB1] @ ''m: /msg @user:host[:port]''),
      (''CMD_MSG_FORMAT_ERROR'', ''[HATA] Ge'' @ [CHR 0xC3, CHR 0xA7] @ ''ersiz format: {input}. '' @ [CHR 0xC3, CHR 0x96] @ ''rnek: /msg @ahmet:localhost:8002''),
      (''CMD_JOIN_DESC'', ''Bir odaya/kanala kat'' @ [CHR 0xC4, CHR 0xB1] @ ''l'' @ [CHR 0xC4, CHR 0xB1] @ ''r''),
      (''CMD_JOIN_USAGE_ERROR'', ''[HATA] Kullan'' @ [CHR 0xC4, CHR 0xB1] @ ''m: /join #oda_adi veya /join #oda:host:port''),
      (''CMD_LEAVE_DESC'', ''Bulundu'' @ [CHR 0xC4, CHR 0x9F] @ ''unuz kanaldan ayr'' @ [CHR 0xC4, CHR 0xB1] @ ''l'' @ [CHR 0xC4, CHR 0xB1] @ ''r ve sizdeki ge'' @ [CHR 0xC3, CHR 0xA7] @ ''mi'' @ [CHR 0xC5, CHR 0x9F] @ ''i siler''),
      (''CMD_LEAVE_USAGE_ERROR'', ''[HATA] Sadece kanallardan (/leave #oda) ayr'' @ [CHR 0xC4, CHR 0xB1] @ ''labilirsiniz. DM silmek i'' @ [CHR 0xC3, CHR 0xA7] @ ''in /remove kullan'' @ [CHR 0xC4, CHR 0xB1] @ ''n.''),
      (''CMD_REMOVE_DESC'', ''Bir DM sohbetini listeden kald'' @ [CHR 0xC4, CHR 0xB1] @ ''r'' @ [CHR 0xC4, CHR 0xB1] @ ''r ve sizdeki mesajlar'' @ [CHR 0xC4, CHR 0xB1] @ '' siler''),
      (''CMD_REMOVE_USAGE_ERROR'', ''[HATA] Kullan'' @ [CHR 0xC4, CHR 0xB1] @ ''m: /remove @kullanici (veya aktif DM penceresindeyken /remove)''),
      (''CMD_SYSTEM_DESC'', ''Sistem konsol penceresine ge'' @ [CHR 0xC3, CHR 0xA7] @ ''er''),
      (''CMD_WHO_DESC'', ''Bu sunucudaki aktif kullan'' @ [CHR 0xC4, CHR 0xB1] @ ''c'' @ [CHR 0xC4, CHR 0xB1] @ ''lar'' @ [CHR 0xC4, CHR 0xB1] @ '' listeler''),
      (''CMD_WHO_EMPTY'', ''Kimse yok''),
      (''CMD_WHO_RESULT'', ''[WHO] Aktif Yerel Kullan'' @ [CHR 0xC4, CHR 0xB1] @ ''c'' @ [CHR 0xC4, CHR 0xB1] @ ''lar: {users}''),
      (''CMD_PEERS_DESC'', ''A'' @ [CHR 0xC4, CHR 0x9F] @ ''da ke'' @ [CHR 0xC5, CHR 0x9F] @ ''fedilen aktif e'' @ [CHR 0xC5, CHR 0x9F] @ '' d'' @ [CHR 0xC3, CHR 0xBC, CHR 0xC4, CHR 0x9F, CHR 0xC3, CHR 0xBC] @ ''mleri listeler''),
      (''CMD_PEERS_EMPTY'', ''Hen'' @ [CHR 0xC3, CHR 0xBC] @ ''z ba'' @ [CHR 0xC4, CHR 0x9F] @ ''l'' @ [CHR 0xC4, CHR 0xB1] @ '' e'' @ [CHR 0xC5, CHR 0x9F] @ '' bulunamad'' @ [CHR 0xC4, CHR 0xB1] @ ''.''),
      (''CMD_PEERS_RESULT'', ''[PEERS] Ke'' @ [CHR 0xC5, CHR 0x9F] @ ''fedilen D'' @ [CHR 0xC3, CHR 0xBC, CHR 0xC4, CHR 0x9F, CHR 0xC3, CHR 0xBC] @ ''mler ({count}): {peers}''),
      (''CMD_CLEAR_DESC'', ''Aktif pencerenin mesaj ekran'' @ [CHR 0xC4, CHR 0xB1] @ ''n'' @ [CHR 0xC4, CHR 0xB1] @ '' temizler''),
      (''CMD_QUIT_DESC'', ''Terminal oturumunu kapat'' @ [CHR 0xC4, CHR 0xB1] @ ''r''),
      (''CMD_STATUS_DESC'', ''A'' @ [CHR 0xC4, CHR 0x9F] @ '', d'' @ [CHR 0xC3, CHR 0xBC, CHR 0xC4, CHR 0x9F, CHR 0xC3, CHR 0xBC] @ ''m ve sistem kaynak istatistiklerini g'' @ [CHR 0xC3, CHR 0xB6] @ ''r'' @ [CHR 0xC3, CHR 0xBC] @ ''nt'' @ [CHR 0xC3, CHR 0xBC] @ ''ler'')]"

definition tr_commands_2 :: "(string \<times> string) list" where
  "tr_commands_2 =
     [(''CMD_STATUS_HEADER'', ''=== D'' @ [CHR 0xC3, CHR 0x9C, CHR 0xC4, CHR 0x9E, CHR 0xC3, CHR 0x9C] @ ''M & S'' @ [CHR 0xC4, CHR 0xB0] @ ''STEM DURUMU ===''),
      (''CMD_STATUS_UPTIME'', [CHR 0xC3, CHR 0x87] @ ''al'' @ [CHR 0xC4, CHR 0xB1, CHR 0xC5, CHR 0x9F] @ ''ma S'' @ [CHR 0xC3, CHR 0xBC] @ ''resi (Uptime) : {uptime}''),
      (''CMD_STATUS_MEMORY'', ''Bellek T'' @ [CHR 0xC3, CHR 0xBC] @ ''ketimi (RSS)   : {rss} MB (Heap: {heap} MB)''),
      (''CMD_STATUS_CLIENTS'', ''Aktif Yerel Oturumlar   : {count} kullan'' @ [CHR 0xC4, CHR 0xB1] @ ''c'' @ [CHR 0xC4, CHR 0xB1]),
      (''CMD_STATUS_PEERS'', ''Ke'' @ [CHR 0xC5, CHR 0x9F] @ ''fedilen E'' @ [CHR 0xC5, CHR 0x9F] @ '' D'' @ [CHR 0xC3, CHR 0xBC, CHR 0xC4, CHR 0x9F, CHR 0xC3, CHR 0xBC] @ ''mler  : {count} adet ({peers})''),
      (''CMD_STATUS_OUTBOX'', ''Bekleyen '' @ [CHR 0xC4, CHR 0xB0] @ ''letim Kuyru'' @ [CHR 0xC4, CHR 0x9F] @ ''u : {count} mesaj''),
      (''CMD_PASTE_DESC'', ''Manuel '' @ [CHR 0xC3, CHR 0xA7] @ ''ok sat'' @ [CHR 0xC4, CHR 0xB1] @ ''rl'' @ [CHR 0xC4, CHR 0xB1] @ '' yap'' @ [CHR 0xC4, CHR 0xB1, CHR 0xC5, CHR 0x9F] @ ''t'' @ [CHR 0xC4, CHR 0xB1] @ ''rma modunu a'' @ [CHR 0xC3, CHR 0xA7] @ ''ar/kapat'' @ [CHR 0xC4, CHR 0xB1] @ ''r'')]"

definition tr_allowtelnet :: "(string \<times> string) list" where
  "tr_allowtelnet =
     [(''CMD_ALLOWTELNET_DESC'', ''SSH hesab'' @ [CHR 0xC4, CHR 0xB1] @ ''n'' @ [CHR 0xC4, CHR 0xB1] @ ''n Telnet '' @ [CHR 0xC3, CHR 0xBC] @ ''zerinden g'' @ [CHR 0xC3, CHR 0xBC] @ ''vensiz eri'' @ [CHR 0xC5, CHR 0x9F] @ ''imine izin verir veya kapat'' @ [CHR 0xC4, CHR 0xB1] @ ''r (on/off)''),
      (''CMD_ALLOWTELNET_USAGE'', ''/allowtelnet [on|off]''),
      (''CMD_ALLOWTELNET_ENABLED'', [CHR 0x1B] @ ''[1;33m[G'' @ [CHR 0xC3, CHR 0x9C] @ ''VENL'' @ [CHR 0xC4, CHR 0xB0] @ ''K]'' @ [CHR 0x1B] @ ''[0m Bu hesap i'' @ [CHR 0xC3, CHR 0xA7] @ ''in Telnet '' @ [CHR 0xC3, CHR 0xBC] @ ''zerinden '' @ [CHR 0xC5, CHR 0x9F] @ ''ifresiz giri'' @ [CHR 0xC5, CHR 0x9F] @ '' '' @ [CHR 0x1B] @ ''[1;32mAKT'' @ [CHR 0xC4, CHR 0xB0] @ ''F'' @ [CHR 0x1B] @ ''[0m edildi. Oturumunuz Telnet '' @ [CHR 0xC3, CHR 0xBC] @ ''zerinden a'' @ [CHR 0xC3, CHR 0xA7, CHR 0xC4, CHR 0xB1] @ ''ld'' @ [CHR 0xC4, CHR 0xB1, CHR 0xC4, CHR 0x9F, CHR 0xC4, CHR 0xB1] @ ''nda E2EE kasas'' @ [CHR 0xC4, CHR 0xB1] @ '' '' @ [CHR 0xC3, CHR 0xA7, CHR 0xC3, CHR 0xB6] @ ''z'' @ [CHR 0xC3, CHR 0xBC] @ ''lemeyecektir.''),
      (''CMD_ALLOWTELNET_DISABLED'', [CHR 0x1B] @ ''[1;32m[G'' @ [CHR 0xC3, CHR 0x9C] @ ''VENL'' @ [CHR 0xC4, CHR 0xB0] @ ''K]'' @ [CHR 0x1B] @ ''[0m Bu hesap i'' @ [CHR 0xC3, CHR 0xA7] @ ''in Telnet eri'' @ [CHR 0xC5, CHR 0x9F] @ ''imi '' @ [CHR 0x1B] @ ''[1;31mKAPATILDI'' @ [CHR 0x1B] @ ''[0m. Art'' @ [CHR 0xC4, CHR 0xB1] @ ''k sadece SSH donan'' @ [CHR 0xC4, CHR 0xB1] @ ''m anahtar'' @ [CHR 0xC4, CHR 0xB1] @ '' ile giri'' @ [CHR 0xC5, CHR 0x9F] @ '' yap'' @ [CHR 0xC4, CHR 0xB1] @ ''labilir.''),
      (''CMD_ALLOWTELNET_STATUS_OPEN'', [CHR 0x1B] @ ''[1;32mA'' @ [CHR 0xC3, CHR 0x87] @ ''IK'' @ [CHR 0x1B] @ ''[0m (Telnet ile girilebilir)''),
      (''CMD_ALLOWTELNET_STATUS_LOCKED'', [CHR 0x1B] @ ''[1;31mKAPALI'' @ [CHR 0x1B] @ ''[0m (Sadece SSH)''),
      (''CMD_ALLOWTELNET_CURRENT_STATUS'', ''Mevcut Telnet Eri'' @ [CHR 0xC5, CHR 0x9F] @ ''im Durumu: {status}''),
      (''CMD_ALLOWTELNET_HELP_TIP'', ''Kullan'' @ [CHR 0xC4, CHR 0xB1] @ ''m: /allowtelnet on  (Eri'' @ [CHR 0xC5, CHR 0x9F] @ ''ime izin ver) | /allowtelnet off (Kapat ve kilitle)'')]"

definition tr_keys :: "(string \<times> string) list" where
  "tr_keys =
     [(''CMD_KEYS_DESC'', ''SSH Ed25519 donan'' @ [CHR 0xC4, CHR 0xB1] @ ''m a'' @ [CHR 0xC3, CHR 0xA7, CHR 0xC4, CHR 0xB1] @ ''k anahtarlar'' @ [CHR 0xC4, CHR 0xB1] @ ''n'' @ [CHR 0xC4, CHR 0xB1] @ '' y'' @ [CHR 0xC3, CHR 0xB6] @ ''netir (list, add, del)''),
      (''CMD_KEYS_USAGE'', ''/keys [list | add <ssh-ed25519 ...> | del <parmak_izi_veya_sira>]''),
      (''CMD_KEYS_HEADER'', ''=== TANIMLI SSH ED25519 DONANIM ANAHTARLARINIZ ===''),
      (''CMD_KEYS_EMPTY'', ''(Tan'' @ [CHR 0xC4, CHR 0xB1] @ ''ml'' @ [CHR 0xC4, CHR 0xB1] @ '' ek a'' @ [CHR 0xC3, CHR 0xA7, CHR 0xC4, CHR 0xB1] @ ''k anahtar bulunmuyor)''),
      (''CMD_KEYS_ADD_PROMPT'', ''Yeni anahtar eklemek i'' @ [CHR 0xC3, CHR 0xA7] @ ''in: /keys add ssh-ed25519 AAAAC3...''),
      (''CMD_KEYS_INPUT_REQUIRED'', ''[HATA] L'' @ [CHR 0xC3, CHR 0xBC] @ ''tfen eklenecek a'' @ [CHR 0xC3, CHR 0xA7, CHR 0xC4, CHR 0xB1] @ ''k anahtar'' @ [CHR 0xC4, CHR 0xB1] @ '' girin.'' @ [CHR 0x0D, CHR 0x0A, CHR 0xC3, CHR 0x96] @ ''rnek: /keys add ssh-ed25519 AAAAC3NzaC1lZDI1NTE5AAAAI...''),
      (''CMD_KEYS_ALREADY_EXISTS'', ''[B'' @ [CHR 0xC4, CHR 0xB0] @ ''LG'' @ [CHR 0xC4, CHR 0xB0] @ ''] Bu Ed25519 anahtar'' @ [CHR 0xC4, CHR 0xB1] @ '' zaten hesab'' @ [CHR 0xC4, CHR 0xB1] @ ''n'' @ [CHR 0xC4, CHR 0xB1] @ ''zda tan'' @ [CHR 0xC4, CHR 0xB1] @ ''ml'' @ [CHR 0xC4, CHR 0xB1] @ ''.''),
      (''CMD_KEYS_ADDED_SUCCESS'', ''[BA'' @ [CHR 0xC5, CHR 0x9E] @ ''ARILI] Yeni SSH anahtar'' @ [CHR 0xC4, CHR 0xB1] @ '' hesab'' @ [CHR 0xC4, CHR 0xB1] @ ''n'' @ [CHR 0xC4, CHR 0xB1] @ ''za eklendi!'' @ [CHR 0x0D, CHR 0x0A] @ ''Parmak '' @ [CHR 0xC4, CHR 0xB0] @ ''zi: SHA256:{fingerprint}'' @ [CHR 0x0D, CHR 0x0A] @ ''Art'' @ [CHR 0xC4, CHR 0xB1] @ ''k bu makineden de ayn'' @ [CHR 0xC4, CHR 0xB1] @ '' parola ile hesab'' @ [CHR 0xC4, CHR 0xB1] @ ''n'' @ [CHR 0xC4, CHR 0xB1] @ ''za ba'' @ [CHR 0xC4, CHR 0x9F] @ ''lanabilirsiniz.''),
      (''CMD_KEYS_REJECTED'', ''[REDDED'' @ [CHR 0xC4, CHR 0xB0] @ ''LD'' @ [CHR 0xC4, CHR 0xB0] @ ''] Anahtar do'' @ [CHR 0xC4, CHR 0x9F] @ ''rulanamad'' @ [CHR 0xC4, CHR 0xB1] @ '': {error}''),
      (''CMD_KEYS_DEL_INDEX_REQUIRED'', ''[HATA] Silinecek anahtar'' @ [CHR 0xC4, CHR 0xB1] @ ''n s'' @ [CHR 0xC4, CHR 0xB1] @ ''ra numaras'' @ [CHR 0xC4, CHR 0xB1] @ ''n'' @ [CHR 0xC4, CHR 0xB1] @ '' belirtin. ('' @ [CHR 0xC3, CHR 0x96] @ ''rn: /keys del 2)''),
      (''CMD_KEYS_LAST_KEY_PROTECTION'', ''[ENGEL] Hesab'' @ [CHR 0xC4, CHR 0xB1] @ ''n'' @ [CHR 0xC4, CHR 0xB1] @ ''zdaki son anahtar'' @ [CHR 0xC4, CHR 0xB1] @ '' silemezsiniz! '' @ [CHR 0xC3, CHR 0x96] @ ''nce yeni bir anahtar ekleyin.''),
      (''CMD_KEYS_NOT_FOUND'', ''[HATA] Belirtilen anahtar bulunamad'' @ [CHR 0xC4, CHR 0xB1] @ '': {target}''),
      (''CMD_KEYS_DELETED_SUCCESS'', ''[BA'' @ [CHR 0xC5, CHR 0x9E] @ ''ARILI] Anahtar hesaptan kald'' @ [CHR 0xC4, CHR 0xB1] @ ''r'' @ [CHR 0xC4, CHR 0xB1] @ ''ld'' @ [CHR 0xC4, CHR 0xB1] @ ''.''),
      (''CMD_KEYS_SYNTAX_HELP'', ''Kullan'' @ [CHR 0xC4, CHR 0xB1] @ ''m: /keys [list | add <ssh-ed25519 ...> | del <s'' @ [CHR 0xC4, CHR 0xB1] @ ''ra>]'')]"

definition tr_registry :: "(string \<times> string) list" where
  "tr_registry =
     [(''CMD_REG_INVALID_MODULE'', ''Ge'' @ [CHR 0xC3, CHR 0xA7] @ ''ersiz komut mod'' @ [CHR 0xC3, CHR 0xBC] @ ''l'' @ [CHR 0xC3, CHR 0xBC] @ '' kay'' @ [CHR 0xC4, CHR 0xB1] @ ''t denemesi.''),
      (''CMD_MSG_IPV6_PORT_SYNTAX'', ''Uyar'' @ [CHR 0xC4, CHR 0xB1] @ '': IPv6 adreslerinde port belirtmek i'' @ [CHR 0xC3, CHR 0xA7] @ ''in [IPv6]:Port s'' @ [CHR 0xC3, CHR 0xB6] @ ''zdizimi kullan'' @ [CHR 0xC4, CHR 0xB1] @ ''lmal'' @ [CHR 0xC4, CHR 0xB1] @ ''d'' @ [CHR 0xC4, CHR 0xB1] @ ''r.''),
      (''CMD_STATUS_NODE'', ''D'' @ [CHR 0xC3, CHR 0xBC, CHR 0xC4, CHR 0x9F, CHR 0xC3, CHR 0xBC] @ ''m: {nodeId} ({address}) [CAP_{role}]''),
      (''CMD_STATUS_RDV_TUNNELS'', ''Rendezvous T'' @ [CHR 0xC3, CHR 0xBC] @ ''nelleri: {current}/{max}''),
      (''CMD_STATUS_RDV_RELAYS'', ''Rendezvous R'' @ [CHR 0xC3, CHR 0xB6] @ ''leleri: {relays}''),
      (''CMD_STATUS_NONE'', ''yok'')]"

definition tr_database_2 :: "(string \<times> string) list" where
  "tr_database_2 =
     [(''DB_LEGACY_CIRCUITS_UPGRADED'', ''Eski active_circuits '' @ [CHR 0xC5, CHR 0x9F] @ ''emas'' @ [CHR 0xC4, CHR 0xB1] @ '' tespit edildi ve bile'' @ [CHR 0xC5, CHR 0x9F] @ ''ik circuit_key format'' @ [CHR 0xC4, CHR 0xB1] @ ''na y'' @ [CHR 0xC3, CHR 0xBC] @ ''kseltildi.'')]"

definition tr_clients_2 :: "(string \<times> string) list" where
  "tr_clients_2 =
     [(''CLIENT_PROXY_ERR'', ''Client Proxy Protocol el s'' @ [CHR 0xC4, CHR 0xB1] @ ''k'' @ [CHR 0xC4, CHR 0xB1, CHR 0xC5, CHR 0x9F] @ ''ma hatas'' @ [CHR 0xC4, CHR 0xB1] @ '': {error}''),
      (''CLIENT_GLOBAL_CHAN_DISPATCHED'', ''K'' @ [CHR 0xC3, CHR 0xBC] @ ''resel kanal (#genel) mesaj'' @ [CHR 0xC4, CHR 0xB1] @ '' da'' @ [CHR 0xC4, CHR 0x9F, CHR 0xC4, CHR 0xB1] @ ''t'' @ [CHR 0xC4, CHR 0xB1] @ ''ld'' @ [CHR 0xC4, CHR 0xB1] @ '': {from} -> {target} ({status})''),
      (''CLIENT_GLOBAL_CHAN_ERR'', ''K'' @ [CHR 0xC3, CHR 0xBC] @ ''resel kanal (#genel) mesaj da'' @ [CHR 0xC4, CHR 0x9F, CHR 0xC4, CHR 0xB1] @ ''t'' @ [CHR 0xC4, CHR 0xB1] @ ''m hatas'' @ [CHR 0xC4, CHR 0xB1] @ '': {error}'')]"

definition tr_ssh_2 :: "(string \<times> string) list" where
  "tr_ssh_2 =
     [(''SSH_INVALID_BANNER_LEN'', ''Ge'' @ [CHR 0xC3, CHR 0xA7] @ ''ersiz SSH ID banner uzunlu'' @ [CHR 0xC4, CHR 0x9F] @ ''u, ba'' @ [CHR 0xC4, CHR 0x9F] @ ''lant'' @ [CHR 0xC4, CHR 0xB1] @ '' kesiliyor.''),
      (''SSH_HEADER_BUFFER_OVERFLOW'', [CHR 0xC5, CHR 0x9E] @ ''ifresiz SSH ba'' @ [CHR 0xC5, CHR 0x9F] @ ''l'' @ [CHR 0xC4, CHR 0xB1] @ ''k tamponu ta'' @ [CHR 0xC5, CHR 0x9F] @ ''t'' @ [CHR 0xC4, CHR 0xB1] @ '', ba'' @ [CHR 0xC4, CHR 0x9F] @ ''lant'' @ [CHR 0xC4, CHR 0xB1] @ '' s'' @ [CHR 0xC4, CHR 0xB1] @ ''f'' @ [CHR 0xC4, CHR 0xB1] @ ''rlan'' @ [CHR 0xC4, CHR 0xB1] @ ''yor.''),
      (''SSH_CLEANUP_ERROR'', ''SSH temizleme hatas'' @ [CHR 0xC4, CHR 0xB1] @ '': {error}''),
      (''SSH_PROXY_HANDSHAKE_ERR'', ''SSH Proxy Protocol el s'' @ [CHR 0xC4, CHR 0xB1] @ ''k'' @ [CHR 0xC4, CHR 0xB1, CHR 0xC5, CHR 0x9F] @ ''ma hatas'' @ [CHR 0xC4, CHR 0xB1] @ '': {error}'')]"

definition tr_onion_1 :: "(string \<times> string) list" where
  "tr_onion_1 =
     [(''ONION_CELL_SIZE_EXCEEDED'', ''Onion h'' @ [CHR 0xC3, CHR 0xBC] @ ''cresi boyutu uniform s'' @ [CHR 0xC4, CHR 0xB1] @ ''n'' @ [CHR 0xC4, CHR 0xB1] @ ''r'' @ [CHR 0xC4, CHR 0xB1] @ '' a'' @ [CHR 0xC5, CHR 0x9F] @ ''t'' @ [CHR 0xC4, CHR 0xB1] @ '' ({len} > {max})''),
      (''ONION_CIRCUIT_MIN_HOPS'', ''Devre en az 1 r'' @ [CHR 0xC3, CHR 0xB6] @ ''le atlamas'' @ [CHR 0xC4, CHR 0xB1] @ '' gerektirir''),
      (''ONION_HOP_NO_KEY'', ''Atlama {index} ({hop}) i'' @ [CHR 0xC3, CHR 0xA7] @ ''in kemPublicKey bulunamad'' @ [CHR 0xC4, CHR 0xB1]),
      (''ONION_GUARD_UNACKNOWLEDGED'', ''Devre kurulumu Guard r'' @ [CHR 0xC3, CHR 0xB6] @ ''lesi taraf'' @ [CHR 0xC4, CHR 0xB1] @ ''ndan onaylanmad'' @ [CHR 0xC4, CHR 0xB1] @ '': {address}''),
      (''ONION_CIRCUIT_DROPPED_SOCKET'', ''Kopan soket ili'' @ [CHR 0xC5, CHR 0x9F] @ ''kili istemci devresi havuzdan d'' @ [CHR 0xC3, CHR 0xBC, CHR 0xC5, CHR 0x9F, CHR 0xC3, CHR 0xBC] @ ''r'' @ [CHR 0xC3, CHR 0xBC] @ ''ld'' @ [CHR 0xC3, CHR 0xBC] @ '': {circuitId} ({hop})''),
      (''ONION_PAYLOAD_SIZE_EXCEEDED'', ''Onion payload boyutu MAX_ONION_PAYLOAD ({max}) s'' @ [CHR 0xC4, CHR 0xB1] @ ''n'' @ [CHR 0xC4, CHR 0xB1] @ ''r'' @ [CHR 0xC4, CHR 0xB1] @ ''n'' @ [CHR 0xC4, CHR 0xB1] @ '' a'' @ [CHR 0xC5, CHR 0x9F] @ ''t'' @ [CHR 0xC4, CHR 0xB1] @ '': {bytes} bayt''),
      (''ONION_CIRCUIT_HOP_SAVED'', ''Devre atlamas'' @ [CHR 0xC4, CHR 0xB1] @ '' kaydedildi: {circuitId} ('' @ [CHR 0xC3, CHR 0x96] @ ''nceki: {prev}, Sonraki: {next})''),
      (''ONION_EXTEND_DECRYPT_FAIL'', ''Devre uzatma paketi de'' @ [CHR 0xC5, CHR 0x9F] @ ''ifre edilemedi: {circuitId}''),
      (''ONION_EXTEND_JSON_FAIL'', ''Devre uzatma paketi ge'' @ [CHR 0xC3, CHR 0xA7] @ ''ersiz JSON: {circuitId}''),
      (''ONION_NEXT_HOP_UNACKNOWLEDGED'', ''Sonraki atlama devre kurulumunu onaylamad'' @ [CHR 0xC4, CHR 0xB1] @ '' ({hop}): {reason}''),
      (''ONION_CIRCUIT_SETUP_ERR'', ''Devre kurulum hatas'' @ [CHR 0xC4, CHR 0xB1] @ '': {error}''),
      (''ONION_INVALID_CELL_FRAME'', ''Ge'' @ [CHR 0xC3, CHR 0xA7] @ ''ersiz ONION_CELL '' @ [CHR 0xC3, CHR 0xA7] @ ''er'' @ [CHR 0xC3, CHR 0xA7] @ ''evesi al'' @ [CHR 0xC4, CHR 0xB1] @ ''nd'' @ [CHR 0xC4, CHR 0xB1]),
      (''ONION_UNKNOWN_CIRCUIT_DROPPED'', ''Bilinmeyen devre h'' @ [CHR 0xC3, CHR 0xBC] @ ''cresi al'' @ [CHR 0xC4, CHR 0xB1] @ ''nd'' @ [CHR 0xC4, CHR 0xB1] @ '', d'' @ [CHR 0xC3, CHR 0xBC, CHR 0xC5, CHR 0x9F, CHR 0xC3, CHR 0xBC] @ ''r'' @ [CHR 0xC3, CHR 0xBC] @ ''l'' @ [CHR 0xC3, CHR 0xBC] @ ''yor: {circuitId} ('' @ [CHR 0xC3, CHR 0x96] @ ''nceki: {prev})''),
      (''ONION_CELL_DECRYPT_FAIL'', ''Onion h'' @ [CHR 0xC3, CHR 0xBC] @ ''cresi de'' @ [CHR 0xC5, CHR 0x9F] @ ''ifre edilemedi (AuthTag hatas'' @ [CHR 0xC4, CHR 0xB1] @ ''): {circuitId}''),
      (''ONION_CELL_JSON_ERR'', ''Onion h'' @ [CHR 0xC3, CHR 0xBC] @ ''cresi JSON hatas'' @ [CHR 0xC4, CHR 0xB1] @ '': {error}''),
      (''ONION_TRANSIT_FORWARDED'', ''Onion transit h'' @ [CHR 0xC3, CHR 0xBC] @ ''cresi t'' @ [CHR 0xC3, CHR 0xBC] @ ''nel k'' @ [CHR 0xC3, CHR 0xB6] @ ''pr'' @ [CHR 0xC3, CHR 0xBC] @ ''s'' @ [CHR 0xC3, CHR 0xBC] @ ''yle iletildi -> {forwardTo} (Devre: {circuitId})''),
      (''ONION_TRANSIT_FORWARD_ERR'', ''Onion transit t'' @ [CHR 0xC3, CHR 0xBC] @ ''nel iletim hatas'' @ [CHR 0xC4, CHR 0xB1] @ '': {error}''),
      (''ONION_CELL_FORWARDED'', ''Onion h'' @ [CHR 0xC3, CHR 0xBC] @ ''cresi '' @ [CHR 0xC5, CHR 0x9F] @ ''ifreli kanal ile iletildi -> {forwardTo} (Devre: {circuitId})''),
      (''ONION_CELL_FORWARD_ERR'', ''Onion iletim hatas'' @ [CHR 0xC4, CHR 0xB1] @ '' ({forwardTo}): {error}''),
      (''ONION_CELL_EXIT_REACHED'', ''Onion h'' @ [CHR 0xC3, CHR 0xBC] @ ''cresi '' @ [CHR 0xC3, CHR 0xA7, CHR 0xC4, CHR 0xB1] @ ''k'' @ [CHR 0xC4, CHR 0xB1, CHR 0xC5, CHR 0x9F] @ '' noktas'' @ [CHR 0xC4, CHR 0xB1] @ ''na ula'' @ [CHR 0xC5, CHR 0x9F] @ ''t'' @ [CHR 0xC4, CHR 0xB1] @ ''. Hedef: {node}''),
      (''ONION_MSG_DELIVERED_TUNNEL'', ''Onion mesaj'' @ [CHR 0xC4, CHR 0xB1] @ '' tersine t'' @ [CHR 0xC3, CHR 0xBC] @ ''nel '' @ [CHR 0xC3, CHR 0xBC] @ ''zerinden teslim ediliyor -> NodeID: {node}''),
      (''ONION_CELL_UNDELIVERABLE'', ''Onion h'' @ [CHR 0xC3, CHR 0xBC] @ ''cresi teslim edilemedi: {node} i'' @ [CHR 0xC3, CHR 0xA7] @ ''in aktif tersine t'' @ [CHR 0xC3, CHR 0xBC] @ ''nel bulunamad'' @ [CHR 0xC4, CHR 0xB1]),
      (''ONION_CELL_ASYNC_ERR'', ''Onion h'' @ [CHR 0xC3, CHR 0xBC] @ ''cresi asenkron i'' @ [CHR 0xC5, CHR 0x9F] @ ''leme hatas'' @ [CHR 0xC4, CHR 0xB1] @ '': {error}''),
      (''ONION_INVALID_FORWARD_ADDR'', ''Ge'' @ [CHR 0xC3, CHR 0xA7] @ ''ersiz iletim adresi bi'' @ [CHR 0xC3, CHR 0xA7] @ ''imi'')]"

definition tr_onion_2 :: "(string \<times> string) list" where
  "tr_onion_2 =
     [(''ONION_INVALID_FORWARD_PORT'', ''Ge'' @ [CHR 0xC3, CHR 0xA7] @ ''ersiz iletim port aral'' @ [CHR 0xC4, CHR 0xB1, CHR 0xC4, CHR 0x9F, CHR 0xC4, CHR 0xB1])]"

definition tr_federation_3 :: "(string \<times> string) list" where
  "tr_federation_3 =
     [(''FED_ROLE_UPDATED'', ''D'' @ [CHR 0xC3, CHR 0xBC, CHR 0xC4, CHR 0x9F, CHR 0xC3, CHR 0xBC] @ ''m rol'' @ [CHR 0xC3, CHR 0xBC] @ '' g'' @ [CHR 0xC3, CHR 0xBC] @ ''ncellendi -> {role}''),
      (''FED_PROXY_HANDSHAKE_ERR'', ''Proxy Protocol el s'' @ [CHR 0xC4, CHR 0xB1] @ ''k'' @ [CHR 0xC4, CHR 0xB1, CHR 0xC5, CHR 0x9F] @ ''ma hatas'' @ [CHR 0xC4, CHR 0xB1] @ '': {error}''),
      (''FED_AUTONAT_SSRF_BLOCKED'', ''AutoNAT SSRF Korumas'' @ [CHR 0xC4, CHR 0xB1] @ '': '' @ [CHR 0xC3, CHR 0x96] @ ''zel/Loopback a'' @ [CHR 0xC4, CHR 0x9F] @ ''a dialback engellendi: {ip}''),
      (''FED_AUTONAT_INBOUND_REQUEST'', ''AutoNAT: Inbound Dialback talebi al'' @ [CHR 0xC4, CHR 0xB1] @ ''nd'' @ [CHR 0xC4, CHR 0xB1] @ '' -> {ip}:{port}'')]"

definition tr_federation_5 :: "(string \<times> string) list" where
  "tr_federation_5 =
     [(''FED_AUTONAT_CAPACITY_REACHED'', ''AutoNAT: Aktif dialback kapasitesine ula'' @ [CHR 0xC5, CHR 0x9F, CHR 0xC4, CHR 0xB1] @ ''ld'' @ [CHR 0xC4, CHR 0xB1] @ '' (en fazla {max} e'' @ [CHR 0xC5, CHR 0x9F] @ ''zamanl'' @ [CHR 0xC4, CHR 0xB1] @ '' istek).''),
      (''FED_AUTONAT_RATE_LIMITED'', ''AutoNAT: '' @ [CHR 0xC4, CHR 0xB0] @ ''stek s'' @ [CHR 0xC4, CHR 0xB1] @ ''n'' @ [CHR 0xC4, CHR 0xB1] @ ''rland'' @ [CHR 0xC4, CHR 0xB1] @ ''rmas'' @ [CHR 0xC4, CHR 0xB1] @ '' a'' @ [CHR 0xC5, CHR 0x9F, CHR 0xC4, CHR 0xB1] @ ''ld'' @ [CHR 0xC4, CHR 0xB1] @ '' (h'' @ [CHR 0xC4, CHR 0xB1] @ ''z s'' @ [CHR 0xC4, CHR 0xB1] @ ''n'' @ [CHR 0xC4, CHR 0xB1] @ ''r'' @ [CHR 0xC4, CHR 0xB1] @ ''): {ip}'')]"

definition tr_federation_4 :: "(string \<times> string) list" where
  "tr_federation_4 =
     [(''FED_RDV_NODE_ID_MISMATCH'', ''Rendezvous NodeID e'' @ [CHR 0xC5, CHR 0x9F] @ ''le'' @ [CHR 0xC5, CHR 0x9F] @ ''medi: Beklenen {expected}, T'' @ [CHR 0xC3, CHR 0xBC] @ ''retilen: {derived}''),
      (''FED_RDV_INVALID_SIG'', ''Rendezvous imza ge'' @ [CHR 0xC3, CHR 0xA7] @ ''ersiz: {node}''),
      (''FED_RDV_CAPACITY_REACHED'', ''Rendezvous t'' @ [CHR 0xC3, CHR 0xBC] @ ''nel kapasitesi a'' @ [CHR 0xC5, CHR 0x9F, CHR 0xC4, CHR 0xB1] @ ''ld'' @ [CHR 0xC4, CHR 0xB1] @ '' ({current}/{max}), {node} reddedildi''),
      (''FED_RDV_IP_LIMIT_REACHED'', ''Rendezvous IP s'' @ [CHR 0xC4, CHR 0xB1] @ ''n'' @ [CHR 0xC4, CHR 0xB1] @ ''r'' @ [CHR 0xC4, CHR 0xB1] @ '' a'' @ [CHR 0xC5, CHR 0x9F, CHR 0xC4, CHR 0xB1] @ ''ld'' @ [CHR 0xC4, CHR 0xB1] @ '': {ip} azami {max} aktif t'' @ [CHR 0xC3, CHR 0xBC] @ ''nel limitine ula'' @ [CHR 0xC5, CHR 0x9F] @ ''t'' @ [CHR 0xC4, CHR 0xB1]),
      (''FED_RDV_TUNNEL_CLOSED'', ''Rendezvous t'' @ [CHR 0xC3, CHR 0xBC] @ ''neli kapand'' @ [CHR 0xC4, CHR 0xB1] @ '': {node}''),
      (''FED_RDV_TUNNEL_BOUND'', ''Rendezvous t'' @ [CHR 0xC3, CHR 0xBC] @ ''neli ba'' @ [CHR 0xC5, CHR 0x9F] @ ''ar'' @ [CHR 0xC4, CHR 0xB1] @ ''yla ba'' @ [CHR 0xC4, CHR 0x9F] @ ''land'' @ [CHR 0xC4, CHR 0xB1] @ '': {node} (Aktif t'' @ [CHR 0xC3, CHR 0xBC] @ ''neller: {current}/64)''),
      (''FED_RDV_BOUND_SUCCESS'', ''EDGE d'' @ [CHR 0xC3, CHR 0xBC, CHR 0xC4, CHR 0x9F, CHR 0xC3, CHR 0xBC] @ ''m'' @ [CHR 0xC3, CHR 0xBC] @ '' {node} ile rendezvous ters t'' @ [CHR 0xC3, CHR 0xBC] @ ''neli ba'' @ [CHR 0xC5, CHR 0x9F] @ ''ar'' @ [CHR 0xC4, CHR 0xB1] @ ''yla kuruldu (Aktif t'' @ [CHR 0xC3, CHR 0xBC] @ ''nel: {total})''),
      (''FED_TRANSIT_FORWARDED'', ''Transit do'' @ [CHR 0xC4, CHR 0x9F] @ ''rudan mesaj ters t'' @ [CHR 0xC3, CHR 0xBC] @ ''nel '' @ [CHR 0xC3, CHR 0xBC] @ ''zerinden {node} d'' @ [CHR 0xC3, CHR 0xBC, CHR 0xC4, CHR 0x9F, CHR 0xC3, CHR 0xBC] @ ''m'' @ [CHR 0xC3, CHR 0xBC] @ ''ne iletildi (g'' @ [CHR 0xC3, CHR 0xB6] @ ''nderen: {from}, al'' @ [CHR 0xC4, CHR 0xB1] @ ''c'' @ [CHR 0xC4, CHR 0xB1] @ '': {to})''),
      (''FED_TRANSIT_CROSS_RELAY'', ''Transit do'' @ [CHR 0xC4, CHR 0x9F] @ ''rudan mesaj '' @ [CHR 0xC3, CHR 0xA7] @ ''apraz r'' @ [CHR 0xC3, CHR 0xB6] @ ''le '' @ [CHR 0xC3, CHR 0xBC] @ ''zerinden {relay} d'' @ [CHR 0xC3, CHR 0xBC, CHR 0xC4, CHR 0x9F, CHR 0xC3, CHR 0xBC] @ ''m'' @ [CHR 0xC3, CHR 0xBC] @ ''ne aktar'' @ [CHR 0xC4, CHR 0xB1] @ ''l'' @ [CHR 0xC4, CHR 0xB1] @ ''yor (hedef: {target}, g'' @ [CHR 0xC3, CHR 0xB6] @ ''nderen: {from})''),
      (''FED_PRESENCE_ANNOUNCE_SKEW'', ''Varl'' @ [CHR 0xC4, CHR 0xB1] @ ''k anonsu zaman a'' @ [CHR 0xC5, CHR 0x9F, CHR 0xC4, CHR 0xB1] @ ''m'' @ [CHR 0xC4, CHR 0xB1] @ '' ({node}): Saat fark'' @ [CHR 0xC4, CHR 0xB1] @ '' 24 saati a'' @ [CHR 0xC5, CHR 0x9F] @ ''t'' @ [CHR 0xC4, CHR 0xB1] @ '' ({seconds}s)''),
      (''FED_ROUTE_UPDATE_SKEW'', ''Rota g'' @ [CHR 0xC3, CHR 0xBC] @ ''ncellemesi zaman a'' @ [CHR 0xC5, CHR 0x9F, CHR 0xC4, CHR 0xB1] @ ''m'' @ [CHR 0xC4, CHR 0xB1] @ '' ({node}): Saat fark'' @ [CHR 0xC4, CHR 0xB1] @ '' 24 saati a'' @ [CHR 0xC5, CHR 0x9F] @ ''t'' @ [CHR 0xC4, CHR 0xB1] @ '' ({seconds}s)''),
      (''FED_AUTONAT_CONSENSUS'', ''AutoNAT: Reflected IP konsens'' @ [CHR 0xC3, CHR 0xBC] @ ''s'' @ [CHR 0xC3, CHR 0xBC] @ ''ne var'' @ [CHR 0xC4, CHR 0xB1] @ ''ld'' @ [CHR 0xC4, CHR 0xB1] @ '': {ip} ({votes} e'' @ [CHR 0xC5, CHR 0x9F] @ '' onay'' @ [CHR 0xC4, CHR 0xB1] @ '')''),
      (''FED_AUTONAT_EDGE_SKIPPED'', ''AutoNAT: MESH_ROLE=EDGE a'' @ [CHR 0xC3, CHR 0xA7, CHR 0xC4, CHR 0xB1] @ ''k'' @ [CHR 0xC3, CHR 0xA7] @ ''a yap'' @ [CHR 0xC4, CHR 0xB1] @ ''land'' @ [CHR 0xC4, CHR 0xB1] @ ''r'' @ [CHR 0xC4, CHR 0xB1] @ ''ld'' @ [CHR 0xC4, CHR 0xB1, CHR 0xC4, CHR 0x9F, CHR 0xC4, CHR 0xB1] @ ''ndan dialback atland'' @ [CHR 0xC4, CHR 0xB1] @ '', rol EDGE olarak korunuyor.'')]"

definition tr_federation_6 :: "(string \<times> string) list" where
  "tr_federation_6 =
     [(''FED_AUTONAT_DIALBACK_ERR'', ''Dialback ba'' @ [CHR 0xC5, CHR 0x9F] @ ''latma hatas'' @ [CHR 0xC4, CHR 0xB1] @ '': {error}''),
      (''FED_AUTONAT_ALREADY_RUNNING'', ''AutoNAT: Dialback testi zaten '' @ [CHR 0xC3, CHR 0xA7] @ ''al'' @ [CHR 0xC4, CHR 0xB1, CHR 0xC5, CHR 0x9F, CHR 0xC4, CHR 0xB1] @ ''yor, m'' @ [CHR 0xC3, CHR 0xBC] @ ''kerrer '' @ [CHR 0xC3, CHR 0xA7] @ ''a'' @ [CHR 0xC4, CHR 0x9F] @ ''r'' @ [CHR 0xC4, CHR 0xB1] @ '' engellendi.''),
      (''FED_AUTONAT_TIMEOUT'', ''AutoNAT: Dialback zaman a'' @ [CHR 0xC5, CHR 0x9F, CHR 0xC4, CHR 0xB1] @ ''m'' @ [CHR 0xC4, CHR 0xB1] @ '' -> Rol: CAP_EDGE''),
      (''FED_AUTONAT_PACKET_ERR'', ''Dialback paket g'' @ [CHR 0xC3, CHR 0xB6] @ ''nderim hatas'' @ [CHR 0xC4, CHR 0xB1] @ '': {error}''),
      (''FED_AUTONAT_VERIFIED'', ''AutoNAT: Inbound Dialback do'' @ [CHR 0xC4, CHR 0x9F] @ ''ruland'' @ [CHR 0xC4, CHR 0xB1] @ '' -> Rol: CAP_RELAY''),
      (''FED_RDV_CONNECTED'', ''Rendezvous t'' @ [CHR 0xC3, CHR 0xBC] @ ''neli ba'' @ [CHR 0xC4, CHR 0x9F] @ ''land'' @ [CHR 0xC4, CHR 0xB1] @ '' -> {relay}''),
      (''FED_RDV_DISCONNECTED'', ''Rendezvous ba'' @ [CHR 0xC4, CHR 0x9F] @ ''lant'' @ [CHR 0xC4, CHR 0xB1] @ ''s'' @ [CHR 0xC4, CHR 0xB1] @ '' kesildi -> {relay}, yenileniyor...''),
      (''FED_RDV_CONN_ERR'', ''Rendezvous ba'' @ [CHR 0xC4, CHR 0x9F] @ ''lant'' @ [CHR 0xC4, CHR 0xB1] @ '' hatas'' @ [CHR 0xC4, CHR 0xB1] @ '' ({relay}): {error}''),
      (''FED_RDV_ZOMBIE_DETECTED'', ''Rendezvous zombi t'' @ [CHR 0xC3, CHR 0xBC] @ ''nel tespit edildi (PONG zaman a'' @ [CHR 0xC5, CHR 0x9F, CHR 0xC4, CHR 0xB1] @ ''m'' @ [CHR 0xC4, CHR 0xB1] @ ''): {relay}''),
      (''FED_NO_ACTIVE_RDV'', ''Hedef EDGE {node} i'' @ [CHR 0xC3, CHR 0xA7] @ ''in aktif bulu'' @ [CHR 0xC5, CHR 0x9F] @ ''ma noktas'' @ [CHR 0xC4, CHR 0xB1] @ '' bulunamad'' @ [CHR 0xC4, CHR 0xB1] @ '', mesaj Outbox kuyru'' @ [CHR 0xC4, CHR 0x9F] @ ''una al'' @ [CHR 0xC4, CHR 0xB1] @ ''nd'' @ [CHR 0xC4, CHR 0xB1]),
      (''FED_NO_EXIT_NODE'', ''Hedef {node} ({exit}) i'' @ [CHR 0xC3, CHR 0xA7] @ ''in uygun Exit d'' @ [CHR 0xC3, CHR 0xBC, CHR 0xC4, CHR 0x9F, CHR 0xC3, CHR 0xBC] @ ''m'' @ [CHR 0xC3, CHR 0xBC] @ '' bulunamad'' @ [CHR 0xC4, CHR 0xB1] @ '', Outbox kuyru'' @ [CHR 0xC4, CHR 0x9F] @ ''una al'' @ [CHR 0xC4, CHR 0xB1] @ ''nd'' @ [CHR 0xC4, CHR 0xB1]),
      (''FED_ONION_SEND_ERR'', ''Onion g'' @ [CHR 0xC3, CHR 0xB6] @ ''nderim hatas'' @ [CHR 0xC4, CHR 0xB1] @ '' ({node}): {error}, outbox'' @ [CHR 0x27] @ ''a ekleniyor''),
      (''FED_TARGET_NO_RDV_ERR'', ''Hedef {node} i'' @ [CHR 0xC3, CHR 0xA7] @ ''in aktif bulu'' @ [CHR 0xC5, CHR 0x9F] @ ''ma noktas'' @ [CHR 0xC4, CHR 0xB1] @ '' bulunamad'' @ [CHR 0xC4, CHR 0xB1]),
      (''FED_INVALID_TARGET_ERR'', ''Ge'' @ [CHR 0xC3, CHR 0xA7] @ ''ersiz hedef: {target}'')]"

definition tr_onion_3 :: "(string \<times> string) list" where
  "tr_onion_3 =
     [(''FED_USER_OFFLINE_BROADCAST'', ''Kullan'' @ [CHR 0xC4, CHR 0xB1] @ ''c'' @ [CHR 0xC4, CHR 0xB1] @ '' '' @ [CHR 0xC3, CHR 0xA7] @ ''evrimd'' @ [CHR 0xC4, CHR 0xB1, CHR 0xC5, CHR 0x9F, CHR 0xC4, CHR 0xB1] @ '' anonsu da'' @ [CHR 0xC4, CHR 0x9F, CHR 0xC4, CHR 0xB1] @ ''t'' @ [CHR 0xC4, CHR 0xB1] @ ''ld'' @ [CHR 0xC4, CHR 0xB1] @ '': {user}''),
      (''FED_STALE_OFFLINE_DROPPED'', ''Eski kullan'' @ [CHR 0xC4, CHR 0xB1] @ ''c'' @ [CHR 0xC4, CHR 0xB1] @ '' '' @ [CHR 0xC3, CHR 0xA7] @ ''evrimd'' @ [CHR 0xC4, CHR 0xB1, CHR 0xC5, CHR 0x9F, CHR 0xC4, CHR 0xB1] @ '' paketi yok say'' @ [CHR 0xC4, CHR 0xB1] @ ''ld'' @ [CHR 0xC4, CHR 0xB1] @ '' (taze oturum korunuyor): {user}''),
      (''FED_BILATERAL_SYNC'', ''Bilateral varl'' @ [CHR 0xC4, CHR 0xB1] @ ''k senkronizasyonu yap'' @ [CHR 0xC4, CHR 0xB1] @ ''ld'' @ [CHR 0xC4, CHR 0xB1] @ '': {node}'')]"

definition tr_federation_7 :: "(string \<times> string) list" where
  "tr_federation_7 =
     [(''FED_OUTBOX_EXCEPTION'', ''Giden kutusu (Outbox) kuyruk i'' @ [CHR 0xC5, CHR 0x9F] @ ''leme hatas'' @ [CHR 0xC4, CHR 0xB1] @ '': {error}''),
      (''FED_GOSSIP_WORKER_EXCEPTION'', ''Dedikodu (Gossip) i'' @ [CHR 0xC5, CHR 0x9F] @ '' par'' @ [CHR 0xC3, CHR 0xA7] @ ''ac'' @ [CHR 0xC4, CHR 0xB1, CHR 0xC4, CHR 0x9F, CHR 0xC4, CHR 0xB1] @ '' hatas'' @ [CHR 0xC4, CHR 0xB1] @ '': {error}''),
      (''FED_BUFFER_OVERFLOW_DOS'', ''Tampon ta'' @ [CHR 0xC5, CHR 0x9F] @ ''mas'' @ [CHR 0xC4, CHR 0xB1] @ '' / DoS korumas'' @ [CHR 0xC4, CHR 0xB1] @ '' tetiklendi (sat'' @ [CHR 0xC4, CHR 0xB1] @ ''r sonu olmadan > {max} bayt)''),
      (''FED_KEX_UNEXPECTED_INIT'', ''Ba'' @ [CHR 0xC5, CHR 0x9F] @ ''lat'' @ [CHR 0xC4, CHR 0xB1] @ ''c'' @ [CHR 0xC4, CHR 0xB1] @ '' taraf'' @ [CHR 0xC4, CHR 0xB1] @ ''nda beklenmeyen HANDSHAKE_INIT paketi al'' @ [CHR 0xC4, CHR 0xB1] @ ''nd'' @ [CHR 0xC4, CHR 0xB1]),
      (''FED_KEX_UNEXPECTED_REPLY'', ''Yan'' @ [CHR 0xC4, CHR 0xB1] @ ''tlay'' @ [CHR 0xC4, CHR 0xB1] @ ''c'' @ [CHR 0xC4, CHR 0xB1] @ '' taraf'' @ [CHR 0xC4, CHR 0xB1] @ ''nda beklenmeyen HANDSHAKE_REPLY paketi al'' @ [CHR 0xC4, CHR 0xB1] @ ''nd'' @ [CHR 0xC4, CHR 0xB1])]"

definition tr_onion_4 :: "(string \<times> string) list" where
  "tr_onion_4 =
     [(''E2EE_ENCRYPTED_PLACEHOLDER'', [CHR 0xF0, CHR 0x9F, CHR 0x94, CHR 0x92] @ '' ['' @ [CHR 0xC5, CHR 0x9E, CHR 0xC4, CHR 0xB0] @ ''FREL'' @ [CHR 0xC4, CHR 0xB0] @ '' MET'' @ [CHR 0xC4, CHR 0xB0] @ ''N]'')]"

definition tr_texts :: "(string \<times> string) list" where
  "tr_texts = concat
     [tr_channels, tr_bootstrap, tr_health, tr_database_1, tr_database_3, tr_peers, tr_federation_1, tr_federation_2,
    tr_ssh_1, tr_crypto, tr_e2ee, tr_clients_1, tr_errors, tr_screen_1, tr_screen_2, tr_system, tr_commands_1,
    tr_commands_2, tr_allowtelnet, tr_keys, tr_registry, tr_database_2, tr_clients_2, tr_ssh_2, tr_onion_1,
    tr_onion_2, tr_federation_3, tr_federation_5, tr_federation_4, tr_federation_6, tr_onion_3, tr_federation_7,
    tr_onion_4]"

definition the_texts :: dictionaries where
  "the_texts = \<lparr>dict_tr = map_of tr_texts, dict_en = map_of en_texts\<rparr>"

section \<open>The placeholders\<close>

text \<open>The names in braces of a template, in their order.\<close>

fun holes_from :: "string option \<Rightarrow> string \<Rightarrow> string list" where
  "holes_from h [] = []"
| "holes_from h (c # s) =
     (if c = CHR ''{'' then holes_from (Some []) s
      else if c = CHR ''}'' then (case h of Some n \<Rightarrow> [rev n] | None \<Rightarrow> []) @ holes_from None s
      else holes_from (map_option (Cons c) h) s)"

definition holes :: "string \<Rightarrow> string list" where
  "holes t = holes_from None t"

definition shape :: "string \<times> string \<Rightarrow> string \<times> bool \<times> string list" where
  "shape x = (fst x, snd x \<noteq> [], holes (snd x))"

section \<open>The two languages say the same things\<close>

definition same_holes :: "string list \<Rightarrow> string list \<Rightarrow> bool" where
  "same_holes hs us = (list_all (\<lambda>h. h \<in> set us) hs \<and> list_all (\<lambda>h. h \<in> set hs) us)"

text \<open>Each key of one table has an entry in the other; both have a text, with the same placeholders.\<close>

definition agrees :: "(string \<times> bool \<times> string list) list \<Rightarrow> (string \<times> bool \<times> string list) list \<Rightarrow> bool" where
  "agrees xs ys = list_all (\<lambda>(k, b, hs). b \<and> list_ex (\<lambda>(k', b', hs'). k' = k \<and> b' \<and> same_holes hs hs') ys) xs"

definition agree_both :: "(string \<times> bool \<times> string list) list \<Rightarrow> (string \<times> bool \<times> string list) list \<Rightarrow> bool" where
  "agree_both xs ys = (agrees xs ys \<and> agrees ys xs)"

definition same_texts :: "(string \<times> string) list \<Rightarrow> (string \<times> string) list \<Rightarrow> bool" where
  "same_texts ts us = agree_both (map shape ts) (map shape us)"

text \<open>Two parts with the same keys in the same order are compared entry by entry.\<close>

fun same_key :: "string \<Rightarrow> string \<Rightarrow> bool" where
  "same_key [] [] = True"
| "same_key (c # s) (d # t) = (if c = d then same_key s t else False)"
| "same_key _ _ = False"

lemma same_key_iff: "same_key s t = (s = t)"
  by (induction s t rule: same_key.induct) auto

fun aligned :: "(string \<times> string) list \<Rightarrow> (string \<times> string) list \<Rightarrow> bool" where
  "aligned [] [] = True"
| "aligned ((k, t) # ts) ((k', u) # us) =
     (same_key k k' \<and> t \<noteq> [] \<and> u \<noteq> [] \<and> same_holes (holes t) (holes u) \<and> aligned ts us)"
| "aligned _ _ = False"

lemma same_holes_sym: "same_holes hs us = same_holes us hs"
  by (auto simp: same_holes_def)

lemma agrees_mono: "agrees xs ys \<Longrightarrow> set ys \<subseteq> set zs \<Longrightarrow> agrees xs zs"
  unfolding agrees_def list_all_iff list_ex_iff by fastforce

lemma agrees_append: "agrees (xs @ ys) zs = (agrees xs zs \<and> agrees ys zs)"
  by (simp add: agrees_def)

lemma agree_both_append: "agree_both xs ys \<Longrightarrow> agree_both xs' ys' \<Longrightarrow> agree_both (xs @ xs') (ys @ ys')"
  unfolding agree_both_def agrees_append by (auto elim: agrees_mono)

lemma agree_both_set: "agree_both xs ys \<Longrightarrow> set xs = set xs' \<Longrightarrow> set ys = set ys' \<Longrightarrow> agree_both xs' ys'"
  unfolding agree_both_def agrees_def list_all_iff list_ex_iff by simp

lemma aligned_same: "aligned ts us \<Longrightarrow> same_texts ts us"
proof (induction ts us rule: aligned.induct)
  case (2 k t ts k' u us)
  then have "agree_both ([shape (k, t)] @ map shape ts) ([shape (k', u)] @ map shape us)"
    by (intro agree_both_append)
      (auto simp: agree_both_def agrees_def shape_def same_key_iff same_holes_sym same_texts_def)
  then show ?case by (simp add: same_texts_def)
qed (simp_all add: same_texts_def agree_both_def agrees_def)


lemma channels_agree: "aligned en_channels tr_channels"
  by code_simp

lemma bootstrap_agree: "aligned en_bootstrap tr_bootstrap"
  by code_simp

lemma health_agree: "aligned en_health tr_health"
  by code_simp

lemma database_1_agree: "aligned en_database_1 tr_database_1"
  by code_simp

lemma database_2_agree: "aligned en_database_2 tr_database_2"
  by code_simp

lemma database_3_agree: "aligned en_database_3 tr_database_3"
  by code_simp

lemma peers_agree: "aligned en_peers tr_peers"
  by code_simp

lemma federation_1_agree: "aligned en_federation_1 tr_federation_1"
  by code_simp

lemma federation_2_agree: "aligned en_federation_2 tr_federation_2"
  by code_simp

lemma federation_3_agree: "aligned en_federation_3 tr_federation_3"
  by code_simp

lemma federation_4_agree: "aligned en_federation_4 tr_federation_4"
  by code_simp

lemma federation_5_agree: "aligned en_federation_5 tr_federation_5"
  by code_simp

lemma federation_6_agree: "aligned en_federation_6 tr_federation_6"
  by code_simp

lemma federation_7_agree: "aligned en_federation_7 tr_federation_7"
  by code_simp

lemma ssh_1_agree: "aligned en_ssh_1 tr_ssh_1"
  by code_simp

lemma ssh_2_agree: "aligned en_ssh_2 tr_ssh_2"
  by code_simp

lemma crypto_agree: "aligned en_crypto tr_crypto"
  by code_simp

lemma e2ee_agree: "aligned en_e2ee tr_e2ee"
  by code_simp

lemma clients_1_agree: "aligned en_clients_1 tr_clients_1"
  by code_simp

lemma clients_2_agree: "aligned en_clients_2 tr_clients_2"
  by code_simp

lemma errors_agree: "aligned en_errors tr_errors"
  by code_simp

lemma screen_1_agree: "aligned en_screen_1 tr_screen_1"
  by code_simp

lemma screen_2_agree: "aligned en_screen_2 tr_screen_2"
  by code_simp

lemma system_agree: "aligned en_system tr_system"
  by code_simp

lemma commands_1_agree: "aligned en_commands_1 tr_commands_1"
  by code_simp

lemma commands_2_agree: "aligned en_commands_2 tr_commands_2"
  by code_simp

lemma allowtelnet_agree: "aligned en_allowtelnet tr_allowtelnet"
  by code_simp

lemma keys_agree: "aligned en_keys tr_keys"
  by code_simp

lemma registry_agree: "aligned en_registry tr_registry"
  by code_simp

lemma onion_1_agree: "aligned en_onion_1 tr_onion_1"
  by code_simp

lemma onion_2_agree: "aligned en_onion_2 tr_onion_2"
  by code_simp

lemma onion_3_agree: "aligned en_onion_3 tr_onion_3"
  by code_simp

lemma onion_4_agree: "aligned en_onion_4 tr_onion_4"
  by code_simp

text \<open>The tables are compared part by part, in whatever order their entries stand.\<close>

lemma same_texts_parts:
  assumes "list_all (\<lambda>(ts, us). aligned ts us) parts"
    and "set (concat (map fst parts)) = set ts" "set (concat (map snd parts)) = set us"
  shows "same_texts ts us"
proof -
  have "same_texts (concat (map fst parts)) (concat (map snd parts))"
    using assms(1)
  proof (induction parts)
    case (Cons p parts)
    then show ?case
      using agree_both_append aligned_same by (cases p) (fastforce simp: same_texts_def)
  qed (simp add: same_texts_def agree_both_def agrees_def)
  then show ?thesis
    unfolding same_texts_def by (rule agree_both_set) (simp_all only: set_map assms(2,3))
qed

definition table_parts :: "((string \<times> string) list \<times> (string \<times> string) list) list" where
  "table_parts =
    [(en_channels, tr_channels), (en_bootstrap, tr_bootstrap), (en_health, tr_health), (en_database_1,
    tr_database_1), (en_database_2, tr_database_2), (en_database_3, tr_database_3), (en_peers, tr_peers),
    (en_federation_1, tr_federation_1), (en_federation_2, tr_federation_2), (en_federation_3, tr_federation_3),
    (en_federation_4, tr_federation_4), (en_federation_5, tr_federation_5), (en_federation_6, tr_federation_6),
    (en_federation_7, tr_federation_7), (en_ssh_1, tr_ssh_1), (en_ssh_2, tr_ssh_2), (en_crypto, tr_crypto),
    (en_e2ee, tr_e2ee), (en_clients_1, tr_clients_1), (en_clients_2, tr_clients_2), (en_errors, tr_errors),
    (en_screen_1, tr_screen_1), (en_screen_2, tr_screen_2), (en_system, tr_system), (en_commands_1,
    tr_commands_1), (en_commands_2, tr_commands_2), (en_allowtelnet, tr_allowtelnet), (en_keys, tr_keys),
    (en_registry, tr_registry), (en_onion_1, tr_onion_1), (en_onion_2, tr_onion_2), (en_onion_3, tr_onion_3),
    (en_onion_4, tr_onion_4)]"

lemmas parts_agree =
    channels_agree bootstrap_agree health_agree database_1_agree database_2_agree database_3_agree peers_agree
    federation_1_agree federation_2_agree federation_3_agree federation_4_agree federation_5_agree
    federation_6_agree federation_7_agree ssh_1_agree ssh_2_agree crypto_agree e2ee_agree clients_1_agree
    clients_2_agree errors_agree screen_1_agree screen_2_agree system_agree commands_1_agree commands_2_agree
    allowtelnet_agree keys_agree registry_agree onion_1_agree onion_2_agree onion_3_agree onion_4_agree

text \<open>
  The two languages have the same texts: each key of one table is a key of the other, no text is empty, and the
  placeholders of a text are those of its translation, so whatever a caller fills in in one language it fills in in the
  other.
\<close>

lemma languages_agree: "same_texts en_texts tr_texts"
proof (rule same_texts_parts)
  show "list_all (\<lambda>(ts, us). aligned ts us) table_parts"
    by (simp add: table_parts_def parts_agree)
  show "set (concat (map fst table_parts)) = set en_texts" "set (concat (map snd table_parts)) = set tr_texts"
    by (auto simp: table_parts_def en_texts_def tr_texts_def)
qed

text \<open>The two names the program compares are those of the tables.\<close>

lemma names_in_tables:
  "map_of en_channels ''DEFAULT_CHANNEL_NAME'' = Some (default_channel_name ''en'') \<and>
   map_of en_channels ''SYSTEM_CONSOLE_NAME'' = Some (system_console_name ''en'') \<and>
   map_of tr_channels ''DEFAULT_CHANNEL_NAME'' = Some (default_channel_name ''tr'') \<and>
   map_of tr_channels ''SYSTEM_CONSOLE_NAME'' = Some (system_console_name ''tr'')"
  by code_simp

text \<open>The onion router fills in a size where the text has bytes: the placeholder is shown.\<close>

lemma size_is_not_filled:
  "list_ex (\<lambda>(k, t). k = ''ONION_PAYLOAD_SIZE_EXCEEDED'' \<and> holes t = [''max'', ''bytes'']) en_onion_1"
  by code_simp

end
