(* ===== verification/Spec2Isabelle.thy ===== *)
theory Spec2Isabelle
  imports Prelude Base32 ProxyProtocol Caches Settings Address Json Bytes Crypto Channel
    PeerManager Database JsonSize FedState Onion Presence AutoNat Rendezvous PacketHandler Federation Node
    SshPacket InputParser I18n Session SshAuth SshConnection Telnet E2ee ClientServer Commands SessionInput Health Ansi Renderer
    Terminal Schema Startup Locales
begin

text \<open>
  A model of Metrice, a peer-to-peer chat node in JavaScript (Node.js), with the theorems that make it correct. Users
  reach a node over SSH or Telnet and chat in a terminal screen; nodes find each other, keep encrypted channels, carry
  messages over onion routes and keep what cannot be delivered yet.

  THE PROGRAM AND ITS THEORIES. All sources are under \<open>src/src\<close>.

  Vocabulary. \<open>Prelude\<close> holds JavaScript's insertion-ordered \<open>Map\<close> and \<open>Set\<close>, its string operations, and the locale
  \<open>keeps_invariant\<close> of an operation that keeps an invariant. \<open>Json\<close> and \<open>Bytes\<close> are \<open>JSON.parse\<close>, \<open>JSON.stringify\<close> and the
  conversions of \<open>Buffer\<close>, with their round trips; \<open>JsonSize\<close> counts the bytes of a printed value. \<open>Settings\<close> is
  \<open>config/index.js\<close>, \<open>I18n\<close> is \<open>locales/i18n.js\<close>; \<open>Locales\<close> holds the two tables of
  texts, \<open>locales/en.js\<close> and \<open>locales/tr.js\<close>, as bytes of UTF-8, and shows that they have the same keys and placeholders.

  Codecs. \<open>Base32\<close> is \<open>utils/base32.js\<close> with its 32-bit accumulator; \<open>Address\<close> is \<open>utils/addressHelper.js\<close>;
  \<open>ProxyProtocol\<close> is \<open>utils/proxyProtocol.js\<close>; \<open>SshPacket\<close> is \<open>utils/sshPacket.js\<close>; \<open>InputParser\<close> is
  \<open>utils/inputParser.js\<close>; \<open>Ansi\<close> is \<open>utils/ansi.js\<close> with the text functions of the renderer. Their theorems are round
  trips, the equality of all spellings of an address, and what can come out of a parser.

  Security between nodes. \<open>Crypto\<close> is \<open>utils/cryptoHelper.js\<close>; \<open>Caches\<close> and \<open>Channel\<close> are \<open>core/secureChannel.js\<close> (the
  caches behind the locale \<open>bounded_store\<close>): the handshake binds a session to the key of a node id, replays are refused,
  payloads arrive in order.

  The mesh. \<open>FedState\<close> is the state of \<open>FederationEngine\<close> (\<open>core/federation.js\<close>) and the effects of its operations; the
  managers work on it: \<open>PeerManager\<close>, \<open>Onion\<close>, \<open>Presence\<close>, \<open>AutoNat\<close>, \<open>Rendezvous\<close> and \<open>PacketHandler\<close> are
  \<open>core/peerManager.js\<close>, \<open>onionRouter.js\<close>, \<open>presenceManager.js\<close>, \<open>autoNat.js\<close>, \<open>rendezvousManager.js\<close> and
  \<open>federationPacketHandler.js\<close>. \<open>Federation\<close> holds the engine's own sending, outbox and delivery. \<open>Node\<close> composes them: one
  step for every event of a running node, and the invariant of all states such events lead to.

  Storage. \<open>Database\<close> is \<open>storage/database.js\<close>: tables are lists of rows, a statement is the function it computes. \<open>Schema\<close>
  is \<open>storage/schema.js\<close> with opening the file and the identity of the node: tables are columns and rows, and no start loses
  what an earlier version stored.

  Users. \<open>Session\<close> is \<open>core/terminalSession.js\<close>, with the locale \<open>simulation\<close> that relates the line editor to a text
  around a cursor; \<open>SshAuth\<close> and \<open>SshConnection\<close> are \<open>core/sshAuthHandler.js\<close>, \<open>sshKexHandler.js\<close> and
  \<open>sshClientConnection.js\<close>; \<open>Telnet\<close> is \<open>core/telnetClientConnection.js\<close>; \<open>ClientServer\<close> and \<open>E2ee\<close> are
  \<open>core/clientServer.js\<close>; \<open>Commands\<close> is \<open>commands/\<close>; \<open>SessionInput\<close> is \<open>core/sessionInputHandler.js\<close>; \<open>Renderer\<close> is
  \<open>core/terminalRenderer.js\<close>; \<open>Health\<close> is \<open>core/healthServer.js\<close>. Logins are sound, guesses bounded, private messages
  sealed and read by both ends, what a screen shows is the frame, and over all events of users and mesh the server stays
  consistent (\<open>SessionInput.server_stays_consistent\<close>, on top of the invariant of \<open>Node\<close>). \<open>Terminal\<close> puts parser, input and
  drawing together, from the bytes of a user to the screens. \<open>Startup\<close> is \<open>utils/logger.js\<close>, \<open>utils/errorHandler.js\<close>,
  \<open>version.js\<close>, \<open>core/sshServer.js\<close> and \<open>index.js\<close>.

  CONVENTIONS. A text is a list of characters of one byte each: a character of the source above 255 has no model, and where
  the code itself uses such marks they are arguments. A \<open>Map\<close> is an association list in insertion order (\<open>jm_get\<close>, \<open>jm_set\<close>,
  \<open>jm_delete\<close>), a \<open>Set\<close> a list without repetition (\<open>js_add\<close>). Numbers are \<open>int\<close> or \<open>nat\<close>, machine words where the code
  shifts and masks. An object whose fields the code relies on is a record; packets read from the wire stay JSON values whose
  fields are read with the types the protocol's declarations give them. An operation on state takes it and returns it with the
  list of its effects in order (bytes written, packets sent, events emitted, timers set); an exception ends its handler, and
  where callers see it it is a value (\<open>Throw\<close>, \<open>None\<close>, \<open>Inl\<close>). The clock is the argument \<open>now\<close>. Random draws, and whatever
  an \<open>await\<close> waits for, are arguments too: the answer of a peer, an opened channel, a finished password hash; handlers that
  can be overtaken while they wait are split into steps. Node's modules are parameters (\<open>node_crypto\<close>, \<open>kex_crypto\<close>) with
  what the code relies on as hypotheses (\<open>gcm_ok\<close>, \<open>kem_ok\<close>, \<open>sign_ok\<close>), shown to be satisfiable by \<open>clear_crypto\<close>. The
  records the code shares between two maps are equal records in both. Listeners hear an event after the step that emits it.
  Channel number 0 is the stand-in of packets a node delivers to itself.

  TERMINATION AND BOUNDS. There is no fuel: loops are structural or have a measure, and the two loops of the source that can
  run for ever (growing an empty packet buffer in \<open>SshPacket\<close>, wrapping to no width in \<open>Ansi\<close>) are partial functions whose
  result is \<open>None\<close> then, with theorems that the callers never reach that case. Bounds in the theorems are the code's own
  constants.

  READING THE THEOREMS. Each property carries its number; a property with hypotheses is followed by a witness that applies
  it to a concrete state. Lemmas beside them hold the shared steps: what each operation leaves unchanged, what it keeps, and
  its behaviour on a branch. A few lemmas record behaviour that is surely not meant (for instance
  \<open>Renderer.oldest_line_hidden\<close>, \<open>Ansi.eight_bit_sequence_survives\<close>, \<open>Health.quit_does_not_stop\<close>,
  \<open>ClientServer.away_user_stored_again\<close>, \<open>SshConnection.newkeys_without_exchange_stalls\<close>).

  NOT MODELLED. Sockets, files and timers themselves, and which log line each operation writes (components that show texts
  take them as arguments); the type declarations; tests and scripts.
\<close>

end
